(* ===== verification/Prelude.thy ===== *)
theory Prelude
  imports Main "HOL-Library.Word" "HOL-Library.Monad_Syntax"
begin

text \<open>
  Shared ground of the development: the C types the sources use, the convention for undefined
  behaviour, the allocator, and the list and word lemmas that several components need.

  \<^item> A \<open>char\<close> or \<open>uint8_t\<close> is an \<open>8 word\<close> (\<open>byte\<close>); a buffer is a list of bytes and a
    pointer into it is an index.  Signedness is written out where the code depends on it.
  \<^item> A pointer to a heap object is a \<open>ptr\<close>: \<open>NULL\<close> or \<open>Ptr a\<close>.
  \<^item> \<open>'a ub\<close> is the result of code that can run into undefined behaviour: \<open>None\<close> means that an
    object was read or written outside its bounds, or that \<open>NULL\<close> or a freed object was used.
    Error codes which the code itself returns are ordinary values inside \<open>Some\<close>.
  \<^item> \<open>allocator\<close> stands for the C library's \<open>malloc\<close>, \<open>calloc\<close> and \<open>realloc\<close>: it says for a
    request whether a block is returned (\<open>True\<close>) or \<open>NULL\<close>.
\<close>

unbundle bit_operations_syntax

section \<open>Types\<close>

type_synonym byte = "8 word"
type_synonym bytes = "byte list"
type_synonym addr = nat
type_synonym 'a ub = "'a option"

datatype ptr = NULL | Ptr addr

datatype alloc_request = Sizeof string | Bytes nat

type_synonym allocator = "alloc_request \<Rightarrow> bool"

abbreviation always_alloc :: allocator where
  "always_alloc \<equiv> (\<lambda>_. True)"

section \<open>Collections of rewrite rules\<close>

named_theorems heap_simps \<open>reads and writes of the linked list store\<close>
named_theorems codec_simps \<open>encoders and decoders of the wire format\<close>
named_theorems frame_simps \<open>fields an operation leaves alone\<close>

section \<open>Options and lists\<close>

lemma bind_Some_iff [simp]:
  "(Option.bind x f = Some y) \<longleftrightarrow> (\<exists>z. x = Some z \<and> f z = Some y)"
  by (cases x) auto

lemma find_Some_iff_split:
  "List.find P xs = Some x \<longleftrightarrow>
   (\<exists>ys zs. xs = ys @ x # zs \<and> P x \<and> (\<forall>y \<in> set ys. \<not> P y))"
proof (induction xs)
  case (Cons z zs)
  show ?case
  proof (cases "P z")
    case True
    then show ?thesis
      by (auto simp: Cons_eq_append_conv)
  next
    case False
    then have "List.find P (z # zs) = Some x \<longleftrightarrow>
      (\<exists>us vs. zs = us @ x # vs \<and> P x \<and> (\<forall>y \<in> set us. \<not> P y))"
      using Cons.IH by simp
    also have "\<dots> \<longleftrightarrow> (\<exists>ys vs. z # zs = ys @ x # vs \<and> P x \<and> (\<forall>y \<in> set ys. \<not> P y))"
    proof
      assume "\<exists>us vs. zs = us @ x # vs \<and> P x \<and> (\<forall>y \<in> set us. \<not> P y)"
      then obtain us vs where "zs = us @ x # vs" "P x" "\<forall>y \<in> set us. \<not> P y" by blast
      then show "\<exists>ys vs. z # zs = ys @ x # vs \<and> P x \<and> (\<forall>y \<in> set ys. \<not> P y)"
        using False by (intro exI [of _ "z # us"] exI [of _ vs]) simp
    next
      assume "\<exists>ys vs. z # zs = ys @ x # vs \<and> P x \<and> (\<forall>y \<in> set ys. \<not> P y)"
      then show "\<exists>us vs. zs = us @ x # vs \<and> P x \<and> (\<forall>y \<in> set us. \<not> P y)"
        using False by (auto simp: Cons_eq_append_conv)
    qed
    finally show ?thesis .
  qed
qed simp

lemma nth_eq_take_drop: "i < length xs \<Longrightarrow> xs = take i xs @ xs ! i # drop (Suc i) xs"
  by (rule id_take_nth_drop)

lemma nat_mod_unique: "n = q * m + r \<Longrightarrow> r < m \<Longrightarrow> n mod m = (r :: nat)"
  by simp

lemma split_mult: "(n :: nat) * m = n div k * (k * m) + n mod k * m"
  by (metis div_mult_mod_eq distrib_right mult.assoc)

section \<open>Bytes and words\<close>

lemma unat_byte_less [simp]: "unat (b :: byte) < 256"
  using unsigned_less [of b, where 'a = nat] by simp

lemma unat_of_nat_byte: "unat (of_nat n :: byte) = n mod 256"
  by (simp add: unat_of_nat)

lemma of_nat_unat_byte [simp]: "of_nat (unat (b :: byte)) = b"
  by simp

lemma byte_of_nat_eq_iff: "(of_nat m :: byte) = of_nat n \<longleftrightarrow> m mod 256 = n mod 256"
  by (metis unat_of_nat_byte of_nat_unat_byte)

text \<open>A property of a byte can be checked on all 256 of them.\<close>

lemma byte_all_iff: "(\<forall>d :: byte. P d) \<longleftrightarrow> list_all (\<lambda>n. P (word_of_nat n)) [0..<256]"
proof
  assume "list_all (\<lambda>n. P (word_of_nat n)) [0..<256]"
  then have "P (word_of_nat (unat d))" for d :: byte
    unfolding list_all_iff using unat_byte_less [of d] by (metis atLeastLessThan_iff set_upt zero_le)
  then show "\<forall>d. P d" by simp
qed (simp add: list_all_iff)

lemma sint_byte: "sint (d :: byte) = (if unat d < 128 then int (unat d) else int (unat d) - 256)"
proof -
  define k where "k = uint d"
  have s: "sint d = (k + 128) mod 256 - 128"
    by (simp add: k_def sint_uint signed_take_bit_eq_take_bit_shift take_bit_eq_mod)
  have r: "0 \<le> k" "k < 256"
    using uint_range_size [of d] by (simp_all add: k_def word_size)
  have n: "unat d = nat k" by (simp add: k_def)
  show ?thesis
  proof (cases "k < 128")
    case True
    then have e: "(k + 128) mod 256 = k + 128" using r by (intro mod_pos_pos_trivial) auto
    show ?thesis using True r unfolding s n e by simp
  next
    case False
    have "(k + 128) mod 256 = (k - 128 + 256) mod 256"
      by (rule arg_cong [where f = "\<lambda>x. x mod 256"]) simp
    also have "\<dots> = (k - 128) mod 256" by (rule mod_add_self2)
    also have "\<dots> = k - 128" using r False by (intro mod_pos_pos_trivial) auto
    finally have e: "(k + 128) mod 256 = k - 128" .
    show ?thesis using False r unfolding s n e by simp
  qed
qed

section \<open>Buffers\<close>

text \<open>Reading and writing one byte of a buffer; outside it there is no result.\<close>

definition read_at :: "bytes \<Rightarrow> nat \<Rightarrow> byte ub" where
  "read_at buf i = (if i < length buf then Some (buf ! i) else None)"

definition write_at :: "bytes \<Rightarrow> nat \<Rightarrow> byte \<Rightarrow> bytes ub" where
  "write_at buf i b = (if i < length buf then Some (buf[i := b]) else None)"

text \<open>The characters of a C string literal, without the terminating zero.\<close>

definition bytes_of :: "string \<Rightarrow> bytes" where
  "bytes_of s = map (\<lambda>c. of_nat (of_char c)) s"

lemma read_at_Some [codec_simps]: "i < length buf \<Longrightarrow> read_at buf i = Some (buf ! i)"
  by (simp add: read_at_def)

lemma write_at_Some [codec_simps]: "i < length buf \<Longrightarrow> write_at buf i b = Some (buf[i := b])"
  by (simp add: write_at_def)

lemma length_bytes_of [simp]: "length (bytes_of s) = length s"
  by (simp add: bytes_of_def)

lemma bytes_of_append [simp]: "bytes_of (s @ t) = bytes_of s @ bytes_of t"
  by (simp add: bytes_of_def)

lemma take_update_next: "i < length xs \<Longrightarrow> take (Suc i) (xs[i := x]) = take i xs @ [x]"
  by (simp add: take_Suc_conv_app_nth)

text \<open>Two bytes are equal when their eight bits are.\<close>

lemma byte_eqI:
  fixes x y :: byte
  assumes "bit x 0 = bit y 0" "bit x 1 = bit y 1" "bit x 2 = bit y 2" "bit x 3 = bit y 3"
    "bit x 4 = bit y 4" "bit x 5 = bit y 5" "bit x 6 = bit y 6" "bit x 7 = bit y 7"
  shows "x = y"
proof (rule bit_word_eqI)
  fix n :: nat
  assume "n < LENGTH(8)"
  then have "n = 0 \<or> n = 1 \<or> n = 2 \<or> n = 3 \<or> n = 4 \<or> n = 5 \<or> n = 6 \<or> n = 7" by auto
  then show "bit x n \<longleftrightarrow> bit y n" using assms by (elim disjE) simp_all
qed

text \<open>Shifts and masks of a byte as arithmetic on its value.\<close>

lemma not_bit_byte [simp]: "8 \<le> n \<Longrightarrow> \<not> bit (x :: byte) n"
  using bit_imp_le_length [of x n] by auto

lemma unat_or_disjoint:
  assumes "(x :: byte) AND y = 0"
  shows "unat (x OR y) = unat x + unat y"
proof -
  have "unat x AND unat y = 0" using assms by (metis unsigned_0 unsigned_and_eq)
  then show ?thesis by (simp add: unsigned_or_eq disjunctive_add_eq_or)
qed

lemma take_bit_unat_byte [simp]: "take_bit 8 (unat (x :: byte)) = unat x"
  by (rule take_bit_nat_eq_self) (simp add: less_le_trans [OF unat_byte_less])

lemma unat_drop_byte: "unat (drop_bit n x :: byte) = unat x div 2 ^ n"
  unfolding unsigned_drop_bit_eq by (simp add: drop_bit_eq_div)

lemma unat_take_byte: "unat (take_bit n x :: byte) = unat x mod 2 ^ n"
  unfolding unsigned_take_bit_eq by (rule take_bit_eq_mod)

lemma unat_push_byte: "unat (push_bit n x :: byte) = unat x * 2 ^ n mod 256"
  unfolding unsigned_push_bit_eq by (simp add: push_bit_eq_mult take_bit_eq_mod)

lemma byte_masks:
  fixes x :: byte
  shows "x AND 3 = take_bit 2 x" "x AND 15 = take_bit 4 x" "x AND 63 = take_bit 6 x"
  by (rule byte_eqI; simp add: bit_simps)+

lemma byte_high_masks:
  fixes x :: byte
  shows "drop_bit 2 (x AND NOT 3) = drop_bit 2 x" "drop_bit 4 (x AND NOT 15) = drop_bit 4 x"
    "drop_bit 6 (x AND NOT 63) = drop_bit 6 x"
  by (rule byte_eqI; simp add: bit_simps)+

section \<open>Big-endian numbers\<close>

definition be_nat :: "bytes \<Rightarrow> nat" where
  "be_nat bs = foldl (\<lambda>n b. n * 256 + unat b) 0 bs"

fun be_bytes :: "nat \<Rightarrow> nat \<Rightarrow> bytes" where
  "be_bytes 0 n = []"
| "be_bytes (Suc k) n = be_bytes k (n div 256) @ [of_nat n]"

lemma be_nat_Nil [simp]: "be_nat [] = 0"
  by (simp add: be_nat_def)

lemma be_nat_snoc [simp]: "be_nat (bs @ [b]) = be_nat bs * 256 + unat b"
  by (simp add: be_nat_def)

lemma length_be_bytes [simp]: "length (be_bytes k n) = k"
  by (induction k arbitrary: n) simp_all

lemma be_nat_bound: "be_nat bs < 256 ^ length bs"
proof (induction bs rule: rev_induct)
  case (snoc b bs)
  then have "be_nat bs * 256 + unat b < Suc (be_nat bs) * 256"
    using unat_byte_less [of b] by simp
  also have "\<dots> \<le> 256 ^ length bs * 256" using snoc by (intro mult_le_mono1) simp
  finally show ?case by simp
qed simp

lemma be_nat_be_bytes: "be_nat (be_bytes k n) = n mod 256 ^ k"
proof (induction k arbitrary: n)
  case (Suc k)
  have "n mod (256 * 256 ^ k) = 256 * (n div 256 mod 256 ^ k) + n mod 256"
    by (rule mod_mult2_eq)
  then show ?case by (simp add: Suc unat_of_nat_byte)
qed simp

lemma be_bytes_be_nat [simp]: "be_bytes (length bs) (be_nat bs) = bs"
proof (induction bs rule: rev_induct)
  case (snoc b bs)
  have "(be_nat bs * 256 + unat b) div 256 = be_nat bs" using unat_byte_less [of b] by simp
  moreover have "(of_nat (be_nat bs * 256 + unat b) :: byte) = b"
    by (rule word_unat_eq_iff [THEN iffD2]) (simp add: unat_of_nat_byte del: of_nat_add of_nat_mult)
  ultimately show ?case using snoc by (simp del: of_nat_add of_nat_mult)
qed simp

text \<open>\<open>memcpy\<close> into a buffer.\<close>

definition memcpy_at :: "bytes \<Rightarrow> nat \<Rightarrow> bytes \<Rightarrow> bytes ub" where
  "memcpy_at buf i bs =
     (if i + length bs \<le> length buf then Some (take i buf @ bs @ drop (i + length bs) buf) else None)"

text \<open>The bytes a pointer and a length stand for; a null pointer has no bytes.\<close>

definition iov_base :: "bytes option \<Rightarrow> nat \<Rightarrow> bytes ub" where
  "iov_base base len = (case base of None \<Rightarrow> if len = 0 then Some [] else None
     | Some b \<Rightarrow> if len \<le> length b then Some (take len b) else None)"

lemma iov_base_length: "iov_base base len = Some b \<Longrightarrow> length b = len"
  by (auto simp: iov_base_def split: option.splits if_splits)

lemma iov_base_drop:
  assumes "iov_base base len = Some b" "k \<le> len"
  shows "iov_base (map_option (drop k) base) (len - k) = Some (drop k b)"
  using assms by (auto simp: iov_base_def drop_take split: option.splits if_splits)

end
