(* ===== verification/CursorList.thy ===== *)
theory CursorList
  imports Prelude
begin

text \<open>
  The abstract list the rest of the library works with: the contents of a \<open>List\<close> of
  \<open>LinkedList.c\<close> in order, and its \<open>current\<close> element as an index.  \<open>current\<close> is part of
  the contract: \<open>ListFindItem\<close> looks at it before it searches and leaves it on the element
  found, and callers then read \<open>list->current->content\<close>.  \<open>LinkedList\<close> shows that the pointer
  code implements these operations; the components above use them directly.
\<close>

section \<open>State and operations\<close>

record 'a clist =
  cl_items :: "'a list"
  cl_cur :: "nat option"

definition cl_zero :: "'a clist" where
  "cl_zero = \<lparr>cl_items = [], cl_cur = None\<rparr>"

definition cl_wf :: "'a clist \<Rightarrow> bool" where
  "cl_wf l = (case cl_cur l of None \<Rightarrow> True | Some i \<Rightarrow> i < length (cl_items l))"

fun find_index :: "('a \<Rightarrow> bool) \<Rightarrow> 'a list \<Rightarrow> nat option" where
  "find_index P [] = None"
| "find_index P (x # xs) = (if P x then Some 0 else map_option Suc (find_index P xs))"

definition cl_append :: "'a \<Rightarrow> 'a clist \<Rightarrow> 'a clist" where
  "cl_append x l = l\<lparr>cl_items := cl_items l @ [x]\<rparr>"

definition cl_insert :: "'a \<Rightarrow> nat \<Rightarrow> 'a clist \<Rightarrow> 'a clist" where
  "cl_insert x j l =
     \<lparr>cl_items = take j (cl_items l) @ x # drop j (cl_items l),
      cl_cur = map_option (\<lambda>i. if j \<le> i then Suc i else i) (cl_cur l)\<rparr>"

definition cl_current_matches :: "('a \<Rightarrow> bool) \<Rightarrow> 'a clist \<Rightarrow> bool" where
  "cl_current_matches P l =
     (case cl_cur l of None \<Rightarrow> False | Some i \<Rightarrow> P (cl_items l ! i))"

definition cl_find :: "('a \<Rightarrow> bool) \<Rightarrow> 'a clist \<Rightarrow> nat option \<times> 'a clist" where
  "cl_find P l =
     (if cl_current_matches P l then (cl_cur l, l)
      else case find_index P (cl_items l) of
             None \<Rightarrow> (None, l)
           | Some j \<Rightarrow> (Some j, l\<lparr>cl_cur := Some j\<rparr>))"

definition cl_remove_at :: "nat \<Rightarrow> nat option \<Rightarrow> 'a clist \<Rightarrow> 'a clist" where
  "cl_remove_at j saved l =
     \<lparr>cl_items = take j (cl_items l) @ drop (Suc j) (cl_items l),
      cl_cur = (case saved of
                  None \<Rightarrow> None
                | Some i \<Rightarrow>
                    if i = j then (if Suc j < length (cl_items l) then Some j else None)
                    else if j < i then Some (i - 1) else Some i)\<rparr>"

definition cl_unlink :: "('a \<Rightarrow> bool) \<Rightarrow> 'a clist \<Rightarrow> bool \<times> 'a clist" where
  "cl_unlink P l =
     (case cl_find P l of
        (None, l') \<Rightarrow> (False, l')
      | (Some j, l') \<Rightarrow> (True, cl_remove_at j (cl_cur l) l'))"

definition cl_detach_head :: "'a clist \<Rightarrow> 'a option \<times> 'a clist" where
  "cl_detach_head l =
     (case cl_items l of
        [] \<Rightarrow> (None, l)
      | x # xs \<Rightarrow> (Some x, cl_remove_at 0 (cl_cur l) l))"

definition cl_pop_tail :: "'a clist \<Rightarrow> 'a option \<times> 'a clist" where
  "cl_pop_tail l =
     (if cl_items l = [] then (None, l)
      else (Some (last (cl_items l)),
            \<lparr>cl_items = butlast (cl_items l),
             cl_cur = (case cl_cur l of
                         None \<Rightarrow> None
                       | Some i \<Rightarrow>
                           if Suc i = length (cl_items l)
                           then (if i = 0 then None else Some (i - 1)) else Some i)\<rparr>))"

section \<open>Searching\<close>

lemma find_index_None_iff: "find_index P xs = None \<longleftrightarrow> (\<forall>x \<in> set xs. \<not> P x)"
  by (induction xs) auto

lemma find_index_Some_iff:
  "find_index P xs = Some j \<longleftrightarrow> j < length xs \<and> P (xs ! j) \<and> (\<forall>i < j. \<not> P (xs ! i))"
proof (induction xs arbitrary: j)
  case (Cons x xs)
  then show ?case
    by (cases j) (auto simp: All_less_Suc2)
qed simp

lemma find_index_SomeD:
  assumes "find_index P xs = Some j"
  shows "j < length xs" "P (xs ! j)"
  using assms by (auto simp: find_index_Some_iff)

lemma find_index_map: "find_index P (map f xs) = find_index (P \<circ> f) xs"
  by (induction xs) auto

lemma cl_find_items [frame_simps]: "cl_items (snd (cl_find P l)) = cl_items l"
  by (auto simp: cl_find_def split: option.splits)

lemma cl_find_Some:
  assumes "cl_wf l" "cl_find P l = (Some j, l')"
  shows "j < length (cl_items l)" "P (cl_items l ! j)" "cl_cur l' = Some j"
    "cl_items l' = cl_items l"
  using assms
  by (auto simp: cl_find_def cl_current_matches_def cl_wf_def
      split: if_splits option.splits dest: find_index_SomeD)

lemma cl_find_None:
  assumes "cl_find P l = (None, l')"
  shows "\<forall>x \<in> set (cl_items l). \<not> P x" "l' = l"
  using assms
  by (auto simp: cl_find_def cl_current_matches_def find_index_None_iff
      split: if_splits option.splits)

text \<open>Whether anything is found does not depend on the cursor.\<close>

lemma cl_find_found_iff:
  assumes "cl_wf l"
  shows "fst (cl_find P l) \<noteq> None \<longleftrightarrow> (\<exists>x \<in> set (cl_items l). P x)"
proof (cases "cl_find P l")
  case (Pair r l')
  show ?thesis
  proof (cases r)
    case None
    with Pair show ?thesis using cl_find_None [of P l l'] by auto
  next
    case (Some j)
    with Pair cl_find_Some [OF assms, of P j l'] show ?thesis
      by (auto intro: nth_mem)
  qed
qed

text \<open>
  Where at most one element matches, the cursor does not influence which one is found: the
  cached \<open>current\<close> is then only an optimisation.
\<close>

lemma cl_find_unique:
  assumes wf: "cl_wf l"
    and uniq: "\<And>i j. i < length (cl_items l) \<Longrightarrow> j < length (cl_items l) \<Longrightarrow>
               P (cl_items l ! i) \<Longrightarrow> P (cl_items l ! j) \<Longrightarrow> i = j"
  shows "fst (cl_find P l) = find_index P (cl_items l)"
proof (cases "cl_current_matches P l")
  case True
  then obtain i where i: "cl_cur l = Some i" "P (cl_items l ! i)" "i < length (cl_items l)"
    using wf by (auto simp: cl_current_matches_def cl_wf_def split: option.splits)
  then obtain j where j: "find_index P (cl_items l) = Some j"
    by (metis find_index_None_iff nth_mem option.exhaust)
  with i uniq [of i j] show ?thesis
    using True by (auto simp: cl_find_def dest: find_index_SomeD)
next
  case False
  then show ?thesis by (auto simp: cl_find_def split: option.splits)
qed

section \<open>Well-formedness\<close>

lemma cl_wf_zero [simp]: "cl_wf cl_zero"
  by (simp add: cl_wf_def cl_zero_def)

lemma cl_items_zero [simp]: "cl_items cl_zero = []"
  by (simp add: cl_zero_def)

lemma cl_wf_append [simp]: "cl_wf l \<Longrightarrow> cl_wf (cl_append x l)"
  by (auto simp: cl_wf_def cl_append_def split: option.splits)

lemma cl_items_append [simp]: "cl_items (cl_append x l) = cl_items l @ [x]"
  by (simp add: cl_append_def)

lemma cl_wf_find:
  assumes "cl_wf l"
  shows "cl_wf (snd (cl_find P l))"
  using assms by (auto simp: cl_find_def cl_wf_def split: option.splits dest: find_index_SomeD)

lemma cl_wf_insert: "cl_wf l \<Longrightarrow> j \<le> length (cl_items l) \<Longrightarrow> cl_wf (cl_insert x j l)"
  by (auto simp: cl_wf_def cl_insert_def split: option.splits)

lemma cl_wf_remove_at:
  assumes "j < length (cl_items l)" "\<And>i. saved = Some i \<Longrightarrow> i < length (cl_items l)"
  shows "cl_wf (cl_remove_at j saved l)"
  using assms by (auto simp: cl_wf_def cl_remove_at_def split: option.splits)

lemma cl_wf_unlink:
  assumes "cl_wf l"
  shows "cl_wf (snd (cl_unlink P l))"
proof (cases "cl_find P l")
  case (Pair r l')
  show ?thesis
  proof (cases r)
    case None
    with Pair cl_wf_find [OF assms, of P] show ?thesis by (simp add: cl_unlink_def)
  next
    case (Some j)
    with Pair have f: "cl_find P l = (Some j, l')" by simp
    have "cl_wf (cl_remove_at j (cl_cur l) l')"
      using cl_find_Some [OF assms f] assms
      by (intro cl_wf_remove_at) (auto simp: cl_wf_def)
    with f show ?thesis by (simp add: cl_unlink_def)
  qed
qed

lemma cl_wf_detach_head:
  assumes "cl_wf l"
  shows "cl_wf (snd (cl_detach_head l))"
proof (cases "cl_items l")
  case Nil
  with assms show ?thesis by (simp add: cl_detach_head_def)
next
  case (Cons x xs)
  have "cl_wf (cl_remove_at 0 (cl_cur l) l)"
    using Cons assms by (intro cl_wf_remove_at) (auto simp: cl_wf_def)
  with Cons show ?thesis by (simp add: cl_detach_head_def)
qed

lemma cl_wf_pop_tail: "cl_wf l \<Longrightarrow> cl_wf (snd (cl_pop_tail l))"
  by (auto simp: cl_wf_def cl_pop_tail_def split: option.splits)

text \<open>Unlinking removes exactly one matching element, and nothing when there is none.\<close>

lemma cl_unlink_items:
  assumes "cl_wf l" "cl_unlink P l = (b, l')"
  shows "if b then (\<exists>ys x zs. cl_items l = ys @ x # zs \<and> P x \<and> cl_items l' = ys @ zs)
         else cl_items l' = cl_items l \<and> (\<forall>x \<in> set (cl_items l). \<not> P x)"
proof (cases "cl_find P l")
  case (Pair r l1)
  show ?thesis
  proof (cases r)
    case None
    with Pair assms show ?thesis
      using cl_find_None [of P l l1] by (auto simp: cl_unlink_def)
  next
    case (Some j)
    with Pair have f: "cl_find P l = (Some j, l1)" by simp
    note js = cl_find_Some [OF assms(1) f]
    have "b" "cl_items l' = take j (cl_items l) @ drop (Suc j) (cl_items l)"
      using f assms(2) js by (auto simp: cl_unlink_def cl_remove_at_def)
    with js nth_eq_take_drop [OF js(1)] show ?thesis by metis
  qed
qed

end
