(* ===== verification/LinkedList.thy ===== *)
theory LinkedList
  imports CursorList
begin

text \<open>
  \<open>LinkedList.c\<close>: doubly linked lists over an explicit store.  The store maps the addresses of
  live \<open>ListElement\<close>s to their fields and keeps the set of live blocks the contents point to;
  using a \<open>NULL\<close> or freed element, or freeing a block twice, has no result (\<open>None\<close>).  Loops
  are partial functions, so that a walk over a corrupted (cyclic) list has no result either.
  Each operation is then shown to implement its counterpart in \<open>CursorList\<close>.
\<close>

section \<open>Store\<close>

record ListElement =
  le_prev :: ptr
  le_next :: ptr
  le_content :: ptr

record LList =
  ll_first :: ptr
  ll_last :: ptr
  ll_current :: ptr
  ll_count :: int
  ll_size :: "64 word"

record memory =
  elems :: "addr \<Rightarrow> ListElement option"
  blocks :: "addr set"

definition deref :: "memory \<Rightarrow> ptr \<Rightarrow> ListElement ub" where
  "deref h p = (case p of NULL \<Rightarrow> None | Ptr a \<Rightarrow> elems h a)"

definition assign :: "memory \<Rightarrow> ptr \<Rightarrow> (ListElement \<Rightarrow> ListElement) \<Rightarrow> memory ub" where
  "assign h p f =
     (case p of NULL \<Rightarrow> None
      | Ptr a \<Rightarrow> (case elems h a of None \<Rightarrow> None
                  | Some e \<Rightarrow> Some (h\<lparr>elems := (elems h)(a \<mapsto> f e)\<rparr>)))"

definition free_elem :: "memory \<Rightarrow> ptr \<Rightarrow> memory ub" where
  "free_elem h p =
     (case p of NULL \<Rightarrow> Some h
      | Ptr a \<Rightarrow> (case elems h a of None \<Rightarrow> None
                  | Some e \<Rightarrow> Some (h\<lparr>elems := (elems h)(a := None)\<rparr>)))"

definition free_block :: "memory \<Rightarrow> ptr \<Rightarrow> memory ub" where
  "free_block h p =
     (case p of NULL \<Rightarrow> Some h
      | Ptr a \<Rightarrow> if a \<in> blocks h then Some (h\<lparr>blocks := blocks h - {a}\<rparr>) else None)"

definition malloc_elem :: "memory \<Rightarrow> ptr \<Rightarrow> memory" where
  "malloc_elem h p =
     (case p of NULL \<Rightarrow> h
      | Ptr a \<Rightarrow> h\<lparr>elems := (elems h)(a \<mapsto> \<lparr>le_prev = NULL, le_next = NULL, le_content = NULL\<rparr>)\<rparr>)"

section \<open>Operations\<close>

definition ListZero :: LList where
  "ListZero = \<lparr>ll_first = NULL, ll_last = NULL, ll_current = NULL, ll_count = 0, ll_size = 0\<rparr>"

definition ListInitialize :: "allocator \<Rightarrow> LList option" where
  "ListInitialize malloc = (if malloc (Sizeof ''List'') then Some ListZero else None)"

definition ListAppendNoMalloc ::
  "memory \<Rightarrow> LList \<Rightarrow> ptr \<Rightarrow> ptr \<Rightarrow> 64 word \<Rightarrow> (memory \<times> LList) ub" where
  "ListAppendNoMalloc h l content newel sz =
     do {
       h \<leftarrow> assign h newel (\<lambda>e. e\<lparr>le_content := content, le_next := NULL, le_prev := ll_last l\<rparr>);
       (h, l) \<leftarrow> (if ll_first l = NULL then Some (h, l\<lparr>ll_first := newel\<rparr>)
                  else do { h \<leftarrow> assign h (ll_last l) (\<lambda>e. e\<lparr>le_next := newel\<rparr>); Some (h, l) });
       Some (h, l\<lparr>ll_last := newel, ll_count := ll_count l + 1, ll_size := ll_size l + sz\<rparr>)
     }"

text \<open>\<open>newel\<close> is what \<open>malloc(sizeof(ListElement))\<close> returns: \<open>NULL\<close> or a fresh address.\<close>

definition ListAppend ::
  "memory \<Rightarrow> LList \<Rightarrow> ptr \<Rightarrow> 64 word \<Rightarrow> ptr \<Rightarrow> (ptr \<times> memory \<times> LList) ub" where
  "ListAppend h l content sz newel =
     (if newel = NULL then Some (NULL, h, l)
      else do {
        (h, l) \<leftarrow> ListAppendNoMalloc (malloc_elem h newel) l content newel sz;
        Some (newel, h, l)
      })"

definition ListInsert ::
  "memory \<Rightarrow> LList \<Rightarrow> ptr \<Rightarrow> 64 word \<Rightarrow> ptr \<Rightarrow> ptr \<Rightarrow> (ptr \<times> memory \<times> LList) ub" where
  "ListInsert h l content sz index newel =
     (if newel = NULL then Some (newel, h, l)
      else let h = malloc_elem h newel in
        if index = NULL then do {
          (h, l) \<leftarrow> ListAppendNoMalloc h l content newel sz;
          Some (newel, h, l)
        }
        else do {
          ie \<leftarrow> deref h index;
          h \<leftarrow> assign h newel (\<lambda>e. e\<lparr>le_content := content, le_next := index, le_prev := le_prev ie\<rparr>);
          h \<leftarrow> assign h index (\<lambda>e. e\<lparr>le_prev := newel\<rparr>);
          (h, l) \<leftarrow> (if le_prev ie \<noteq> NULL
                     then do { h \<leftarrow> assign h (le_prev ie) (\<lambda>e. e\<lparr>le_next := newel\<rparr>); Some (h, l) }
                     else Some (h, l\<lparr>ll_first := newel\<rparr>));
          Some (newel, h, l\<lparr>ll_count := ll_count l + 1, ll_size := ll_size l + sz\<rparr>)
        })"

definition ListNextElement :: "memory \<Rightarrow> LList \<Rightarrow> ptr \<Rightarrow> ptr ub" where
  "ListNextElement h l pos =
     (if pos = NULL then Some (ll_first l) else map_option le_next (deref h pos))"

definition ListPrevElement :: "memory \<Rightarrow> LList \<Rightarrow> ptr \<Rightarrow> ptr ub" where
  "ListPrevElement h l pos =
     (if pos = NULL then Some (ll_last l) else map_option le_prev (deref h pos))"

text \<open>
  The comparison of \<open>ListFindItem\<close>: by content pointer when the callback is \<open>NULL\<close>, else the
  callback applied to an element's content and the content looked for.
\<close>

definition content_matches :: "(ptr \<Rightarrow> ptr \<Rightarrow> bool) option \<Rightarrow> ptr \<Rightarrow> ptr \<Rightarrow> bool" where
  "content_matches callback content c =
     (case callback of None \<Rightarrow> c = content | Some f \<Rightarrow> f c content)"

partial_function (option) find_loop ::
  "memory \<Rightarrow> LList \<Rightarrow> (ptr \<Rightarrow> bool) \<Rightarrow> ptr \<Rightarrow> ptr option" where
  "find_loop h l P current =
     Option.bind (ListNextElement h l current) (\<lambda>current.
       if current = NULL then Some NULL
       else Option.bind (deref h current) (\<lambda>e.
         if P (le_content e) then Some current else find_loop h l P current))"

definition ListFindItem ::
  "memory \<Rightarrow> LList \<Rightarrow> ptr \<Rightarrow> (ptr \<Rightarrow> ptr \<Rightarrow> bool) option \<Rightarrow> (ptr \<times> LList) ub" where
  "ListFindItem h l content callback =
     do {
       hit \<leftarrow> (if ll_current l \<noteq> NULL
                then do { e \<leftarrow> deref h (ll_current l);
                          Some (content_matches callback content (le_content e)) }
                else Some False);
       if hit then Some (ll_current l, l)
       else do {
         rc \<leftarrow> find_loop h l (content_matches callback content) NULL;
         Some (rc, if rc \<noteq> NULL then l\<lparr>ll_current := rc\<rparr> else l)
       }
     }"

definition ListFind :: "memory \<Rightarrow> LList \<Rightarrow> ptr \<Rightarrow> (ptr \<times> LList) ub" where
  "ListFind h l content = ListFindItem h l content None"

definition ListUnlink ::
  "memory \<Rightarrow> LList \<Rightarrow> ptr \<Rightarrow> (ptr \<Rightarrow> ptr \<Rightarrow> bool) option \<Rightarrow> bool \<Rightarrow> (bool \<times> memory \<times> LList) ub" where
  "ListUnlink h l content callback freeContent =
     do {
       let saved = ll_current l;
       (found, l) \<leftarrow> ListFindItem h l content callback;
       if found = NULL then Some (False, h, l)
       else do {
         c \<leftarrow> deref h (ll_current l);
         (h, l) \<leftarrow> (if le_prev c = NULL then Some (h, l\<lparr>ll_first := le_next c\<rparr>)
                    else do { h \<leftarrow> assign h (le_prev c) (\<lambda>e. e\<lparr>le_next := le_next c\<rparr>); Some (h, l) });
         (h, l) \<leftarrow> (if le_next c = NULL then Some (h, l\<lparr>ll_last := le_prev c\<rparr>)
                    else do { h \<leftarrow> assign h (le_next c) (\<lambda>e. e\<lparr>le_prev := le_prev c\<rparr>); Some (h, l) });
         let next = le_next c;
         h \<leftarrow> (if freeContent
               then do { h \<leftarrow> free_block h (le_content c);
                         assign h (ll_current l) (\<lambda>e. e\<lparr>le_content := NULL\<rparr>) }
               else Some h);
         let saveddeleted = (saved = ll_current l);
         h \<leftarrow> free_elem h (ll_current l);
         Some (True, h, l\<lparr>ll_current := if saveddeleted then next else saved,
                          ll_count := ll_count l - 1\<rparr>)
       }
     }"

definition ListDetach :: "memory \<Rightarrow> LList \<Rightarrow> ptr \<Rightarrow> (bool \<times> memory \<times> LList) ub" where
  "ListDetach h l content = ListUnlink h l content None False"

definition ListRemove :: "memory \<Rightarrow> LList \<Rightarrow> ptr \<Rightarrow> (bool \<times> memory \<times> LList) ub" where
  "ListRemove h l content = ListUnlink h l content None True"

definition ListDetachItem ::
  "memory \<Rightarrow> LList \<Rightarrow> ptr \<Rightarrow> (ptr \<Rightarrow> ptr \<Rightarrow> bool) \<Rightarrow> (bool \<times> memory \<times> LList) ub" where
  "ListDetachItem h l content callback = ListUnlink h l content (Some callback) False"

definition ListRemoveItem ::
  "memory \<Rightarrow> LList \<Rightarrow> ptr \<Rightarrow> (ptr \<Rightarrow> ptr \<Rightarrow> bool) \<Rightarrow> (bool \<times> memory \<times> LList) ub" where
  "ListRemoveItem h l content callback = ListUnlink h l content (Some callback) True"

definition ListDetachHead :: "memory \<Rightarrow> LList \<Rightarrow> (ptr \<times> memory \<times> LList) ub" where
  "ListDetachHead h l =
     (if ll_count l > 0 then
        do {
          let first = ll_first l;
          fe \<leftarrow> deref h first;
          let l = (if ll_current l = first then l\<lparr>ll_current := le_next fe\<rparr> else l);
          let l = (if ll_last l = first then l\<lparr>ll_last := NULL\<rparr> else l);
          let content = le_content fe;
          let l = l\<lparr>ll_first := le_next fe\<rparr>;
          h \<leftarrow> (if ll_first l \<noteq> NULL then assign h (ll_first l) (\<lambda>e. e\<lparr>le_prev := NULL\<rparr>) else Some h);
          h \<leftarrow> free_elem h first;
          Some (content, h, l\<lparr>ll_count := ll_count l - 1\<rparr>)
        }
      else Some (NULL, h, l))"

definition ListRemoveHead :: "memory \<Rightarrow> LList \<Rightarrow> (memory \<times> LList) ub" where
  "ListRemoveHead h l =
     do { (c, h, l) \<leftarrow> ListDetachHead h l; h \<leftarrow> free_block h c; Some (h, l) }"

definition ListPopTail :: "memory \<Rightarrow> LList \<Rightarrow> (ptr \<times> memory \<times> LList) ub" where
  "ListPopTail h l =
     (if ll_count l > 0 then
        do {
          let last = ll_last l;
          le \<leftarrow> deref h last;
          let l = (if ll_current l = last then l\<lparr>ll_current := le_prev le\<rparr> else l);
          let l = (if ll_first l = last then l\<lparr>ll_first := NULL\<rparr> else l);
          let content = le_content le;
          let l = l\<lparr>ll_last := le_prev le\<rparr>;
          h \<leftarrow> (if ll_last l \<noteq> NULL then assign h (ll_last l) (\<lambda>e. e\<lparr>le_next := NULL\<rparr>) else Some h);
          h \<leftarrow> free_elem h last;
          Some (content, h, l\<lparr>ll_count := ll_count l - 1\<rparr>)
        }
      else Some (NULL, h, l))"

partial_function (option) empty_loop :: "bool \<Rightarrow> memory \<Rightarrow> ptr \<Rightarrow> memory option" where
  "empty_loop freeContent h first =
     (if first = NULL then Some h
      else Option.bind (deref h first) (\<lambda>e.
        Option.bind (if freeContent then free_block h (le_content e) else Some h) (\<lambda>h.
          Option.bind (free_elem h first) (\<lambda>h. empty_loop freeContent h (le_next e)))))"

definition ListEmpty :: "memory \<Rightarrow> LList \<Rightarrow> (memory \<times> LList) ub" where
  "ListEmpty h l = do { h \<leftarrow> empty_loop True h (ll_first l); Some (h, ListZero) }"

text \<open>The list structure itself is gone after these two, so only the store is left.\<close>

definition ListFree :: "memory \<Rightarrow> LList \<Rightarrow> memory ub" where
  "ListFree h l = do { (h, l) \<leftarrow> ListEmpty h l; Some h }"

definition ListFreeNoContent :: "memory \<Rightarrow> LList \<Rightarrow> memory ub" where
  "ListFreeNoContent h l = empty_loop False h (ll_first l)"

end
