(* ===== verification/ListRefinement.thy ===== *)
theory ListRefinement
  imports LinkedList
begin

text \<open>
  The pointer code of \<open>LinkedList\<close> implements \<open>CursorList\<close>.  \<open>refines h l xs cl\<close> says that the
  store \<open>h\<close> holds, from \<open>l\<close>, a well-linked list whose elements are at the addresses and with the
  contents in \<open>xs\<close>, that \<open>cl\<close> has these contents and the same current element, and that the
  element count is right.  Each lemma also says that no other element of the store is touched.
\<close>

section \<open>Well-linked lists\<close>

fun head_ptr :: "(addr \<times> 'b) list \<Rightarrow> ptr \<Rightarrow> ptr" where
  "head_ptr [] nx = nx"
| "head_ptr ((a, c) # xs) nx = Ptr a"

fun last_ptr :: "ptr \<Rightarrow> (addr \<times> 'b) list \<Rightarrow> ptr" where
  "last_ptr pr [] = pr"
| "last_ptr pr ((a, c) # xs) = last_ptr (Ptr a) xs"

fun chain :: "(addr \<Rightarrow> ListElement option) \<Rightarrow> ptr \<Rightarrow> (addr \<times> ptr) list \<Rightarrow> ptr \<Rightarrow> bool" where
  "chain E pr [] nx = True"
| "chain E pr ((a, c) # xs) nx =
     (E a = Some \<lparr>le_prev = pr, le_next = head_ptr xs nx, le_content = c\<rparr> \<and>
      chain E (Ptr a) xs nx)"

definition addrs :: "(addr \<times> 'b) list \<Rightarrow> addr set" where
  "addrs xs = fst ` set xs"

definition dll :: "memory \<Rightarrow> LList \<Rightarrow> (addr \<times> ptr) list \<Rightarrow> bool" where
  "dll h l xs \<longleftrightarrow>
     ll_first l = head_ptr xs NULL \<and> ll_last l = last_ptr NULL xs \<and>
     chain (elems h) NULL xs NULL \<and> distinct (map fst xs) \<and> ll_count l = int (length xs)"

definition cursor_ptr :: "(addr \<times> 'b) list \<Rightarrow> nat option \<Rightarrow> ptr" where
  "cursor_ptr xs c = (case c of None \<Rightarrow> NULL | Some i \<Rightarrow> Ptr (fst (xs ! i)))"

definition refines :: "memory \<Rightarrow> LList \<Rightarrow> (addr \<times> ptr) list \<Rightarrow> ptr clist \<Rightarrow> bool" where
  "refines h l xs cl \<longleftrightarrow>
     dll h l xs \<and> cl_items cl = map snd xs \<and> cl_wf cl \<and> ll_current l = cursor_ptr xs (cl_cur cl)"

definition same_outside :: "addr set \<Rightarrow> memory \<Rightarrow> memory \<Rightarrow> bool" where
  "same_outside A h h' \<longleftrightarrow> (\<forall>b. b \<notin> A \<longrightarrow> elems h' b = elems h b)"

lemma addrs_simps [simp]:
  "addrs [] = {}" "addrs ((a, c) # xs) = insert a (addrs xs)"
  "addrs (xs @ ys) = addrs xs \<union> addrs ys"
  by (auto simp: addrs_def)

lemma head_ptr_append [simp]: "head_ptr (xs @ ys) nx = head_ptr xs (head_ptr ys nx)"
  by (cases xs) auto

lemma last_ptr_append [simp]: "last_ptr pr (xs @ ys) = last_ptr (last_ptr pr xs) ys"
  by (induction xs arbitrary: pr) auto

lemma head_ptr_NULL_iff [simp]: "head_ptr xs NULL = NULL \<longleftrightarrow> xs = []"
  by (cases xs) auto

lemma last_ptr_NULL_iff [simp]: "last_ptr NULL xs = NULL \<longleftrightarrow> xs = []"
  by (cases xs rule: rev_cases) auto

lemma chain_append:
  "chain E pr (xs @ ys) nx \<longleftrightarrow> chain E pr xs (head_ptr ys nx) \<and> chain E (last_ptr pr xs) ys nx"
  by (induction xs arbitrary: pr) auto

lemma chain_cong:
  assumes "\<And>a. a \<in> addrs xs \<Longrightarrow> E' a = E a"
  shows "chain E' pr xs nx = chain E pr xs nx"
  using assms by (induction xs arbitrary: pr) auto

lemma chain_update_other [simp]: "a \<notin> addrs xs \<Longrightarrow> chain (E(a := v)) pr xs nx = chain E pr xs nx"
  by (rule chain_cong) auto

lemma chain_elem:
  assumes "chain E pr (ys @ (a, c) # zs) nx"
  shows "E a = Some \<lparr>le_prev = last_ptr pr ys, le_next = head_ptr zs nx, le_content = c\<rparr>"
  using assms by (simp add: chain_append)

lemma chain_nth:
  assumes "chain E pr xs nx" "i < length xs"
  shows "E (fst (xs ! i)) = Some \<lparr>le_prev = last_ptr pr (take i xs),
            le_next = head_ptr (drop (Suc i) xs) nx, le_content = snd (xs ! i)\<rparr>"
  using chain_elem [of E pr "take i xs" "fst (xs ! i)" "snd (xs ! i)" "drop (Suc i) xs" nx]
    assms nth_eq_take_drop [OF assms(2)] by simp

lemma fst_nth_in_addrs: "i < length xs \<Longrightarrow> fst (xs ! i) \<in> addrs xs"
  by (auto simp: addrs_def)

lemma distinct_addr_index:
  assumes "distinct (map fst xs)" "i < length xs" "j < length xs" "fst (xs ! i) = fst (xs ! j)"
  shows "i = j"
  using assms by (metis length_map nth_eq_iff_index_eq nth_map)

lemma addrs_distinct_split:
  assumes "distinct (map fst (ys @ (a, c) # zs))"
  shows "a \<notin> addrs ys" "a \<notin> addrs zs" "addrs ys \<inter> addrs zs = {}"
  using assms by (auto simp: addrs_def)

text \<open>Pointing the last element of a segment elsewhere, and the first one back elsewhere.\<close>

lemma chain_set_last_next:
  assumes "chain E pr (ys @ [(a, c)]) nx" "distinct (map fst (ys @ [(a, c)]))"
  shows "chain (E(a \<mapsto> (the (E a))\<lparr>le_next := nx'\<rparr>)) pr (ys @ [(a, c)]) nx'"
  using assms addrs_distinct_split [of ys a c "[]"] by (simp add: chain_append)

lemma chain_set_first_prev:
  assumes "chain E pr ((a, c) # zs) nx" "a \<notin> addrs zs"
  shows "chain (E(a \<mapsto> (the (E a))\<lparr>le_prev := pr'\<rparr>)) pr' ((a, c) # zs) nx"
  using assms by simp

lemma cursor_ptr_simps [simp]:
  "cursor_ptr xs None = NULL" "cursor_ptr xs (Some i) = Ptr (fst (xs ! i))"
  by (simp_all add: cursor_ptr_def)

lemmas store_simps [heap_simps] = deref_def assign_def free_elem_def free_block_def malloc_elem_def

lemma chain_dom: "chain E pr xs nx \<Longrightarrow> b \<in> addrs xs \<Longrightarrow> E b \<noteq> None"
  by (induction xs arbitrary: pr) auto

lemma dll_fresh: "dll h l xs \<Longrightarrow> elems h a = None \<Longrightarrow> a \<notin> addrs xs"
  using chain_dom by (force simp: dll_def)

lemma head_ptr_Ptr_not_NULL [simp]: "head_ptr xs (Ptr b) \<noteq> NULL" "last_ptr (Ptr b) xs \<noteq> NULL"
  by (cases xs; auto) (induction xs arbitrary: b; auto)

lemma element_all_fields [simp]:
  "e\<lparr>le_content := c, le_next := n, le_prev := p\<rparr> = \<lparr>le_prev = p, le_next = n, le_content = c\<rparr>"
  by (cases e) simp

lemma last_ptr_cases:
  obtains "xs = []" | ys a c where "xs = ys @ [(a, c)]"
  by (cases xs rule: rev_cases) auto

section \<open>Adding elements\<close>

lemma refines_zero: "refines h ListZero [] cl_zero"
  by (simp add: refines_def dll_def ListZero_def cl_zero_def cl_wf_def)

lemma dll_append_step:
  assumes "dll h l xs" "a \<notin> addrs xs" "elems h a = Some e"
  shows "\<exists>h' l'. ListAppendNoMalloc h l c (Ptr a) sz = Some (h', l') \<and> dll h' l' (xs @ [(a, c)]) \<and>
           ll_current l' = ll_current l \<and> ll_size l' = ll_size l + sz \<and>
           same_outside (insert a (addrs xs)) h h' \<and> blocks h' = blocks h"
proof (cases xs rule: last_ptr_cases)
  case 1
  with assms show ?thesis
    by (auto simp: ListAppendNoMalloc_def heap_simps dll_def same_outside_def)
next
  case (2 ys b d)
  note ch = assms(1)[unfolded dll_def]
  let ?E = "elems h"
  let ?e = "\<lparr>le_prev = Ptr b, le_next = NULL, le_content = c\<rparr>"
  have ab: "a \<noteq> b" "a \<notin> addrs ys" using assms(2) 2 by auto
  have Eb: "?E b = Some \<lparr>le_prev = last_ptr NULL ys, le_next = NULL, le_content = d\<rparr>"
    using ch chain_elem [of ?E NULL ys b d "[]" NULL] 2 by simp
  have b: "b \<notin> addrs ys" using ch 2 addrs_distinct_split [of ys b d "[]"] by simp
  define E' where "E' = (?E(a \<mapsto> ?e))(b \<mapsto> \<lparr>le_prev = last_ptr NULL ys, le_next = Ptr a, le_content = d\<rparr>)"
  have "chain E' NULL (xs @ [(a, c)]) NULL"
    using ch 2 ab b by (simp add: chain_append E'_def)
  moreover have "ListAppendNoMalloc h l c (Ptr a) sz =
      Some (h\<lparr>elems := E'\<rparr>, l\<lparr>ll_last := Ptr a, ll_count := ll_count l + 1, ll_size := ll_size l + sz\<rparr>)"
    using ch 2 ab Eb assms(3) by (auto simp: ListAppendNoMalloc_def heap_simps E'_def)
  moreover have "distinct (map fst (xs @ [(a, c)]))"
    using ch assms(2) by (auto simp: addrs_def)
  ultimately show ?thesis
    using ch 2 by (auto simp: dll_def same_outside_def E'_def)
qed

lemma cursor_ptr_append: "cl_wf cl \<Longrightarrow> cl_items cl = map snd xs \<Longrightarrow>
  cursor_ptr (xs @ ys) (cl_cur cl) = cursor_ptr xs (cl_cur cl)"
  by (auto simp: cursor_ptr_def cl_wf_def nth_append split: option.splits)

lemma dll_malloc:
  assumes "dll h l xs" "elems h a = None"
  shows "dll (malloc_elem h (Ptr a)) l xs"
  using assms dll_fresh [OF assms] by (simp add: dll_def heap_simps)

lemma ListAppend_refines:
  assumes "refines h l xs cl" "elems h a = None"
  shows "\<exists>h' l'. ListAppend h l c sz (Ptr a) = Some (Ptr a, h', l') \<and>
           refines h' l' (xs @ [(a, c)]) (cl_append c cl) \<and> ll_size l' = ll_size l + sz \<and>
           same_outside (insert a (addrs xs)) h h' \<and> blocks h' = blocks h"
proof -
  let ?h = "malloc_elem h (Ptr a)"
  have d: "dll h l xs" using assms by (simp add: refines_def)
  have ea: "elems ?h a = Some \<lparr>le_prev = NULL, le_next = NULL, le_content = NULL\<rparr>"
    by (simp add: heap_simps)
  from dll_append_step [OF dll_malloc [OF d assms(2)] dll_fresh [OF d assms(2)] ea]
  obtain h' l' where "ListAppendNoMalloc ?h l c (Ptr a) sz = Some (h', l')"
    "dll h' l' (xs @ [(a, c)])" "ll_current l' = ll_current l" "ll_size l' = ll_size l + sz"
    "same_outside (insert a (addrs xs)) ?h h'" "blocks h' = blocks ?h" by blast
  then show ?thesis
    using assms(1) cursor_ptr_append [of cl xs "[(a, c)]"]
    by (auto simp: ListAppend_def refines_def cl_append_def cl_wf_def same_outside_def heap_simps
        split: option.splits)
qed

lemma ListInsert_dll:
  assumes "dll h l (ys @ (b, d) # zs)" "elems h a = None"
  shows "\<exists>h' l'. ListInsert h l c sz (Ptr b) (Ptr a) = Some (Ptr a, h', l') \<and>
           dll h' l' (ys @ (a, c) # (b, d) # zs) \<and> ll_current l' = ll_current l \<and>
           ll_size l' = ll_size l + sz \<and>
           same_outside (insert a (addrs (ys @ (b, d) # zs))) h h' \<and> blocks h' = blocks h"
proof -
  note ch = assms(1)[unfolded dll_def]
  note fresh = dll_fresh [OF assms]
  let ?E = "elems h"
  have Eb: "?E b = Some \<lparr>le_prev = last_ptr NULL ys, le_next = head_ptr zs NULL, le_content = d\<rparr>"
    using ch chain_elem by blast
  have dis: "b \<notin> addrs ys" "b \<notin> addrs zs" "addrs ys \<inter> addrs zs = {}"
    using addrs_distinct_split [of ys b d zs] ch by auto
  let ?E1 = "(?E(a \<mapsto> \<lparr>le_prev = last_ptr NULL ys, le_next = Ptr b, le_content = c\<rparr>))
             (b \<mapsto> \<lparr>le_prev = Ptr a, le_next = head_ptr zs NULL, le_content = d\<rparr>)"
  have ds: "distinct (map fst (ys @ (a, c) # (b, d) # zs))"
    using ch fresh by (auto simp: addrs_def)
  show ?thesis
  proof (cases ys rule: last_ptr_cases)
    case 1
    have ab: "a \<noteq> b" using fresh by simp
    have "ListInsert h l c sz (Ptr b) (Ptr a) = Some (Ptr a, h\<lparr>elems := ?E1\<rparr>,
        l\<lparr>ll_first := Ptr a, ll_count := ll_count l + 1, ll_size := ll_size l + sz\<rparr>)"
      using 1 Eb ab by (simp add: ListInsert_def Let_def heap_simps)
    moreover have "chain ?E1 NULL (ys @ (a, c) # (b, d) # zs) NULL"
      using ch 1 fresh dis by simp
    ultimately show ?thesis
      using ch ds 1 by (simp add: dll_def same_outside_def)
  next
    case (2 us p q)
    have Ep: "?E p = Some \<lparr>le_prev = last_ptr NULL us, le_next = Ptr b, le_content = q\<rparr>"
      using ch 2 chain_elem [of ?E NULL us p q "(b, d) # zs" NULL] by simp
    have p: "p \<notin> addrs us" "p \<noteq> b" "p \<noteq> a" "p \<notin> addrs zs" "b \<notin> addrs us" "a \<notin> addrs us"
      using ch 2 fresh addrs_distinct_split [of us p q "(b, d) # zs"] dis by auto
    define E2 where
      "E2 = ?E1(p \<mapsto> \<lparr>le_prev = last_ptr NULL us, le_next = Ptr a, le_content = q\<rparr>)"
    have "chain E2 NULL (ys @ (a, c) # (b, d) # zs) NULL"
      using ch 2 p dis fresh by (simp add: chain_append E2_def)
    moreover have "ListInsert h l c sz (Ptr b) (Ptr a) = Some (Ptr a, h\<lparr>elems := E2\<rparr>,
        l\<lparr>ll_count := ll_count l + 1, ll_size := ll_size l + sz\<rparr>)"
      using 2 Eb Ep p fresh by (simp add: ListInsert_def Let_def heap_simps E2_def)
    ultimately show ?thesis
      using ch ds 2 by (simp add: dll_def same_outside_def E2_def)
  qed
qed

lemma cursor_ptr_insert:
  assumes "cl_wf cl" "cl_items cl = map snd xs" "j \<le> length xs"
  shows "cursor_ptr (take j xs @ (a, c) # drop j xs)
           (map_option (\<lambda>i. if j \<le> i then Suc i else i) (cl_cur cl)) = cursor_ptr xs (cl_cur cl)"
  using assms by (auto simp: cursor_ptr_def cl_wf_def nth_append min_def split: option.splits)

lemma ListInsert_refines:
  assumes "refines h l xs cl" "elems h a = None" "j < length xs"
  shows "\<exists>h' l'. ListInsert h l c sz (Ptr (fst (xs ! j))) (Ptr a) = Some (Ptr a, h', l') \<and>
           refines h' l' (take j xs @ (a, c) # drop j xs) (cl_insert c j cl) \<and>
           ll_size l' = ll_size l + sz \<and>
           same_outside (insert a (addrs xs)) h h' \<and> blocks h' = blocks h"
proof -
  let ?b = "fst (xs ! j)" and ?d = "snd (xs ! j)"
  have x: "xs = take j xs @ (?b, ?d) # drop (Suc j) xs"
    using nth_eq_take_drop [OF assms(3)] by simp
  have dr: "drop j xs = (?b, ?d) # drop (Suc j) xs"
    using assms(3) by (simp add: Cons_nth_drop_Suc)
  have d: "dll h l (take j xs @ (?b, ?d) # drop (Suc j) xs)"
    using assms(1) x by (simp add: refines_def)
  from ListInsert_dll [OF d assms(2)] obtain h' l' where
    i: "ListInsert h l c sz (Ptr ?b) (Ptr a) = Some (Ptr a, h', l')"
    "dll h' l' (take j xs @ (a, c) # drop j xs)" "ll_current l' = ll_current l"
    "ll_size l' = ll_size l + sz" "same_outside (insert a (addrs xs)) h h'" "blocks h' = blocks h"
    unfolding dr x [symmetric] by blast
  have "cl_wf (cl_insert c j cl)"
    using assms by (intro cl_wf_insert) (auto simp: refines_def)
  then show ?thesis
    using i assms cursor_ptr_insert [of cl xs j a c]
    by (auto simp: refines_def cl_insert_def take_map drop_map)
qed

section \<open>Searching\<close>

lemma find_loop_from:
  assumes "chain (elems h) pr xs NULL"
    and "ListNextElement h l cur = Some (head_ptr xs NULL)"
  shows "find_loop h l P cur =
     Some (case find_index (P \<circ> snd) xs of None \<Rightarrow> NULL | Some i \<Rightarrow> Ptr (fst (xs ! i)))"
  using assms
proof (induction xs arbitrary: pr cur)
  case Nil
  then show ?case by (subst find_loop.simps) simp
next
  case (Cons x xs)
  obtain a c where x: "x = (a, c)" by force
  have Ea: "elems h a = Some \<lparr>le_prev = pr, le_next = head_ptr xs NULL, le_content = c\<rparr>"
    using Cons.prems x by simp
  have "find_loop h l P (Ptr a) =
     Some (case find_index (P \<circ> snd) xs of None \<Rightarrow> NULL | Some i \<Rightarrow> Ptr (fst (xs ! i)))"
    using Cons.prems x Ea
    by (intro Cons.IH [of "Ptr a"]) (auto simp: ListNextElement_def heap_simps)
  then show ?case
    using Cons.prems x Ea by (subst find_loop.simps) (auto simp: heap_simps split: option.splits)
qed

lemma find_loop_list:
  assumes "dll h l xs"
  shows "find_loop h l P NULL =
     Some (case find_index (P \<circ> snd) xs of None \<Rightarrow> NULL | Some i \<Rightarrow> Ptr (fst (xs ! i)))"
  using assms by (intro find_loop_from [of _ NULL]) (auto simp: dll_def ListNextElement_def)

lemma deref_cursor:
  assumes "refines h l xs cl" "cl_cur cl = Some i"
  shows "i < length xs" "ll_current l = Ptr (fst (xs ! i))"
    "deref h (ll_current l) = Some \<lparr>le_prev = last_ptr NULL (take i xs),
       le_next = head_ptr (drop (Suc i) xs) NULL, le_content = cl_items cl ! i\<rparr>"
proof -
  show i: "i < length xs" using assms by (auto simp: refines_def cl_wf_def)
  show c: "ll_current l = Ptr (fst (xs ! i))" using assms by (simp add: refines_def)
  show "deref h (ll_current l) = Some \<lparr>le_prev = last_ptr NULL (take i xs),
       le_next = head_ptr (drop (Suc i) xs) NULL, le_content = cl_items cl ! i\<rparr>"
    using assms c i chain_nth [of "elems h" NULL xs NULL i]
    by (simp add: refines_def dll_def heap_simps)
qed

lemma ListFindItem_refines:
  assumes "refines h l xs cl"
  shows "\<exists>l'. ListFindItem h l content callback =
           Some (cursor_ptr xs (fst (cl_find (content_matches callback content) cl)), l') \<and>
         refines h l' xs (snd (cl_find (content_matches callback content) cl)) \<and>
         ll_size l' = ll_size l"
proof -
  let ?P = "content_matches callback content"
  have items: "cl_items cl = map snd xs" using assms by (simp add: refines_def)
  have d: "dll h l xs" using assms by (simp add: refines_def)
  show ?thesis
  proof (cases "cl_current_matches ?P cl")
    case True
    then obtain i where i: "cl_cur cl = Some i" "?P (cl_items cl ! i)"
      by (auto simp: cl_current_matches_def split: option.splits)
    with deref_cursor [OF assms i(1)] True assms show ?thesis
      by (auto simp: ListFindItem_def cl_find_def)
  next
    case False
    have "(if ll_current l \<noteq> NULL
           then do { e \<leftarrow> deref h (ll_current l); Some (?P (le_content e)) } else Some False) = Some False"
    proof (cases "cl_cur cl")
      case None
      with assms show ?thesis by (simp add: refines_def)
    next
      case (Some i)
      with deref_cursor [OF assms Some] False show ?thesis
        by (simp add: cl_current_matches_def)
    qed
    then have "ListFindItem h l content callback =
       Some (let rc = (case find_index ?P (cl_items cl) of None \<Rightarrow> NULL | Some i \<Rightarrow> Ptr (fst (xs ! i)))
             in (rc, if rc \<noteq> NULL then l\<lparr>ll_current := rc\<rparr> else l))"
      using find_loop_list [OF d, of ?P] items by (simp add: ListFindItem_def Let_def find_index_map)
    then show ?thesis
      using False assms items
      by (auto simp: cl_find_def Let_def refines_def dll_def cl_wf_def
          split: option.splits dest: find_index_SomeD)
  qed
qed

section \<open>Removing elements\<close>

text \<open>The store after the neighbours of a removed element have been joined.\<close>

definition upd_last ::
  "(addr \<Rightarrow> ListElement option) \<Rightarrow> (addr \<times> ptr) list \<Rightarrow> ptr \<Rightarrow> addr \<Rightarrow> ListElement option" where
  "upd_last E ys n =
     (case last_ptr NULL ys of NULL \<Rightarrow> E | Ptr p \<Rightarrow> E(p \<mapsto> (the (E p))\<lparr>le_next := n\<rparr>))"

definition upd_first ::
  "(addr \<Rightarrow> ListElement option) \<Rightarrow> (addr \<times> ptr) list \<Rightarrow> ptr \<Rightarrow> addr \<Rightarrow> ListElement option" where
  "upd_first E zs q =
     (case head_ptr zs NULL of NULL \<Rightarrow> E | Ptr p \<Rightarrow> E(p \<mapsto> (the (E p))\<lparr>le_prev := q\<rparr>))"

fun ptr_set :: "ptr \<Rightarrow> addr set" where
  "ptr_set NULL = {}"
| "ptr_set (Ptr a) = {a}"

lemma upd_last_other: "b \<notin> addrs ys \<Longrightarrow> upd_last E ys n b = E b"
  by (cases ys rule: last_ptr_cases) (auto simp: upd_last_def)

lemma upd_first_other: "b \<notin> addrs zs \<Longrightarrow> upd_first E zs q b = E b"
  by (cases zs) (auto simp: upd_first_def)

lemma chain_upd_last_other:
  "addrs ys \<inter> addrs zs = {} \<Longrightarrow> chain (upd_last E ys n) pr zs nx = chain E pr zs nx"
  by (rule chain_cong) (auto intro: upd_last_other)

lemma chain_upd_first_other:
  "addrs ys \<inter> addrs zs = {} \<Longrightarrow> chain (upd_first E zs q) pr ys nx = chain E pr ys nx"
  by (rule chain_cong) (auto intro: upd_first_other)

lemma chain_upd_last:
  assumes "chain E pr ys nx" "distinct (map fst ys)"
  shows "chain (upd_last E ys n) pr ys n"
proof (cases ys rule: last_ptr_cases)
  case (2 us p q)
  with assms chain_set_last_next [of E pr us p q nx n] show ?thesis
    by (simp add: upd_last_def)
qed simp

lemma chain_upd_first:
  assumes "chain E pr zs nx" "distinct (map fst zs)"
  shows "chain (upd_first E zs q) q zs nx"
proof (cases zs)
  case (Cons x xs)
  with assms show ?thesis by (cases x) (auto simp: upd_first_def addrs_def)
qed simp

lemma assign_last:
  assumes "chain E pr ys nx" "elems h = E" "ys \<noteq> []"
  shows "assign h (last_ptr NULL ys) (\<lambda>e. e\<lparr>le_next := n\<rparr>) = Some (h\<lparr>elems := upd_last E ys n\<rparr>)"
proof (cases ys rule: last_ptr_cases)
  case (2 us p q)
  with assms chain_elem [of E pr us p q "[]" nx] show ?thesis
    by (simp add: upd_last_def heap_simps)
qed (use assms in simp)

lemma assign_first:
  assumes "chain E pr zs nx" "elems h = E" "zs \<noteq> []"
  shows "assign h (head_ptr zs NULL) (\<lambda>e. e\<lparr>le_prev := q\<rparr>) = Some (h\<lparr>elems := upd_first E zs q\<rparr>)"
proof (cases zs)
  case (Cons x xs)
  with assms show ?thesis by (cases x) (auto simp: upd_first_def heap_simps)
qed (use assms in simp)

definition joined ::
  "(addr \<Rightarrow> ListElement option) \<Rightarrow> (addr \<times> ptr) list \<Rightarrow> addr \<Rightarrow> (addr \<times> ptr) list \<Rightarrow>
   addr \<Rightarrow> ListElement option" where
  "joined E ys a zs =
     (upd_first (upd_last E ys (head_ptr zs NULL)) zs (last_ptr NULL ys))(a := None)"

lemma chain_joined:
  assumes "chain E NULL (ys @ (a, c) # zs) NULL" "distinct (map fst (ys @ (a, c) # zs))"
  shows "chain (joined E ys a zs) NULL (ys @ zs) NULL"
proof -
  note dis = addrs_distinct_split [OF assms(2)]
  have ys: "chain (upd_last E ys (head_ptr zs NULL)) NULL ys (head_ptr zs NULL)"
    using assms by (intro chain_upd_last [of _ _ _ "Ptr a"]) (auto simp: chain_append)
  have "chain (upd_last E ys (head_ptr zs NULL)) (Ptr a) zs NULL"
    using assms dis by (simp add: chain_append chain_upd_last_other)
  then have zs: "chain (upd_first (upd_last E ys (head_ptr zs NULL)) zs (last_ptr NULL ys))
      (last_ptr NULL ys) zs NULL"
    using assms by (intro chain_upd_first) auto
  have "chain (upd_first (upd_last E ys (head_ptr zs NULL)) zs (last_ptr NULL ys))
      NULL ys (head_ptr zs NULL)"
    using ys dis by (simp add: chain_upd_first_other)
  with zs dis show ?thesis by (simp add: joined_def chain_append)
qed

lemma joined_other: "b \<notin> addrs (ys @ (a, c) # zs) \<Longrightarrow> joined E ys a zs b = E b"
  by (simp add: joined_def upd_first_other upd_last_other)

lemma joined_removed [simp]: "joined E ys a zs a = None"
  by (simp add: joined_def)

text \<open>What \<open>ListUnlink\<close> does once the element to remove has been found and is current.\<close>

lemma ListUnlink_found:
  assumes "dll h l (ys @ (a, c) # zs)"
    and "ListFindItem h l content callback = Some (Ptr a, l1)" "l1 = l\<lparr>ll_current := Ptr a\<rparr>"
    and "freeContent \<Longrightarrow> ptr_set c \<subseteq> blocks h"
  shows "ListUnlink h l content callback freeContent =
     Some (True,
       h\<lparr>elems := joined (elems h) ys a zs,
         blocks := (if freeContent then blocks h - ptr_set c else blocks h)\<rparr>,
       l\<lparr>ll_first := head_ptr (ys @ zs) NULL, ll_last := last_ptr NULL (ys @ zs),
         ll_current := (if ll_current l = Ptr a then head_ptr zs NULL else ll_current l),
         ll_count := ll_count l - 1\<rparr>)"
proof -
  note ch = assms(1)[unfolded dll_def]
  let ?E = "elems h"
  let ?pr = "last_ptr NULL ys" and ?nx = "head_ptr zs NULL"
  have dis: "a \<notin> addrs ys" "a \<notin> addrs zs" "addrs ys \<inter> addrs zs = {}"
    using ch addrs_distinct_split [of ys a c zs] by auto
  have Ea: "?E a = Some \<lparr>le_prev = ?pr, le_next = ?nx, le_content = c\<rparr>"
    using ch chain_elem by blast
  have cy: "chain ?E NULL ys (Ptr a)" and cz: "chain ?E (Ptr a) zs NULL"
    using ch by (auto simp: chain_append)
  have s1: "(if ?pr = NULL then Some (h, l1\<lparr>ll_first := ?nx\<rparr>)
     else Option.bind (assign h ?pr (\<lambda>e. e\<lparr>le_next := ?nx\<rparr>)) (\<lambda>h. Some (h, l1)))
     = Some (h\<lparr>elems := upd_last ?E ys ?nx\<rparr>, l1\<lparr>ll_first := head_ptr (ys @ zs) NULL\<rparr>)"
    using assign_last [OF cy refl, of ?nx] ch assms(3)
    by (cases "ys = []") (auto simp: upd_last_def neq_Nil_conv)
  have cz': "chain (upd_last ?E ys ?nx) (Ptr a) zs NULL"
    using cz dis by (simp add: chain_upd_last_other)
  let ?h1 = "h\<lparr>elems := upd_last ?E ys ?nx\<rparr>"
  let ?l2 = "l1\<lparr>ll_first := head_ptr (ys @ zs) NULL\<rparr>"
  let ?l3 = "?l2\<lparr>ll_last := last_ptr NULL (ys @ zs)\<rparr>"
  have s2: "(if ?nx = NULL then Some (?h1, ?l2\<lparr>ll_last := ?pr\<rparr>)
     else Option.bind (assign ?h1 ?nx (\<lambda>e. e\<lparr>le_prev := ?pr\<rparr>)) (\<lambda>h. Some (h, ?l2)))
     = Some (?h1\<lparr>elems := upd_first (upd_last ?E ys ?nx) zs ?pr\<rparr>, ?l3)"
    using assign_first [OF cz', of ?h1 ?pr] ch assms(3)
    by (cases "zs = []") (auto simp: upd_first_def neq_Nil_conv)
  have Ea': "upd_first (upd_last ?E ys ?nx) zs ?pr a = ?E a"
    using dis by (simp add: upd_first_other upd_last_other)
  let ?h2 = "?h1\<lparr>elems := upd_first (upd_last ?E ys ?nx) zs ?pr\<rparr>"
  have cur: "ll_current l1 = Ptr a" "ll_current ?l3 = Ptr a" using assms(3) by simp_all
  have da: "deref h (Ptr a) = Some \<lparr>le_prev = ?pr, le_next = ?nx, le_content = c\<rparr>"
    using Ea by (simp add: deref_def)
  have s3: "\<exists>h3. (if freeContent then Option.bind (free_block ?h2 c) (\<lambda>h. assign h (Ptr a) (\<lambda>e. e\<lparr>le_content := NULL\<rparr>))
       else Some ?h2) = Some h3 \<and>
     free_elem h3 (Ptr a) = Some (h\<lparr>elems := joined ?E ys a zs,
         blocks := (if freeContent then blocks h - ptr_set c else blocks h)\<rparr>)"
    using assms(4) Ea Ea' by (cases c) (auto simp: heap_simps joined_def)
  then obtain h3 where
    s3: "(if freeContent then Option.bind (free_block ?h2 c) (\<lambda>h. assign h (Ptr a) (\<lambda>e. e\<lparr>le_content := NULL\<rparr>))
       else Some ?h2) = Some h3"
    and s4: "free_elem h3 (Ptr a) = Some (h\<lparr>elems := joined ?E ys a zs,
         blocks := (if freeContent then blocks h - ptr_set c else blocks h)\<rparr>)" by blast
  have "ListUnlink h l content callback freeContent = Some (True,
       h\<lparr>elems := joined ?E ys a zs,
         blocks := (if freeContent then blocks h - ptr_set c else blocks h)\<rparr>,
       ?l3\<lparr>ll_current := (if ll_current l = Ptr a then ?nx else ll_current l),
           ll_count := ll_count ?l3 - 1\<rparr>)"
    unfolding ListUnlink_def Let_def
    by (simp only: assms(2) Option.bind.simps prod.case ptr.distinct if_False cur da
        ListElement.select_convs s1 s2 s3 s4)
  then show ?thesis using assms(3) by simp
qed

lemma distinct_remove_middle: "distinct (map fst (ys @ x # zs)) \<Longrightarrow> distinct (map fst (ys @ zs))"
  by auto

lemma split_at:
  assumes "j < length xs"
  shows "xs = take j xs @ (fst (xs ! j), snd (xs ! j)) # drop (Suc j) xs"
  using nth_eq_take_drop [OF assms] by simp

lemma drop_nth_tl: "j < i \<Longrightarrow> i < length xs \<Longrightarrow> (take j xs @ drop (Suc j) xs) ! (i - 1) = xs ! i"
  by (auto simp: nth_append)

lemma cursor_after_remove:
  assumes "refines h l xs cl" "j < length xs"
  shows "cursor_ptr (take j xs @ drop (Suc j) xs) (cl_cur (cl_remove_at j (cl_cur cl) cl)) =
    (if ll_current l = Ptr (fst (xs ! j)) then head_ptr (drop (Suc j) xs) NULL else ll_current l)"
proof (cases "cl_cur cl")
  case None
  with assms show ?thesis by (simp add: refines_def cl_remove_at_def)
next
  case (Some i)
  have i: "i < length xs" "ll_current l = Ptr (fst (xs ! i))" "cl_items cl = map snd xs"
    using deref_cursor [OF assms(1) Some] assms by (auto simp: refines_def)
  have eq: "fst (xs ! i) = fst (xs ! j) \<longleftrightarrow> i = j"
    using distinct_addr_index [of xs i j] assms i by (auto simp: refines_def dll_def)
  show ?thesis
  proof (cases "i = j")
    case True
    show ?thesis
    proof (cases "Suc j < length xs")
      case True
      then obtain b d where "drop (Suc j) xs = (b, d) # drop (Suc (Suc j)) xs" "xs ! Suc j = (b, d)"
        by (metis Cons_nth_drop_Suc surj_pair)
      with True Some i \<open>i = j\<close> show ?thesis by (auto simp: cl_remove_at_def nth_append)
    qed (use Some i \<open>i = j\<close> in \<open>simp add: cl_remove_at_def\<close>)
  next
    case False
    with Some i eq drop_nth_tl [of j i xs] show ?thesis
      by (auto simp: cl_remove_at_def nth_append)
  qed
qed

lemma refines_remove_at:
  assumes r: "refines h l xs cl" and j: "j < length xs"
  shows "refines (h\<lparr>elems := joined (elems h) (take j xs) (fst (xs ! j)) (drop (Suc j) xs), blocks := B\<rparr>)
     (l\<lparr>ll_first := head_ptr (take j xs @ drop (Suc j) xs) NULL,
        ll_last := last_ptr NULL (take j xs @ drop (Suc j) xs),
        ll_current := (if ll_current l = Ptr (fst (xs ! j)) then head_ptr (drop (Suc j) xs) NULL
                       else ll_current l),
        ll_count := ll_count l - 1\<rparr>)
     (take j xs @ drop (Suc j) xs) (cl_remove_at j (cl_cur cl) cl)"
proof -
  let ?xs = "take j xs @ drop (Suc j) xs"
  have d: "dll h l xs" and it: "cl_items cl = map snd xs" and wf: "cl_wf cl"
    using r by (simp_all add: refines_def)
  have ch: "chain (elems h) NULL (take j xs @ (fst (xs ! j), snd (xs ! j)) # drop (Suc j) xs) NULL"
    and ds: "distinct (map fst (take j xs @ (fst (xs ! j), snd (xs ! j)) # drop (Suc j) xs))"
    using d split_at [OF j] by (simp_all add: dll_def)
  have "dll (h\<lparr>elems := joined (elems h) (take j xs) (fst (xs ! j)) (drop (Suc j) xs), blocks := B\<rparr>)
     (l\<lparr>ll_first := head_ptr ?xs NULL, ll_last := last_ptr NULL ?xs,
        ll_current := (if ll_current l = Ptr (fst (xs ! j)) then head_ptr (drop (Suc j) xs) NULL
                       else ll_current l),
        ll_count := ll_count l - 1\<rparr>) ?xs"
    using chain_joined [OF ch ds] distinct_remove_middle [OF ds] d j by (simp add: dll_def)
  moreover have "cl_items (cl_remove_at j (cl_cur cl) cl) = map snd ?xs"
    using it by (simp add: cl_remove_at_def take_map drop_map)
  moreover have "cl_wf (cl_remove_at j (cl_cur cl) cl)"
    using wf it j by (intro cl_wf_remove_at) (auto simp: cl_wf_def)
  ultimately show ?thesis
    using cursor_after_remove [OF r j] by (simp add: refines_def)
qed

lemma same_outside_joined:
  assumes "j < length xs"
  shows "same_outside (addrs xs) h (h\<lparr>elems := joined (elems h) (take j xs) (fst (xs ! j)) (drop (Suc j) xs),
           blocks := B\<rparr>)"
proof -
  have "addrs xs = addrs (take j xs @ (fst (xs ! j), snd (xs ! j)) # drop (Suc j) xs)"
    using split_at [OF assms] by simp
  with joined_other [of _ "take j xs" "fst (xs ! j)" "snd (xs ! j)" "drop (Suc j) xs"]
  show ?thesis by (simp add: same_outside_def del: addrs_simps)
qed

lemma ListUnlink_refines:
  assumes r: "refines h l xs cl"
    and fr: "freeContent \<Longrightarrow> (\<Union>c \<in> snd ` set xs. ptr_set c) \<subseteq> blocks h"
    and ab: "cl_unlink (content_matches callback content) cl = (b, cl')"
  shows "\<exists>h' l' xs'. ListUnlink h l content callback freeContent = Some (b, h', l') \<and>
           refines h' l' xs' cl' \<and> addrs xs' \<subseteq> addrs xs \<and> ll_size l' = ll_size l \<and>
           same_outside (addrs xs) h h'"
proof -
  let ?P = "content_matches callback content"
  have wf: "cl_wf cl" and it: "cl_items cl = map snd xs" and d: "dll h l xs"
    using r by (simp_all add: refines_def)
  obtain r1 cl1 where f: "cl_find ?P cl = (r1, cl1)" by force
  from ListFindItem_refines [OF r, of content callback] f obtain l1 where
    lf: "ListFindItem h l content callback = Some (cursor_ptr xs r1, l1)"
    "refines h l1 xs cl1" "ll_size l1 = ll_size l" by auto
  show ?thesis
  proof (cases r1)
    case None
    with f ab cl_find_None [of ?P cl cl1] have "b = False" "cl' = cl1" "cl1 = cl"
      by (auto simp: cl_unlink_def)
    with None lf show ?thesis
      by (auto simp: ListUnlink_def Let_def same_outside_def)
  next
    case (Some j)
    with f have fj: "cl_find ?P cl = (Some j, cl1)" by simp
    note fs = cl_find_Some [OF wf fj]
    have j: "j < length xs" using fs(1) it by simp
    have cl1: "cl1 = cl\<lparr>cl_cur := Some j\<rparr>" using fs by (cases cl1; cases cl) simp
    have l1: "l1 = l\<lparr>ll_current := Ptr (fst (xs ! j))\<rparr>"
      using lf(2,3) d fs by (cases l1; cases l) (simp add: refines_def dll_def)
    have b: "b" "cl' = cl_remove_at j (cl_cur cl) cl"
      using ab fj cl1 by (auto simp: cl_unlink_def cl_remove_at_def)
    have fr': "freeContent \<Longrightarrow> ptr_set (snd (xs ! j)) \<subseteq> blocks h"
      using fr nth_mem [OF j] by auto
    have d': "dll h l (take j xs @ (fst (xs ! j), snd (xs ! j)) # drop (Suc j) xs)"
      using d split_at [OF j] by simp
    have lf': "ListFindItem h l content callback = Some (Ptr (fst (xs ! j)), l1)"
      using lf(1) Some by simp
    have sub: "addrs (take j xs @ drop (Suc j) xs) \<subseteq> addrs xs"
      using set_take_subset [of j xs] set_drop_subset [of "Suc j" xs] by (auto simp: addrs_def)
    let ?xs = "take j xs @ drop (Suc j) xs"
    let ?h = "h\<lparr>elems := joined (elems h) (take j xs) (fst (xs ! j)) (drop (Suc j) xs),
      blocks := (if freeContent then blocks h - ptr_set (snd (xs ! j)) else blocks h)\<rparr>"
    let ?l = "l\<lparr>ll_first := head_ptr ?xs NULL, ll_last := last_ptr NULL ?xs,
      ll_current := (if ll_current l = Ptr (fst (xs ! j)) then head_ptr (drop (Suc j) xs) NULL
                     else ll_current l), ll_count := ll_count l - 1\<rparr>"
    have "ListUnlink h l content callback freeContent = Some (b, ?h, ?l)"
      using ListUnlink_found [OF d' lf' l1 fr'] b(1) by simp
    moreover have "refines ?h ?l ?xs cl'"
      unfolding b(2) by (rule refines_remove_at [OF r j])
    moreover have "ll_size ?l = ll_size l" by simp
    moreover have "same_outside (addrs xs) h ?h" by (rule same_outside_joined [OF j])
    ultimately show ?thesis using sub by blast
  qed
qed

lemma ListDetachHead_refines:
  assumes r: "refines h l xs cl"
  shows "\<exists>h' l' xs'. ListDetachHead h l =
             Some (case fst (cl_detach_head cl) of None \<Rightarrow> NULL | Some c \<Rightarrow> c, h', l') \<and>
           refines h' l' xs' (snd (cl_detach_head cl)) \<and> addrs xs' \<subseteq> addrs xs \<and>
           ll_size l' = ll_size l \<and> same_outside (addrs xs) h h' \<and> blocks h' = blocks h"
proof (cases xs)
  case Nil
  with r show ?thesis
    by (auto simp: ListDetachHead_def refines_def dll_def cl_detach_head_def same_outside_def
        intro!: exI [of _ "[]"])
next
  case (Cons x zs)
  obtain a c where x: "x = (a, c)" by force
  have d: "dll h l ((a, c) # zs)" and it: "cl_items cl = c # map snd zs"
    using r Cons x by (simp_all add: refines_def)
  have Ea: "elems h a = Some \<lparr>le_prev = NULL, le_next = head_ptr zs NULL, le_content = c\<rparr>"
    and cz: "chain (elems h) (Ptr a) zs NULL" and az: "a \<notin> addrs zs"
    using d by (auto simp: dll_def addrs_def)
  have nl: "(last_ptr (Ptr a) zs = Ptr a) = (zs = [])"
    using az by (cases zs rule: last_ptr_cases) auto
  have lz: "zs \<noteq> [] \<Longrightarrow> last_ptr (Ptr a) zs = last_ptr NULL zs"
    by (cases zs rule: last_ptr_cases) auto
  let ?h = "h\<lparr>elems := joined (elems h) [] a zs, blocks := blocks h\<rparr>"
  let ?l = "l\<lparr>ll_first := head_ptr zs NULL, ll_last := last_ptr NULL zs,
      ll_current := (if ll_current l = Ptr a then head_ptr zs NULL else ll_current l),
      ll_count := ll_count l - 1\<rparr>"
  have st: "(if head_ptr zs NULL \<noteq> NULL then assign h (head_ptr zs NULL) (\<lambda>e. e\<lparr>le_prev := NULL\<rparr>) else Some h)
      = Some (h\<lparr>elems := upd_first (elems h) zs NULL\<rparr>)"
    using assign_first [OF cz refl, of NULL] by (cases "zs = []") (auto simp: upd_first_def)
  have fe: "free_elem (h\<lparr>elems := upd_first (elems h) zs NULL\<rparr>) (Ptr a) = Some ?h"
    using Ea az by (simp add: free_elem_def upd_first_other joined_def upd_last_def)
  have "ListDetachHead h l = Some (c, ?h, ?l)"
  proof (cases zs)
    case Nil
    with d Ea fe show ?thesis
      by (cases l) (auto simp: ListDetachHead_def Let_def deref_def dll_def upd_first_def)
  next
    case (Cons y ws)
    with d Ea st fe nl lz show ?thesis
      by (cases l; cases y) (simp add: ListDetachHead_def Let_def deref_def dll_def del: bind_Some_iff)
  qed
  moreover have "refines ?h ?l zs (snd (cl_detach_head cl))"
    using refines_remove_at [OF r [unfolded Cons x], of 0 "blocks h"] it
    by (simp add: cl_detach_head_def cong: if_cong)
  moreover have "same_outside (addrs xs) h ?h"
    using same_outside_joined [of 0 xs h "blocks h"] Cons x by simp
  ultimately show ?thesis
    using it Cons x by (auto simp: cl_detach_head_def)
qed

lemma cursor_after_pop:
  assumes "refines h l (ys @ [(a, c)]) cl"
  shows "cursor_ptr ys (cl_cur (snd (cl_pop_tail cl))) =
     (if ll_current l = Ptr a then last_ptr NULL ys else ll_current l)"
proof (cases "cl_cur cl")
  case None
  with assms show ?thesis by (simp add: refines_def cl_pop_tail_def)
next
  case (Some i)
  have it: "cl_items cl = map snd ys @ [c]" and ds: "distinct (map fst (ys @ [(a, c)]))"
    using assms by (simp_all add: refines_def dll_def)
  have i: "i < Suc (length ys)" "ll_current l = Ptr (fst ((ys @ [(a, c)]) ! i))"
    using deref_cursor [OF assms Some] by auto
  show ?thesis
  proof (cases "i = length ys")
    case True
    then show ?thesis using i Some it
      by (cases ys rule: last_ptr_cases) (auto simp: cl_pop_tail_def nth_append)
  next
    case False
    with i have lt: "i < length ys" by simp
    then have "fst (ys ! i) \<noteq> a" using ds by (metis fst_nth_in_addrs addrs_distinct_split(1))
    with lt i Some it show ?thesis by (auto simp: cl_pop_tail_def nth_append)
  qed
qed

lemma ListPopTail_refines:
  assumes r: "refines h l xs cl"
  shows "\<exists>h' l' xs'. ListPopTail h l =
             Some (case fst (cl_pop_tail cl) of None \<Rightarrow> NULL | Some c \<Rightarrow> c, h', l') \<and>
           refines h' l' xs' (snd (cl_pop_tail cl)) \<and> addrs xs' \<subseteq> addrs xs \<and>
           ll_size l' = ll_size l \<and> same_outside (addrs xs) h h' \<and> blocks h' = blocks h"
proof (cases xs rule: last_ptr_cases)
  case 1
  with r show ?thesis
    by (auto simp: ListPopTail_def refines_def dll_def cl_pop_tail_def same_outside_def
        intro!: exI [of _ "[]"])
next
  case (2 ys a c)
  have d: "dll h l (ys @ [(a, c)])" and it: "cl_items cl = map snd ys @ [c]"
    using r 2 by (simp_all add: refines_def)
  have Ea: "elems h a = Some \<lparr>le_prev = last_ptr NULL ys, le_next = NULL, le_content = c\<rparr>"
    and cy: "chain (elems h) NULL ys (Ptr a)" and ay: "a \<notin> addrs ys"
    using d by (auto simp: dll_def addrs_def chain_append)
  have nl: "(head_ptr ys (Ptr a) = Ptr a) = (ys = [])"
    using ay by (cases ys) auto
  have lz: "ys \<noteq> [] \<Longrightarrow> head_ptr ys (Ptr a) = head_ptr ys NULL"
    by (cases ys) auto
  let ?h = "h\<lparr>elems := joined (elems h) ys a [], blocks := blocks h\<rparr>"
  let ?l = "l\<lparr>ll_first := head_ptr ys NULL, ll_last := last_ptr NULL ys,
      ll_current := (if ll_current l = Ptr a then last_ptr NULL ys else ll_current l),
      ll_count := ll_count l - 1\<rparr>"
  have st: "(if last_ptr NULL ys \<noteq> NULL then assign h (last_ptr NULL ys) (\<lambda>e. e\<lparr>le_next := NULL\<rparr>) else Some h)
      = Some (h\<lparr>elems := upd_last (elems h) ys NULL\<rparr>)"
    using assign_last [OF cy refl, of NULL] by (cases "ys = []") (auto simp: upd_last_def)
  have fe: "free_elem (h\<lparr>elems := upd_last (elems h) ys NULL\<rparr>) (Ptr a) = Some ?h"
    using Ea ay by (simp add: free_elem_def upd_last_other joined_def upd_first_def)
  have "ListPopTail h l = Some (c, ?h, ?l)"
  proof (cases ys rule: last_ptr_cases)
    case 1
    with d Ea fe show ?thesis
      by (cases l) (auto simp: ListPopTail_def Let_def deref_def dll_def upd_last_def)
  next
    case (2 us p q)
    with d Ea st fe nl lz show ?thesis
      by (cases l) (simp add: ListPopTail_def Let_def deref_def dll_def del: bind_Some_iff)
  qed
  moreover have "dll ?h ?l ys"
    using refines_remove_at [OF r [unfolded 2], of "length ys" "blocks h"]
    by (simp add: refines_def dll_def)
  moreover have "same_outside (addrs xs) h ?h"
    using same_outside_joined [of "length ys" xs h "blocks h"] 2 by simp
  moreover have "cl_wf (snd (cl_pop_tail cl))"
    using r by (intro cl_wf_pop_tail) (simp add: refines_def)
  moreover have "cursor_ptr ys (cl_cur (snd (cl_pop_tail cl))) = ll_current ?l"
    using cursor_after_pop [of h l ys a c cl] r 2 by simp
  moreover have "fst (cl_pop_tail cl) = Some c" "cl_items (snd (cl_pop_tail cl)) = map snd ys"
    using it by (simp_all add: cl_pop_tail_def butlast_append)
  ultimately show ?thesis
    using 2 by (auto simp: refines_def)
qed

section \<open>Emptying a list\<close>

fun contents_set :: "(addr \<times> ptr) list \<Rightarrow> addr set" where
  "contents_set [] = {}"
| "contents_set ((a, c) # xs) = ptr_set c \<union> contents_set xs"

fun contents_disjoint :: "(addr \<times> ptr) list \<Rightarrow> bool" where
  "contents_disjoint [] = True"
| "contents_disjoint ((a, c) # xs) = (ptr_set c \<inter> contents_set xs = {} \<and> contents_disjoint xs)"

lemma empty_loop_chain:
  assumes "chain (elems h) pr xs NULL" "distinct (map fst xs)"
    and "freeContent \<Longrightarrow> contents_set xs \<subseteq> blocks h \<and> contents_disjoint xs"
  shows "empty_loop freeContent h (head_ptr xs NULL) =
     Some (h\<lparr>elems := (\<lambda>b. if b \<in> addrs xs then None else elems h b),
             blocks := (if freeContent then blocks h - contents_set xs else blocks h)\<rparr>)"
  using assms
proof (induction xs arbitrary: h pr)
  case Nil
  then show ?case by (subst empty_loop.simps) simp
next
  case (Cons x xs)
  obtain a c where x: "x = (a, c)" by force
  let ?B = "if freeContent then blocks h - ptr_set c else blocks h"
  let ?h = "h\<lparr>elems := (elems h)(a := None), blocks := ?B\<rparr>"
  have a: "a \<notin> addrs xs" using Cons.prems x by (simp add: addrs_def)
  have Ea: "elems h a = Some \<lparr>le_prev = pr, le_next = head_ptr xs NULL, le_content = c\<rparr>"
    using Cons.prems x by simp
  have IH: "empty_loop freeContent ?h (head_ptr xs NULL) =
     Some (?h\<lparr>elems := (\<lambda>b. if b \<in> addrs xs then None else elems ?h b),
             blocks := (if freeContent then blocks ?h - contents_set xs else blocks ?h)\<rparr>)"
  proof (rule Cons.IH)
    show "chain (elems ?h) (Ptr a) xs NULL" using Cons.prems x a by simp
  qed (use Cons.prems x in auto)
  have fb: "(if freeContent then free_block h c else Some h) = Some (h\<lparr>blocks := ?B\<rparr>)"
    using Cons.prems x by (cases c) (auto simp: free_block_def)
  have fe: "free_elem (h\<lparr>blocks := ?B\<rparr>) (Ptr a) = Some ?h"
    using Ea by (simp add: free_elem_def)
  have "empty_loop freeContent h (head_ptr (x # xs) NULL) = empty_loop freeContent ?h (head_ptr xs NULL)"
    unfolding x
    by (subst empty_loop.simps)
      (use Ea fb fe in \<open>cases freeContent; simp add: deref_def del: bind_Some_iff\<close>)
  moreover have "?h\<lparr>elems := (\<lambda>b. if b \<in> addrs xs then None else elems ?h b),
             blocks := (if freeContent then blocks ?h - contents_set xs else blocks ?h)\<rparr> =
      h\<lparr>elems := (\<lambda>b. if b \<in> addrs (x # xs) then None else elems h b),
        blocks := (if freeContent then blocks h - contents_set (x # xs) else blocks h)\<rparr>"
    by (cases h) (auto simp: fun_eq_iff x)
  ultimately show ?case using IH by (simp only:)
qed

lemma ListEmpty_refines:
  assumes "refines h l xs cl" "contents_set xs \<subseteq> blocks h" "contents_disjoint xs"
  shows "\<exists>h'. ListEmpty h l = Some (h', ListZero) \<and> refines h' ListZero [] cl_zero \<and>
           same_outside (addrs xs) h h' \<and> (\<forall>a \<in> addrs xs. elems h' a = None) \<and>
           blocks h' = blocks h - contents_set xs"
  using assms empty_loop_chain [of h NULL xs True] refines_zero
  by (auto simp: ListEmpty_def refines_def dll_def same_outside_def)

lemma ListFreeNoContent_refines:
  assumes "refines h l xs cl"
  shows "\<exists>h'. ListFreeNoContent h l = Some h' \<and> same_outside (addrs xs) h h' \<and>
           (\<forall>a \<in> addrs xs. elems h' a = None) \<and> blocks h' = blocks h"
  using assms empty_loop_chain [of h NULL xs False]
  by (auto simp: ListFreeNoContent_def refines_def dll_def same_outside_def)

end
