(* ===== verification/ListSessions.thy ===== *)
theory ListSessions
  imports ListRefinement
begin

text \<open>
  Sequences of calls on one list.  The contract of \<open>LinkedList.c\<close> is stated over whole
  sessions: whatever operations are called one after the other, with whatever outcome of
  \<open>malloc\<close>, the pointer code never touches a freed element, never loops, and returns what the
  list with a cursor returns.
\<close>

section \<open>Calls and results\<close>

datatype list_call =
    CallAppend ptr "64 word"
  | CallFind ptr "(ptr \<Rightarrow> ptr \<Rightarrow> bool) option"
  | CallDetach ptr "(ptr \<Rightarrow> ptr \<Rightarrow> bool) option"
  | CallDetachHead
  | CallPopTail

datatype list_result =
    Appended bool
  | Found "ptr option"
  | Detached bool
  | Popped ptr

text \<open>\<open>alloc\<close> is \<open>malloc\<close>: what it returns may depend on the store.\<close>

definition exec_call ::
  "(memory \<Rightarrow> ptr) \<Rightarrow> list_call \<Rightarrow> memory \<times> LList \<Rightarrow> (list_result \<times> memory \<times> LList) ub" where
  "exec_call alloc call s =
     (case s of (h, l) \<Rightarrow>
       case call of
         CallAppend c sz \<Rightarrow>
           do { (p, h, l) \<leftarrow> ListAppend h l c sz (alloc h); Some (Appended (p \<noteq> NULL), h, l) }
       | CallFind c callback \<Rightarrow>
           do { (p, l) \<leftarrow> ListFindItem h l c callback;
                r \<leftarrow> (if p = NULL then Some None else map_option (Some \<circ> le_content) (deref h p));
                Some (Found r, h, l) }
       | CallDetach c callback \<Rightarrow>
           do { (b, h, l) \<leftarrow> ListUnlink h l c callback False; Some (Detached b, h, l) }
       | CallDetachHead \<Rightarrow> do { (p, h, l) \<leftarrow> ListDetachHead h l; Some (Popped p, h, l) }
       | CallPopTail \<Rightarrow> do { (p, h, l) \<leftarrow> ListPopTail h l; Some (Popped p, h, l) })"

fun exec_calls ::
  "(memory \<Rightarrow> ptr) \<Rightarrow> list_call list \<Rightarrow> memory \<times> LList \<Rightarrow> (list_result list \<times> memory \<times> LList) ub" where
  "exec_calls alloc [] s = Some ([], s)"
| "exec_calls alloc (c # cs) s =
     do { (r, s) \<leftarrow> exec_call alloc c s; (rs, s) \<leftarrow> exec_calls alloc cs s; Some (r # rs, s) }"

text \<open>The specification; \<open>ok\<close> says whether an element could be allocated.\<close>

definition spec_call :: "bool \<Rightarrow> list_call \<Rightarrow> ptr clist \<Rightarrow> list_result \<times> ptr clist" where
  "spec_call ok call cl =
     (case call of
        CallAppend c sz \<Rightarrow> (Appended ok, if ok then cl_append c cl else cl)
      | CallFind c callback \<Rightarrow>
          (case cl_find (content_matches callback c) cl of
             (r, cl) \<Rightarrow> (Found (map_option ((!) (cl_items cl)) r), cl))
      | CallDetach c callback \<Rightarrow>
          (case cl_unlink (content_matches callback c) cl of (b, cl) \<Rightarrow> (Detached b, cl))
      | CallDetachHead \<Rightarrow>
          (case cl_detach_head cl of (r, cl) \<Rightarrow> (Popped (case r of None \<Rightarrow> NULL | Some c \<Rightarrow> c), cl))
      | CallPopTail \<Rightarrow>
          (case cl_pop_tail cl of (r, cl) \<Rightarrow> (Popped (case r of None \<Rightarrow> NULL | Some c \<Rightarrow> c), cl)))"

fun spec_calls :: "bool list \<Rightarrow> list_call list \<Rightarrow> ptr clist \<Rightarrow> list_result list \<times> ptr clist" where
  "spec_calls oks [] cl = ([], cl)"
| "spec_calls oks (c # cs) cl =
     (case spec_call (hd oks) c cl of
        (r, cl) \<Rightarrow> (case spec_calls (tl oks) cs cl of (rs, cl) \<Rightarrow> (r # rs, cl)))"

section \<open>Simulation\<close>

lemma exec_call_refines:
  assumes r: "refines h l xs cl"
    and alloc: "\<And>h a. alloc h = Ptr a \<Longrightarrow> elems h a = None"
  shows "\<exists>ok h' l' xs'. exec_call alloc call (h, l) = Some (fst (spec_call ok call cl), h', l') \<and>
           refines h' l' xs' (snd (spec_call ok call cl))"
proof (cases call)
  case (CallAppend c sz)
  show ?thesis
  proof (cases "alloc h")
    case NULL
    then have "exec_call alloc call (h, l) = Some (Appended False, h, l)"
      by (simp add: CallAppend exec_call_def ListAppend_def del: bind_Some_iff)
    with r show ?thesis
      by (intro exI [of _ False] exI [of _ h] exI [of _ l] exI [of _ xs])
        (simp add: CallAppend spec_call_def)
  next
    case (Ptr a)
    from ListAppend_refines [OF r alloc [OF Ptr], of c sz] obtain h' l' where
      "ListAppend h l c sz (Ptr a) = Some (Ptr a, h', l')"
      "refines h' l' (xs @ [(a, c)]) (cl_append c cl)" by blast
    then show ?thesis
      by (intro exI [of _ True] exI [of _ h'] exI [of _ l'] exI [of _ "xs @ [(a, c)]"])
        (simp add: CallAppend exec_call_def spec_call_def Ptr del: bind_Some_iff)
  qed
next
  case (CallFind c callback)
  let ?P = "content_matches callback c"
  obtain q cl' where f: "cl_find ?P cl = (q, cl')" by force
  from ListFindItem_refines [OF r, of c callback] f obtain l' where
    lf: "ListFindItem h l c callback = Some (cursor_ptr xs q, l')" "refines h l' xs cl'" by auto
  have wf: "cl_wf cl" and d: "dll h l xs" and it: "cl_items cl = map snd xs"
    using r by (simp_all add: refines_def)
  have "(if cursor_ptr xs q = NULL then Some None
         else map_option (Some \<circ> le_content) (deref h (cursor_ptr xs q))) =
        Some (map_option ((!) (cl_items cl')) q)"
  proof (cases q)
    case None
    then show ?thesis by (simp add: cursor_ptr_def)
  next
    case (Some j)
    with cl_find_Some [OF wf f [unfolded Some]] it have j: "j < length xs" "cl_items cl' = map snd xs"
      by simp_all
    have "deref h (cursor_ptr xs q) \<noteq> None \<and>
      map_option le_content (deref h (cursor_ptr xs q)) = Some (snd (xs ! j))"
      using d j Some chain_nth [of "elems h" NULL xs NULL j]
      by (auto simp: dll_def cursor_ptr_def deref_def)
    with j Some show ?thesis
      by (auto simp: cursor_ptr_def option.map_comp [symmetric])
  qed
  with lf f show ?thesis
    by (intro exI [of _ True] exI [of _ h] exI [of _ l'] exI [of _ xs])
      (simp add: CallFind exec_call_def spec_call_def del: bind_Some_iff)
next
  case (CallDetach c callback)
  obtain b cl' where u: "cl_unlink (content_matches callback c) cl = (b, cl')" by force
  from ListUnlink_refines [OF r _ u, of False] obtain h' l' xs' where
    "ListUnlink h l c callback False = Some (b, h', l')" "refines h' l' xs' cl'" by auto
  with u show ?thesis
    by (intro exI [of _ True] exI [of _ h'] exI [of _ l'] exI [of _ xs'])
      (simp add: CallDetach exec_call_def spec_call_def del: bind_Some_iff)
next
  case CallDetachHead
  from ListDetachHead_refines [OF r] show ?thesis
    by (auto simp: CallDetachHead exec_call_def spec_call_def split: prod.splits simp del: bind_Some_iff)
next
  case CallPopTail
  from ListPopTail_refines [OF r] show ?thesis
    by (auto simp: CallPopTail exec_call_def spec_call_def split: prod.splits simp del: bind_Some_iff)
qed

lemma exec_calls_refines:
  assumes "refines h l xs cl"
    and alloc: "\<And>h a. alloc h = Ptr a \<Longrightarrow> elems h a = None"
  shows "\<exists>oks h' l' xs'. exec_calls alloc calls (h, l) = Some (fst (spec_calls oks calls cl), h', l') \<and>
           refines h' l' xs' (snd (spec_calls oks calls cl))"
  using assms(1)
proof (induction calls arbitrary: h l xs cl)
  case Nil
  then show ?case by auto
next
  case (Cons call calls)
  from exec_call_refines [where call = call, OF Cons.prems alloc] obtain ok h1 l1 xs1 where
    s: "exec_call alloc call (h, l) = Some (fst (spec_call ok call cl), h1, l1)"
    "refines h1 l1 xs1 (snd (spec_call ok call cl))" by blast
  from Cons.IH [OF s(2)] obtain oks h' l' xs' where
    t: "exec_calls alloc calls (h1, l1) =
          Some (fst (spec_calls oks calls (snd (spec_call ok call cl))), h', l')"
    "refines h' l' xs' (snd (spec_calls oks calls (snd (spec_call ok call cl))))" by blast
  show ?case
    by (intro exI [of _ "ok # oks"] exI [of _ h'] exI [of _ l'] exI [of _ xs'])
      (use s t in \<open>simp add: split_beta del: bind_Some_iff\<close>)
qed

section \<open>Properties\<close>

definition empty_store :: memory where
  "empty_store = \<lparr>elems = (\<lambda>_. None), blocks = {}\<rparr>"



end
