(* ===== verification/Utf8.thy ===== *)
theory Utf8
  imports Prelude
begin

text \<open>
  \<open>utf-8.c\<close>: validation of UTF-8 strings against the table of well-formed byte sequences.
  \<open>char\<close> is signed, as on the platforms the library is built for: bytes are compared through
  \<open>sint\<close>.  A \<open>const char*\<close> is \<open>None\<close> (\<open>NULL\<close>) or the bytes readable from it; reading past
  them has no result.  The reference is the encoding form of the Unicode standard: a byte
  string is accepted exactly when it is the concatenation of the encodings of scalar values.
\<close>

section \<open>The code\<close>

definition valid_ranges :: "(nat \<times> (byte \<times> byte) list) list" where
  "valid_ranges =
    [(1, [(0x00, 0x7F)]),
     (2, [(0xC2, 0xDF), (0x80, 0xBF)]),
     (3, [(0xE0, 0xE0), (0xA0, 0xBF), (0x80, 0xBF)]),
     (3, [(0xE1, 0xEC), (0x80, 0xBF), (0x80, 0xBF)]),
     (3, [(0xED, 0xED), (0x80, 0x9F), (0x80, 0xBF)]),
     (3, [(0xEE, 0xEF), (0x80, 0xBF), (0x80, 0xBF)]),
     (4, [(0xF0, 0xF0), (0x90, 0xBF), (0x80, 0xBF), (0x80, 0xBF)]),
     (4, [(0xF1, 0xF3), (0x80, 0xBF), (0x80, 0xBF), (0x80, 0xBF)]),
     (4, [(0xF4, 0xF4), (0x80, 0x8F), (0x80, 0xBF), (0x80, 0xBF)])]"

definition utf8_charlen :: "byte \<Rightarrow> nat" where
  "utf8_charlen d =
     (if d AND 128 = 0 then 1 else if d AND 0xF0 = 0xF0 then 4
      else if d AND 0xE0 = 0xE0 then 3 else 2)"

fun check_bytes :: "bytes \<Rightarrow> (byte \<times> byte) list \<Rightarrow> bool" where
  "check_bytes (d # ds) ((lower, upper) # rs) =
     (if sint d < sint lower \<or> sint d > sint upper then False else check_bytes ds rs)"
| "check_bytes ds rs = True"

text \<open>
  The result is the number of bytes of the character at the start of \<open>data\<close> (the code returns
  \<open>data + charlen\<close>), or \<open>None\<close> for a \<open>NULL\<close> result.
\<close>

definition UTF8_char_validate :: "int \<Rightarrow> bytes option \<Rightarrow> nat option ub" where
  "UTF8_char_validate len data =
     (case data of
        None \<Rightarrow> Some None
      | Some [] \<Rightarrow> None
      | Some (d0 # ds) \<Rightarrow>
          let charlen = utf8_charlen d0 in
          if int charlen > len then Some None
          else if length (d0 # ds) < charlen then None
          else if list_ex (\<lambda>(n, rs). n = charlen \<and> check_bytes (take charlen (d0 # ds)) rs) valid_ranges
               then Some (Some charlen) else Some None)"

lemma UTF8_char_validate_pos:
  "UTF8_char_validate len data = Some (Some n) \<Longrightarrow> 0 < n"
  by (auto simp: UTF8_char_validate_def utf8_charlen_def Let_def
      split: option.splits list.splits if_splits)

text \<open>The loop of \<open>UTF8_validate\<close>, on the bytes from \<open>curdata\<close> to the end of the string.\<close>

function UTF8_loop :: "int \<Rightarrow> bytes \<Rightarrow> bool ub" where
  "UTF8_loop len data =
     (if len \<le> 0 then Some True
      else case UTF8_char_validate len (Some data) of
             None \<Rightarrow> None
           | Some None \<Rightarrow> Some False
           | Some (Some n) \<Rightarrow> UTF8_loop (len - int n) (drop n data))"
  by pat_completeness auto
termination
  by (relation "measure (\<lambda>(len, data). nat len)") (auto dest: UTF8_char_validate_pos)

definition UTF8_validate :: "int \<Rightarrow> bytes option \<Rightarrow> bool ub" where
  "UTF8_validate len data =
     (case data of
        None \<Rightarrow> Some True
      | Some bs \<Rightarrow>
          if len = 0 then Some True
          else case UTF8_char_validate len (Some bs) of
                 None \<Rightarrow> None
               | Some None \<Rightarrow> Some False
               | Some (Some n) \<Rightarrow> UTF8_loop (len - int n) (drop n bs))"

text \<open>A C string is given without its terminating zero byte.\<close>

definition UTF8_validateString :: "bytes option \<Rightarrow> bool ub" where
  "UTF8_validateString string =
     (case string of None \<Rightarrow> Some False
      | Some bs \<Rightarrow> UTF8_validate (int (length bs)) (Some bs))"

declare UTF8_loop.simps [simp del]

section \<open>The Unicode encoding form\<close>

definition scalar_value :: "nat \<Rightarrow> bool" where
  "scalar_value c \<longleftrightarrow> c < 0xD800 \<or> (0xE000 \<le> c \<and> c < 0x110000)"

definition utf8_encode :: "nat \<Rightarrow> bytes" where
  "utf8_encode c =
     (if c < 0x80 then [of_nat c]
      else if c < 0x800 then [of_nat (0xC0 + c div 64), of_nat (0x80 + c mod 64)]
      else if c < 0x10000 then
        [of_nat (0xE0 + c div 4096), of_nat (0x80 + c div 64 mod 64), of_nat (0x80 + c mod 64)]
      else
        [of_nat (0xF0 + c div 262144), of_nat (0x80 + c div 4096 mod 64),
         of_nat (0x80 + c div 64 mod 64), of_nat (0x80 + c mod 64)])"

section \<open>One character\<close>

lemma utf8_charlen_unat:
  "utf8_charlen d =
     (if unat d < 128 then 1 else if 240 \<le> unat d then 4 else if 224 \<le> unat d then 3 else 2)"
proof -
  have "\<forall>d. utf8_charlen d =
     (if unat d < 128 then 1 else if 240 \<le> unat d then 4 else if 224 \<le> unat d then 3 else 2)"
    unfolding byte_all_iff utf8_charlen_def by code_simp
  then show ?thesis by blast
qed

text \<open>
  The signed comparison with a range whose limits have the same sign is the unsigned one.
\<close>

lemma signed_range_nat:
  fixes l u x :: nat
  assumes "l < 128 \<longleftrightarrow> u < 128" "x < 256" "l < 256" "u < 256"
  shows "((if x < 128 then int x else int x - 256) < (if l < 128 then int l else int l - 256) \<or>
          (if x < 128 then int x else int x - 256) > (if u < 128 then int u else int u - 256)) \<longleftrightarrow>
         \<not> (l \<le> x \<and> x \<le> u)"
  using assms by auto

lemma signed_range_iff:
  fixes d lower upper :: byte
  assumes "unat lower < 128 \<longleftrightarrow> unat upper < 128"
  shows "(sint d < sint lower \<or> sint d > sint upper) \<longleftrightarrow> \<not> (unat lower \<le> unat d \<and> unat d \<le> unat upper)"
  unfolding sint_byte by (rule signed_range_nat [OF assms]) (rule unat_byte_less)+

fun in_ranges :: "nat list \<Rightarrow> (nat \<times> nat) list \<Rightarrow> bool" where
  "in_ranges (d # ds) ((lower, upper) # rs) = (lower \<le> d \<and> d \<le> upper \<and> in_ranges ds rs)"
| "in_ranges ds rs = True"

lemma check_bytes_unat:
  assumes "\<forall>(lower, upper) \<in> set rs. unat lower < 128 \<longleftrightarrow> unat upper < 128"
  shows "check_bytes ds rs = in_ranges (map unat ds) (map (\<lambda>(l, u). (unat l, unat u)) rs)"
  using assms
proof (induction ds rs rule: check_bytes.induct)
  case (1 d ds lower upper rs)
  then show ?case using signed_range_iff [of lower upper d] by auto
qed auto

definition well_formed_prefix :: "nat \<Rightarrow> nat list \<Rightarrow> bool" where
  "well_formed_prefix n ds \<longleftrightarrow>
     (n = 1 \<and> in_ranges ds [(0, 0x7F)]) \<or>
     (n = 2 \<and> in_ranges ds [(0xC2, 0xDF), (0x80, 0xBF)]) \<or>
     (n = 3 \<and> (in_ranges ds [(0xE0, 0xE0), (0xA0, 0xBF), (0x80, 0xBF)] \<or>
       in_ranges ds [(0xE1, 0xEC), (0x80, 0xBF), (0x80, 0xBF)] \<or>
       in_ranges ds [(0xED, 0xED), (0x80, 0x9F), (0x80, 0xBF)] \<or>
       in_ranges ds [(0xEE, 0xEF), (0x80, 0xBF), (0x80, 0xBF)])) \<or>
     (n = 4 \<and> (in_ranges ds [(0xF0, 0xF0), (0x90, 0xBF), (0x80, 0xBF), (0x80, 0xBF)] \<or>
       in_ranges ds [(0xF1, 0xF3), (0x80, 0xBF), (0x80, 0xBF), (0x80, 0xBF)] \<or>
       in_ranges ds [(0xF4, 0xF4), (0x80, 0x8F), (0x80, 0xBF), (0x80, 0xBF)]))"

lemma ranges_iff:
  "list_ex (\<lambda>(m, rs). m = n \<and> check_bytes ds rs) valid_ranges \<longleftrightarrow>
   well_formed_prefix n (map unat ds)"
  unfolding valid_ranges_def well_formed_prefix_def
  by (simp add: check_bytes_unat) blast

lemma UTF8_char_validate_Some_iff:
  "UTF8_char_validate (int (length bs)) (Some bs) = Some (Some n) \<longleftrightarrow>
   bs \<noteq> [] \<and> n \<le> length bs \<and> n = utf8_charlen (hd bs) \<and> well_formed_prefix n (map unat (take n bs))"
  by (cases bs) (auto simp: UTF8_char_validate_def Let_def ranges_iff)

lemma of_nat_byteI: "n = unat d \<Longrightarrow> (of_nat n :: byte) = d"
  by simp

lemma div_mod_64: "(b::nat) < 64 \<Longrightarrow> (b + 64 * k) div 64 = k \<and> (b + 64 * k) mod 64 = b"
  by simp

lemma div_4096: "(c::nat) div 4096 = c div 64 div 64"
  by (simp add: div_mult2_eq [symmetric])

lemma div_262144: "(c::nat) div 262144 = c div 4096 div 64"
  by (simp add: div_mult2_eq [symmetric])

lemma encode_2:
  assumes "2 \<le> a" "a < 32" "b < 64"
  shows "scalar_value (a * 64 + b)" "utf8_encode (a * 64 + b) = [of_nat (0xC0 + a), of_nat (0x80 + b)]"
proof -
  define c where "c = a * 64 + b"
  have c: "c div 64 = a" "c mod 64 = b" "0x80 \<le> c" "c < 0x800"
    using assms by (auto simp: c_def)
  then show "scalar_value (a * 64 + b)" "utf8_encode (a * 64 + b) = [of_nat (0xC0 + a), of_nat (0x80 + b)]"
    unfolding c_def [symmetric] scalar_value_def utf8_encode_def by simp_all
qed

lemma encode_3:
  assumes "a < 16" "b < 64" "d < 64" "a = 0 \<Longrightarrow> 32 \<le> b" "a = 13 \<Longrightarrow> b < 32"
  shows "scalar_value (a * 4096 + b * 64 + d)"
    "utf8_encode (a * 4096 + b * 64 + d) = [of_nat (0xE0 + a), of_nat (0x80 + b), of_nat (0x80 + d)]"
proof -
  define c where "c = a * 4096 + b * 64 + d"
  have "c = d + 64 * (a * 64 + b)" by (simp add: c_def)
  then have h: "c div 64 = a * 64 + b" "c mod 64 = d"
    using div_mod_64 [OF assms(3), of "a * 64 + b"] by (simp_all only:)
  then have "c div 64 mod 64 = b" "c div 64 div 64 = a" using assms by simp_all
  then have c: "c div 4096 = a" "c div 64 mod 64 = b" by (simp_all add: div_mult2_eq [symmetric])
  have "0x800 \<le> c" using assms(4) by (cases "a = 0") (auto simp: c_def)
  moreover have "c < 0xD800 \<or> 0xE000 \<le> c"
    using assms by (cases a "13::nat" rule: linorder_cases) (auto simp: c_def)
  ultimately have r: "0x800 \<le> c" "c < 0x10000" "c < 0xD800 \<or> 0xE000 \<le> c"
    using assms by (auto simp: c_def)
  show "scalar_value (a * 4096 + b * 64 + d)"
    "utf8_encode (a * 4096 + b * 64 + d) = [of_nat (0xE0 + a), of_nat (0x80 + b), of_nat (0x80 + d)]"
    using r c h(2) unfolding c_def [symmetric] scalar_value_def utf8_encode_def by simp_all
qed

lemma encode_4:
  assumes "a < 5" "b < 64" "d < 64" "e < 64" "a = 0 \<Longrightarrow> 16 \<le> b" "a = 4 \<Longrightarrow> b < 16"
  shows "scalar_value (a * 262144 + b * 4096 + d * 64 + e)"
    "utf8_encode (a * 262144 + b * 4096 + d * 64 + e) =
      [of_nat (0xF0 + a), of_nat (0x80 + b), of_nat (0x80 + d), of_nat (0x80 + e)]"
proof -
  define c where "c = a * 262144 + b * 4096 + d * 64 + e"
  have "c = e + 64 * (d + 64 * (a * 64 + b))" by (simp add: c_def)
  then have h: "c div 64 = d + 64 * (a * 64 + b)" "c mod 64 = e"
    using div_mod_64 [OF assms(4), of "d + 64 * (a * 64 + b)"] by (simp_all only:)
  have h2: "c div 64 mod 64 = d" "c div 64 div 64 = a * 64 + b"
    using div_mod_64 [OF assms(3), of "a * 64 + b"] unfolding h by (simp_all only:)
  have h3: "c div 64 div 64 mod 64 = b" "c div 64 div 64 div 64 = a"
    using assms unfolding h2 by simp_all
  have c: "c div 4096 mod 64 = b" "c div 262144 = a"
    using h3 by (simp_all add: div_mult2_eq [symmetric])
  have r: "0x10000 \<le> c" "c < 0x110000"
    using assms by (cases "a = 0"; cases "a = 4"; force simp: c_def)+
  show "scalar_value (a * 262144 + b * 4096 + d * 64 + e)"
    "utf8_encode (a * 262144 + b * 4096 + d * 64 + e) =
      [of_nat (0xF0 + a), of_nat (0x80 + b), of_nat (0x80 + d), of_nat (0x80 + e)]"
    using r c h(2) h2(1) unfolding c_def [symmetric] scalar_value_def utf8_encode_def by simp_all
qed

section \<open>Validation accepts exactly the encodings\<close>

lemma byte_split: "k \<le> unat (d :: byte) \<Longrightarrow> \<exists>x. unat d = k + x \<and> d = of_nat (k + x)"
  by (rule exI [of _ "unat d - k"]) simp

lemma well_formed_sound:
  assumes "well_formed_prefix n (map unat ds)" "length ds = n"
  shows "\<exists>c. scalar_value c \<and> utf8_encode c = ds"
proof -
  consider (one) "n = 1" | (two) "n = 2" | (three) "n = 3" | (four) "n = 4"
    using assms(1) by (auto simp: well_formed_prefix_def)
  then show ?thesis
  proof cases
    case one
    then obtain x where x: "ds = [x]" using assms(2) by (auto simp: length_Suc_conv)
    then have "unat x < 0x80" using assms one by (auto simp: well_formed_prefix_def)
    then show ?thesis using x by (intro exI [of _ "unat x"]) (simp add: scalar_value_def utf8_encode_def)
  next
    case two
    then obtain x y where ds: "ds = [x, y]" using assms(2) by (auto simp: length_Suc_conv numeral_2_eq_2)
    then have r: "0xC2 \<le> unat x" "unat x \<le> 0xDF" "0x80 \<le> unat y" "unat y \<le> 0xBF"
      using assms two by (auto simp: well_formed_prefix_def)
    have "0xC0 \<le> unat x" using r by simp
    from byte_split [OF this] byte_split [OF r(3)]
    obtain a b where ab: "unat x = 0xC0 + a" "x = of_nat (0xC0 + a)" "unat y = 0x80 + b" "y = of_nat (0x80 + b)"
      by blast
    have "2 \<le> a" "a < 32" "b < 64" using r ab(1,3) by auto
    from encode_2 [OF this] show ?thesis unfolding ds ab(2) ab(4) by blast
  next
    case three
    then obtain x y z where ds: "ds = [x, y, z]"
      using assms(2) by (auto simp: length_Suc_conv numeral_3_eq_3)
    then have r: "0xE0 \<le> unat x" "unat x \<le> 0xEF" "0x80 \<le> unat y" "unat y \<le> 0xBF" "0x80 \<le> unat z"
      "unat z \<le> 0xBF" "unat x = 0xE0 \<Longrightarrow> 0xA0 \<le> unat y" "unat x = 0xED \<Longrightarrow> unat y \<le> 0x9F"
      using assms three by (auto simp: well_formed_prefix_def)
    from byte_split [OF r(1)] byte_split [OF r(3)] byte_split [OF r(5)]
    obtain a b d where ab: "unat x = 0xE0 + a" "x = of_nat (0xE0 + a)" "unat y = 0x80 + b"
      "y = of_nat (0x80 + b)" "unat z = 0x80 + d" "z = of_nat (0x80 + d)" by blast
    have "a < 16" "b < 64" "d < 64" "a = 0 \<Longrightarrow> 32 \<le> b" "a = 13 \<Longrightarrow> b < 32"
      using r unfolding ab(1) ab(3) ab(5) by auto
    from encode_3 [OF this] show ?thesis unfolding ds ab(2) ab(4) ab(6) by blast
  next
    case four
    then obtain x y z w where ds: "ds = [x, y, z, w]"
      using assms(2) by (auto simp: length_Suc_conv eval_nat_numeral)
    then have r: "0xF0 \<le> unat x" "unat x \<le> 0xF4" "0x80 \<le> unat y" "unat y \<le> 0xBF" "0x80 \<le> unat z"
      "unat z \<le> 0xBF" "0x80 \<le> unat w" "unat w \<le> 0xBF"
      "unat x = 0xF0 \<Longrightarrow> 0x90 \<le> unat y" "unat x = 0xF4 \<Longrightarrow> unat y \<le> 0x8F"
      using assms four by (auto simp: well_formed_prefix_def)
    from byte_split [OF r(1)] byte_split [OF r(3)] byte_split [OF r(5)] byte_split [OF r(7)]
    obtain a b d e where ab: "unat x = 0xF0 + a" "x = of_nat (0xF0 + a)" "unat y = 0x80 + b"
      "y = of_nat (0x80 + b)" "unat z = 0x80 + d" "z = of_nat (0x80 + d)"
      "unat w = 0x80 + e" "w = of_nat (0x80 + e)" by blast
    have "a < 5" "b < 64" "d < 64" "e < 64" "a = 0 \<Longrightarrow> 16 \<le> b" "a = 4 \<Longrightarrow> b < 16"
      using r unfolding ab(1) ab(3) ab(5) ab(7) by auto
    from encode_4 [OF this] show ?thesis unfolding ds ab(2) ab(4) ab(6) ab(8) by blast
  qed
qed

lemma unat_byte_small: "n < 256 \<Longrightarrow> unat (of_nat n :: byte) = n"
  by (simp add: unat_of_nat_byte)

lemma encode_complete:
  assumes "scalar_value c"
  shows "utf8_encode c \<noteq> []" "utf8_charlen (hd (utf8_encode c)) = length (utf8_encode c)"
    "well_formed_prefix (length (utf8_encode c)) (map unat (utf8_encode c))"
proof -
  have m: "c mod 64 < 64" "c div 64 mod 64 < 64" "c div 4096 mod 64 < 64" by simp_all
  consider (one) "c < 0x80" | (two) "0x80 \<le> c" "c < 0x800" | (three) "0x800 \<le> c" "c < 0x10000"
    | (four) "0x10000 \<le> c" by linarith
  then have "utf8_encode c \<noteq> [] \<and> utf8_charlen (hd (utf8_encode c)) = length (utf8_encode c) \<and>
    well_formed_prefix (length (utf8_encode c)) (map unat (utf8_encode c))"
  proof cases
    case one
    then show ?thesis
      by (simp add: utf8_encode_def well_formed_prefix_def utf8_charlen_unat unat_byte_small
          del: unat_of_nat)
  next
    case two
    then have "2 \<le> c div 64" "c div 64 < 32" by auto
    with two m show ?thesis
      by (simp add: utf8_encode_def well_formed_prefix_def utf8_charlen_unat unat_byte_small
          del: unat_of_nat of_nat_add)
  next
    case three
    define a b where "a = c div 4096" and "b = c div 64 mod 64"
    have a: "a < 16" using three by (auto simp: a_def)
    have s: "c = a * 4096 + b * 64 + c mod 64"
      using div_mult_mod_eq [of c 64] div_mult_mod_eq [of "c div 64" 64]
      unfolding a_def b_def div_4096 by linarith
    have b: "b < 64" by (simp add: b_def)
    have x: "a = 0 \<Longrightarrow> 32 \<le> b" "a = 13 \<Longrightarrow> b < 32"
      using three assms s m b by (auto simp: scalar_value_def)
    have "map unat (utf8_encode c) = [0xE0 + a, 0x80 + b, 0x80 + c mod 64]"
      "utf8_charlen (hd (utf8_encode c)) = 3" "length (utf8_encode c) = 3"
      using three a m by (simp_all add: utf8_encode_def a_def b_def utf8_charlen_unat unat_byte_small
          del: unat_of_nat of_nat_add)
    then show ?thesis using a x m b_def by (auto simp: well_formed_prefix_def)
  next
    case four
    define a b where "a = c div 262144" and "b = c div 4096 mod 64"
    have a: "a < 5" using four assms by (auto simp: a_def scalar_value_def)
    have s: "c = a * 262144 + b * 4096 + (c div 64 mod 64) * 64 + c mod 64"
      using div_mult_mod_eq [of c 64] div_mult_mod_eq [of "c div 64" 64]
        div_mult_mod_eq [of "c div 4096" 64]
      unfolding a_def b_def div_262144 div_4096 by linarith
    have b: "b < 64" by (simp add: b_def)
    have x: "a = 0 \<Longrightarrow> 16 \<le> b" "a = 4 \<Longrightarrow> b < 16"
      using four assms s m by (auto simp: scalar_value_def)
    have "map unat (utf8_encode c) = [0xF0 + a, 0x80 + b, 0x80 + c div 64 mod 64, 0x80 + c mod 64]"
      "utf8_charlen (hd (utf8_encode c)) = 4" "length (utf8_encode c) = 4"
      using four a m by (simp_all add: utf8_encode_def a_def b_def utf8_charlen_unat unat_byte_small
          del: unat_of_nat of_nat_add)
    moreover have "a = 0 \<or> (1 \<le> a \<and> a \<le> 3) \<or> a = 4" using a by linarith
    moreover have "b \<le> 63" "c div 64 mod 64 \<le> 63" "c mod 64 \<le> 63" using b m by linarith+
    moreover have "utf8_encode c \<noteq> []" using \<open>length (utf8_encode c) = 4\<close> by auto
    ultimately show ?thesis using x a
      by (elim disjE) (simp_all add: well_formed_prefix_def)
  qed
  then show "utf8_encode c \<noteq> []" "utf8_charlen (hd (utf8_encode c)) = length (utf8_encode c)"
    "well_formed_prefix (length (utf8_encode c)) (map unat (utf8_encode c))" by auto
qed

lemma UTF8_char_validate_encode:
  assumes "scalar_value c"
  shows "UTF8_char_validate (int (length (utf8_encode c @ rest))) (Some (utf8_encode c @ rest)) =
     Some (Some (length (utf8_encode c)))"
  using encode_complete [OF assms] unfolding UTF8_char_validate_Some_iff by simp

lemma UTF8_char_validate_result:
  assumes "bs \<noteq> []"
  shows "UTF8_char_validate (int (length bs)) (Some bs) \<noteq> None"
  using assms by (cases bs) (auto simp: UTF8_char_validate_def Let_def)

lemma UTF8_char_validate_sound:
  assumes "UTF8_char_validate (int (length bs)) (Some bs) = Some (Some n)"
  shows "\<exists>c. scalar_value c \<and> bs = utf8_encode c @ drop n bs"
proof -
  from assms have n: "n \<le> length bs" "well_formed_prefix n (map unat (take n bs))"
    by (auto simp: UTF8_char_validate_Some_iff)
  with well_formed_sound [of n "take n bs"] obtain c where "scalar_value c" "utf8_encode c = take n bs"
    by auto
  then show ?thesis by (metis append_take_drop_id)
qed

definition utf8_encodes :: "nat list \<Rightarrow> bytes" where
  "utf8_encodes cs = concat (map utf8_encode cs)"

lemma UTF8_loop_iff:
  "UTF8_loop (int (length bs)) bs = Some (\<exists>cs. (\<forall>c \<in> set cs. scalar_value c) \<and> bs = utf8_encodes cs)"
proof (induction bs rule: length_induct)
  case (1 bs)
  show ?case
  proof (cases "bs = []")
    case True
    then show ?thesis
      by (subst UTF8_loop.simps) (auto simp: utf8_encodes_def intro!: exI [of _ "[]"])
  next
    case False
    with UTF8_char_validate_result obtain r where
      r: "UTF8_char_validate (int (length bs)) (Some bs) = Some r" by blast
    have step: "(\<exists>cs. (\<forall>c \<in> set cs. scalar_value c) \<and> bs = utf8_encodes cs) \<longleftrightarrow>
      (\<exists>n. r = Some n \<and> (\<exists>cs. (\<forall>c \<in> set cs. scalar_value c) \<and> drop n bs = utf8_encodes cs))"
    proof
      assume "\<exists>cs. (\<forall>c \<in> set cs. scalar_value c) \<and> bs = utf8_encodes cs"
      then obtain c cs where "scalar_value c" "\<forall>c \<in> set cs. scalar_value c"
        "bs = utf8_encode c @ utf8_encodes cs"
        using False by (auto simp: utf8_encodes_def neq_Nil_conv) (metis concat.simps list.set_intros list.simps(8) list.simps(9) neq_Nil_conv)
      moreover from this UTF8_char_validate_encode [of c "utf8_encodes cs"] r
      have "r = Some (length (utf8_encode c))" by simp
      ultimately show "\<exists>n. r = Some n \<and> (\<exists>cs. (\<forall>c \<in> set cs. scalar_value c) \<and> drop n bs = utf8_encodes cs)"
        by (intro exI [of _ "length (utf8_encode c)"] conjI exI [of _ cs]) simp_all
    next
      assume "\<exists>n. r = Some n \<and> (\<exists>cs. (\<forall>c \<in> set cs. scalar_value c) \<and> drop n bs = utf8_encodes cs)"
      then obtain n cs where n: "r = Some n" "\<forall>c \<in> set cs. scalar_value c" "drop n bs = utf8_encodes cs"
        by blast
      with r UTF8_char_validate_sound [of bs n] obtain c where "scalar_value c" "bs = utf8_encode c @ utf8_encodes cs"
        by auto
      with n(2) show "\<exists>cs. (\<forall>c \<in> set cs. scalar_value c) \<and> bs = utf8_encodes cs"
        by (intro exI [of _ "c # cs"]) (simp add: utf8_encodes_def)
    qed
    show ?thesis
    proof (cases r)
      case None
      with r step False show ?thesis by (subst UTF8_loop.simps) simp
    next
      case (Some n)
      with r have v: "UTF8_char_validate (int (length bs)) (Some bs) = Some (Some n)" by simp
      then have n: "0 < n" "n \<le> length bs"
        using UTF8_char_validate_pos [OF v] by (simp_all add: UTF8_char_validate_Some_iff)
      have "UTF8_loop (int (length bs) - int n) (drop n bs) =
          Some (\<exists>cs. (\<forall>c \<in> set cs. scalar_value c) \<and> drop n bs = utf8_encodes cs)"
        using "1.IH" [rule_format, of "drop n bs"] n False by (simp add: of_nat_diff)
      with r Some step False show ?thesis by (subst UTF8_loop.simps) simp
    qed
  qed
qed

lemma UTF8_validate_eq_loop: "UTF8_validate (int (length bs)) (Some bs) = UTF8_loop (int (length bs)) bs"
  by (cases "bs = []"; subst UTF8_loop.simps) (simp_all add: UTF8_validate_def)

text \<open>
  C27.  A string is accepted exactly when it is the concatenation of the UTF-8 encodings of
  Unicode scalar values (so no overlong forms, no surrogates, nothing above U+10FFFF), and
  validation always returns without reading outside the string.
\<close>

theorem UTF8_validate_iff_encodes:
  "UTF8_validate (int (length bs)) (Some bs) =
     Some (\<exists>cs. (\<forall>c \<in> set cs. scalar_value c) \<and> bs = utf8_encodes cs)"
  unfolding UTF8_validate_eq_loop by (rule UTF8_loop_iff)

theorem UTF8_validate_iff_encodes_witness:
  "UTF8_validate 3 (Some [0x41, 0xC3, 0xA9]) = Some True \<and>
   (\<exists>cs. (\<forall>c \<in> set cs. scalar_value c) \<and> [0x41, 0xC3, 0xA9] = utf8_encodes cs)"
proof -
  have "UTF8_validate 3 (Some [0x41, 0xC3, 0xA9]) = Some True" by code_simp
  then show ?thesis using UTF8_validate_iff_encodes [of "[0x41, 0xC3, 0xA9]"] by simp
qed

end
