(* ===== verification/Base64.thy ===== *)
theory Base64
  imports Prelude
begin

text \<open>
  \<open>Base64.c\<close>, the portable implementation (the Windows and OpenSSL variants only call their
  libraries).  An output buffer is the list of its bytes and \<open>out_len\<close> its length; a write
  outside it has no result.  In \<open>Base64_decode\<close> the pointer \<open>out\<close> and the counter \<open>out_count\<close>
  advance together, so one index stands for both, and \<open>in_len = 0\<close> (which ends the loop) is
  the empty rest of the input.  Indices into the decoding table are signed characters.
\<close>

section \<open>The code\<close>

definition base64_encode_table :: bytes where
  "base64_encode_table =
     bytes_of ''ABCDEFGHIJKLMNOPQRSTUVWXYZabcdefghijklmnopqrstuvwxyz0123456789+/=''"

definition NV :: byte where
  "NV = 64"

definition base64_decode_table :: bytes where
  "base64_decode_table =
     replicate 43 NV @ [62] @ replicate 3 NV @ [63] @ map of_nat [52..<62] @ replicate 7 NV @
     map of_nat [0..<26] @ replicate 6 NV @ map of_nat [26..<52] @ replicate 133 NV"

definition base64_lookup :: "byte \<Rightarrow> byte ub" where
  "base64_lookup ch =
     (if sint ch < 0 then None else read_at base64_decode_table (nat (sint ch)))"

text \<open>One turn of the loop of \<open>Base64_encode\<close>: the four indices \<open>c[]\<close> and the rest of the input.\<close>

fun encode_group :: "bytes \<Rightarrow> bytes \<times> bytes" where
  "encode_group (i # j # k # rest) =
     ([drop_bit 2 (i AND NOT 3),
       push_bit 4 (i AND 3) OR drop_bit 4 (j AND NOT 0xF),
       push_bit 2 (j AND 0xF) OR drop_bit 6 (k AND NOT 0x3F),
       k AND 0x3F], rest)"
| "encode_group [i, j] =
     ([drop_bit 2 (i AND NOT 3),
       push_bit 4 (i AND 3) OR drop_bit 4 (j AND NOT 0xF), push_bit 2 (j AND 0xF), 64], [])"
| "encode_group [i] = ([drop_bit 2 (i AND NOT 3), push_bit 4 (i AND 3), 64, 64], [])"
| "encode_group [] = ([], [])"

fun put_chars :: "bytes \<Rightarrow> nat \<Rightarrow> nat \<Rightarrow> bytes \<Rightarrow> (nat \<times> bytes) ub" where
  "put_chars [] out_count pos out = Some (pos, out)"
| "put_chars (c # cs) out_count pos out =
     (if out_count \<le> length out
      then do {
        ch \<leftarrow> read_at base64_encode_table (unat c);
        out \<leftarrow> write_at out pos ch;
        put_chars cs out_count (pos + 1) out
      }
      else Some (pos, out))"

lemma encode_group_shorter: "inp \<noteq> [] \<Longrightarrow> length (snd (encode_group inp)) < length inp"
  by (induction inp rule: encode_group.induct) auto

function encode_loop :: "bytes \<Rightarrow> nat \<Rightarrow> nat \<Rightarrow> bytes \<Rightarrow> (nat \<times> nat \<times> bytes) ub" where
  "encode_loop inp out_count pos out =
     (if inp \<noteq> [] \<and> out_count < length out
      then let g = encode_group inp; out_count = (out_count + 4) mod 2 ^ 32 in
        do {
          (pos, out) \<leftarrow> put_chars (fst g) out_count pos out;
          encode_loop (snd g) out_count pos out
        }
      else Some (out_count, pos, out))"
  by pat_completeness auto
termination
  by (relation "measure (\<lambda>(inp, _). length inp)") (simp_all add: encode_group_shorter)

declare encode_loop.simps [simp del]

text \<open>The result and the buffer afterwards.\<close>

definition Base64_encode :: "bytes \<Rightarrow> bytes \<Rightarrow> (nat \<times> bytes) ub" where
  "Base64_encode out inp =
     do {
       (out_count, pos, out) \<leftarrow> encode_loop inp 0 0 out;
       if out_count \<le> length out
       then do {
         out \<leftarrow> (if out_count < length out then write_at out pos 0 else Some out);
         Some (out_count, out)
       }
       else Some (0, out)
     }"

definition or_at :: "bytes \<Rightarrow> nat \<Rightarrow> byte \<Rightarrow> bytes ub" where
  "or_at buf i b = do { a \<leftarrow> read_at buf i; write_at buf i (a OR b) }"

fun decode_loop :: "bytes \<Rightarrow> nat \<Rightarrow> bytes \<Rightarrow> (nat \<times> bytes) ub" where
  "decode_loop (i0 # i1 # i2 # i3 # rest) n out =
     (if n < length out then do {
        c0 \<leftarrow> base64_lookup i0; c1 \<leftarrow> base64_lookup i1;
        c2 \<leftarrow> base64_lookup i2; c3 \<leftarrow> base64_lookup i3;
        out \<leftarrow> write_at out n (push_bit 2 c0);
        out \<leftarrow> or_at out n (drop_bit 4 (c1 AND NOT 0xF));
        if n + 1 < length out then do {
          out \<leftarrow> write_at out (n + 1) (push_bit 4 (c1 AND 0xF));
          if c2 < NV then do {
            out \<leftarrow> or_at out (n + 1) (drop_bit 2 (c2 AND NOT 0x3));
            if n + 2 < length out then do {
              out \<leftarrow> write_at out (n + 2) (push_bit 6 (c2 AND 0x3));
              if c3 < NV then do {
                out \<leftarrow> or_at out (n + 2) c3;
                decode_loop rest (n + 3) out
              }
              else decode_loop [] (n + 2) out
            }
            else decode_loop rest (n + 2) out
          }
          else decode_loop [] (n + 1) out
        }
        else decode_loop rest (n + 1) out
      }
      else Some (n, out))"
| "decode_loop inp n out = Some (n, out)"

definition Base64_decode :: "bytes \<Rightarrow> bytes \<Rightarrow> (nat \<times> bytes) ub" where
  "Base64_decode out inp =
     do {
       (out_count, out) \<leftarrow> decode_loop inp 0 out;
       if out_count \<le> length out
       then do {
         out \<leftarrow> (if out_count < length out then write_at out out_count 0 else Some out);
         Some (out_count, out)
       }
       else Some (0, out)
     }"

definition padding_at :: "bytes \<Rightarrow> nat \<Rightarrow> (32 word) ub" where
  "padding_at bs i = do { c \<leftarrow> read_at bs i; Some (if c = 61 then 1 else 0) }"

definition Base64_decodeLength :: "bytes option \<Rightarrow> 32 word \<Rightarrow> (32 word) ub" where
  "Base64_decodeLength inp in_len =
     (case inp of
        None \<Rightarrow> Some (in_len div 4 * 3)
      | Some bs \<Rightarrow> do {
          p \<leftarrow> (if in_len > 1 then padding_at bs (unat (in_len - 2)) else Some 0);
          q \<leftarrow> (if in_len > 0 then padding_at bs (unat (in_len - 1)) else Some 0);
          Some (in_len div 4 * 3 - (p + q))
        })"

definition Base64_encodeLength :: "32 word \<Rightarrow> 32 word" where
  "Base64_encodeLength in_len = (4 * in_len div 3 + 3) AND NOT 3"

section \<open>The encoding of RFC 4648\<close>

text \<open>Three bytes are one 24-bit number, written as four digits of base 64.\<close>

definition b64_digit :: "nat \<Rightarrow> byte" where
  "b64_digit n = base64_encode_table ! n"

fun rfc4648 :: "bytes \<Rightarrow> bytes" where
  "rfc4648 (i # j # k # rest) =
     (let n = unat i * 65536 + unat j * 256 + unat k in
      map b64_digit [n div 262144, n div 4096 mod 64, n div 64 mod 64, n mod 64] @ rfc4648 rest)"
| "rfc4648 [i, j] =
     (let n = unat i * 1024 + unat j * 4 in
      map b64_digit [n div 4096, n div 64 mod 64, n mod 64] @ bytes_of ''='')"
| "rfc4648 [i] = (let n = unat i * 16 in map b64_digit [n div 64, n mod 64] @ bytes_of ''=='')"
| "rfc4648 [] = []"

definition encoded_length :: "nat \<Rightarrow> nat" where
  "encoded_length n = 4 * ((n + 2) div 3)"

lemma encoded_length_simps [simp]:
  "encoded_length 0 = 0" "encoded_length (Suc 0) = 4" "encoded_length (Suc (Suc 0)) = 4"
  "encoded_length (Suc (Suc (Suc n))) = 4 + encoded_length n"
proof -
  have "(Suc (Suc (Suc n)) + 2) div 3 = (n + 2) div 3 + 1" by simp
  then show "encoded_length (Suc (Suc (Suc n))) = 4 + encoded_length n"
    unfolding encoded_length_def by simp
qed (simp_all add: encoded_length_def)

lemma length_rfc4648: "length (rfc4648 bs) = encoded_length (length bs)"
  by (induction bs rule: rfc4648.induct) (simp_all add: Let_def)

section \<open>Encoding\<close>

lemma sextets:
  "unat (drop_bit 2 (i AND NOT 3) :: byte) = unat i div 4"
  "unat (push_bit 4 (i AND 3) OR drop_bit 4 (j AND NOT 0xF) :: byte) = unat i mod 4 * 16 + unat j div 16"
  "unat (push_bit 4 (i AND 3) :: byte) = unat i mod 4 * 16"
  "unat (push_bit 2 (j AND 0xF) OR drop_bit 6 (k AND NOT 0x3F) :: byte) = unat j mod 16 * 4 + unat k div 64"
  "unat (push_bit 2 (j AND 0xF) :: byte) = unat j mod 16 * 4"
  "unat (k AND 0x3F :: byte) = unat k mod 64"
proof -
  have "push_bit 4 (take_bit 2 i) AND drop_bit 4 j = 0" "push_bit 2 (take_bit 4 j) AND drop_bit 6 k = 0"
    by (rule byte_eqI; simp add: bit_simps)+
  note d = this [THEN unat_or_disjoint]
  have m: "unat i mod 4 * 16 < 256" "unat j mod 16 * 4 < 256" by (simp_all add: mod_less_divisor [THEN less_le_trans])
  show "unat (drop_bit 2 (i AND NOT 3) :: byte) = unat i div 4"
  "unat (push_bit 4 (i AND 3) OR drop_bit 4 (j AND NOT 0xF) :: byte) = unat i mod 4 * 16 + unat j div 16"
  "unat (push_bit 4 (i AND 3) :: byte) = unat i mod 4 * 16"
  "unat (push_bit 2 (j AND 0xF) OR drop_bit 6 (k AND NOT 0x3F) :: byte) = unat j mod 16 * 4 + unat k div 64"
  "unat (push_bit 2 (j AND 0xF) :: byte) = unat j mod 16 * 4"
  "unat (k AND 0x3F :: byte) = unat k mod 64"
    unfolding byte_high_masks byte_masks d unat_push_byte unat_take_byte unat_drop_byte
    using m by simp_all
qed

lemma encode_group_values:
  "map unat (fst (encode_group (i # j # k # rest))) =
     [unat i div 4, unat i mod 4 * 16 + unat j div 16, unat j mod 16 * 4 + unat k div 64, unat k mod 64]"
  "map unat (fst (encode_group [i, j])) =
     [unat i div 4, unat i mod 4 * 16 + unat j div 16, unat j mod 16 * 4, 64]"
  "map unat (fst (encode_group [i])) = [unat i div 4, unat i mod 4 * 16, 64, 64]"
  unfolding encode_group.simps fst_conv list.map sextets by simp_all

definition group_chars :: "bytes \<Rightarrow> bytes" where
  "group_chars inp = map b64_digit (map unat (fst (encode_group inp)))"

text \<open>The digits of a number given by its digits.\<close>

lemma digits4:
  fixes a b c d :: nat
  assumes "n = a * 262144 + b * 4096 + c * 64 + d" "b < 64" "c < 64" "d < 64"
  shows "n div 262144 = a" "n div 4096 mod 64 = b" "n div 64 mod 64 = c" "n mod 64 = d"
proof -
  have "n div 262144 = a" "n div 4096 = a * 64 + b" "n div 64 = a * 4096 + b * 64 + c"
    using assms by (intro div_nat_eqI; simp)+
  moreover have "n mod 64 = d"
    by (rule nat_mod_unique [of _ "a * 4096 + b * 64 + c"]) (use assms in simp_all)
  moreover have "(a * 64 + b) mod 64 = b"
    by (rule nat_mod_unique [of _ a]) (use assms in simp_all)
  moreover have "(a * 4096 + b * 64 + c) mod 64 = c"
    by (rule nat_mod_unique [of _ "a * 64 + b"]) (use assms in simp_all)
  ultimately show "n div 262144 = a" "n div 4096 mod 64 = b" "n div 64 mod 64 = c" "n mod 64 = d"
    by simp_all
qed

lemma digits3:
  fixes b c d :: nat
  assumes "n = b * 4096 + c * 64 + d" "b < 64" "c < 64" "d < 64"
  shows "n div 4096 = b" "n div 64 mod 64 = c" "n mod 64 = d"
proof -
  have "n < 262144" using assms by simp
  moreover from assms have "n = 0 * 262144 + b * 4096 + c * 64 + d" by simp
  ultimately show "n div 4096 = b" "n div 64 mod 64 = c" "n mod 64 = d"
    using digits4 [of n 0 b c d] assms by (simp_all add: less_mult_imp_div_less)
qed

lemma sextet_bounds:
  fixes i j k :: byte
  shows "unat i div 4 < 64" "unat i mod 4 * 16 + unat j div 16 < 64" "unat i mod 4 * 16 < 64"
    "unat j mod 16 * 4 + unat k div 64 < 64" "unat j mod 16 * 4 < 64" "unat k mod 64 < 64"
proof -
  have "unat i div 4 < 64" "unat j div 16 < 16" "unat k div 64 < 4"
    using unat_byte_less [of i] unat_byte_less [of j] unat_byte_less [of k]
    by (simp_all only: less_mult_imp_div_less)
  moreover have "unat i mod 4 < 4" "unat j mod 16 < 16" "unat k mod 64 < 64" by simp_all
  ultimately show "unat i div 4 < 64" "unat i mod 4 * 16 + unat j div 16 < 64" "unat i mod 4 * 16 < 64"
    "unat j mod 16 * 4 + unat k div 64 < 64" "unat j mod 16 * 4 < 64" "unat k mod 64 < 64"
    by linarith+
qed

lemma rfc4648_group:
  "inp \<noteq> [] \<Longrightarrow> rfc4648 inp = group_chars inp @ rfc4648 (snd (encode_group inp))"
proof (induction inp rule: encode_group.induct)
  case (1 i j k rest)
  let ?n = "unat i * 65536 + unat j * 256 + unat k"
  have "unat i * 65536 = unat i div 4 * 262144 + unat i mod 4 * 65536"
    using split_mult [of "unat i" 65536 4] by simp
  moreover have "unat j * 256 = unat j div 16 * 4096 + unat j mod 16 * 256"
    using split_mult [of "unat j" 256 16] by simp
  ultimately have n: "?n = unat i div 4 * 262144 + (unat i mod 4 * 16 + unat j div 16) * 4096 +
      (unat j mod 16 * 4 + unat k div 64) * 64 + unat k mod 64"
    by (simp add: distrib_right)
  from digits4 [OF n sextet_bounds(2,4,6)] show ?case
    unfolding group_chars_def encode_group_values by (simp add: Let_def)
next
  case (2 i j)
  have "unat i * 1024 = unat i div 4 * 4096 + unat i mod 4 * 1024"
    using split_mult [of "unat i" 1024 4] by simp
  moreover have "unat j * 4 = unat j div 16 * 64 + unat j mod 16 * 4"
    using split_mult [of "unat j" 4 16] by simp
  ultimately have n: "unat i * 1024 + unat j * 4 = unat i div 4 * 4096 +
      (unat i mod 4 * 16 + unat j div 16) * 64 + unat j mod 16 * 4"
    by (simp add: distrib_right)
  from digits3 [OF n sextet_bounds(1,2,5)] show ?case
    unfolding group_chars_def encode_group_values
    by (simp add: Let_def b64_digit_def base64_encode_table_def bytes_of_def)
next
  case (3 i)
  have "unat i * 16 = 0 * 4096 + unat i div 4 * 64 + unat i mod 4 * 16"
    using split_mult [of "unat i" 16 4] by simp
  from digits3 [OF this _ sextet_bounds(1,3)] have "unat i * 16 div 64 mod 64 = unat i div 4"
    "unat i * 16 mod 64 = unat i mod 4 * 16" by simp_all
  moreover have "unat i * 16 div 64 < 64"
    using unat_byte_less [of i] by (simp add: less_mult_imp_div_less)
  ultimately have "unat i * 16 div 64 = unat i div 4" "unat i * 16 mod 64 = unat i mod 4 * 16"
    by simp_all
  then show ?case
    unfolding group_chars_def encode_group_values
    by (simp add: Let_def b64_digit_def base64_encode_table_def bytes_of_def)
qed simp

lemma encode_group_bound: "c \<in> set (fst (encode_group inp)) \<Longrightarrow> unat c < 65"
proof -
  note less_trans [OF sextet_bounds(1), of 65] less_trans [OF sextet_bounds(2), of 65]
    less_trans [OF sextet_bounds(3), of 65] less_trans [OF sextet_bounds(4), of 65]
    less_trans [OF sextet_bounds(5), of 65] less_trans [OF sextet_bounds(6), of 65]
  then have "\<forall>v \<in> set (map unat (fst (encode_group inp))). v < 65"
    by (cases inp rule: encode_group.cases) (simp_all only: encode_group_values, simp_all)
  then show "c \<in> set (fst (encode_group inp)) \<Longrightarrow> unat c < 65" by simp
qed

lemma encode_group_length:
  assumes "inp \<noteq> []"
  shows "length (fst (encode_group inp)) = 4"
    "encoded_length (length inp) = 4 + encoded_length (length (snd (encode_group inp)))"
  using assms
  by (cases inp rule: encode_group.cases; simp)+

lemma put_chars_fits:
  assumes "pos + length cs \<le> length out" "n \<le> length out" "\<forall>c \<in> set cs. unat c < 65"
  shows "put_chars cs n pos out =
    Some (pos + length cs, take pos out @ map b64_digit (map unat cs) @ drop (pos + length cs) out)"
  using assms
proof (induction cs arbitrary: pos out)
  case (Cons c cs)
  have t: "length base64_encode_table = 65" by (simp add: base64_encode_table_def)
  have "drop (Suc (pos + length cs)) (out[pos := x]) = drop (Suc (pos + length cs)) out" for x
    by (simp add: drop_update_cancel)
  with Cons t show ?case
    by (simp add: read_at_def write_at_def b64_digit_def take_update_next del: bind_Some_iff)
qed simp

lemma put_chars_full:
  "length out < n \<Longrightarrow> put_chars cs n pos out = Some (pos, out)"
  by (cases cs) simp_all

lemma encode_loop_fits:
  assumes "n + encoded_length (length inp) \<le> length out" "length out < 2 ^ 32"
  shows "encode_loop inp n n out =
    Some (n + encoded_length (length inp), n + encoded_length (length inp),
          take n out @ rfc4648 inp @ drop (n + encoded_length (length inp)) out)"
  using assms
proof (induction inp arbitrary: n out rule: length_induct)
  case (1 inp)
  show ?case
  proof (cases "inp = []")
    case True
    then show ?thesis by (subst encode_loop.simps) (simp add: encoded_length_def)
  next
    case False
    let ?g = "encode_group inp"
    let ?m = "encoded_length (length (snd ?g))"
    let ?out = "take n out @ group_chars inp @ drop (n + 4) out"
    note l = encode_group_length [OF False]
    have len: "length ?out = length out" "length (group_chars inp) = 4"
      using 1(2) l by (simp_all add: group_chars_def)
    have n: "(n + 4) mod 2 ^ 32 = n + 4" "n < length out" "n + 4 \<le> length out"
      using 1(2,3) l by simp_all
    have put: "put_chars (fst ?g) (n + 4) n out = Some (n + 4, ?out)"
      using put_chars_fits [of n "fst ?g" out "n + 4"] l n encode_group_bound [of _ inp]
      by (simp add: group_chars_def)
    have "encode_loop (snd ?g) (n + 4) (n + 4) ?out = Some (n + 4 + ?m, n + 4 + ?m,
        take (n + 4) ?out @ rfc4648 (snd ?g) @ drop (n + 4 + ?m) ?out)"
      using 1 encode_group_shorter [OF False] l len by simp
    moreover have "take (n + 4) ?out = take n out @ group_chars inp"
      "drop (n + 4 + ?m) ?out = drop (n + 4 + ?m) out"
      using len n by (simp_all add: add.commute)
    ultimately have "encode_loop (snd ?g) (n + 4) (n + 4) ?out = Some (n + 4 + ?m, n + 4 + ?m,
        take n out @ rfc4648 inp @ drop (n + 4 + ?m) out)"
      using rfc4648_group [OF False] by simp
    moreover have "encode_loop inp n n out = encode_loop (snd ?g) (n + 4) (n + 4) ?out"
      by (subst encode_loop.simps) (simp only: Let_def n(1) put False n(2) if_True bind.simps prod.case not_False_eq_True simp_thms)
    ultimately show ?thesis using l by (simp add: add.assoc)
  qed
qed

lemma encode_loop_short:
  assumes "n \<le> length out" "length out < n + encoded_length (length inp)" "length out + 4 < 2 ^ 32"
  shows "\<exists>c out'. encode_loop inp n n out = Some (c, n + 4 * ((length out - n) div 4), out') \<and>
    length out' = length out \<and>
    c = (if 4 dvd length out - n then length out else n + 4 * ((length out - n) div 4) + 4) \<and>
    take (n + 4 * ((length out - n) div 4)) out' =
      take n out @ take (4 * ((length out - n) div 4)) (rfc4648 inp)"
  using assms
proof (induction inp arbitrary: n out rule: length_induct)
  case (1 inp)
  let ?g = "encode_group inp"
  have inp: "inp \<noteq> []" using 1(2,3) by auto
  note l = encode_group_length [OF inp]
  consider (full) "n = length out" | (part) "n < length out" "length out < n + 4" | (group) "n + 4 \<le> length out"
    using 1(2) by linarith
  then show ?case
  proof cases
    case full
    then show ?thesis by (subst encode_loop.simps) simp
  next
    case part
    then have d: "(length out - n) div 4 = 0" "\<not> 4 dvd length out - n"
      by (auto simp: dvd_eq_mod_eq_0)
    have m: "(n + 4) mod 2 ^ 32 = n + 4" using 1(4) part by simp
    have "encode_loop inp n n out = encode_loop (snd ?g) (n + 4) n out"
      by (subst encode_loop.simps)
        (simp only: Let_def m inp part put_chars_full if_True bind.simps prod.case not_False_eq_True simp_thms)
    also have "\<dots> = Some (n + 4, n, out)"
      by (subst encode_loop.simps) (use part in simp)
    finally show ?thesis using d by simp
  next
    case group
    let ?out = "take n out @ group_chars inp @ drop (n + 4) out"
    have len: "length ?out = length out" "length (group_chars inp) = 4"
      using group l by (simp_all add: group_chars_def)
    have m: "(n + 4) mod 2 ^ 32 = n + 4" "n < length out" using 1(4) group by simp_all
    have put: "put_chars (fst ?g) (n + 4) n out = Some (n + 4, ?out)"
      using put_chars_fits [of n "fst ?g" out "n + 4"] l group encode_group_bound [of _ inp]
      by (simp add: group_chars_def)
    have step: "encode_loop inp n n out = encode_loop (snd ?g) (n + 4) (n + 4) ?out"
      by (subst encode_loop.simps)
        (simp only: Let_def m put inp if_True bind.simps prod.case not_False_eq_True simp_thms)
    define k where "k = (length out - (n + 4)) div 4"
    have k: "(length out - n) div 4 = Suc k" "4 dvd length out - n \<longleftrightarrow> 4 dvd length out - (n + 4)"
    proof -
      obtain m where m: "m = length out - (n + 4)" "length out - n = m + 4" using group by simp
      show "(length out - n) div 4 = Suc k" "4 dvd length out - n \<longleftrightarrow> 4 dvd length out - (n + 4)"
        unfolding k_def m(2) unfolding m(1) [symmetric] by (simp_all add: dvd_eq_mod_eq_0)
    qed
    have p: "n + 4 \<le> length ?out" "length ?out < n + 4 + encoded_length (length (snd ?g))"
      "length ?out + 4 < 2 ^ 32"
      unfolding len using 1(3,4) l(2) group by linarith+
    from 1(1) [rule_format, OF encode_group_shorter [OF inp] p, unfolded len k_def [symmetric]]
    obtain c out' where r: "encode_loop (snd ?g) (n + 4) (n + 4) ?out = Some (c, n + 4 + 4 * k, out')"
      "length out' = length out"
      "c = (if 4 dvd length out - (n + 4) then length out else n + 4 + 4 * k + 4)"
      "take (n + 4 + 4 * k) out' = take (n + 4) ?out @ take (4 * k) (rfc4648 (snd ?g))"
      by blast
    have "take (n + 4) ?out @ take (4 * k) (rfc4648 (snd ?g)) = take n out @ take (4 * Suc k) (rfc4648 inp)"
      using len group rfc4648_group [OF inp] by simp
    with r step k show ?thesis by (simp add: add.assoc)
  qed
qed
lemma b64_lookup_digit: "v < 65 \<Longrightarrow> base64_lookup (b64_digit v) = Some (of_nat v)"
proof -
  have "list_all (\<lambda>v. base64_lookup (b64_digit v) = Some (of_nat v)) [0..<65]" by code_simp
  then show "v < 65 \<Longrightarrow> base64_lookup (b64_digit v) = Some (of_nat v)"
    unfolding list_all_iff by (metis atLeastLessThan_iff set_upt zero_le)
qed
lemma group_decode:
  fixes x y z :: byte
  shows "push_bit 2 (drop_bit 2 (x AND NOT 3)) OR
      drop_bit 4 ((push_bit 4 (x AND 3) OR drop_bit 4 (y AND NOT 0xF)) AND NOT 0xF) = x"
   "push_bit 2 (drop_bit 2 (x AND NOT 3)) OR drop_bit 4 (push_bit 4 (x AND 3) AND NOT 0xF) = x"
   "push_bit 4 ((push_bit 4 (x AND 3) OR drop_bit 4 (y AND NOT 0xF)) AND 0xF) OR
      drop_bit 2 ((push_bit 2 (y AND 0xF) OR drop_bit 6 (z AND NOT 0x3F)) AND NOT 3) = y"
   "push_bit 4 ((push_bit 4 (x AND 3) OR drop_bit 4 (y AND NOT 0xF)) AND 0xF) OR
      drop_bit 2 (push_bit 2 (y AND 0xF) AND NOT 3) = y"
   "push_bit 6 ((push_bit 2 (y AND 0xF) OR drop_bit 6 (z AND NOT 0x3F)) AND 3) OR (z AND 0x3F) = z"
  by (rule byte_eqI; simp add: bit_simps)+

lemma and_not_3: "w AND NOT 3 = push_bit 2 (drop_bit 2 (w :: 32 word))"
proof -
  have "(3 :: 32 word) = mask 2" by (simp add: mask_eq_exp_minus_1)
  moreover have "w AND NOT (mask 2) = push_bit 2 (drop_bit 2 w)"
  proof (rule bit_word_eqI)
    fix n :: nat assume n: "n < LENGTH(32)"
    show "bit (w AND NOT (mask 2)) n \<longleftrightarrow> bit (push_bit 2 (drop_bit 2 w)) n"
    proof (cases "n < 2")
      case False
      then have "2 + (n - 2) = n" by simp
      with False n show ?thesis
        by (simp only: bit_and_iff bit_not_iff bit_push_bit_iff bit_drop_bit_eq bit_mask_iff o_apply) simp
    qed (use n in \<open>simp only: bit_and_iff bit_not_iff bit_push_bit_iff bit_mask_iff; simp\<close>)
  qed
  ultimately show ?thesis by (simp only:)
qed

lemma encodeLength_unat:
  assumes "n < 2 ^ 30"
  shows "unat (Base64_encodeLength (of_nat n)) = encoded_length n"
proof -
  define w where "w = 4 * (of_nat n :: 32 word) div 3 + 3"
  have a: "unat (4 * (of_nat n :: 32 word)) = 4 * n"
    using assms by (simp add: unat_word_ariths unat_of_nat)
  have "unat (4 * (of_nat n :: 32 word) div 3) = 4 * n div 3"
    unfolding unat_div a by simp
  then have b: "unat w = 4 * n div 3 + 3"
    using assms unfolding w_def unat_word_ariths by simp
  have "unat (Base64_encodeLength (of_nat n)) = unat w mod 2 ^ 32 div 4 * 4 mod 2 ^ 32"
    unfolding Base64_encodeLength_def w_def [symmetric] and_not_3 unsigned_push_bit_eq unsigned_drop_bit_eq
    by (simp add: push_bit_eq_mult drop_bit_eq_div take_bit_eq_mod)
  also have "\<dots> = (4 * n div 3 + 3) div 4 * 4"
    unfolding b using assms by simp
  also have "(4 * n div 3 + 3) div 4 = (n + 2) div 3" by presburger
  finally show ?thesis by (simp add: encoded_length_def)
qed
lemma or_at_update:
  "i < length out \<Longrightarrow> or_at (out[i := a]) i b = Some (out[i := a OR b])"
  by (simp add: or_at_def read_at_def write_at_def)

lemma base64_lookup_sextet:
  assumes "unat c < 65"
  shows "base64_lookup (b64_digit (unat c)) = Some c"
  using b64_lookup_digit [OF assms] by simp

lemma sextet_less_NV: "unat c < 64 \<Longrightarrow> c < NV"
  by (simp add: NV_def word_less_nat_alt)

lemma rfc4648_bytes:
  "rfc4648 (x # y # z # rest) = map (b64_digit \<circ> unat)
     [drop_bit 2 (x AND NOT 3), push_bit 4 (x AND 3) OR drop_bit 4 (y AND NOT 0xF),
      push_bit 2 (y AND 0xF) OR drop_bit 6 (z AND NOT 0x3F), z AND 0x3F] @ rfc4648 rest"
  "rfc4648 [x, y] = map (b64_digit \<circ> unat)
     [drop_bit 2 (x AND NOT 3), push_bit 4 (x AND 3) OR drop_bit 4 (y AND NOT 0xF), push_bit 2 (y AND 0xF), 64]"
  "rfc4648 [x] = map (b64_digit \<circ> unat) [drop_bit 2 (x AND NOT 3), push_bit 4 (x AND 3), 64, 64]"
  by (subst rfc4648_group; simp add: group_chars_def del: rfc4648.simps(1-3) map_map)+

lemma decode_step:
  assumes "unat a < 65" "unat b < 65" "unat c < 65" "unat d < 65"
  shows "n + 2 < length out \<Longrightarrow> c < NV \<Longrightarrow> d < NV \<Longrightarrow>
      decode_loop (map (b64_digit \<circ> unat) [a, b, c, d] @ rest) n out =
      decode_loop rest (n + 3) (out[n := push_bit 2 a OR drop_bit 4 (b AND NOT 0xF),
        n + 1 := push_bit 4 (b AND 0xF) OR drop_bit 2 (c AND NOT 0x3),
        n + 2 := push_bit 6 (c AND 0x3) OR d])"
    and "n + 1 < length out \<Longrightarrow> c < NV \<Longrightarrow>
      decode_loop (map (b64_digit \<circ> unat) [a, b, c, 64]) n out =
      Some (n + 2, out[n := push_bit 2 a OR drop_bit 4 (b AND NOT 0xF),
        n + 1 := push_bit 4 (b AND 0xF) OR drop_bit 2 (c AND NOT 0x3),
        n + 2 := push_bit 6 (c AND 0x3)])"
    and "n < length out \<Longrightarrow>
      decode_loop (map (b64_digit \<circ> unat) [a, b, 64, 64]) n out =
      Some (n + 1, out[n := push_bit 2 a OR drop_bit 4 (b AND NOT 0xF), n + 1 := push_bit 4 (b AND 0xF)])"
proof -
  note l = assms [THEN base64_lookup_sextet]
  have l64: "base64_lookup (b64_digit 64) = Some NV" using b64_lookup_digit [of 64] by (simp add: NV_def)
  show "n + 2 < length out \<Longrightarrow> c < NV \<Longrightarrow> d < NV \<Longrightarrow>
      decode_loop (map (b64_digit \<circ> unat) [a, b, c, d] @ rest) n out =
      decode_loop rest (n + 3) (out[n := push_bit 2 a OR drop_bit 4 (b AND NOT 0xF),
        n + 1 := push_bit 4 (b AND 0xF) OR drop_bit 2 (c AND NOT 0x3),
        n + 2 := push_bit 6 (c AND 0x3) OR d])"
    by (simp add: l write_at_Some or_at_update del: bind_Some_iff)
  show "n + 1 < length out \<Longrightarrow> c < NV \<Longrightarrow>
      decode_loop (map (b64_digit \<circ> unat) [a, b, c, 64]) n out =
      Some (n + 2, out[n := push_bit 2 a OR drop_bit 4 (b AND NOT 0xF),
        n + 1 := push_bit 4 (b AND 0xF) OR drop_bit 2 (c AND NOT 0x3),
        n + 2 := push_bit 6 (c AND 0x3)])"
    by (simp add: l l64 write_at_Some or_at_update list_update_beyond del: bind_Some_iff)
  show "n < length out \<Longrightarrow>
      decode_loop (map (b64_digit \<circ> unat) [a, b, 64, 64]) n out =
      Some (n + 1, out[n := push_bit 2 a OR drop_bit 4 (b AND NOT 0xF), n + 1 := push_bit 4 (b AND 0xF)])"
    by (simp add: l l64 write_at_Some or_at_update list_update_beyond del: bind_Some_iff)
qed

lemma sextet_words:
  fixes x y z :: byte
  shows "unat (drop_bit 2 (x AND NOT 3)) < 64"
    "unat (push_bit 4 (x AND 3) OR drop_bit 4 (y AND NOT 0xF)) < 64"
    "unat (push_bit 4 (x AND 3)) < 64"
    "unat (push_bit 2 (y AND 0xF) OR drop_bit 6 (z AND NOT 0x3F)) < 64"
    "unat (push_bit 2 (y AND 0xF)) < 64" "unat (z AND 0x3F) < 64"
  unfolding sextets by (rule sextet_bounds)+

lemma less_64_65: "m < 64 \<Longrightarrow> m < (65 :: nat)"
  by simp

lemmas sextet_words_65 = sextet_words [THEN less_64_65]
lemmas sextet_words_NV = sextet_words [THEN sextet_less_NV]

lemma decode_loop_rfc4648:
  assumes "n + length bs \<le> length out"
  shows "\<exists>out'. decode_loop (rfc4648 bs) n out = Some (n + length bs, out') \<and>
           length out' = length out \<and> take (n + length bs) out' = take n out @ bs"
  using assms
proof (induction bs arbitrary: n out rule: rfc4648.induct)
  case (1 x y z rest)
  let ?out = "out[n := x, n + 1 := y, n + 2 := z]"
  have n: "n + 2 < length out" "n + 3 + length rest \<le> length ?out" using 1(2) by simp_all
  have "decode_loop (rfc4648 (x # y # z # rest)) n out = decode_loop (rfc4648 rest) (n + 3) ?out"
    unfolding rfc4648_bytes
    by (subst decode_step(1) [OF sextet_words_65(1,2,4,6) n(1) sextet_words_NV(4,6)]) (simp only: group_decode)
  moreover obtain out' where "decode_loop (rfc4648 rest) (n + 3) ?out = Some (n + 3 + length rest, out')"
    "length out' = length ?out" "take (n + 3 + length rest) out' = take (n + 3) ?out @ rest"
    using 1(1) [OF refl n(2)] by blast
  moreover have "take (n + 3) ?out = take n out @ [x, y, z]"
    using n by (simp add: take_Suc_conv_app_nth numeral_3_eq_3)
  ultimately show ?case by (simp add: numeral_3_eq_3 del: rfc4648.simps)
next
  case (2 x y)
  let ?out = "out[n := x, n + 1 := y, n + 2 := push_bit 6 (push_bit 2 (y AND 0xF) AND 3)]"
  have n: "n + 1 < length out" using 2 by simp
  have "decode_loop (rfc4648 [x, y]) n out = Some (n + 2, ?out)"
    unfolding rfc4648_bytes
    by (subst decode_step(2) [OF sextet_words_65(1,2,5,6) n sextet_words_NV(5)]) (simp only: group_decode)
  moreover have "take (n + 2) ?out = take n out @ [x, y]"
    using n by (simp add: take_Suc_conv_app_nth)
  ultimately show ?case by simp
next
  case (3 x)
  let ?out = "out[n := x, n + 1 := push_bit 4 (push_bit 4 (x AND 3) AND 0xF)]"
  have n: "n < length out" using 3 by simp
  have "decode_loop (rfc4648 [x]) n out = Some (n + 1, ?out)"
    unfolding rfc4648_bytes
    by (subst decode_step(3) [OF sextet_words_65(1,3,6) sextet_words_65(6) n]) (simp only: group_decode)
  moreover have "take (n + 1) ?out = take n out @ [x]"
    using n by (simp add: take_Suc_conv_app_nth)
  ultimately show ?case by simp
qed simp

section \<open>Safety of the decoder\<close>

lemma decode_loop_total:
  assumes "\<forall>c \<in> set inp. unat c < 128" "n \<le> length out"
  shows "\<exists>m out'. decode_loop inp n out = Some (m, out') \<and> m \<le> length out \<and> length out' = length out"
  using assms
proof (induction inp arbitrary: n out rule: length_induct)
  case (1 inp)
  show ?case
  proof (cases "(inp, n, out)" rule: decode_loop.cases)
    case (1 i0 i1 i2 i3 rest n out)
    have len: "length base64_decode_table = 256" by (simp add: base64_decode_table_def)
    have l: "\<exists>c. base64_lookup ch = Some c" if "unat ch < 128" for ch
      using that len unfolding base64_lookup_def sint_byte by (simp add: read_at_def)
    obtain c0 c1 c2 c3 where c: "base64_lookup i0 = Some c0" "base64_lookup i1 = Some c1"
      "base64_lookup i2 = Some c2" "base64_lookup i3 = Some c3"
      using l 1 "1.prems"(1) by (metis Pair_inject list.set_intros)
    have IH: "\<exists>m out'. decode_loop rest k o' = Some (m, out') \<and> m \<le> length out \<and> length out' = length out"
      if "k \<le> length out" "length o' = length out" for k o'
      using "1.IH" [rule_format, of rest k o'] that 1 "1.prems"(1) by simp
    show ?thesis
      using 1 "1.prems"(2) IH c by (auto simp: write_at_Some or_at_update Let_def simp del: bind_Some_iff)
  qed (use "1.prems" in simp_all)
qed

section \<open>Properties\<close>

text \<open>
  C30.  \<open>Base64_encode\<close> into a buffer that is large enough writes the RFC 4648 encoding and
  returns its length; when there is room the encoding is followed by a zero byte and the rest
  of the buffer is untouched.
\<close>

theorem Base64_encode_rfc4648:
  assumes "encoded_length (length inp) \<le> length out" "length out < 2 ^ 32"
  shows "Base64_encode out inp =
    Some (encoded_length (length inp),
          rfc4648 inp @ (if encoded_length (length inp) < length out
                         then 0 # drop (encoded_length (length inp) + 1) out else []))"
proof -
  let ?n = "encoded_length (length inp)"
  let ?out = "rfc4648 inp @ drop ?n out"
  have e: "encode_loop inp 0 0 out = Some (?n, ?n, ?out)"
    using encode_loop_fits [of 0 inp out] assms by simp
  have len: "length ?out = length out" using assms by (simp add: length_rfc4648)
  have "?out[?n := 0] = rfc4648 inp @ 0 # drop (?n + 1) out" if "?n < length out"
    using that by (simp add: list_update_append length_rfc4648 Cons_nth_drop_Suc [symmetric])
  then show ?thesis
    using assms len by (simp add: Base64_encode_def e write_at_def del: bind_Some_iff)
qed

theorem Base64_encode_rfc4648_witness:
  "Base64_encode (replicate 6 0xFF) [0x4D, 0x61] = Some (4, bytes_of ''TWE='' @ [0, 0xFF])"
proof -
  have "rfc4648 [0x4D, 0x61] = bytes_of ''TWE=''"
    by (simp add: b64_digit_def base64_encode_table_def bytes_of_def)
  then show ?thesis
    using Base64_encode_rfc4648 [of "[0x4D, 0x61]" "replicate 6 0xFF"] by simp
qed

text \<open>
  C29.  Decoding what was encoded gives the data back, for every byte string and any buffers
  that are large enough, and the decoder stays inside its buffer.
\<close>

theorem Base64_round_trip:
  assumes "encoded_length (length bs) \<le> length out" "length out < 2 ^ 32" "length bs \<le> length out2"
  shows "\<exists>n out' out2'. Base64_encode out bs = Some (n, out') \<and>
           Base64_decode out2 (take n out') = Some (length bs, out2') \<and>
           length out2' = length out2 \<and> take (length bs) out2' = bs"
proof -
  let ?n = "encoded_length (length bs)"
  obtain t where e: "Base64_encode out bs = Some (?n, rfc4648 bs @ t)"
  proof -
    have "encode_loop bs 0 0 out = Some (?n, ?n, rfc4648 bs @ drop ?n out)"
      using encode_loop_fits [of 0 bs out] assms by simp
    moreover have "length (rfc4648 bs @ drop ?n out) = length out"
      using assms by (simp add: length_rfc4648)
    ultimately show thesis
      using that assms
      by (cases "?n < length out")
        (simp_all add: Base64_encode_def write_at_def list_update_append length_rfc4648 del: bind_Some_iff)
  qed
  from decode_loop_rfc4648 [of 0 bs out2] assms obtain d where
    d: "decode_loop (rfc4648 bs) 0 out2 = Some (length bs, d)" "length d = length out2"
    "take (length bs) d = bs" by auto
  let ?d = "if length bs < length d then d[length bs := 0] else d"
  have "Base64_decode out2 (rfc4648 bs) = Some (length bs, ?d)"
    using d assms by (simp add: Base64_decode_def write_at_def del: bind_Some_iff)
  moreover have "take ?n (rfc4648 bs @ t) = rfc4648 bs" by (simp add: length_rfc4648)
  moreover have "take (length bs) ?d = bs" "length ?d = length out2" using d by simp_all
  ultimately show ?thesis using e by metis
qed

theorem Base64_round_trip_witness:
  "\<exists>n out' out2'. Base64_encode (replicate 9 0) [0, 0xFF, 0x10, 0x83] = Some (n, out') \<and>
     Base64_decode (replicate 4 0) (take n out') = Some (length [0 :: byte, 0xFF, 0x10, 0x83], out2') \<and>
     length out2' = length (replicate 4 (0 :: byte)) \<and>
     take (length [0 :: byte, 0xFF, 0x10, 0x83]) out2' = [0, 0xFF, 0x10, 0x83]"
  by (rule Base64_round_trip) simp_all

text \<open>
  C27.  With a buffer that is too small the encoder never writes outside it, but what it
  returns depends on the size: when the size is a multiple of four it reports the truncated
  encoding as a success, else it returns 0.
\<close>

theorem Base64_encode_short_buffer:
  assumes "length out < encoded_length (length inp)" "length out + 4 < 2 ^ 32"
  shows "\<exists>out'. Base64_encode out inp = Some (if 4 dvd length out then length out else 0, out') \<and>
    length out' = length out \<and>
    take (4 * (length out div 4)) out' = take (4 * (length out div 4)) (rfc4648 inp)"
proof -
  from encode_loop_short [of 0 out inp] assms obtain c out' where
    e: "encode_loop inp 0 0 out = Some (c, 4 * (length out div 4), out')" "length out' = length out"
    "c = (if 4 dvd length out then length out else 4 * (length out div 4) + 4)"
    "take (4 * (length out div 4)) out' = take (4 * (length out div 4)) (rfc4648 inp)" by auto
  show ?thesis
  proof (cases "4 dvd length out")
    case True
    with e show ?thesis by (simp add: Base64_encode_def del: bind_Some_iff)
  next
    case False
    have "length out < 4 * (length out div 4) + 4" by presburger
    with e False show ?thesis by (simp add: Base64_encode_def del: bind_Some_iff)
  qed
qed

theorem Base64_encode_short_buffer_witness:
  "\<exists>out'. Base64_encode (replicate 4 0) [1, 2, 3, 4] =
       Some (if 4 dvd length (replicate 4 (0 :: byte)) then length (replicate 4 (0 :: byte)) else 0, out') \<and>
     length out' = length (replicate 4 (0 :: byte)) \<and>
     take (4 * (length (replicate 4 (0 :: byte)) div 4)) out' =
       take (4 * (length (replicate 4 (0 :: byte)) div 4)) (rfc4648 [1, 2, 3, 4])"
  by (rule Base64_encode_short_buffer) simp_all

text \<open>
  C30.  On text of ASCII characters the decoder always returns, never leaves its buffers and
  never reports more bytes than the output holds.
\<close>

theorem Base64_decode_safe:
  assumes "\<forall>c \<in> set inp. unat c < 128"
  shows "\<exists>n out'. Base64_decode out inp = Some (n, out') \<and> n \<le> length out \<and> length out' = length out"
  using decode_loop_total [OF assms, of 0 out]
  by (auto simp: Base64_decode_def write_at_def simp del: bind_Some_iff)

theorem Base64_decode_safe_witness:
  "\<exists>n out'. Base64_decode [0, 0] (bytes_of ''?A=='') = Some (n, out') \<and> n \<le> length [0 :: byte, 0] \<and>
     length out' = length [0 :: byte, 0]"
  by (rule Base64_decode_safe) (simp add: bytes_of_def)

text \<open>
  C28.  A character of value 128 or more in the first group makes the decoder index its table
  with a negative number: the behaviour is undefined where \<open>char\<close> is signed.
\<close>

theorem Base64_decode_negative_index:
  assumes "128 \<le> unat i0" "out \<noteq> []"
  shows "Base64_decode out (i0 # i1 # i2 # i3 # rest) = None"
proof -
  have "int (unat i0) - 256 < 0" using unat_byte_less [of i0] by linarith
  then have "sint i0 < 0" using assms(1) unfolding sint_byte by (simp only: not_less [symmetric] if_False)
  then have "base64_lookup i0 = None" by (simp add: base64_lookup_def)
  then show ?thesis using assms by (simp add: Base64_decode_def del: bind_Some_iff)
qed

theorem Base64_decode_negative_index_witness:
  "Base64_decode [0] (0xC3 # 0x41 # 0x41 # 0x41 # []) = None"
  by (rule Base64_decode_negative_index) simp_all

text \<open>
  \<open>Base64_encodeLength\<close> is exactly the length of the encoding, for inputs below 2^30
  bytes, where its 32-bit arithmetic does not wrap.
\<close>

theorem Base64_encodeLength_exact:
  assumes "length bs < 2 ^ 30"
  shows "unat (Base64_encodeLength (of_nat (length bs))) = length (rfc4648 bs)"
  using encodeLength_unat [OF assms] by (simp add: length_rfc4648)

theorem Base64_encodeLength_exact_witness:
  "unat (Base64_encodeLength (of_nat (length [1 :: byte, 2, 3, 4]))) = length (rfc4648 [1, 2, 3, 4])"
  by (rule Base64_encodeLength_exact) simp

end
