(* ===== verification/Sha1.thy ===== *)
theory Sha1
  imports Prelude
begin

text \<open>
  \<open>SHA1.c\<close>, the portable implementation.  The context keeps the 64-byte block buffer, which the
  code also reads and writes as sixteen 32-bit words in host order; \<open>le\<close> says whether the host
  is little-endian, and the theorems hold for both orders.  \<open>size\<close> is kept as a number below
  2^32; \<open>total\<close> at its 32 bits.  The reference is the algorithm of FIPS 180-4.
\<close>

section \<open>Host byte order\<close>

definition load32 :: "bool \<Rightarrow> bytes \<Rightarrow> 32 word" where
  "load32 le bs = of_nat (be_nat (if le then rev bs else bs))"

definition store32 :: "bool \<Rightarrow> 32 word \<Rightarrow> bytes" where
  "store32 le w = (if le then rev (be_bytes 4 (unat w)) else be_bytes 4 (unat w))"

definition bswap32 :: "32 word \<Rightarrow> 32 word" where
  "bswap32 w = of_nat (be_nat (rev (be_bytes 4 (unat w))))"

definition be32toh :: "bool \<Rightarrow> 32 word \<Rightarrow> 32 word" where
  "be32toh le w = (if le then bswap32 w else w)"

definition htobe32 :: "bool \<Rightarrow> 32 word \<Rightarrow> 32 word" where
  "htobe32 le w = (if le then bswap32 w else w)"

fun words_of :: "bool \<Rightarrow> bytes \<Rightarrow> 32 word list" where
  "words_of le (a # b # c # d # rest) = load32 le [a, b, c, d] # words_of le rest"
| "words_of le _ = []"

section \<open>The code\<close>

record SHA_CTX =
  sha_h :: "32 word list"
  sha_buffer :: bytes
  sha_size :: nat
  sha_total :: "32 word"

text \<open>The initial contents of the buffer are whatever the memory held.\<close>

definition SHA1_Init :: "SHA_CTX option \<Rightarrow> bool \<times> SHA_CTX option" where
  "SHA1_Init c =
     (case c of None \<Rightarrow> (False, None)
      | Some ctx \<Rightarrow>
          (True, Some (ctx\<lparr>sha_h := [0x67452301, 0xEFCDAB89, 0x98BADCFE, 0x10325476, 0xC3D2E1F0],
                           sha_size := 0, sha_total := 0\<rparr>)))"

definition ROTATE_LEFT32 :: "32 word \<Rightarrow> nat \<Rightarrow> 32 word" where
  "ROTATE_LEFT32 a n = push_bit n a OR drop_bit (32 - n) a"

text \<open>One turn of the main loop: the registers \<open>blks\<close> and the block \<open>w\<close>.\<close>

definition process_step :: "nat \<Rightarrow> 32 word list \<times> 32 word list \<Rightarrow> 32 word list \<times> 32 word list" where
  "process_step i s =
     (case s of (blks, w) \<Rightarrow>
       let w = (if 16 \<le> i
                then w[i AND 0x0F := ROTATE_LEFT32
                       (w ! ((i + 13) AND 0x0F) XOR w ! ((i + 8) AND 0x0F) XOR
                        w ! ((i + 2) AND 0x0F) XOR w ! (i AND 0x0F)) 1]
                else w);
           tmp = (if i < 20 then
                    ROTATE_LEFT32 (blks ! 0) 5 +
                    ((blks ! 1 AND blks ! 2) OR (NOT (blks ! 1) AND blks ! 3)) +
                    blks ! 4 + w ! (i AND 0x0F) + 0x5A827999
                  else if i < 40 then
                    ROTATE_LEFT32 (blks ! 0) 5 + (blks ! 1 XOR blks ! 2 XOR blks ! 3) +
                    blks ! 4 + w ! (i AND 0x0F) + 0x6ED9EBA1
                  else if i < 60 then
                    ROTATE_LEFT32 (blks ! 0) 5 +
                    ((blks ! 1 AND blks ! 2) OR (blks ! 1 AND blks ! 3) OR (blks ! 2 AND blks ! 3)) +
                    blks ! 4 + w ! (i AND 0x0F) + 0x8F1BBCDC
                  else
                    ROTATE_LEFT32 (blks ! 0) 5 + (blks ! 1 XOR blks ! 2 XOR blks ! 3) +
                    blks ! 4 + w ! (i AND 0x0F) + 0xCA62C1D6)
       in ([tmp, blks ! 0, ROTATE_LEFT32 (blks ! 1) 30, blks ! 2, blks ! 3], w))"

definition SHA1_ProcessBlock :: "bool \<Rightarrow> SHA_CTX \<Rightarrow> SHA_CTX" where
  "SHA1_ProcessBlock le ctx =
     (let w = map (be32toh le) (words_of le (sha_buffer ctx));
          (blks, w) = fold process_step [0..<80] (sha_h ctx, w)
      in ctx\<lparr>sha_h := map2 (+) (sha_h ctx) blks,
             sha_buffer := concat (map (store32 le) w)\<rparr>)"

partial_function (option) SHA1_Update :: "bool \<Rightarrow> SHA_CTX \<Rightarrow> bytes \<Rightarrow> SHA_CTX option" where
  "SHA1_Update le ctx data =
     (if data = [] then Some ctx
      else
        let n = (2 ^ 32 + 64 - sha_size ctx) mod 2 ^ 32;
            n = (if length data < n then length data else n)
        in Option.bind (memcpy_at (sha_buffer ctx) (sha_size ctx) (take n data)) (\<lambda>buffer.
          let ctx = ctx\<lparr>sha_buffer := buffer, sha_size := sha_size ctx + n,
                        sha_total := sha_total ctx + of_nat n\<rparr>
          in if sha_size ctx = 64
             then SHA1_Update le ((SHA1_ProcessBlock le ctx)\<lparr>sha_size := 0\<rparr>) (drop n data)
             else SHA1_Update le ctx (drop n data)))"

definition sha1_pad :: bytes where
  "sha1_pad = 0x80 # replicate 63 0"

text \<open>
  \<open>md\<close> says whether the pointer for the digest is given; the result is what is written there
  (the return value is 1 exactly then) and the context.
\<close>

definition SHA1_Final :: "bool \<Rightarrow> bool \<Rightarrow> SHA_CTX \<Rightarrow> (bytes option \<times> SHA_CTX) ub" where
  "SHA1_Final le md ctx =
     do {
       let total = (ucast (sha_total ctx * 8) :: 64 word);
       let pad_amount = (if sha_size ctx < 56 then 56 - sha_size ctx else 64 + 56 - sha_size ctx);
       ctx \<leftarrow> (if pad_amount \<le> length sha1_pad
               then SHA1_Update le ctx (take pad_amount sha1_pad) else None);
       buffer \<leftarrow> memcpy_at (sha_buffer ctx) 56 (store32 le (htobe32 le (ucast (drop_bit 32 total))));
       buffer \<leftarrow> memcpy_at buffer 60 (store32 le (htobe32 le (ucast total)));
       let ctx = SHA1_ProcessBlock le (ctx\<lparr>sha_buffer := buffer\<rparr>);
       let ctx = ctx\<lparr>sha_h := map (htobe32 le) (sha_h ctx)\<rparr>;
       Some (if md then Some (concat (map (store32 le) (sha_h ctx))) else None, ctx)
     }"

section \<open>FIPS 180-4\<close>

fun fips_f :: "nat \<Rightarrow> 32 word \<Rightarrow> 32 word \<Rightarrow> 32 word \<Rightarrow> 32 word" where
  "fips_f t x y z =
     (if t < 20 then (x AND y) XOR (NOT x AND z)
      else if 40 \<le> t \<and> t < 60 then (x AND y) XOR (x AND z) XOR (y AND z)
      else x XOR y XOR z)"

definition fips_K :: "nat \<Rightarrow> 32 word" where
  "fips_K t = (if t < 20 then 0x5A827999 else if t < 40 then 0x6ED9EBA1
               else if t < 60 then 0x8F1BBCDC else 0xCA62C1D6)"

fun fips_W :: "32 word list \<Rightarrow> nat \<Rightarrow> 32 word" where
  "fips_W M t =
     (if t < 16 then M ! t
      else word_rotl 1 (fips_W M (t - 3) XOR fips_W M (t - 8) XOR fips_W M (t - 14) XOR fips_W M (t - 16)))"

declare fips_W.simps [simp del]

fun fips_round :: "32 word list \<Rightarrow> nat \<Rightarrow> 32 word list \<Rightarrow> 32 word list" where
  "fips_round M t [a, b, c, d, e] =
     [word_rotl 5 a + fips_f t b c d + e + fips_K t + fips_W M t, a, word_rotl 30 b, c, d]"
| "fips_round M t _ = []"

definition fips_block :: "bytes \<Rightarrow> 32 word list" where
  "fips_block bs = map (\<lambda>i. of_nat (be_nat (take 4 (drop (4 * i) bs)))) [0..<16]"

definition fips_compress :: "32 word list \<Rightarrow> bytes \<Rightarrow> 32 word list" where
  "fips_compress H bs = map2 (+) H (fold (fips_round (fips_block bs)) [0..<80] H)"

function fips_blocks :: "32 word list \<Rightarrow> bytes \<Rightarrow> 32 word list" where
  "fips_blocks H m = (if length m < 64 then H else fips_blocks (fips_compress H (take 64 m)) (drop 64 m))"
  by pat_completeness auto
termination by (relation "measure (length \<circ> snd)") auto

declare fips_blocks.simps [simp del]

definition fips_pad :: "bytes \<Rightarrow> bytes" where
  "fips_pad m = m @ [0x80] @ replicate ((119 - length m mod 64) mod 64) 0 @ be_bytes 8 (8 * length m)"

definition fips_H0 :: "32 word list" where
  "fips_H0 = [0x67452301, 0xEFCDAB89, 0x98BADCFE, 0x10325476, 0xC3D2E1F0]"

definition fips_sha1 :: "bytes \<Rightarrow> bytes" where
  "fips_sha1 m = concat (map (\<lambda>w. be_bytes 4 (unat w)) (fips_blocks fips_H0 (fips_pad m)))"

section \<open>The block in host order\<close>

lemma unat_of_be_nat4: "length bs = 4 \<Longrightarrow> unat (of_nat (be_nat bs) :: 32 word) = be_nat bs"
  using be_nat_bound [of bs] by (simp add: unat_of_nat)

lemma be32toh_load32:
  assumes "length bs = 4"
  shows "be32toh le (load32 le bs) = of_nat (be_nat bs)"
  using assms unat_of_be_nat4 [of "rev bs"] be_bytes_be_nat [of "rev bs"]
  by (simp add: be32toh_def load32_def bswap32_def)

lemma be_nat_be_bytes_word: "be_nat (be_bytes 4 (unat (w :: 32 word))) = unat w"
proof -
  have "unat w < 256 ^ 4" using unsigned_less [of w, where 'a = nat] by simp
  then show ?thesis by (simp add: be_nat_be_bytes)
qed

lemma store32_htobe32: "store32 le (htobe32 le w) = be_bytes 4 (unat w)"
proof (cases le)
  case True
  have l: "length (rev (be_bytes 4 (unat w))) = 4" by simp
  show ?thesis
    using True unat_of_be_nat4 [OF l] be_bytes_be_nat [of "rev (be_bytes 4 (unat w))"]
    by (simp add: htobe32_def store32_def bswap32_def)
qed (simp add: htobe32_def store32_def)

lemma words_of_nth:
  "i < length bs div 4 \<Longrightarrow> words_of le bs ! i = load32 le (take 4 (drop (4 * i) bs))"
proof (induction le bs arbitrary: i rule: words_of.induct)
  case (1 le a b c d rest)
  show ?case
  proof (cases i)
    case (Suc k)
    then have "4 * i = Suc (Suc (Suc (Suc (4 * k))))" by simp
    then have "drop (4 * i) (a # b # c # d # rest) = drop (4 * k) rest" by (simp only: drop_Suc_Cons)
    with 1 Suc show ?thesis by simp
  qed simp
qed simp_all

lemma length_words_of: "length (words_of le bs) = length bs div 4"
  by (induction le bs rule: words_of.induct) simp_all

lemma words_of_block:
  assumes "length bs = 64"
  shows "map (be32toh le) (words_of le bs) = fips_block bs"
proof (rule nth_equalityI)
  fix i assume "i < length (map (be32toh le) (words_of le bs))"
  then have "i < 16" using assms by (simp add: length_words_of)
  then show "map (be32toh le) (words_of le bs) ! i = fips_block bs ! i"
    using assms by (simp add: fips_block_def words_of_nth length_words_of be32toh_load32)
qed (simp add: fips_block_def length_words_of assms)

section \<open>The schedule in sixteen words\<close>

lemma and_15: "n AND 15 = n mod (16 :: nat)"
proof -
  have "(15 :: nat) = mask 4" by (simp add: mask_eq_exp_minus_1)
  then show ?thesis by (simp only: take_bit_eq_mask [symmetric] take_bit_eq_mod) simp
qed

lemma ROTATE_LEFT32_rotl:
  assumes "0 < n" "n < 32"
  shows "ROTATE_LEFT32 a n = word_rotl n a"
proof (rule bit_word_eqI)
  fix k :: nat assume k: "k < LENGTH(32)"
  have m: "n mod 32 = n" using assms by simp
  show "bit (ROTATE_LEFT32 a n) k = bit (word_rotl n a) k"
  proof (cases "n \<le> k")
    case True
    then have "(k + (32 - n)) mod 32 = k - n"
      using assms k by (intro nat_mod_unique [of _ 1]) auto
    moreover have "\<not> bit a (32 - n + k)"
      using True assms bit_imp_le_length [of a "32 - n + k"] by auto
    ultimately show ?thesis using True k assms
      by (simp add: ROTATE_LEFT32_def bit_word_rotl_iff bit_or_iff bit_push_bit_iff bit_drop_bit_eq m)
  next
    case False
    then have "(k + (32 - n)) mod 32 = 32 - n + k" using assms by simp
    then show ?thesis using False k assms
      by (simp only: ROTATE_LEFT32_def bit_word_rotl_iff bit_or_iff bit_push_bit_iff bit_drop_bit_eq o_apply) (simp add: m)
  qed
qed

lemma f_choose: "(x AND y) OR (NOT x AND z) = (x AND y) XOR (NOT x AND z)" for x y z :: "32 word"
  by (rule bit_word_eqI) (auto simp: bit_simps)

lemma f_majority:
  "(x AND y) OR (x AND z) OR (y AND z) = (x AND y) XOR (x AND z) XOR (y AND z)" for x y z :: "32 word"
  by (rule bit_word_eqI) (auto simp: bit_simps)

definition window :: "32 word list \<Rightarrow> nat \<Rightarrow> 32 word list \<Rightarrow> bool" where
  "window M i w \<longleftrightarrow> length w = 16 \<and> (\<forall>j. j < max 16 i \<longrightarrow> i \<le> j + 16 \<longrightarrow> w ! (j mod 16) = fips_W M j)"

lemma window_step:
  assumes "window M i w"
  defines "w' \<equiv> (if 16 \<le> i then w[i AND 0x0F := ROTATE_LEFT32
                       (w ! ((i + 13) AND 0x0F) XOR w ! ((i + 8) AND 0x0F) XOR
                        w ! ((i + 2) AND 0x0F) XOR w ! (i AND 0x0F)) 1] else w)"
  shows "window M (Suc i) w'" "w' ! (i AND 0x0F) = fips_W M i"
proof -
  have len: "length w = 16" and W: "\<And>j. j < max 16 i \<Longrightarrow> i \<le> j + 16 \<Longrightarrow> w ! (j mod 16) = fips_W M j"
    using assms(1) by (auto simp: window_def)
  show 2: "w' ! (i AND 0x0F) = fips_W M i"
  proof (cases "16 \<le> i")
    case True
    have e: "(i + 13) mod 16 = (i - 3) mod 16" "(i + 8) mod 16 = (i - 8) mod 16"
      "(i + 2) mod 16 = (i - 14) mod 16" "i mod 16 = (i - 16) mod 16"
      using True mod_add_self2 [of "i - 3" 16] mod_add_self2 [of "i - 8" 16]
        mod_add_self2 [of "i - 14" 16] mod_add_self2 [of "i - 16" 16]
      by (simp_all only: add.commute le_add_diff_inverse2) (simp_all add: add.commute)
    have "w ! ((i + 13) AND 0x0F) = fips_W M (i - 3)" "w ! ((i + 8) AND 0x0F) = fips_W M (i - 8)"
      "w ! ((i + 2) AND 0x0F) = fips_W M (i - 14)" "w ! (i AND 0x0F) = fips_W M (i - 16)"
      unfolding and_15 e using True by (intro W; simp)+
    then show ?thesis
      using True len unfolding w'_def by (subst fips_W.simps) (simp add: ROTATE_LEFT32_rotl and_15)
  next
    case False
    then show ?thesis using W [of i] by (simp add: w'_def and_15)
  qed
  have "w' ! (j mod 16) = fips_W M j" if j: "j < max 16 (Suc i)" "Suc i \<le> j + 16" for j
  proof (cases "j = i")
    case True
    with 2 show ?thesis by (simp add: and_15)
  next
    case False
    then have "j < max 16 i" "i \<le> j + 16" using j by auto
    moreover have "j mod 16 \<noteq> i mod 16" if "16 \<le> i"
    proof
      assume "j mod 16 = i mod 16"
      moreover have "i - 16 < j" "j < i" using that j False by auto
      ultimately have "16 dvd i - j" by (metis mod_eq_dvd_iff_nat less_imp_le)
      then show False using \<open>i - 16 < j\<close> \<open>j < i\<close> by (auto dest: dvd_imp_le)
    qed
    ultimately show ?thesis using W [of j] by (auto simp: w'_def and_15)
  qed
  then show "window M (Suc i) w'" using len by (auto simp: window_def w'_def)
qed

lemma process_step_round:
  assumes "window M i w" "length blks = 5"
  shows "\<exists>w'. process_step i (blks, w) = (fips_round M i blks, w') \<and> window M (Suc i) w' \<and>
    length (fips_round M i blks) = 5"
proof -
  obtain a b c d e where b: "blks = [a, b, c, d, e]"
    using assms(2) by (auto simp: numeral_eq_Suc length_Suc_conv)
  note s = window_step [OF assms(1)]
  show ?thesis
    using s unfolding b process_step_def Let_def prod.case
    by (auto simp: fips_K_def ROTATE_LEFT32_rotl f_choose f_majority xor.assoc add_ac)
qed

lemma process_loop_rounds:
  assumes "length M = 16" "length H = 5"
  shows "\<exists>w. fold process_step [0..<n] (H, M) = (fold (fips_round M) [0..<n] H, w) \<and> window M n w \<and>
    length (fold (fips_round M) [0..<n] H) = 5"
proof (induction n)
  case 0
  have "window M 0 M" using assms by (simp add: window_def fips_W.simps)
  then show ?case using assms by simp
next
  case (Suc n)
  then obtain w where "fold process_step [0..<n] (H, M) = (fold (fips_round M) [0..<n] H, w)"
    "window M n w" "length (fold (fips_round M) [0..<n] H) = 5" by blast
  with process_step_round [of M n w "fold (fips_round M) [0..<n] H"] show ?case by auto
qed

lemma length_fips_compress: "length H = 5 \<Longrightarrow> length (fips_compress H bs) = 5"
  using process_loop_rounds [of "fips_block bs" H 80] by (auto simp: fips_compress_def fips_block_def)

lemma length_store32 [simp]: "length (store32 le w) = 4"
  by (simp add: store32_def)

lemma length_concat_store32: "length (concat (map (store32 le) ws)) = 4 * length ws"
  by (induction ws) simp_all

lemma ProcessBlock_compress:
  assumes "length (sha_buffer ctx) = 64" "length (sha_h ctx) = 5"
  shows "sha_h (SHA1_ProcessBlock le ctx) = fips_compress (sha_h ctx) (sha_buffer ctx)"
    "length (sha_buffer (SHA1_ProcessBlock le ctx)) = 64"
    "sha_size (SHA1_ProcessBlock le ctx) = sha_size ctx"
    "sha_total (SHA1_ProcessBlock le ctx) = sha_total ctx"
proof -
  have "length (fips_block (sha_buffer ctx)) = 16" by (simp add: fips_block_def)
  from process_loop_rounds [OF this assms(2), of 80] obtain w where
    w: "fold process_step [0..<80] (sha_h ctx, fips_block (sha_buffer ctx)) =
      (fold (fips_round (fips_block (sha_buffer ctx))) [0..<80] (sha_h ctx), w)" "length w = 16"
    by (auto simp: window_def)
  have p: "SHA1_ProcessBlock le ctx = ctx\<lparr>sha_h := fips_compress (sha_h ctx) (sha_buffer ctx),
      sha_buffer := concat (map (store32 le) w)\<rparr>"
    unfolding SHA1_ProcessBlock_def words_of_block [OF assms(1)] Let_def w(1) prod.case fips_compress_def ..
  show "sha_h (SHA1_ProcessBlock le ctx) = fips_compress (sha_h ctx) (sha_buffer ctx)"
    "length (sha_buffer (SHA1_ProcessBlock le ctx)) = 64"
    "sha_size (SHA1_ProcessBlock le ctx) = sha_size ctx"
    "sha_total (SHA1_ProcessBlock le ctx) = sha_total ctx"
    unfolding p using w(2) by (simp_all add: length_concat_store32)
qed

lemma be_bytes_add: "be_bytes (j + k) n = be_bytes j (n div 256 ^ k) @ be_bytes k n"
proof (induction k arbitrary: n)
  case (Suc k)
  then show ?case by (simp add: div_mult2_eq)
qed simp

section \<open>Hashing in pieces\<close>

text \<open>What the context holds after a message \<open>m\<close>.\<close>

definition sha_inv :: "bytes \<Rightarrow> SHA_CTX \<Rightarrow> bool" where
  "sha_inv m ctx \<longleftrightarrow>
     length (sha_buffer ctx) = 64 \<and> length (sha_h ctx) = 5 \<and>
     sha_size ctx = length m mod 64 \<and> sha_total ctx = of_nat (length m) \<and>
     take (sha_size ctx) (sha_buffer ctx) = drop (length m - length m mod 64) m \<and>
     sha_h ctx = fips_blocks fips_H0 m"

lemma fips_blocks_short: "length m < 64 \<Longrightarrow> fips_blocks H m = H"
  by (subst fips_blocks.simps) simp

lemma fips_blocks_step:
  "64 \<le> length m \<Longrightarrow> fips_blocks H m = fips_blocks (fips_compress H (take 64 m)) (drop 64 m)"
  by (subst fips_blocks.simps) simp

lemma fips_blocks_append:
  "64 dvd length a \<Longrightarrow> fips_blocks H (a @ b) = fips_blocks (fips_blocks H a) b"
proof (induction a arbitrary: H rule: length_induct)
  case (1 a)
  show ?case
  proof (cases "a = []")
    case True
    then show ?thesis by (simp add: fips_blocks_short)
  next
    case False
    then have l: "64 \<le> length a" using 1(2) by (auto dest: dvd_imp_le)
    then have "length (drop 64 a) < length a" "64 dvd length (drop 64 a)" using 1(2) False by auto
    with 1(1) have "fips_blocks (fips_compress H (take 64 a)) (drop 64 a @ b) =
      fips_blocks (fips_blocks (fips_compress H (take 64 a)) (drop 64 a)) b" by blast
    with l show ?thesis by (simp add: fips_blocks_step)
  qed
qed

lemma fips_blocks_take:
  assumes "64 dvd k" "k \<le> length m"
  shows "fips_blocks H (take k m @ b) = fips_blocks (fips_blocks H (take k m)) b"
  using assms by (intro fips_blocks_append) (simp add: min_absorb2)

lemma fips_blocks_one: "length m = 64 \<Longrightarrow> fips_blocks H m = fips_compress H m"
  by (subst fips_blocks.simps) (simp add: fips_blocks_short)

text \<open>Only whole blocks count.\<close>

lemma fips_blocks_whole:
  "fips_blocks H m = fips_blocks H (take (length m - length m mod 64) m)"
proof -
  let ?k = "length m - length m mod 64"
  have "64 dvd ?k" by (simp add: minus_mod_eq_mult_div)
  then have "fips_blocks H (take ?k m @ drop ?k m) = fips_blocks (fips_blocks H (take ?k m)) (drop ?k m)"
    by (intro fips_blocks_append) simp
  then show ?thesis by (simp add: fips_blocks_short)
qed

lemma sha_inv_Init: "length (sha_buffer ctx) = 64 \<Longrightarrow>
    sha_inv [] (ctx\<lparr>sha_h := fips_H0, sha_size := 0, sha_total := 0\<rparr>)"
  by (simp add: sha_inv_def fips_H0_def fips_blocks_short)

lemma SHA1_Update_inv:
  assumes "sha_inv m ctx"
  shows "\<exists>ctx'. SHA1_Update le ctx data = Some ctx' \<and> sha_inv (m @ data) ctx'"
  using assms
proof (induction data arbitrary: m ctx rule: length_induct)
  case (1 data)
  show ?case
  proof (cases "data = []")
    case True
    with 1(2) show ?thesis by (subst SHA1_Update.simps) simp
  next
    case False
    define s where "s = length m mod 64"
    define n where "n = (if length data < 64 - s then length data else 64 - s)"
    have s: "s < 64" "sha_size ctx = s" using 1(2) by (simp_all add: s_def sha_inv_def)
    have n: "0 < n" "n \<le> length data" "s + n \<le> 64" using False s by (auto simp: n_def)
    have n_code: "(2 ^ 32 + 64 - sha_size ctx) mod 2 ^ 32 = 64 - s"
      unfolding s(2) by (rule nat_mod_unique [of _ 1]) (use s in simp_all)
    let ?buf = "take s (sha_buffer ctx) @ take n data @ drop (s + n) (sha_buffer ctx)"
    have cp: "memcpy_at (sha_buffer ctx) (sha_size ctx) (take n data) = Some ?buf"
      using 1(2) n s by (simp add: memcpy_at_def sha_inv_def)
    let ?c = "ctx\<lparr>sha_buffer := ?buf, sha_size := s + n, sha_total := sha_total ctx + of_nat n\<rparr>"
    have step: "SHA1_Update le ctx data =
        (if s + n = 64 then SHA1_Update le ((SHA1_ProcessBlock le ?c)\<lparr>sha_size := 0\<rparr>) (drop n data)
         else SHA1_Update le ?c (drop n data))"
      using False n_code cp s
      by (subst SHA1_Update.simps) (simp add: n_def Let_def del: bind_Some_iff)
    have buf: "length ?buf = 64" using 1(2) n s by (simp add: sha_inv_def)
    have tl: "take s (sha_buffer ctx) = drop (length m - s) m" "length (sha_h ctx) = 5"
      "sha_h ctx = fips_blocks fips_H0 m" "sha_total ctx = of_nat (length m)"
      using 1(2) unfolding sha_inv_def s_def [symmetric] by metis+
    have ms: "64 dvd length m - s" "s \<le> length m" by (simp_all add: s_def minus_mod_eq_mult_div)
    show ?thesis
    proof (cases "s + n = 64")
      case True
      let ?d = "(SHA1_ProcessBlock le ?c)\<lparr>sha_size := 0\<rparr>"
      have "length (sha_buffer ctx) = 64" using 1(2) by (simp add: sha_inv_def)
      then have "?buf = drop (length m - s) m @ take n data" using True tl by simp
      then have blk: "fips_blocks fips_H0 (m @ take n data) = fips_compress (fips_blocks fips_H0 m) ?buf"
      proof -
        assume b: "?buf = drop (length m - s) m @ take n data"
        have "m @ take n data = take (length m - s) m @ ?buf" unfolding b by simp
        then have "fips_blocks fips_H0 (m @ take n data) =
            fips_blocks (fips_blocks fips_H0 (take (length m - s) m)) ?buf"
          using fips_blocks_take [OF ms(1)] by simp
        then show ?thesis
          using fips_blocks_one [OF buf] fips_blocks_whole [of fips_H0 m] by (simp add: s_def)
      qed
      have len: "(length m + n) mod 64 = 0"
        using True by (metis add.commute mod_add_left_eq mod_self s_def)
      have "sha_inv (m @ take n data) ?d"
        using ProcessBlock_compress [of ?c le] buf tl n len blk
        by (simp add: sha_inv_def length_fips_compress)
      moreover have "length (drop n data) < length data" using n False by simp
      ultimately have "\<exists>ctx'. SHA1_Update le ?d (drop n data) = Some ctx' \<and>
          sha_inv ((m @ take n data) @ drop n data) ctx'" using 1(1) by blast
      with step True show ?thesis by simp
    next
      case F: False
      then have all: "n = length data" using n unfolding n_def by (auto split: if_splits)
      have len: "(length m + n) mod 64 = s + n"
        using n F s by (metis le_neq_implies_less mod_add_left_eq mod_less s_def)
      have k: "length m + n - (s + n) = length m - s" by simp
      have "fips_blocks fips_H0 (m @ data) = fips_blocks fips_H0 m"
        unfolding fips_blocks_whole [of _ "m @ data"] fips_blocks_whole [of _ m]
        using len all k ms by (simp add: s_def)
      then have "sha_inv (m @ data) ?c"
        using buf tl n len all ms k by (simp add: sha_inv_def)
      with step F all show ?thesis by (subst (asm) (2) SHA1_Update.simps) simp
    qed
  qed
qed

lemma pad_prefix: "0 < p \<Longrightarrow> p \<le> 64 \<Longrightarrow> take p sha1_pad = 0x80 # replicate (p - 1) 0"
  by (cases p) (simp_all add: sha1_pad_def)

text \<open>The digest of any message: the code encodes the bit length modulo 2^32.\<close>

lemma SHA1_Final_digest:
  assumes "sha_inv m ctx"
  shows "\<exists>ctx'. SHA1_Final le True ctx = Some (Some (concat (map (\<lambda>w. be_bytes 4 (unat w))
    (fips_blocks fips_H0 (m @ [0x80] @ replicate ((119 - length m mod 64) mod 64) 0 @
       be_bytes 8 (8 * length m mod 2 ^ 32))))), ctx')"
proof -
  define s where "s = length m mod 64"
  define p where "p = (if s < 56 then 56 - s else 64 + 56 - s)"
  let ?m = "m @ take p sha1_pad"
  let ?len = "be_bytes 8 (8 * length m mod 2 ^ 32)"
  have s: "s < 64" "sha_size ctx = s" "sha_total ctx = of_nat (length m)"
    using assms by (simp_all add: s_def sha_inv_def)
  have p: "0 < p" "p \<le> 64" "p - 1 = (119 - s) mod 64"
    using s(1) by (auto simp: p_def mod_if)
  have pl: "length sha1_pad = 64" by (simp add: sha1_pad_def)
  from SHA1_Update_inv [OF assms] obtain c where
    c: "SHA1_Update le ctx (take p sha1_pad) = Some c" "sha_inv ?m c" by blast
  have l: "length ?m = length m + p" using p pl by simp
  have lm: "length ?m mod 64 = 56"
  proof -
    have "length m = length m div 64 * 64 + s" by (simp add: s_def)
    moreover have "(s + p) mod 64 = 56" using s(1) by (auto simp: p_def mod_if)
    ultimately show ?thesis unfolding l by (metis add.assoc mod_mult_self3)
  qed
  have size: "sha_size c = 56" and buf: "length (sha_buffer c) = 64" and h5: "length (sha_h c) = 5"
    and tk: "take 56 (sha_buffer c) = drop (length ?m - 56) ?m"
    and hc: "sha_h c = fips_blocks fips_H0 ?m"
    using c(2) unfolding sha_inv_def lm by metis+
  let ?total = "ucast (sha_total ctx * 8) :: 64 word"
  have lo: "unat (ucast ?total :: 32 word) = 8 * length m mod 2 ^ 32"
    by (simp add: s(3) unsigned_ucast_eq unat_word_ariths unat_of_nat take_bit_eq_mod mod_mult_left_eq)
      (simp add: mult.commute)
  have hi: "(ucast (drop_bit 32 ?total) :: 32 word) = 0"
  proof -
    have "drop_bit 32 ?total = 0"
      by (rule bit_word_eqI) (auto simp: bit_drop_bit_eq bit_ucast_iff dest: bit_imp_le_length)
    then show ?thesis by simp
  qed
  have len: "?len = be_bytes 4 0 @ be_bytes 4 (8 * length m mod 2 ^ 32)"
    using be_bytes_add [of 4 4 "8 * length m mod 2 ^ 32"] by simp
  let ?b = "take 56 (sha_buffer c) @ ?len"
  have b: "memcpy_at (sha_buffer c) 56 (be_bytes 4 0) =
      Some (take 56 (sha_buffer c) @ be_bytes 4 0 @ drop 60 (sha_buffer c))"
    using buf by (simp add: memcpy_at_def)
  have b2: "memcpy_at (take 56 (sha_buffer c) @ be_bytes 4 0 @ drop 60 (sha_buffer c)) 60
      (be_bytes 4 (8 * length m mod 2 ^ 32)) = Some ?b"
    using buf unfolding len by (simp add: memcpy_at_def)
  let ?c = "SHA1_ProcessBlock le (c\<lparr>sha_buffer := ?b\<rparr>)"
  have "sha_h ?c = fips_compress (sha_h c) ?b"
    using ProcessBlock_compress [of "c\<lparr>sha_buffer := ?b\<rparr>" le] buf h5 by simp
  also have "\<dots> = fips_blocks fips_H0 (?m @ ?len)"
  proof -
    let ?k = "length ?m - 56"
    have k: "64 dvd ?k" "56 \<le> length ?m"
      using lm by (metis minus_mod_eq_mult_div dvd_triv_left, metis mod_less_eq_dividend)
    have "?m @ ?len = take ?k ?m @ ?b"
      unfolding tk append_assoc [symmetric] append_take_drop_id ..
    then have "fips_blocks fips_H0 (?m @ ?len) = fips_blocks (fips_blocks fips_H0 (take ?k ?m)) ?b"
      by (simp only: fips_blocks_take [OF k(1) diff_le_self])
    moreover have "length ?b = 64" using buf by simp
    moreover have "fips_blocks fips_H0 ?m = fips_blocks fips_H0 (take ?k ?m)"
      using fips_blocks_whole [of fips_H0 ?m] unfolding lm .
    ultimately show ?thesis using fips_blocks_one hc by simp
  qed
  finally have h: "sha_h ?c = fips_blocks fips_H0 (?m @ ?len)" .
  have "SHA1_Final le True ctx = Some (Some (concat (map (store32 le) (map (htobe32 le) (sha_h ?c)))),
      ?c\<lparr>sha_h := map (htobe32 le) (sha_h ?c)\<rparr>)"
    unfolding SHA1_Final_def Let_def s(2) p_def [symmetric]
    using c(1) p pl b b2 lo hi by (simp add: store32_htobe32 del: bind_Some_iff)
  moreover have "map (store32 le) (map (htobe32 le) (sha_h ?c)) = map (\<lambda>w. be_bytes 4 (unat w)) (sha_h ?c)"
    by (simp add: store32_htobe32)
  moreover have "?m @ ?len = m @ [0x80] @ replicate ((119 - length m mod 64) mod 64) 0 @ ?len"
    using pad_prefix [OF p(1,2)] p(3) by (simp add: s_def)
  ultimately show ?thesis using h by (metis (no_types, lifting))
qed

fun SHA1_Updates :: "bool \<Rightarrow> SHA_CTX \<Rightarrow> bytes list \<Rightarrow> SHA_CTX option" where
  "SHA1_Updates le ctx [] = Some ctx"
| "SHA1_Updates le ctx (d # ds) = do { ctx \<leftarrow> SHA1_Update le ctx d; SHA1_Updates le ctx ds }"

lemma SHA1_Updates_inv:
  assumes "sha_inv m ctx"
  shows "\<exists>ctx'. SHA1_Updates le ctx ds = Some ctx' \<and> sha_inv (m @ concat ds) ctx'"
  using assms
proof (induction ds arbitrary: m ctx)
  case (Cons d ds)
  from SHA1_Update_inv [OF Cons.prems] obtain c where
    c: "SHA1_Update le ctx d = Some c" "sha_inv (m @ d) c" by blast
  from Cons.IH [OF c(2)] c(1) show ?case by (auto simp del: bind_Some_iff)
qed simp

section \<open>Properties\<close>

text \<open>
  C28.  Hashing a message in any number of pieces of any sizes, on either kind of host, gives
  the SHA-1 digest of FIPS 180-4 for every message below 2^29 bytes; every loop ends and
  every access stays inside the context's buffer.
\<close>

theorem SHA1_is_fips_sha1:
  assumes "length (sha_buffer c) = 64" "SHA1_Init (Some c) = (ok, Some c0)"
    "length (concat ds) < 2 ^ 29"
  shows "\<exists>c1 c2. SHA1_Updates le c0 ds = Some c1 \<and> SHA1_Final le True c1 = Some (Some (fips_sha1 (concat ds)), c2)"
proof -
  have "sha_inv [] c0"
    using sha_inv_Init [OF assms(1)] assms(2) by (auto simp: SHA1_Init_def fips_H0_def)
  from SHA1_Updates_inv [OF this, of le ds] obtain c1 where
    c1: "SHA1_Updates le c0 ds = Some c1" "sha_inv (concat ds) c1" by auto
  have "8 * length (concat ds) mod 2 ^ 32 = 8 * length (concat ds)" using assms(3) by simp
  with SHA1_Final_digest [OF c1(2), of le] c1(1) show ?thesis
    unfolding fips_sha1_def fips_pad_def by auto
qed

theorem SHA1_is_fips_sha1_witness:
  "\<exists>c1 c2. SHA1_Updates True \<lparr>sha_h = fips_H0, sha_buffer = replicate 64 0, sha_size = 0, sha_total = 0\<rparr>
       [bytes_of ''ab'', bytes_of ''c''] = Some c1 \<and>
     SHA1_Final True True c1 = Some (Some (fips_sha1 (concat [bytes_of ''ab'', bytes_of ''c''])), c2)"
  by (rule SHA1_is_fips_sha1 [of "\<lparr>sha_h = [], sha_buffer = replicate 64 0, sha_size = 3, sha_total = 7\<rparr>" True])
    (simp_all add: SHA1_Init_def fips_H0_def)

text \<open>
  C29.  Without the bound, the length field of the padding holds the bit length modulo 2^32,
  because \<open>total * 8\<close> is computed in 32 bits: from 2^29 bytes on this is not the 64-bit length
  the standard asks for.
\<close>

theorem SHA1_length_field_wraps:
  assumes "length (sha_buffer c) = 64" "SHA1_Init (Some c) = (ok, Some c0)"
  shows "\<exists>c1 c2. SHA1_Updates le c0 ds = Some c1 \<and>
    SHA1_Final le True c1 = Some (Some (concat (map (\<lambda>w. be_bytes 4 (unat w)) (fips_blocks fips_H0
      (concat ds @ [0x80] @ replicate ((119 - length (concat ds) mod 64) mod 64) 0 @
       be_bytes 8 (8 * length (concat ds) mod 2 ^ 32))))), c2)"
proof -
  have "sha_inv [] c0"
    using sha_inv_Init [OF assms(1)] assms(2) by (auto simp: SHA1_Init_def fips_H0_def)
  from SHA1_Updates_inv [OF this, of le ds] obtain c1 where
    c1: "SHA1_Updates le c0 ds = Some c1" "sha_inv (concat ds) c1" by auto
  with SHA1_Final_digest [OF c1(2), of le] show ?thesis by blast
qed

theorem SHA1_length_field_wraps_witness:
  "\<exists>c1 c2. SHA1_Updates False \<lparr>sha_h = fips_H0, sha_buffer = replicate 64 0, sha_size = 0, sha_total = 0\<rparr> [[1]] = Some c1 \<and>
    SHA1_Final False True c1 = Some (Some (concat (map (\<lambda>w. be_bytes 4 (unat w)) (fips_blocks fips_H0
      (concat [[1]] @ [0x80] @ replicate ((119 - length (concat [[1 :: byte]]) mod 64) mod 64) 0 @
       be_bytes 8 (8 * length (concat [[1 :: byte]]) mod 2 ^ 32))))), c2)"
  by (rule SHA1_length_field_wraps [of "\<lparr>sha_h = [], sha_buffer = replicate 64 0, sha_size = 3, sha_total = 7\<rparr>" True])
    (simp_all add: SHA1_Init_def fips_H0_def)

end
