(* ===== verification/PacketIO.thy ===== *)
theory PacketIO
  imports Prelude "HOL-Library.Signed_Division"
begin

text \<open>
  The wire primitives of \<open>MQTTPacket.c\<close>.  An input pointer is a position in the list of the
  bytes that may be read, an output pointer a position in the list of the bytes that may be
  written (\<open>cursor\<close>); going outside either has no result.  \<open>enddata\<close> is a position too.
  C's \<open>int\<close> arguments are integers and its truncating \<open>/\<close> and \<open>%\<close> are \<open>sdiv\<close> and \<open>smod\<close>.
\<close>

section \<open>Writing\<close>

type_synonym cursor = "bytes \<times> nat"

definition writeChar :: "byte \<Rightarrow> cursor \<Rightarrow> cursor ub" where
  "writeChar c s = (case s of (buf, p) \<Rightarrow> map_option (\<lambda>buf. (buf, p + 1)) (write_at buf p c))"

definition writeInt :: "int \<Rightarrow> cursor \<Rightarrow> cursor ub" where
  "writeInt anInt s =
     do { s \<leftarrow> writeChar (of_int (anInt sdiv 256)) s; writeChar (of_int (anInt smod 256)) s }"

text \<open>\<open>memcpy\<close> to the output pointer, and the pointer moved behind it.\<close>

definition write_bytes :: "bytes \<Rightarrow> cursor \<Rightarrow> cursor ub" where
  "write_bytes bs s = (case s of (buf, p) \<Rightarrow> map_option (\<lambda>buf. (buf, p + length bs)) (memcpy_at buf p bs))"

text \<open>C strings are given without their terminating zero.\<close>

definition writeUTF :: "bytes \<Rightarrow> cursor \<Rightarrow> cursor ub" where
  "writeUTF string s =
     do { s \<leftarrow> writeInt (sint (of_nat (length string) :: 32 word)) s; write_bytes string s }"

definition writeData :: "bytes \<Rightarrow> int \<Rightarrow> cursor \<Rightarrow> cursor ub" where
  "writeData data datalen s =
     do {
       s \<leftarrow> writeInt datalen s;
       if 0 \<le> datalen \<and> nat datalen \<le> length data then write_bytes (take (nat datalen) data) s else None
     }"

definition writeInt4 :: "int \<Rightarrow> cursor \<Rightarrow> cursor ub" where
  "writeInt4 anInt s =
     do {
       s \<leftarrow> writeChar (of_int (anInt sdiv 16777216)) s;
       let anInt = anInt smod 16777216;
       s \<leftarrow> writeChar (of_int (anInt sdiv 65536)) s;
       let anInt = anInt smod 65536;
       s \<leftarrow> writeChar (of_int (anInt sdiv 256)) s;
       writeChar (of_int (anInt smod 256)) s
     }"

text \<open>\<open>MQTTLenString\<close>: a length and the bytes the data pointer leads to.\<close>

record MQTTLenString =
  mls_len :: int
  mls_data :: bytes

definition writeMQTTLenString :: "MQTTLenString \<Rightarrow> cursor \<Rightarrow> cursor ub" where
  "writeMQTTLenString ls s = writeData (mls_data ls) (mls_len ls) s"

text \<open>
  \<open>MQTTPacket_encode\<close>: the loop over the digits.  With \<open>buf\<close> equal to \<open>NULL\<close> (\<open>None\<close>) it only
  counts; else it writes to the given buffer from the position \<open>off\<close> on.
\<close>

function MQTTPacket_encode_loop :: "bytes option \<Rightarrow> nat \<Rightarrow> nat \<Rightarrow> nat \<Rightarrow> (nat \<times> bytes option) ub" where
  "MQTTPacket_encode_loop buf off len rc =
     (let d = (of_nat (len mod 128) :: byte);
          len = len div 128;
          d = (if len > 0 then d OR 0x80 else d)
      in do {
        buf \<leftarrow> (case buf of None \<Rightarrow> Some None
                | Some b \<Rightarrow> map_option Some (write_at b (off + rc) d));
        if len > 0 then MQTTPacket_encode_loop buf off len (rc + 1) else Some (rc + 1, buf)
      })"
  by pat_completeness auto
termination by (relation "measure (\<lambda>(buf, off, len, rc). len)") auto

definition MQTTPacket_encode :: "bytes option \<Rightarrow> nat \<Rightarrow> nat \<Rightarrow> (nat \<times> bytes option) ub" where
  "MQTTPacket_encode buf off len = MQTTPacket_encode_loop buf off len 0"

text \<open>\<open>*pptr += MQTTPacket_encode(*pptr, length)\<close>.\<close>

definition write_vbi :: "nat \<Rightarrow> cursor \<Rightarrow> cursor ub" where
  "write_vbi n s =
     (case s of (buf, p) \<Rightarrow>
        do { (rc, b) \<leftarrow> MQTTPacket_encode (Some buf) p n;
             case b of None \<Rightarrow> None | Some buf \<Rightarrow> Some (buf, p + rc) })"

definition MQTTPacket_VBIlen :: "int \<Rightarrow> nat" where
  "MQTTPacket_VBIlen rem_len =
     (if rem_len < 128 then 1 else if rem_len < 16384 then 2
      else if rem_len < 2097152 then 3 else 4)"

section \<open>Reading\<close>

definition readChar :: "bytes \<Rightarrow> nat \<Rightarrow> (byte \<times> nat) ub" where
  "readChar data p = map_option (\<lambda>c. (c, p + 1)) (read_at data p)"

definition readInt :: "bytes \<Rightarrow> nat \<Rightarrow> (nat \<times> nat) ub" where
  "readInt data p =
     do { a \<leftarrow> read_at data p; b \<leftarrow> read_at data (p + 1); Some (256 * unat a + unat b, p + 2) }"

text \<open>The sum is computed in \<open>int\<close>; its bits are what every caller stores.\<close>

definition readInt4 :: "bytes \<Rightarrow> nat \<Rightarrow> (32 word \<times> nat) ub" where
  "readInt4 data p =
     do { a \<leftarrow> read_at data p; b \<leftarrow> read_at data (p + 1);
          c \<leftarrow> read_at data (p + 2); d \<leftarrow> read_at data (p + 3);
          Some (16777216 * ucast a + 65536 * ucast b + 256 * ucast c + ucast d, p + 4) }"

text \<open>The string or \<open>NULL\<close>, the pointer afterwards and \<open>*len\<close>, which may be left alone.\<close>

definition readUTFlen ::
  "allocator \<Rightarrow> bytes \<Rightarrow> nat \<Rightarrow> nat \<Rightarrow> int \<Rightarrow> (bytes option \<times> nat \<times> int) ub" where
  "readUTFlen malloc data p enddata len0 =
     (if int enddata - int p > 1 then
        do {
          (len, p) \<leftarrow> readInt data p;
          if p + len \<le> enddata then
            if \<not> malloc (Bytes (len + 1)) then Some (None, p, int len)
            else if p + len \<le> length data
                 then Some (Some (take len (drop p data)), p + len, int len) else None
          else Some (None, p, int len)
        }
      else Some (None, p, len0))"

definition readUTF :: "allocator \<Rightarrow> bytes \<Rightarrow> nat \<Rightarrow> nat \<Rightarrow> (bytes option \<times> nat) ub" where
  "readUTF malloc data p enddata =
     map_option (\<lambda>(string, p, len). (string, p)) (readUTFlen malloc data p enddata 0)"

text \<open>
  The result is the number of bytes used or -1, the string and the pointer.  On an error the
  length field may have been set already; the data field is then what it was (\<open>ls0\<close>).
\<close>

definition MQTTLenStringRead ::
  "MQTTLenString \<Rightarrow> bytes \<Rightarrow> nat \<Rightarrow> nat \<Rightarrow> (int \<times> MQTTLenString \<times> nat) ub" where
  "MQTTLenStringRead ls0 data p enddata =
     (if int enddata - int p > 1 then
        do {
          (len, p) \<leftarrow> readInt data p;
          let ls = ls0\<lparr>mls_len := int len\<rparr>;
          if p + len \<le> enddata
          then Some (2 + int len, ls\<lparr>mls_data := take len (drop p data)\<rparr>, p + len)
          else Some (-1, ls, p)
        }
      else Some (-1, ls0, p))"

text \<open>
  \<open>MQTTPacket_VBIdecode\<close>, over any source of characters: the state of the source goes through
  \<open>getcharfn\<close>, which returns its result code and the character.  \<open>len\<close> counts the bytes asked
  for; the result is \<open>len\<close> and the value.
\<close>

function vbi_loop ::
  "('s \<Rightarrow> (int \<times> byte \<times> 's) ub) \<Rightarrow> 's \<Rightarrow> nat \<Rightarrow> 32 word \<Rightarrow> 32 word \<Rightarrow> (nat \<times> 32 word \<times> 's) ub" where
  "vbi_loop getcharfn s len val multiplier =
     (if len + 1 > 4 then Some (len + 1, val, s)
      else do {
        (rc, c, s) \<leftarrow> getcharfn s;
        if rc \<noteq> 1 then Some (len + 1, val, s)
        else
          let val = val + ucast (c AND 127) * multiplier in
          if c AND 128 \<noteq> 0 then vbi_loop getcharfn s (len + 1) val (multiplier * 128)
          else Some (len + 1, val, s)
      })"
  by pat_completeness auto
termination by (relation "measure (\<lambda>(g, s, len, v, m). 4 - len)") auto

definition MQTTPacket_VBIdecode ::
  "('s \<Rightarrow> (int \<times> byte \<times> 's) ub) \<Rightarrow> 's \<Rightarrow> (nat \<times> 32 word \<times> 's) ub" where
  "MQTTPacket_VBIdecode getcharfn s = vbi_loop getcharfn s 0 0 1"

text \<open>\<open>bufchar(c, 1)\<close>; the static \<open>bufptr\<close> is a position in the buffer.\<close>

definition bufchar :: "bytes \<Rightarrow> nat \<Rightarrow> (int \<times> byte \<times> nat) ub" where
  "bufchar data bufptr = do { c \<leftarrow> read_at data bufptr; Some (1, c, bufptr + 1) }"

definition MQTTPacket_decodeBuf :: "bytes \<Rightarrow> nat \<Rightarrow> (nat \<times> 32 word) ub" where
  "MQTTPacket_decodeBuf data p =
     do { (len, val, bufptr) \<leftarrow> MQTTPacket_VBIdecode (bufchar data) p; Some (len, val) }"

text \<open>
  \<open>MQTTPacket_decode\<close> reads from the network; \<open>getch\<close> stands for \<open>WebSocket_getch\<close> (result code,
  character, state of the connection).  \<open>TCPSOCKET_COMPLETE\<close> is 0.
\<close>

function net_decode_loop ::
  "('s \<Rightarrow> int \<times> byte \<times> 's) \<Rightarrow> 's \<Rightarrow> nat \<Rightarrow> nat \<Rightarrow> nat \<Rightarrow> int \<times> nat \<times> 's" where
  "net_decode_loop getch s len val multiplier =
     (if len + 1 > 4 then (-1, val, s)
      else case getch s of (rc, c, s) \<Rightarrow>
        if rc \<noteq> 0 then (rc, val, s)
        else
          let val = val + unat (c AND 127) * multiplier in
          if c AND 128 \<noteq> 0 then net_decode_loop getch s (len + 1) val (multiplier * 128)
          else (rc, val, s))"
  by pat_completeness auto
termination by (relation "measure (\<lambda>(g, s, len, v, m). 4 - len)") auto

definition MQTTPacket_decode :: "('s \<Rightarrow> int \<times> byte \<times> 's) \<Rightarrow> 's \<Rightarrow> int \<times> nat \<times> 's" where
  "MQTTPacket_decode getch s = net_decode_loop getch s 0 0 1"

declare MQTTPacket_encode_loop.simps [simp del] vbi_loop.simps [simp del] net_decode_loop.simps [simp del]

section \<open>The encodings\<close>

text \<open>The variable byte integer of the MQTT specification.\<close>

fun vbi_enc :: "nat \<Rightarrow> bytes" where
  "vbi_enc n = (if n < 128 then [of_nat n] else of_nat (n mod 128 + 128) # vbi_enc (n div 128))"

declare vbi_enc.simps [simp del]

definition utf_enc :: "bytes \<Rightarrow> bytes" where
  "utf_enc s = be_bytes 2 (length s) @ s"

section \<open>Writers write encodings\<close>

lemma write_bytes_Nil [simp]: "write_bytes [] s = (if snd s \<le> length (fst s) then Some s else None)"
  by (cases s) (simp add: write_bytes_def memcpy_at_def)

lemma write_bytes_append:
  "write_bytes (a @ b) s = Option.bind (write_bytes a s) (write_bytes b)"
proof (cases s)
  case (Pair buf p)
  show ?thesis
  proof (cases "p + length a + length b \<le> length buf")
    case True
    then show ?thesis
      by (simp add: Pair write_bytes_def memcpy_at_def add.assoc add.commute add.left_commute)
  next
    case False
    then show ?thesis
      by (simp add: Pair write_bytes_def memcpy_at_def)
  qed
qed

lemma writeChar_bytes [codec_simps]: "writeChar c = write_bytes [c]"
proof
  fix s show "writeChar c s = write_bytes [c] s"
    by (cases s) (auto simp: writeChar_def write_bytes_def memcpy_at_def write_at_def upd_conv_take_nth_drop)
qed

lemma sdiv_smod_nonneg:
  assumes "0 \<le> a" "0 < b"
  shows "(a :: int) sdiv b = a div b" "a smod b = a mod b"
  using assms by (cases "a = 0"; simp add: signed_divide_int_def signed_modulo_int_def)+

lemma byte_of_int_mod: "(of_int (n mod 256) :: byte) = of_int n"
  by (simp add: word_of_int_eq_iff take_bit_eq_mod)

lemma mod_mult_div: "0 < b \<Longrightarrow> m mod (b * c) div b = m div b mod (c :: nat)"
  by (simp add: mod_mult2_eq)

lemma byte_of_int_nat:
  "(of_int (int m div numeral k) :: byte) = of_nat (m div numeral k)"
  "int m mod numeral k = int (m mod numeral k)"
  by (metis of_int_of_nat_eq of_nat_numeral zdiv_int) (simp add: zmod_int)

lemma be_bytes_small:
  "be_bytes 2 n = [of_nat (n div 256), of_nat n]"
  "be_bytes 4 n = [of_nat (n div 16777216), of_nat (n div 65536), of_nat (n div 256), of_nat n]"
proof -
  have "(2 :: nat) = Suc (Suc 0)" "(4 :: nat) = Suc (Suc (Suc (Suc 0)))" by simp_all
  then show "be_bytes 2 n = [of_nat (n div 256), of_nat n]"
    "be_bytes 4 n = [of_nat (n div 16777216), of_nat (n div 65536), of_nat (n div 256), of_nat n]"
    by (simp_all only: be_bytes.simps append.simps div_mult2_eq [symmetric]) simp_all
qed

lemma writeInt_bytes: "writeInt (int n) = write_bytes (be_bytes 2 n)"
proof
  fix s
  have "be_bytes 2 n = [of_nat (n div 256)] @ [of_nat n]" by (simp add: be_bytes_small)
  moreover have "(of_nat (n mod 256) :: byte) = of_nat n" by (simp add: byte_of_nat_eq_iff)
  ultimately show "writeInt (int n) s = write_bytes (be_bytes 2 n) s"
    by (simp only: write_bytes_append)
      (simp add: writeInt_def writeChar_bytes sdiv_smod_nonneg byte_of_int_nat)
qed

lemma writeInt4_bytes: "writeInt4 (int n) = write_bytes (be_bytes 4 n)"
proof
  fix s
  have e: "be_bytes 4 n = [of_nat (n div 16777216)] @ [of_nat (n div 65536)] @ [of_nat (n div 256)] @ [of_nat n]"
    by (simp add: be_bytes_small)
  have "n mod 16777216 div 65536 = n div 65536 mod 256" "n mod 65536 div 256 = n div 256 mod 256"
    "n mod 16777216 mod 65536 = n mod 65536" "n mod 65536 mod 256 = n mod 256"
    using mod_mult_div [of 65536 n 256] mod_mult_div [of 256 n 256] by (simp_all add: mod_mod_cancel)
  then have m: "(of_nat (n mod 16777216 div 65536) :: byte) = of_nat (n div 65536)"
    "(of_nat (n mod 16777216 mod 65536 div 256) :: byte) = of_nat (n div 256)"
    "(of_nat (n mod 16777216 mod 65536 mod 256) :: byte) = of_nat n"
    by (simp_all add: byte_of_nat_eq_iff)
  show "writeInt4 (int n) s = write_bytes (be_bytes 4 n) s"
    unfolding e write_bytes_append writeInt4_def Let_def writeChar_bytes
    by (simp only: sdiv_smod_nonneg of_nat_0_le_iff zero_less_numeral byte_of_int_nat m of_int_of_nat_eq)
qed

lemma sint_of_nat_small: "n < 2 ^ 31 \<Longrightarrow> sint (of_nat n :: 32 word) = int n"
  by (simp add: signed_of_nat signed_take_bit_int_eq_self)

lemma writeUTF_bytes:
  assumes "length s < 2 ^ 31"
  shows "writeUTF s = write_bytes (utf_enc s)"
proof
  fix c show "writeUTF s c = write_bytes (utf_enc s) c"
    using sint_of_nat_small [OF assms]
    unfolding writeUTF_def utf_enc_def write_bytes_append by (simp add: writeInt_bytes)
qed

lemma writeData_bytes:
  assumes "n \<le> length d"
  shows "writeData d (int n) = write_bytes (be_bytes 2 n @ take n d)"
proof
  fix c show "writeData d (int n) c = write_bytes (be_bytes 2 n @ take n d) c"
    using assms unfolding writeData_def write_bytes_append by (simp add: writeInt_bytes)
qed

lemma continuation_byte:
  assumes "k < 128"
  shows "(of_nat k :: byte) OR 0x80 = of_nat (k + 128)"
    "unat ((of_nat (k + 128) :: byte) AND 127) = k" "(of_nat (k + 128) :: byte) AND 128 \<noteq> 0"
    "unat ((of_nat k :: byte) AND 127) = k" "(of_nat k :: byte) AND 128 = 0"
proof -
  have "list_all (\<lambda>k. (of_nat k :: byte) OR 0x80 = of_nat (k + 128) \<and>
    unat ((of_nat (k + 128) :: byte) AND 127) = k \<and> (of_nat (k + 128) :: byte) AND 128 \<noteq> 0 \<and>
    unat ((of_nat k :: byte) AND 127) = k \<and> (of_nat k :: byte) AND 128 = 0) [0..<128]"
    by code_simp
  then have "\<forall>k < 128. (of_nat k :: byte) OR 0x80 = of_nat (k + 128) \<and>
    unat ((of_nat (k + 128) :: byte) AND 127) = k \<and> (of_nat (k + 128) :: byte) AND 128 \<noteq> 0 \<and>
    unat ((of_nat k :: byte) AND 127) = k \<and> (of_nat k :: byte) AND 128 = 0"
    unfolding list_all_iff by (metis atLeastLessThan_iff set_upt zero_le)
  with assms show "(of_nat k :: byte) OR 0x80 = of_nat (k + 128)"
    "unat ((of_nat (k + 128) :: byte) AND 127) = k" "(of_nat (k + 128) :: byte) AND 128 \<noteq> 0"
    "unat ((of_nat k :: byte) AND 127) = k" "(of_nat k :: byte) AND 128 = 0" by blast+
qed

lemma encode_loop_bytes:
  "MQTTPacket_encode_loop (Some buf) off n rc =
    (if off + rc + length (vbi_enc n) \<le> length buf
     then Some (rc + length (vbi_enc n),
                Some (take (off + rc) buf @ vbi_enc n @ drop (off + rc + length (vbi_enc n)) buf))
     else None)"
proof (induction n arbitrary: buf rc rule: vbi_enc.induct)
  case (1 n)
  show ?case
  proof (cases "n < 128")
    case True
    then show ?thesis
      by (subst MQTTPacket_encode_loop.simps, subst (1 2 3 4) vbi_enc.simps)
        (simp add: write_at_def upd_conv_take_nth_drop)
  next
    case False
    then have d: "0 < n div 128" by simp
    let ?b = "of_nat (n mod 128 + 128) :: byte"
    have b: "(of_nat (n mod 128) :: byte) OR 0x80 = ?b" by (rule continuation_byte) simp
    have e: "vbi_enc n = ?b # vbi_enc (n div 128)" using False by (subst vbi_enc.simps) simp
    show ?thesis
    proof (cases "off + rc < length buf")
      case True
      have "MQTTPacket_encode_loop (Some buf) off n rc =
          MQTTPacket_encode_loop (Some (buf[off + rc := ?b])) off (n div 128) (rc + 1)"
        by (subst MQTTPacket_encode_loop.simps) (use True d b in \<open>simp add: write_at_def Let_def del: bind_Some_iff of_nat_add\<close>)
      also have "\<dots> = (if off + (rc + 1) + length (vbi_enc (n div 128)) \<le> length buf
        then Some (rc + 1 + length (vbi_enc (n div 128)),
          Some (take (off + (rc + 1)) (buf[off + rc := ?b]) @ vbi_enc (n div 128) @
            drop (off + (rc + 1) + length (vbi_enc (n div 128))) (buf[off + rc := ?b])))
        else None)"
        using 1 [of "buf[off + rc := ?b]" "rc + 1"] False by simp
      also have "take (off + (rc + 1)) (buf[off + rc := ?b]) = take (off + rc) buf @ [?b]"
        using True take_update_next by simp
      finally show ?thesis unfolding e by (simp add: drop_update_cancel)
    next
      case False
      then show ?thesis
        by (subst MQTTPacket_encode_loop.simps) (simp add: e write_at_def Let_def del: bind_Some_iff)
    qed
  qed
qed

lemma encode_loop_count:
  "MQTTPacket_encode_loop None off n rc = Some (rc + length (vbi_enc n), None)"
proof (induction n arbitrary: rc rule: vbi_enc.induct)
  case (1 n)
  show ?case
    by (subst MQTTPacket_encode_loop.simps, subst vbi_enc.simps)
      (use 1 in \<open>auto simp: Let_def div_eq_0_iff simp del: bind_Some_iff\<close>)
qed

lemma write_vbi_bytes: "write_vbi n = write_bytes (vbi_enc n)"
proof
  fix s show "write_vbi n s = write_bytes (vbi_enc n) s"
    by (cases s) (simp add: write_vbi_def MQTTPacket_encode_def encode_loop_bytes write_bytes_def
        memcpy_at_def del: bind_Some_iff)
qed

lemma vbi_length_bound:
  "length (vbi_enc n) \<le> Suc k \<longleftrightarrow> n < 128 ^ Suc k"
proof (induction k arbitrary: n)
  case 0
  have "vbi_enc (n div 128) \<noteq> []" by (subst vbi_enc.simps) simp
  then show ?case by (subst vbi_enc.simps) simp
next
  case (Suc k)
  have "n div 128 < 128 ^ Suc k \<longleftrightarrow> n < 128 ^ Suc (Suc k)"
    by (simp only: power_Suc [of _ "Suc k"]) (simp add: div_less_iff_less_mult mult.commute)
  moreover have "n < 128 \<Longrightarrow> n < 128 ^ Suc (Suc k)"
    by (rule less_le_trans [of _ 128]) simp_all
  ultimately show ?case using Suc [of "n div 128"] by (subst vbi_enc.simps) auto
qed

lemma VBIlen_vbi_enc:
  assumes "n < 2 ^ 28"
  shows "MQTTPacket_VBIlen (int n) = length (vbi_enc n)"
proof -
  have "(128 :: nat) ^ Suc 0 = 128" "(128 :: nat) ^ Suc (Suc 0) = 16384"
    "(128 :: nat) ^ Suc (Suc (Suc 0)) = 2097152" "(128 :: nat) ^ Suc (Suc (Suc (Suc 0))) = 268435456"
    by simp_all
  note l = vbi_length_bound [of n 0, unfolded this] vbi_length_bound [of n "Suc 0", unfolded this]
    vbi_length_bound [of n "Suc (Suc 0)", unfolded this]
    vbi_length_bound [of n "Suc (Suc (Suc 0))", unfolded this]
  define k where "k = length (vbi_enc n)"
  have "0 < k" unfolding k_def by (subst vbi_enc.simps) simp
  then show ?thesis
    using assms l [folded k_def] unfolding MQTTPacket_VBIlen_def k_def [symmetric] by auto
qed

section \<open>Readers read encodings\<close>

lemma read_at_append [simp]:
  "read_at (pre @ bs) (length pre + i) = read_at bs i"
  "read_at (pre @ bs) (length pre) = read_at bs 0"
  by (simp_all add: read_at_def nth_append)

lemma read_at_Cons [simp]: "read_at (b # bs) 0 = Some b" "read_at (b # bs) (Suc i) = read_at bs i"
  by (simp_all add: read_at_def)

lemma readChar_append [codec_simps]:
  "readChar (pre @ c # post) (length pre) = Some (c, length pre + 1)"
  by (simp add: readChar_def)

lemma be_nat_small: "be_nat [a] = unat a" "be_nat [a, b] = 256 * unat a + unat b"
  "be_nat [a, b, c, d] = 16777216 * unat a + 65536 * unat b + 256 * unat c + unat d"
  by (simp_all add: be_nat_def)

lemma readInt_append:
  assumes "n < 65536"
  shows "readInt (pre @ be_bytes 2 n @ post) (length pre) = Some (n, length pre + 2)"
proof -
  have "be_nat (be_bytes 2 n) = n" using assms by (simp add: be_nat_be_bytes)
  then have "256 * unat (of_nat (n div 256) :: byte) + unat (of_nat n :: byte) = n"
    unfolding be_bytes_small be_nat_small .
  moreover have "read_at (pre @ be_bytes 2 n @ post) (length pre) = Some (of_nat (n div 256))"
    "read_at (pre @ be_bytes 2 n @ post) (length pre + 1) = Some (of_nat n)"
    by (simp_all only: read_at_append) (simp_all add: be_bytes_small)
  ultimately show ?thesis by (simp add: readInt_def del: bind_Some_iff unat_of_nat)
qed

lemma readInt4_append:
  "readInt4 (pre @ be_bytes 4 (unat w) @ post) (length pre) = Some (w, length pre + 4)"
proof -
  let ?n = "unat w"
  have "?n < 256 ^ 4" using unsigned_less [of w, where 'a = nat] by simp
  then have "be_nat (be_bytes 4 ?n) = ?n" by (simp add: be_nat_be_bytes)
  then have n: "16777216 * unat (of_nat (?n div 16777216) :: byte) +
      65536 * unat (of_nat (?n div 65536) :: byte) + 256 * unat (of_nat (?n div 256) :: byte) +
      unat (of_nat ?n :: byte) = ?n"
    unfolding be_bytes_small be_nat_small .
  have u: "ucast b = (of_nat (unat b) :: 32 word)" for b :: byte by simp
  have "16777216 * ucast (of_nat (?n div 16777216) :: byte) +
      65536 * ucast (of_nat (?n div 65536) :: byte) + 256 * ucast (of_nat (?n div 256) :: byte) +
      ucast (of_nat ?n :: byte) = (of_nat (16777216 * unat (of_nat (?n div 16777216) :: byte) +
      65536 * unat (of_nat (?n div 65536) :: byte) + 256 * unat (of_nat (?n div 256) :: byte) +
      unat (of_nat ?n :: byte)) :: 32 word)"
    unfolding u of_nat_add of_nat_mult by (simp only: of_nat_numeral)
  also have "\<dots> = w" unfolding n by simp
  finally have w: "16777216 * ucast (of_nat (?n div 16777216) :: byte) +
      65536 * ucast (of_nat (?n div 65536) :: byte) + 256 * ucast (of_nat (?n div 256) :: byte) +
      ucast (of_nat ?n :: byte) = w" .
  have "read_at (pre @ be_bytes 4 ?n @ post) (length pre) = Some (of_nat (?n div 16777216))"
    "read_at (pre @ be_bytes 4 ?n @ post) (length pre + 1) = Some (of_nat (?n div 65536))"
    "read_at (pre @ be_bytes 4 ?n @ post) (length pre + 2) = Some (of_nat (?n div 256))"
    "read_at (pre @ be_bytes 4 ?n @ post) (length pre + 3) = Some (of_nat ?n)"
    by (simp_all only: read_at_append) (simp_all add: be_bytes_small read_at_def)
  then show ?thesis
    by (simp only: readInt4_def bind.simps w)
qed

lemma vbi_loop_bytes:
  assumes "len + length (vbi_enc n) \<le> 4"
  shows "vbi_loop (bufchar (pre @ vbi_enc n @ post)) (length pre) len val m =
    Some (len + length (vbi_enc n), val + of_nat n * m, length pre + length (vbi_enc n))"
  using assms
proof (induction n arbitrary: pre len val m rule: vbi_enc.induct)
  case (1 n)
  have c: "bufchar (pre @ b # bs) (length pre) = Some (1, b, length pre + 1)" for b bs
    by (simp add: bufchar_def)
  have u: "ucast (b :: byte) = (of_nat (unat b) :: 32 word)" for b :: byte by simp
  show ?case
  proof (cases "n < 128")
    case True
    then have e: "vbi_enc n = [of_nat n]" by (subst vbi_enc.simps) simp
    show ?thesis
      using 1(2) continuation_byte(4,5) [OF True] unfolding e
      by (subst vbi_loop.simps) (simp add: c Let_def u del: bind_Some_iff of_nat_unat)
  next
    case False
    let ?b = "of_nat (n mod 128 + 128) :: byte"
    have e: "vbi_enc n = ?b # vbi_enc (n div 128)" using False by (subst vbi_enc.simps) simp
    have k: "n mod 128 < 128" by simp
    have "vbi_loop (bufchar (pre @ vbi_enc n @ post)) (length pre) len val m =
        vbi_loop (bufchar ((pre @ [?b]) @ vbi_enc (n div 128) @ post)) (length (pre @ [?b])) (len + 1)
          (val + of_nat (n mod 128) * m) (m * 128)"
      using 1(2) continuation_byte(2,3) [OF k] unfolding e
      by (subst vbi_loop.simps) (simp add: c Let_def u del: bind_Some_iff of_nat_unat of_nat_add)
    also have "\<dots> = Some (len + 1 + length (vbi_enc (n div 128)),
        val + of_nat (n mod 128) * m + of_nat (n div 128) * (m * 128),
        length (pre @ [?b]) + length (vbi_enc (n div 128)))"
      using 1 False e by (intro 1(1)) simp_all
    also have "val + of_nat (n mod 128) * m + of_nat (n div 128) * (m * 128) =
        val + of_nat (n mod 128 + n div 128 * 128) * m"
      by (simp only: of_nat_add of_nat_mult of_nat_numeral distrib_right distrib_left mult_ac add_ac)
    also have "n mod 128 + n div 128 * 128 = n" by simp
    finally show ?thesis by (simp add: e)
  qed
qed

lemma decodeBuf_append:
  assumes "n < 2 ^ 28"
  shows "MQTTPacket_decodeBuf (pre @ vbi_enc n @ post) (length pre) =
    Some (length (vbi_enc n), of_nat n)"
proof -
  have "length (vbi_enc n) \<le> 4"
    using assms vbi_length_bound [of n 3] by simp
  then show ?thesis
    using vbi_loop_bytes [of 0 n pre post 0 1]
    by (simp add: MQTTPacket_decodeBuf_def MQTTPacket_VBIdecode_def del: bind_Some_iff)
qed

text \<open>A string field read up to the end of the data, as a value or an error.\<close>

definition read_lenstring :: "bytes \<Rightarrow> nat \<Rightarrow> (MQTTLenString \<times> nat) ub" where
  "read_lenstring data p =
     do { (n, ls, p) \<leftarrow> MQTTLenStringRead \<lparr>mls_len = 0, mls_data = []\<rparr> data p (length data);
          if n = -1 then None else Some (ls, p) }"

definition lenstring_ok :: "MQTTLenString \<Rightarrow> bool" where
  "lenstring_ok ls \<longleftrightarrow> mls_len ls = int (length (mls_data ls)) \<and> length (mls_data ls) < 65536"

lemma LenStringRead_append:
  assumes "lenstring_ok ls"
  shows "MQTTLenStringRead ls0 (pre @ utf_enc (mls_data ls) @ post) (length pre)
      (length (pre @ utf_enc (mls_data ls) @ post)) =
    Some (2 + mls_len ls, ls, length pre + 2 + length (mls_data ls))"
proof -
  let ?d = "mls_data ls" and ?data = "pre @ utf_enc (mls_data ls) @ post"
  have r: "readInt ?data (length pre) = Some (length ?d, length pre + 2)"
    using assms readInt_append [of "length ?d" pre "?d @ post"]
    by (simp add: utf_enc_def lenstring_ok_def)
  have "drop (length pre + 2) ?data = ?d @ post" by (simp add: utf_enc_def)
  moreover have "ls0\<lparr>mls_len := int (length ?d), mls_data := ?d\<rparr> = ls"
    using assms by (cases ls; cases ls0) (simp add: lenstring_ok_def)
  ultimately show ?thesis
    using assms unfolding MQTTLenStringRead_def r
    by (simp add: utf_enc_def lenstring_ok_def del: bind_Some_iff)
qed

lemma writeLenString_bytes:
  assumes "lenstring_ok ls"
  shows "writeMQTTLenString ls = write_bytes (utf_enc (mls_data ls))"
proof
  fix s show "writeMQTTLenString ls s = write_bytes (utf_enc (mls_data ls)) s"
    using assms writeData_bytes [of "length (mls_data ls)" "mls_data ls"]
    by (simp add: writeMQTTLenString_def lenstring_ok_def utf_enc_def)
qed

section \<open>Codecs\<close>

text \<open>
  What a pair of a writer and a reader promises: the writer puts the encoding at the output
  pointer, whatever is there, and the reader finds the value in front of any other data.
\<close>

fun write_all :: "('a \<Rightarrow> cursor \<Rightarrow> cursor ub) \<Rightarrow> 'a list \<Rightarrow> cursor \<Rightarrow> cursor ub" where
  "write_all w [] s = Some s"
| "write_all w (x # xs) s = do { s \<leftarrow> w x s; write_all w xs s }"

fun read_n :: "(bytes \<Rightarrow> nat \<Rightarrow> ('a \<times> nat) ub) \<Rightarrow> nat \<Rightarrow> bytes \<Rightarrow> nat \<Rightarrow> ('a list \<times> nat) ub" where
  "read_n r 0 data p = Some ([], p)"
| "read_n r (Suc n) data p = do { (x, p) \<leftarrow> r data p; (xs, p) \<leftarrow> read_n r n data p; Some (x # xs, p) }"

lemma write_bytes_result:
  "write_bytes bs (buf, p) = Some (buf', p') \<longleftrightarrow>
     p + length bs \<le> length buf \<and> p' = p + length bs \<and> buf' = take p buf @ bs @ drop (p + length bs) buf"
  by (auto simp: write_bytes_def memcpy_at_def)

locale wire_codec =
  fixes enc :: "'a \<Rightarrow> bytes" and wr :: "'a \<Rightarrow> cursor \<Rightarrow> cursor ub"
    and rd :: "bytes \<Rightarrow> nat \<Rightarrow> ('a \<times> nat) ub" and valid :: "'a \<Rightarrow> bool"
  assumes wr_enc: "valid x \<Longrightarrow> wr x = write_bytes (enc x)"
    and rd_enc: "valid x \<Longrightarrow> rd (pre @ enc x @ post) (length pre) = Some (x, length pre + length (enc x))"
begin

lemma write_all_enc:
  assumes "\<forall>x \<in> set xs. valid x" "p \<le> length buf"
  shows "write_all wr xs (buf, p) = write_bytes (concat (map enc xs)) (buf, p)"
  using assms
proof (induction xs arbitrary: buf p)
  case (Cons x xs)
  show ?case
  proof (cases "write_bytes (enc x) (buf, p)")
    case None
    with Cons.prems show ?thesis by (simp add: wr_enc write_bytes_append del: bind_Some_iff)
  next
    case (Some s)
    obtain buf' p' where s: "s = (buf', p')" by force
    with Some have "p' \<le> length buf'" by (auto simp: write_bytes_result)
    with Cons Some s show ?thesis by (simp add: wr_enc write_bytes_append del: bind_Some_iff)
  qed
qed simp

lemma read_n_enc:
  assumes "\<forall>x \<in> set xs. valid x"
  shows "read_n rd (length xs) (pre @ concat (map enc xs) @ post) (length pre) =
    Some (xs, length pre + length (concat (map enc xs)))"
  using assms
proof (induction xs arbitrary: pre)
  case (Cons x xs)
  have "rd (pre @ enc x @ concat (map enc xs) @ post) (length pre) = Some (x, length (pre @ enc x))"
    using Cons.prems rd_enc [of x pre "concat (map enc xs) @ post"] by simp
  moreover have "read_n rd (length xs) ((pre @ enc x) @ concat (map enc xs) @ post) (length (pre @ enc x)) =
      Some (xs, length (pre @ enc x) + length (concat (map enc xs)))"
    using Cons by (intro Cons.IH) simp
  ultimately show ?case by (simp del: bind_Some_iff)
qed simp

text \<open>What was written can be read back from the buffer, and nothing else changed.\<close>

lemma write_read_all:
  assumes "\<forall>x \<in> set xs. valid x" "p + length (concat (map enc xs)) \<le> length buf"
  shows "\<exists>buf'. write_all wr xs (buf, p) = Some (buf', p + length (concat (map enc xs))) \<and>
    read_n rd (length xs) buf' p = Some (xs, p + length (concat (map enc xs))) \<and>
    length buf' = length buf \<and> take p buf' = take p buf"
proof -
  let ?e = "concat (map enc xs)"
  let ?b = "take p buf @ ?e @ drop (p + length ?e) buf"
  have "write_all wr xs (buf, p) = Some (?b, p + length ?e)"
    using assms write_all_enc [of xs p buf] by (simp add: write_bytes_result)
  moreover have "read_n rd (length xs) ?b p = Some (xs, p + length ?e)"
    using assms read_n_enc [of xs "take p buf" "drop (p + length ?e) buf"] by simp
  moreover have "length ?b = length buf" "take p ?b = take p buf" using assms by simp_all
  ultimately show ?thesis by blast
qed

end

lemma read_lenstring_append:
  assumes "lenstring_ok ls"
  shows "read_lenstring (pre @ utf_enc (mls_data ls) @ post) (length pre) =
    Some (ls, length pre + length (utf_enc (mls_data ls)))"
  using LenStringRead_append [OF assms, of "\<lparr>mls_len = 0, mls_data = []\<rparr>" pre post] assms
  unfolding read_lenstring_def by (simp add: lenstring_ok_def utf_enc_def del: bind_Some_iff)

definition read_vbi :: "bytes \<Rightarrow> nat \<Rightarrow> (nat \<times> nat) ub" where
  "read_vbi data p = do { (len, val) \<leftarrow> MQTTPacket_decodeBuf data p; Some (unat val, p + len) }"

interpretation int2: wire_codec "be_bytes 2" "\<lambda>n. writeInt (int n)" readInt "\<lambda>n. n < 65536"
  by unfold_locales (simp_all add: writeInt_bytes readInt_append)

interpretation int4: wire_codec "\<lambda>w. be_bytes 4 (unat w)" "\<lambda>w. writeInt4 (int (unat w))" readInt4 "\<lambda>_. True"
  by unfold_locales (rule writeInt4_bytes, simp add: readInt4_append)

interpretation vbi: wire_codec vbi_enc write_vbi read_vbi "\<lambda>n. n < 2 ^ 28"
  by unfold_locales
    (simp_all add: write_vbi_bytes read_vbi_def decodeBuf_append unat_of_nat del: bind_Some_iff)

interpretation lenstring: wire_codec "\<lambda>ls. utf_enc (mls_data ls)" writeMQTTLenString read_lenstring lenstring_ok
  by unfold_locales (rule writeLenString_bytes, assumption, rule read_lenstring_append)

section \<open>Remaining lengths from the network\<close>

text \<open>\<open>getch\<close> delivers the bytes \<open>bs\<close> from \<open>s\<close> on and is then in the state \<open>s'\<close>.\<close>

fun delivers :: "('s \<Rightarrow> int \<times> byte \<times> 's) \<Rightarrow> 's \<Rightarrow> bytes \<Rightarrow> 's \<Rightarrow> bool" where
  "delivers getch s [] s' \<longleftrightarrow> s = s'"
| "delivers getch s (b # bs) s' \<longleftrightarrow>
     (case getch s of (rc, c, s1) \<Rightarrow> rc = 0 \<and> c = b \<and> delivers getch s1 bs s')"

lemma net_decode_loop_bytes:
  assumes "len + length (vbi_enc n) \<le> 4" "delivers getch s (vbi_enc n) s'"
  shows "net_decode_loop getch s len val m = (0, val + n * m, s')"
  using assms
proof (induction n arbitrary: s len val m rule: vbi_enc.induct)
  case (1 n)
  show ?case
  proof (cases "n < 128")
    case True
    then have e: "vbi_enc n = [of_nat n]" by (subst vbi_enc.simps) simp
    show ?thesis
      using 1(2,3) continuation_byte(4,5) [OF True] unfolding e
      by (subst net_decode_loop.simps) (auto simp: Let_def split: prod.splits)
  next
    case False
    let ?b = "of_nat (n mod 128 + 128) :: byte"
    have e: "vbi_enc n = ?b # vbi_enc (n div 128)" using False by (subst vbi_enc.simps) simp
    obtain s1 where g: "getch s = (0, ?b, s1)" and d: "delivers getch s1 (vbi_enc (n div 128)) s'"
      using 1(3) unfolding e by (auto split: prod.splits)
    have l: "len + 1 + length (vbi_enc (n div 128)) \<le> 4" using 1(2) unfolding e by simp
    have "net_decode_loop getch s len val m =
        net_decode_loop getch s1 (len + 1) (val + n mod 128 * m) (m * 128)"
      using l continuation_byte(2,3) [of "n mod 128"] g
      by (subst net_decode_loop.simps) (simp add: Let_def del: of_nat_add)
    also have "\<dots> = (0, val + n mod 128 * m + n div 128 * (m * 128), s')"
      using 1(1) [OF False l d] .
    also have "val + n mod 128 * m + n div 128 * (m * 128) = val + n * m"
      using split_mult [of n m 128] by (simp add: mult.commute)
    finally show ?thesis .
  qed
qed

section \<open>Properties\<close>

text \<open>
  C31.  A remaining length below 2^28 is written with \<open>MQTTPacket_VBIlen\<close> bytes, at most four,
  by \<open>MQTTPacket_encode\<close>, which touches no other byte of the buffer, and \<open>MQTTPacket_decodeBuf\<close>
  reads the same number back from there, with the same count of bytes.
\<close>

theorem remaining_length_round_trip:
  assumes "n < 2 ^ 28" "off + MQTTPacket_VBIlen (int n) \<le> length buf"
  shows "\<exists>buf'. MQTTPacket_encode (Some buf) off n = Some (MQTTPacket_VBIlen (int n), Some buf') \<and>
    MQTTPacket_encode None off n = Some (MQTTPacket_VBIlen (int n), None) \<and>
    MQTTPacket_VBIlen (int n) \<le> 4 \<and> length buf' = length buf \<and>
    take off buf' = take off buf \<and>
    drop (off + MQTTPacket_VBIlen (int n)) buf' = drop (off + MQTTPacket_VBIlen (int n)) buf \<and>
    MQTTPacket_decodeBuf buf' off = Some (MQTTPacket_VBIlen (int n), of_nat n)"
proof -
  let ?l = "length (vbi_enc n)"
  note len = VBIlen_vbi_enc [OF assms(1)]
  let ?b = "take off buf @ vbi_enc n @ drop (off + ?l) buf"
  have r: "off + ?l \<le> length buf" using assms(2) by (simp add: len)
  have "MQTTPacket_encode (Some buf) off n = Some (?l, Some ?b)"
    "MQTTPacket_encode None off n = Some (?l, None)"
    using r by (simp_all add: MQTTPacket_encode_def encode_loop_bytes encode_loop_count)
  moreover have "MQTTPacket_decodeBuf ?b off = Some (?l, of_nat n)"
    using decodeBuf_append [OF assms(1), of "take off buf"] r by simp
  moreover have "MQTTPacket_VBIlen (int n) \<le> 4" by (simp add: MQTTPacket_VBIlen_def)
  ultimately show ?thesis using r by (intro exI [of _ ?b]) (simp add: len)
qed

theorem remaining_length_round_trip_witness:
  "\<exists>buf'. MQTTPacket_encode (Some (replicate 5 0)) 1 321 = Some (MQTTPacket_VBIlen (int 321), Some buf') \<and>
    MQTTPacket_encode None 1 321 = Some (MQTTPacket_VBIlen (int 321), None) \<and>
    MQTTPacket_VBIlen (int 321) \<le> 4 \<and> length buf' = length (replicate 5 (0 :: byte)) \<and>
    take 1 buf' = take 1 (replicate 5 0) \<and>
    drop (1 + MQTTPacket_VBIlen (int 321)) buf' = drop (1 + MQTTPacket_VBIlen (int 321)) (replicate 5 0) \<and>
    MQTTPacket_decodeBuf buf' 1 = Some (MQTTPacket_VBIlen (int 321), of_nat 321)"
  by (rule remaining_length_round_trip) (simp_all add: MQTTPacket_VBIlen_def)

text \<open>
  C23.  \<open>MQTTPacket_decode\<close> returns every remaining length that is below 2^28 when the connection
  delivers its bytes, consuming exactly those; four bytes with the continuation bit set are
  refused with \<open>SOCKET_ERROR\<close> after the fourth, and an error of the connection is passed on.
\<close>

theorem network_remaining_length:
  "(n < 2 ^ 28 \<longrightarrow> delivers getch s (vbi_enc n) s' \<longrightarrow> MQTTPacket_decode getch s = (0, n, s')) \<and>
   (list_all (\<lambda>b. b AND 128 \<noteq> 0) [b1, b2, b3, b4] \<longrightarrow> delivers getch s [b1, b2, b3, b4] s' \<longrightarrow>
     fst (MQTTPacket_decode getch s) = -1 \<and> snd (snd (MQTTPacket_decode getch s)) = s') \<and>
   (getch s = (rc, c, s') \<longrightarrow> rc \<noteq> 0 \<longrightarrow> MQTTPacket_decode getch s = (rc, 0, s'))"
proof (intro conjI impI)
  assume "n < 2 ^ 28" "delivers getch s (vbi_enc n) s'"
  moreover then have "length (vbi_enc n) \<le> 4" using vbi_length_bound [of n 3] by simp
  ultimately show "MQTTPacket_decode getch s = (0, n, s')"
    using net_decode_loop_bytes [of 0 n getch s s' 0 1] by (simp add: MQTTPacket_decode_def)
next
  assume "list_all (\<lambda>b. b AND 128 \<noteq> 0) [b1, b2, b3, b4]" "delivers getch s [b1, b2, b3, b4] s'"
  then show "fst (MQTTPacket_decode getch s) = -1" "snd (snd (MQTTPacket_decode getch s)) = s'"
    unfolding MQTTPacket_decode_def
    by (auto simp: net_decode_loop.simps Let_def split: prod.splits)
next
  assume "getch s = (rc, c, s')" "rc \<noteq> 0"
  then show "MQTTPacket_decode getch s = (rc, 0, s')"
    by (simp add: MQTTPacket_decode_def net_decode_loop.simps)
qed

theorem network_remaining_length_witness:
  "MQTTPacket_decode (\<lambda>s. (0, hd s, tl s)) [0x41 :: byte, 7] = (0, 65, [7])"
proof -
  have "delivers (\<lambda>s. (0, hd s, tl s)) [0x41 :: byte, 7] (vbi_enc 65) [7]"
    by (subst vbi_enc.simps) simp
  then show ?thesis using network_remaining_length [of 65 "\<lambda>s. (0, hd s, tl s)"] by simp
qed

text \<open>
  Four-byte integers up to 2^31 - 1 are written in big-endian order and read back; above
  that \<open>writeInt4\<close> receives a negative \<open>int\<close> and writes other bytes: 4294967295 (a session that
  never expires) goes out as 255.
\<close>

theorem four_byte_integers:
  "(n < 2 ^ 31 \<longrightarrow> p + 4 \<le> length buf \<longrightarrow>
     (\<exists>buf'. writeInt4 (sint (of_nat n :: 32 word)) (buf, p) = Some (buf', p + 4) \<and>
       readInt4 buf' p = Some (of_nat n, p + 4) \<and> take p buf' = take p buf)) \<and>
   writeInt4 (sint (0xFFFFFFFF :: 32 word)) ([a, b, c, d], 0) = Some ([0, 0, 0, 0xFF], 4)"
proof (intro conjI impI)
  assume n: "n < 2 ^ 31" "p + 4 \<le> length buf"
  have "uint (of_nat n :: 32 word) = int n" using n by (simp add: unsigned_of_nat take_bit_nat_eq_self)
  with int4.write_read_all [of "[of_nat n]" p buf] n sint_of_nat_small [OF n(1)]
  show "\<exists>buf'. writeInt4 (sint (of_nat n :: 32 word)) (buf, p) = Some (buf', p + 4) \<and>
       readInt4 buf' p = Some (of_nat n, p + 4) \<and> take p buf' = take p buf"
    by auto
next
  have "sint (0xFFFFFFFF :: 32 word) = -1" by simp
  then show "writeInt4 (sint (0xFFFFFFFF :: 32 word)) ([a, b, c, d], 0) = Some ([0, 0, 0, 0xFF], 4)"
    by (simp add: writeInt4_def writeChar_def write_at_def signed_divide_int_def signed_modulo_int_def
        Let_def del: bind_Some_iff)
qed

theorem four_byte_integers_witness:
  "\<exists>buf'. writeInt4 (sint (of_nat 70000 :: 32 word)) ([1, 2, 3, 4, 5], 1) = Some (buf', 1 + 4) \<and>
       readInt4 buf' 1 = Some (of_nat 70000, 1 + 4) \<and> take 1 buf' = take 1 [1, 2, 3, 4, 5]"
  by (rule four_byte_integers [THEN conjunct1, rule_format]) simp_all

end
