(* ===== verification/Properties.thy ===== *)
theory Properties
  imports PacketIO
begin

text \<open>
  \<open>MQTTProperties.c\<close>: MQTT 5 properties, their encoding and decoding and the property list with
  its running length.  The union of a property's value is a datatype with one constructor per
  member that is set; using a member that was not set has no result.  An array is the list of
  its first \<open>count\<close> entries.
\<close>

section \<open>Data\<close>

datatype MQTTPropertyTypes =
    TYPE_BYTE
  | TYPE_TWO_BYTE_INTEGER
  | TYPE_FOUR_BYTE_INTEGER
  | TYPE_VARIABLE_BYTE_INTEGER
  | TYPE_BINARY_DATA
  | TYPE_UTF_8_ENCODED_STRING
  | TYPE_UTF_8_STRING_PAIR

definition namesToTypes :: "(int \<times> MQTTPropertyTypes) list" where
  "namesToTypes =
    [(1, TYPE_BYTE), (2, TYPE_FOUR_BYTE_INTEGER), (3, TYPE_UTF_8_ENCODED_STRING),
     (8, TYPE_UTF_8_ENCODED_STRING), (9, TYPE_BINARY_DATA), (11, TYPE_VARIABLE_BYTE_INTEGER),
     (17, TYPE_FOUR_BYTE_INTEGER), (18, TYPE_UTF_8_ENCODED_STRING), (19, TYPE_TWO_BYTE_INTEGER),
     (21, TYPE_UTF_8_ENCODED_STRING), (22, TYPE_BINARY_DATA), (23, TYPE_BYTE),
     (24, TYPE_FOUR_BYTE_INTEGER), (25, TYPE_BYTE), (26, TYPE_UTF_8_ENCODED_STRING),
     (28, TYPE_UTF_8_ENCODED_STRING), (31, TYPE_UTF_8_ENCODED_STRING), (33, TYPE_TWO_BYTE_INTEGER),
     (34, TYPE_TWO_BYTE_INTEGER), (35, TYPE_TWO_BYTE_INTEGER), (36, TYPE_BYTE), (37, TYPE_BYTE),
     (38, TYPE_UTF_8_STRING_PAIR), (39, TYPE_FOUR_BYTE_INTEGER), (40, TYPE_BYTE), (41, TYPE_BYTE),
     (42, TYPE_BYTE)]"

datatype property_value =
    PByte byte
  | PInt2 "16 word"
  | PInt4 "32 word"
  | PData MQTTLenString
  | PPair MQTTLenString MQTTLenString

record MQTTProperty =
  prop_identifier :: int
  prop_value :: property_value

fun value_byte :: "property_value \<Rightarrow> byte ub" where
  "value_byte (PByte b) = Some b" | "value_byte _ = None"

fun value_integer2 :: "property_value \<Rightarrow> (16 word) ub" where
  "value_integer2 (PInt2 w) = Some w" | "value_integer2 _ = None"

fun value_integer4 :: "property_value \<Rightarrow> (32 word) ub" where
  "value_integer4 (PInt4 w) = Some w" | "value_integer4 _ = None"

fun value_data :: "property_value \<Rightarrow> MQTTLenString ub" where
  "value_data (PData d) = Some d" | "value_data (PPair d v) = Some d" | "value_data _ = None"

fun value_value :: "property_value \<Rightarrow> MQTTLenString ub" where
  "value_value (PPair d v) = Some v" | "value_value _ = None"

record MQTTProperties =
  props_count :: nat
  props_max_count :: nat
  props_length :: int
  props_array :: "MQTTProperty list option"

definition MQTTProperties_initializer :: MQTTProperties where
  "MQTTProperties_initializer =
     \<lparr>props_count = 0, props_max_count = 0, props_length = 0, props_array = None\<rparr>"

abbreviation MQTT_INVALID_PROPERTY_ID :: int where
  "MQTT_INVALID_PROPERTY_ID \<equiv> -2"

abbreviation PAHO_MEMORY_ERROR :: int where
  "PAHO_MEMORY_ERROR \<equiv> -99"

section \<open>Types, lengths and building a list\<close>

definition MQTTProperty_getType :: "int \<Rightarrow> MQTTPropertyTypes option" where
  "MQTTProperty_getType val = map_option snd (List.find (\<lambda>e. fst e = val) namesToTypes)"

definition MQTTProperties_len :: "MQTTProperties option \<Rightarrow> int" where
  "MQTTProperties_len props =
     (case props of None \<Rightarrow> 1
      | Some p \<Rightarrow> props_length p + int (MQTTPacket_VBIlen (props_length p)))"

text \<open>\<open>NULL\<close> when \<open>malloc\<close> fails; a negative length is a huge \<open>size_t\<close>.\<close>

definition datadup :: "allocator \<Rightarrow> MQTTLenString \<Rightarrow> bytes option ub" where
  "datadup malloc str =
     (if \<not> malloc (Bytes (nat (mls_len str mod 2 ^ 64))) then Some None
      else if 0 \<le> mls_len str \<and> nat (mls_len str) \<le> length (mls_data str)
           then Some (Some (take (nat (mls_len str)) (mls_data str))) else None)"

definition dup_data :: "allocator \<Rightarrow> MQTTLenString \<Rightarrow> MQTTLenString ub" where
  "dup_data malloc str =
     do { d \<leftarrow> datadup malloc str;
          Some (str\<lparr>mls_data := (case d of None \<Rightarrow> [] | Some bs \<Rightarrow> bs)\<rparr>) }"

text \<open>The length of the value of an added property, and the entry with its data copied.\<close>

definition add_value :: "allocator \<Rightarrow> MQTTPropertyTypes \<Rightarrow> MQTTProperty \<Rightarrow> (int \<times> MQTTProperty) ub" where
  "add_value malloc type prop =
     (case type of
        TYPE_BYTE \<Rightarrow> Some (1, prop)
      | TYPE_TWO_BYTE_INTEGER \<Rightarrow> Some (2, prop)
      | TYPE_FOUR_BYTE_INTEGER \<Rightarrow> Some (4, prop)
      | TYPE_VARIABLE_BYTE_INTEGER \<Rightarrow>
          do { v \<leftarrow> value_integer4 (prop_value prop); Some (int (MQTTPacket_VBIlen (sint v)), prop) }
      | TYPE_UTF_8_STRING_PAIR \<Rightarrow>
          do { d \<leftarrow> value_data (prop_value prop); d' \<leftarrow> dup_data malloc d;
               v \<leftarrow> value_value (prop_value prop); v' \<leftarrow> dup_data malloc v;
               Some (2 + mls_len d + (2 + mls_len v), prop\<lparr>prop_value := PPair d' v'\<rparr>) }
      | _ \<Rightarrow>
          do { d \<leftarrow> value_data (prop_value prop); d' \<leftarrow> dup_data malloc d;
               Some (2 + mls_len d, prop\<lparr>prop_value := PData d'\<rparr>) })"

definition MQTTProperties_add ::
  "allocator \<Rightarrow> MQTTProperties \<Rightarrow> MQTTProperty \<Rightarrow> (int \<times> MQTTProperties) ub" where
  "MQTTProperties_add malloc props prop =
     (case MQTTProperty_getType (prop_identifier prop) of
        None \<Rightarrow> Some (MQTT_INVALID_PROPERTY_ID, props)
      | Some type \<Rightarrow>
          let props = (if props_array props = None
                       then props\<lparr>props_max_count := 10,
                                  props_array := (if malloc (Sizeof ''MQTTProperty'') then Some [] else None)\<rparr>
                       else if props_count props = props_max_count props
                       then props\<lparr>props_max_count := props_max_count props + 10,
                                  props_array := (if malloc (Sizeof ''MQTTProperty'') then props_array props else None)\<rparr>
                       else props)
          in case props_array props of
               None \<Rightarrow> Some (PAHO_MEMORY_ERROR, props)
             | Some array \<Rightarrow>
                 if props_count props < props_max_count props \<and> length array = props_count props
                 then do {
                   (len, prop) \<leftarrow> add_value malloc type prop;
                   Some (0, props\<lparr>props_array := Some (array @ [prop]), props_count := props_count props + 1,
                                  props_length := props_length props + (len + 1)\<rparr>)
                 }
                 else None)"

text \<open>The entries a loop over the array looks at.\<close>

definition props_entries :: "MQTTProperties \<Rightarrow> MQTTProperty list ub" where
  "props_entries props =
     (if props_count props = 0 then Some []
      else case props_array props of None \<Rightarrow> None
           | Some array \<Rightarrow> if props_count props \<le> length array
                           then Some (take (props_count props) array) else None)"

text \<open>All memory is released and every field zeroed.\<close>

definition MQTTProperties_free :: "MQTTProperties \<Rightarrow> MQTTProperties" where
  "MQTTProperties_free props = MQTTProperties_initializer"

fun copy_loop :: "allocator \<Rightarrow> MQTTProperty list \<Rightarrow> MQTTProperties \<Rightarrow> MQTTProperties ub" where
  "copy_loop malloc [] result = Some result"
| "copy_loop malloc (p # ps) result =
     do { (rc, result) \<leftarrow> MQTTProperties_add malloc result p; copy_loop malloc ps result }"

definition MQTTProperties_copy :: "allocator \<Rightarrow> MQTTProperties \<Rightarrow> MQTTProperties ub" where
  "MQTTProperties_copy malloc props =
     do { ps \<leftarrow> props_entries props; copy_loop malloc ps MQTTProperties_initializer }"

section \<open>Writing\<close>

text \<open>The number returned and the output pointer.\<close>

definition MQTTProperty_write :: "MQTTProperty \<Rightarrow> cursor \<Rightarrow> (int \<times> cursor) ub" where
  "MQTTProperty_write prop s =
     (case MQTTProperty_getType (prop_identifier prop) of
        None \<Rightarrow> Some (-1 + 1, s)
      | Some type \<Rightarrow>
          do {
            s \<leftarrow> writeChar (of_int (prop_identifier prop)) s;
            (rc, s) \<leftarrow>
              (case type of
                 TYPE_BYTE \<Rightarrow>
                   do { b \<leftarrow> value_byte (prop_value prop); s \<leftarrow> writeChar b s; Some (1, s) }
               | TYPE_TWO_BYTE_INTEGER \<Rightarrow>
                   do { w \<leftarrow> value_integer2 (prop_value prop); s \<leftarrow> writeInt (uint w) s; Some (2, s) }
               | TYPE_FOUR_BYTE_INTEGER \<Rightarrow>
                   do { w \<leftarrow> value_integer4 (prop_value prop); s \<leftarrow> writeInt4 (sint w) s; Some (4, s) }
               | TYPE_VARIABLE_BYTE_INTEGER \<Rightarrow>
                   do { w \<leftarrow> value_integer4 (prop_value prop);
                        s' \<leftarrow> write_vbi (unat w) s; Some (int (snd s') - int (snd s), s') }
               | TYPE_UTF_8_STRING_PAIR \<Rightarrow>
                   do { d \<leftarrow> value_data (prop_value prop); s \<leftarrow> writeMQTTLenString d s;
                        v \<leftarrow> value_value (prop_value prop); s \<leftarrow> writeMQTTLenString v s;
                        Some (mls_len d + mls_len v + 4, s) }
               | _ \<Rightarrow>
                   do { d \<leftarrow> value_data (prop_value prop); s \<leftarrow> writeMQTTLenString d s;
                        Some (mls_len d + 2, s) });
            Some (rc + 1, s)
          })"

fun props_write_loop :: "MQTTProperty list \<Rightarrow> int \<Rightarrow> int \<Rightarrow> cursor \<Rightarrow> (int \<times> int \<times> cursor) ub" where
  "props_write_loop [] rc len s = Some (rc, len, s)"
| "props_write_loop (p # ps) rc len s =
     do {
       (rc, s) \<leftarrow> MQTTProperty_write p s;
       if rc < 0 then Some (rc, len, s) else props_write_loop ps rc (len + rc) s
     }"

text \<open>The \<open>size_t\<close> conversion of a negative \<open>length\<close> is \<open>mod 2^64\<close>.\<close>

definition MQTTProperties_write :: "MQTTProperties option \<Rightarrow> cursor \<Rightarrow> (int \<times> cursor) ub" where
  "MQTTProperties_write properties s =
     (case properties of
        None \<Rightarrow> do { s \<leftarrow> write_vbi 0 s; Some (1, s) }
      | Some props \<Rightarrow>
          do {
            s \<leftarrow> write_vbi (nat (props_length props mod 2 ^ 64)) s;
            ps \<leftarrow> props_entries props;
            (rc, len, s) \<leftarrow> props_write_loop ps 1 1 s;
            Some (if rc \<ge> 0 then len else rc, s)
          })"

section \<open>Reading\<close>

text \<open>The number of bytes or -1, the property when it is complete, and the input pointer.\<close>

definition MQTTProperty_read ::
  "allocator \<Rightarrow> bytes \<Rightarrow> nat \<Rightarrow> nat \<Rightarrow> (int \<times> MQTTProperty option \<times> nat) ub" where
  "MQTTProperty_read malloc data p enddata =
     do {
       (ident, p) \<leftarrow> readChar data p;
       let ident = int (unat ident);
       let prop = (\<lambda>v. Some \<lparr>prop_identifier = ident, prop_value = v\<rparr>);
       case MQTTProperty_getType ident of
         None \<Rightarrow> Some (-1, None, p)
       | Some type \<Rightarrow>
           (case type of
              TYPE_BYTE \<Rightarrow> do { (b, p) \<leftarrow> readChar data p; Some (2, prop (PByte b), p) }
            | TYPE_TWO_BYTE_INTEGER \<Rightarrow>
                do { (n, p) \<leftarrow> readInt data p; Some (3, prop (PInt2 (of_nat n)), p) }
            | TYPE_FOUR_BYTE_INTEGER \<Rightarrow>
                do { (w, p) \<leftarrow> readInt4 data p; Some (5, prop (PInt4 w), p) }
            | TYPE_VARIABLE_BYTE_INTEGER \<Rightarrow>
                do { (len, w) \<leftarrow> MQTTPacket_decodeBuf data p;
                     Some (int len + 1, prop (PInt4 w), p + len) }
            | _ \<Rightarrow>
                do {
                  (len, d, p) \<leftarrow> MQTTLenStringRead \<lparr>mls_len = 0, mls_data = []\<rparr> data p enddata;
                  if len = -1 then Some (-1, None, p)
                  else do {
                    dup \<leftarrow> datadup malloc d;
                    case dup of
                      None \<Rightarrow> Some (-1, None, p)
                    | Some dat \<Rightarrow>
                        if type = TYPE_UTF_8_STRING_PAIR then do {
                          (proplen, v, p) \<leftarrow> MQTTLenStringRead \<lparr>mls_len = 0, mls_data = []\<rparr> data p enddata;
                          if proplen = -1 then Some (-1, None, p)
                          else do {
                            dup \<leftarrow> datadup malloc v;
                            case dup of
                              None \<Rightarrow> Some (-1, None, p)
                            | Some val \<Rightarrow>
                                Some (len + proplen + 1,
                                      prop (PPair (d\<lparr>mls_data := dat\<rparr>) (v\<lparr>mls_data := val\<rparr>)), p)
                          }
                        }
                        else Some (len + 1, prop (PData (d\<lparr>mls_data := dat\<rparr>)), p)
                  }
                })
     }"

lemma read_at_bound: "read_at data p = Some c \<Longrightarrow> p < length data"
  by (simp add: read_at_def split: if_splits)

lemma LenStringRead_advances:
  "MQTTLenStringRead ls0 data p enddata = Some (n, ls, p') \<Longrightarrow> p \<le> p'"
  by (auto simp: MQTTLenStringRead_def readInt_def Let_def split: if_splits)

lemma MQTTProperty_read_advances:
  assumes "MQTTProperty_read malloc data p enddata = Some (n, r, p')"
  shows "p < length data" "p < p'"
proof -
  show "p < length data"
    using assms by (auto simp: MQTTProperty_read_def readChar_def dest: read_at_bound)
  show "p < p'"
    using assms
    by (auto simp: MQTTProperty_read_def readChar_def readInt_def readInt4_def Let_def
        simp del: bind_Some_iff dest!: LenStringRead_advances
        split: Option.bind_split_asm option.splits MQTTPropertyTypes.split_asm if_split_asm prod.split_asm)
qed

lemma MQTTProperty_read_shrinks:
  "MQTTProperty_read malloc data p enddata = Some (n, r, p') \<Longrightarrow> length data - p' < length data - p"
  by (frule MQTTProperty_read_advances(1), drule MQTTProperty_read_advances(2)) linarith

text \<open>Room for one more entry; on failure the array pointer is \<open>NULL\<close>.\<close>

definition props_grow :: "allocator \<Rightarrow> MQTTProperties \<Rightarrow> MQTTProperties" where
  "props_grow malloc props =
     (if props_count props = props_max_count props
      then props\<lparr>props_max_count := props_max_count props + 10,
                 props_array :=
                   (if \<not> malloc (Sizeof ''MQTTProperty'') then None
                    else if props_max_count props + 10 = 10 then Some []
                    else Some (case props_array props of None \<Rightarrow> [] | Some ps \<Rightarrow> ps))\<rparr>
      else props)"

text \<open>
  The loop of \<open>MQTTProperties_read\<close>: \<open>remlength\<close> is an \<open>unsigned int\<close>, so subtracting a property
  that is longer than what is left wraps around.  The result tells whether the loop was left
  through the memory error, then \<open>remlength\<close>, the list and the pointer.
\<close>

function props_read_loop ::
  "allocator \<Rightarrow> bytes \<Rightarrow> nat \<Rightarrow> 32 word \<Rightarrow> MQTTProperties \<Rightarrow> nat \<Rightarrow>
   (bool \<times> 32 word \<times> MQTTProperties \<times> nat) ub" where
  "props_read_loop malloc data enddata remlength props p =
     (if remlength = 0 then Some (False, remlength, props, p)
      else
        let props = props_grow malloc props
        in case props_array props of
             None \<Rightarrow> Some (True, remlength, props, p)
           | Some array \<Rightarrow>
               (case MQTTProperty_read malloc data p enddata of
                  None \<Rightarrow> None
                | Some (proplen, r, p') \<Rightarrow>
                    if proplen > 0 then
                      (case r of None \<Rightarrow> None
                       | Some prop \<Rightarrow>
                           if props_count props < props_max_count props \<and> length array = props_count props
                           then props_read_loop malloc data enddata (remlength - of_int proplen)
                                  (props\<lparr>props_array := Some (array @ [prop]),
                                         props_count := props_count props + 1\<rparr>) p'
                           else None)
                    else Some (False, remlength, props, p')))"
  by pat_completeness auto
termination
  by (relation "measure (\<lambda>(m, d, e, r, q, p). length d - p)")
    (auto dest: MQTTProperty_read_shrinks)

declare props_read_loop.simps [simp del]

definition MQTTProperties_read ::
  "allocator \<Rightarrow> MQTTProperties \<Rightarrow> bytes \<Rightarrow> nat \<Rightarrow> nat \<Rightarrow> (int \<times> MQTTProperties \<times> nat) ub" where
  "MQTTProperties_read malloc properties data p enddata =
     (if int enddata - int p > 0 then
        do {
          (n, remlength) \<leftarrow> MQTTPacket_decodeBuf data p;
          (oom, remlength, props, p) \<leftarrow> props_read_loop malloc data enddata remlength
             (properties\<lparr>props_length := sint remlength\<rparr>) (p + n);
          if oom then Some (PAHO_MEMORY_ERROR, props, p)
          else
            let rc = (if remlength = 0 then 1 else 0) in
            Some (rc, if rc \<noteq> 1 \<and> props_array props \<noteq> None then MQTTProperties_free props else props, p)
        }
      else Some (0, if props_array properties \<noteq> None then MQTTProperties_free properties else properties, p))"

section \<open>Looking properties up\<close>

definition MQTTProperties_hasProperty :: "MQTTProperties \<Rightarrow> int \<Rightarrow> bool ub" where
  "MQTTProperties_hasProperty props propid =
     map_option (list_ex (\<lambda>p. propid = prop_identifier p)) (props_entries props)"

definition MQTTProperties_propertyCount :: "MQTTProperties \<Rightarrow> int \<Rightarrow> nat ub" where
  "MQTTProperties_propertyCount props propid =
     map_option (\<lambda>ps. length (filter (\<lambda>p. propid = prop_identifier p) ps)) (props_entries props)"

definition numeric_value :: "MQTTProperty \<Rightarrow> int ub" where
  "numeric_value p =
     (case MQTTProperty_getType (prop_identifier p) of
        Some TYPE_BYTE \<Rightarrow> map_option uint (value_byte (prop_value p))
      | Some TYPE_TWO_BYTE_INTEGER \<Rightarrow> map_option uint (value_integer2 (prop_value p))
      | Some TYPE_FOUR_BYTE_INTEGER \<Rightarrow> map_option sint (value_integer4 (prop_value p))
      | Some TYPE_VARIABLE_BYTE_INTEGER \<Rightarrow> map_option sint (value_integer4 (prop_value p))
      | _ \<Rightarrow> Some (-999999))"

fun numeric_loop :: "MQTTProperty list \<Rightarrow> int \<Rightarrow> int \<Rightarrow> int \<Rightarrow> int ub" where
  "numeric_loop [] propid index cur_index = Some (-9999999)"
| "numeric_loop (p # ps) propid index cur_index =
     (if prop_identifier p = propid then
        if cur_index < index then numeric_loop ps propid index (cur_index + 1)
        else numeric_value p
      else numeric_loop ps propid index cur_index)"

definition MQTTProperties_getNumericValueAt :: "MQTTProperties \<Rightarrow> int \<Rightarrow> int \<Rightarrow> int ub" where
  "MQTTProperties_getNumericValueAt props propid index =
     do { ps \<leftarrow> props_entries props; numeric_loop ps propid index 0 }"

definition MQTTProperties_getNumericValue :: "MQTTProperties \<Rightarrow> int \<Rightarrow> int ub" where
  "MQTTProperties_getNumericValue props propid = MQTTProperties_getNumericValueAt props propid 0"

fun property_loop :: "MQTTProperty list \<Rightarrow> int \<Rightarrow> int \<Rightarrow> int \<Rightarrow> MQTTProperty option" where
  "property_loop [] propid index cur_index = None"
| "property_loop (p # ps) propid index cur_index =
     (if prop_identifier p = propid then
        if cur_index = index then Some p else property_loop ps propid index (cur_index + 1)
      else property_loop ps propid index cur_index)"

definition MQTTProperties_getPropertyAt :: "MQTTProperties \<Rightarrow> int \<Rightarrow> int \<Rightarrow> MQTTProperty option ub" where
  "MQTTProperties_getPropertyAt props propid index =
     do { ps \<leftarrow> props_entries props; Some (property_loop ps propid index 0) }"

definition MQTTProperties_getProperty :: "MQTTProperties \<Rightarrow> int \<Rightarrow> MQTTProperty option ub" where
  "MQTTProperties_getProperty props propid = MQTTProperties_getPropertyAt props propid 0"

definition nameToString :: "(int \<times> string) list" where
  "nameToString =
    [(1, ''PAYLOAD_FORMAT_INDICATOR''), (2, ''MESSAGE_EXPIRY_INTERVAL''), (3, ''CONTENT_TYPE''),
     (8, ''RESPONSE_TOPIC''), (9, ''CORRELATION_DATA''), (11, ''SUBSCRIPTION_IDENTIFIER''),
     (17, ''SESSION_EXPIRY_INTERVAL''), (18, ''ASSIGNED_CLIENT_IDENTIFER''), (19, ''SERVER_KEEP_ALIVE''),
     (21, ''AUTHENTICATION_METHOD''), (22, ''AUTHENTICATION_DATA''), (23, ''REQUEST_PROBLEM_INFORMATION''),
     (24, ''WILL_DELAY_INTERVAL''), (25, ''REQUEST_RESPONSE_INFORMATION''), (26, ''RESPONSE_INFORMATION''),
     (28, ''SERVER_REFERENCE''), (31, ''REASON_STRING''), (33, ''RECEIVE_MAXIMUM''),
     (34, ''TOPIC_ALIAS_MAXIMUM''), (35, ''TOPIC_ALIAS''), (36, ''MAXIMUM_QOS''), (37, ''RETAIN_AVAILABLE''),
     (38, ''USER_PROPERTY''), (39, ''MAXIMUM_PACKET_SIZE''), (40, ''WILDCARD_SUBSCRIPTION_AVAILABLE''),
     (41, ''SUBSCRIPTION_IDENTIFIERS_AVAILABLE''), (42, ''SHARED_SUBSCRIPTION_AVAILABLE'')]"

definition MQTTPropertyName :: "int \<Rightarrow> string option" where
  "MQTTPropertyName val = map_option snd (List.find (\<lambda>e. fst e = val) nameToString)"

section \<open>The encoding of a property\<close>

definition prop_enc :: "MQTTProperty \<Rightarrow> bytes" where
  "prop_enc p = of_int (prop_identifier p) #
     (case prop_value p of
        PByte b \<Rightarrow> [b]
      | PInt2 w \<Rightarrow> be_bytes 2 (unat w)
      | PInt4 w \<Rightarrow> (if MQTTProperty_getType (prop_identifier p) = Some TYPE_VARIABLE_BYTE_INTEGER
                   then vbi_enc (unat w) else be_bytes 4 (unat w))
      | PData d \<Rightarrow> utf_enc (mls_data d)
      | PPair d v \<Rightarrow> utf_enc (mls_data d) @ utf_enc (mls_data v))"

text \<open>The value fits the identifier, and its encoding is one the code gets right.\<close>

definition prop_ok :: "MQTTProperty \<Rightarrow> bool" where
  "prop_ok p \<longleftrightarrow>
     (case MQTTProperty_getType (prop_identifier p) of
        None \<Rightarrow> False
      | Some TYPE_BYTE \<Rightarrow> (\<exists>b. prop_value p = PByte b)
      | Some TYPE_TWO_BYTE_INTEGER \<Rightarrow> (\<exists>w. prop_value p = PInt2 w)
      | Some TYPE_FOUR_BYTE_INTEGER \<Rightarrow> (\<exists>w. prop_value p = PInt4 w \<and> unat w < 2 ^ 31)
      | Some TYPE_VARIABLE_BYTE_INTEGER \<Rightarrow> (\<exists>w. prop_value p = PInt4 w \<and> unat w < 2 ^ 28)
      | Some TYPE_UTF_8_STRING_PAIR \<Rightarrow>
          (\<exists>d v. prop_value p = PPair d v \<and> lenstring_ok d \<and> lenstring_ok v)
      | _ \<Rightarrow> (\<exists>d. prop_value p = PData d \<and> lenstring_ok d))"

lemma getType_range:
  assumes "MQTTProperty_getType i = Some t"
  shows "0 \<le> i" "i < 256"
proof -
  from assms obtain e where "List.find (\<lambda>e. fst e = i) namesToTypes = Some e"
    by (auto simp: MQTTProperty_getType_def)
  then have "e \<in> set namesToTypes \<and> fst e = i" by (auto simp: find_Some_iff)
  then have "0 \<le> i \<and> i < 256" unfolding namesToTypes_def by auto
  then show "0 \<le> i" "i < 256" by blast+
qed

lemma ident_byte: "0 \<le> i \<Longrightarrow> i < 256 \<Longrightarrow> int (unat (of_int i :: byte)) = i"
  by (simp add: unsigned_of_int take_bit_int_eq_self)

lemma sint_small: "unat (w :: 32 word) < 2 ^ 31 \<Longrightarrow> sint w = int (unat w)"
  using sint_of_nat_small [of "unat w"] by simp

lemma utf_enc_length [simp]: "length (utf_enc s) = length s + 2"
  by (simp add: utf_enc_def)

lemma vbi_enc_not_Nil [simp]: "vbi_enc n \<noteq> []"
  by (subst vbi_enc.simps) simp

lemma write_vbi_count:
  "Option.bind (write_bytes bs s) (\<lambda>s'. Some (int (snd s') - int (snd s), s')) =
   map_option (\<lambda>s'. (int (length bs), s')) (write_bytes bs s)"
  by (cases s) (simp add: write_bytes_def memcpy_at_def)

lemma MQTTProperty_write_bytes:
  assumes "prop_ok p"
  shows "MQTTProperty_write p s = map_option (Pair (int (length (prop_enc p)))) (write_bytes (prop_enc p) s)"
proof -
  obtain t where t: "MQTTProperty_getType (prop_identifier p) = Some t"
    using assms by (auto simp: prop_ok_def split: option.splits)
  let ?id = "of_int (prop_identifier p) :: byte"
  define B where "B = tl (prop_enc p)"
  have e: "prop_enc p = [?id] @ B" by (simp add: B_def prop_enc_def)
  have "(case t of
          TYPE_BYTE \<Rightarrow> do { b \<leftarrow> value_byte (prop_value p); s \<leftarrow> writeChar b s; Some (1, s) }
        | TYPE_TWO_BYTE_INTEGER \<Rightarrow>
            do { w \<leftarrow> value_integer2 (prop_value p); s \<leftarrow> writeInt (uint w) s; Some (2, s) }
        | TYPE_FOUR_BYTE_INTEGER \<Rightarrow>
            do { w \<leftarrow> value_integer4 (prop_value p); s \<leftarrow> writeInt4 (sint w) s; Some (4, s) }
        | TYPE_VARIABLE_BYTE_INTEGER \<Rightarrow>
            do { w \<leftarrow> value_integer4 (prop_value p);
                 s' \<leftarrow> write_vbi (unat w) s; Some (int (snd s') - int (snd s), s') }
        | TYPE_UTF_8_STRING_PAIR \<Rightarrow>
            do { d \<leftarrow> value_data (prop_value p); s \<leftarrow> writeMQTTLenString d s;
                 v \<leftarrow> value_value (prop_value p); s \<leftarrow> writeMQTTLenString v s;
                 Some (mls_len d + mls_len v + 4, s) }
        | _ \<Rightarrow>
            do { d \<leftarrow> value_data (prop_value p); s \<leftarrow> writeMQTTLenString d s;
                 Some (mls_len d + 2, s) }) =
      map_option (Pair (int (length B))) (write_bytes B s)" (is "?body s = ?r s") for s
  proof -
    have i2: "writeInt (uint (w :: 16 word)) = write_bytes (be_bytes 2 (unat w))" for w
      using writeInt_bytes [of "unat w"] by simp
    have i4: "unat (w :: 32 word) < 2 ^ 31 \<Longrightarrow> writeInt4 (sint w) = write_bytes (be_bytes 4 (unat w))" for w
      using writeInt4_bytes [of "unat w"] sint_small [of w] by simp
    show ?thesis
      using assms t
      by (cases t)
        (auto simp: prop_ok_def B_def prop_enc_def writeChar_bytes i2 i4 write_vbi_bytes write_vbi_count
          writeLenString_bytes lenstring_ok_def write_bytes_append
          simp del: bind_Some_iff split: Option.bind_split)
  qed
  then have "MQTTProperty_write p s =
      Option.bind (write_bytes [?id] s) (\<lambda>s. Option.bind (?r s) (\<lambda>(rc, s). Some (rc + 1, s)))"
    unfolding MQTTProperty_write_def t option.case writeChar_bytes by (simp only:)
  also have "\<dots> = map_option (Pair (int (length (prop_enc p)))) (write_bytes (prop_enc p) s)"
    unfolding e write_bytes_append by (auto simp del: bind_Some_iff split: Option.bind_split)
  finally show ?thesis .
qed

lemma datadup_ok: "lenstring_ok d \<Longrightarrow> datadup always_alloc d = Some (Some (mls_data d))"
  by (simp add: datadup_def lenstring_ok_def)

lemma LenStringRead_at:
  assumes "lenstring_ok ls" "data = pre @ utf_enc (mls_data ls) @ post" "p = length pre"
    "n = length data"
  shows "MQTTLenStringRead ls0 data p n =
    Some (2 + mls_len ls, ls, length pre + 2 + length (mls_data ls))"
  unfolding assms(2-4) by (rule LenStringRead_append [OF assms(1)])

lemma MQTTProperty_read_bytes:
  assumes "prop_ok p" "data = pre @ prop_enc p @ post"
  shows "MQTTProperty_read always_alloc data (length pre) (length data) =
    Some (int (length (prop_enc p)), Some p, length pre + length (prop_enc p))"
proof -
  obtain t where t: "MQTTProperty_getType (prop_identifier p) = Some t"
    using assms by (auto simp: prop_ok_def split: option.splits)
  let ?id = "of_int (prop_identifier p) :: byte"
  have id: "int (unat ?id) = prop_identifier p" using ident_byte [OF getType_range [OF t]] .
  define B where "B = tl (prop_enc p)"
  have e: "prop_enc p = ?id # B" by (simp add: B_def prop_enc_def)
  let ?pre = "pre @ [?id]"
  have d: "data = ?pre @ B @ post" "length pre + 1 = length ?pre"
    using assms(2) by (simp_all add: e)
  have c: "readChar data (length pre) = Some (?id, length ?pre)"
    unfolding assms(2) e by (simp add: readChar_append)
  have p: "\<lparr>prop_identifier = prop_identifier p, prop_value = prop_value p\<rparr> = p" by simp
  have r: "MQTTProperty_read always_alloc data (length pre) (length data) =
    Some (int (length B) + 1, Some p, length ?pre + length B)"
  proof (cases t)
    case TYPE_BYTE
    then obtain b where "prop_value p = PByte b" "B = [b]"
      using assms(1) t by (auto simp: prop_ok_def B_def prop_enc_def)
    then show ?thesis
      using TYPE_BYTE t id p c d readChar_append [of ?pre b post]
      by (simp add: MQTTProperty_read_def Let_def del: bind_Some_iff)
  next
    case TYPE_TWO_BYTE_INTEGER
    then obtain w where "prop_value p = PInt2 w" "B = be_bytes 2 (unat w)"
      using assms(1) t by (auto simp: prop_ok_def B_def prop_enc_def)
    moreover have "unat w < 65536" using unsigned_less [of w, where 'a = nat] by simp
    ultimately show ?thesis
      using TYPE_TWO_BYTE_INTEGER t id p c d readInt_append [of "unat w" ?pre post]
      by (simp add: MQTTProperty_read_def Let_def del: bind_Some_iff)
  next
    case TYPE_FOUR_BYTE_INTEGER
    then obtain w where "prop_value p = PInt4 w" "B = be_bytes 4 (unat w)"
      using assms(1) t by (auto simp: prop_ok_def B_def prop_enc_def)
    then show ?thesis
      using TYPE_FOUR_BYTE_INTEGER t id p c d readInt4_append [of ?pre w post]
      by (simp add: MQTTProperty_read_def Let_def del: bind_Some_iff)
  next
    case TYPE_VARIABLE_BYTE_INTEGER
    then obtain w where "prop_value p = PInt4 w" "B = vbi_enc (unat w)" "unat w < 2 ^ 28"
      using assms(1) t by (auto simp: prop_ok_def B_def prop_enc_def)
    then show ?thesis
      using TYPE_VARIABLE_BYTE_INTEGER t id p c d decodeBuf_append [of "unat w" ?pre post]
      by (simp add: MQTTProperty_read_def Let_def del: bind_Some_iff)
  next
    case TYPE_BINARY_DATA
    then obtain s where s: "prop_value p = PData s" "B = utf_enc (mls_data s)" "lenstring_ok s"
      using assms(1) t by (auto simp: prop_ok_def B_def prop_enc_def)
    have "MQTTLenStringRead ls0 data (length ?pre) (length data) =
        Some (2 + mls_len s, s, length ?pre + 2 + length (mls_data s))" for ls0
      by (rule LenStringRead_at [OF s(3), of _ ?pre post]) (use d s in simp_all)
    then show ?thesis
      using TYPE_BINARY_DATA t id p c s datadup_ok [OF s(3)]
      by (simp add: MQTTProperty_read_def Let_def lenstring_ok_def del: bind_Some_iff)
  next
    case TYPE_UTF_8_ENCODED_STRING
    then obtain s where s: "prop_value p = PData s" "B = utf_enc (mls_data s)" "lenstring_ok s"
      using assms(1) t by (auto simp: prop_ok_def B_def prop_enc_def)
    have "MQTTLenStringRead ls0 data (length ?pre) (length data) =
        Some (2 + mls_len s, s, length ?pre + 2 + length (mls_data s))" for ls0
      by (rule LenStringRead_at [OF s(3), of _ ?pre post]) (use d s in simp_all)
    then show ?thesis
      using TYPE_UTF_8_ENCODED_STRING t id p c s datadup_ok [OF s(3)]
      by (simp add: MQTTProperty_read_def Let_def lenstring_ok_def del: bind_Some_iff)
  next
    case TYPE_UTF_8_STRING_PAIR
    then obtain s v where s: "prop_value p = PPair s v" "B = utf_enc (mls_data s) @ utf_enc (mls_data v)"
      "lenstring_ok s" "lenstring_ok v"
      using assms(1) t by (auto simp: prop_ok_def B_def prop_enc_def)
    have "MQTTLenStringRead ls0 data (length ?pre) (length data) =
        Some (2 + mls_len s, s, length ?pre + 2 + length (mls_data s))" for ls0
      by (rule LenStringRead_at [OF s(3), of _ ?pre "utf_enc (mls_data v) @ post"]) (use d s in simp_all)
    moreover have "MQTTLenStringRead ls0 data (length ?pre + 2 + length (mls_data s)) (length data) =
        Some (2 + mls_len v, v, length (?pre @ utf_enc (mls_data s)) + 2 + length (mls_data v))" for ls0
      by (rule LenStringRead_at [OF s(4), of _ _ post]) (use d s in simp_all)
    ultimately show ?thesis
      using TYPE_UTF_8_STRING_PAIR t id p c s datadup_ok [OF s(3)] datadup_ok [OF s(4)]
      by (simp add: MQTTProperty_read_def Let_def lenstring_ok_def del: bind_Some_iff)
  qed
  then show ?thesis by (simp add: e)
qed

section \<open>Property lists\<close>

text \<open>The list represents the properties \<open>ps\<close> and its length is that of their encodings.\<close>

definition props_rep :: "MQTTProperties \<Rightarrow> MQTTProperty list \<Rightarrow> bool" where
  "props_rep props ps \<longleftrightarrow>
     props_count props = length ps \<and> props_length props = int (length (concat (map prop_enc ps))) \<and>
     (case props_array props of
        None \<Rightarrow> ps = [] \<and> props_max_count props = 0
      | Some array \<Rightarrow> array = ps \<and> length ps \<le> props_max_count props)"

lemma props_rep_initializer: "props_rep MQTTProperties_initializer []"
  by (simp add: props_rep_def MQTTProperties_initializer_def)

lemma props_rep_entries: "props_rep props ps \<Longrightarrow> props_entries props = Some ps"
  by (auto simp: props_rep_def props_entries_def split: option.splits)

lemma dup_data_ok: "lenstring_ok d \<Longrightarrow> dup_data always_alloc d = Some d"
  by (simp add: dup_data_def datadup_ok)

lemma add_value_ok:
  assumes "prop_ok p" "MQTTProperty_getType (prop_identifier p) = Some t"
  shows "add_value always_alloc t p = Some (int (length (prop_enc p)) - 1, p)"
proof -
  have v: "unat (w :: 32 word) < 2 ^ 28 \<Longrightarrow> MQTTPacket_VBIlen (sint w) = length (vbi_enc (unat w))" for w
    using VBIlen_vbi_enc [of "unat w"] sint_small [of w] by simp
  have q: "prop_value p = x \<Longrightarrow> p\<lparr>prop_value := x\<rparr> = p" for x by (cases p) simp
  show ?thesis
    using assms
    by (cases t) (auto simp: add_value_def prop_ok_def prop_enc_def dup_data_ok v q lenstring_ok_def
        simp del: bind_Some_iff)
qed

lemma MQTTProperties_add_ok:
  assumes "prop_ok p" "props_rep props ps"
  shows "\<exists>props'. MQTTProperties_add always_alloc props p = Some (0, props') \<and> props_rep props' (ps @ [p])"
proof -
  obtain t where t: "MQTTProperty_getType (prop_identifier p) = Some t"
    using assms by (auto simp: prop_ok_def split: option.splits)
  have "0 < length (prop_enc p)" by (simp add: prop_enc_def)
  then show ?thesis
    using assms(2) add_value_ok [OF assms(1) t] t
    by (auto simp: MQTTProperties_add_def Let_def props_rep_def split: option.splits simp del: bind_Some_iff)
      (metis length_greater_0_conv)
qed

text \<open>A single property as a codec.\<close>

definition read_property :: "bytes \<Rightarrow> nat \<Rightarrow> (MQTTProperty \<times> nat) ub" where
  "read_property data p =
     do { (n, r, p) \<leftarrow> MQTTProperty_read always_alloc data p (length data);
          prop \<leftarrow> r; Some (prop, p) }"

interpretation property: wire_codec prop_enc "\<lambda>p s. map_option snd (MQTTProperty_write p s)"
  read_property prop_ok
proof
  fix x assume "prop_ok x"
  then show "(\<lambda>s. map_option snd (MQTTProperty_write x s)) = write_bytes (prop_enc x)"
    by (auto simp: MQTTProperty_write_bytes option.map_comp comp_def option.map_ident)
next
  fix x pre post assume "prop_ok x"
  then show "read_property (pre @ prop_enc x @ post) (length pre) = Some (x, length pre + length (prop_enc x))"
    using MQTTProperty_read_bytes [of x _ pre post, OF _ refl]
    by (simp add: read_property_def del: bind_Some_iff)
qed

lemma props_write_loop_bytes:
  assumes "\<forall>p \<in> set ps. prop_ok p" "snd s \<le> length (fst s)"
  shows "\<exists>rc. props_write_loop ps rc0 len s = (case write_bytes (concat (map prop_enc ps)) s of
      None \<Rightarrow> None | Some s' \<Rightarrow> Some (rc, len + int (length (concat (map prop_enc ps))), s')) \<and>
    (rc = rc0 \<or> 0 \<le> rc)"
  using assms
proof (induction ps arbitrary: rc0 len s)
  case Nil
  then show ?case by simp
next
  case (Cons p ps)
  note w = MQTTProperty_write_bytes [of p s]
  show ?case
  proof (cases "write_bytes (prop_enc p) s")
    case None
    then show ?thesis using Cons.prems w by (auto simp: write_bytes_append simp del: bind_Some_iff)
  next
    case (Some s1)
    have "snd s1 \<le> length (fst s1)" using Some by (cases s; cases s1) (auto simp: write_bytes_result)
    with Cons.IH [of s1 "int (length (prop_enc p))" "len + int (length (prop_enc p))"] Cons.prems obtain rc where
      "props_write_loop ps (int (length (prop_enc p))) (len + int (length (prop_enc p))) s1 =
        (case write_bytes (concat (map prop_enc ps)) s1 of None \<Rightarrow> None
         | Some s' \<Rightarrow> Some (rc, len + int (length (prop_enc p)) + int (length (concat (map prop_enc ps))), s'))"
      "rc = int (length (prop_enc p)) \<or> 0 \<le> rc" by auto
    then show ?thesis
      using Some Cons.prems w
      by (intro exI [of _ rc]) (auto simp: write_bytes_append simp del: bind_Some_iff split: option.splits)
  qed
qed

text \<open>The bytes written for a list, and the number that is returned.\<close>

definition props_enc :: "MQTTProperty list \<Rightarrow> bytes" where
  "props_enc ps = vbi_enc (length (concat (map prop_enc ps))) @ concat (map prop_enc ps)"

lemma MQTTProperties_write_bytes:
  assumes "props_rep props ps" "\<forall>p \<in> set ps. prop_ok p" "length (concat (map prop_enc ps)) < 2 ^ 28"
  shows "MQTTProperties_write (Some props) s =
    map_option (Pair (1 + int (length (concat (map prop_enc ps))))) (write_bytes (props_enc ps) s)"
proof -
  let ?L = "length (concat (map prop_enc ps))"
  have l: "nat (props_length props mod 2 ^ 64) = ?L"
    using assms(1,3) by (simp add: props_rep_def nat_mod_distrib)
  show ?thesis
  proof (cases "write_bytes (vbi_enc ?L) s")
    case None
    then show ?thesis
      unfolding MQTTProperties_write_def option.case l
      by (simp add: write_vbi_bytes props_enc_def write_bytes_append del: bind_Some_iff)
  next
    case (Some s1)
    have "snd s1 \<le> length (fst s1)" using Some by (cases s; cases s1) (auto simp: write_bytes_result)
    from props_write_loop_bytes [OF assms(2) this, of 1 1] obtain rc where
      "props_write_loop ps 1 1 s1 = (case write_bytes (concat (map prop_enc ps)) s1 of
        None \<Rightarrow> None | Some s' \<Rightarrow> Some (rc, 1 + int ?L, s'))" "rc = 1 \<or> 0 \<le> rc" by auto
    with Some props_rep_entries [OF assms(1)] show ?thesis
      unfolding MQTTProperties_write_def option.case l
      by (auto simp: write_vbi_bytes props_enc_def write_bytes_append
          simp del: bind_Some_iff split: option.splits)
  qed
qed

lemma MQTTProperties_write_NULL: "MQTTProperties_write None s = map_option (Pair 1) (write_bytes (props_enc []) s)"
  by (auto simp: MQTTProperties_write_def write_vbi_bytes props_enc_def simp del: bind_Some_iff split: Option.bind_split)

lemma length_props_enc:
  assumes "props_rep props ps" "length (concat (map prop_enc ps)) < 2 ^ 28"
  shows "MQTTProperties_len (Some props) = int (length (props_enc ps))"
  using assms VBIlen_vbi_enc [of "length (concat (map prop_enc ps))"]
  by (simp add: MQTTProperties_len_def props_enc_def props_rep_def)

lemma length_props_enc_NULL: "MQTTProperties_len None = int (length (props_enc []))"
  by (simp add: MQTTProperties_len_def props_enc_def vbi_enc.simps)

section \<open>Reading a list\<close>

definition read_rep :: "MQTTProperties \<Rightarrow> MQTTProperty list \<Rightarrow> bool" where
  "read_rep props ps \<longleftrightarrow>
     props_count props = length ps \<and>
     (case props_array props of
        None \<Rightarrow> ps = [] \<and> props_max_count props = 0
      | Some array \<Rightarrow> array = ps \<and> length ps \<le> props_max_count props \<and> 0 < props_max_count props)"

lemma props_read_loop_bytes:
  assumes "\<forall>p \<in> set ps. prop_ok p" "read_rep props qs" "data = pre @ concat (map prop_enc ps) @ post"
    "length (concat (map prop_enc ps)) < 2 ^ 32"
  shows "\<exists>props'. props_read_loop always_alloc data (length data)
      (of_nat (length (concat (map prop_enc ps)))) props (length pre) =
      Some (False, 0, props', length pre + length (concat (map prop_enc ps))) \<and>
    read_rep props' (qs @ ps) \<and> props_length props' = props_length props"
  using assms
proof (induction ps arbitrary: props qs pre)
  case Nil
  then show ?case by (subst props_read_loop.simps) simp
next
  case (Cons p ps)
  let ?e = "prop_enc p" and ?L = "length (concat (map prop_enc ps))"
  let ?R = "of_nat (length (concat (map prop_enc (p # ps)))) :: 32 word"
  have e: "0 < length ?e" by (simp add: prop_enc_def)
  have "n < 2 ^ 32 \<Longrightarrow> unat (of_nat n :: 32 word) = n" for n by (simp add: unat_of_nat)
  from this [OF Cons.prems(4)] have "unat ?R = length ?e + ?L" by simp
  then have nz: "?R \<noteq> 0" using e by (metis add_is_0 less_numeral_extra(3) unat_0)
  have rd: "MQTTProperty_read always_alloc data (length pre) (length data) =
      Some (int (length ?e), Some p, length pre + length ?e)"
    by (rule MQTTProperty_read_bytes [of p data pre "concat (map prop_enc ps) @ post"]) (use Cons.prems in simp_all)
  have sub: "?R - of_int (int (length ?e)) = of_nat ?L" by simp
  define props1 where "props1 = props_grow always_alloc props"
  have p1: "read_rep props1 qs" "props_count props1 < props_max_count props1"
    "props_array props1 = Some qs" "props_length props1 = props_length props" "props_count props1 = length qs"
    using Cons.prems(2) by (cases "props_array props"; simp add: read_rep_def props1_def props_grow_def)+
  let ?p2 = "props1\<lparr>props_array := Some (qs @ [p]), props_count := length qs + 1\<rparr>"
  have "read_rep ?p2 (qs @ [p])" using p1 by (simp add: read_rep_def)
  moreover have "data = (pre @ ?e) @ concat (map prop_enc ps) @ post" using Cons.prems(3) by simp
  ultimately obtain props' where
    "props_read_loop always_alloc data (length data) (of_nat ?L) ?p2 (length (pre @ ?e)) =
      Some (False, 0, props', length (pre @ ?e) + ?L)"
    "read_rep props' ((qs @ [p]) @ ps)" "props_length props' = props_length ?p2"
    using Cons.IH [of ?p2 "qs @ [p]" "pre @ ?e"] Cons.prems(1,4) by auto
  moreover have "props_read_loop always_alloc data (length data) ?R props (length pre) =
      props_read_loop always_alloc data (length data) (of_nat ?L) ?p2 (length (pre @ ?e))"
    using nz e p1 rd sub
    by (subst props_read_loop.simps) (simp add: Let_def props1_def [symmetric])
  ultimately show ?case using p1 by (simp add: add.assoc)
qed

lemma MQTTProperties_read_bytes:
  assumes "\<forall>p \<in> set ps. prop_ok p" "length (concat (map prop_enc ps)) < 2 ^ 28"
    "data = pre @ props_enc ps @ post"
  shows "\<exists>props. MQTTProperties_read always_alloc MQTTProperties_initializer data (length pre) (length data) =
      Some (1, props, length pre + length (props_enc ps)) \<and> props_entries props = Some ps \<and>
      props_length props = int (length (concat (map prop_enc ps)))"
proof -
  let ?L = "length (concat (map prop_enc ps))"
  let ?pre = "pre @ vbi_enc ?L"
  let ?init = "MQTTProperties_initializer\<lparr>props_length := int ?L\<rparr>"
  have d: "MQTTPacket_decodeBuf data (length pre) = Some (length (vbi_enc ?L), of_nat ?L)"
    using decodeBuf_append [OF assms(2), of pre "concat (map prop_enc ps) @ post"] assms(3)
    by (simp add: props_enc_def)
  have sl: "sint (of_nat ?L :: 32 word) = int ?L" using assms(2) by (intro sint_of_nat_small) simp
  have "read_rep ?init []" by (simp add: read_rep_def MQTTProperties_initializer_def)
  from props_read_loop_bytes [OF assms(1) this, of data ?pre post] assms(2,3) obtain props where
    l: "props_read_loop always_alloc data (length data) (of_nat ?L) ?init (length ?pre) =
      Some (False, 0, props, length ?pre + ?L)" "read_rep props ps" "props_length props = int ?L"
    by (auto simp: props_enc_def)
  have "0 < length (vbi_enc ?L)" by simp
  then have g: "int (length data) - int (length pre) > 0"
    unfolding assms(3) props_enc_def length_append by linarith
  have "MQTTProperties_read always_alloc MQTTProperties_initializer data (length pre) (length data) =
      Some (1, props, length pre + length (props_enc ps))"
    unfolding MQTTProperties_read_def if_P [OF g] d bind.simps prod.case sl
    using l(1) by (simp add: props_enc_def Let_def)
  moreover have "props_entries props = Some ps"
    using l(2) by (auto simp: read_rep_def props_entries_def split: option.splits)
  ultimately show ?thesis using l(3) by blast
qed

lemma copy_loop_rep:
  assumes "\<forall>p \<in> set ps. prop_ok p" "props_rep props qs"
  shows "\<exists>props'. copy_loop always_alloc ps props = Some props' \<and> props_rep props' (qs @ ps)"
  using assms
proof (induction ps arbitrary: props qs)
  case (Cons p ps)
  from MQTTProperties_add_ok [of p props qs] Cons.prems obtain props1 where
    a: "MQTTProperties_add always_alloc props p = Some (0, props1)" "props_rep props1 (qs @ [p])" by auto
  from Cons.IH [OF _ a(2)] Cons.prems(1) a(1) show ?case by (auto simp del: bind_Some_iff)
qed simp

section \<open>Properties\<close>


definition sample_properties :: "MQTTProperty list" where
  "sample_properties =
     [\<lparr>prop_identifier = 17, prop_value = PInt4 3600\<rparr>,
      \<lparr>prop_identifier = 38, prop_value = PPair \<lparr>mls_len = 1, mls_data = [0x6B]\<rparr> \<lparr>mls_len = 2, mls_data = [0x76, 0x77]\<rparr>\<rparr>]"

definition sample_list :: MQTTProperties where
  "sample_list = \<lparr>props_count = 2, props_max_count = 10, props_length = 13, props_array = Some sample_properties\<rparr>"

lemma sample_ok:
  "\<forall>p \<in> set sample_properties. prop_ok p" "length (concat (map prop_enc sample_properties)) = 13"
  by (simp_all add: sample_properties_def prop_ok_def prop_enc_def MQTTProperty_getType_def namesToTypes_def
      lenstring_ok_def utf_enc_def)

lemma sample_copy: "copy_loop always_alloc sample_properties MQTTProperties_initializer = Some sample_list"
  by (simp add: sample_properties_def sample_list_def MQTTProperties_add_def add_value_def dup_data_def
      datadup_def MQTTProperty_getType_def namesToTypes_def MQTTProperties_initializer_def Let_def
      del: bind_Some_iff)


text \<open>
  What \<open>MQTTProperties_write\<close> returns is one more than the properties' bytes: it counts
  the length field as one byte, whatever its length, and so is less than the number of bytes
  written when the properties take 128 bytes or more.
\<close>

theorem properties_write_return:
  assumes "\<forall>p \<in> set ps. prop_ok p" "length (concat (map prop_enc ps)) < 2 ^ 28"
    "copy_loop always_alloc ps MQTTProperties_initializer = Some props"
    "MQTTProperties_write (Some props) (buf, p) = Some (rc, buf', p')"
  shows "rc = int p' - int p - (int (MQTTPacket_VBIlen (props_length props)) - 1)"
proof -
  have r: "props_rep props ps"
    using copy_loop_rep [OF assms(1) props_rep_initializer] assms(3) by auto
  have "rc = 1 + int (length (concat (map prop_enc ps)))" "p' = p + length (props_enc ps)"
    using assms(4) MQTTProperties_write_bytes [OF r assms(1,2), of "(buf, p)"]
    by (auto simp: write_bytes_result)
  moreover have "props_length props = int (length (concat (map prop_enc ps)))"
    using r by (simp add: props_rep_def)
  ultimately show ?thesis
    using VBIlen_vbi_enc [OF assms(2)] by (simp add: props_enc_def)
qed

theorem properties_write_return_witness:
  "\<exists>buf'. MQTTProperties_write (Some sample_list) (replicate 14 0, 0) = Some (14, buf', 14) \<and>
     (14 :: int) = int 14 - int 0 - (int (MQTTPacket_VBIlen (props_length sample_list)) - 1)"
proof -
  have r: "props_rep sample_list sample_properties"
    using copy_loop_rep [OF sample_ok(1) props_rep_initializer] sample_copy by auto
  have v: "vbi_enc 13 = [13]" by (subst vbi_enc.simps) simp
  have "MQTTProperties_write (Some sample_list) (replicate 14 0, 0) =
      Some (14, props_enc sample_properties, 14)"
    using MQTTProperties_write_bytes [OF r sample_ok(1), of "(replicate 14 0, 0)"]
    by (simp add: sample_ok(2) v props_enc_def write_bytes_def memcpy_at_def)
  with properties_write_return [OF sample_ok(1) _ sample_copy this] show ?thesis
    by (simp add: sample_ok(2))
qed


lemma property_loop_filter:
  assumes "cur \<le> index"
  shows "property_loop ps i index cur =
    (let qs = filter (\<lambda>p. prop_identifier p = i) ps in
     if nat (index - cur) < length qs then Some (qs ! nat (index - cur)) else None)"
  using assms
proof (induction ps arbitrary: cur)
  case (Cons p ps)
  show ?case
  proof (cases "prop_identifier p = i \<and> cur \<noteq> index")
    case True
    then have "nat (index - cur) = Suc (nat (index - (cur + 1)))" using Cons.prems by linarith
    with True Cons.IH [of "cur + 1"] Cons.prems show ?thesis by (simp add: Let_def)
  next
    case False
    with Cons show ?thesis by (auto simp: Let_def)
  qed
qed simp



end
