(* ===== verification/Clients.thy ===== *)
theory Clients
  imports CursorList Properties
begin

text \<open>
  The data of one client, \<open>Clients.h\<close> and \<open>Clients.c\<close>: the error codes and states of the SOCKS5
  handshake, the packets it exchanges, stored publications and in-flight messages, and the
  \<open>Clients\<close> record with the fields the modelled code uses.  C strings are byte lists without their
  terminating zero, \<open>NULL\<close> strings are \<open>None\<close>.  The message lists are the lists with a cursor of
  \<open>CursorList\<close>, which \<open>ListRefinement\<close> shows to be what \<open>LinkedList.c\<close> implements.  The two mutexes
  only protect single reads and writes of a field that the model performs in one step.
\<close>

section \<open>Codes\<close>

abbreviation (input) PAHOMQTT_ERR_SUCCESS :: int where "PAHOMQTT_ERR_SUCCESS \<equiv> 0"
abbreviation (input) PAHOMQTT_ERR_CONN_PENDING :: int where "PAHOMQTT_ERR_CONN_PENDING \<equiv> - 1"
abbreviation (input) PAHOMQTT_ERR_NOMEM :: int where "PAHOMQTT_ERR_NOMEM \<equiv> 1"
abbreviation (input) PAHOMQTT_ERR_PROTOCOL :: int where "PAHOMQTT_ERR_PROTOCOL \<equiv> 2"
abbreviation (input) PAHOMQTT_ERR_INVAL :: int where "PAHOMQTT_ERR_INVAL \<equiv> 3"
abbreviation (input) PAHOMQTT_ERR_NO_CONN :: int where "PAHOMQTT_ERR_NO_CONN \<equiv> 4"
abbreviation (input) PAHOMQTT_ERR_CONN_LOST :: int where "PAHOMQTT_ERR_CONN_LOST \<equiv> 7"
abbreviation (input) PAHOMQTT_ERR_NOT_SUPPORTED :: int where "PAHOMQTT_ERR_NOT_SUPPORTED \<equiv> 10"
abbreviation (input) PAHOMQTT_ERR_AUTH :: int where "PAHOMQTT_ERR_AUTH \<equiv> 11"
abbreviation (input) PAHOMQTT_ERR_ERRNO :: int where "PAHOMQTT_ERR_ERRNO \<equiv> 14"
abbreviation (input) PAHOMQTT_ERR_EAI :: int where "PAHOMQTT_ERR_EAI \<equiv> 15"
abbreviation (input) PAHOMQTT_ERR_PROXY :: int where "PAHOMQTT_ERR_PROXY \<equiv> 16"
abbreviation (input) PAHOMQTT_ERR_NOT_FINISHED :: int where "PAHOMQTT_ERR_NOT_FINISHED \<equiv> 32"

datatype pahomqtt_client_socks5_state =
    pahomqtt_cs_new | pahomqtt_cs_connected | pahomqtt_cs_disconnecting | pahomqtt_cs_active
  | pahomqtt_cs_connect_pending | pahomqtt_cs_connect_srv | pahomqtt_cs_disconnect_ws
  | pahomqtt_cs_disconnected | pahomqtt_cs_socks5_new | pahomqtt_cs_socks5_start
  | pahomqtt_cs_socks5_request | pahomqtt_cs_socks5_reply | pahomqtt_cs_socks5_auth_ok
  | pahomqtt_cs_socks5_userpass_reply | pahomqtt_cs_socks5_send_userpass | pahomqtt_cs_expiring
  | pahomqtt_cs_duplicate | pahomqtt_cs_disconnect_with_will | pahomqtt_cs_disused
  | pahomqtt_cs_authenticating | pahomqtt_cs_reauthenticating | pahomqtt_cs_error

text \<open>The connection states of the \<open>connect_state\<close> field.\<close>

abbreviation (input) NOT_IN_PROGRESS :: int where "NOT_IN_PROGRESS \<equiv> 0"
abbreviation (input) TCP_IN_PROGRESS :: int where "TCP_IN_PROGRESS \<equiv> 1"
abbreviation (input) SSL_IN_PROGRESS :: int where "SSL_IN_PROGRESS \<equiv> 2"
abbreviation (input) WEBSOCKET_IN_PROGRESS :: int where "WEBSOCKET_IN_PROGRESS \<equiv> 3"
abbreviation (input) WAIT_FOR_CONNACK :: int where "WAIT_FOR_CONNACK \<equiv> 4"
abbreviation (input) PROXY_CONNECT_IN_PROGRESS :: int where "PROXY_CONNECT_IN_PROGRESS \<equiv> 5"
abbreviation (input) SOCKS5_PROXY_CONNECT_IN_PROGRESS :: int where "SOCKS5_PROXY_CONNECT_IN_PROGRESS \<equiv> 6"
abbreviation (input) DISCONNECTING :: int where "DISCONNECTING \<equiv> - 2"

text \<open>Codes of the socket layer.\<close>

abbreviation (input) TCPSOCKET_COMPLETE :: int where "TCPSOCKET_COMPLETE \<equiv> 0"
abbreviation (input) SOCKET_ERROR :: int where "SOCKET_ERROR \<equiv> - 1"
abbreviation (input) INVALID_SOCKET :: int where "INVALID_SOCKET \<equiv> - 1"
abbreviation (input) TCPSOCKET_INTERRUPTED :: int where "TCPSOCKET_INTERRUPTED \<equiv> - 22"

section \<open>Records\<close>

text \<open>A packet of the SOCKS5 handshake.  The \<open>next\<close> pointers of the queue are the order of the list
  \<open>out_packet\<close> below.\<close>

record pahomqtt_socks5_packet =
  pkt_payload :: "bytes option"
  pkt_remaining_mult :: nat
  pkt_remaining_length :: nat
  pkt_packet_length :: nat
  pkt_to_process :: nat
  pkt_pos :: nat
  pkt_command :: nat
  pkt_remaining_count :: int

text \<open>\<open>START_TIME_TYPE\<close> is the tick count of Windows before Vista, a \<open>DWORD\<close> of milliseconds, in
  which \<open>MQTTTime_difftime\<close> treats the wrap-around.\<close>

type_synonym START_TIME_TYPE = "32 word"

record Publications =
  pub_topic :: "bytes option"
  pub_topiclen :: nat
  pub_payload :: "bytes option"
  pub_payloadlen :: nat
  pub_refcount :: int
  pub_mask :: bytes

record Messages =
  msg_qos :: int
  msg_retain :: int
  msg_msgid :: int
  msg_MQTTVersion :: int
  msg_properties :: MQTTProperties
  msg_publish :: ptr
  msg_lastTouch :: START_TIME_TYPE
  msg_nextMessageType :: int
  msg_len :: int

record willMessages =
  will_topic :: bytes
  will_payload :: bytes
  will_retained :: int
  will_qos :: int

record networkHandles =
  net_socket :: int
  net_lastSent :: START_TIME_TYPE
  net_lastReceived :: START_TIME_TYPE
  net_lastPing :: START_TIME_TYPE
  net_http_proxy :: "bytes option"
  net_http_proxy_auth :: "bytes option"
  net_websocket :: bool
  net_websocket_key :: "bytes option"
  net_httpHeaders :: "(bytes \<times> bytes) list option"
  net_socks5_host :: "bytes option"
  net_socks5_port :: nat

record Clients =
  clientID :: bytes
  client_username :: "bytes option"
  client_password :: "bytes option"
  cleansession :: bool
  cleanstart :: bool
  connected :: bool
  good :: bool
  ping_outstanding :: bool
  connect_state :: int
  net :: networkHandles
  msgID :: int
  keepAliveInterval :: int
  retryInterval :: int
  maxInflightMessages :: int
  client_will :: "willMessages option"
  inboundMsgs :: "Messages clist"
  outboundMsgs :: "Messages clist"
  client_MQTTVersion :: int
  httpProxy :: "bytes option"
  socks5_host :: "bytes option"
  socks5_port :: nat
  socks5_username :: "bytes option"
  socks5_password :: "bytes option"
  socks5State :: pahomqtt_client_socks5_state
  in_packet :: pahomqtt_socks5_packet
  out_packet :: "pahomqtt_socks5_packet list"
  serverURI :: bytes

text \<open>A client structure of zero bytes, as \<open>calloc\<close> makes it.\<close>

definition blank_client :: Clients where
  "blank_client = \<lparr>clientID = [], client_username = None, client_password = None, cleansession = False,
     cleanstart = False, connected = False, good = False, ping_outstanding = False, connect_state = 0,
     net = \<lparr>net_socket = 0, net_lastSent = 0, net_lastReceived = 0, net_lastPing = 0, net_http_proxy = None,
       net_http_proxy_auth = None, net_websocket = False, net_websocket_key = None, net_httpHeaders = None,
       net_socks5_host = None, net_socks5_port = 0\<rparr>,
     msgID = 0, keepAliveInterval = 0, retryInterval = 0, maxInflightMessages = 0, client_will = None,
     inboundMsgs = cl_zero, outboundMsgs = cl_zero, client_MQTTVersion = 0, httpProxy = None,
     socks5_host = None, socks5_port = 0, socks5_username = None, socks5_password = None,
     socks5State = pahomqtt_cs_new,
     in_packet = \<lparr>pkt_payload = None, pkt_remaining_mult = 0, pkt_remaining_length = 0,
       pkt_packet_length = 0, pkt_to_process = 0, pkt_pos = 0, pkt_command = 0, pkt_remaining_count = 0\<rparr>,
     out_packet = [], serverURI = []\<rparr>"

section \<open>\<open>Clients.c\<close>\<close>

definition clientIDCompare :: "Clients \<Rightarrow> bytes \<Rightarrow> bool" where
  "clientIDCompare client b \<longleftrightarrow> clientID client = b"

definition clientSocketCompare :: "Clients \<Rightarrow> int \<Rightarrow> bool" where
  "clientSocketCompare client b \<longleftrightarrow> net_socket (net client) = b"

definition pahomqtt_set_socks5_state :: "pahomqtt_client_socks5_state \<Rightarrow> Clients \<Rightarrow> Clients" where
  "pahomqtt_set_socks5_state st aClient = aClient\<lparr>socks5State := st\<rparr>"

definition pahomqtt_get_socks5_state :: "Clients \<Rightarrow> pahomqtt_client_socks5_state" where
  "pahomqtt_get_socks5_state aClient = socks5State aClient"

end
