(* ===== verification/Socks5.thy ===== *)
theory Socks5
  imports Clients
begin

text \<open>
  The SOCKS5 client of \<open>MQTTSocks5Proxy.c\<close>: the queue of outgoing packets, \<open>socks5__send\<close>,
  \<open>socks5__read\<close>, the reading thread \<open>Socks5_ReadThread\<close>, and the caller's side of the handshake in
  \<open>WebSocket_socks5_proxy_connect\<close>.  \<open>None\<close> is undefined behaviour: an access outside a block or
  through \<open>NULL\<close>, or a block freed twice.  The properties are in \<open>Socks5Handshake\<close>.
\<close>

section \<open>The operating system\<close>

text \<open>
  \<open>recv\<close> and \<open>send\<close> are the system's: arguments of the model, functions on a network state.  A call
  gives the value of \<open>errno\<close> too, which the code reads when the call did not move any byte.
  \<open>recv\<close> gives the bytes received, none when its result is not positive; \<open>send\<close> the number of bytes
  taken, 0 when its result is not positive.  The documented contract, that no more bytes move than
  the call asked for, is checked where the result is used: outside it there is no result.
  \<open>inet_pton\<close> gives the address in network order.  \<open>s5_junk\<close> is what \<open>malloc\<close> leaves in a block.
\<close>

record 'n socks5_env =
  s5_recv :: "nat \<Rightarrow> 'n \<Rightarrow> (bytes \<times> int) \<times> 'n"
  s5_send :: "bytes \<Rightarrow> 'n \<Rightarrow> (nat \<times> int) \<times> 'n"
  s5_pton4 :: "bytes \<Rightarrow> bytes option"
  s5_pton6 :: "bytes \<Rightarrow> bytes option"
  s5_alloc :: allocator
  s5_junk :: byte

text \<open>Windows' error numbers.\<close>

abbreviation (input) EAGAIN :: int where "EAGAIN \<equiv> 11"
abbreviation (input) COMPAT_EINTR :: int where "COMPAT_EINTR \<equiv> 10004"
abbreviation (input) COMPAT_EWOULDBLOCK :: int where "COMPAT_EWOULDBLOCK \<equiv> 10035"
abbreviation (input) COMPAT_ECONNRESET :: int where "COMPAT_ECONNRESET \<equiv> 10054"
abbreviation (input) WSAENOTCONN :: int where "WSAENOTCONN \<equiv> 10057"

abbreviation (input) SOCKS_AUTH_NONE :: byte where "SOCKS_AUTH_NONE \<equiv> 0"
abbreviation (input) SOCKS_AUTH_USERPASS :: byte where "SOCKS_AUTH_USERPASS \<equiv> 2"
abbreviation (input) SOCKS_ATYPE_IP_V4 :: byte where "SOCKS_ATYPE_IP_V4 \<equiv> 1"
abbreviation (input) SOCKS_ATYPE_DOMAINNAME :: byte where "SOCKS_ATYPE_DOMAINNAME \<equiv> 3"
abbreviation (input) SOCKS_ATYPE_IP_V6 :: byte where "SOCKS_ATYPE_IP_V6 \<equiv> 4"

definition PAHOMQTT_MSB :: "nat \<Rightarrow> byte" where
  "PAHOMQTT_MSB a = of_nat (a div 256)"

definition PAHOMQTT_LSB :: "nat \<Rightarrow> byte" where
  "PAHOMQTT_LSB a = of_nat a"

section \<open>Packets\<close>

definition net__read :: "'n socks5_env \<Rightarrow> nat \<Rightarrow> 'n \<Rightarrow> ((bytes \<times> int) \<times> 'n) ub" where
  "net__read e count n =
     (case s5_recv e count n of ((bs, err), n') \<Rightarrow>
        if count < length bs then None else Some ((bs, err), n'))"

definition net__write :: "'n socks5_env \<Rightarrow> bytes \<Rightarrow> 'n \<Rightarrow> ((nat \<times> int) \<times> 'n) ub" where
  "net__write e buf n =
     (case s5_send e buf n of ((k, err), n') \<Rightarrow>
        if length buf < k then None else Some ((k, err), n'))"

definition packet__cleanup :: "pahomqtt_socks5_packet \<Rightarrow> pahomqtt_socks5_packet" where
  "packet__cleanup p = p\<lparr>pkt_command := 0, pkt_remaining_count := 0, pkt_remaining_mult := 1,
     pkt_remaining_length := 0, pkt_payload := None, pkt_to_process := 0, pkt_pos := 0\<rparr>"

text \<open>\<open>calloc\<close> of a packet: every field zero.\<close>

definition empty_packet :: pahomqtt_socks5_packet where
  "empty_packet = \<lparr>pkt_payload = None, pkt_remaining_mult = 0, pkt_remaining_length = 0,
     pkt_packet_length = 0, pkt_to_process = 0, pkt_pos = 0, pkt_command = 0, pkt_remaining_count = 0\<rparr>"

text \<open>The inner loop of \<open>packet__write\<close> for one packet: the return code when the function returns
  from inside it.\<close>

function packet_write_loop ::
  "'n socks5_env \<Rightarrow> pahomqtt_socks5_packet \<Rightarrow> 'n \<Rightarrow> (int option \<times> pahomqtt_socks5_packet \<times> 'n) ub"
where
  "packet_write_loop e packet n =
     (if pkt_to_process packet = 0 then Some (None, packet, n)
      else case pkt_payload packet of
        None \<Rightarrow> None
      | Some payload \<Rightarrow>
        if length payload < pkt_pos packet + pkt_to_process packet then None
        else
          (case net__write e (take (pkt_to_process packet) (drop (pkt_pos packet) payload)) n of
             None \<Rightarrow> None
           | Some ((write_length, errno), n') \<Rightarrow>
               if 0 < write_length then
                 packet_write_loop e
                   (packet\<lparr>pkt_to_process := pkt_to_process packet - write_length,
                           pkt_pos := pkt_pos packet + write_length\<rparr>) n'
               else if errno = EAGAIN \<or> errno = COMPAT_EWOULDBLOCK \<or> errno = WSAENOTCONN then
                 Some (Some PAHOMQTT_ERR_SUCCESS, packet, n')
               else if errno = COMPAT_ECONNRESET then Some (Some PAHOMQTT_ERR_CONN_LOST, packet, n')
               else if errno = COMPAT_EINTR then Some (Some PAHOMQTT_ERR_SUCCESS, packet, n')
               else Some (Some PAHOMQTT_ERR_ERRNO, packet, n')))"
  by pat_completeness auto
termination
  by (relation "measure (\<lambda>(e, packet, n). pkt_to_process packet)") auto

declare packet_write_loop.simps [simp del]

text \<open>The outer loop: packets that are written are freed, the one that is not stays at the head.\<close>

fun packet_queue_loop ::
  "'n socks5_env \<Rightarrow> pahomqtt_socks5_packet list \<Rightarrow> 'n \<Rightarrow> (int \<times> pahomqtt_socks5_packet list \<times> 'n) ub"
where
  "packet_queue_loop e [] n = Some (PAHOMQTT_ERR_SUCCESS, [], n)"
| "packet_queue_loop e (packet # rest) n =
     (case packet_write_loop e packet n of
        None \<Rightarrow> None
      | Some (Some rc, packet', n') \<Rightarrow> Some (rc, packet' # rest, n')
      | Some (None, packet', n') \<Rightarrow> packet_queue_loop e rest n')"

definition packet__write :: "'n socks5_env \<Rightarrow> Clients \<Rightarrow> 'n \<Rightarrow> (int \<times> Clients \<times> 'n) ub" where
  "packet__write e aClient n =
     (if net_socket (net aClient) = INVALID_SOCKET then Some (PAHOMQTT_ERR_NO_CONN, aClient, n)
      else if pahomqtt_get_socks5_state aClient = pahomqtt_cs_new
      then Some (PAHOMQTT_ERR_SUCCESS, aClient, n)
      else do {
        (rc, queue, n') \<leftarrow> packet_queue_loop e (out_packet aClient) n;
        Some (rc, aClient\<lparr>out_packet := queue\<rparr>, n')
      })"

definition packet__queue ::
  "'n socks5_env \<Rightarrow> pahomqtt_socks5_packet \<Rightarrow> Clients \<Rightarrow> 'n \<Rightarrow> (int \<times> Clients \<times> 'n) ub"
where
  "packet__queue e packet aClient n =
     packet__write e
       (aClient\<lparr>out_packet := out_packet aClient @
          [packet\<lparr>pkt_pos := 0, pkt_to_process := pkt_packet_length packet\<rparr>]\<rparr>) n"

section \<open>Sending\<close>

text \<open>\<open>malloc\<close> of a block: its contents are not determined.  A store through the \<open>NULL\<close> of a failed
  allocation is undefined: the branches that do not check have the missing block as no result.\<close>

definition malloc_bytes :: "'n socks5_env \<Rightarrow> nat \<Rightarrow> bytes option" where
  "malloc_bytes e k = (if s5_alloc e (Bytes k) then Some (replicate k (s5_junk e)) else None)"

definition store_all :: "(nat \<times> bytes) list \<Rightarrow> bytes \<Rightarrow> bytes ub" where
  "store_all ws buf = foldl (\<lambda>b (i, bs). Option.bind b (\<lambda>b. memcpy_at b i bs)) (Some buf) ws"

text \<open>The end of each branch: the incoming packet is reset to the length of the expected reply, the
  request is queued and the queue written.\<close>

definition expect_reply ::
  "'n socks5_env \<Rightarrow> nat \<Rightarrow> pahomqtt_socks5_packet \<Rightarrow> Clients \<Rightarrow> 'n \<Rightarrow> (int \<times> Clients \<times> 'n) ub"
where
  "expect_reply e k packet aClient n =
     (let c = aClient\<lparr>in_packet := (in_packet aClient)\<lparr>pkt_pos := 0, pkt_packet_length := k,
                        pkt_to_process := k, pkt_payload := malloc_bytes e k\<rparr>\<rparr>
      in if pkt_payload (in_packet c) = None then Some (PAHOMQTT_ERR_NOMEM, c, n)
         else packet__queue e packet c n)"

definition send_greeting :: "'n socks5_env \<Rightarrow> Clients \<Rightarrow> 'n \<Rightarrow> (int \<times> Clients \<times> 'n) ub" where
  "send_greeting e aClient n =
     (let packet_length = (if socks5_username aClient \<noteq> None then 4 else 3)
      in do {
        payload \<leftarrow> malloc_bytes e packet_length;
        payload \<leftarrow> store_all
          (if socks5_username aClient \<noteq> None
           then [(0, [5]), (1, [2]), (2, [SOCKS_AUTH_NONE]), (3, [SOCKS_AUTH_USERPASS])]
           else [(0, [5]), (1, [1]), (2, [SOCKS_AUTH_NONE])]) payload;
        expect_reply e 2
          (empty_packet\<lparr>pkt_packet_length := packet_length, pkt_payload := Some payload\<rparr>)
          (pahomqtt_set_socks5_state pahomqtt_cs_socks5_start aClient) n
      })"

text \<open>The three forms of the destination in the request: the length of the packet and the stores
  between its fourth byte and its end.\<close>

definition request_body :: "'n socks5_env \<Rightarrow> bytes \<Rightarrow> (nat \<times> (nat \<times> bytes) list) option" where
  "request_body e uri =
     (case s5_pton4 e uri of
        Some addr \<Rightarrow>
          Some (10, [(3, [SOCKS_ATYPE_IP_V4]), (4, take 4 addr),
                     (4 + 4, [PAHOMQTT_MSB 1883]), (4 + 4 + 1, [PAHOMQTT_LSB 1883])])
      | None \<Rightarrow>
        (case s5_pton6 e uri of
           Some addr \<Rightarrow>
             Some (22, [(3, [SOCKS_ATYPE_IP_V6]), (4, take 16 addr),
                        (4 + 16, [PAHOMQTT_MSB 1883]), (4 + 16 + 1, [PAHOMQTT_LSB 1883])])
         | None \<Rightarrow>
             (let slen = length uri
              in if 255 < slen then None
                 else Some (7 + slen, [(3, [SOCKS_ATYPE_DOMAINNAME]), (4, [of_nat slen]), (5, uri),
                        (5 + slen, [PAHOMQTT_MSB 1883]), (6 + slen, [PAHOMQTT_LSB 1883])]))))"

definition send_request :: "'n socks5_env \<Rightarrow> Clients \<Rightarrow> 'n \<Rightarrow> (int \<times> Clients \<times> 'n) ub" where
  "send_request e aClient n =
     (case request_body e (serverURI aClient) of
        None \<Rightarrow> Some (PAHOMQTT_ERR_NOMEM, aClient, n)
      | Some (packet_length, stores) \<Rightarrow>
          (case malloc_bytes e packet_length of
             None \<Rightarrow> Some (PAHOMQTT_ERR_NOMEM, aClient, n)
           | Some payload \<Rightarrow> do {
               payload \<leftarrow> store_all (stores @ [(0, [5]), (1, [1]), (2, [0])]) payload;
               expect_reply e 5
                 (empty_packet\<lparr>pkt_packet_length := packet_length, pkt_payload := Some payload\<rparr>)
                 (pahomqtt_set_socks5_state pahomqtt_cs_socks5_request aClient) n
             }))"

text \<open>\<open>ulen\<close> and \<open>plen\<close> are \<open>uint8_t\<close>: the lengths modulo 256.  \<open>strlen\<close> of a \<open>NULL\<close> user name or
  password is undefined.\<close>

definition send_userpass :: "'n socks5_env \<Rightarrow> Clients \<Rightarrow> 'n \<Rightarrow> (int \<times> Clients \<times> 'n) ub" where
  "send_userpass e aClient n = do {
     username \<leftarrow> socks5_username aClient;
     password \<leftarrow> socks5_password aClient;
     let ulen = length username mod 256;
     let plen = length password mod 256;
     let packet_length = 3 + ulen + plen;
     payload \<leftarrow> malloc_bytes e packet_length;
     payload \<leftarrow> store_all [(0, [1]), (1, [of_nat ulen]), (2, take ulen username),
                  (2 + ulen, [of_nat plen]), (3 + ulen, take plen password)] payload;
     expect_reply e 2
       (empty_packet\<lparr>pkt_packet_length := packet_length, pkt_payload := Some payload\<rparr>)
       (pahomqtt_set_socks5_state pahomqtt_cs_socks5_userpass_reply aClient) n
   }"

definition socks5__send :: "'n socks5_env \<Rightarrow> Clients \<Rightarrow> 'n \<Rightarrow> (int \<times> Clients \<times> 'n) ub" where
  "socks5__send e aClient n =
     (let state = pahomqtt_get_socks5_state aClient;
          no_packet = \<not> s5_alloc e (Sizeof ''struct pahomqtt_socks5_packet'')
      in if state = pahomqtt_cs_socks5_new then
           if no_packet then Some (PAHOMQTT_ERR_NOMEM, aClient, n) else send_greeting e aClient n
         else if state = pahomqtt_cs_socks5_auth_ok then
           if no_packet then Some (PAHOMQTT_ERR_NOMEM, aClient, n) else send_request e aClient n
         else if state = pahomqtt_cs_socks5_send_userpass then
           if no_packet then Some (PAHOMQTT_ERR_NOMEM, aClient, n) else send_userpass e aClient n
         else Some (PAHOMQTT_ERR_SUCCESS, aClient, n))"

section \<open>Receiving\<close>

text \<open>The loop that the three states of \<open>socks5__read\<close> repeat: the bytes still missing from
  \<open>in_packet\<close> are read.  The return code when the function returns from inside it.\<close>

function in_packet_loop ::
  "'n socks5_env \<Rightarrow> pahomqtt_socks5_packet \<Rightarrow> 'n \<Rightarrow> (int option \<times> pahomqtt_socks5_packet \<times> 'n) ub"
where
  "in_packet_loop e p n =
     (if pkt_to_process p = 0 then Some (None, p, n)
      else case net__read e (pkt_to_process p) n of
        None \<Rightarrow> None
      | Some ((bs, errno), n') \<Rightarrow>
          if bs \<noteq> [] then
            (case pkt_payload p of
               None \<Rightarrow> None
             | Some payload \<Rightarrow>
                 (case memcpy_at payload (pkt_pos p) bs of
                    None \<Rightarrow> None
                  | Some payload' \<Rightarrow>
                      in_packet_loop e
                        (p\<lparr>pkt_payload := Some payload', pkt_pos := pkt_pos p + length bs,
                           pkt_to_process := pkt_to_process p - length bs\<rparr>) n'))
          else if errno = EAGAIN \<or> errno = COMPAT_EWOULDBLOCK
          then Some (Some PAHOMQTT_ERR_SUCCESS, p, n')
          else Some (Some (if errno = 0 then PAHOMQTT_ERR_PROXY
                           else if errno = COMPAT_ECONNRESET then PAHOMQTT_ERR_CONN_LOST
                           else PAHOMQTT_ERR_ERRNO), packet__cleanup p, n'))"
  by pat_completeness auto
termination
  by (relation "measure (\<lambda>(e, p, n). pkt_to_process p)") auto

declare in_packet_loop.simps [simp del]

text \<open>A byte of the received packet; through \<open>NULL\<close> there is none.\<close>

definition in_byte :: "pahomqtt_socks5_packet \<Rightarrow> nat \<Rightarrow> byte ub" where
  "in_byte p i = Option.bind (pkt_payload p) (\<lambda>payload. read_at payload i)"

text \<open>The return code for a status other than success.\<close>

definition reply_error :: "byte \<Rightarrow> int" where
  "reply_error i =
     (if i = 2 then PAHOMQTT_ERR_AUTH
      else if i = 3 \<or> i = 4 \<or> i = 5 then PAHOMQTT_ERR_NO_CONN
      else if i = 1 \<or> i = 6 \<or> i = 7 \<or> i = 8 then PAHOMQTT_ERR_PROXY
      else PAHOMQTT_ERR_INVAL)"

definition read_start :: "'n socks5_env \<Rightarrow> Clients \<Rightarrow> 'n \<Rightarrow> (int \<times> Clients \<times> 'n) ub" where
  "read_start e c n = do {
     version \<leftarrow> in_byte (in_packet c) 0;
     let c' = c\<lparr>in_packet := packet__cleanup (in_packet c)\<rparr>;
     if version \<noteq> 5 then Some (PAHOMQTT_ERR_PROXY, c', n)
     else do {
       auth \<leftarrow> in_byte (in_packet c) 1;
       if auth = SOCKS_AUTH_NONE
       then socks5__send e (pahomqtt_set_socks5_state pahomqtt_cs_socks5_auth_ok c') n
       else if auth = SOCKS_AUTH_USERPASS
       then socks5__send e (pahomqtt_set_socks5_state pahomqtt_cs_socks5_send_userpass c') n
       else Some (PAHOMQTT_ERR_AUTH, c', n)
     }
   }"

definition read_userpass_reply :: "'n socks5_env \<Rightarrow> Clients \<Rightarrow> 'n \<Rightarrow> (int \<times> Clients \<times> 'n) ub" where
  "read_userpass_reply e c n = do {
     version \<leftarrow> in_byte (in_packet c) 0;
     let c' = c\<lparr>in_packet := packet__cleanup (in_packet c)\<rparr>;
     if version \<noteq> 1 then Some (PAHOMQTT_ERR_PROXY, c', n)
     else do {
       status \<leftarrow> in_byte (in_packet c) 1;
       if status = 0
       then socks5__send e (pahomqtt_set_socks5_state pahomqtt_cs_socks5_auth_ok c') n
       else Some (reply_error status, c', n)
     }
   }"

text \<open>The first five bytes of the reply to the request tell how long it is.\<close>

definition extend_reply :: "'n socks5_env \<Rightarrow> Clients \<Rightarrow> 'n \<Rightarrow> (int \<times> Clients \<times> 'n) ub" where
  "extend_reply e c n = do {
     let p = in_packet c;
     payload \<leftarrow> pkt_payload p;
     atype \<leftarrow> read_at payload 3;
     extra \<leftarrow>
       (if atype = SOCKS_ATYPE_IP_V4 then Some (Some (4 + 2 - 1))
        else if atype = SOCKS_ATYPE_IP_V6 then Some (Some (16 + 2 - 1))
        else if atype = SOCKS_ATYPE_DOMAINNAME then map_option (\<lambda>b. Some (unat b)) (read_at payload 4)
        else Some None);
     (case extra of
        None \<Rightarrow> Some (PAHOMQTT_ERR_PROTOCOL, c\<lparr>in_packet := packet__cleanup p\<rparr>, n)
      | Some missing \<Rightarrow>
          let k = pkt_packet_length p + missing
          in if s5_alloc e (Bytes k)
             then Some (PAHOMQTT_ERR_NOT_FINISHED,
               c\<lparr>in_packet := p\<lparr>pkt_to_process := pkt_to_process p + missing, pkt_packet_length := k,
                   pkt_payload := Some (take k payload @ replicate (k - length payload) (s5_junk e))\<rparr>\<rparr>, n)
             else Some (PAHOMQTT_ERR_NOMEM,
               c\<lparr>in_packet := packet__cleanup (p\<lparr>pkt_packet_length := k\<rparr>)\<rparr>, n))
   }"

definition read_request :: "'n socks5_env \<Rightarrow> Clients \<Rightarrow> 'n \<Rightarrow> (int \<times> Clients \<times> 'n) ub" where
  "read_request e c n =
     (if pkt_packet_length (in_packet c) = 5 then extend_reply e c n
      else do {
        version \<leftarrow> in_byte (in_packet c) 0;
        let c' = c\<lparr>in_packet := packet__cleanup (in_packet c)\<rparr>;
        if version \<noteq> 5 then Some (PAHOMQTT_ERR_PROXY, c', n)
        else do {
          rep \<leftarrow> in_byte (in_packet c) 1;
          if rep = 0 then Some (0, pahomqtt_set_socks5_state pahomqtt_cs_new c', n)
          else Some (reply_error rep, pahomqtt_set_socks5_state pahomqtt_cs_socks5_new c', n)
        }
      })"

definition socks5__read :: "'n socks5_env \<Rightarrow> Clients \<Rightarrow> 'n \<Rightarrow> (int \<times> Clients \<times> 'n) ub" where
  "socks5__read e aClient n =
     (let state = pahomqtt_get_socks5_state aClient
      in if state = pahomqtt_cs_socks5_start \<or> state = pahomqtt_cs_socks5_userpass_reply \<or>
            state = pahomqtt_cs_socks5_request
         then do {
           (ret, p, n') \<leftarrow> in_packet_loop e (in_packet aClient) n;
           let c = aClient\<lparr>in_packet := p\<rparr>;
           (case ret of
              Some rc \<Rightarrow> Some (rc, c, n')
            | None \<Rightarrow>
                if state = pahomqtt_cs_socks5_start then read_start e c n'
                else if state = pahomqtt_cs_socks5_userpass_reply then read_userpass_reply e c n'
                else read_request e c n')
         }
         else if state = pahomqtt_cs_new then Some (0, aClient, n)
         else Some (- 1, aClient, n))"


section \<open>The reading thread\<close>

text \<open>
  The thread's loop, one step for each evaluation of its condition and one for each call of
  \<open>socks5__read\<close>: after \<open>PAHOMQTT_ERR_NOT_FINISHED\<close> the call is repeated at once (\<open>goto AAA\<close>), after
  any other code the thread waits.  What the step observes of its surroundings is a record: whether
  the time is up, whether the client is being stopped and whether \<open>select\<close> reports the socket.
  The program counters carry the variable \<open>rc\<close>.
\<close>

record thread_tick =
  tick_elapsed :: bool
  tick_stop :: bool
  tick_ready :: bool

datatype thread_pc = Not_started | Thread_loop int | Thread_read int | Thread_done int

text \<open>The end of the thread: \<open>out_packet\<close> and \<open>out_packet_last\<close> are freed, each if it is not \<open>NULL\<close>;
  with a single packet in the queue the two are the same block.\<close>

definition thread_exit :: "int \<Rightarrow> Clients \<Rightarrow> (thread_pc \<times> Clients) ub" where
  "thread_exit rc c =
     (if length (out_packet c) = 1 then None else Some (Thread_done rc, c\<lparr>out_packet := []\<rparr>))"

definition thread_start :: "Clients \<Rightarrow> thread_pc" where
  "thread_start aClient = (if net_socket (net aClient) \<le> 0 then Thread_done (- 2) else Thread_loop 0)"

fun Socks5_ReadThread_step ::
  "'n socks5_env \<Rightarrow> thread_tick \<Rightarrow> thread_pc \<times> Clients \<times> 'n \<Rightarrow> (thread_pc \<times> Clients \<times> 'n) ub"
where
  "Socks5_ReadThread_step e t (Thread_loop rc, c, n) =
     (if pahomqtt_get_socks5_state c = pahomqtt_cs_new \<or> tick_stop t then
        map_option (\<lambda>(pc, c'). (pc, c', n)) (thread_exit rc c)
      else if tick_elapsed t then
        map_option (\<lambda>(pc, c'). (pc, c', n))
          (thread_exit (- 1) (pahomqtt_set_socks5_state pahomqtt_cs_error c))
      else if tick_ready t then Some (Thread_read rc, c, n)
      else Some (Thread_loop rc, c, n))"
| "Socks5_ReadThread_step e t (Thread_read _, c, n) =
     (case socks5__read e c n of
        None \<Rightarrow> None
      | Some (rc, c', n') \<Rightarrow>
          if pahomqtt_get_socks5_state c' = pahomqtt_cs_new then
            map_option (\<lambda>(pc, c''). (pc, c'', n')) (thread_exit rc c')
          else if rc = PAHOMQTT_ERR_NOT_FINISHED then Some (Thread_read rc, c', n')
          else Some (Thread_loop rc, c', n'))"
| "Socks5_ReadThread_step e t (pc, c, n) = Some (pc, c, n)"

section \<open>The caller\<close>

text \<open>\<open>WebSocket_socks5_proxy_connect\<close>: it starts the thread, sends the greeting and polls the state
  until the time is up or the thread has reached \<open>pahomqtt_cs_new\<close>.  An error sets \<open>rc\<close> but does not
  leave the loop.\<close>

datatype main_pc = Main_start | Main_send | Main_poll int | Main_done int

fun proxy_connect_poll :: "bool \<Rightarrow> int \<Rightarrow> Clients \<Rightarrow> main_pc \<times> Clients" where
  "proxy_connect_poll elapsed rc c =
     (if elapsed then (Main_done SOCKET_ERROR, pahomqtt_set_socks5_state pahomqtt_cs_error c)
      else if pahomqtt_get_socks5_state c = pahomqtt_cs_new then (Main_done 0, c)
      else if pahomqtt_get_socks5_state c = pahomqtt_cs_error then (Main_poll SOCKET_ERROR, c)
      else (Main_poll rc, c))"

text \<open>The two threads interleaved; each step is one call between the accesses to the shared state.\<close>

inductive proxy_connect_step ::
  "'n socks5_env \<Rightarrow> main_pc \<times> thread_pc \<times> Clients \<times> 'n \<Rightarrow> main_pc \<times> thread_pc \<times> Clients \<times> 'n \<Rightarrow> bool"
  for e
where
  start: "proxy_connect_step e (Main_start, Not_started, c, n)
     (Main_send, thread_start c, pahomqtt_set_socks5_state pahomqtt_cs_socks5_new c, n)"
| send: "socks5__send e c n = Some (rc, c', n') \<Longrightarrow>
     proxy_connect_step e (Main_send, pc, c, n) (Main_poll 0, pc, c', n')"
| poll: "proxy_connect_poll elapsed rc c = (m, c') \<Longrightarrow>
     proxy_connect_step e (Main_poll rc, pc, c, n) (m, pc, c', n)"
| thread: "Socks5_ReadThread_step e t (pc, c, n) = Some (pc', c', n') \<Longrightarrow> m \<noteq> Main_start \<Longrightarrow>
     proxy_connect_step e (m, pc, c, n) (m, pc', c', n')"

inductive_cases proxy_connect_stepE [elim!]: "proxy_connect_step e (m, pc, c, n) x"

section \<open>Connecting to the proxy\<close>

text \<open>
  \<open>MQTTSocks5Net.c\<close>.  What the system answers is an argument: \<open>getaddrinfo\<close> of a host gives an error
  or the list of its addresses, and each address comes with what the calls on it return: its
  family, the socket that \<open>socket\<close> makes for it, whether one of the local addresses can be bound,
  whether \<open>ioctlsocket\<close> can make the socket non-blocking, and the result and \<open>errno\<close> of \<open>connect\<close>.
\<close>

abbreviation (input) AF_INET :: nat where "AF_INET \<equiv> 2"
abbreviation (input) AF_INET6 :: nat where "AF_INET6 \<equiv> 23"
abbreviation (input) EINPROGRESS :: int where "EINPROGRESS \<equiv> 112"

record tcp_candidate =
  tc_family :: nat
  tc_socket :: int
  tc_bind_ok :: bool
  tc_nonblock_ok :: bool
  tc_connect :: "int \<times> int"

text \<open>\<open>net__socket_nonblock\<close>: the return code and the socket, closed after a failure.\<close>

definition net__socket_nonblock :: "tcp_candidate \<Rightarrow> int \<Rightarrow> int \<times> int" where
  "net__socket_nonblock rp sock =
     (if tc_nonblock_ok rp then (PAHOMQTT_ERR_SUCCESS, sock) else (PAHOMQTT_ERR_ERRNO, INVALID_SOCKET))"

fun try_addresses :: "bool \<Rightarrow> bool \<Rightarrow> tcp_candidate list \<Rightarrow> int \<times> int" where
  "try_addresses bind_address blocking [] = (PAHOMQTT_ERR_ERRNO, INVALID_SOCKET)"
| "try_addresses bind_address blocking (rp # rps) =
     (let next = try_addresses bind_address blocking rps
      in if tc_socket rp = INVALID_SOCKET then next
         else if tc_family rp \<noteq> AF_INET \<and> tc_family rp \<noteq> AF_INET6 then next
         else if bind_address \<and> \<not> tc_bind_ok rp then next
         else if \<not> blocking \<and> fst (net__socket_nonblock rp (tc_socket rp)) \<noteq> 0 then next
         else
           (case tc_connect rp of (rc, errno) \<Rightarrow>
              if rc = 0 \<or> errno = EINPROGRESS \<or> errno = COMPAT_EWOULDBLOCK then
                if blocking \<and> fst (net__socket_nonblock rp (tc_socket rp)) \<noteq> 0 then next
                else (if rc < 0 then PAHOMQTT_ERR_CONN_PENDING else rc, tc_socket rp)
              else next))"

definition net__try_connect_tcp ::
  "(bytes \<Rightarrow> int + tcp_candidate list) \<Rightarrow> bytes \<Rightarrow> nat \<Rightarrow> bytes option \<Rightarrow> bool \<Rightarrow> int \<times> int"
where
  "net__try_connect_tcp getaddrinfo host port bind_address blocking =
     (case getaddrinfo host of
        Inl err \<Rightarrow> (PAHOMQTT_ERR_EAI, INVALID_SOCKET)
      | Inr ainfo \<Rightarrow>
          (case bind_address of
             None \<Rightarrow> try_addresses False blocking ainfo
           | Some b \<Rightarrow>
               (case getaddrinfo b of
                  Inl err \<Rightarrow> (PAHOMQTT_ERR_EAI, INVALID_SOCKET)
                | Inr _ \<Rightarrow> try_addresses True blocking ainfo)))"

definition net__try_connect ::
  "(bytes \<Rightarrow> int + tcp_candidate list) \<Rightarrow> bytes \<Rightarrow> nat \<Rightarrow> bytes option \<Rightarrow> bool \<Rightarrow> int \<times> int"
where
  "net__try_connect getaddrinfo host port bind_address blocking =
     (if port = 0 then (PAHOMQTT_ERR_NOT_SUPPORTED, INVALID_SOCKET)
      else net__try_connect_tcp getaddrinfo host port bind_address blocking)"

definition net__socket_connect ::
  "(bytes \<Rightarrow> int + tcp_candidate list) \<Rightarrow> Clients \<Rightarrow> bytes option \<Rightarrow> nat \<Rightarrow> bool \<Rightarrow> int \<times> Clients"
where
  "net__socket_connect getaddrinfo aClient host port blocking =
     (case host of
        None \<Rightarrow> (PAHOMQTT_ERR_INVAL, aClient)
      | Some h \<Rightarrow>
          (case net__try_connect getaddrinfo h port None blocking of (rc, sock) \<Rightarrow>
             if 0 < rc then (rc, aClient)
             else (rc, aClient\<lparr>net := (net aClient)\<lparr>net_socket := sock\<rparr>\<rparr>)))"

definition socks5_reconnect ::
  "(bytes \<Rightarrow> int + tcp_candidate list) \<Rightarrow> Clients \<Rightarrow> bool \<Rightarrow> int \<times> Clients"
where
  "socks5_reconnect getaddrinfo aClient blocking =
     (case (if socks5_host aClient \<noteq> None
            then net__socket_connect getaddrinfo aClient (socks5_host aClient) (socks5_port aClient) blocking
            else (- 1, aClient)) of (rc, c) \<Rightarrow>
        if 0 < rc then (rc, pahomqtt_set_socks5_state pahomqtt_cs_connect_pending c) else (rc, c))"

text \<open>\<open>socks5_connect\<close> does not use the host, port and keep-alive it is given.\<close>

definition socks5_connect :: "(bytes \<Rightarrow> int + tcp_candidate list) \<Rightarrow> Clients \<Rightarrow> int \<times> Clients" where
  "socks5_connect getaddrinfo aClient = socks5_reconnect getaddrinfo aClient True"

end
