(* ===== verification/Socks5Stream.thy ===== *)
theory Socks5Stream
  imports Socks5
begin

text \<open>
  The messages the client sends and the loops over \<open>recv\<close> and \<open>send\<close>, on a reliable byte stream
  that cuts the bytes into pieces and fails calls in any way.
\<close>

section \<open>What is sent\<close>

text \<open>The messages of RFC 1928 and RFC 1929 for a client: the greeting, the sub-negotiation and the
  request to connect to port 1883.\<close>

definition rfc_greeting :: "Clients \<Rightarrow> bytes" where
  "rfc_greeting c = (if socks5_username c \<noteq> None then [5, 2, 0, 2] else [5, 1, 0])"

definition rfc_string :: "bytes \<Rightarrow> bytes" where
  "rfc_string s = of_nat (length s) # s"

definition rfc_userpass :: "Clients \<Rightarrow> bytes" where
  "rfc_userpass c = [1] @ rfc_string (the (socks5_username c)) @ rfc_string (the (socks5_password c))"

definition rfc_address :: "'n socks5_env \<Rightarrow> bytes \<Rightarrow> bytes" where
  "rfc_address e uri =
     (case s5_pton4 e uri of
        Some a \<Rightarrow> 1 # a
      | None \<Rightarrow> (case s5_pton6 e uri of Some a \<Rightarrow> 4 # a | None \<Rightarrow> 3 # rfc_string uri))"

definition rfc_connect :: "'n socks5_env \<Rightarrow> Clients \<Rightarrow> bytes" where
  "rfc_connect e c = [5, 1, 0] @ rfc_address e (serverURI c) @ be_bytes 2 1883"

text \<open>What the surroundings promise: \<open>inet_pton\<close> gives 4 and 16 bytes.\<close>

definition pton_ok :: "'n socks5_env \<Rightarrow> bool" where
  "pton_ok e \<longleftrightarrow> (\<forall>u a. s5_pton4 e u = Some a \<longrightarrow> length a = 4) \<and>
                  (\<forall>u a. s5_pton6 e u = Some a \<longrightarrow> length a = 16)"

lemma store_all_Nil [simp]: "store_all [] buf = Some buf"
  by (simp add: store_all_def)

lemma store_all_None: "foldl (\<lambda>b (i, bs). Option.bind b (\<lambda>b. memcpy_at b i bs)) None ws = None"
  by (induction ws) auto

lemma store_all_Cons [simp]:
  "store_all ((i, bs) # ws) buf = Option.bind (memcpy_at buf i bs) (store_all ws)"
  by (cases "memcpy_at buf i bs") (simp_all add: store_all_def store_all_None)

text \<open>Stores that follow each other fill a buffer from its start, whatever it held.\<close>

lemma memcpy_at_split:
  "length bs + length post = length (drop i buf) \<Longrightarrow> i \<le> length buf \<Longrightarrow>
   memcpy_at buf i bs = Some (take i buf @ bs @ drop (i + length bs) buf)"
  by (simp add: memcpy_at_def)

lemma greeting_payload:
  "store_all [(0, [5]), (1, [2]), (2, [0]), (3, [2])] (replicate 4 j) = Some [5, 2, 0, 2]"
  "store_all [(0, [5]), (1, [1]), (2, [0])] (replicate 3 j) = Some [5, 1, 0]"
  by (simp_all add: memcpy_at_def numeral_eq_Suc)

lemma memcpy_replicate:
  "i = length pre \<Longrightarrow> length bs \<le> k \<Longrightarrow>
   memcpy_at (pre @ replicate k j) i bs = Some (pre @ bs @ replicate (k - length bs) j)"
  by (auto simp: memcpy_at_def)

lemma memcpy_prefix:
  "i + length bs \<le> length pre \<Longrightarrow>
   memcpy_at (pre @ rest) i bs = Some (take i pre @ bs @ drop (i + length bs) pre @ rest)"
  by (simp add: memcpy_at_def)

lemma userpass_payload:
  "store_all [(0, [1]), (1, [of_nat (length u)]), (2, u), (2 + length u, [of_nat (length p)]),
      (3 + length u, p)] (replicate (3 + length u + length p) j)
   = Some ([1] @ rfc_string u @ rfc_string p)"
proof -
  let ?n = "3 + length u + length p"
  have 0: "memcpy_at (replicate ?n j) 0 [1] = Some ([1] @ replicate (?n - 1) j)"
    using memcpy_replicate [of 0 "[]" "[1]" ?n j] by simp
  have 1: "memcpy_at ([1] @ replicate (?n - 1) j) 1 [of_nat (length u)]
    = Some ([1, of_nat (length u)] @ replicate (?n - 2) j)"
    by (subst memcpy_replicate) simp_all
  have 2: "memcpy_at ([1, of_nat (length u)] @ replicate (?n - 2) j) 2 u
    = Some (([1] @ rfc_string u) @ replicate (1 + length p) j)"
    by (subst memcpy_replicate) (simp_all add: rfc_string_def)
  have 3: "memcpy_at (([1] @ rfc_string u) @ replicate (1 + length p) j) (2 + length u) [of_nat (length p)]
    = Some (([1] @ rfc_string u @ [of_nat (length p)]) @ replicate (length p) j)"
    by (subst memcpy_replicate) (simp_all add: rfc_string_def)
  have 4: "memcpy_at (([1] @ rfc_string u @ [of_nat (length p)]) @ replicate (length p) j) (3 + length u) p
    = Some ([1] @ rfc_string u @ rfc_string p)"
    by (subst memcpy_replicate) (simp_all add: rfc_string_def)
  show ?thesis by (simp only: store_all_Cons store_all_Nil 0 1 2 3 4 Option.bind.bind_lunit)
qed

lemma store_all_merge:
  "i + length bs = k \<Longrightarrow> store_all ((i, bs) # (k, cs) # ws) buf = store_all ((i, bs @ cs) # ws) buf"
  by (auto simp: memcpy_at_def ac_simps)

lemma request_payload:
  assumes "length tag = k" "length port = 2"
  shows "store_all ([(3, tag), (3 + k, port)] @ [(0, [5]), (1, [1]), (2, [0])]) (replicate (5 + k) j)
    = Some ([5, 1, 0] @ tag @ port)"
proof -
  have 1: "memcpy_at (replicate (5 + k) j) 3 tag = Some ((replicate 3 j @ tag) @ replicate 2 j)"
    by (simp add: memcpy_at_def assms)
  have 2: "memcpy_at ((replicate 3 j @ tag) @ replicate 2 j) (3 + k) port = Some (replicate 3 j @ tag @ port)"
    by (subst memcpy_replicate) (simp_all add: assms)
  show ?thesis
    by (simp add: 1 2 del: append_assoc) (simp add: memcpy_at_def numeral_eq_Suc)
qed


section \<open>A byte stream\<close>

text \<open>
  The connection to the proxy as a reliable byte stream: the bytes still to come, the bytes received
  and sent so far, and what each further system call does.  \<open>Move k\<close> moves at most \<open>k\<close> bytes (none
  is \<open>WSAEWOULDBLOCK\<close>), \<open>Fail err\<close> fails with an error number; when no entry is left every call would
  block.  Any behaviour of the two calls on a connection is such a list.
\<close>

datatype move = Move nat | Fail int

record stream =
  st_in :: bytes
  st_got :: bytes
  st_sent :: bytes
  st_moves :: "move list"

definition stream_recv :: "nat \<Rightarrow> stream \<Rightarrow> (bytes \<times> int) \<times> stream" where
  "stream_recv count s =
     (case st_moves s of
        [] \<Rightarrow> (([], COMPAT_EWOULDBLOCK), s)
      | Move k # ms \<Rightarrow>
          (let m = min (min k count) (length (st_in s))
           in ((take m (st_in s), COMPAT_EWOULDBLOCK),
               s\<lparr>st_in := drop m (st_in s), st_got := st_got s @ take m (st_in s), st_moves := ms\<rparr>))
      | Fail err # ms \<Rightarrow> (([], err), s\<lparr>st_moves := ms\<rparr>))"

definition stream_send :: "bytes \<Rightarrow> stream \<Rightarrow> (nat \<times> int) \<times> stream" where
  "stream_send buf s =
     (case st_moves s of
        [] \<Rightarrow> ((0, COMPAT_EWOULDBLOCK), s)
      | Move k # ms \<Rightarrow>
          (let m = min k (length buf)
           in ((m, COMPAT_EWOULDBLOCK), s\<lparr>st_sent := st_sent s @ take m buf, st_moves := ms\<rparr>))
      | Fail err # ms \<Rightarrow> ((0, err), s\<lparr>st_moves := ms\<rparr>))"

definition on_stream :: "stream socks5_env \<Rightarrow> bool" where
  "on_stream e \<longleftrightarrow> s5_recv e = stream_recv \<and> s5_send e = stream_send"

lemma net__read_stream:
  assumes "on_stream e"
  obtains bs err ms where "net__read e count s = Some ((bs, err),
      s\<lparr>st_in := drop (length bs) (st_in s), st_got := st_got s @ bs, st_moves := ms\<rparr>)"
    "length bs \<le> count" "bs = take (length bs) (st_in s)"
  using assms
  by (cases s; cases "st_moves s"; cases "hd (st_moves s)")
    (auto simp: net__read_def on_stream_def stream_recv_def Let_def)

lemma net__write_stream:
  assumes "on_stream e"
  obtains k err ms where "net__write e buf s = Some ((k, err),
      s\<lparr>st_sent := st_sent s @ take k buf, st_moves := ms\<rparr>)" "k \<le> length buf"
  using assms
  by (cases s; cases "st_moves s"; cases "hd (st_moves s)")
    (auto simp: net__write_def on_stream_def stream_send_def Let_def)

text \<open>An outgoing packet and the bytes of it that are not sent yet.\<close>

definition out_ok :: "pahomqtt_socks5_packet \<Rightarrow> bool" where
  "out_ok p \<longleftrightarrow> (\<exists>payload. pkt_payload p = Some payload \<and> pkt_pos p + pkt_to_process p = length payload)"

definition unsent :: "pahomqtt_socks5_packet \<Rightarrow> bytes" where
  "unsent p = (case pkt_payload p of None \<Rightarrow> [] | Some payload \<Rightarrow> drop (pkt_pos p) payload)"

lemma packet_write_loop_stream:
  assumes "on_stream e" "out_ok p"
  shows "\<exists>ret p' s'. packet_write_loop e p s = Some (ret, p', s') \<and> out_ok p' \<and>
     st_sent s' @ unsent p' = st_sent s @ unsent p \<and> st_got s' = st_got s \<and> st_in s' = st_in s \<and>
     (ret = None \<longrightarrow> unsent p' = [])"
  using assms(2)
proof (induction "pkt_to_process p" arbitrary: p s rule: less_induct)
  case less
  from less.prems obtain payload where
    p: "pkt_payload p = Some payload" "pkt_pos p + pkt_to_process p = length payload"
    by (auto simp: out_ok_def)
  show ?case
  proof (cases "pkt_to_process p = 0")
    case True
    with less.prems p show ?thesis by (subst packet_write_loop.simps) (simp add: unsent_def)
  next
    case False
    let ?buf = "take (pkt_to_process p) (drop (pkt_pos p) payload)"
    have buf: "?buf = drop (pkt_pos p) payload" using p by simp
    obtain k err ms where w: "net__write e ?buf s = Some ((k, err),
        s\<lparr>st_sent := st_sent s @ take k ?buf, st_moves := ms\<rparr>)" and k: "k \<le> length ?buf"
      using net__write_stream [OF assms(1)] by metis
    show ?thesis
    proof (cases "k = 0")
      case True
      with p False w less.prems show ?thesis
        by (subst packet_write_loop.simps) (simp add: buf)
    next
      case k0: False
      let ?p = "p\<lparr>pkt_to_process := pkt_to_process p - k, pkt_pos := pkt_pos p + k\<rparr>"
      let ?s = "s\<lparr>st_sent := st_sent s @ take k ?buf, st_moves := ms\<rparr>"
      have ok: "out_ok ?p" using p k by (simp add: out_ok_def)
      have step: "packet_write_loop e p s = packet_write_loop e ?p ?s"
        using p False w k0 by (subst packet_write_loop.simps) simp
      have bytes: "st_sent ?s @ unsent ?p = st_sent s @ unsent p"
        using p by (simp add: unsent_def buf take_drop [symmetric] add.commute)
          (metis append_take_drop_id drop_drop)
      from less.hyps [of ?p ?s, OF _ ok] False k0 obtain ret p' s' where
        "packet_write_loop e ?p ?s = Some (ret, p', s')" "out_ok p'"
        "st_sent s' @ unsent p' = st_sent ?s @ unsent ?p" "st_got s' = st_got s" "st_in s' = st_in s"
        "ret = None \<longrightarrow> unsent p' = []" by auto
      then show ?thesis unfolding step using bytes by auto
    qed
  qed
qed

definition pending :: "pahomqtt_socks5_packet list \<Rightarrow> bytes" where
  "pending q = concat (map unsent q)"

lemma packet_queue_loop_stream:
  assumes "on_stream e"
  shows "list_all out_ok q \<Longrightarrow>
   \<exists>rc q' s'. packet_queue_loop e q s = Some (rc, q', s') \<and> list_all out_ok q' \<and>
     st_sent s' @ pending q' = st_sent s @ pending q \<and> st_got s' = st_got s \<and> st_in s' = st_in s"
proof (induction q arbitrary: s)
  case (Cons p q)
  from packet_write_loop_stream [OF assms, of p s] Cons.prems obtain ret p' s1 where
    w: "packet_write_loop e p s = Some (ret, p', s1)" "out_ok p'"
    "st_sent s1 @ unsent p' = st_sent s @ unsent p" "st_got s1 = st_got s" "st_in s1 = st_in s"
    "ret = None \<longrightarrow> unsent p' = []" by auto
  show ?case
  proof (cases ret)
    case None
    with Cons.IH [of s1] Cons.prems obtain rc q' s' where
      "packet_queue_loop e q s1 = Some (rc, q', s')" "list_all out_ok q'"
      "st_sent s' @ pending q' = st_sent s1 @ pending q" "st_got s' = st_got s1" "st_in s' = st_in s1"
      by auto
    with None w show ?thesis by (auto simp: pending_def)
  next
    case (Some rc)
    with w Cons.prems show ?thesis by (auto simp: pending_def)
  qed
qed (simp add: pending_def)

end
