(* ===== verification/Socks5Handshake.thy ===== *)
theory Socks5Handshake
  imports Socks5Stream
begin

text \<open>
  The invariant of the SOCKS5 handshake: what has been received and sent in each state of the client,
  kept by \<open>socks5__send\<close>, \<open>socks5__read\<close> and every interleaved step of the two threads.
\<close>

section \<open>The invariant of the handshake\<close>

text \<open>An incoming packet whose block has the length that is expected, and the part that is there.\<close>

definition in_ok :: "pahomqtt_socks5_packet \<Rightarrow> bool" where
  "in_ok p \<longleftrightarrow> (\<exists>payload. pkt_payload p = Some payload \<and> length payload = pkt_packet_length p \<and>
                 pkt_pos p + pkt_to_process p = pkt_packet_length p)"

definition filled :: "pahomqtt_socks5_packet \<Rightarrow> bytes" where
  "filled p = (case pkt_payload p of None \<Rightarrow> [] | Some payload \<Rightarrow> take (pkt_pos p) payload)"

definition in_dead :: "pahomqtt_socks5_packet \<Rightarrow> bool" where
  "in_dead p \<longleftrightarrow> pkt_payload p = None"

lemma in_dead_cleanup [simp]: "in_dead (packet__cleanup p)"
  by (simp add: in_dead_def packet__cleanup_def)

lemma length_filled: "in_ok p \<Longrightarrow> length (filled p) = pkt_pos p"
  by (auto simp: in_ok_def filled_def)

lemma in_packet_loop_stream:
  assumes "on_stream e" "in_ok p"
  shows "\<exists>ret p' s' bs. in_packet_loop e p s = Some (ret, p', s') \<and>
     st_sent s' = st_sent s \<and> st_got s' = st_got s @ bs \<and> st_in s = bs @ st_in s' \<and>
     (in_dead p' \<and> ret \<noteq> None \<or>
      in_ok p' \<and> filled p' = filled p @ bs \<and> pkt_packet_length p' = pkt_packet_length p \<and>
      (ret = None \<longrightarrow> pkt_to_process p' = 0))"
  using assms(2)
proof (induction "pkt_to_process p" arbitrary: p s rule: less_induct)
  case less
  from less.prems obtain payload where
    p: "pkt_payload p = Some payload" "length payload = pkt_packet_length p"
    "pkt_pos p + pkt_to_process p = pkt_packet_length p" by (auto simp: in_ok_def)
  show ?case
  proof (cases "pkt_to_process p = 0")
    case True
    with less.prems show ?thesis by (subst in_packet_loop.simps) simp
  next
    case False
    obtain bs err ms where r: "net__read e (pkt_to_process p) s = Some ((bs, err),
        s\<lparr>st_in := drop (length bs) (st_in s), st_got := st_got s @ bs, st_moves := ms\<rparr>)"
      and bs: "length bs \<le> pkt_to_process p" "bs = take (length bs) (st_in s)"
      using net__read_stream [OF assms(1)] by metis
    show ?thesis
    proof (cases "bs = []")
      case True
      with False r less.prems show ?thesis by (subst in_packet_loop.simps) auto
    next
      case bs0: False
      let ?payload = "take (pkt_pos p) payload @ bs @ drop (pkt_pos p + length bs) payload"
      let ?p = "p\<lparr>pkt_payload := Some ?payload, pkt_pos := pkt_pos p + length bs,
                 pkt_to_process := pkt_to_process p - length bs\<rparr>"
      let ?s = "s\<lparr>st_in := drop (length bs) (st_in s), st_got := st_got s @ bs, st_moves := ms\<rparr>"
      have m: "memcpy_at payload (pkt_pos p) bs = Some ?payload"
        using p bs(1) by (simp add: memcpy_at_def)
      have ok: "in_ok ?p" "filled ?p = filled p @ bs"
        using p bs(1) by (auto simp: in_ok_def filled_def)
      have step: "in_packet_loop e p s = in_packet_loop e ?p ?s"
        using False r bs0 p m by (subst in_packet_loop.simps) simp
      have "pkt_to_process ?p < pkt_to_process p" using bs0 False bs(1) by simp
      from less.hyps [OF this ok(1), of ?s] obtain ret p' s' bs' where
        l: "in_packet_loop e ?p ?s = Some (ret, p', s')" "st_sent s' = st_sent s"
        "st_got s' = st_got s @ bs @ bs'" "drop (length bs) (st_in s) = bs' @ st_in s'"
        "in_dead p' \<and> ret \<noteq> None \<or> in_ok p' \<and> filled p' = (filled p @ bs) @ bs' \<and>
         pkt_packet_length p' = pkt_packet_length p \<and> (ret = None \<longrightarrow> pkt_to_process p' = 0)"
        unfolding ok(2) by auto
      have "st_in s = (bs @ bs') @ st_in s'"
        using l(4) bs(2) by (metis append_take_drop_id append.assoc)
      with l show ?thesis unfolding step
        by (intro exI [of _ ret] exI [of _ p'] exI [of _ s'] exI [of _ "bs @ bs'"]) auto
    qed
  qed
qed

text \<open>Through \<open>NULL\<close> nothing can be received.\<close>

lemma in_packet_loop_dead:
  assumes "on_stream e" "in_dead p" "in_packet_loop e p s = Some (ret, p', s')"
  shows "in_dead p' \<and> st_sent s' = st_sent s \<and> st_got s' = st_got s \<and>
    (ret = None \<longrightarrow> pkt_to_process p = 0)"
proof (cases "pkt_to_process p = 0")
  case False
  obtain bs err ms where r: "net__read e (pkt_to_process p) s = Some ((bs, err),
      s\<lparr>st_in := drop (length bs) (st_in s), st_got := st_got s @ bs, st_moves := ms\<rparr>)"
    using net__read_stream [OF assms(1)] by metis
  with False assms(2,3) show ?thesis
    by (subst (asm) in_packet_loop.simps) (auto simp: in_dead_def packet__cleanup_def split: if_splits)
next
  case True
  with assms(2,3) show ?thesis by (subst (asm) in_packet_loop.simps) simp
qed

text \<open>What the phases say: the negotiation that precedes the request, and the length of a reply
  according to its first five bytes, as the code computes it.\<close>

definition negotiated :: "Clients \<Rightarrow> bytes \<Rightarrow> bytes \<Rightarrow> bool" where
  "negotiated c got out \<longleftrightarrow>
     got = [5, 0] \<and> out = rfc_greeting c \<or>
     got = [5, 2, 1, 0] \<and> out = rfc_greeting c @ rfc_userpass c"

definition reply_length :: "bytes \<Rightarrow> nat option" where
  "reply_length r =
     (if length r < 5 then None else if r ! 3 = 1 then Some 10 else if r ! 3 = 4 then Some 22
      else if r ! 3 = 3 then Some (5 + unat (r ! 4)) else None)"

definition accepted_reply :: "bytes \<Rightarrow> bool" where
  "accepted_reply r \<longleftrightarrow> reply_length r = Some (length r) \<and> r ! 0 = 5 \<and> r ! 1 = 0"

definition request_shape :: "pahomqtt_socks5_packet \<Rightarrow> bool" where
  "request_shape p \<longleftrightarrow> pkt_packet_length p = 5 \<or> reply_length (filled p) = Some (pkt_packet_length p)"

lemma reply_length_append: "reply_length r = Some n \<Longrightarrow> reply_length (r @ bs) = Some n"
  by (auto simp: reply_length_def nth_append split: if_splits)

definition out_bytes :: "Clients \<Rightarrow> stream \<Rightarrow> bytes" where
  "out_bytes c s = st_sent s @ pending (out_packet c)"

definition hs_inv :: "stream socks5_env \<Rightarrow> Clients \<Rightarrow> stream \<Rightarrow> bool" where
  "hs_inv e c s \<longleftrightarrow> list_all out_ok (out_packet c) \<and>
     (case socks5State c of
        pahomqtt_cs_socks5_start \<Rightarrow>
          in_dead (in_packet c) \<or> in_ok (in_packet c) \<and> pkt_packet_length (in_packet c) = 2 \<and> st_got s = filled (in_packet c) \<and>
            out_bytes c s = rfc_greeting c
      | pahomqtt_cs_socks5_userpass_reply \<Rightarrow>
          in_dead (in_packet c) \<or> in_ok (in_packet c) \<and> pkt_packet_length (in_packet c) = 2 \<and> st_got s = [5, 2] @ filled (in_packet c) \<and>
            out_bytes c s = rfc_greeting c @ rfc_userpass c
      | pahomqtt_cs_socks5_request \<Rightarrow>
          in_dead (in_packet c) \<or> in_ok (in_packet c) \<and> request_shape (in_packet c) \<and>
            (\<exists>g out. negotiated c g out \<and> st_got s = g @ filled (in_packet c) \<and> out_bytes c s = out @ rfc_connect e c)
      | pahomqtt_cs_new \<Rightarrow>
          (\<exists>g out r. negotiated c g out \<and> st_got s = g @ r \<and> accepted_reply r \<and>
             out_bytes c s = out @ rfc_connect e c)
      | _ \<Rightarrow> True)"

text \<open>The part of a client the messages are made of.\<close>

definition same_config :: "Clients \<Rightarrow> Clients \<Rightarrow> bool" where
  "same_config c c' \<longleftrightarrow> socks5_username c' = socks5_username c \<and>
     socks5_password c' = socks5_password c \<and> serverURI c' = serverURI c \<and> net c' = net c"

lemma same_config_messages:
  assumes "same_config c c'"
  shows "rfc_greeting c' = rfc_greeting c" "rfc_userpass c' = rfc_userpass c"
    "rfc_connect e c' = rfc_connect e c" "negotiated c' = negotiated c"
  using assms by (auto simp: same_config_def rfc_greeting_def rfc_userpass_def rfc_connect_def
      negotiated_def fun_eq_iff)

definition credentials_ok :: "Clients \<Rightarrow> bool" where
  "credentials_ok c \<longleftrightarrow> (\<forall>u. socks5_username c = Some u \<longrightarrow> length u \<le> 255) \<and>
     (\<forall>p. socks5_password c = Some p \<longrightarrow> length p \<le> 255)"

lemma packet__queue_stream:
  assumes "on_stream e" "list_all out_ok (out_packet c)"
    "pkt_payload p = Some msg" "pkt_packet_length p = length msg"
  obtains rc q s' where "packet__queue e p c s = Some (rc, c\<lparr>out_packet := q\<rparr>, s')"
    "list_all out_ok q" "st_sent s' @ pending q = out_bytes c s @ msg" "st_got s' = st_got s"
    "st_in s' = st_in s"
proof -
  let ?p = "p\<lparr>pkt_pos := 0, pkt_to_process := pkt_packet_length p\<rparr>"
  let ?q = "out_packet c @ [?p]"
  have ok: "list_all out_ok ?q" "pending ?q = pending (out_packet c) @ msg"
    using assms by (simp_all add: out_ok_def pending_def unsent_def)
  from packet_queue_loop_stream [OF assms(1) ok(1), of s] obtain rc q s' where
    "packet_queue_loop e ?q s = Some (rc, q, s')" "list_all out_ok q"
    "st_sent s' @ pending q = st_sent s @ pending ?q" "st_got s' = st_got s" "st_in s' = st_in s"
    by auto
  note loop = this
  show thesis
  proof (cases "net_socket (net c) = - 1 \<or> socks5State c = pahomqtt_cs_new")
    case True
    then obtain rc where "packet__queue e p c s = Some (rc, c\<lparr>out_packet := ?q\<rparr>, s)"
      by (cases "net_socket (net c) = - 1")
        (simp_all add: packet__queue_def packet__write_def pahomqtt_get_socks5_state_def)
    then show thesis by (rule that) (use ok in \<open>simp_all add: out_bytes_def\<close>)
  next
    case False
    then have "packet__queue e p c s = Some (rc, c\<lparr>out_packet := q\<rparr>, s')"
      using loop(1) by (simp add: packet__queue_def packet__write_def pahomqtt_get_socks5_state_def
          del: bind_Some_iff)
    then show thesis by (rule that) (use ok loop in \<open>simp_all add: out_bytes_def\<close>)
  qed
qed

text \<open>The end of every branch of \<open>socks5__send\<close>.\<close>

lemma expect_reply_stream:
  assumes "on_stream e" "list_all out_ok (out_packet c)"
    "pkt_payload p = Some msg" "pkt_packet_length p = length msg" "expect_reply e k p c s = Some (rc, c', s')"
  shows "same_config c c'" "list_all out_ok (out_packet c')" "st_got s' = st_got s"
    "socks5State c' = socks5State c"
    "in_dead (in_packet c') \<or> in_ok (in_packet c') \<and> pkt_packet_length (in_packet c') = k \<and>
       filled (in_packet c') = [] \<and> out_bytes c' s' = out_bytes c s @ msg"
proof -
  let ?c = "c\<lparr>in_packet := (in_packet c)\<lparr>pkt_pos := 0, pkt_packet_length := k,
                        pkt_to_process := k, pkt_payload := malloc_bytes e k\<rparr>\<rparr>"
  obtain rc2 q s2 where q: "packet__queue e p ?c s = Some (rc2, ?c\<lparr>out_packet := q\<rparr>, s2)"
    "list_all out_ok q" "st_sent s2 @ pending q = out_bytes ?c s @ msg" "st_got s2 = st_got s"
    by (rule packet__queue_stream [OF assms(1) _ assms(3,4), of ?c s]) (use assms(2) in simp)
  have out: "out_bytes ?c s = out_bytes c s" by (simp add: out_bytes_def)
  have "same_config c c' \<and> list_all out_ok (out_packet c') \<and> st_got s' = st_got s \<and>
    socks5State c' = socks5State c \<and> (in_dead (in_packet c') \<or> in_ok (in_packet c') \<and>
      pkt_packet_length (in_packet c') = k \<and> filled (in_packet c') = [] \<and>
      out_bytes c' s' = out_bytes c s @ msg)"
  proof (cases "s5_alloc e (Bytes k)")
    case True
    then have "c' = ?c\<lparr>out_packet := q\<rparr>" "s' = s2"
      using assms(5) q(1) by (simp_all add: expect_reply_def malloc_bytes_def)
    then show ?thesis using True q out
      by (simp add: in_ok_def filled_def same_config_def malloc_bytes_def out_bytes_def)
  next
    case False
    then have "c' = ?c" "s' = s"
      using assms(5) by (simp_all add: expect_reply_def malloc_bytes_def)
    then show ?thesis using False assms(2) by (simp add: in_dead_def same_config_def malloc_bytes_def)
  qed
  then show "same_config c c'" "list_all out_ok (out_packet c')" "st_got s' = st_got s"
    "socks5State c' = socks5State c"
    "in_dead (in_packet c') \<or> in_ok (in_packet c') \<and> pkt_packet_length (in_packet c') = k \<and>
       filled (in_packet c') = [] \<and> out_bytes c' s' = out_bytes c s @ msg"
    by simp_all
qed

section \<open>Every call keeps the invariant\<close>

lemma same_config_trans: "same_config c d \<Longrightarrow> same_config d f \<Longrightarrow> same_config c f"
  by (simp add: same_config_def)

lemma same_config_set [simp]:
  "same_config c (pahomqtt_set_socks5_state st c)" "same_config c (c\<lparr>in_packet := p\<rparr>)"
  "same_config c (c\<lparr>out_packet := q\<rparr>)" "same_config c c"
  "same_config c (pahomqtt_set_socks5_state st c\<lparr>out_packet := q\<rparr>)"
  by (simp_all add: same_config_def pahomqtt_set_socks5_state_def)

lemma set_state_fields [simp]:
  "socks5State (pahomqtt_set_socks5_state st c) = st"
  "in_packet (pahomqtt_set_socks5_state st c) = in_packet c"
  "out_packet (pahomqtt_set_socks5_state st c) = out_packet c"
  "socks5_username (pahomqtt_set_socks5_state st c) = socks5_username c"
  "socks5_password (pahomqtt_set_socks5_state st c) = socks5_password c"
  "serverURI (pahomqtt_set_socks5_state st c) = serverURI c"
  "net (pahomqtt_set_socks5_state st c) = net c"
  "out_bytes (pahomqtt_set_socks5_state st c) s = out_bytes c s"
  "out_bytes (c\<lparr>in_packet := p\<rparr>) s = out_bytes c s"
  by (simp_all add: pahomqtt_set_socks5_state_def out_bytes_def)

lemmas frame_messages [simp] =
  same_config_messages [OF same_config_set(1)] same_config_messages [OF same_config_set(2)]
  same_config_messages [OF same_config_set(3)]

lemma send_greeting_inv:
  assumes "on_stream e" "list_all out_ok (out_packet c)" "send_greeting e c s = Some (rc, c', s')"
    "st_got s = []" "out_bytes c s = []"
  shows "hs_inv e c' s' \<and> same_config c c' \<and> socks5State c' = pahomqtt_cs_socks5_start"
proof -
  let ?c = "pahomqtt_set_socks5_state pahomqtt_cs_socks5_start c"
  obtain p where p: "expect_reply e 2 p ?c s = Some (rc, c', s')"
    "pkt_payload p = Some (rfc_greeting c)" "pkt_packet_length p = length (rfc_greeting c)"
  proof (cases "socks5_username c = None")
    case True
    with assms(3) show thesis
      by (intro that [of "empty_packet\<lparr>pkt_packet_length := 3, pkt_payload := Some [5, 1, 0]\<rparr>"])
        (auto simp: send_greeting_def malloc_bytes_def rfc_greeting_def greeting_payload [unfolded One_nat_def]
          simp del: store_all_Cons bind_Some_iff split: if_splits)
  next
    case False
    with assms(3) show thesis
      by (intro that [of "empty_packet\<lparr>pkt_packet_length := 4, pkt_payload := Some [5, 2, 0, 2]\<rparr>"])
        (auto simp: send_greeting_def malloc_bytes_def rfc_greeting_def greeting_payload [unfolded One_nat_def]
          simp del: store_all_Cons bind_Some_iff split: if_splits)
  qed
  note r = expect_reply_stream [OF assms(1) _ p(2,3,1)]
  have "same_config c c'" using r(1) assms(2) same_config_trans [of c ?c c'] by simp
  with r assms show ?thesis
    by (auto simp: hs_inv_def same_config_messages [OF \<open>same_config c c'\<close>])
qed

lemma send_userpass_inv:
  assumes "on_stream e" "list_all out_ok (out_packet c)" "send_userpass e c s = Some (rc, c', s')"
    "credentials_ok c" "st_got s = [5, 2]" "out_bytes c s = rfc_greeting c"
  shows "hs_inv e c' s' \<and> same_config c c'"
proof -
  let ?c = "pahomqtt_set_socks5_state pahomqtt_cs_socks5_userpass_reply c"
  obtain u pw where c: "socks5_username c = Some u" "socks5_password c = Some pw"
    using assms(3) by (auto simp: send_userpass_def)
  have len: "length u mod 256 = length u" "length pw mod 256 = length pw"
    using assms(4) c by (auto simp: credentials_ok_def)
  let ?p = "empty_packet\<lparr>pkt_packet_length := 3 + length u + length pw, pkt_payload := Some (rfc_userpass c)\<rparr>"
  have p: "expect_reply e 2 ?p ?c s = Some (rc, c', s')"
    using assms(3) userpass_payload [of u pw "s5_junk e"]
    by (auto simp: send_userpass_def c len malloc_bytes_def rfc_userpass_def Let_def
        simp del: store_all_Cons bind_Some_iff split: if_splits)
  have "pkt_packet_length ?p = length (rfc_userpass c)"
    by (simp add: rfc_userpass_def rfc_string_def c)
  note r = expect_reply_stream [OF assms(1) _ _ this p]
  have "same_config c c'" using r(1) assms(2) same_config_trans [of c ?c c'] by simp
  with r assms show ?thesis
    by (auto simp: hs_inv_def same_config_messages [OF \<open>same_config c c'\<close>])
qed

text \<open>The stores of the request are those of \<open>request_payload\<close>.\<close>

lemma request_body_stores:
  assumes "pton_ok e" "request_body e uri = Some (k, ws)"
  shows "k = 6 + length (rfc_address e uri) - 1"
    "store_all (ws @ [(0, [5]), (1, [1]), (2, [0])]) (replicate k j)
       = Some ([5, 1, 0] @ rfc_address e uri @ be_bytes 2 1883)"
proof -
  let ?head = "[(0, [5]), (1, [1]), (2, [0 :: byte])]"
  have port: "[PAHOMQTT_MSB 1883, PAHOMQTT_LSB 1883] = be_bytes 2 1883"
    by (simp add: PAHOMQTT_MSB_def PAHOMQTT_LSB_def numeral_2_eq_2)
  have shape: "k = 5 + length (rfc_address e uri) \<and>
    store_all (ws @ ?head) buf
      = store_all ([(3, rfc_address e uri), (3 + length (rfc_address e uri), be_bytes 2 1883)] @ ?head) buf" for buf
    using assms
    by (auto simp: request_body_def Let_def pton_ok_def rfc_address_def rfc_string_def port [symmetric]
        store_all_merge simp del: store_all_Cons split: option.splits if_splits)
  show "k = 6 + length (rfc_address e uri) - 1" using shape by simp
  show "store_all (ws @ ?head) (replicate k j) = Some ([5, 1, 0] @ rfc_address e uri @ be_bytes 2 1883)"
    using shape request_payload [OF refl, of "be_bytes 2 1883" "rfc_address e uri" j] by simp
qed

lemma send_request_inv:
  assumes "on_stream e" "pton_ok e" "list_all out_ok (out_packet c)"
    "socks5State c = pahomqtt_cs_socks5_auth_ok" "send_request e c s = Some (rc, c', s')"
    "negotiated c (st_got s) (out_bytes c s)"
  shows "hs_inv e c' s' \<and> same_config c c' \<and> socks5State c' \<noteq> pahomqtt_cs_new"
proof (cases "c' = c")
  case True
  with assms(3,4) show ?thesis by (simp add: hs_inv_def)
next
  case False
  let ?c = "pahomqtt_set_socks5_state pahomqtt_cs_socks5_request c"
  let ?p = "empty_packet\<lparr>pkt_packet_length := 5 + length (rfc_address e (serverURI c)), pkt_payload := Some (rfc_connect e c)\<rparr>"
  have p: "expect_reply e 5 ?p ?c s = Some (rc, c', s')"
    using assms(5) False request_body_stores [OF assms(2), of "serverURI c"]
    by (auto simp: send_request_def malloc_bytes_def rfc_connect_def
        simp del: store_all_Cons bind_Some_iff split: option.splits if_splits)
  have "pkt_packet_length ?p = length (rfc_connect e c)" by (simp add: rfc_connect_def)
  note r = expect_reply_stream [OF assms(1) _ _ this p]
  have "same_config c c'" using r(1) assms(3) same_config_trans [of c ?c c'] by simp
  moreover have "hs_inv e c' s'"
    using r assms(3,6) unfolding hs_inv_def
    by (auto simp: same_config_messages [OF \<open>same_config c c'\<close>] request_shape_def)
  moreover have "socks5State c' = pahomqtt_cs_socks5_request" using r(4) assms(3) by simp
  ultimately show ?thesis by simp
qed

lemma socks5__send_cases:
  assumes "socks5__send e c s = Some (rc, c', s')"
  obtains "c' = c" "s' = s"
  | "socks5State c = pahomqtt_cs_socks5_new" "send_greeting e c s = Some (rc, c', s')"
  | "socks5State c = pahomqtt_cs_socks5_auth_ok" "send_request e c s = Some (rc, c', s')"
  | "socks5State c = pahomqtt_cs_socks5_send_userpass" "send_userpass e c s = Some (rc, c', s')"
  using assms by (auto simp: socks5__send_def Let_def pahomqtt_get_socks5_state_def split: if_splits)

text \<open>\<open>socks5__read\<close> in the three states that wait for a reply.\<close>

lemma in_byte_filled:
  "in_ok p \<Longrightarrow> pkt_to_process p = 0 \<Longrightarrow> in_byte p i = read_at (filled p) i"
  by (auto simp: in_ok_def filled_def in_byte_def)

lemma in_byte_dead: "in_dead p \<Longrightarrow> in_byte p i = None"
  by (simp add: in_dead_def in_byte_def)

lemma read_start_inv:
  assumes "on_stream e" "pton_ok e" "credentials_ok c" "list_all out_ok (out_packet c)"
    "socks5State c = pahomqtt_cs_socks5_start" "in_ok (in_packet c)" "pkt_to_process (in_packet c) = 0"
    "pkt_packet_length (in_packet c) = 2" "st_got s = filled (in_packet c)"
    "out_bytes c s = rfc_greeting c" "read_start e c s = Some (rc, c', s')"
  shows "hs_inv e c' s' \<and> same_config c c'"
proof -
  let ?f = "filled (in_packet c)"
  let ?c = "c\<lparr>in_packet := packet__cleanup (in_packet c)\<rparr>"
  have "length ?f = 2" using assms(6,7,8) by (auto simp: in_ok_def filled_def)
  then obtain a b where f: "?f = [a, b]" by (auto simp: numeral_2_eq_2 length_Suc_conv)
  note byte = in_byte_filled [OF assms(6,7)]
  consider (dead) "c' = ?c" "s' = s"
    | (none) "[a, b] = [5, 0]" "socks5__send e (pahomqtt_set_socks5_state pahomqtt_cs_socks5_auth_ok ?c) s = Some (rc, c', s')"
    | (userpass) "[a, b] = [5, 2]" "socks5__send e (pahomqtt_set_socks5_state pahomqtt_cs_socks5_send_userpass ?c) s = Some (rc, c', s')"
    using assms(11) by (auto simp: read_start_def byte f read_at_def Let_def split: if_splits)
  then show ?thesis
  proof cases
    case dead
    with assms(4,5) show ?thesis by (simp add: hs_inv_def)
  next
    case none
    let ?d = "pahomqtt_set_socks5_state pahomqtt_cs_socks5_auth_ok ?c"
    have n: "negotiated ?d (st_got s) (out_bytes ?d s)"
      using none(1) f assms(9,10) by (simp add: negotiated_def rfc_greeting_def)
    from none(2) show ?thesis
    proof (cases rule: socks5__send_cases)
      case 1
      with assms(4) show ?thesis by (simp add: hs_inv_def same_config_def)
    next
      case 3
      from send_request_inv [OF assms(1,2) _ 3 n] assms(4) show ?thesis by (simp add: same_config_def)
    qed simp_all
  next
    case userpass
    let ?d = "pahomqtt_set_socks5_state pahomqtt_cs_socks5_send_userpass ?c"
    from userpass(2) show ?thesis
    proof (cases rule: socks5__send_cases)
      case 1
      with assms(4) show ?thesis by (simp add: hs_inv_def same_config_def)
    next
      case 4
      have "credentials_ok ?d" "rfc_greeting ?d = rfc_greeting c"
        using assms(3) by (simp_all add: credentials_ok_def rfc_greeting_def)
      with send_userpass_inv [OF assms(1) _ 4(2)] assms(4,9,10) userpass(1) f
      show ?thesis by (simp add: same_config_def)
    qed simp_all
  qed
qed

lemma read_userpass_reply_inv:
  assumes "on_stream e" "pton_ok e" "list_all out_ok (out_packet c)"
    "socks5State c = pahomqtt_cs_socks5_userpass_reply" "in_ok (in_packet c)"
    "pkt_to_process (in_packet c) = 0" "pkt_packet_length (in_packet c) = 2"
    "st_got s = [5, 2] @ filled (in_packet c)"
    "out_bytes c s = rfc_greeting c @ rfc_userpass c" "read_userpass_reply e c s = Some (rc, c', s')"
  shows "hs_inv e c' s' \<and> same_config c c'"
proof -
  let ?f = "filled (in_packet c)"
  let ?c = "c\<lparr>in_packet := packet__cleanup (in_packet c)\<rparr>"
  have "length ?f = 2" using assms(5,6,7) by (auto simp: in_ok_def filled_def)
  then obtain a b where f: "?f = [a, b]" by (auto simp: numeral_2_eq_2 length_Suc_conv)
  note byte = in_byte_filled [OF assms(5,6)]
  consider (dead) "c' = ?c" "s' = s"
    | (ok) "[a, b] = [1, 0]" "socks5__send e (pahomqtt_set_socks5_state pahomqtt_cs_socks5_auth_ok ?c) s = Some (rc, c', s')"
    using assms(10) by (auto simp: read_userpass_reply_def byte f read_at_def Let_def split: if_splits)
  then show ?thesis
  proof cases
    case dead
    with assms(3,4) show ?thesis by (simp add: hs_inv_def)
  next
    case ok
    let ?d = "pahomqtt_set_socks5_state pahomqtt_cs_socks5_auth_ok ?c"
    have n: "negotiated ?d (st_got s) (out_bytes ?d s)"
      using ok(1) f assms(8,9) by (simp add: negotiated_def rfc_greeting_def rfc_userpass_def)
    from ok(2) show ?thesis
    proof (cases rule: socks5__send_cases)
      case 1
      with assms(3) show ?thesis by (simp add: hs_inv_def same_config_def)
    next
      case 3
      from send_request_inv [OF assms(1,2) _ 3 n] assms(3) show ?thesis by (simp add: same_config_def)
    qed simp_all
  qed
qed

lemma extend_reply_inv:
  assumes "in_ok (in_packet c)" "pkt_to_process (in_packet c) = 0" "pkt_packet_length (in_packet c) = 5"
    "extend_reply e c s = Some (rc, c', s')"
  shows "s' = s \<and> (\<exists>p. c' = c\<lparr>in_packet := p\<rparr> \<and>
    (in_dead p \<or> in_ok p \<and> request_shape p \<and> filled p = filled (in_packet c)))"
proof -
  from assms obtain payload where p: "pkt_payload (in_packet c) = Some payload" "length payload = 5"
    "pkt_pos (in_packet c) = 5" by (auto simp: in_ok_def)
  have f: "filled (in_packet c) = payload" using p by (simp add: filled_def)
  have grown: "in_ok q \<and> request_shape q \<and> filled q = payload"
    if "reply_length payload = Some (5 + missing)" and q: "q = (in_packet c)\<lparr>pkt_to_process := missing,
      pkt_packet_length := 5 + missing, pkt_payload := Some (payload @ replicate missing j)\<rparr>" for q missing j
  proof -
    have "filled q = payload" using p q by (simp add: filled_def)
    then show ?thesis using p q that(1) by (simp add: in_ok_def request_shape_def)
  qed
  show ?thesis
    using assms(2,3,4) p
    by (auto simp: extend_reply_def Let_def read_at_def f reply_length_def split: if_splits
        intro!: grown)
qed


lemma read_request_inv:
  assumes "list_all out_ok (out_packet c)"
    "socks5State c = pahomqtt_cs_socks5_request" "in_ok (in_packet c)"
    "pkt_to_process (in_packet c) = 0" "request_shape (in_packet c)" "negotiated c g out"
    "st_got s = g @ filled (in_packet c)" "out_bytes c s = out @ rfc_connect e c"
    "read_request e c s = Some (rc, c', s')"
  shows "hs_inv e c' s' \<and> same_config c c'"
proof (cases "pkt_packet_length (in_packet c) = 5")
  case True
  with assms(9) have x: "extend_reply e c s = Some (rc, c', s')" by (simp add: read_request_def)
  from extend_reply_inv [OF assms(3,4) True x] obtain p where
    p: "s' = s" "c' = c\<lparr>in_packet := p\<rparr>"
    "in_dead p \<or> in_ok p \<and> request_shape p \<and> filled p = filled (in_packet c)" by auto
  have "same_config c c'" using p(2) by simp
  with assms p show ?thesis
    by (auto simp: hs_inv_def same_config_messages [OF \<open>same_config c c'\<close>])
next
  case False
  let ?f = "filled (in_packet c)"
  let ?c = "c\<lparr>in_packet := packet__cleanup (in_packet c)\<rparr>"
  have r: "reply_length ?f = Some (length ?f)"
    using assms(3,4,5) False by (auto simp: request_shape_def in_ok_def filled_def)
  then have "5 \<le> length ?f" by (auto simp: reply_length_def split: if_splits)
  note byte = in_byte_filled [OF assms(3,4)]
  consider (dead) "c' = ?c" "s' = s"
    | (accepted) "?f ! 0 = 5" "?f ! 1 = 0" "c' = pahomqtt_set_socks5_state pahomqtt_cs_new ?c" "s' = s"
    | (refused) "c' = pahomqtt_set_socks5_state pahomqtt_cs_socks5_new ?c" "s' = s"
    using assms(9) False \<open>5 \<le> length ?f\<close>
    by (auto simp: read_request_def byte read_at_def Let_def split: if_splits)
  then show ?thesis
  proof cases
    case accepted
    have "same_config c c'" using accepted(3) by (simp add: same_config_def)
    moreover have "accepted_reply ?f" using r accepted by (simp add: accepted_reply_def)
    ultimately show ?thesis
      using assms accepted
      by (auto simp: hs_inv_def same_config_messages [OF \<open>same_config c c'\<close>])
  qed (use assms in \<open>simp_all add: hs_inv_def same_config_def\<close>)
qed

text \<open>The whole of \<open>socks5__read\<close>: outside \<open>pahomqtt_cs_socks5_new\<close> and the states of a failed send,
  where it changes nothing.\<close>

lemma socks5__read_inv:
  assumes "on_stream e" "pton_ok e" "credentials_ok c" "hs_inv e c s"
    "socks5__read e c s = Some (rc, c', s')"
  shows "hs_inv e c' s' \<and> same_config c c'"
proof (cases "socks5State c = pahomqtt_cs_socks5_start \<or> socks5State c = pahomqtt_cs_socks5_userpass_reply \<or>
    socks5State c = pahomqtt_cs_socks5_request")
  case False
  with assms show ?thesis
    by (auto simp: socks5__read_def Let_def pahomqtt_get_socks5_state_def split: if_splits)
next
  case True
  have q: "list_all out_ok (out_packet c)" using assms(4) by (simp add: hs_inv_def)
  obtain ret p s1 where loop: "in_packet_loop e (in_packet c) s = Some (ret, p, s1)"
    using assms(5) True
    by (auto simp: socks5__read_def Let_def pahomqtt_get_socks5_state_def)
  let ?c = "c\<lparr>in_packet := p\<rparr>"
  show ?thesis
  proof (cases "in_dead p")
    case True
    have "c' = ?c"
      using assms(5) loop True \<open>_ \<or> _\<close> in_byte_dead [OF True]
      by (auto simp: socks5__read_def Let_def pahomqtt_get_socks5_state_def read_start_def
          read_userpass_reply_def read_request_def extend_reply_def in_dead_def split: option.splits if_splits)
    with q True \<open>_ \<or> _\<close> show ?thesis by (auto simp: hs_inv_def)
  next
    case alive: False
    have "in_ok (in_packet c)"
      using alive in_packet_loop_dead [OF assms(1) _ loop] True assms(4)
      by (auto simp: hs_inv_def)
    from in_packet_loop_stream [OF assms(1) this, of s] loop alive obtain bs where
      p: "st_sent s1 = st_sent s" "st_got s1 = st_got s @ bs" "in_ok p" "filled p = filled (in_packet c) @ bs"
      "pkt_packet_length p = pkt_packet_length (in_packet c)" "ret = None \<longrightarrow> pkt_to_process p = 0"
      by auto
    have shape: "request_shape (in_packet c) \<Longrightarrow> request_shape p"
      using p(4,5) by (auto simp: request_shape_def reply_length_append)
    have notdead: "\<not> in_dead (in_packet c)"
      using alive in_packet_loop_dead [OF assms(1) _ loop] by auto
    have inv: "hs_inv e ?c s1"
      using assms(4) True p notdead shape unfolding hs_inv_def
      by (auto simp: out_bytes_def same_config_messages [of c ?c])
    show ?thesis
    proof (cases ret)
      case (Some r)
      then have "c' = ?c" "s' = s1"
        using assms(5) loop True
        by (auto simp: socks5__read_def Let_def pahomqtt_get_socks5_state_def)
      with inv show ?thesis by simp
    next
      case None
      have cred: "credentials_ok ?c" using assms(3) by (simp add: credentials_ok_def)
      have conf: "same_config c d" if "same_config ?c d" for d using that by (simp add: same_config_def)
      from True show ?thesis
      proof (elim disjE)
        assume st: "socks5State c = pahomqtt_cs_socks5_start"
        then have "read_start e ?c s1 = Some (rc, c', s')"
          using assms(5) loop None by (simp add: socks5__read_def Let_def pahomqtt_get_socks5_state_def)
        with read_start_inv [OF assms(1,2) cred, of s1 rc c' s'] inv st p None alive
        show ?thesis by (auto simp: hs_inv_def intro: conf)
      next
        assume st: "socks5State c = pahomqtt_cs_socks5_userpass_reply"
        then have "read_userpass_reply e ?c s1 = Some (rc, c', s')"
          using assms(5) loop None by (simp add: socks5__read_def Let_def pahomqtt_get_socks5_state_def)
        with read_userpass_reply_inv [OF assms(1,2), of ?c s1 rc c' s'] inv st p None alive
        show ?thesis by (auto simp: hs_inv_def intro: conf)
      next
        assume st: "socks5State c = pahomqtt_cs_socks5_request"
        then have "read_request e ?c s1 = Some (rc, c', s')"
          using assms(5) loop None by (simp add: socks5__read_def Let_def pahomqtt_get_socks5_state_def)
        with read_request_inv [of ?c, OF _ _ _ _ _ _ _ _ this] inv st p None alive
        show ?thesis by (auto simp: hs_inv_def intro: conf)
      qed
    qed
  qed
qed

section \<open>The two threads together\<close>

definition running :: "thread_pc \<Rightarrow> bool" where
  "running t \<longleftrightarrow> (\<exists>rc. t = Thread_loop rc \<or> t = Thread_read rc)"

definition established :: "stream socks5_env \<Rightarrow> Clients \<Rightarrow> stream \<Rightarrow> bool" where
  "established e c s \<longleftrightarrow>
     (\<exists>g out r t. negotiated c g out \<and> st_got s = g @ r \<and> accepted_reply r \<and>
        st_sent s @ t = out @ rfc_connect e c)"

lemma established_frame [simp]:
  "established e (pahomqtt_set_socks5_state st c) s = established e c s"
  "established e (c\<lparr>out_packet := q\<rparr>) s = established e c s"
  by (simp_all add: established_def)

lemma hs_inv_established: "hs_inv e c s \<Longrightarrow> socks5State c = pahomqtt_cs_new \<Longrightarrow> established e c s"
  unfolding hs_inv_def established_def by (auto simp: out_bytes_def)

lemma thread_exit_iff [simp]:
  "thread_exit rc c = Some (t, c') \<longleftrightarrow>
     length (out_packet c) \<noteq> 1 \<and> t = Thread_done rc \<and> c' = c\<lparr>out_packet := []\<rparr>"
  by (auto simp: thread_exit_def)

lemma thread_step_inv:
  assumes "on_stream e" "pton_ok e" "credentials_ok c" "hs_inv e c s" "running t"
    "Socks5_ReadThread_step e k (t, c, s) = Some (t', c', s')"
  shows "same_config c c' \<and> (running t' \<longrightarrow> hs_inv e c' s' \<and> (socks5State c \<noteq> pahomqtt_cs_new \<longrightarrow> socks5State c' \<noteq> pahomqtt_cs_new)) \<and>
    (socks5State c' = pahomqtt_cs_new \<longrightarrow> established e c' s') \<and> t' \<noteq> Not_started"
proof -
  from assms(5) consider rc where "t = Thread_loop rc" | rc where "t = Thread_read rc"
    by (auto simp: running_def)
  then show ?thesis
  proof cases
    case (1 rc)
    note t = 1
    from assms(6) show ?thesis
      using hs_inv_established [OF assms(4)] assms(4)
      by (auto simp: t running_def pahomqtt_get_socks5_state_def split: if_splits)
  next
    case (2 rc)
    note t = 2
    from assms(6) obtain r c1 s1 where r: "socks5__read e c s = Some (r, c1, s1)"
      by (auto simp: t split: option.splits)
    note inv = socks5__read_inv [OF assms(1-4) r]
    note est = hs_inv_established [OF inv [THEN conjunct1]]
    from assms(6) r inv show ?thesis
      using est same_config_trans [of c c1]
      by (auto simp: t running_def pahomqtt_get_socks5_state_def split: if_splits)
  qed
qed

fun sys_inv :: "stream socks5_env \<Rightarrow> Clients \<Rightarrow> main_pc \<times> thread_pc \<times> Clients \<times> stream \<Rightarrow> bool" where
  "sys_inv e c0 (m, t, c, s) \<longleftrightarrow> same_config c0 c \<and>
     (case m of
        Main_start \<Rightarrow> t = Not_started \<and> st_got s = [] \<and> st_sent s = [] \<and> out_packet c = []
      | Main_send \<Rightarrow> t \<noteq> Not_started \<and> out_packet c = [] \<and>
          (socks5State c = pahomqtt_cs_socks5_new \<and> st_got s = [] \<and> st_sent s = [] \<or>
           socks5State c = pahomqtt_cs_error)
      | _ \<Rightarrow> t \<noteq> Not_started \<and> (running t \<longrightarrow> hs_inv e c s \<and> socks5State c \<noteq> pahomqtt_cs_new) \<and>
          (socks5State c = pahomqtt_cs_new \<longrightarrow> established e c s) \<and>
          (m = Main_done 0 \<longrightarrow> \<not> running t \<and> established e c s))"

lemma established_config: "same_config c c' \<Longrightarrow> established e c' s = established e c s"
  by (simp add: established_def same_config_messages)

lemma thread_not_running:
  assumes "\<not> running t"
  shows "Socks5_ReadThread_step e k (t, c, n) = Some (t, c, n)"
  using assms by (cases t) (auto simp: running_def)

text \<open>Before the greeting is sent the thread can only wait or give up.\<close>

lemma thread_step_early:
  assumes "out_packet c = []" "socks5State c = pahomqtt_cs_socks5_new \<or> socks5State c = pahomqtt_cs_error"
    "Socks5_ReadThread_step e k (t, c, s) = Some (t', c', s')" "t \<noteq> Not_started"
  shows "s' = s \<and> same_config c c' \<and> out_packet c' = [] \<and> t' \<noteq> Not_started \<and>
    (socks5State c' = socks5State c \<or> socks5State c' = pahomqtt_cs_error)"
proof (cases t)
  case (Thread_read rc)
  have "socks5__read e c s = Some (- 1, c, s)"
    using assms(2) by (auto simp: socks5__read_def Let_def pahomqtt_get_socks5_state_def)
  with assms Thread_read show ?thesis by (auto simp: pahomqtt_get_socks5_state_def)
qed (use assms in \<open>auto simp: pahomqtt_get_socks5_state_def same_config_def
      split: if_splits\<close>)

lemma sys_inv_step:
  assumes "on_stream e" "pton_ok e" "credentials_ok c0"
    "proxy_connect_step e x y" "sys_inv e c0 x"
  shows "sys_inv e c0 y"
  using assms(4,5)
proof (induction rule: proxy_connect_step.induct)
  case (start c n)
  then show ?case
    using same_config_trans [of c0 c] by (auto simp: thread_start_def)
next
  case (send c n rc c' n' pc)
  then have conf: "same_config c0 c" by simp
  from send.hyps show ?case
  proof (cases rule: socks5__send_cases)
    case 1
    with send.prems show ?thesis by (auto simp: hs_inv_def)
  next
    case 2
    with send.prems have "out_packet c = []" "st_got n = []" "out_bytes c n = []"
      by (auto simp: out_bytes_def pending_def)
    with send_greeting_inv [OF assms(1) _ 2(2)] have inv: "hs_inv e c' n'" "same_config c c'"
      "socks5State c' = pahomqtt_cs_socks5_start" by auto
    show ?thesis
      using send.prems inv same_config_trans [OF conf inv(2)] inv(3) by auto
  qed (use send.prems in auto)
next
  case (poll elapsed rc c m c' pc n)
  then show ?case
    using same_config_trans [of c0 c]
    by (auto simp: pahomqtt_get_socks5_state_def hs_inv_def split: if_splits)
next
  case (thread t pc c n pc' c' n' m)
  then have conf: "same_config c0 c" by simp
  then have cred: "credentials_ok c" using assms(3) by (simp add: credentials_ok_def same_config_def)
  show ?case
  proof (cases "m = Main_send")
    case True
    with thread thread_step_early [of c e t pc n pc' c' n'] same_config_trans [OF conf, of c']
    show ?thesis by auto
  next
    case False
    show ?thesis
    proof (cases "running pc")
      case r: True
      then have "hs_inv e c n" using thread.prems thread.hyps False by (cases m) auto
      from thread_step_inv [OF assms(1,2) cred this r thread.hyps(1)]
      show ?thesis
        using thread.prems thread.hyps(2) False r same_config_trans [OF conf, of c']
        by (cases m) (auto simp: running_def)
    next
      case False
      with thread.hyps(1) thread_not_running [OF False, of e t c n]
      have "pc' = pc" "c' = c" "n' = n" by simp_all
      with thread.prems show ?thesis by simp
    qed
  qed
qed

end
