(* ===== verification/Socks5Run.thy ===== *)
theory Socks5Run
  imports Socks5Handshake
begin

text \<open>
  Runs of the handshake on a connection that makes progress, and the properties of the SOCKS5 client.
\<close>

section \<open>A run to the end\<close>

text \<open>A connection on which the next \<open>n\<close> calls each move at least one byte.\<close>

definition lively :: "nat \<Rightarrow> stream \<Rightarrow> bool" where
  "lively n s \<longleftrightarrow> n \<le> length (st_moves s) \<and> (\<forall>m \<in> set (st_moves s). \<exists>k > 0. m = Move k)"

lemma lively_mono: "lively n s \<Longrightarrow> m \<le> n \<Longrightarrow> lively m s"
  by (simp add: lively_def)

lemma lively_obtain:
  assumes "lively n s" "0 < n"
  obtains k ms where "st_moves s = Move k # ms" "0 < k" "lively (n - 1) (s\<lparr>st_moves := ms\<rparr>)"
  using assms by (cases "st_moves s") (force simp: lively_def)+

lemma lively_frame [simp]:
  "lively n (s\<lparr>st_in := a, st_got := b, st_moves := ms\<rparr>) = lively n (s\<lparr>st_moves := ms\<rparr>)"
  "lively n (s\<lparr>st_sent := a, st_moves := ms\<rparr>) = lively n (s\<lparr>st_moves := ms\<rparr>)"
  by (simp_all add: lively_def)

lemma net__write_move:
  "on_stream e \<Longrightarrow> st_moves s = Move k # ms \<Longrightarrow> net__write e buf s =
     Some ((min k (length buf), COMPAT_EWOULDBLOCK),
           s\<lparr>st_sent := st_sent s @ take (min k (length buf)) buf, st_moves := ms\<rparr>)"
  by (simp add: net__write_def on_stream_def stream_send_def Let_def)

lemma net__read_move:
  "on_stream e \<Longrightarrow> st_moves s = Move k # ms \<Longrightarrow> count \<le> length (st_in s) \<Longrightarrow> net__read e count s =
     Some ((take (min k count) (st_in s), COMPAT_EWOULDBLOCK),
           s\<lparr>st_in := drop (min k count) (st_in s), st_got := st_got s @ take (min k count) (st_in s),
             st_moves := ms\<rparr>)"
  by (simp add: net__read_def on_stream_def stream_recv_def Let_def min.absorb1 min.coboundedI2)

lemma packet_write_loop_lively:
  assumes "on_stream e" "out_ok p" "lively (n + pkt_to_process p) s"
  shows "\<exists>p' s'. packet_write_loop e p s = Some (None, p', s') \<and> lively n s'"
  using assms(2,3)
proof (induction "pkt_to_process p" arbitrary: p s rule: less_induct)
  case less
  show ?case
  proof (cases "pkt_to_process p = 0")
    case True
    with less.prems show ?thesis by (subst packet_write_loop.simps) simp
  next
    case False
    from less.prems obtain payload where
      p: "pkt_payload p = Some payload" "pkt_pos p + pkt_to_process p = length payload"
      by (auto simp: out_ok_def)
    from less.prems(2) False obtain k ms where
      k: "st_moves s = Move k # ms" "0 < k" "lively (n + pkt_to_process p - 1) (s\<lparr>st_moves := ms\<rparr>)"
      by (auto elim: lively_obtain)
    let ?m = "min k (pkt_to_process p)"
    let ?buf = "take (pkt_to_process p) (drop (pkt_pos p) payload)"
    let ?p = "p\<lparr>pkt_to_process := pkt_to_process p - ?m, pkt_pos := pkt_pos p + ?m\<rparr>"
    let ?s = "s\<lparr>st_sent := st_sent s @ take ?m ?buf, st_moves := ms\<rparr>"
    have buflen: "length ?buf = pkt_to_process p" using p(2) by simp
    have w: "net__write e ?buf s = Some ((?m, COMPAT_EWOULDBLOCK), ?s)"
      using net__write_move [OF assms(1) k(1), of ?buf] unfolding buflen .
    have step: "packet_write_loop e p s = packet_write_loop e ?p ?s"
      using p False w k(2) by (subst packet_write_loop.simps) simp
    have ok: "out_ok ?p" using p by (auto simp: out_ok_def)
    have smaller: "pkt_to_process ?p < pkt_to_process p" using False k(2) by simp
    have "n + pkt_to_process ?p \<le> n + pkt_to_process p - 1" using smaller by simp
    then have "lively (n + pkt_to_process ?p) ?s" using lively_mono [OF k(3)] by simp
    from less.hyps [OF smaller ok this] show ?thesis unfolding step .
  qed
qed

lemma in_packet_loop_lively:
  assumes "on_stream e" "in_ok p" "lively (n + pkt_to_process p) s" "pkt_to_process p \<le> length (st_in s)"
  shows "\<exists>p' s'. in_packet_loop e p s = Some (None, p', s') \<and> lively n s'"
  using assms(2-4)
proof (induction "pkt_to_process p" arbitrary: p s rule: less_induct)
  case less
  show ?case
  proof (cases "pkt_to_process p = 0")
    case True
    with less.prems show ?thesis by (subst in_packet_loop.simps) simp
  next
    case False
    from less.prems obtain payload where
      p: "pkt_payload p = Some payload" "length payload = pkt_packet_length p"
      "pkt_pos p + pkt_to_process p = pkt_packet_length p" by (auto simp: in_ok_def)
    from less.prems(2) False obtain k ms where
      k: "st_moves s = Move k # ms" "0 < k" "lively (n + pkt_to_process p - 1) (s\<lparr>st_moves := ms\<rparr>)"
      by (auto elim: lively_obtain)
    let ?m = "min k (pkt_to_process p)"
    let ?bs = "take ?m (st_in s)"
    let ?payload = "take (pkt_pos p) payload @ ?bs @ drop (pkt_pos p + ?m) payload"
    let ?p = "p\<lparr>pkt_payload := Some ?payload, pkt_pos := pkt_pos p + ?m,
               pkt_to_process := pkt_to_process p - ?m\<rparr>"
    let ?s = "s\<lparr>st_in := drop ?m (st_in s), st_got := st_got s @ ?bs, st_moves := ms\<rparr>"
    have len: "length ?bs = ?m" "?bs \<noteq> []" using less.prems(3) False k(2) by auto
    have r: "net__read e (pkt_to_process p) s = Some ((?bs, COMPAT_EWOULDBLOCK), ?s)"
      by (rule net__read_move [OF assms(1) k(1) less.prems(3)])
    have m: "memcpy_at payload (pkt_pos p) ?bs = Some ?payload"
      using p len by (simp add: memcpy_at_def)
    have step: "in_packet_loop e p s = in_packet_loop e ?p ?s"
      using False r len m p(1) by (subst in_packet_loop.simps) simp
    have ok: "in_ok ?p" using p len by (auto simp: in_ok_def)
    have smaller: "pkt_to_process ?p < pkt_to_process p" using False k(2) by simp
    have "n + pkt_to_process ?p \<le> n + pkt_to_process p - 1" using smaller by simp
    then have "lively (n + pkt_to_process ?p) ?s" using lively_mono [OF k(3)] by simp
    from less.hyps [OF smaller ok this] less.prems(3) show ?thesis unfolding step by simp
  qed
qed

definition calm :: "Clients \<Rightarrow> bool" where
  "calm c \<longleftrightarrow> out_packet c = [] \<and> net_socket (net c) \<noteq> INVALID_SOCKET"

definition good_env :: "stream socks5_env \<Rightarrow> bool" where
  "good_env e \<longleftrightarrow> on_stream e \<and> pton_ok e \<and> s5_alloc e = always_alloc"

definition expecting :: "nat \<Rightarrow> Clients \<Rightarrow> bool" where
  "expecting k c \<longleftrightarrow> in_ok (in_packet c) \<and> filled (in_packet c) = [] \<and> pkt_packet_length (in_packet c) = k"

lemma expect_reply_lively:
  assumes "good_env e" "calm c" "socks5State c \<noteq> pahomqtt_cs_new" "pkt_payload p = Some msg"
    "pkt_packet_length p = length msg" "lively (n + length msg) s"
  shows "\<exists>c' s'. expect_reply e k p c s = Some (0, c', s') \<and> lively n s' \<and> calm c' \<and> expecting k c' \<and>
    same_config c c' \<and> socks5State c' = socks5State c \<and> st_sent s' = st_sent s @ msg \<and>
    st_got s' = st_got s \<and> st_in s' = st_in s"
proof -
  have e: "on_stream e" using assms(1) by (simp add: good_env_def)
  let ?p = "p\<lparr>pkt_pos := 0, pkt_to_process := pkt_packet_length p\<rparr>"
  have ok: "out_ok ?p" "unsent ?p = msg" using assms(4,5) by (simp_all add: out_ok_def unsent_def)
  have "lively (n + pkt_to_process ?p) s" using assms(5,6) by simp
  from packet_write_loop_lively [OF e ok(1) this] packet_write_loop_stream [OF e ok(1), of s] ok(2)
  obtain p' s' where w: "packet_write_loop e ?p s = Some (None, p', s')" "lively n s'"
    "st_sent s' = st_sent s @ msg" "st_got s' = st_got s" "st_in s' = st_in s" by auto
  let ?in = "(in_packet c)\<lparr>pkt_pos := 0, pkt_packet_length := k, pkt_to_process := k,
               pkt_payload := Some (replicate k (s5_junk e))\<rparr>"
  have "expect_reply e k p c s = Some (0, c\<lparr>in_packet := ?in\<rparr>, s')"
    using assms(1-3) w(1)
    by (simp add: expect_reply_def Let_def malloc_bytes_def good_env_def calm_def packet__queue_def
        packet__write_def pahomqtt_get_socks5_state_def)
  with w assms(2) show ?thesis
    by (simp add: calm_def expecting_def in_ok_def filled_def)
qed

text \<open>What a send leaves: the message is out, the reply of \<open>k\<close> bytes is awaited.\<close>

definition sends :: "stream socks5_env \<Rightarrow> Clients \<Rightarrow> stream \<Rightarrow> bytes \<Rightarrow> nat \<Rightarrow> nat \<Rightarrow>
  pahomqtt_client_socks5_state \<Rightarrow> (int \<times> Clients \<times> stream) ub \<Rightarrow> bool"
where
  "sends e c s msg k n st r \<longleftrightarrow>
     (\<exists>c' s'. r = Some (0, c', s') \<and> lively n s' \<and> calm c' \<and> expecting k c' \<and> same_config c c' \<and>
        socks5State c' = st \<and> st_sent s' = st_sent s @ msg \<and> st_got s' = st_got s \<and> st_in s' = st_in s)"

lemma sends_expect:
  assumes "good_env e" "calm c" "st \<noteq> pahomqtt_cs_new" "lively (n + length msg) s"
    "pkt_payload p = Some msg" "pkt_packet_length p = length msg"
  shows "sends e c s msg k n st (expect_reply e k p (pahomqtt_set_socks5_state st c) s)"
  using expect_reply_lively [OF assms(1) _ _ assms(5,6,4), of "pahomqtt_set_socks5_state st c" k] assms(2,3)
    same_config_trans [of c "pahomqtt_set_socks5_state st c"]
  by (fastforce simp: sends_def calm_def)

lemma socks5__send_greeting:
  assumes "good_env e" "calm c" "socks5State c = pahomqtt_cs_socks5_new"
    "lively (n + length (rfc_greeting c)) s"
  shows "sends e c s (rfc_greeting c) 2 n pahomqtt_cs_socks5_start (socks5__send e c s)"
proof -
  let ?p = "empty_packet\<lparr>pkt_packet_length := if socks5_username c \<noteq> None then 4 else 3,
              pkt_payload := Some (rfc_greeting c)\<rparr>"
  have len: "pkt_packet_length ?p = length (rfc_greeting c)" by (simp add: rfc_greeting_def)
  have "socks5__send e c s =
    expect_reply e 2 ?p (pahomqtt_set_socks5_state pahomqtt_cs_socks5_start c) s"
    using assms(1,3)
    by (auto simp: socks5__send_def pahomqtt_get_socks5_state_def good_env_def send_greeting_def
        malloc_bytes_def rfc_greeting_def greeting_payload [unfolded One_nat_def]
        simp del: store_all_Cons bind_Some_iff)
  then show ?thesis using sends_expect [OF assms(1,2) _ assms(4) _ len] by simp
qed

lemma socks5__send_userpass:
  assumes "good_env e" "calm c" "socks5State c = pahomqtt_cs_socks5_send_userpass" "credentials_ok c"
    "socks5_username c \<noteq> None" "socks5_password c \<noteq> None" "lively (n + length (rfc_userpass c)) s"
  shows "sends e c s (rfc_userpass c) 2 n pahomqtt_cs_socks5_userpass_reply (socks5__send e c s)"
proof -
  let ?p = "empty_packet\<lparr>pkt_packet_length := length (rfc_userpass c), pkt_payload := Some (rfc_userpass c)\<rparr>"
  obtain u pw where c: "socks5_username c = Some u" "socks5_password c = Some pw" using assms(5,6) by auto
  have len: "length u mod 256 = length u" "length pw mod 256 = length pw"
    using assms(4) c by (auto simp: credentials_ok_def)
  have plen: "length (rfc_userpass c) = 3 + length u + length pw"
    by (simp add: rfc_userpass_def rfc_string_def c)
  have "socks5__send e c s =
    expect_reply e 2 ?p (pahomqtt_set_socks5_state pahomqtt_cs_socks5_userpass_reply c) s"
    unfolding plen
    using assms(1,3) userpass_payload [of u pw "s5_junk e"]
    by (auto simp: socks5__send_def pahomqtt_get_socks5_state_def good_env_def send_userpass_def c len
        malloc_bytes_def rfc_userpass_def Let_def simp del: store_all_Cons bind_Some_iff)
  then show ?thesis using sends_expect [OF assms(1,2) _ assms(7), where p = ?p] by simp
qed

definition address_ok :: "stream socks5_env \<Rightarrow> bytes \<Rightarrow> bool" where
  "address_ok e uri \<longleftrightarrow> s5_pton4 e uri \<noteq> None \<or> s5_pton6 e uri \<noteq> None \<or> length uri \<le> 255"

lemma socks5__send_request:
  assumes "good_env e" "calm c" "socks5State c = pahomqtt_cs_socks5_auth_ok" "address_ok e (serverURI c)"
    "lively (n + length (rfc_connect e c)) s"
  shows "sends e c s (rfc_connect e c) 5 n pahomqtt_cs_socks5_request (socks5__send e c s)"
proof -
  let ?p = "empty_packet\<lparr>pkt_packet_length := 5 + length (rfc_address e (serverURI c)), pkt_payload := Some (rfc_connect e c)\<rparr>"
  have "request_body e (serverURI c) \<noteq> None"
    using assms(4) by (auto simp: address_ok_def request_body_def Let_def split: option.splits)
  then obtain k ws where b: "request_body e (serverURI c) = Some (k, ws)" by auto
  have "pton_ok e" using assms(1) by (simp add: good_env_def)
  note ws = request_body_stores [OF this b]
  have "socks5__send e c s =
    expect_reply e 5 ?p (pahomqtt_set_socks5_state pahomqtt_cs_socks5_request c) s"
    using assms(1,3) ws b
    by (auto simp: socks5__send_def pahomqtt_get_socks5_state_def good_env_def send_request_def
        malloc_bytes_def rfc_connect_def simp del: store_all_Cons bind_Some_iff)
  moreover have "pkt_packet_length ?p = length (rfc_connect e c)" by (simp add: rfc_connect_def)
  ultimately show ?thesis using sends_expect [OF assms(1,2) _ assms(5), where p = ?p] by simp
qed

text \<open>Receiving the bytes that are still missing.\<close>

lemma in_packet_loop_receives:
  assumes "good_env e" "in_ok p" "lively (n + pkt_to_process p) s" "st_in s = bs @ rest"
    "length bs = pkt_to_process p"
  obtains p' s' where "in_packet_loop e p s = Some (None, p', s')" "lively n s'" "in_ok p'"
    "pkt_to_process p' = 0" "pkt_packet_length p' = pkt_packet_length p" "filled p' = filled p @ bs"
    "st_got s' = st_got s @ bs" "st_in s' = rest" "st_sent s' = st_sent s"
proof -
  have e: "on_stream e" using assms(1) by (simp add: good_env_def)
  from in_packet_loop_lively [OF e assms(2,3)] assms(4,5) in_packet_loop_stream [OF e assms(2), of s]
  obtain p' s' bs' where l: "in_packet_loop e p s = Some (None, p', s')" "lively n s'"
    "st_sent s' = st_sent s" "st_got s' = st_got s @ bs'" "st_in s = bs' @ st_in s'" "in_ok p'"
    "filled p' = filled p @ bs'" "pkt_packet_length p' = pkt_packet_length p" "pkt_to_process p' = 0"
    by auto
  have "length (filled p') = pkt_packet_length p" "length (filled p) + pkt_to_process p = pkt_packet_length p"
    using l(6,8,9) assms(2) length_filled by (auto simp: in_ok_def)
  with l(7) assms(5) have "length bs' = length bs" by simp
  with l(5) assms(4) have "bs' = bs" "st_in s' = rest" by simp_all
  with l show thesis by (intro that [OF l(1,2)]) auto
qed

lemma expecting_process: "expecting k c \<Longrightarrow> pkt_to_process (in_packet c) = k"
  using length_filled by (force simp: expecting_def in_ok_def filled_def)

lemma socks5__read_two_bytes:
  assumes "good_env e" "expecting 2 c" "lively (n + 2) s" "st_in s = [a, b] @ rest"
    "socks5State c = pahomqtt_cs_socks5_start \<or> socks5State c = pahomqtt_cs_socks5_userpass_reply"
  obtains p s' where
    "socks5__read e c s = (if socks5State c = pahomqtt_cs_socks5_start then read_start e (c\<lparr>in_packet := p\<rparr>) s'
       else read_userpass_reply e (c\<lparr>in_packet := p\<rparr>) s')"
    "in_byte p 0 = Some a" "in_byte p 1 = Some b" "lively n s'" "st_got s' = st_got s @ [a, b]"
    "st_in s' = rest" "st_sent s' = st_sent s"
proof -
  have p: "in_ok (in_packet c)" "pkt_to_process (in_packet c) = 2" "filled (in_packet c) = []"
    using assms(2) expecting_process by (auto simp: expecting_def)
  obtain p' s' where l: "in_packet_loop e (in_packet c) s = Some (None, p', s')" "lively n s'" "in_ok p'"
    "pkt_to_process p' = 0" "filled p' = [a, b]" "st_got s' = st_got s @ [a, b]" "st_in s' = rest"
    "st_sent s' = st_sent s"
    by (rule in_packet_loop_receives [OF assms(1) p(1) _ assms(4), of n]) (use assms(3) p in auto)
  show thesis
    by (rule that [of p' s'])
      (use l assms(5) in \<open>auto simp: socks5__read_def pahomqtt_get_socks5_state_def in_byte_filled read_at_def\<close>)
qed

text \<open>The three replies of the negotiation.\<close>

definition answers :: "Clients \<Rightarrow> stream \<Rightarrow> bytes \<Rightarrow> bytes \<Rightarrow> bytes \<Rightarrow> nat \<Rightarrow> nat \<Rightarrow>
  pahomqtt_client_socks5_state \<Rightarrow> (int \<times> Clients \<times> stream) ub \<Rightarrow> bool"
where
  "answers c s bs rest msg k n st r \<longleftrightarrow>
     (\<exists>c' s'. r = Some (0, c', s') \<and> lively n s' \<and> calm c' \<and> expecting k c' \<and> same_config c c' \<and>
        socks5State c' = st \<and> st_sent s' = st_sent s @ msg \<and> st_got s' = st_got s @ bs \<and> st_in s' = rest)"

lemma answers_sends:
  assumes "sends e d s1 msg k n st r" "same_config c d" "st_sent s1 = st_sent s" "st_got s1 = st_got s @ bs"
    "st_in s1 = rest"
  shows "answers c s bs rest msg k n st r"
  using assms same_config_trans [OF assms(2)] unfolding sends_def answers_def by fastforce

lemma socks5__read_method_none:
  assumes "good_env e" "calm c" "expecting 2 c" "socks5State c = pahomqtt_cs_socks5_start"
    "address_ok e (serverURI c)" "lively (n + length (rfc_connect e c) + 2) s" "st_in s = [5, 0] @ rest"
  shows "answers c s [5, 0] rest (rfc_connect e c) 5 n pahomqtt_cs_socks5_request (socks5__read e c s)"
proof -
  obtain p s' where r: "socks5__read e c s = read_start e (c\<lparr>in_packet := p\<rparr>) s'"
    "in_byte p 0 = Some 5" "in_byte p 1 = Some 0" "lively (n + length (rfc_connect e c)) s'"
    "st_got s' = st_got s @ [5, 0]" "st_in s' = rest" "st_sent s' = st_sent s"
    by (rule socks5__read_two_bytes [OF assms(1,3,6,7)]) (use assms(4) in auto)
  let ?d = "pahomqtt_set_socks5_state pahomqtt_cs_socks5_auth_ok (c\<lparr>in_packet := packet__cleanup p\<rparr>)"
  have "sends e ?d s' (rfc_connect e ?d) 5 n pahomqtt_cs_socks5_request (socks5__send e ?d s')"
    by (rule socks5__send_request [OF assms(1)]) (use assms r in \<open>simp_all add: calm_def\<close>)
  then have "answers c s [5, 0] rest (rfc_connect e ?d) 5 n pahomqtt_cs_socks5_request (socks5__send e ?d s')"
    by (rule answers_sends) (use r in \<open>simp_all add: same_config_def\<close>)
  moreover have "socks5__read e c s = socks5__send e ?d s'"
    using r(1-3) by (simp add: read_start_def Let_def)
  ultimately show ?thesis by simp
qed

lemma socks5__read_method_userpass:
  assumes "good_env e" "calm c" "expecting 2 c" "socks5State c = pahomqtt_cs_socks5_start" "credentials_ok c"
    "socks5_username c \<noteq> None" "socks5_password c \<noteq> None"
    "lively (n + length (rfc_userpass c) + 2) s" "st_in s = [5, 2] @ rest"
  shows "answers c s [5, 2] rest (rfc_userpass c) 2 n pahomqtt_cs_socks5_userpass_reply (socks5__read e c s)"
proof -
  obtain p s' where r: "socks5__read e c s = read_start e (c\<lparr>in_packet := p\<rparr>) s'"
    "in_byte p 0 = Some 5" "in_byte p 1 = Some 2" "lively (n + length (rfc_userpass c)) s'"
    "st_got s' = st_got s @ [5, 2]" "st_in s' = rest" "st_sent s' = st_sent s"
    by (rule socks5__read_two_bytes [OF assms(1,3,8,9)]) (use assms(4) in auto)
  let ?d = "pahomqtt_set_socks5_state pahomqtt_cs_socks5_send_userpass (c\<lparr>in_packet := packet__cleanup p\<rparr>)"
  have "sends e ?d s' (rfc_userpass ?d) 2 n pahomqtt_cs_socks5_userpass_reply (socks5__send e ?d s')"
    by (rule socks5__send_userpass [OF assms(1)]) (use assms r in \<open>simp_all add: calm_def credentials_ok_def\<close>)
  then have "answers c s [5, 2] rest (rfc_userpass ?d) 2 n pahomqtt_cs_socks5_userpass_reply (socks5__send e ?d s')"
    by (rule answers_sends) (use r in \<open>simp_all add: same_config_def\<close>)
  moreover have "socks5__read e c s = socks5__send e ?d s'"
    using r(1-3) by (simp add: read_start_def Let_def)
  ultimately show ?thesis by simp
qed

lemma socks5__read_status:
  assumes "good_env e" "calm c" "expecting 2 c" "socks5State c = pahomqtt_cs_socks5_userpass_reply"
    "address_ok e (serverURI c)" "lively (n + length (rfc_connect e c) + 2) s" "st_in s = [1, 0] @ rest"
  shows "answers c s [1, 0] rest (rfc_connect e c) 5 n pahomqtt_cs_socks5_request (socks5__read e c s)"
proof -
  obtain p s' where r: "socks5__read e c s = read_userpass_reply e (c\<lparr>in_packet := p\<rparr>) s'"
    "in_byte p 0 = Some 1" "in_byte p 1 = Some 0" "lively (n + length (rfc_connect e c)) s'"
    "st_got s' = st_got s @ [1, 0]" "st_in s' = rest" "st_sent s' = st_sent s"
    by (rule socks5__read_two_bytes [OF assms(1,3,6,7)]) (use assms(4) in auto)
  let ?d = "pahomqtt_set_socks5_state pahomqtt_cs_socks5_auth_ok (c\<lparr>in_packet := packet__cleanup p\<rparr>)"
  have "sends e ?d s' (rfc_connect e ?d) 5 n pahomqtt_cs_socks5_request (socks5__send e ?d s')"
    by (rule socks5__send_request [OF assms(1)]) (use assms r in \<open>simp_all add: calm_def\<close>)
  then have "answers c s [1, 0] rest (rfc_connect e ?d) 5 n pahomqtt_cs_socks5_request (socks5__send e ?d s')"
    by (rule answers_sends) (use r in \<open>simp_all add: same_config_def\<close>)
  moreover have "socks5__read e c s = socks5__send e ?d s'"
    using r(1-3) by (simp add: read_userpass_reply_def Let_def)
  ultimately show ?thesis by simp
qed

text \<open>The reply to the request: five bytes, then the rest.\<close>

lemma extend_reply_grows:
  assumes "pkt_payload p = Some h" "length h = 5" "pkt_to_process p = 0" "pkt_packet_length p = 5"
    "reply_length h = Some (5 + m)" "s5_alloc e = always_alloc"
  shows "extend_reply e (c\<lparr>in_packet := p\<rparr>) s = Some (PAHOMQTT_ERR_NOT_FINISHED,
    c\<lparr>in_packet := p\<lparr>pkt_to_process := m, pkt_packet_length := 5 + m,
                 pkt_payload := Some (h @ replicate m (s5_junk e))\<rparr>\<rparr>, s)"
proof -
  consider "h ! 3 = 1" "m = 5" | "h ! 3 = 4" "m = 17" | "h ! 3 = 3" "m = unat (h ! 4)"
    using assms(2,5) by (auto simp: reply_length_def split: if_splits)
  then show ?thesis
    using assms(1-4,6)
    by cases (simp_all add: extend_reply_def read_at_def Let_def del: bind_Some_iff)
qed

lemma socks5__read_reply_head:
  assumes "good_env e" "calm c" "expecting 5 c" "socks5State c = pahomqtt_cs_socks5_request"
    "lively (n + 5) s" "st_in s = h @ rest" "length h = 5" "reply_length h = Some k"
  shows "\<exists>c' s'. socks5__read e c s = Some (PAHOMQTT_ERR_NOT_FINISHED, c', s') \<and> lively n s' \<and> calm c' \<and>
    same_config c c' \<and> socks5State c' = pahomqtt_cs_socks5_request \<and> in_ok (in_packet c') \<and>
    filled (in_packet c') = h \<and> pkt_packet_length (in_packet c') = k \<and>
    st_got s' = st_got s @ h \<and> st_in s' = rest \<and> st_sent s' = st_sent s"
proof -
  have p: "in_ok (in_packet c)" "pkt_to_process (in_packet c) = 5" "filled (in_packet c) = []"
    "pkt_packet_length (in_packet c) = 5"
    using assms(3) expecting_process by (auto simp: expecting_def)
  obtain p' s' where l: "in_packet_loop e (in_packet c) s = Some (None, p', s')" "lively n s'" "in_ok p'"
    "pkt_to_process p' = 0" "pkt_packet_length p' = 5" "filled p' = h" "st_got s' = st_got s @ h"
    "st_in s' = rest" "st_sent s' = st_sent s"
    by (rule in_packet_loop_receives [OF assms(1) p(1) _ assms(6), of n]) (use assms(5,7) p in auto)
  from l(3) obtain payload where pay: "pkt_payload p' = Some payload" "length payload = 5" "pkt_pos p' = 5"
    using l(4,5) by (auto simp: in_ok_def)
  have pl: "pkt_payload p' = Some h" "pkt_pos p' = 5" using pay l(6) by (simp_all add: filled_def)
  have k: "5 \<le> k" using assms(8) by (auto simp: reply_length_def split: if_splits)
  let ?p = "p'\<lparr>pkt_to_process := k - 5, pkt_packet_length := k,
             pkt_payload := Some (h @ replicate (k - 5) (s5_junk e))\<rparr>"
  have "extend_reply e (c\<lparr>in_packet := p'\<rparr>) s' =
      Some (PAHOMQTT_ERR_NOT_FINISHED, c\<lparr>in_packet := ?p\<rparr>, s')"
    using extend_reply_grows [of p' h "k - 5" e c s'] pl l(4,5) assms(1,7,8) k by (simp add: good_env_def)
  then have "socks5__read e c s = Some (PAHOMQTT_ERR_NOT_FINISHED, c\<lparr>in_packet := ?p\<rparr>, s')"
    using assms(4) l(1,5) by (simp add: socks5__read_def pahomqtt_get_socks5_state_def read_request_def)
  moreover have "in_ok ?p" "filled ?p = h" using pl assms(7) k by (simp_all add: in_ok_def filled_def)
  ultimately show ?thesis using l assms(2,4) by (simp add: calm_def)
qed

lemma socks5__read_reply_tail:
  assumes "good_env e" "calm c" "socks5State c = pahomqtt_cs_socks5_request" "in_ok (in_packet c)"
    "filled (in_packet c) = h" "pkt_packet_length (in_packet c) = k" "length (h @ t) = k" "5 < k"
    "lively (n + length t) s" "st_in s = t @ rest" "(h @ t) ! 0 = 5" "(h @ t) ! 1 = 0"
  shows "\<exists>c' s'. socks5__read e c s = Some (0, c', s') \<and> calm c' \<and> same_config c c' \<and>
    socks5State c' = pahomqtt_cs_new \<and> st_got s' = st_got s @ t \<and> st_in s' = rest \<and> st_sent s' = st_sent s"
proof -
  have tp: "pkt_to_process (in_packet c) = length t"
    using assms(4-7) length_filled [OF assms(4)] by (auto simp: in_ok_def)
  obtain p' s' where l: "in_packet_loop e (in_packet c) s = Some (None, p', s')" "in_ok p'"
    "pkt_to_process p' = 0" "pkt_packet_length p' = k" "filled p' = h @ t" "st_got s' = st_got s @ t"
    "st_in s' = rest" "st_sent s' = st_sent s"
    by (rule in_packet_loop_receives [OF assms(1,4) _ assms(10), of n]) (use assms tp in auto)
  have bytes: "in_byte p' 0 = Some 5" "in_byte p' 1 = Some 0"
    using in_byte_filled [OF l(2,3)] l(5) assms(7,8,11,12) by (simp_all add: read_at_def)
  let ?c = "pahomqtt_set_socks5_state pahomqtt_cs_new (c\<lparr>in_packet := packet__cleanup p'\<rparr>)"
  have "socks5__read e c s = Some (0, ?c, s')"
    using assms(3,8) l(1,4) bytes
    by (simp add: socks5__read_def pahomqtt_get_socks5_state_def read_request_def Let_def)
  then show ?thesis using l assms(2) by (simp add: calm_def same_config_def)
qed

text \<open>The thread alone, when the socket is always ready and nobody stops it.\<close>

definition ready_tick :: thread_tick where
  "ready_tick = \<lparr>tick_elapsed = False, tick_stop = False, tick_ready = True\<rparr>"

fun thread_run :: "'n socks5_env \<Rightarrow> nat \<Rightarrow> thread_pc \<times> Clients \<times> 'n \<Rightarrow> (thread_pc \<times> Clients \<times> 'n) ub" where
  "thread_run e 0 x = Some x"
| "thread_run e (Suc k) x = Option.bind (Socks5_ReadThread_step e ready_tick x) (thread_run e k)"

lemma thread_run_read:
  assumes "socks5__read e c s = Some (rc, c', s')" "socks5State c \<noteq> pahomqtt_cs_new"
    "socks5State c' \<noteq> pahomqtt_cs_new" "rc \<noteq> PAHOMQTT_ERR_NOT_FINISHED"
  shows "thread_run e (Suc (Suc k)) (Thread_loop rc0, c, s) = thread_run e k (Thread_loop rc, c', s')"
  using assms by (simp add: ready_tick_def pahomqtt_get_socks5_state_def)

lemma thread_run_reply:
  assumes "good_env e" "calm c" "expecting 5 c" "socks5State c = pahomqtt_cs_socks5_request"
    "accepted_reply r" "5 < length r" "lively (length r) s" "st_in s = r @ rest"
  shows "\<exists>c' s'. thread_run e 3 (Thread_loop rc0, c, s) = Some (Thread_done 0, c', s') \<and>
    same_config c c' \<and> socks5State c' = pahomqtt_cs_new \<and> st_got s' = st_got s @ r \<and>
    st_in s' = rest \<and> st_sent s' = st_sent s"
proof -
  let ?h = "take 5 r" and ?t = "drop 5 r"
  have h: "length ?h = 5" "reply_length ?h = Some (length r)"
    using assms(5,6) by (auto simp: accepted_reply_def reply_length_def split: if_splits)
  have "lively (length ?t + 5) s" "st_in s = ?h @ ?t @ rest"
    using assms(6,7,8) by (simp_all add: append_assoc [symmetric] del: append_assoc)
  from socks5__read_reply_head [OF assms(1-4) this h] obtain c1 s1 where
    one: "socks5__read e c s = Some (PAHOMQTT_ERR_NOT_FINISHED, c1, s1)" "lively (length ?t) s1" "calm c1"
    "same_config c c1" "socks5State c1 = pahomqtt_cs_socks5_request" "in_ok (in_packet c1)"
    "filled (in_packet c1) = ?h" "pkt_packet_length (in_packet c1) = length r"
    "st_got s1 = st_got s @ ?h" "st_in s1 = ?t @ rest" "st_sent s1 = st_sent s" by auto
  have acc: "(?h @ ?t) ! 0 = 5" "(?h @ ?t) ! 1 = 0" using assms(5) by (simp_all add: accepted_reply_def)
  from socks5__read_reply_tail [OF assms(1) one(3,5-8) _ assms(6) _ one(10) acc, of 0] one(2) obtain c2 s2 where
    two: "socks5__read e c1 s1 = Some (0, c2, s2)" "calm c2" "same_config c1 c2"
    "socks5State c2 = pahomqtt_cs_new" "st_got s2 = st_got s1 @ ?t" "st_in s2 = rest" "st_sent s2 = st_sent s1"
    by auto
  have "thread_run e 3 (Thread_loop rc0, c, s) = Some (Thread_done 0, c2\<lparr>out_packet := []\<rparr>, s2)"
    using one(1,5) two(1,2,4) assms(4)
    by (simp add: numeral_3_eq_3 ready_tick_def pahomqtt_get_socks5_state_def thread_exit_def calm_def)
  then show ?thesis
    using one two same_config_trans [OF one(4) two(3)] by (auto simp: same_config_def)
qed


text \<open>The negotiation, up to the request.\<close>

definition requests :: "stream socks5_env \<Rightarrow> Clients \<Rightarrow> stream \<Rightarrow> bytes \<Rightarrow> bytes \<Rightarrow> nat \<Rightarrow> bytes \<Rightarrow> bool" where
  "requests e c s g out n rest \<longleftrightarrow>
     (\<exists>k c' s'. thread_run e (k + 3) (Thread_loop 0, c, s) = thread_run e 3 (Thread_loop 0, c', s') \<and>
        lively n s' \<and> calm c' \<and> expecting 5 c' \<and> same_config c c' \<and>
        socks5State c' = pahomqtt_cs_socks5_request \<and> st_sent s' = st_sent s @ out @ rfc_connect e c \<and>
        st_got s' = st_got s @ g \<and> st_in s' = rest)"

lemma negotiation_none:
  assumes "good_env e" "calm c" "expecting 2 c" "socks5State c = pahomqtt_cs_socks5_start"
    "address_ok e (serverURI c)" "lively (n + length (rfc_connect e c) + 2) s" "st_in s = [5, 0] @ rest"
  shows "requests e c s [5, 0] [] n rest"
proof -
  from socks5__read_method_none [OF assms] obtain c2 s2 where
    two: "socks5__read e c s = Some (0, c2, s2)" "socks5State c2 = pahomqtt_cs_socks5_request" and
    rest: "lively n s2" "calm c2" "expecting 5 c2" "same_config c c2"
      "st_sent s2 = st_sent s @ rfc_connect e c" "st_got s2 = st_got s @ [5, 0]" "st_in s2 = rest"
    by (auto simp: answers_def)
  have "thread_run e (2 + 3) (Thread_loop 0, c, s) = thread_run e 3 (Thread_loop 0, c2, s2)"
    using thread_run_read [OF two(1), of 3 0] two(2) assms(4) by simp
  with two rest show ?thesis
    unfolding requests_def by (intro exI [of _ 2] exI [of _ c2] exI [of _ s2]) simp
qed

lemma negotiation_userpass:
  assumes "good_env e" "calm c" "expecting 2 c" "socks5State c = pahomqtt_cs_socks5_start"
    "address_ok e (serverURI c)" "credentials_ok c" "socks5_username c \<noteq> None" "socks5_password c \<noteq> None"
    "lively ((n + length (rfc_connect e c) + 2) + length (rfc_userpass c) + 2) s"
    "st_in s = [5, 2, 1, 0] @ rest"
  shows "requests e c s [5, 2, 1, 0] (rfc_userpass c) n rest"
proof -
  from assms(10) have "st_in s = [5, 2] @ [1, 0] @ rest" by simp
  from socks5__read_method_userpass [OF assms(1-4,6-9) this] obtain c2 s2 where
    two: "socks5__read e c s = Some (0, c2, s2)" "socks5State c2 = pahomqtt_cs_socks5_userpass_reply" and
    s2: "lively (n + length (rfc_connect e c) + 2) s2" "calm c2" "expecting 2 c2" "same_config c c2"
      "st_sent s2 = st_sent s @ rfc_userpass c" "st_got s2 = st_got s @ [5, 2]" "st_in s2 = [1, 0] @ rest"
    by (auto simp: answers_def)
  note msgs = same_config_messages [OF s2(4)]
  have uri: "address_ok e (serverURI c2)" using assms(5) s2(4) by (simp add: same_config_def)
  have "lively (n + length (rfc_connect e c2) + 2) s2" using s2(1) by (simp add: msgs)
  from socks5__read_status [OF assms(1) s2(2,3) two(2) uri this s2(7)] obtain c3 s3 where
    three: "socks5__read e c2 s2 = Some (0, c3, s3)" "socks5State c3 = pahomqtt_cs_socks5_request" and
    s3: "lively n s3" "calm c3" "expecting 5 c3" "same_config c2 c3"
      "st_sent s3 = st_sent s2 @ rfc_connect e c2" "st_got s3 = st_got s2 @ [1, 0]" "st_in s3 = rest"
    by (auto simp: answers_def)
  have "thread_run e (2 + (2 + 3)) (Thread_loop 0, c, s) = thread_run e 3 (Thread_loop 0, c3, s3)"
    using thread_run_read [OF two(1), of "2 + 3" 0] thread_run_read [OF three(1), of 3 0] assms(4) two(2) three(2)
    by simp
  then have "thread_run e (4 + 3) (Thread_loop 0, c, s) = thread_run e 3 (Thread_loop 0, c3, s3)" by simp
  with three s2 s3 msgs same_config_trans [OF s2(4) s3(4)] show ?thesis
    unfolding requests_def by (intro exI [of _ 4] exI [of _ c3] exI [of _ s3]) simp
qed

text \<open>The whole handshake on a connection that always makes progress.\<close>

lemma handshake_run:
  assumes "good_env e" "calm c" "credentials_ok c" "address_ok e (serverURI c)"
    "g = [5, 0] \<and> out = rfc_greeting c \<or>
     g = [5, 2, 1, 0] \<and> out = rfc_greeting c @ rfc_userpass c \<and> socks5_username c \<noteq> None \<and> socks5_password c \<noteq> None"
    "accepted_reply r" "5 < length r" "st_in s = g @ r @ rest"
    "lively (length g + length r + length (out @ rfc_connect e c)) s"
  shows "\<exists>c1 s1 k c2 s2.
    socks5__send e (pahomqtt_set_socks5_state pahomqtt_cs_socks5_new c) s = Some (0, c1, s1) \<and>
    thread_run e k (Thread_loop 0, c1, s1) = Some (Thread_done 0, c2, s2) \<and>
    socks5State c2 = pahomqtt_cs_new \<and> st_got s2 = st_got s @ g @ r \<and>
    st_sent s2 = st_sent s @ out @ rfc_connect e c \<and> st_in s2 = rest"
proof -
  let ?c = "pahomqtt_set_socks5_state pahomqtt_cs_socks5_new c"
  have calm: "calm ?c" using assms(2) by (simp add: calm_def)
  let ?M = "length g + length r + length (out @ rfc_connect e c) - length (rfc_greeting c)"
  have "lively (?M + length (rfc_greeting ?c)) s"
    using assms(9) by (rule lively_mono) (use assms(5) in auto)
  from socks5__send_greeting [OF assms(1) calm _ this] obtain c1 s1 where
    one: "socks5__send e ?c s = Some (0, c1, s1)" "lively ?M s1" "calm c1" "expecting 2 c1"
    "same_config ?c c1" "socks5State c1 = pahomqtt_cs_socks5_start"
    "st_sent s1 = st_sent s @ rfc_greeting c" "st_got s1 = st_got s" "st_in s1 = st_in s"
    by (auto simp: sends_def)
  have conf: "same_config c c1" using one(5) by (simp add: same_config_def)
  have uri: "address_ok e (serverURI c1)" using assms(4) conf by (simp add: same_config_def)
  note msgs = same_config_messages [OF conf]
  have "\<exists>out'. out = rfc_greeting c @ out' \<and> requests e c1 s1 g out' (length r) (r @ rest)"
    using assms(5)
  proof (elim disjE conjE)
    assume g: "g = [5, 0]" "out = rfc_greeting c"
    have "lively (length r + length (rfc_connect e c1) + 2) s1" using one(2) g by (simp add: msgs)
    from negotiation_none [OF assms(1) one(3,4,6) uri this] one(9) assms(8) g show ?thesis by simp
  next
    assume g: "g = [5, 2, 1, 0]" "out = rfc_greeting c @ rfc_userpass c"
      "socks5_username c \<noteq> None" "socks5_password c \<noteq> None"
    have up: "credentials_ok c1" "socks5_username c1 \<noteq> None" "socks5_password c1 \<noteq> None"
      using g(3,4) conf assms(3) by (auto simp: same_config_def credentials_ok_def)
    have "lively ((length r + length (rfc_connect e c1) + 2) + length (rfc_userpass c1) + 2) s1"
      using one(2) by (rule lively_mono) (simp add: g msgs)
    from negotiation_userpass [OF assms(1) one(3,4,6) uri up this] one(9) assms(8) g
    show ?thesis by (auto simp: msgs)
  qed
  then obtain out' k c' s' where out: "out = rfc_greeting c @ out'" and
    run: "thread_run e (k + 3) (Thread_loop 0, c1, s1) = thread_run e 3 (Thread_loop 0, c', s')" and
    at: "lively (length r) s'" "calm c'" "expecting 5 c'" "socks5State c' = pahomqtt_cs_socks5_request"
      "st_sent s' = st_sent s1 @ out' @ rfc_connect e c1" "st_got s' = st_got s1 @ g" "st_in s' = r @ rest"
    unfolding requests_def by blast
  from thread_run_reply [OF assms(1) at(2,3,4) assms(6,7) at(1,7), of 0] obtain c2 s2 where
    fin: "thread_run e 3 (Thread_loop 0, c', s') = Some (Thread_done 0, c2, s2)"
    "socks5State c2 = pahomqtt_cs_new" "st_got s2 = st_got s' @ r" "st_in s2 = rest" "st_sent s2 = st_sent s'"
    by blast
  have bytes: "st_got s2 = st_got s @ g @ r" "st_sent s2 = st_sent s @ out @ rfc_connect e c"
    using fin(3,5) at(5,6) one(7,8) out msgs(3) by simp_all
  have whole: "thread_run e (k + 3) (Thread_loop 0, c1, s1) = Some (Thread_done 0, c2, s2)"
    unfolding run by (rule fin(1))
  show ?thesis by (intro exI conjI) (rule one(1) whole fin(2) bytes fin(4))+
qed


lemma thread_run_steps:
  assumes "thread_run e k (t, c, n) = Some (t', c', n')" "m \<noteq> Main_start"
  shows "(proxy_connect_step e)\<^sup>*\<^sup>* (m, t, c, n) (m, t', c', n')"
  using assms(1)
proof (induction k arbitrary: t c n)
  case (Suc k)
  then obtain t1 c1 n1 where st: "Socks5_ReadThread_step e ready_tick (t, c, n) = Some (t1, c1, n1)"
    and run: "thread_run e k (t1, c1, n1) = Some (t', c', n')" by auto
  show ?case
    by (rule converse_rtranclp_into_rtranclp [OF proxy_connect_step.thread [OF st assms(2)] Suc.IH [OF run]])
qed simp

lemma handshake_steps:
  assumes "socks5__send e (pahomqtt_set_socks5_state pahomqtt_cs_socks5_new c) s = Some (rc, c1, s1)"
    "thread_run e k (Thread_loop 0, c1, s1) = Some (t, c2, s2)" "socks5State c2 = pahomqtt_cs_new"
    "0 < net_socket (net c)"
  shows "(proxy_connect_step e)\<^sup>*\<^sup>* (Main_start, Not_started, c, s) (Main_done 0, t, c2, s2)"
proof -
  let ?c = "pahomqtt_set_socks5_state pahomqtt_cs_socks5_new c"
  have "proxy_connect_step e (Main_start, Not_started, c, s) (Main_send, Thread_loop 0, ?c, s)"
    using proxy_connect_step.start [of e c s] assms(4) by (simp add: thread_start_def)
  moreover have "proxy_connect_step e (Main_send, Thread_loop 0, ?c, s) (Main_poll 0, Thread_loop 0, c1, s1)"
    by (rule proxy_connect_step.send [OF assms(1)])
  moreover have "(proxy_connect_step e)\<^sup>*\<^sup>* (Main_poll 0, Thread_loop 0, c1, s1) (Main_poll 0, t, c2, s2)"
    by (rule thread_run_steps [OF assms(2)]) simp
  moreover have "proxy_connect_step e (Main_poll 0, t, c2, s2) (Main_done 0, t, c2, s2)"
    by (rule proxy_connect_step.poll [of False]) (simp add: assms(3) pahomqtt_get_socks5_state_def)
  ultimately show ?thesis
    by (meson converse_rtranclp_into_rtranclp rtranclp.rtrancl_into_rtrancl)
qed

section \<open>An example\<close>

definition sample_env :: "stream socks5_env" where
  "sample_env = \<lparr>s5_recv = stream_recv, s5_send = stream_send,
     s5_pton4 = (\<lambda>u. if u = bytes_of ''10.0.0.1'' then Some [10, 0, 0, 1] else None),
     s5_pton6 = (\<lambda>u. None), s5_alloc = always_alloc, s5_junk = 0xAA\<rparr>"

definition sample_client :: Clients where
  "sample_client = blank_client\<lparr>net := (net blank_client)\<lparr>net_socket := 3\<rparr>,
     socks5_username := Some (bytes_of ''user''), socks5_password := Some (bytes_of ''pw''),
     serverURI := bytes_of ''broker''\<rparr>"

definition sample_stream :: stream where
  "sample_stream = \<lparr>st_in = [5, 2, 1, 0] @ [5, 0, 0, 1, 10, 0, 0, 2, 4, 56] @ [0x20, 2, 0, 0],
     st_got = [], st_sent = [], st_moves = replicate 60 (Move 3)\<rparr>"

lemma sample_good: "good_env sample_env"
  by (auto simp: good_env_def on_stream_def pton_ok_def sample_env_def)

lemma sample_calm: "calm sample_client" "credentials_ok sample_client" "0 < net_socket (net sample_client)"
  "address_ok sample_env (serverURI sample_client)"
  by (simp_all add: calm_def credentials_ok_def sample_client_def blank_client_def address_ok_def)

lemma sample_messages: "rfc_greeting sample_client = [5, 2, 0, 2]"
  "length (rfc_userpass sample_client) = 9" "length (rfc_connect sample_env sample_client) = 13"
  by (simp_all add: rfc_greeting_def rfc_userpass_def rfc_connect_def rfc_address_def rfc_string_def
      sample_client_def sample_env_def bytes_of_def)

lemma sample_credentials: "socks5_username sample_client \<noteq> None" "socks5_password sample_client \<noteq> None"
  by (simp_all add: sample_client_def)

lemma sample_reply: "accepted_reply [5, 0, 0, 1, 10, 0, 0, 2, 4, 56]"
  by (simp add: accepted_reply_def reply_length_def)

section \<open>Properties\<close>





lemma packet_write_loop_rc:
  "packet_write_loop e p n = Some (Some rc, p', n') \<Longrightarrow> rc \<in> {0, PAHOMQTT_ERR_CONN_LOST, PAHOMQTT_ERR_ERRNO}"
proof (induction "pkt_to_process p" arbitrary: p n rule: less_induct)
  case less
  from less.prems show ?case
    by (subst (asm) packet_write_loop.simps)
      (auto dest!: less.hyps [rotated] split: option.splits if_splits prod.splits)
qed

lemma packet_queue_loop_rc:
  "packet_queue_loop e q n = Some (rc, q', n') \<Longrightarrow> rc \<in> {0, PAHOMQTT_ERR_CONN_LOST, PAHOMQTT_ERR_ERRNO}"
proof (induction e q n rule: packet_queue_loop.induct)
  case (2 e p rest n)
  then show ?case
    using packet_write_loop_rc [of e p n] by (auto split: option.splits)
qed auto

lemma socks5__send_rc:
  assumes "socks5__send e c n = Some (rc, c', n')"
  shows "rc \<in> {0, PAHOMQTT_ERR_NOMEM, PAHOMQTT_ERR_NO_CONN, PAHOMQTT_ERR_CONN_LOST, PAHOMQTT_ERR_ERRNO}"
proof -
  have q: "rc \<in> {0, PAHOMQTT_ERR_NOMEM, PAHOMQTT_ERR_NO_CONN, PAHOMQTT_ERR_CONN_LOST, PAHOMQTT_ERR_ERRNO}"
    if "expect_reply e k p d m = Some (rc, d', m')" for e k p d m rc d' and m'
    using that
    by (auto simp: expect_reply_def Let_def packet__queue_def packet__write_def
        dest: packet_queue_loop_rc split: if_splits)
  show ?thesis
    using assms
    by (auto simp: socks5__send_def send_greeting_def send_request_def send_userpass_def Let_def
        dest!: q split: if_splits option.splits)
qed

lemma socks5__read_released:
  assumes "in_dead (in_packet c)" "pkt_to_process (in_packet c) = 0"
    "socks5State c = pahomqtt_cs_socks5_start \<or> socks5State c = pahomqtt_cs_socks5_userpass_reply \<or>
     socks5State c = pahomqtt_cs_socks5_request"
  shows "socks5__read e c n = None"
proof -
  have "in_packet_loop e (in_packet c) n = Some (None, in_packet c, n)"
    using assms(2) by (subst in_packet_loop.simps) simp
  then show ?thesis
    using assms(1,3)
    by (auto simp: socks5__read_def pahomqtt_get_socks5_state_def read_start_def read_userpass_reply_def
        read_request_def extend_reply_def in_byte_def in_dead_def)
qed

lemma in_packet_loop_error:
  "in_packet_loop e p n = Some (Some rc, p', n') \<Longrightarrow> rc \<noteq> 0 \<Longrightarrow>
   in_dead p' \<and> pkt_to_process p' = 0"
proof (induction "pkt_to_process p" arbitrary: p n rule: less_induct)
  case less
  from less.prems show ?case
    by (subst (asm) in_packet_loop.simps)
      (auto simp: packet__cleanup_def in_dead_def dest!: less.hyps [rotated]
        split: option.splits if_splits prod.splits)
qed

definition released :: "Clients \<Rightarrow> bool" where
  "released c \<longleftrightarrow> in_dead (in_packet c) \<and> pkt_to_process (in_packet c) = 0"

lemma released_cleanup [simp]:
  "released (c\<lparr>in_packet := packet__cleanup p\<rparr>)"
  "released (pahomqtt_set_socks5_state st c) = released c"
  by (simp_all add: released_def) (simp add: packet__cleanup_def)

lemma extend_reply_error:
  assumes "extend_reply e c n = Some (rc, c', n')" "rc \<noteq> PAHOMQTT_ERR_NOT_FINISHED"
  shows "\<exists>p. c' = c\<lparr>in_packet := packet__cleanup p\<rparr>"
proof -
  let ?p = "in_packet c"
  from assms(1) obtain payload extra where
    "(case extra of
        None \<Rightarrow> Some (PAHOMQTT_ERR_PROTOCOL, c\<lparr>in_packet := packet__cleanup ?p\<rparr>, n)
      | Some missing \<Rightarrow>
          if s5_alloc e (Bytes (pkt_packet_length ?p + missing))
          then Some (PAHOMQTT_ERR_NOT_FINISHED,
            c\<lparr>in_packet := ?p\<lparr>pkt_to_process := pkt_to_process ?p + missing,
                pkt_packet_length := pkt_packet_length ?p + missing,
                pkt_payload := Some (take (pkt_packet_length ?p + missing) payload @
                  replicate (pkt_packet_length ?p + missing - length payload) (s5_junk e))\<rparr>\<rparr>, n)
          else Some (PAHOMQTT_ERR_NOMEM,
            c\<lparr>in_packet := packet__cleanup (?p\<lparr>pkt_packet_length := pkt_packet_length ?p + missing\<rparr>)\<rparr>, n))
     = Some (rc, c', n')"
    unfolding extend_reply_def Let_def bind_Some_iff by blast
  with assms(2) show ?thesis by (auto split: option.splits if_splits)
qed

lemma read_errors:
  assumes "rc \<in> {PAHOMQTT_ERR_PROTOCOL, PAHOMQTT_ERR_INVAL, PAHOMQTT_ERR_AUTH, PAHOMQTT_ERR_PROXY}"
  shows "read_start e c n = Some (rc, c', n') \<Longrightarrow> released c' \<and> socks5State c' = socks5State c"
    "read_userpass_reply e c n = Some (rc, c', n') \<Longrightarrow> released c' \<and> socks5State c' = socks5State c"
    "read_request e c n = Some (rc, c', n') \<Longrightarrow>
       released c' \<and> (socks5State c' = socks5State c \<or> socks5State c' = pahomqtt_cs_socks5_new)"
proof -
  have sends: "socks5__send e d m \<noteq> Some (rc, d', m')" for d m d' m'
    using socks5__send_rc [of e d m rc d' m'] assms by auto
  show "read_start e c n = Some (rc, c', n') \<Longrightarrow> released c' \<and> socks5State c' = socks5State c"
    using sends by (auto simp: read_start_def Let_def split: if_splits)
  show "read_userpass_reply e c n = Some (rc, c', n') \<Longrightarrow> released c' \<and> socks5State c' = socks5State c"
    using sends by (auto simp: read_userpass_reply_def Let_def split: if_splits)
  assume r: "read_request e c n = Some (rc, c', n')"
  show "released c' \<and> (socks5State c' = socks5State c \<or> socks5State c' = pahomqtt_cs_socks5_new)"
  proof (cases "pkt_packet_length (in_packet c) = 5")
    case True
    then have "extend_reply e c n = Some (rc, c', n')" using r by (simp add: read_request_def)
    moreover have "rc \<noteq> PAHOMQTT_ERR_NOT_FINISHED" using assms by auto
    ultimately obtain p where "c' = c\<lparr>in_packet := packet__cleanup p\<rparr>"
      using extend_reply_error [of e c n rc c' n'] by auto
    then show ?thesis by simp
  next
    case False
    with r assms show ?thesis by (auto simp: read_request_def Let_def split: if_splits)
  qed
qed

text \<open>
  C22.  After a malformed or negative answer the incoming packet is released and the state left as it
  was: when the reading thread calls \<open>socks5__read\<close> again, which it does as soon as the proxy
  closes the connection, the behaviour is undefined (a read through \<open>NULL\<close>).  Only a refused
  request leaves a state in which nothing more is read.
\<close>

theorem socks5_read_after_error:
  assumes "socks5__read e c n = Some (rc, c', n')"
    "rc \<in> {PAHOMQTT_ERR_PROTOCOL, PAHOMQTT_ERR_INVAL, PAHOMQTT_ERR_AUTH, PAHOMQTT_ERR_PROXY}"
  shows "socks5State c' = pahomqtt_cs_socks5_new \<or> socks5__read e2 c' n2 = None"
proof -
  let ?st = "socks5State c"
  have waiting: "?st = pahomqtt_cs_socks5_start \<or> ?st = pahomqtt_cs_socks5_userpass_reply \<or>
      ?st = pahomqtt_cs_socks5_request"
    using assms by (auto simp: socks5__read_def Let_def pahomqtt_get_socks5_state_def split: if_splits)
  obtain ret p n1 where loop: "in_packet_loop e (in_packet c) n = Some (ret, p, n1)"
    using assms(1) waiting by (auto simp: socks5__read_def pahomqtt_get_socks5_state_def)
  let ?c = "c\<lparr>in_packet := p\<rparr>"
  have "released c' \<and> (socks5State c' = ?st \<or> socks5State c' = pahomqtt_cs_socks5_new)"
  proof (cases ret)
    case (Some r)
    then have "c' = ?c" "rc = r"
      using assms(1) loop waiting by (auto simp: socks5__read_def pahomqtt_get_socks5_state_def)
    then show ?thesis
      using in_packet_loop_error [of e "in_packet c" n r p n1] loop Some assms(2) by (auto simp: released_def)
  next
    case None
    then consider "read_start e ?c n1 = Some (rc, c', n')" | "read_userpass_reply e ?c n1 = Some (rc, c', n')"
      | "read_request e ?c n1 = Some (rc, c', n')"
      using assms(1) loop waiting by (auto simp: socks5__read_def pahomqtt_get_socks5_state_def)
    then show ?thesis by cases (use read_errors [OF assms(2)] in fastforce)+
  qed
  then show ?thesis using socks5__read_released [of c' e2 n2] waiting by (auto simp: released_def)
qed

definition awaiting :: "nat \<Rightarrow> pahomqtt_client_socks5_state \<Rightarrow> Clients" where
  "awaiting k st = sample_client\<lparr>socks5State := st, in_packet := (in_packet sample_client)\<lparr>
     pkt_payload := Some (replicate k 0), pkt_packet_length := k, pkt_to_process := k, pkt_pos := 0\<rparr>\<rparr>"

definition arriving :: "bytes \<Rightarrow> stream" where
  "arriving bs = \<lparr>st_in = bs, st_got = [], st_sent = [], st_moves = replicate 60 (Move 30)\<rparr>"

lemma awaiting_ok: "calm (awaiting k st)" "expecting k (awaiting k st)" "socks5State (awaiting k st) = st"
  "credentials_ok (awaiting k st)" "address_ok sample_env (serverURI (awaiting k st))"
  "socks5_username (awaiting k st) \<noteq> None" "socks5_password (awaiting k st) \<noteq> None"
  using sample_calm sample_credentials
  by (simp_all add: awaiting_def calm_def expecting_def in_ok_def filled_def credentials_ok_def)

lemma arriving_lively: "n \<le> 60 \<Longrightarrow> lively n (arriving bs)" "st_in (arriving bs) = bs"
  by (simp_all add: lively_def arriving_def)

theorem socks5_read_after_error_witness:
  "\<exists>c' n'. socks5__read sample_env (awaiting 2 pahomqtt_cs_socks5_start) (arriving [5, 0xFF]) = Some (PAHOMQTT_ERR_AUTH, c', n') \<and>
    (socks5State c' = pahomqtt_cs_socks5_new \<or> socks5__read sample_env c' (arriving []) = None)"
proof -
  let ?c = "awaiting 2 pahomqtt_cs_socks5_start"
  obtain p s' where "socks5__read sample_env ?c (arriving [5, 0xFF]) = read_start sample_env (?c\<lparr>in_packet := p\<rparr>) s'"
    "in_byte p 0 = Some 5" "in_byte p 1 = Some 0xFF"
    by (rule socks5__read_two_bytes [OF sample_good awaiting_ok(2) [of 2 pahomqtt_cs_socks5_start], where n = 0 and s = "arriving [5, 0xFF]"
          and a = 5 and b = "0xFF" and rest = "[]"])
      (simp_all add: awaiting_ok arriving_lively)
  then have "socks5__read sample_env ?c (arriving [5, 0xFF]) =
      Some (PAHOMQTT_ERR_AUTH, ?c\<lparr>in_packet := packet__cleanup p\<rparr>, s')"
    by (simp add: read_start_def Let_def)
  with socks5_read_after_error [OF this, of sample_env "arriving []"] show ?thesis by auto
qed

text \<open>
  C31.  A proxy that selects user name and password although the client only offered to connect
  without authentication makes the client read a \<open>NULL\<close> user name.
\<close>

theorem socks5_unoffered_method:
  assumes "good_env e" "expecting 2 c" "socks5State c = pahomqtt_cs_socks5_start" "socks5_username c = None"
    "lively 2 s" "st_in s = [5, 2] @ rest"
  shows "socks5__read e c s = None"
proof -
  obtain p s' where "socks5__read e c s = read_start e (c\<lparr>in_packet := p\<rparr>) s'"
    "in_byte p 0 = Some 5" "in_byte p 1 = Some 2"
    by (rule socks5__read_two_bytes [OF assms(1,2) _ assms(6), of 0])
      (use assms(3,5) in \<open>simp_all add: numeral_2_eq_2\<close>)
  then show ?thesis
    using assms(1,4)
    by (simp add: read_start_def Let_def socks5__send_def pahomqtt_get_socks5_state_def send_userpass_def good_env_def
        del: bind_Some_iff)
qed

theorem socks5_unoffered_method_witness:
  "socks5__read sample_env ((awaiting 2 pahomqtt_cs_socks5_start)\<lparr>socks5_username := None\<rparr>) (arriving [5, 2]) = None"
  by (rule socks5_unoffered_method [OF sample_good, where rest = "[]"])
    (use awaiting_ok(2) [of 2 pahomqtt_cs_socks5_start] in \<open>simp_all add: awaiting_ok arriving_lively expecting_def\<close>)

text \<open>
  Credentials of any length: the length bytes are taken modulo 256 and only that many bytes
  of each are sent, so from 256 bytes on a different user name or password goes to the proxy.
\<close>

theorem socks5_long_credentials:
  assumes "good_env e" "calm c" "socks5State c = pahomqtt_cs_socks5_send_userpass"
    "socks5_username c = Some u" "socks5_password c = Some p" "lively 600 s"
  shows "\<exists>c' s'. socks5__send e c s = Some (0, c', s') \<and>
    st_sent s' = st_sent s @ [1, of_nat (length u)] @ take (length u mod 256) u @
      [of_nat (length p)] @ take (length p mod 256) p"
proof -
  let ?u = "take (length u mod 256) u" and ?p = "take (length p mod 256) p"
  have len: "length ?u = length u mod 256" "length ?p = length p mod 256" by simp_all
  have w: "(of_nat (length ?u) :: byte) = of_nat (length u)" "(of_nat (length ?p) :: byte) = of_nat (length p)"
    unfolding len by (simp_all add: byte_of_nat_eq_iff)
  let ?msg = "[1, of_nat (length u)] @ ?u @ [of_nat (length p)] @ ?p"
  let ?k = "3 + length u mod 256 + length p mod 256"
  let ?pk = "empty_packet\<lparr>pkt_packet_length := ?k, pkt_payload := Some ?msg\<rparr>"
  have st: "store_all [(0, [1]), (1, [of_nat (length u mod 256)]), (2, ?u), (2 + length u mod 256, [of_nat (length p mod 256)]),
      (3 + length u mod 256, ?p)] (replicate ?k (s5_junk e)) = Some ?msg"
    using userpass_payload [of ?u ?p "s5_junk e"] w unfolding len rfc_string_def by simp
  have "socks5__send e c s = expect_reply e 2 ?pk (pahomqtt_set_socks5_state pahomqtt_cs_socks5_userpass_reply c) s"
    using assms(1,3,4,5) st
    by (simp add: socks5__send_def pahomqtt_get_socks5_state_def good_env_def send_userpass_def
        malloc_bytes_def Let_def del: store_all_Cons bind_Some_iff)
  moreover have "pkt_packet_length ?pk = length ?msg" by simp
  moreover have "lively (0 + length ?msg) s"
    using assms(6) by (rule lively_mono) (use mod_less_divisor [of 256 "length u"] mod_less_divisor [of 256 "length p"] in simp)
  ultimately show ?thesis
    using sends_expect [OF assms(1,2), of pahomqtt_cs_socks5_userpass_reply 0 ?msg s ?pk 2] by (auto simp: sends_def)
qed

theorem socks5_long_credentials_witness:
  "\<exists>c' s'. socks5__send sample_env
      ((awaiting 2 pahomqtt_cs_socks5_send_userpass)\<lparr>socks5_username := Some (replicate 256 65), socks5_password := Some [66]\<rparr>)
      ((arriving [])\<lparr>st_moves := replicate 600 (Move 1)\<rparr>) = Some (0, c', s') \<and>
    st_sent s' = st_sent ((arriving [])\<lparr>st_moves := replicate 600 (Move 1)\<rparr>) @ [1, of_nat (length (replicate 256 (65 :: byte)))] @
      take (length (replicate 256 (65 :: byte)) mod 256) (replicate 256 65) @
      [of_nat (length [66 :: byte])] @ take (length [66 :: byte] mod 256) [66]"
  by (rule socks5_long_credentials [OF sample_good])
    (use awaiting_ok(1) [of 2 pahomqtt_cs_socks5_send_userpass] in \<open>simp_all add: awaiting_ok calm_def lively_def\<close>)

text \<open>
  C32.  A proxy that reports its address as a domain name, in the form of RFC 1928 with a length, the
  name and two bytes of port: the handshake ends two bytes early, and the port is left in front of
  the MQTT stream.
\<close>

theorem socks5_domain_reply_unread:
  assumes "good_env e" "calm c" "expecting 5 c" "socks5State c = pahomqtt_cs_socks5_request"
    "0 < length name" "length name < 256" "lively (5 + length name) s"
    "st_in s = [5, 0, 0, 3] @ rfc_string name @ [p0, p1] @ rest"
  shows "\<exists>c' s'. thread_run e 3 (Thread_loop 0, c, s) = Some (Thread_done 0, c', s') \<and>
    socks5State c' = pahomqtt_cs_new \<and> st_in s' = [p0, p1] @ rest"
proof -
  let ?r = "[5, 0, 0, 3] @ rfc_string name"
  have "unat (of_nat (length name) :: byte) = length name" using assms(6) by (simp add: unat_of_nat_byte)
  then have acc: "accepted_reply ?r" by (simp add: accepted_reply_def reply_length_def rfc_string_def)
  have len: "length ?r = 5 + length name" by (simp add: rfc_string_def)
  have "5 < length ?r" "lively (length ?r) s" using assms(5,7) unfolding len by simp_all
  from thread_run_reply [OF assms(1-4) acc this, of "[p0, p1] @ rest" 0] assms(8)
  show ?thesis by auto
qed

theorem socks5_domain_reply_unread_witness:
  "\<exists>c' s'. thread_run sample_env 3 (Thread_loop 0, awaiting 5 pahomqtt_cs_socks5_request,
        arriving ([5, 0, 0, 3] @ rfc_string [97, 98] @ [4, 56] @ [0x20])) = Some (Thread_done 0, c', s') \<and>
    socks5State c' = pahomqtt_cs_new \<and> st_in s' = [4, 56] @ [0x20]"
  by (rule socks5_domain_reply_unread [OF sample_good awaiting_ok(1,2,3)]) (simp_all add: arriving_lively)

lemma socks5__read_empty_domain:
  assumes "socks5State c = pahomqtt_cs_socks5_request" "pkt_payload (in_packet c) = Some [5, 0, 0, 3, 0]"
    "pkt_packet_length (in_packet c) = 5" "pkt_to_process (in_packet c) = 0" "s5_alloc e (Bytes 5)"
  shows "socks5__read e c n = Some (PAHOMQTT_ERR_NOT_FINISHED, c, n)"
proof -
  have l: "in_packet_loop e (in_packet c) n = Some (None, in_packet c, n)"
    using assms(4) by (subst in_packet_loop.simps) simp
  have "c\<lparr>in_packet := (in_packet c)\<lparr>pkt_to_process := 0, pkt_packet_length := 5,
      pkt_payload := Some [5, 0, 0, 3, 0]\<rparr>\<rparr> = c"
    using assms(2-4) by (cases c; cases "in_packet c") simp
  then show ?thesis
    using assms l
    by (simp add: socks5__read_def pahomqtt_get_socks5_state_def read_request_def extend_reply_def read_at_def
        Let_def del: bind_Some_iff)
qed



text \<open>
  C34.  When the greeting cannot be sent at once it stays in the queue, nothing sends it later, and
  when the time is up the thread frees the only packet of the queue twice.
\<close>

theorem socks5_blocked_greeting_double_free:
  assumes "good_env e" "calm c" "socks5State c = pahomqtt_cs_socks5_new" "st_moves s = Move 0 # ms"
    "tick_elapsed t"
  shows "\<exists>c' s'. socks5__send e c s = Some (PAHOMQTT_ERR_SUCCESS, c', s') \<and> st_sent s' = st_sent s \<and>
    Socks5_ReadThread_step e t (Thread_loop 0, c', s') = None"
proof -
  let ?k = "if socks5_username c \<noteq> None then 4 else 3"
  let ?p = "empty_packet\<lparr>pkt_packet_length := ?k, pkt_payload := Some (rfc_greeting c)\<rparr>"
  let ?q = "?p\<lparr>pkt_pos := 0, pkt_to_process := ?k\<rparr>"
  have send: "socks5__send e c s =
    expect_reply e 2 ?p (pahomqtt_set_socks5_state pahomqtt_cs_socks5_start c) s"
    using assms(1,3)
    by (auto simp: socks5__send_def pahomqtt_get_socks5_state_def good_env_def send_greeting_def
        malloc_bytes_def rfc_greeting_def greeting_payload [unfolded One_nat_def]
        simp del: store_all_Cons bind_Some_iff)
  have "length (rfc_greeting c) = ?k" by (simp add: rfc_greeting_def)
  moreover have "net__write e (take ?k (drop 0 (rfc_greeting c))) s =
      Some ((0, COMPAT_EWOULDBLOCK), s\<lparr>st_sent := st_sent s, st_moves := ms\<rparr>)"
    using net__write_move [of e s 0 ms] assms(1,4) by (simp add: good_env_def)
  ultimately have "packet_write_loop e ?q s = Some (Some PAHOMQTT_ERR_SUCCESS, ?q, s\<lparr>st_moves := ms\<rparr>)"
    by (subst packet_write_loop.simps) simp
  then have "\<exists>c'. expect_reply e 2 ?p (pahomqtt_set_socks5_state pahomqtt_cs_socks5_start c) s =
      Some (PAHOMQTT_ERR_SUCCESS, c', s\<lparr>st_moves := ms\<rparr>) \<and> length (out_packet c') = 1 \<and>
      socks5State c' = pahomqtt_cs_socks5_start"
    using assms(1,2)
    by (simp add: expect_reply_def Let_def malloc_bytes_def good_env_def calm_def packet__queue_def
        packet__write_def pahomqtt_get_socks5_state_def)
  then obtain c' where "socks5__send e c s = Some (PAHOMQTT_ERR_SUCCESS, c', s\<lparr>st_moves := ms\<rparr>)"
    "length (out_packet c') = 1" "socks5State c' = pahomqtt_cs_socks5_start"
    unfolding send by blast
  then show ?thesis
    using assms(5)
    by (intro exI [of _ c'] exI [of _ "s\<lparr>st_moves := ms\<rparr>"])
      (simp add: pahomqtt_get_socks5_state_def thread_exit_def)
qed

theorem socks5_blocked_greeting_double_free_witness:
  "\<exists>c' s'. socks5__send sample_env (pahomqtt_set_socks5_state pahomqtt_cs_socks5_new sample_client)
      ((arriving [])\<lparr>st_moves := [Move 0]\<rparr>) = Some (PAHOMQTT_ERR_SUCCESS, c', s') \<and>
    st_sent s' = st_sent ((arriving [])\<lparr>st_moves := [Move 0]\<rparr>) \<and>
    Socks5_ReadThread_step sample_env (ready_tick\<lparr>tick_elapsed := True\<rparr>) (Thread_loop 0, c', s') = None"
  by (rule socks5_blocked_greeting_double_free [OF sample_good]) (use sample_calm in \<open>simp_all add: calm_def\<close>)

text \<open>The addresses on which every call succeeds.\<close>

definition usable :: "bool \<Rightarrow> tcp_candidate \<Rightarrow> bool" where
  "usable blocking rp \<longleftrightarrow> tc_socket rp \<noteq> INVALID_SOCKET \<and> tc_family rp \<in> {AF_INET, AF_INET6} \<and>
     tc_nonblock_ok rp \<and>
     (fst (tc_connect rp) = 0 \<or> snd (tc_connect rp) \<in> {EINPROGRESS, COMPAT_EWOULDBLOCK})"

lemma try_addresses_find:
  "try_addresses False blocking rps =
     (case List.find (usable blocking) rps of
        None \<Rightarrow> (PAHOMQTT_ERR_ERRNO, INVALID_SOCKET)
      | Some rp \<Rightarrow> (if fst (tc_connect rp) < 0 then PAHOMQTT_ERR_CONN_PENDING else fst (tc_connect rp), tc_socket rp))"
  by (induction rps)
    (auto simp: usable_def net__socket_nonblock_def Let_def split: prod.split)

text \<open>
  C34.  \<open>socks5_reconnect\<close> either connects the socket of the first address whose calls succeed, or
  reports why not, keeps the old socket and sets the state to \<open>pahomqtt_cs_connect_pending\<close>.
\<close>

theorem socks5_reconnect_result:
  assumes "socks5_host c = Some h" "getaddrinfo h = Inr rps"
    "\<forall>rp \<in> set rps. fst (tc_connect rp) = 0 \<or> fst (tc_connect rp) = - 1"
  shows "socks5_reconnect getaddrinfo c blocking =
    (if socks5_port c = 0 then (PAHOMQTT_ERR_NOT_SUPPORTED, c\<lparr>socks5State := pahomqtt_cs_connect_pending\<rparr>)
     else case List.find (usable blocking) rps of
       None \<Rightarrow> (PAHOMQTT_ERR_ERRNO, c\<lparr>socks5State := pahomqtt_cs_connect_pending\<rparr>)
     | Some rp \<Rightarrow> (fst (tc_connect rp), c\<lparr>net := (net c)\<lparr>net_socket := tc_socket rp\<rparr>\<rparr>))"
proof -
  have r: "fst (tc_connect rp) = 0 \<or> fst (tc_connect rp) = - 1" if "List.find P rps = Some rp" for P rp
    using that assms(3) by (auto simp: find_Some_iff)
  show ?thesis
    using assms(1,2)
    by (auto dest!: r simp: socks5_reconnect_def net__socket_connect_def net__try_connect_def net__try_connect_tcp_def
        try_addresses_find pahomqtt_set_socks5_state_def split: option.splits)
qed

theorem socks5_reconnect_result_witness:
  "socks5_reconnect (\<lambda>h. Inr [\<lparr>tc_family = 1, tc_socket = 7, tc_bind_ok = True, tc_nonblock_ok = True, tc_connect = (0, 0)\<rparr>,
      \<lparr>tc_family = AF_INET, tc_socket = 8, tc_bind_ok = True, tc_nonblock_ok = True, tc_connect = (- 1, COMPAT_EWOULDBLOCK)\<rparr>])
      (sample_client\<lparr>socks5_host := Some (bytes_of ''proxy''), socks5_port := 1080\<rparr>) True
   = (- 1, sample_client\<lparr>socks5_host := Some (bytes_of ''proxy''), socks5_port := 1080,
        net := (net sample_client)\<lparr>net_socket := 8\<rparr>\<rparr>)"
proof -
  let ?c = "sample_client\<lparr>socks5_host := Some (bytes_of ''proxy''), socks5_port := 1080\<rparr>"
  let ?rps = "[\<lparr>tc_family = 1, tc_socket = 7, tc_bind_ok = True, tc_nonblock_ok = True, tc_connect = (0, 0)\<rparr>,
      \<lparr>tc_family = AF_INET, tc_socket = 8, tc_bind_ok = True, tc_nonblock_ok = True, tc_connect = (- 1, COMPAT_EWOULDBLOCK)\<rparr>]"
  show ?thesis
    using socks5_reconnect_result [of ?c "bytes_of ''proxy''" "\<lambda>h. Inr ?rps" ?rps True]
    by (simp add: usable_def)
qed

end
