(* ===== verification/Packets.thy ===== *)
theory Packets
  imports Clients
begin

text \<open>
  \<open>MQTTPacket.c\<close> above its wire primitives: the packet structures, sending and receiving whole
  packets, and the packets both sides of a connection exchange after it is established.
  \<open>PacketsOut\<close> has the requests of a client and the answers to them.

  What these functions call in \<open>WebSocket.c\<close>, \<open>Socket.c\<close> and \<open>MQTTPersistence.c\<close> is the record
  \<open>transport\<close>, over any state of the connection and the persistent store.  \<open>tr_putdatas\<close> gets the
  header and the buffers to send; it returns the buffers too, because it masks their contents in
  place for a WebSocket and may leave them so.  \<open>tr_junk\<close> is what \<open>malloc\<close> leaves in a new block.
\<close>

section \<open>Header bytes\<close>

abbreviation (input) CONNECT :: int where "CONNECT \<equiv> 1"
abbreviation (input) CONNACK :: int where "CONNACK \<equiv> 2"
abbreviation (input) PUBLISH :: int where "PUBLISH \<equiv> 3"
abbreviation (input) PUBACK :: int where "PUBACK \<equiv> 4"
abbreviation (input) PUBREC :: int where "PUBREC \<equiv> 5"
abbreviation (input) PUBREL :: int where "PUBREL \<equiv> 6"
abbreviation (input) PUBCOMP :: int where "PUBCOMP \<equiv> 7"
abbreviation (input) SUBSCRIBE :: int where "SUBSCRIBE \<equiv> 8"
abbreviation (input) SUBACK :: int where "SUBACK \<equiv> 9"
abbreviation (input) UNSUBSCRIBE :: int where "UNSUBSCRIBE \<equiv> 10"
abbreviation (input) UNSUBACK :: int where "UNSUBACK \<equiv> 11"
abbreviation (input) PINGREQ :: int where "PINGREQ \<equiv> 12"
abbreviation (input) PINGRESP :: int where "PINGRESP \<equiv> 13"
abbreviation (input) DISCONNECT :: int where "DISCONNECT \<equiv> 14"
abbreviation (input) AUTH :: int where "AUTH \<equiv> 15"

text \<open>\<open>MQTTVERSION_3_1\<close>, \<open>MQTTVERSION_3_1_1\<close> and \<open>MQTTVERSION_5\<close>.\<close>

abbreviation (input) MQTTVERSION_3_1 :: int where "MQTTVERSION_3_1 \<equiv> 3"
abbreviation (input) MQTTVERSION_3_1_1 :: int where "MQTTVERSION_3_1_1 \<equiv> 4"
abbreviation (input) MQTTVERSION_5 :: int where "MQTTVERSION_5 \<equiv> 5"

text \<open>
  The union \<open>Header\<close>: the byte whose bit fields have been assigned, each keeping the low bits of
  the value, and the bit fields of a byte.
\<close>

definition Header :: "int \<Rightarrow> int \<Rightarrow> int \<Rightarrow> int \<Rightarrow> byte" where
  "Header type dup qos retain =
     of_int (retain mod 2 + 2 * (qos mod 4) + 8 * (dup mod 2) + 16 * (type mod 16))"

definition header_type :: "byte \<Rightarrow> int" where
  "header_type b = uint (drop_bit 4 b)"

definition header_dup :: "byte \<Rightarrow> int" where
  "header_dup b = of_bool (bit b 3)"

definition header_qos :: "byte \<Rightarrow> int" where
  "header_qos b = uint (take_bit 2 (drop_bit 1 b))"

definition header_retain :: "byte \<Rightarrow> int" where
  "header_retain b = of_bool (bit b 0)"

definition packet_names :: "string list" where
  "packet_names =
     [''RESERVED'', ''CONNECT'', ''CONNACK'', ''PUBLISH'', ''PUBACK'', ''PUBREC'', ''PUBREL'',
      ''PUBCOMP'', ''SUBSCRIBE'', ''SUBACK'', ''UNSUBSCRIBE'', ''UNSUBACK'',
      ''PINGREQ'', ''PINGRESP'', ''DISCONNECT'', ''AUTH'']"

definition MQTTPacket_name :: "int \<Rightarrow> string" where
  "MQTTPacket_name ptype =
     (if 0 \<le> ptype \<and> ptype \<le> AUTH then packet_names ! nat ptype else ''UNKNOWN'')"

section \<open>Structures\<close>

text \<open>A field that a function leaves uninitialised is \<open>None\<close>.\<close>

record Connack =
  connack_header :: byte
  connack_flags :: byte
  connack_rc :: byte
  connack_MQTTVersion :: int
  connack_properties :: "MQTTProperties option"

record Suback =
  suback_header :: byte
  suback_msgId :: nat
  suback_MQTTVersion :: int
  suback_properties :: "MQTTProperties option"
  suback_qoss :: "int clist"

record Unsuback =
  unsuback_header :: byte
  unsuback_msgId :: nat
  unsuback_MQTTVersion :: int
  unsuback_properties :: "MQTTProperties option"
  unsuback_reasonCodes :: "int clist option"

text \<open>\<open>publish_payload\<close> is what the payload pointer leads to.\<close>

record Publish =
  publish_header :: byte
  publish_topic :: bytes
  publish_topiclen :: int
  publish_msgId :: int
  publish_payload :: bytes
  publish_payloadlen :: int
  publish_MQTTVersion :: int
  publish_properties :: MQTTProperties
  publish_mask :: bytes

record Ack =
  ack_header :: byte
  ack_msgId :: "int option"
  ack_rc :: "byte option"
  ack_MQTTVersion :: int
  ack_properties :: "MQTTProperties option"

datatype MQTTPacket =
    Header_only byte
  | Connack_packet Connack
  | Publish_packet Publish
  | Ack_packet Ack
  | Suback_packet Suback
  | Unsuback_packet Unsuback

record PacketBuffers =
  pbs_buffers :: "bytes option list"
  pbs_buflens :: "nat list"
  pbs_frees :: "bool list"
  pbs_mask :: bytes

record 's transport =
  tr_framePos :: "'s \<Rightarrow> nat"
  tr_framePosSeekTo :: "nat \<Rightarrow> 's \<Rightarrow> 's"
  tr_getch :: "networkHandles \<Rightarrow> 's \<Rightarrow> int \<times> byte \<times> 's"
  tr_getdata :: "networkHandles \<Rightarrow> nat \<Rightarrow> 's \<Rightarrow> bytes option \<times> nat \<times> 's"
  tr_putdatas :: "networkHandles \<Rightarrow> bytes \<Rightarrow> PacketBuffers \<Rightarrow> 's \<Rightarrow> int \<times> PacketBuffers \<times> 's"
  tr_putPacket :: "int \<Rightarrow> bytes \<Rightarrow> (bytes option \<times> nat) list \<Rightarrow> int \<Rightarrow> int \<Rightarrow> bool \<Rightarrow> int \<Rightarrow> 's \<Rightarrow> int \<times> 's"
  tr_now :: "'s \<Rightarrow> START_TIME_TYPE \<times> 's"
  tr_alloc :: allocator
  tr_junk :: byte

section \<open>Sending a packet\<close>

text \<open>A new block; its contents are not initialised.\<close>

definition new_block :: "'s transport \<Rightarrow> nat \<Rightarrow> bytes option" where
  "new_block T n = (if tr_alloc T (Bytes n) then Some (replicate n (tr_junk T)) else None)"

text \<open>\<open>size_t\<close> values computed from an \<open>int\<close>, and \<open>(int)strlen\<close>.\<close>

definition to_size :: "int \<Rightarrow> nat" where
  "to_size n = nat (n mod 2 ^ 64)"

definition strlen_int :: "bytes \<Rightarrow> int" where
  "strlen_int string = sint (of_nat (length string) :: 32 word)"

text \<open>The block with the header byte and the remaining length; \<open>Some None\<close> when there is no memory.\<close>

definition fixed_header :: "'s transport \<Rightarrow> byte \<Rightarrow> nat \<Rightarrow> bytes option ub" where
  "fixed_header T header buflen =
     do {
       (n, nobuf) \<leftarrow> MQTTPacket_encode None 0 buflen;
       (case new_block T (1 + n) of
          None \<Rightarrow> Some None
        | Some buf \<Rightarrow>
            do {
              buf \<leftarrow> write_at buf 0 header;
              (n, buf) \<leftarrow> MQTTPacket_encode (Some buf) 1 buflen;
              Some buf
            })
     }"

definition stamp_sent :: "'s transport \<Rightarrow> int \<Rightarrow> networkHandles \<Rightarrow> 's \<Rightarrow> networkHandles \<times> 's" where
  "stamp_sent T rc nh s =
     (if rc = TCPSOCKET_COMPLETE
      then case tr_now T s of (now, s) \<Rightarrow> (nh\<lparr>net_lastSent := now\<rparr>, s)
      else (nh, s))"

definition MQTTPacket_send ::
  "'s transport \<Rightarrow> networkHandles \<Rightarrow> byte \<Rightarrow> bytes option \<Rightarrow> nat \<Rightarrow> bool \<Rightarrow> int \<Rightarrow> 's \<Rightarrow>
   (int \<times> networkHandles \<times> 's) ub" where
  "MQTTPacket_send T nh header buffer buflen freeData MQTTVersion s =
     do {
       head \<leftarrow> fixed_header T header buflen;
       (case head of
          None \<Rightarrow> Some (SOCKET_ERROR, nh, s)
        | Some buf \<Rightarrow>
            do {
              s \<leftarrow> (if header_type header = PUBREL then
                      do {
                        data \<leftarrow> buffer;
                        (msgId, p) \<leftarrow> readInt data 0;
                        Some (snd (tr_putPacket T (net_socket nh) buf [(buffer, buflen)]
                          (header_type header) (int msgId) False MQTTVersion s))
                      }
                    else Some s);
              (case tr_putdatas T nh buf
                 \<lparr>pbs_buffers = [buffer], pbs_buflens = [buflen], pbs_frees = [freeData],
                  pbs_mask = [0, 0, 0, 0]\<rparr> s of
                 (rc, bufs, s) \<Rightarrow>
                   case stamp_sent T rc nh s of (nh, s) \<Rightarrow> Some (rc, nh, s))
            })
     }"

definition MQTTPacket_sends ::
  "'s transport \<Rightarrow> networkHandles \<Rightarrow> byte \<Rightarrow> PacketBuffers \<Rightarrow> int \<Rightarrow> 's \<Rightarrow>
   (int \<times> networkHandles \<times> PacketBuffers \<times> 's) ub" where
  "MQTTPacket_sends T nh header bufs MQTTVersion s =
     do {
       head \<leftarrow> fixed_header T header (sum_list (pbs_buflens bufs) mod 2 ^ 64);
       (case head of
          None \<Rightarrow> Some (SOCKET_ERROR, nh, bufs, s)
        | Some buf \<Rightarrow>
            do {
              s \<leftarrow> (if header_type header = PUBLISH \<and> header_qos header \<noteq> 0 then
                      do {
                        data \<leftarrow> (if 2 < length (pbs_buffers bufs) then pbs_buffers bufs ! 2 else None);
                        (msgId, p) \<leftarrow> readInt data 0;
                        Some (snd (tr_putPacket T (net_socket nh) buf
                          (zip (pbs_buffers bufs) (pbs_buflens bufs))
                          (header_type header) (int msgId) False MQTTVersion s))
                      }
                    else Some s);
              (case tr_putdatas T nh buf bufs s of
                 (rc, bufs, s) \<Rightarrow>
                   case stamp_sent T rc nh s of (nh, s) \<Rightarrow> Some (rc, nh, bufs, s))
            })
     }"

section \<open>Acknowledgements and disconnection\<close>

text \<open>The write of one block that is then sent; \<open>w\<close> fills it from its first byte on.\<close>

definition filled_block :: "bytes \<Rightarrow> (cursor \<Rightarrow> cursor ub) \<Rightarrow> bytes ub" where
  "filled_block block w = map_option fst (w (block, 0))"

definition MQTTPacket_send_disconnect ::
  "'s transport \<Rightarrow> Clients \<Rightarrow> int \<Rightarrow> MQTTProperties option \<Rightarrow> 's \<Rightarrow> (int \<times> Clients \<times> 's) ub" where
  "MQTTPacket_send_disconnect T client reason props s =
     (let header = Header DISCONNECT 0 0 0 in
      if 5 \<le> client_MQTTVersion client \<and> (props \<noteq> None \<or> reason \<noteq> 0) then
        let buflen = to_size (1 + (if props = None then 0 else MQTTProperties_len props)) in
        (case new_block T buflen of
           None \<Rightarrow> Some (SOCKET_ERROR, client, s)
         | Some block \<Rightarrow>
             do {
               buf \<leftarrow> filled_block block (\<lambda>b. do {
                 b \<leftarrow> writeChar (of_int reason) b;
                 (if props = None then Some b else map_option snd (MQTTProperties_write props b)) });
               (rc, handles, s) \<leftarrow> MQTTPacket_send T (net client) header (Some buf) buflen True
                 (client_MQTTVersion client) s;
               Some (rc, client\<lparr>net := handles\<rparr>, s)
             })
      else
        do {
          (rc, handles, s) \<leftarrow> MQTTPacket_send T (net client) header None 0 False
            (client_MQTTVersion client) s;
          Some (rc, client\<lparr>net := handles\<rparr>, s)
        })"

definition MQTTPacket_send_ack ::
  "'s transport \<Rightarrow> int \<Rightarrow> int \<Rightarrow> int \<Rightarrow> int \<Rightarrow> networkHandles \<Rightarrow> 's \<Rightarrow> (int \<times> networkHandles \<times> 's) ub" where
  "MQTTPacket_send_ack T MQTTVersion type msgid dup nh s =
     (case new_block T 2 of
        None \<Rightarrow> Some (SOCKET_ERROR, nh, s)
      | Some block \<Rightarrow>
          do {
            buf \<leftarrow> filled_block block (writeInt msgid);
            MQTTPacket_send T nh (Header type dup (if type = PUBREL then 1 else 0) 0) (Some buf) 2 True
              MQTTVersion s
          })"

definition MQTTPacket_send_puback ::
  "'s transport \<Rightarrow> int \<Rightarrow> int \<Rightarrow> networkHandles \<Rightarrow> 's \<Rightarrow> (int \<times> networkHandles \<times> 's) ub" where
  "MQTTPacket_send_puback T MQTTVersion msgid nh s = MQTTPacket_send_ack T MQTTVersion PUBACK msgid 0 nh s"

definition MQTTPacket_send_pubrec ::
  "'s transport \<Rightarrow> int \<Rightarrow> int \<Rightarrow> networkHandles \<Rightarrow> 's \<Rightarrow> (int \<times> networkHandles \<times> 's) ub" where
  "MQTTPacket_send_pubrec T MQTTVersion msgid nh s = MQTTPacket_send_ack T MQTTVersion PUBREC msgid 0 nh s"

definition MQTTPacket_send_pubrel ::
  "'s transport \<Rightarrow> int \<Rightarrow> int \<Rightarrow> int \<Rightarrow> networkHandles \<Rightarrow> 's \<Rightarrow> (int \<times> networkHandles \<times> 's) ub" where
  "MQTTPacket_send_pubrel T MQTTVersion msgid dup nh s = MQTTPacket_send_ack T MQTTVersion PUBREL msgid dup nh s"

definition MQTTPacket_send_pubcomp ::
  "'s transport \<Rightarrow> int \<Rightarrow> int \<Rightarrow> networkHandles \<Rightarrow> 's \<Rightarrow> (int \<times> networkHandles \<times> 's) ub" where
  "MQTTPacket_send_pubcomp T MQTTVersion msgid nh s = MQTTPacket_send_ack T MQTTVersion PUBCOMP msgid 0 nh s"

section \<open>Publications\<close>

text \<open>
  The buffers point into the packet: what \<open>tr_putdatas\<close> leaves in them is the topic and the payload
  of the packet afterwards.
\<close>

definition after_putdatas :: "PacketBuffers \<Rightarrow> nat \<Rightarrow> Publish \<Rightarrow> Publish" where
  "after_putdatas bufs k pack =
     pack\<lparr>publish_topic := (case pbs_buffers bufs ! 1 of None \<Rightarrow> publish_topic pack | Some t \<Rightarrow> t),
          publish_payload := (case pbs_buffers bufs ! k of None \<Rightarrow> publish_payload pack | Some d \<Rightarrow> d),
          publish_mask := pbs_mask bufs\<rparr>"

definition MQTTPacket_send_publish ::
  "'s transport \<Rightarrow> Publish \<Rightarrow> int \<Rightarrow> int \<Rightarrow> int \<Rightarrow> networkHandles \<Rightarrow> 's \<Rightarrow>
   (int \<times> Publish \<times> networkHandles \<times> 's) ub" where
  "MQTTPacket_send_publish T pack dup qos retained nh s =
     (case new_block T 2 of
        None \<Rightarrow> Some (SOCKET_ERROR, pack, nh, s)
      | Some topiclen \<Rightarrow>
          let header = Header PUBLISH dup qos retained;
              topic = publish_topic pack;
              version = publish_MQTTVersion pack;
              payload = Some (publish_payload pack);
              payloadlen = to_size (publish_payloadlen pack)
          in
          if 0 < qos \<or> 5 \<le> version then
            let buflen = to_size ((if 0 < qos then 2 else 0) +
                  (if 5 \<le> version then MQTTProperties_len (Some (publish_properties pack)) else 0))
            in
            (case new_block T buflen of
               None \<Rightarrow> Some (SOCKET_ERROR, pack, nh, s)
             | Some block \<Rightarrow>
                 do {
                   buf \<leftarrow> filled_block block (\<lambda>b. do {
                     b \<leftarrow> (if 0 < qos then writeInt (publish_msgId pack) b else Some b);
                     (if 5 \<le> version
                      then map_option snd (MQTTProperties_write (Some (publish_properties pack)) b)
                      else Some b) });
                   len \<leftarrow> filled_block topiclen (writeInt (strlen_int topic));
                   (rc, nh, bufs, s) \<leftarrow> MQTTPacket_sends T nh header
                     \<lparr>pbs_buffers = [Some len, Some topic, Some buf, payload],
                      pbs_buflens = [2, length topic, buflen, payloadlen],
                      pbs_frees = [True, False, True, False], pbs_mask = publish_mask pack\<rparr> version s;
                   Some (rc, after_putdatas bufs 3 pack, nh, s)
                 })
          else
            do {
              len \<leftarrow> filled_block topiclen (writeInt (strlen_int topic));
              (rc, nh, bufs, s) \<leftarrow> MQTTPacket_sends T nh header
                \<lparr>pbs_buffers = [Some len, Some topic, payload],
                 pbs_buflens = [2, length topic, payloadlen],
                 pbs_frees = [True, False, False], pbs_mask = publish_mask pack\<rparr> version s;
              Some (rc, after_putdatas bufs 2 pack, nh, s)
            })"

section \<open>Receiving packets\<close>

text \<open>
  The parsers get the data of the packet in a buffer, in which other data may follow, and its length
  \<open>datalen\<close>; they return the structure, \<open>None\<close> for \<open>NULL\<close>, or run into undefined behaviour.
\<close>

definition MQTTPacket_header_only :: "int \<Rightarrow> byte \<Rightarrow> bytes \<Rightarrow> nat \<Rightarrow> byte" where
  "MQTTPacket_header_only MQTTVersion aHeader data datalen = aHeader"

definition MQTTPacket_publish :: "allocator \<Rightarrow> int \<Rightarrow> byte \<Rightarrow> bytes \<Rightarrow> nat \<Rightarrow> Publish option ub" where
  "MQTTPacket_publish malloc MQTTVersion aHeader data datalen =
     (if \<not> malloc (Sizeof ''Publish'') then Some None
      else do {
        (topic, p, topiclen) \<leftarrow> readUTFlen malloc data 0 datalen 0;
        (case topic of
           None \<Rightarrow> Some None
         | Some topic \<Rightarrow>
             do {
               (msgId, p) \<leftarrow> (if 0 < header_qos aHeader then readInt data p else Some (0, p));
               (rc, props, p) \<leftarrow>
                 (if 5 \<le> MQTTVersion
                  then MQTTProperties_read malloc MQTTProperties_initializer data p datalen
                  else Some (1, MQTTProperties_initializer, p));
               Some (if rc \<noteq> 1 then None
                 else Some \<lparr>publish_header = aHeader, publish_topic = topic,
                   publish_topiclen = topiclen, publish_msgId = int msgId,
                   publish_payload = drop p data, publish_payloadlen = int datalen - int p,
                   publish_MQTTVersion = MQTTVersion, publish_properties = props,
                   publish_mask = [0, 0, 0, 0]\<rparr>)
             })
      })"

definition MQTTPacket_ack :: "allocator \<Rightarrow> int \<Rightarrow> byte \<Rightarrow> bytes \<Rightarrow> nat \<Rightarrow> Ack option ub" where
  "MQTTPacket_ack malloc MQTTVersion aHeader data datalen =
     (if \<not> malloc (Sizeof ''Ack'') then Some None
      else do {
        (msgId, p) \<leftarrow>
          (if header_type aHeader \<noteq> DISCONNECT
           then map_option (\<lambda>(n, p). (Some (int n), p)) (readInt data 0) else Some (None, 0));
        if 5 \<le> MQTTVersion then
          do {
            (rc, p) \<leftarrow> (if 2 < datalen then readChar data p else Some (0, p));
            (n, props, p) \<leftarrow>
              (if 3 < datalen then MQTTProperties_read malloc MQTTProperties_initializer data p datalen
               else Some (1, MQTTProperties_initializer, p));
            Some (if n \<noteq> 1 then None
              else Some \<lparr>ack_header = aHeader, ack_msgId = msgId, ack_rc = Some rc,
                ack_MQTTVersion = MQTTVersion, ack_properties = Some props\<rparr>)
          }
        else Some (Some \<lparr>ack_header = aHeader, ack_msgId = msgId, ack_rc = None,
               ack_MQTTVersion = MQTTVersion, ack_properties = None\<rparr>)
      })"

definition MQTTPacket_connack :: "allocator \<Rightarrow> int \<Rightarrow> byte \<Rightarrow> bytes \<Rightarrow> nat \<Rightarrow> Connack option ub" where
  "MQTTPacket_connack malloc MQTTVersion aHeader data datalen =
     (if \<not> malloc (Sizeof ''Connack'') then Some None
      else do {
        (flags, p) \<leftarrow> readChar data 0;
        (rc, p) \<leftarrow> readChar data p;
        let pack = \<lparr>connack_header = aHeader, connack_flags = flags, connack_rc = rc,
              connack_MQTTVersion = MQTTVersion, connack_properties = None\<rparr>;
        if MQTTVersion < 5 then Some (if datalen \<noteq> 2 then None else Some pack)
        else if 2 < datalen then
          do {
            (n, props, p) \<leftarrow> MQTTProperties_read malloc MQTTProperties_initializer data p datalen;
            Some (if n \<noteq> 1 then None else Some (pack\<lparr>connack_properties := Some props\<rparr>))
          }
        else Some (Some pack)
      })"

text \<open>
  The loop over the reason codes at the end of a SUBACK or UNSUBACK; \<open>False\<close> when it was left for
  want of memory.
\<close>

function read_codes ::
  "allocator \<Rightarrow> bytes \<Rightarrow> nat \<Rightarrow> nat \<Rightarrow> int clist \<Rightarrow> (bool \<times> int clist) ub" where
  "read_codes malloc data datalen p codes =
     (if p < datalen then
        if \<not> malloc (Sizeof ''unsigned int'') then Some (False, codes)
        else (case readChar data p of
                None \<Rightarrow> None
              | Some (c, p') \<Rightarrow> read_codes malloc data datalen p' (cl_append (uint c) codes))
      else Some (True, codes))"
  by pat_completeness auto
termination
  by (relation "measure (\<lambda>(malloc, data, datalen, p, codes). datalen - p)") (auto simp: readChar_def)

declare read_codes.simps [simp del]

text \<open>
  On a packet without codes \<open>MQTTPacket_suback\<close> reads \<open>pack->qoss\<close> after \<open>free(pack)\<close>, and without
  memory for a code, below version 5, the uninitialised \<open>pack->properties.array\<close>.
\<close>

definition MQTTPacket_suback :: "allocator \<Rightarrow> int \<Rightarrow> byte \<Rightarrow> bytes \<Rightarrow> nat \<Rightarrow> Suback option ub" where
  "MQTTPacket_suback malloc MQTTVersion aHeader data datalen =
     (if \<not> malloc (Sizeof ''Suback'') then Some None
      else do {
        (msgId, p) \<leftarrow> readInt data 0;
        (n, props, p) \<leftarrow>
          (if 5 \<le> MQTTVersion
           then map_option (\<lambda>(n, props, p). (n, Some props, p))
                  (MQTTProperties_read malloc MQTTProperties_initializer data p datalen)
           else Some (1, None, p));
        if n \<noteq> 1 then Some None
        else do {
          (complete, qoss) \<leftarrow> read_codes malloc data datalen p cl_zero;
          if \<not> complete then (case props of None \<Rightarrow> None | Some props \<Rightarrow> Some None)
          else if cl_items qoss = [] then None
          else Some (Some \<lparr>suback_header = aHeader, suback_msgId = msgId,
                 suback_MQTTVersion = MQTTVersion, suback_properties = props, suback_qoss = qoss\<rparr>)
        }
      })"

definition MQTTPacket_unsuback :: "allocator \<Rightarrow> int \<Rightarrow> byte \<Rightarrow> bytes \<Rightarrow> nat \<Rightarrow> Unsuback option ub" where
  "MQTTPacket_unsuback malloc MQTTVersion aHeader data datalen =
     (if \<not> malloc (Sizeof ''Unsuback'') then Some None
      else do {
        (msgId, p) \<leftarrow> readInt data 0;
        let pack = \<lparr>unsuback_header = aHeader, unsuback_msgId = msgId,
              unsuback_MQTTVersion = MQTTVersion, unsuback_properties = None,
              unsuback_reasonCodes = None\<rparr>;
        if 5 \<le> MQTTVersion then
          do {
            (n, props, p) \<leftarrow> MQTTProperties_read malloc MQTTProperties_initializer data p datalen;
            if n \<noteq> 1 then Some None
            else do {
              (complete, codes) \<leftarrow> read_codes malloc data datalen p cl_zero;
              Some (if \<not> complete \<or> cl_items codes = [] then None
                else Some (pack\<lparr>unsuback_properties := Some props, unsuback_reasonCodes := Some codes\<rparr>))
            }
          }
        else Some (Some pack)
      })"

text \<open>The table of parsers, indexed by the packet type.\<close>

type_synonym pf = "int \<Rightarrow> byte \<Rightarrow> bytes \<Rightarrow> nat \<Rightarrow> MQTTPacket option ub"

definition parse_ack :: "allocator \<Rightarrow> pf" where
  "parse_ack malloc v h d n = map_option (map_option Ack_packet) (MQTTPacket_ack malloc v h d n)"

definition parse_header_only :: "allocator \<Rightarrow> pf" where
  "parse_header_only malloc v h d n = Some (Some (Header_only (MQTTPacket_header_only v h d n)))"

definition new_packets :: "allocator \<Rightarrow> pf option list" where
  "new_packets malloc =
     [None, None,
      Some (\<lambda>v h d n. map_option (map_option Connack_packet) (MQTTPacket_connack malloc v h d n)),
      Some (\<lambda>v h d n. map_option (map_option Publish_packet) (MQTTPacket_publish malloc v h d n)),
      Some (parse_ack malloc), Some (parse_ack malloc), Some (parse_ack malloc), Some (parse_ack malloc),
      None,
      Some (\<lambda>v h d n. map_option (map_option Suback_packet) (MQTTPacket_suback malloc v h d n)),
      None,
      Some (\<lambda>v h d n. map_option (map_option Unsuback_packet) (MQTTPacket_unsuback malloc v h d n)),
      Some (parse_header_only malloc), Some (parse_header_only malloc),
      Some (parse_ack malloc), Some (parse_ack malloc)]"

text \<open>A PUBLISH with QoS 2 is stored before it is returned; the result is \<open>*error\<close>, whether the
  code jumps to \<open>exit\<close>, and the state.\<close>

definition persist_received ::
  "'s transport \<Rightarrow> int \<Rightarrow> networkHandles \<Rightarrow> byte \<Rightarrow> bytes option \<Rightarrow> nat \<Rightarrow> Publish \<Rightarrow> 's \<Rightarrow> (int \<times> bool \<times> 's) ub" where
  "persist_received T MQTTVersion nh header data remaining_length pack s =
     (case new_block T 10 of
        None \<Rightarrow> Some (SOCKET_ERROR, True, s)
      | Some buf \<Rightarrow>
          do {
            buf \<leftarrow> write_at buf 0 header;
            (n, buf) \<leftarrow> MQTTPacket_encode (Some buf) 1 remaining_length;
            buf \<leftarrow> buf;
            (case tr_putPacket T (net_socket nh) (take (1 + n) buf) [(data, remaining_length)]
               (header_type header) (publish_msgId pack) True MQTTVersion s of
               (rc, s) \<Rightarrow> Some (rc, False, s))
          })"

text \<open>What happens once the whole packet has been read: the packet or \<open>NULL\<close>, \<open>*error\<close>, and whether
  the code jumps to \<open>exit\<close>.\<close>

definition build_packet ::
  "'s transport \<Rightarrow> int \<Rightarrow> networkHandles \<Rightarrow> byte \<Rightarrow> bytes option \<Rightarrow> nat \<Rightarrow> 's \<Rightarrow>
   (MQTTPacket option \<times> int \<times> bool \<times> 's) ub" where
  "build_packet T MQTTVersion nh header data remaining_length s =
     (let ptype = header_type header in
      if ptype < CONNECT \<or> (MQTTVersion < 5 \<and> DISCONNECT \<le> ptype) \<or> (5 \<le> MQTTVersion \<and> AUTH < ptype)
      then Some (None, TCPSOCKET_COMPLETE, False, s)
      else case new_packets (tr_alloc T) ! nat ptype of
        None \<Rightarrow> Some (None, TCPSOCKET_COMPLETE, False, s)
      | Some parse \<Rightarrow>
          do {
            pack \<leftarrow> parse MQTTVersion header (case data of None \<Rightarrow> [] | Some bs \<Rightarrow> bs) remaining_length;
            (case pack of
               None \<Rightarrow> Some (None, SOCKET_ERROR, False, s)
             | Some (Publish_packet p) \<Rightarrow>
                 if header_qos header = 2 then
                   do {
                     (rc, exit, s) \<leftarrow> persist_received T MQTTVersion nh header data remaining_length p s;
                     Some (pack, rc, exit, s)
                   }
                 else Some (pack, TCPSOCKET_COMPLETE, False, s)
             | Some _ \<Rightarrow> Some (pack, TCPSOCKET_COMPLETE, False, s))
          })"

definition MQTTPacket_Factory ::
  "'s transport \<Rightarrow> int \<Rightarrow> networkHandles \<Rightarrow> 's \<Rightarrow> (MQTTPacket option \<times> int \<times> networkHandles \<times> 's) ub" where
  "MQTTPacket_Factory T MQTTVersion nh s =
     (let pos = tr_framePos T s;
          leave = (\<lambda>pack error nh s. (pack, error, nh,
            if error = TCPSOCKET_INTERRUPTED then tr_framePosSeekTo T pos s else s))
      in
      case tr_getch T nh s of (error, header, s) \<Rightarrow>
      if error \<noteq> TCPSOCKET_COMPLETE then Some (leave None error nh s)
      else case MQTTPacket_decode (tr_getch T nh) s of (error, remaining_length, s) \<Rightarrow>
      if error \<noteq> TCPSOCKET_COMPLETE then Some (leave None error nh s)
      else case tr_getdata T nh remaining_length s of (data, actual_len, s) \<Rightarrow>
      if remaining_length \<noteq> 0 \<and> data = None then Some (leave None SOCKET_ERROR nh s)
      else if actual_len < remaining_length then Some (leave None TCPSOCKET_INTERRUPTED nh s)
      else do {
        (pack, error, exit, s) \<leftarrow> build_packet T MQTTVersion nh header data remaining_length s;
        if pack \<noteq> None \<and> \<not> exit
        then (case tr_now T s of (now, s) \<Rightarrow> Some (leave pack error (nh\<lparr>net_lastReceived := now\<rparr>) s))
        else Some (leave pack error nh s)
      })"

end
