(* ===== verification/PacketsOut.thy ===== *)
theory PacketsOut
  imports Packets
begin

text \<open>
  \<open>MQTTPacketOut.c\<close>: the CONNECT, PINGREQ, SUBSCRIBE and UNSUBSCRIBE packets of a client.  A packet
  is written in one block of a computed length; \<open>connect_len\<close>, \<open>connect_body\<close> and their like are
  the computation and the writing, in the order of the code.
\<close>

section \<open>CONNECT\<close>

definition connect_flags :: "int \<Rightarrow> Clients \<Rightarrow> byte" where
  "connect_flags MQTTVersion client =
     of_int (2 * of_bool (if 5 \<le> MQTTVersion then cleanstart client else cleansession client) +
       (case client_will client of None \<Rightarrow> 0
        | Some will \<Rightarrow> 4 + 8 * (will_qos will mod 4) + 32 * (will_retained will mod 2)) +
       (if client_password client \<noteq> None then 64 else 0) +
       (if client_username client \<noteq> None then 128 else 0))"

definition connect_len :: "int \<Rightarrow> Clients \<Rightarrow> MQTTProperties option \<Rightarrow> MQTTProperties option \<Rightarrow> int" where
  "connect_len MQTTVersion client connectProperties willProperties =
     (if MQTTVersion = MQTTVERSION_3_1 then 12 else 10) + strlen_int (clientID client) + 2 +
     (case client_will client of None \<Rightarrow> 0
      | Some will \<Rightarrow> strlen_int (will_topic will) + 2 + int (length (will_payload will)) + 2) +
     (case client_username client of None \<Rightarrow> 0 | Some username \<Rightarrow> strlen_int username + 2) +
     (case client_password client of None \<Rightarrow> 0 | Some password \<Rightarrow> int (length password) + 2) +
     (if 5 \<le> MQTTVersion
      then MQTTProperties_len connectProperties +
        (if client_will client \<noteq> None then MQTTProperties_len willProperties else 0)
      else 0)"

text \<open>The protocol name and level; \<open>Some None\<close> for a version that is not known.\<close>

definition connect_protocol :: "int \<Rightarrow> cursor \<Rightarrow> cursor option ub" where
  "connect_protocol MQTTVersion b =
     (if MQTTVersion = MQTTVERSION_3_1 then
        do { b \<leftarrow> writeUTF (bytes_of ''MQIsdp'') b; map_option Some (writeChar 3 b) }
      else if MQTTVersion = MQTTVERSION_3_1_1 \<or> MQTTVersion = MQTTVERSION_5 then
        do { b \<leftarrow> writeUTF (bytes_of ''MQTT'') b; map_option Some (writeChar (of_int MQTTVersion) b) }
      else Some None)"

definition write_properties :: "MQTTProperties option \<Rightarrow> cursor \<Rightarrow> cursor ub" where
  "write_properties props b = map_option snd (MQTTProperties_write props b)"

definition connect_body ::
  "int \<Rightarrow> Clients \<Rightarrow> MQTTProperties option \<Rightarrow> MQTTProperties option \<Rightarrow> cursor \<Rightarrow> cursor ub" where
  "connect_body MQTTVersion client connectProperties willProperties b =
     do {
       b \<leftarrow> writeChar (connect_flags MQTTVersion client) b;
       b \<leftarrow> writeInt (keepAliveInterval client) b;
       b \<leftarrow> (if 5 \<le> MQTTVersion then write_properties connectProperties b else Some b);
       b \<leftarrow> writeUTF (clientID client) b;
       b \<leftarrow> (case client_will client of None \<Rightarrow> Some b
             | Some will \<Rightarrow>
                 do {
                   b \<leftarrow> (if 5 \<le> MQTTVersion then write_properties willProperties b else Some b);
                   b \<leftarrow> writeUTF (will_topic will) b;
                   writeData (will_payload will) (int (length (will_payload will))) b
                 });
       b \<leftarrow> (case client_username client of None \<Rightarrow> Some b | Some username \<Rightarrow> writeUTF username b);
       (case client_password client of None \<Rightarrow> Some b
        | Some password \<Rightarrow> writeData password (int (length password)) b)
     }"

definition MQTTPacket_send_connect ::
  "'s transport \<Rightarrow> Clients \<Rightarrow> int \<Rightarrow> MQTTProperties option \<Rightarrow> MQTTProperties option \<Rightarrow> 's \<Rightarrow>
   (int \<times> Clients \<times> 's) ub" where
  "MQTTPacket_send_connect T client MQTTVersion connectProperties willProperties s =
     (let len = to_size (connect_len MQTTVersion client connectProperties willProperties) in
      case new_block T len of
        None \<Rightarrow> Some (SOCKET_ERROR, client, s)
      | Some block \<Rightarrow>
          do {
            start \<leftarrow> connect_protocol MQTTVersion (block, 0);
            (case start of
               None \<Rightarrow> Some (SOCKET_ERROR, client, s)
             | Some b \<Rightarrow>
                 do {
                   (buf, p) \<leftarrow> connect_body MQTTVersion client connectProperties willProperties b;
                   (rc, handles, s) \<leftarrow> MQTTPacket_send T (net client) (Header CONNECT 0 0 0) (Some buf) len True
                     MQTTVersion s;
                   Some (rc, client\<lparr>net := handles\<rparr>, s)
                 })
          })"

section \<open>PINGREQ\<close>

definition MQTTPacket_send_pingreq ::
  "'s transport \<Rightarrow> networkHandles \<Rightarrow> 's \<Rightarrow> (int \<times> networkHandles \<times> 's) ub" where
  "MQTTPacket_send_pingreq T nh s =
     MQTTPacket_send T nh (Header PINGREQ 0 0 0) None 0 False MQTTVERSION_3_1_1 s"

section \<open>SUBSCRIBE and UNSUBSCRIBE\<close>

record MQTTSubscribe_options =
  sub_noLocal :: byte
  sub_retainAsPublished :: byte
  sub_retainHandling :: byte

definition subscribe_len :: "int \<Rightarrow> bytes clist \<Rightarrow> MQTTProperties option \<Rightarrow> int" where
  "subscribe_len MQTTVersion topics props =
     2 + int (length (cl_items topics)) * 3 + (\<Sum>topic \<leftarrow> cl_items topics. strlen_int topic) +
     (if 5 \<le> MQTTVersion then MQTTProperties_len props else 0)"

text \<open>The options byte of a subscription; \<open>opts\<close> is an array without a length.\<close>

definition subscription_options ::
  "int \<Rightarrow> int \<Rightarrow> MQTTSubscribe_options list option \<Rightarrow> nat \<Rightarrow> byte ub" where
  "subscription_options MQTTVersion qos opts i =
     (case opts of
        Some opts \<Rightarrow>
          if 5 \<le> MQTTVersion then
            if i < length opts
            then Some (of_int qos OR push_bit 2 (sub_noLocal (opts ! i))
                   OR push_bit 3 (sub_retainAsPublished (opts ! i)) OR push_bit 4 (sub_retainHandling (opts ! i)))
            else None
          else Some (of_int qos)
      | None \<Rightarrow> Some (of_int qos))"

text \<open>The loop over the topics; \<open>qosElem\<close> walks along the list of QoS values.\<close>

fun subscribe_loop ::
  "int \<Rightarrow> bytes list \<Rightarrow> int list \<Rightarrow> MQTTSubscribe_options list option \<Rightarrow> nat \<Rightarrow> cursor \<Rightarrow> cursor ub" where
  "subscribe_loop MQTTVersion [] qoss opts i b = Some b"
| "subscribe_loop MQTTVersion (topic # topics) [] opts i b = None"
| "subscribe_loop MQTTVersion (topic # topics) (qos # qoss) opts i b =
     do {
       b \<leftarrow> writeUTF topic b;
       subopts \<leftarrow> subscription_options MQTTVersion qos opts i;
       b \<leftarrow> writeChar subopts b;
       subscribe_loop MQTTVersion topics qoss opts (i + 1) b
     }"

definition MQTTPacket_send_subscribe ::
  "'s transport \<Rightarrow> bytes clist \<Rightarrow> int clist \<Rightarrow> MQTTSubscribe_options list option \<Rightarrow> MQTTProperties option \<Rightarrow>
   int \<Rightarrow> int \<Rightarrow> Clients \<Rightarrow> 's \<Rightarrow> (int \<times> Clients \<times> 's) ub" where
  "MQTTPacket_send_subscribe T topics qoss opts props msgid dup client s =
     (let version = client_MQTTVersion client;
          datalen = to_size (subscribe_len version topics props)
      in case new_block T datalen of
        None \<Rightarrow> Some (-1, client, s)
      | Some block \<Rightarrow>
          do {
            data \<leftarrow> filled_block block (\<lambda>b. do {
              b \<leftarrow> writeInt msgid b;
              b \<leftarrow> (if 5 \<le> version then write_properties props b else Some b);
              subscribe_loop version (cl_items topics) (cl_items qoss) opts 0 b });
            (rc, handles, s) \<leftarrow> MQTTPacket_send T (net client) (Header SUBSCRIBE dup 1 0) (Some data) datalen
              True version s;
            Some (rc, client\<lparr>net := handles\<rparr>, s)
          })"

definition unsubscribe_len :: "int \<Rightarrow> bytes clist \<Rightarrow> MQTTProperties option \<Rightarrow> int" where
  "unsubscribe_len MQTTVersion topics props =
     2 + int (length (cl_items topics)) * 2 + (\<Sum>topic \<leftarrow> cl_items topics. strlen_int topic) +
     (if 5 \<le> MQTTVersion then MQTTProperties_len props else 0)"

definition MQTTPacket_send_unsubscribe ::
  "'s transport \<Rightarrow> bytes clist \<Rightarrow> MQTTProperties option \<Rightarrow> int \<Rightarrow> int \<Rightarrow> Clients \<Rightarrow> 's \<Rightarrow> (int \<times> Clients \<times> 's) ub" where
  "MQTTPacket_send_unsubscribe T topics props msgid dup client s =
     (let version = client_MQTTVersion client;
          datalen = to_size (unsubscribe_len version topics props)
      in case new_block T datalen of
        None \<Rightarrow> Some (SOCKET_ERROR, client, s)
      | Some block \<Rightarrow>
          do {
            data \<leftarrow> filled_block block (\<lambda>b. do {
              b \<leftarrow> writeInt msgid b;
              b \<leftarrow> (if 5 \<le> version then write_properties props b else Some b);
              write_all writeUTF (cl_items topics) b });
            (rc, handles, s) \<leftarrow> MQTTPacket_send T (net client) (Header UNSUBSCRIBE dup 1 0) (Some data) datalen
              True version s;
            Some (rc, client\<lparr>net := handles\<rparr>, s)
          })"


end
