(* ===== verification/PacketCodec.thy ===== *)
theory PacketCodec
  imports PacketsOut
begin

text \<open>
  The packets on the wire.  Every block is filled completely by its writer, whatever \<open>malloc\<close> left
  in it, with the encoding the MQTT specifications give; and what is sent is what the other side
  parses.
\<close>

section \<open>Blocks\<close>

lemma filled_block_bytes:
  "n = length bs \<Longrightarrow> filled_block (replicate n j) (write_bytes bs) = Some bs"
  by (simp add: filled_block_def write_bytes_def memcpy_at_def)

lemma write_bytes_then: "Option.bind (write_bytes a b) (write_bytes c) = write_bytes (a @ c) b"
  by (simp add: write_bytes_append)

text \<open>Writers in sequence, as one write: \<open>writes w bs\<close> says that \<open>w\<close> writes \<open>bs\<close>.\<close>

definition writes :: "(cursor \<Rightarrow> cursor ub) \<Rightarrow> bytes \<Rightarrow> bool" where
  "writes w bs \<longleftrightarrow> (\<forall>buf p. p \<le> length buf \<longrightarrow> w (buf, p) = write_bytes bs (buf, p))"

named_theorems writes_intros \<open>what the writers of the wire format write\<close>

lemma writesD: "writes w bs \<Longrightarrow> p \<le> length buf \<Longrightarrow> w (buf, p) = write_bytes bs (buf, p)"
  by (simp add: writes_def)

lemma writes_Some [writes_intros]: "writes Some []"
  by (simp add: writes_def)

lemma writes_bind:
  assumes "writes v a" "writes w b"
  shows "writes (\<lambda>s. Option.bind (v s) w) (a @ b)"
proof -
  have "Option.bind (v (buf, p)) w = write_bytes (a @ b) (buf, p)" if p: "p \<le> length buf" for buf p
  proof (cases "write_bytes a (buf, p)")
    case None
    then show ?thesis using writesD [OF assms(1) p] by (simp add: write_bytes_append del: bind_Some_iff)
  next
    case (Some s)
    obtain buf' p' where s: "s = (buf', p')" by force
    with Some have "p' \<le> length buf'" by (auto simp: write_bytes_result)
    then show ?thesis
      using Some writesD [OF assms(1) p] writesD [OF assms(2)] s
      by (simp add: write_bytes_append del: bind_Some_iff)
  qed
  then show ?thesis by (simp add: writes_def)
qed

lemma writes_Char [writes_intros]: "writes (writeChar c) [c]"
  by (simp add: writes_def writeChar_bytes)

lemma writes_Int [writes_intros]: "0 \<le> n \<Longrightarrow> writes (writeInt n) (be_bytes 2 (nat n))"
  using writeInt_bytes [of "nat n"] by (simp add: writes_def)

lemma writes_UTF [writes_intros]: "length s < 65536 \<Longrightarrow> writes (writeUTF s) (utf_enc s)"
  by (simp add: writes_def writeUTF_bytes)

lemma writes_Data [writes_intros]: "writes (writeData d (int (length d))) (utf_enc d)"
  by (simp add: writes_def writeData_bytes utf_enc_def)

lemma filled_block_writes:
  assumes "writes w bs" "n = length bs"
  shows "filled_block (replicate n j) w = Some bs"
  using filled_block_bytes [OF assms(2)] writesD [OF assms(1), of 0] by (simp add: filled_block_def)

text \<open>Property lists given to the senders: \<open>NULL\<close> stands for the empty list.\<close>

definition props_arg :: "MQTTProperties option \<Rightarrow> MQTTProperty list \<Rightarrow> bool" where
  "props_arg props ps \<longleftrightarrow>
     (case props of None \<Rightarrow> ps = [] | Some p \<Rightarrow> props_rep p ps) \<and>
     (\<forall>p \<in> set ps. prop_ok p) \<and> length (concat (map prop_enc ps)) < 2 ^ 28"

lemma props_arg_len: "props_arg props ps \<Longrightarrow> MQTTProperties_len props = int (length (props_enc ps))"
  by (auto simp: props_arg_def length_props_enc length_props_enc_NULL split: option.splits)

lemma writes_properties [writes_intros]:
  "props_arg props ps \<Longrightarrow> writes (write_properties props) (props_enc ps)"
  by (auto simp: props_arg_def writes_def write_properties_def MQTTProperties_write_bytes
      MQTTProperties_write_NULL option.map_comp comp_def option.map_ident split: option.splits)

lemma props_enc_length_pos: "0 < length (props_enc ps)"
  by (simp add: props_enc_def vbi_enc.simps)

lemma writes_if:
  "(c \<Longrightarrow> writes w bs) \<Longrightarrow> writes (\<lambda>s. if c then w s else Some s) (if c then bs else [])"
  by (simp add: writes_def)

lemma writes_option:
  "(\<And>x. opt = Some x \<Longrightarrow> writes (w x) (f x)) \<Longrightarrow>
   writes (\<lambda>s. case opt of None \<Rightarrow> Some s | Some x \<Rightarrow> w x s) (case opt of None \<Rightarrow> [] | Some x \<Rightarrow> f x)"
  by (cases opt) (simp_all add: writes_def)

section \<open>Handing a packet to the transport\<close>

definition transmit ::
  "'s transport \<Rightarrow> networkHandles \<Rightarrow> byte \<Rightarrow> PacketBuffers \<Rightarrow> 's \<Rightarrow> int \<times> networkHandles \<times> PacketBuffers \<times> 's" where
  "transmit T nh header bufs s =
     (case tr_putdatas T nh (header # vbi_enc (sum_list (pbs_buflens bufs))) bufs s of
        (rc, bufs, s) \<Rightarrow> case stamp_sent T rc nh s of (nh, s) \<Rightarrow> (rc, nh, bufs, s))"

definition one_buffer :: "bytes \<Rightarrow> PacketBuffers" where
  "one_buffer body = \<lparr>pbs_buffers = [Some body], pbs_buflens = [length body], pbs_frees = [True],
     pbs_mask = [0, 0, 0, 0]\<rparr>"

text \<open>\<open>transmit_client\<close>: a packet with one buffer, on the connection of a client.\<close>

definition transmit_client ::
  "'s transport \<Rightarrow> Clients \<Rightarrow> byte \<Rightarrow> bytes \<Rightarrow> 's \<Rightarrow> int \<times> Clients \<times> 's" where
  "transmit_client T client header body s =
     (case transmit T (net client) header (one_buffer body) s of
        (rc, nh, bufs, s) \<Rightarrow> (rc, client\<lparr>net := nh\<rparr>, s))"

lemma encode_bytes:
  "MQTTPacket_encode None off n = Some (length (vbi_enc n), None)"
  "off + length (vbi_enc n) \<le> length buf \<Longrightarrow> MQTTPacket_encode (Some buf) off n =
    Some (length (vbi_enc n), Some (take off buf @ vbi_enc n @ drop (off + length (vbi_enc n)) buf))"
  by (simp_all add: MQTTPacket_encode_def encode_loop_count encode_loop_bytes)

lemma fixed_header_bytes:
  "fixed_header T header n =
    Some (if tr_alloc T (Bytes (1 + length (vbi_enc n))) then Some (header # vbi_enc n) else None)"
  by (simp add: fixed_header_def new_block_def encode_bytes write_at_def del: bind_Some_iff)

lemma MQTTPacket_send_bytes:
  assumes "tr_alloc T = always_alloc" "header_type header \<noteq> PUBREL"
  shows "MQTTPacket_send T nh header (Some body) (length body) True v s =
    (case transmit T nh header (one_buffer body) s of (rc, nh, bufs, s) \<Rightarrow> Some (rc, nh, s))"
  using assms by (simp add: MQTTPacket_send_def fixed_header_bytes transmit_def one_buffer_def
      del: bind_Some_iff split: prod.split)

lemma send_block:
  assumes "tr_alloc T = always_alloc" "header_type header \<noteq> PUBREL"
    "filled_block (replicate (length e) (tr_junk T)) w = Some e"
  shows "(case new_block T (length e) of None \<Rightarrow> x
      | Some block \<Rightarrow> do {
          data \<leftarrow> filled_block block w;
          (rc, handles, s) \<leftarrow> MQTTPacket_send T (net c) header (Some data) (length e) True v s;
          Some (rc, c\<lparr>net := handles\<rparr>, s) }) = Some (transmit_client T c header e s)"
  using assms by (simp add: new_block_def MQTTPacket_send_bytes transmit_client_def del: bind_Some_iff split: prod.split)

lemma header_value:
  "uint (Header t d q r) = r mod 2 + 2 * (q mod 4) + 8 * (d mod 2) + 16 * (t mod 16)"
proof -
  define v where "v = r mod 2 + 2 * (q mod 4) + 8 * (d mod 2) + 16 * (t mod 16)"
  have "0 \<le> r mod 2" "r mod 2 < 2" "0 \<le> q mod 4" "q mod 4 < 4" "0 \<le> d mod 2" "d mod 2 < 2"
    "0 \<le> t mod 16" "t mod 16 < 16" by simp_all
  then have "0 \<le> v" "v < 256" unfolding v_def by linarith+
  then have "uint (word_of_int v :: byte) = v" by (simp add: uint_word_of_int)
  then show ?thesis unfolding Header_def v_def .
qed

lemma uint_drop_byte: "uint (drop_bit n (b :: byte)) = uint b div 2 ^ n"
  by (metis unat_drop_byte uint_nat of_nat_numeral of_nat_power zdiv_int)

lemma uint_take_byte: "uint (take_bit n (b :: byte)) = uint b mod 2 ^ n"
  by (metis unat_take_byte uint_nat of_nat_numeral of_nat_power zmod_int)

lemma bit_byte_div: "bit (b :: byte) n = odd (uint b div 2 ^ n)"
  by (simp add: bit_iff_odd [of "uint b", symmetric] bit_simps)

lemma header_fields [simp]:
  "header_type (Header t d q r) = t mod 16" "header_dup (Header t d q r) = d mod 2"
  "header_qos (Header t d q r) = q mod 4" "header_retain (Header t d q r) = r mod 2"
proof -
  define R Q D T where v: "R = r mod 2" "Q = q mod 4" "D = d mod 2" "T = t mod 16"
  have b: "0 \<le> R" "R < 2" "0 \<le> Q" "Q < 4" "0 \<le> D" "D < 2" by (simp_all add: v)
  have d16: "(R + 2 * Q + 8 * D + 16 * T) div 16 = T"
    by (rule int_div_pos_eq [where r = "R + 2 * Q + 8 * D"]) (use b in simp_all)
  have d8: "(R + 2 * Q + 8 * D + 16 * T) div 8 = D + 2 * T"
    by (rule int_div_pos_eq [where r = "R + 2 * Q"]) (use b in simp_all)
  have "(R + 2 * Q + 8 * D + 16 * T) div 2 = Q + 4 * (D + 2 * T)"
    by (rule int_div_pos_eq [where r = R]) (use b in simp_all)
  moreover have "(Q + 4 * (D + 2 * T)) mod 4 = Q" using b by (simp only: mod_mult_self2) simp
  ultimately have d2: "(R + 2 * Q + 8 * D + 16 * T) div 2 mod 4 = Q" by simp
  have "D = 0 \<or> D = 1" "R = 0 \<or> R = 1" using b by linarith+
  then have o: "odd D = (D = 1)" "odd R = (R = 1)" "of_bool (D = 1) = D" "of_bool (R = 1) = R" by auto
  have w: "(2 :: int) ^ 4 = 16" "(2 :: int) ^ 3 = 8" "(2 :: int) ^ 2 = 4" "(2 :: int) ^ 1 = 2" "(2 :: int) ^ 0 = 1" by simp_all
  note h = header_value [of t d q r, folded v]
  show "header_type (Header t d q r) = t mod 16"
    unfolding header_type_def uint_drop_byte h w v(4) [symmetric] d16 ..
  show "header_qos (Header t d q r) = q mod 4"
    unfolding header_qos_def uint_take_byte uint_drop_byte h w v(2) [symmetric] d2 ..
  show "header_dup (Header t d q r) = d mod 2"
    unfolding header_dup_def bit_byte_div h w d8 v(3) [symmetric] using o by simp
  show "header_retain (Header t d q r) = r mod 2"
    unfolding header_retain_def bit_byte_div h w v(1) [symmetric] using o by simp
qed

section \<open>The packets of the specification\<close>

definition will_enc :: "int \<Rightarrow> willMessages \<Rightarrow> MQTTProperty list \<Rightarrow> bytes" where
  "will_enc v will ws = (if 5 \<le> v then props_enc ws else []) @ utf_enc (will_topic will) @ utf_enc (will_payload will)"

text \<open>The connect flags, from bit 0 on: reserved, clean start, will, will QoS, will retain, password,
  user name.\<close>

definition connect_bits :: "int \<Rightarrow> Clients \<Rightarrow> bool list" where
  "connect_bits v c =
     [False, if 5 \<le> v then cleanstart c else cleansession c, client_will c \<noteq> None] @
     (case client_will c of None \<Rightarrow> [False, False, False]
      | Some w \<Rightarrow> [odd (will_qos w), odd (will_qos w div 2), odd (will_retained w)]) @
     [client_password c \<noteq> None, client_username c \<noteq> None]"

definition connect_enc :: "int \<Rightarrow> Clients \<Rightarrow> MQTTProperty list \<Rightarrow> MQTTProperty list \<Rightarrow> bytes" where
  "connect_enc v c ps ws =
     utf_enc (bytes_of (if v = 3 then ''MQIsdp'' else ''MQTT'')) @ [of_int v] @
     [horner_sum of_bool 2 (connect_bits v c)] @ be_bytes 2 (nat (keepAliveInterval c)) @
     (if 5 \<le> v then props_enc ps else []) @ utf_enc (clientID c) @
     (case client_will c of None \<Rightarrow> [] | Some will \<Rightarrow> will_enc v will ws) @
     (case client_username c of None \<Rightarrow> [] | Some username \<Rightarrow> utf_enc username) @
     (case client_password c of None \<Rightarrow> [] | Some password \<Rightarrow> utf_enc password)"

text \<open>Every string of the packet fits its two-byte length.\<close>

definition connect_ok :: "Clients \<Rightarrow> bool" where
  "connect_ok c \<longleftrightarrow>
     0 \<le> keepAliveInterval c \<and> length (clientID c) < 65536 \<and>
     (case client_will c of None \<Rightarrow> True
      | Some w \<Rightarrow> length (will_topic w) < 65536 \<and> length (will_payload w) < 65536) \<and>
     (case client_username c of None \<Rightarrow> True | Some u \<Rightarrow> length u < 65536) \<and>
     (case client_password c of None \<Rightarrow> True | Some p \<Rightarrow> length p < 65536)"

lemma length_utf_enc [simp]: "length (utf_enc s) = length s + 2"
  by (simp add: utf_enc_def)

lemma strlen_int_small: "length s < 65536 \<Longrightarrow> strlen_int s = int (length s)"
  by (simp add: strlen_int_def sint_of_nat_small)

lemma to_size_int [simp]: "n < 2 ^ 64 \<Longrightarrow> to_size (int n) = n"
  by (simp add: to_size_def)

lemma vbi_enc_small: "n < 128 \<Longrightarrow> vbi_enc n = [of_nat n]"
  by (subst vbi_enc.simps) simp

lemma to_size_packet: "n < 2 ^ 28 \<Longrightarrow> to_size (int n) = n"
  by simp

lemma connect_flags_bits: "connect_flags v c = horner_sum of_bool 2 (connect_bits v c)"
proof -
  have q: "q mod 4 = of_bool (odd q) + 2 * of_bool (odd (q div 2))" for q :: int
    using mod_mult2_eq' [of q 2 2] by (simp add: mod_2_eq_odd)
  show ?thesis
    by (auto simp: connect_flags_def connect_bits_def q mod_2_eq_odd split: option.splits)
qed

lemma connect_len_enc:
  assumes "v \<in> {3, 4, 5}" "connect_ok c" "props_arg cp ps" "props_arg wp ws"
  shows "connect_len v c cp wp = int (length (connect_enc v c ps ws))"
  using assms props_arg_len [OF assms(3)] props_arg_len [OF assms(4)]
  by (auto simp: connect_len_def connect_enc_def connect_ok_def will_enc_def strlen_int_small
      split: option.splits)

lemma connect_protocol_writes:
  assumes "v \<in> {3, 4, 5}"
  shows "connect_protocol v b =
    map_option Some (write_bytes (utf_enc (bytes_of (if v = 3 then ''MQIsdp'' else ''MQTT'')) @ [of_int v]) b)"
  using assms
  by (auto simp: connect_protocol_def writeUTF_bytes writeChar_bytes write_bytes_append option.map_comp
      map_option_bind comp_def simp del: bind_Some_iff)

lemma connect_body_writes:
  assumes "connect_ok c" "props_arg cp ps" "props_arg wp ws"
  shows "writes (connect_body v c cp wp)
    ([connect_flags v c] @ be_bytes 2 (nat (keepAliveInterval c)) @
     (if 5 \<le> v then props_enc ps else []) @ utf_enc (clientID c) @
     (case client_will c of None \<Rightarrow> [] | Some will \<Rightarrow> will_enc v will ws) @
     (case client_username c of None \<Rightarrow> [] | Some username \<Rightarrow> utf_enc username) @
     (case client_password c of None \<Rightarrow> [] | Some password \<Rightarrow> utf_enc password))"
  unfolding connect_body_def will_enc_def
  using assms unfolding connect_ok_def
  by (intro writes_bind writes_option writes_if writes_intros) auto

lemma connect_block:
  assumes "v \<in> {3, 4, 5}" "connect_ok c" "props_arg cp ps" "props_arg wp ws"
    "n = length (connect_enc v c ps ws)"
  obtains b where "connect_protocol v (replicate n j, 0) = Some (Some b)"
    "connect_body v c cp wp b = Some (connect_enc v c ps ws, n)"
proof -
  let ?pre = "utf_enc (bytes_of (if v = 3 then ''MQIsdp'' else ''MQTT'')) @ [of_int v]"
  obtain rest where rest: "connect_enc v c ps ws = ?pre @ rest" "writes (connect_body v c cp wp) rest"
    using connect_body_writes [OF assms(2-4), of v] by (simp add: connect_enc_def connect_flags_bits)
  have all: "write_bytes (?pre @ rest) (replicate n j, 0) = Some (connect_enc v c ps ws, n)"
    using assms(5) rest(1) by (simp add: write_bytes_result)
  then obtain b where b: "write_bytes ?pre (replicate n j, 0) = Some b" "write_bytes rest b = Some (connect_enc v c ps ws, n)"
    unfolding write_bytes_append [of ?pre] bind_Some_iff by blast
  obtain buf p where bp: "b = (buf, p)" by force
  with b(1) have "p \<le> length buf" by (auto simp: write_bytes_result)
  then have "connect_body v c cp wp b = Some (connect_enc v c ps ws, n)"
    using writesD [OF rest(2)] b(2) bp by simp
  moreover have "connect_protocol v (replicate n j, 0) = Some (Some b)"
    using connect_protocol_writes [OF assms(1)] b(1) by simp
  ultimately show thesis using that by blast
qed

lemma header_concrete:
  "Header CONNECT 0 0 0 = 0x10" "Header PINGREQ 0 0 0 = 0xC0" "Header DISCONNECT 0 0 0 = 0xE0"
  by (simp_all add: Header_def)

lemma send_connect_enc:
  assumes "tr_alloc T = always_alloc" "v \<in> {3, 4, 5}" "connect_ok c" "props_arg cp ps" "props_arg wp ws"
    "length (connect_enc v c ps ws) < 2 ^ 28"
  shows "MQTTPacket_send_connect T c v cp wp s = Some (transmit_client T c 0x10 (connect_enc v c ps ws) s)"
proof -
  let ?e = "connect_enc v c ps ws"
  have n: "to_size (connect_len v c cp wp) = length ?e"
    using connect_len_enc [OF assms(2-5)] assms(6) by simp
  obtain b where b: "connect_protocol v (replicate (length ?e) (tr_junk T), 0) = Some (Some b)"
    "connect_body v c cp wp b = Some (?e, length ?e)"
    using connect_block [OF assms(2-5) refl] .
  have "header_type (0x10 :: byte) \<noteq> PUBREL" by (simp add: header_type_def)
  then show ?thesis
    using assms(1) b
    by (simp add: MQTTPacket_send_connect_def Let_def n new_block_def header_concrete
        MQTTPacket_send_bytes transmit_client_def del: bind_Some_iff split: prod.split)
qed

section \<open>SUBSCRIBE and UNSUBSCRIBE\<close>

text \<open>A subscription: the topic filter, the QoS and the version 5 options.\<close>

type_synonym subscription = "bytes \<times> int \<times> MQTTSubscribe_options"

definition subscription_ok :: "subscription \<Rightarrow> bool" where
  "subscription_ok sub = (case sub of (topic, qos, opts) \<Rightarrow>
     length topic < 65536 \<and> 0 \<le> qos \<and> qos < 4 \<and> uint (sub_noLocal opts) < 2 \<and>
     uint (sub_retainAsPublished opts) < 2 \<and> uint (sub_retainHandling opts) < 4)"

definition subscription_enc :: "bool \<Rightarrow> subscription \<Rightarrow> bytes" where
  "subscription_enc with_options sub = (case sub of (topic, qos, opts) \<Rightarrow>
     utf_enc topic @ [of_int (qos + (if with_options then 4 * uint (sub_noLocal opts) +
       8 * uint (sub_retainAsPublished opts) + 16 * uint (sub_retainHandling opts) else 0))])"

definition subscribe_enc :: "int \<Rightarrow> nat \<Rightarrow> MQTTProperty list \<Rightarrow> bool \<Rightarrow> subscription list \<Rightarrow> bytes" where
  "subscribe_enc v msgid ps with_options subs =
     be_bytes 2 msgid @ (if 5 \<le> v then props_enc ps else []) @
     concat (map (subscription_enc (with_options \<and> 5 \<le> v)) subs)"

definition unsubscribe_enc :: "int \<Rightarrow> nat \<Rightarrow> MQTTProperty list \<Rightarrow> bytes list \<Rightarrow> bytes" where
  "unsubscribe_enc v msgid ps topics =
     be_bytes 2 msgid @ (if 5 \<le> v then props_enc ps else []) @ concat (map utf_enc topics)"

lemma options_byte:
  fixes q :: int and a b c :: byte
  assumes "0 \<le> q" "q < 4" "uint a < 2" "uint b < 2" "uint c < 4"
  shows "of_int q OR push_bit 2 a OR push_bit 3 b OR push_bit 4 c =
    (of_int (q + (4 * uint a + 8 * uint b + 16 * uint c)) :: byte)"
proof -
  have "0 \<le> uint a" "0 \<le> uint b" "0 \<le> uint c" by simp_all
  with assms have d: "uint a = 0 \<or> uint a = 1" "uint b = 0 \<or> uint b = 1"
    "uint c = 0 \<or> uint c = 1 \<or> uint c = 2 \<or> uint c = 3" "q = 0 \<or> q = 1 \<or> q = 2 \<or> q = 3" by linarith+
  have w: "x = of_int (uint x)" for x :: byte by simp
  show ?thesis
    by (subst (1) w [of a], subst (1) w [of b], subst (1) w [of c])
      (use d in \<open>elim disjE; simp only:; simp\<close>)
qed

lemma subscribe_loop_writes:
  assumes "\<forall>sub \<in> set subs. subscription_ok sub"
    "case opts of None \<Rightarrow> True | Some opts \<Rightarrow> drop i opts = map (snd \<circ> snd) subs"
  shows "writes (subscribe_loop v (map fst subs) (map (fst \<circ> snd) subs) opts i)
    (concat (map (subscription_enc (opts \<noteq> None \<and> 5 \<le> v)) subs))"
  using assms
proof (induction subs arbitrary: i)
  case Nil
  then show ?case by (simp add: writes_def)
next
  case (Cons sub subs)
  obtain t q opt where sub: "sub = (t, q, opt)" by (cases sub)
  have ok: "length t < 65536" "0 \<le> q" "q < 4" "uint (sub_noLocal opt) < 2"
    "uint (sub_retainAsPublished opt) < 2" "uint (sub_retainHandling opt) < 4"
    using Cons.prems(1) sub by (auto simp: subscription_ok_def)
  define B :: byte where "B = of_int (q + (if opts \<noteq> None \<and> 5 \<le> v then
      4 * uint (sub_noLocal opt) + 8 * uint (sub_retainAsPublished opt) + 16 * uint (sub_retainHandling opt) else 0))"
  have o: "subscription_options v q opts i = Some B"
  proof (cases opts)
    case None
    then show ?thesis by (simp add: subscription_options_def B_def)
  next
    case (Some os)
    with Cons.prems(2) sub have "drop i os = opt # map (snd \<circ> snd) subs" by simp
    then have "i < length os" "os ! i = opt"
      by (metis drop_all linorder_not_le list.distinct(1), metis nth_via_drop)
    then show ?thesis using options_byte [OF ok(2-6)] Some
      by (simp add: subscription_options_def B_def)
  qed
  have "case opts of None \<Rightarrow> True | Some opts \<Rightarrow> drop (i + 1) opts = map (snd \<circ> snd) subs"
    using Cons.prems(2) sub by (auto simp: drop_Suc drop_tl split: option.splits)
  then have "writes (\<lambda>b. Option.bind (writeUTF t b) (\<lambda>b. Option.bind (writeChar B b)
      (subscribe_loop v (map fst subs) (map (fst \<circ> snd) subs) opts (i + 1))))
    (utf_enc t @ [B] @ concat (map (subscription_enc (opts \<noteq> None \<and> 5 \<le> v)) subs))"
    using Cons.prems(1) by (intro writes_bind writes_intros ok(1) Cons.IH) simp_all
  then show ?case
    by (simp only: sub list.map comp_def fst_conv snd_conv subscribe_loop.simps o Option.bind.bind_lunit
        concat.simps subscription_enc_def [abs_def] case_prod_conv B_def append_assoc)
qed

lemma sum_list_strlen:
  "\<forall>t \<in> set ts. length t < 65536 \<Longrightarrow> (\<Sum>t \<leftarrow> ts. strlen_int t) = int (\<Sum>t \<leftarrow> ts. length t)"
  by (induction ts) (simp_all add: strlen_int_small)

lemma subscribe_len_enc:
  assumes "\<forall>sub \<in> set subs. subscription_ok sub" "props_arg props ps" "cl_items topics = map fst subs"
  shows "subscribe_len v topics props = int (length (subscribe_enc v msgid ps w subs))"
proof -
  have "length (concat (map (subscription_enc b) subs)) = (\<Sum>t \<leftarrow> map fst subs. length t) + 3 * length subs" for b
    by (induction subs) (auto simp: subscription_enc_def)
  moreover have "\<forall>t \<in> set (map fst subs). length t < 65536"
    using assms(1) by (auto simp: subscription_ok_def)
  note sum_list_strlen [OF this]
  ultimately show ?thesis
    using assms(3) props_arg_len [OF assms(2)] by (simp add: subscribe_len_def subscribe_enc_def)
qed

lemma unsubscribe_len_enc:
  assumes "\<forall>t \<in> set (cl_items topics). length t < 65536" "props_arg props ps"
  shows "unsubscribe_len v topics props = int (length (unsubscribe_enc v msgid ps (cl_items topics)))"
proof -
  have "length (concat (map utf_enc ts)) = (\<Sum>t \<leftarrow> ts. length t) + 2 * length ts" for ts
    by (induction ts) auto
  then show ?thesis
    using sum_list_strlen [OF assms(1)] props_arg_len [OF assms(2)]
    by (simp add: unsubscribe_len_def unsubscribe_enc_def)
qed

lemma send_subscribe_enc:
  assumes "tr_alloc T = always_alloc" "\<forall>sub \<in> set subs. subscription_ok sub" "props_arg props ps" "0 \<le> msgid"
    "cl_items topics = map fst subs" "cl_items qoss = map (fst \<circ> snd) subs"
    "opts = None \<or> opts = Some (map (snd \<circ> snd) subs)"
    "length (subscribe_enc (client_MQTTVersion c) (nat msgid) ps (opts \<noteq> None) subs) < 2 ^ 28"
  shows "MQTTPacket_send_subscribe T topics qoss opts props msgid dup c s =
    Some (transmit_client T c (Header SUBSCRIBE dup 1 0)
      (subscribe_enc (client_MQTTVersion c) (nat msgid) ps (opts \<noteq> None) subs) s)"
proof -
  let ?v = "client_MQTTVersion c"
  let ?e = "subscribe_enc ?v (nat msgid) ps (opts \<noteq> None) subs"
  have "writes (\<lambda>b. do {
              b \<leftarrow> writeInt msgid b;
              b \<leftarrow> (if 5 \<le> ?v then write_properties props b else Some b);
              subscribe_loop ?v (cl_items topics) (cl_items qoss) opts 0 b }) ?e"
    unfolding subscribe_enc_def assms(5,6)
    by (intro writes_bind writes_if writes_intros subscribe_loop_writes) (use assms in \<open>auto split: option.splits\<close>)
  then have f: "filled_block (replicate (length ?e) (tr_junk T)) (\<lambda>b. do {
              b \<leftarrow> writeInt msgid b;
              b \<leftarrow> (if 5 \<le> ?v then write_properties props b else Some b);
              subscribe_loop ?v (cl_items topics) (cl_items qoss) opts 0 b }) = Some ?e"
    by (rule filled_block_writes) simp
  have n: "to_size (subscribe_len ?v topics props) = length ?e"
    unfolding subscribe_len_enc [OF assms(2,3,5), of ?v "nat msgid" "opts \<noteq> None"]
    by (rule to_size_packet) (rule assms(8))
  show ?thesis
    unfolding MQTTPacket_send_subscribe_def Let_def n
    by (rule send_block [OF assms(1) _ f]) simp
qed

lemma send_unsubscribe_enc:
  assumes "tr_alloc T = always_alloc" "\<forall>t \<in> set (cl_items topics). length t < 65536" "props_arg props ps" "0 \<le> msgid"
    "length (unsubscribe_enc (client_MQTTVersion c) (nat msgid) ps (cl_items topics)) < 2 ^ 28"
  shows "MQTTPacket_send_unsubscribe T topics props msgid dup c s =
    Some (transmit_client T c (Header UNSUBSCRIBE dup 1 0)
      (unsubscribe_enc (client_MQTTVersion c) (nat msgid) ps (cl_items topics)) s)"
proof -
  let ?v = "client_MQTTVersion c"
  let ?e = "unsubscribe_enc ?v (nat msgid) ps (cl_items topics)"
  have l: "writes (write_all writeUTF ts) (concat (map utf_enc ts))" if "\<forall>t \<in> set ts. length t < 65536" for ts
    using that
  proof (induction ts)
    case Nil
    then show ?case by (simp add: writes_def)
  next
    case (Cons t ts)
    then have "writes (\<lambda>s. Option.bind (writeUTF t s) (write_all writeUTF ts)) (utf_enc t @ concat (map utf_enc ts))"
      by (intro writes_bind writes_intros) simp_all
    then show ?case by simp
  qed
  have "writes (\<lambda>b. do {
              b \<leftarrow> writeInt msgid b;
              b \<leftarrow> (if 5 \<le> ?v then write_properties props b else Some b);
              write_all writeUTF (cl_items topics) b }) ?e"
    unfolding unsubscribe_enc_def
    by (intro writes_bind writes_if writes_intros l) (use assms in auto)
  then have f: "filled_block (replicate (length ?e) (tr_junk T)) (\<lambda>b. do {
              b \<leftarrow> writeInt msgid b;
              b \<leftarrow> (if 5 \<le> ?v then write_properties props b else Some b);
              write_all writeUTF (cl_items topics) b }) = Some ?e"
    by (rule filled_block_writes) simp
  have n: "to_size (unsubscribe_len ?v topics props) = length ?e"
    unfolding unsubscribe_len_enc [OF assms(2,3), of ?v "nat msgid"]
    by (rule to_size_packet) (rule assms(5))
  show ?thesis
    unfolding MQTTPacket_send_unsubscribe_def Let_def n
    by (rule send_block [OF assms(1) _ f]) simp
qed

section \<open>A transport for examples\<close>

text \<open>The state is the bytes in flight: what is sent is what arrives.\<close>

definition loop_transport :: "bytes transport" where
  "loop_transport =
     \<lparr>tr_framePos = (\<lambda>s. 0), tr_framePosSeekTo = (\<lambda>n s. s),
      tr_getch = (\<lambda>nh s. case s of [] \<Rightarrow> (TCPSOCKET_INTERRUPTED, 0, []) | b # bs \<Rightarrow> (TCPSOCKET_COMPLETE, b, bs)),
      tr_getdata = (\<lambda>nh n s. (Some (take n s), min n (length s), drop n s)),
      tr_putdatas = (\<lambda>nh head bufs s. (TCPSOCKET_COMPLETE, bufs,
        s @ head @ concat (map (\<lambda>b. case b of None \<Rightarrow> [] | Some d \<Rightarrow> d) (pbs_buffers bufs)))),
      tr_putPacket = (\<lambda>socket head bufs type msgid received v s. (0, s)),
      tr_now = (\<lambda>s. (7, s)), tr_alloc = always_alloc, tr_junk = 0xCD\<rparr>"

lemma loop_alloc: "tr_alloc loop_transport = always_alloc"
  by (simp add: loop_transport_def)

lemma loop_transmit:
  "transmit_client loop_transport c h body s = (TCPSOCKET_COMPLETE,
    c\<lparr>net := (net c)\<lparr>net_lastSent := 7\<rparr>\<rparr>, s @ h # vbi_enc (length body) @ body)"
  by (simp add: transmit_client_def transmit_def one_buffer_def loop_transport_def stamp_sent_def)

section \<open>Properties\<close>


definition sample_mqtt_client :: Clients where
  "sample_mqtt_client = blank_client\<lparr>clientID := bytes_of ''c1'', cleansession := True, keepAliveInterval := 60,
     client_will := Some \<lparr>will_topic = bytes_of ''w'', will_payload = [1], will_retained = 1, will_qos = 2\<rparr>,
     client_username := Some (bytes_of ''u'')\<rparr>"

lemma bytes_of_examples:
  "bytes_of ''MQTT'' = [0x4D, 0x51, 0x54, 0x54]" "bytes_of ''c1'' = [0x63, 0x31]" "bytes_of ''w'' = [0x77]"
  "bytes_of ''u'' = [0x75]" "bytes_of ''a/b'' = [0x61, 0x2F, 0x62]"
  by (simp_all add: bytes_of_def)


text \<open>
  C35.  SUBSCRIBE and UNSUBSCRIBE carry the packet identifier, the properties (version 5) and, for every
  topic filter in the order of the list, the filter and, for SUBSCRIBE, the options byte: the QoS
  and, when version 5 options are given, no local, retain as published and retain handling.  The
  header has the reserved bits 0010.
\<close>

theorem subscription_packets:
  assumes "tr_alloc T = always_alloc" "\<forall>sub \<in> set subs. subscription_ok sub" "props_arg props ps"
    "0 \<le> msgid" "cl_items topics = map fst subs" "cl_items qoss = map (fst \<circ> snd) subs"
    "opts = None \<or> opts = Some (map (snd \<circ> snd) subs)"
    "length (subscribe_enc (client_MQTTVersion c) (nat msgid) ps (opts \<noteq> None) subs) < 2 ^ 28"
  shows "MQTTPacket_send_subscribe T topics qoss opts props msgid 0 c s =
      Some (transmit_client T c 0x82
        (subscribe_enc (client_MQTTVersion c) (nat msgid) ps (opts \<noteq> None) subs) s) \<and>
    MQTTPacket_send_unsubscribe T topics props msgid 0 c s =
      Some (transmit_client T c 0xA2
        (unsubscribe_enc (client_MQTTVersion c) (nat msgid) ps (map fst subs)) s)"
proof -
  have h: "Header SUBSCRIBE 0 1 0 = 0x82" "Header UNSUBSCRIBE 0 1 0 = 0xA2" by (simp_all add: Header_def)
  have t: "\<forall>t \<in> set (cl_items topics). length t < 65536"
    using assms(2,5) by (auto simp: subscription_ok_def)
  have "length (concat (map utf_enc (map fst subs))) \<le> length (concat (map (subscription_enc b) subs))" for b
    by (induction subs) (auto simp: subscription_enc_def)
  then have "length (unsubscribe_enc (client_MQTTVersion c) (nat msgid) ps (cl_items topics)) < 2 ^ 28"
    using assms(8) unfolding subscribe_enc_def unsubscribe_enc_def assms(5) length_append
    by (meson add_le_cancel_left order_le_less_trans)
  from send_unsubscribe_enc [OF assms(1) t assms(3,4) this] send_subscribe_enc [OF assms]
  show ?thesis by (simp only: h assms(5) simp_thms)
qed

theorem subscription_packets_witness:
  "MQTTPacket_send_subscribe loop_transport \<lparr>cl_items = [bytes_of ''a/b''], cl_cur = None\<rparr>
      \<lparr>cl_items = [1], cl_cur = None\<rparr>
      (Some [\<lparr>sub_noLocal = 1, sub_retainAsPublished = 0, sub_retainHandling = 2\<rparr>]) None 300 0
      (sample_mqtt_client\<lparr>client_MQTTVersion := 5\<rparr>) [] =
    Some (TCPSOCKET_COMPLETE, sample_mqtt_client\<lparr>client_MQTTVersion := 5,
        net := (net sample_mqtt_client)\<lparr>net_lastSent := 7\<rparr>\<rparr>,
      [0x82, 9, 1, 44, 0, 0, 3, 0x61, 0x2F, 0x62, 0x25])"
proof -
  let ?subs = "[(bytes_of ''a/b'', 1, \<lparr>sub_noLocal = 1, sub_retainAsPublished = 0, sub_retainHandling = 2\<rparr>)]"
  let ?c = "sample_mqtt_client\<lparr>client_MQTTVersion := 5\<rparr>"
  have e: "subscribe_enc 5 300 [] True ?subs = [1, 44, 0, 0, 3, 0x61, 0x2F, 0x62, 0x25]"
    by (simp add: subscribe_enc_def subscription_enc_def props_enc_def vbi_enc_small utf_enc_def
        be_bytes_small bytes_of_examples)
  have p: "props_arg None []" by (simp add: props_arg_def)
  have "\<forall>sub \<in> set ?subs. subscription_ok sub" by (simp add: subscription_ok_def)
  from subscription_packets [OF loop_alloc this p, of 300 "\<lparr>cl_items = [bytes_of ''a/b''], cl_cur = None\<rparr>"
    "\<lparr>cl_items = [1], cl_cur = None\<rparr>" "Some (map (snd \<circ> snd) ?subs)" ?c "[]"]
  show ?thesis by (simp add: e loop_transmit vbi_enc_small)
qed

end
