(* ===== verification/PacketReceive.thy ===== *)
theory PacketReceive
  imports PacketCodec
begin

text \<open>
  Acknowledgements and publications between two ends: what one sends is what \<open>MQTTPacket_Factory\<close>
  returns at the other.  Then what the parsers do with packets no correct peer sends.
\<close>

section \<open>A packet arriving\<close>

text \<open>
  The connection delivers a packet from the state \<open>s\<close> on and is then in the state \<open>s'\<close>; in the buffer
  \<open>post\<close> follows the data of the packet.
\<close>

definition incoming ::
  "'s transport \<Rightarrow> networkHandles \<Rightarrow> 's \<Rightarrow> byte \<Rightarrow> bytes \<Rightarrow> bytes \<Rightarrow> 's \<Rightarrow> bool" where
  "incoming T nh s header body post s' \<longleftrightarrow>
     length body < 2 ^ 28 \<and>
     (\<exists>s1 s2. tr_getch T nh s = (TCPSOCKET_COMPLETE, header, s1) \<and>
        delivers (tr_getch T nh) s1 (vbi_enc (length body)) s2 \<and>
        tr_getdata T nh (length body) s2 = (Some (body @ post), length body, s'))"

definition stamp_received :: "'s transport \<Rightarrow> networkHandles \<Rightarrow> 's \<Rightarrow> networkHandles \<times> 's" where
  "stamp_received T nh s = (case tr_now T s of (now, s) \<Rightarrow> (nh\<lparr>net_lastReceived := now\<rparr>, s))"

lemma decode_delivers:
  assumes "n < 2 ^ 28" "delivers getch s (vbi_enc n) s'"
  shows "MQTTPacket_decode getch s = (TCPSOCKET_COMPLETE, n, s')"
proof -
  have "length (vbi_enc n) \<le> 4" using assms(1) vbi_length_bound [of n 3] by simp
  then show ?thesis
    using net_decode_loop_bytes [of 0 n getch s s' 0 1] assms by (simp add: MQTTPacket_decode_def)
qed

text \<open>Once the packet has arrived, the parser decides.\<close>

lemma Factory_incoming:
  assumes "incoming T nh s header body post s'"
  shows "MQTTPacket_Factory T v nh s =
    Option.bind (build_packet T v nh header (Some (body @ post)) (length body) s')
      (\<lambda>(pack, error, exit, s'). if pack \<noteq> None \<and> \<not> exit
         then (case stamp_received T nh s' of (nh, s') \<Rightarrow>
           Some (pack, error, nh, if error = TCPSOCKET_INTERRUPTED then tr_framePosSeekTo T (tr_framePos T s) s' else s'))
         else Some (pack, error, nh, if error = TCPSOCKET_INTERRUPTED then tr_framePosSeekTo T (tr_framePos T s) s' else s'))"
proof -
  obtain s1 s2 where i: "tr_getch T nh s = (0, header, s1)" "length body < 2 ^ 28"
    "delivers (tr_getch T nh) s1 (vbi_enc (length body)) s2"
    "tr_getdata T nh (length body) s2 = (Some (body @ post), length body, s')"
    using assms by (auto simp: incoming_def)
  show ?thesis
    using i decode_delivers [OF i(2,3)]
    by (auto simp: MQTTPacket_Factory_def stamp_received_def Let_def simp del: bind_Some_iff
        intro!: arg_cong [where f = "Option.bind _"] split: prod.split)
qed

section \<open>Acknowledgements\<close>

lemma readInt_front:
  assumes "n < 65536"
  shows "readInt (be_bytes 2 n @ post) 0 = Some (n, 2)"
  using readInt_append [OF assms, of "[]" post] by simp

definition persist_sent ::
  "'s transport \<Rightarrow> networkHandles \<Rightarrow> byte \<Rightarrow> (bytes option \<times> nat) list \<Rightarrow> int \<Rightarrow> int \<Rightarrow> 's \<Rightarrow> 's" where
  "persist_sent T nh header bufs msgid v s =
     snd (tr_putPacket T (net_socket nh) (header # vbi_enc (\<Sum>b \<leftarrow> bufs. snd b)) bufs (header_type header) msgid
       False v s)"

lemma send_ack_bytes:
  assumes "tr_alloc T = always_alloc" "0 \<le> msgid" "msgid < 65536"
  shows "MQTTPacket_send_ack T v type msgid dup nh s =
    (let header = Header type dup (if type = PUBREL then 1 else 0) 0;
         body = be_bytes 2 (nat msgid)
     in case transmit T nh header (one_buffer body)
          (if type mod 16 = PUBREL then persist_sent T nh header [(Some body, 2)] msgid v s else s) of
          (rc, nh, bufs, s) \<Rightarrow> Some (rc, nh, s))"
proof -
  have f: "filled_block (replicate 2 (tr_junk T)) (writeInt msgid) = Some (be_bytes 2 (nat msgid))"
    by (rule filled_block_writes [OF writes_Int [OF assms(2)]]) simp
  have r: "readInt (be_bytes 2 (nat msgid)) 0 = Some (nat msgid, 2)"
    using readInt_front [of "nat msgid" "[]"] assms by simp
  show ?thesis
    using assms by (simp add: MQTTPacket_send_ack_def new_block_def f MQTTPacket_send_def fixed_header_bytes
        transmit_def one_buffer_def persist_sent_def Let_def r del: bind_Some_iff split: prod.split)
qed

lemma ack_parse:
  assumes "tr_alloc T = always_alloc" "n < 65536" "type \<in> {PUBACK, PUBREC, PUBREL, PUBCOMP}"
    "header_type header = type"
  shows "build_packet T v nh header (Some (be_bytes 2 n @ post)) 2 s =
    Some (Some (Ack_packet \<lparr>ack_header = header, ack_msgId = Some (int n), ack_rc = (if 5 \<le> v then Some 0 else None),
      ack_MQTTVersion = v, ack_properties = (if 5 \<le> v then Some MQTTProperties_initializer else None)\<rparr>),
      TCPSOCKET_COMPLETE, False, s)"
  using assms readInt_front [OF assms(2), of post]
  by (auto simp: build_packet_def new_packets_def parse_ack_def MQTTPacket_ack_def Let_def
      simp del: bind_Some_iff)

section \<open>Publications\<close>

definition publish_enc :: "int \<Rightarrow> int \<Rightarrow> bytes \<Rightarrow> nat \<Rightarrow> MQTTProperty list \<Rightarrow> bytes \<Rightarrow> bytes" where
  "publish_enc v qos topic msgid ps payload =
     utf_enc topic @ (if 0 < qos then be_bytes 2 msgid else []) @ (if 5 \<le> v then props_enc ps else []) @ payload"

definition publish_ok :: "Publish \<Rightarrow> int \<Rightarrow> MQTTProperty list \<Rightarrow> bool" where
  "publish_ok pack qos ps \<longleftrightarrow>
     qos \<in> {0, 1, 2} \<and> length (publish_topic pack) < 65536 \<and>
     publish_payloadlen pack = int (length (publish_payload pack)) \<and>
     (0 < qos \<longrightarrow> 0 \<le> publish_msgId pack \<and> publish_msgId pack < 65536) \<and>
     (5 \<le> publish_MQTTVersion pack \<longrightarrow> props_arg (Some (publish_properties pack)) ps)"

definition publication :: "Publish \<Rightarrow> int \<Rightarrow> MQTTProperty list \<Rightarrow> bytes" where
  "publication pack qos ps =
     publish_enc (publish_MQTTVersion pack) qos (publish_topic pack) (nat (publish_msgId pack)) ps (publish_payload pack)"

lemma readUTFlen_front:
  assumes "length t < 65536" "length t + 2 \<le> n" "n \<le> length (utf_enc t @ post)"
  shows "readUTFlen always_alloc (utf_enc t @ post) 0 n l = Some (Some t, length t + 2, int (length t))"
proof -
  have "readInt (utf_enc t @ post) 0 = Some (length t, 2)"
    using readInt_front [OF assms(1), of "t @ post"] by (simp add: utf_enc_def)
  moreover have "take (length t) (drop 2 (utf_enc t @ post)) = t" by (simp add: utf_enc_def)
  ultimately show ?thesis
    using assms(2,3) by (simp add: readUTFlen_def del: bind_Some_iff drop_append take_append)
qed

lemma publish_parse:
  assumes "length topic < 65536" "msgid < 65536" "header_qos header = qos" "0 \<le> qos"
    "5 \<le> v \<longrightarrow> (\<forall>p \<in> set ps. prop_ok p) \<and> length (concat (map prop_enc ps)) < 2 ^ 28"
    "body = publish_enc v qos topic msgid ps payload"
  obtains props where "MQTTPacket_publish always_alloc v header body (length body) =
    Some (Some \<lparr>publish_header = header, publish_topic = topic, publish_topiclen = int (length topic),
      publish_msgId = (if 0 < qos then int msgid else 0), publish_payload = payload,
      publish_payloadlen = int (length payload), publish_MQTTVersion = v, publish_properties = props,
      publish_mask = [0, 0, 0, 0]\<rparr>)"
    "5 \<le> v \<longrightarrow> props_entries props = Some ps"
proof -
  let ?m = "if 0 < qos then be_bytes 2 msgid else []"
  let ?q = "if 5 \<le> v then props_enc ps else []"
  let ?p = "length topic + 2 + length ?m"
  have body: "body = (utf_enc topic @ ?m) @ ?q @ payload" by (simp add: assms(6) publish_enc_def)
  have t: "readUTFlen always_alloc body 0 (length body) 0 = Some (Some topic, length topic + 2, int (length topic))"
    unfolding body append_assoc by (rule readUTFlen_front [OF assms(1)]) simp_all
  have m: "(if 0 < qos then readInt body (length topic + 2) else Some (0, length topic + 2)) =
      Some (if 0 < qos then msgid else 0, ?p)"
    using readInt_append [OF assms(2), of "utf_enc topic" "?q @ payload"] by (simp add: body)
  have "\<exists>props. (if 5 \<le> v then MQTTProperties_read always_alloc MQTTProperties_initializer body ?p (length body)
       else Some (1, MQTTProperties_initializer, ?p)) = Some (1, props, ?p + length ?q) \<and>
      (5 \<le> v \<longrightarrow> props_entries props = Some ps)"
  proof (cases "5 \<le> v")
    case True
    have d: "body = (utf_enc topic @ ?m) @ props_enc ps @ payload" using body True by simp
    have l: "length (utf_enc topic @ ?m) = ?p" by simp
    from MQTTProperties_read_bytes [OF _ _ d] assms(5) True show ?thesis unfolding l by auto
  qed simp
  then obtain props where q: "(if 5 \<le> v then MQTTProperties_read always_alloc MQTTProperties_initializer body ?p (length body)
       else Some (1, MQTTProperties_initializer, ?p)) = Some (1, props, ?p + length ?q)"
    and e: "5 \<le> v \<longrightarrow> props_entries props = Some ps" by blast
  have d: "drop (?p + length ?q) body = payload" "int (length body) - int (?p + length ?q) = int (length payload)"
    unfolding body by simp_all
  show thesis
    by (rule that [OF _ e])
      (simp only: MQTTPacket_publish_def assms(3) t m q Option.bind.bind_lunit case_prod_conv option.case d
        if_False simp_thms if_distrib [of int], simp)
qed

text \<open>The buffers a publication is sent in: topic length, topic, and payload, with the block for the
  identifier and the properties before the payload where there is one.\<close>

definition publish_buffers :: "Publish \<Rightarrow> int \<Rightarrow> MQTTProperty list \<Rightarrow> PacketBuffers" where
  "publish_buffers pack qos ps =
     (let v = publish_MQTTVersion pack; topic = publish_topic pack; payload = publish_payload pack;
          block = (if 0 < qos then be_bytes 2 (nat (publish_msgId pack)) else []) @ (if 5 \<le> v then props_enc ps else [])
      in if 0 < qos \<or> 5 \<le> v
         then \<lparr>pbs_buffers = [Some (be_bytes 2 (length topic)), Some topic, Some block, Some payload],
               pbs_buflens = [2, length topic, length block, length payload],
               pbs_frees = [True, False, True, False], pbs_mask = publish_mask pack\<rparr>
         else \<lparr>pbs_buffers = [Some (be_bytes 2 (length topic)), Some topic, Some payload],
               pbs_buflens = [2, length topic, length payload],
               pbs_frees = [True, False, False], pbs_mask = publish_mask pack\<rparr>)"

lemma publish_buffers_bytes:
  "concat (map the (pbs_buffers (publish_buffers pack qos ps))) = publication pack qos ps"
  "sum_list (pbs_buflens (publish_buffers pack qos ps)) = length (publication pack qos ps)"
  by (simp_all add: publish_buffers_def publication_def publish_enc_def utf_enc_def Let_def)

lemma sends_bytes:
  assumes "tr_alloc T = always_alloc" "sum_list (pbs_buflens bufs) < 2 ^ 28"
    "header_type header = PUBLISH \<and> header_qos header \<noteq> 0 \<longrightarrow>
      2 < length (pbs_buffers bufs) \<and> (\<exists>d p. pbs_buffers bufs ! 2 = Some d \<and> readInt d 0 = Some (nat msgid, p)) \<and> 0 \<le> msgid \<and>
      length (pbs_buffers bufs) = length (pbs_buflens bufs)"
  shows "MQTTPacket_sends T nh header bufs v s =
    Some (transmit T nh header bufs
      (if header_type header = PUBLISH \<and> header_qos header \<noteq> 0
       then persist_sent T nh header (zip (pbs_buffers bufs) (pbs_buflens bufs)) msgid v s else s))"
proof -
  have n: "sum_list (pbs_buflens bufs) mod 18446744073709551616 = sum_list (pbs_buflens bufs)"
    by (rule mod_less) (rule less_trans [OF assms(2)], simp)
  have z: "(\<Sum>b \<leftarrow> zip (pbs_buffers bufs) (pbs_buflens bufs). snd b) = sum_list (pbs_buflens bufs)"
    if "length (pbs_buffers bufs) = length (pbs_buflens bufs)"
    using that by simp
  show ?thesis
  proof (cases "header_type header = PUBLISH \<and> header_qos header \<noteq> 0")
    case True
    then obtain d p where d: "2 < length (pbs_buffers bufs)" "pbs_buffers bufs ! 2 = Some d"
      "readInt d 0 = Some (nat msgid, p)" "0 \<le> msgid" "length (pbs_buffers bufs) = length (pbs_buflens bufs)"
      using assms(3) by blast
    show ?thesis
      using assms(1) True d(1-4) z [OF d(5)]
      by (simp add: MQTTPacket_sends_def n fixed_header_bytes transmit_def persist_sent_def
          del: bind_Some_iff split: prod.split)
  next
    case False
    show ?thesis
      unfolding MQTTPacket_sends_def if_not_P [OF False]
      using assms(1) by (simp add: n fixed_header_bytes transmit_def del: bind_Some_iff split: prod.split)
  qed
qed

lemma send_publish_bytes:
  assumes "tr_alloc T = always_alloc" "publish_ok pack qos ps" "length (publication pack qos ps) < 2 ^ 28"
  shows "MQTTPacket_send_publish T pack dup qos retained nh s =
    (let header = Header PUBLISH dup qos retained; bufs = publish_buffers pack qos ps in
     case transmit T nh header bufs
       (if 0 < qos then persist_sent T nh header (zip (pbs_buffers bufs) (pbs_buflens bufs)) (publish_msgId pack)
          (publish_MQTTVersion pack) s else s) of
       (rc, nh, bufs, s) \<Rightarrow>
         Some (rc, after_putdatas bufs (if 0 < qos \<or> 5 \<le> publish_MQTTVersion pack then 3 else 2) pack, nh, s))"
proof -
  let ?v = "publish_MQTTVersion pack" and ?t = "publish_topic pack" and ?m = "publish_msgId pack"
  define B where "B = (if 0 < qos then be_bytes 2 (nat ?m) else []) @ (if 5 \<le> ?v then props_enc ps else [])"
  let ?bufs = "publish_buffers pack qos ps"
  have q: "qos \<in> {0, 1, 2}" "length ?t < 65536" "publish_payloadlen pack = int (length (publish_payload pack))"
    "0 < qos \<longrightarrow> 0 \<le> ?m \<and> ?m < 65536" "5 \<le> ?v \<longrightarrow> props_arg (Some (publish_properties pack)) ps"
    using assms(2) by (auto simp: publish_ok_def)
  have len: "filled_block (replicate 2 (tr_junk T)) (writeInt (strlen_int ?t)) = Some (be_bytes 2 (length ?t))"
    using filled_block_writes [OF writes_Int [of "int (length ?t)"], of 2] q(2) by (simp add: strlen_int_small)
  have "writes (\<lambda>b. do { b \<leftarrow> (if 0 < qos then writeInt ?m b else Some b);
      (if 5 \<le> ?v then write_properties (Some (publish_properties pack)) b else Some b) }) B"
    unfolding B_def by (intro writes_bind writes_if writes_intros) (use q in auto)
  then have block: "filled_block (replicate (length B) (tr_junk T)) (\<lambda>b. do {
      b \<leftarrow> (if 0 < qos then writeInt ?m b else Some b);
      (if 5 \<le> ?v then map_option snd (MQTTProperties_write (Some (publish_properties pack)) b) else Some b) }) = Some B"
    unfolding write_properties_def by (rule filled_block_writes) simp
  have b: "length B < 2 ^ 28" "length (publish_payload pack) < 2 ^ 28"
    using assms(3) by (simp_all add: publication_def publish_enc_def B_def)
  have e: "(if 0 < qos then 2 else 0) + (if 5 \<le> ?v then MQTTProperties_len (Some (publish_properties pack)) else 0) =
      int (length B)"
    using q(5) props_arg_len by (auto simp: B_def)
  note n = to_size_packet [OF b(1), folded e] to_size_packet [OF b(2), folded q(3)]
  have s: "MQTTPacket_sends T nh (Header PUBLISH dup qos retained) ?bufs ?v s =
    Some (transmit T nh (Header PUBLISH dup qos retained) ?bufs
      (if 0 < qos then persist_sent T nh (Header PUBLISH dup qos retained)
         (zip (pbs_buffers ?bufs) (pbs_buflens ?bufs)) ?m ?v s else s))"
  proof -
    have h: "header_type (Header PUBLISH dup qos retained) = PUBLISH \<and> header_qos (Header PUBLISH dup qos retained) \<noteq> 0 \<longleftrightarrow> 0 < qos"
      using q(1) by auto
    have r: "0 < qos \<longrightarrow> 2 < length (pbs_buffers ?bufs) \<and>
        (\<exists>d p. pbs_buffers ?bufs ! 2 = Some d \<and> readInt d 0 = Some (nat ?m, p)) \<and> 0 \<le> ?m \<and>
        length (pbs_buffers ?bufs) = length (pbs_buflens ?bufs)"
      using q(4) readInt_front [of "nat ?m"] by (auto simp: publish_buffers_def Let_def numeral_2_eq_2)
    show ?thesis
      by (rule sends_bytes [OF assms(1), of ?bufs "Header PUBLISH dup qos retained" ?m nh ?v s,
            unfolded h publish_buffers_bytes(2), OF assms(3) r])
  qed
  show ?thesis
  proof (cases "0 < qos \<or> 5 \<le> ?v")
    case True
    then have "\<lparr>pbs_buffers = [Some (be_bytes 2 (length ?t)), Some ?t, Some B, Some (publish_payload pack)],
      pbs_buflens = [2, length ?t, length B, length (publish_payload pack)],
      pbs_frees = [True, False, True, False], pbs_mask = publish_mask pack\<rparr> = ?bufs"
      by (simp add: publish_buffers_def Let_def B_def)
    then show ?thesis
      using assms(1) s True
      by (simp add: MQTTPacket_send_publish_def Let_def new_block_def n len block
          del: bind_Some_iff split: prod.split)
  next
    case False
    then have "\<lparr>pbs_buffers = [Some (be_bytes 2 (length ?t)), Some ?t, Some (publish_payload pack)],
      pbs_buflens = [2, length ?t, length (publish_payload pack)],
      pbs_frees = [True, False, False], pbs_mask = publish_mask pack\<rparr> = ?bufs"
      by (simp add: publish_buffers_def Let_def)
    then show ?thesis
      using assms(1) s False
      by (simp add: MQTTPacket_send_publish_def Let_def new_block_def n len
          del: bind_Some_iff split: prod.split)
  qed
qed

text \<open>What is stored of a received QoS 2 publication: the whole packet, under its identifier.\<close>

definition store_received ::
  "'s transport \<Rightarrow> networkHandles \<Rightarrow> byte \<Rightarrow> bytes \<Rightarrow> int \<Rightarrow> int \<Rightarrow> 's \<Rightarrow> int \<times> 's" where
  "store_received T nh header body msgid v s =
     tr_putPacket T (net_socket nh) (header # vbi_enc (length body)) [(Some body, length body)]
       (header_type header) msgid True v s"

lemma persist_received_bytes:
  assumes "tr_alloc T = always_alloc" "length body < 2 ^ 28"
  shows "persist_received T v nh header (Some body) (length body) pack s =
    (case store_received T nh header body (publish_msgId pack) v s of (rc, s) \<Rightarrow> Some (rc, False, s))"
proof -
  have l: "length (vbi_enc (length body)) \<le> 4" using assms(2) vbi_length_bound [of "length body" 3] by simp
  have "take (Suc 0) ((replicate 10 (tr_junk T))[0 := header]) = [header]"
    using take_update_next [of 0 "replicate 10 (tr_junk T)" header] by simp
  with l show ?thesis
    using assms(1)
    by (simp add: persist_received_def new_block_def write_at_def encode_bytes store_received_def
        del: bind_Some_iff)
qed

lemma publish_Factory:
  assumes "tr_alloc T = always_alloc" "incoming T nh s header body [] s'" "header_type header = PUBLISH"
    "MQTTPacket_publish always_alloc v header body (length body) = Some (Some p)" "v \<le> 5"
  shows "\<exists>nh' s''. MQTTPacket_Factory T v nh s = Some (Some (Publish_packet p),
    (if header_qos header = 2 then fst (store_received T nh header body (publish_msgId p) v s')
     else TCPSOCKET_COMPLETE), nh', s'')"
proof -
  have l: "length body < 2 ^ 28" using assms(2) by (simp add: incoming_def)
  have b: "\<exists>s1. build_packet T v nh header (Some body) (length body) s' = Some (Some (Publish_packet p),
      (if header_qos header = 2 then fst (store_received T nh header body (publish_msgId p) v s') else 0), False, s1)"
    using assms(1,3,4) persist_received_bytes [OF assms(1) l, of v nh header p s']
    by (auto simp: build_packet_def new_packets_def Let_def numeral_3_eq_3 split: prod.splits simp del: bind_Some_iff)
  then obtain s1 where b: "build_packet T v nh header (Some body) (length body) s' = Some (Some (Publish_packet p),
      (if header_qos header = 2 then fst (store_received T nh header body (publish_msgId p) v s') else 0), False, s1)"
    by blast
  show ?thesis
    unfolding Factory_incoming [OF assms(2)] append_Nil2 b by (auto split: prod.split)
qed

lemma vbi_enc_length_pos: "0 < length (vbi_enc n)"
  by (subst vbi_enc.simps) simp

lemma prop_enc_length: "1 < length (prop_enc p)"
  proof -
  have "be_bytes 2 n \<noteq> []" "be_bytes 4 n \<noteq> []" "utf_enc d \<noteq> []" for n d
    by (metis length_be_bytes list.size(3) zero_neq_numeral, metis length_be_bytes list.size(3) zero_neq_numeral,
        metis length_utf_enc add_2_eq_Suc' list.size(3) nat.distinct(2))
  then show ?thesis by (simp add: prop_enc_def vbi_enc_length_pos split: property_value.split)
qed

section \<open>Properties\<close>


text \<open>
  C24.  PUBACK, PUBREC, PUBREL and PUBCOMP go out with the header byte of the specification (PUBREL
  with the reserved bits 0010 and the DUP flag of its caller) and the two bytes of the identifier;
  a PUBREL is stored before.  \<open>MQTTPacket_Factory\<close> returns them with type and identifier, for
  version 5 with the reason code success.
\<close>

theorem acks_round_trip:
  assumes "tr_alloc T = always_alloc" "tr_alloc R = always_alloc" "0 \<le> msgid" "msgid < 65536"
  shows "let body = be_bytes 2 (nat msgid);
      sent = (\<lambda>header s. case transmit T nh header (one_buffer body) s of (rc, nh, bufs, s) \<Rightarrow> Some (rc, nh, s));
      pubrel = Header PUBREL dup 1 0
    in MQTTPacket_send_puback T v msgid nh s = sent 0x40 s \<and>
      MQTTPacket_send_pubrec T v msgid nh s = sent 0x50 s \<and>
      MQTTPacket_send_pubrel T v msgid dup nh s =
        sent pubrel (persist_sent T nh pubrel [(Some body, 2)] msgid v s) \<and>
      MQTTPacket_send_pubcomp T v msgid nh s = sent 0x70 s \<and>
      (type \<in> {PUBACK, PUBREC, PUBREL, PUBCOMP} \<longrightarrow>
       incoming R nh' r (Header type dup qos 0) body post r' \<longrightarrow>
       MQTTPacket_Factory R v nh' r =
         (case stamp_received R nh' r' of (nh'', r'') \<Rightarrow>
           Some (Some (Ack_packet \<lparr>ack_header = Header type dup qos 0, ack_msgId = Some msgid,
             ack_rc = (if 5 \<le> v then Some 0 else None), ack_MQTTVersion = v,
             ack_properties = (if 5 \<le> v then Some MQTTProperties_initializer else None)\<rparr>),
             TCPSOCKET_COMPLETE, nh'', r'')))"
proof -
  have n: "nat msgid < 65536" "int (nat msgid) = msgid" using assms(3,4) by simp_all
  have h: "Header PUBACK 0 0 0 = 0x40" "Header PUBREC 0 0 0 = 0x50" "Header PUBCOMP 0 0 0 = 0x70"
    by (simp_all add: Header_def)
  have f: "MQTTPacket_Factory R v nh' r =
         (case stamp_received R nh' r' of (nh'', r'') \<Rightarrow>
           Some (Some (Ack_packet \<lparr>ack_header = Header type dup qos 0, ack_msgId = Some msgid,
             ack_rc = (if 5 \<le> v then Some 0 else None), ack_MQTTVersion = v,
             ack_properties = (if 5 \<le> v then Some MQTTProperties_initializer else None)\<rparr>),
             TCPSOCKET_COMPLETE, nh'', r''))"
    if t: "type \<in> {PUBACK, PUBREC, PUBREL, PUBCOMP}"
      and i: "incoming R nh' r (Header type dup qos 0) (be_bytes 2 (nat msgid)) post r'"
  proof -
    have ht: "header_type (Header type dup qos 0) = type" using t by auto
    show ?thesis
      using Factory_incoming [OF i] ack_parse [OF assms(2) n(1) t ht, of v nh' post r'] n(2)
      by (simp add: del: bind_Some_iff)
  qed
  show ?thesis
    unfolding Let_def MQTTPacket_send_puback_def MQTTPacket_send_pubrec_def MQTTPacket_send_pubrel_def
      MQTTPacket_send_pubcomp_def send_ack_bytes [OF assms(1,3,4)]
    by (intro conjI impI f) (simp_all add: h)
qed

text \<open>
  C36.  The reason of a version 5 DISCONNECT that comes without properties (one or two bytes of data)
  is not read: the packet says success.  With properties, reason and properties are returned.
\<close>

theorem disconnect_reason:
  assumes "\<forall>p \<in> set ps. prop_ok p" "length (concat (map prop_enc ps)) < 2 ^ 28" "ps \<noteq> []"
  shows "let ack = (\<lambda>props. \<lparr>ack_header = 0xE0, ack_msgId = None, ack_rc = Some 0, ack_MQTTVersion = 5, ack_properties = Some props\<rparr>)
    in MQTTPacket_ack always_alloc 5 0xE0 (reason # post) 1 = Some (Some (ack MQTTProperties_initializer)) \<and>
      MQTTPacket_ack always_alloc 5 0xE0 (reason # 0 # post) 2 = Some (Some (ack MQTTProperties_initializer)) \<and>
      (\<exists>props. MQTTPacket_ack always_alloc 5 0xE0 (reason # props_enc ps) (length (reason # props_enc ps)) =
          Some (Some ((ack props)\<lparr>ack_rc := Some reason\<rparr>)) \<and>
        props_entries props = Some ps)"
proof -
  have t: "header_type (0xE0 :: byte) = DISCONNECT" by (simp add: header_type_def)
  obtain q qs where "ps = q # qs" using assms(3) by (cases ps) auto
  then have "1 < length (concat (map prop_enc ps))" using prop_enc_length [of q] by simp
  then have l: "3 \<le> length (props_enc ps)"
    using vbi_enc_length_pos [of "length (concat (map prop_enc ps))"] unfolding props_enc_def length_append by linarith
  from MQTTProperties_read_bytes [OF assms(1,2), of "reason # props_enc ps" "[reason]" "[]"]
  obtain props where r: "MQTTProperties_read always_alloc MQTTProperties_initializer (reason # props_enc ps) 1
      (length (reason # props_enc ps)) = Some (1, props, 1 + length (props_enc ps))"
    "props_entries props = Some ps" by auto
  show ?thesis
    using l r readChar_append [of "[]" reason "props_enc ps"]
    by (simp add: MQTTPacket_ack_def t Let_def del: bind_Some_iff)
qed

text \<open>
  C36.  The parsers do not check that the fixed part of a packet is there.  With the packet at the end
  of its buffer, a QoS 1 or 2 PUBLISH below version 5 without an identifier, an acknowledgement of
  less than two bytes and a CONNACK of less than two bytes are read past the buffer; with other data
  behind it the PUBLISH gets an identifier from there and a payload length of -2.  A SUBACK without
  return codes is used after it is freed.  A version 5 CONNACK of two bytes has uninitialised
  properties.
\<close>

theorem malformed_packets:
  assumes "length topic < 65536" "v < 5" "header_qos header \<noteq> 0" "header_type ack \<noteq> DISCONNECT"
    "length short < 2"
  shows "MQTTPacket_publish always_alloc v header (utf_enc topic) (length (utf_enc topic)) = None \<and>
    (\<exists>p. MQTTPacket_publish always_alloc v header (utf_enc topic @ a # b # post) (length (utf_enc topic)) = Some (Some p) \<and>
       publish_msgId p = int (256 * unat a + unat b) \<and> publish_payloadlen p = -2) \<and>
    MQTTPacket_ack always_alloc w ack short (length short) = None \<and>
    MQTTPacket_connack always_alloc w 0x20 short (length short) = None \<and>
    MQTTPacket_suback always_alloc v 0x90 (a # b # post) 2 = None \<and>
    (\<exists>p. MQTTPacket_connack always_alloc 5 0x20 (a # b # post) 2 = Some (Some p) \<and> connack_properties p = None)"
proof -
  have q: "0 < header_qos header" using assms(3) by (simp add: header_qos_def less_le)
  have t: "readUTFlen always_alloc (utf_enc topic @ rest) 0 (length (utf_enc topic)) 0 =
      Some (Some topic, length topic + 2, int (length topic))" for rest
    by (rule readUTFlen_front [OF assms(1)]) simp_all
  have i: "readInt (utf_enc topic @ a # b # post) (length topic + 2) = Some (256 * unat a + unat b, length topic + 4)"
    using read_at_append [of "utf_enc topic" "a # b # post"] read_at_append(1) [of "utf_enc topic" "a # b # post" 1]
    by (simp add: readInt_def del: bind_Some_iff)
  have s: "readInt short 0 = None" "Option.bind (readChar short 0) (\<lambda>(c, p). readChar short p) = None"
    using assms(5) by (auto simp: readInt_def readChar_def read_at_def split: Option.bind_split)
  have c: "MQTTPacket_connack always_alloc w 0x20 short (length short) = None"
    using s(2) by (cases "readChar short 0") (auto simp: MQTTPacket_connack_def split: Option.bind_split)
  have z: "readInt (a # b # post) 0 = Some (256 * unat a + unat b, 2)" by (simp add: readInt_def numeral_2_eq_2 del: bind_Some_iff)
  show ?thesis
  proof (intro conjI c)
    have "readInt (utf_enc topic) (length topic + 2) = None" by (simp add: readInt_def read_at_def)
    then show "MQTTPacket_publish always_alloc v header (utf_enc topic) (length (utf_enc topic)) = None"
      using t [of "[]"] q assms(2) by (simp add: MQTTPacket_publish_def del: bind_Some_iff)
    show "\<exists>p. MQTTPacket_publish always_alloc v header (utf_enc topic @ a # b # post) (length (utf_enc topic)) = Some (Some p) \<and>
       publish_msgId p = int (256 * unat a + unat b) \<and> publish_payloadlen p = -2"
      using t [of "a # b # post"] q assms(2) i by (simp add: MQTTPacket_publish_def del: bind_Some_iff)
    show "MQTTPacket_ack always_alloc w ack short (length short) = None"
      using s(1) assms(4) by (simp add: MQTTPacket_ack_def del: bind_Some_iff)
    show "MQTTPacket_suback always_alloc v 0x90 (a # b # post) 2 = None"
      using z assms(2) by (simp add: MQTTPacket_suback_def read_codes.simps cl_zero_def del: bind_Some_iff)
    show "\<exists>p. MQTTPacket_connack always_alloc 5 0x20 (a # b # post) 2 = Some (Some p) \<and> connack_properties p = None"
      by (simp add: MQTTPacket_connack_def readChar_def Let_def del: bind_Some_iff)
  qed
qed

fun packet_header :: "MQTTPacket \<Rightarrow> byte" where
  "packet_header (Header_only h) = h"
| "packet_header (Connack_packet p) = connack_header p"
| "packet_header (Publish_packet p) = publish_header p"
| "packet_header (Ack_packet p) = ack_header p"
| "packet_header (Suback_packet p) = suback_header p"
| "packet_header (Unsuback_packet p) = unsuback_header p"

fun packet_kinds :: "MQTTPacket \<Rightarrow> int list" where
  "packet_kinds (Header_only h) = [PINGREQ, PINGRESP]"
| "packet_kinds (Connack_packet p) = [CONNACK]"
| "packet_kinds (Publish_packet p) = [PUBLISH]"
| "packet_kinds (Ack_packet p) = [PUBACK, PUBREC, PUBREL, PUBCOMP, DISCONNECT, AUTH]"
| "packet_kinds (Suback_packet p) = [SUBACK]"
| "packet_kinds (Unsuback_packet p) = [UNSUBACK]"

lemma publish_header_parsed: "MQTTPacket_publish m v h d n = Some (Some p) \<Longrightarrow> publish_header p = h"
  unfolding MQTTPacket_publish_def
  by (auto simp del: bind_Some_iff split: if_split_asm Option.bind_split_asm option.split_asm prod.split_asm)

lemma ack_header_parsed: "MQTTPacket_ack m v h d n = Some (Some p) \<Longrightarrow> ack_header p = h"
  unfolding MQTTPacket_ack_def
  by (auto simp del: bind_Some_iff split: if_split_asm Option.bind_split_asm option.split_asm prod.split_asm)

lemma connack_header_parsed: "MQTTPacket_connack m v h d n = Some (Some p) \<Longrightarrow> connack_header p = h"
  unfolding MQTTPacket_connack_def Let_def
  by (auto simp del: bind_Some_iff split: if_split_asm Option.bind_split_asm option.split_asm prod.split_asm)

lemma suback_header_parsed: "MQTTPacket_suback m v h d n = Some (Some p) \<Longrightarrow> suback_header p = h"
  unfolding MQTTPacket_suback_def
  by (auto simp del: bind_Some_iff split: if_split_asm Option.bind_split_asm option.split_asm prod.split_asm)

lemma unsuback_header_parsed: "MQTTPacket_unsuback m v h d n = Some (Some p) \<Longrightarrow> unsuback_header p = h"
  unfolding MQTTPacket_unsuback_def Let_def
  by (auto simp del: bind_Some_iff split: if_split_asm Option.bind_split_asm option.split_asm prod.split_asm)

lemmas parsed_headers = publish_header_parsed ack_header_parsed connack_header_parsed
  suback_header_parsed unsuback_header_parsed

lemma header_type_range: "0 \<le> header_type h" "header_type h < 16"
  using uint_lt2p [of h] unfolding header_type_def uint_drop_byte
  by (simp_all add: pos_imp_zdiv_nonneg_iff)

lemma int16_cases:
  assumes "0 \<le> t" "t < (16 :: int)"
  shows "t = 0 \<or> t = 1 \<or> t = 2 \<or> t = 3 \<or> t = 4 \<or> t = 5 \<or> t = 6 \<or> t = 7 \<or> t = 8 \<or> t = 9 \<or>
    t = 10 \<or> t = 11 \<or> t = 12 \<or> t = 13 \<or> t = 14 \<or> t = 15"
  using assms by presburger

lemma parser_kind:
  assumes "0 \<le> t" "t < 16" "new_packets m ! nat t = Some parse" "parse v h d n = Some (Some p)"
  shows "packet_header p = h \<and> t \<in> set (packet_kinds p)"
proof -
  from int16_cases [OF assms(1,2)] show ?thesis
    using assms(3,4)
    by (elim disjE)
      (auto simp: new_packets_def parse_ack_def parse_header_only_def MQTTPacket_header_only_def
        dest!: parsed_headers)
qed

lemma build_kind:
  assumes "build_packet T v nh h data n s = Some (Some p, e, x, s')"
  shows "packet_header p = h" "header_type h \<in> set (packet_kinds p)" "v < 5 \<longrightarrow> header_type h < DISCONNECT"
proof -
  obtain parse d where p: "new_packets (tr_alloc T) ! nat (header_type h) = Some parse"
    "parse v h d n = Some (Some p)" "v < 5 \<longrightarrow> header_type h < DISCONNECT"
    using assms unfolding build_packet_def Let_def
    by (auto simp del: bind_Some_iff split: if_split_asm Option.bind_split_asm option.split_asm prod.split_asm MQTTPacket.split_asm)
  from parser_kind [OF header_type_range p(1,2)] p(3)
  show "packet_header p = h" "header_type h \<in> set (packet_kinds p)" "v < 5 \<longrightarrow> header_type h < DISCONNECT" by simp_all
qed


section \<open>Witnesses\<close>

lemma loop_delivers: "delivers (tr_getch loop_transport nh) (bs @ rest) bs rest"
  by (induction bs) (simp_all add: loop_transport_def)

lemma loop_incoming:
  assumes "length body < 2 ^ 28"
  shows "incoming loop_transport nh (h # vbi_enc (length body) @ body @ rest) h body [] rest"
proof -
  have "tr_getch loop_transport nh (h # vbi_enc (length body) @ body @ rest) = (0, h, vbi_enc (length body) @ body @ rest)"
    "tr_getdata loop_transport nh (length body) (body @ rest) = (Some body, length body, rest)"
    by (simp_all add: loop_transport_def)
  then show ?thesis using loop_delivers [of nh "vbi_enc (length body)" "body @ rest"] assms
    by (auto simp: incoming_def)
qed


theorem acks_round_trip_witness:
  "\<exists>nh r. MQTTPacket_Factory loop_transport 4 (net blank_client) [0x62, 2, 0, 9] =
    Some (Some (Ack_packet \<lparr>ack_header = 0x62, ack_msgId = Some 9, ack_rc = None, ack_MQTTVersion = 4,
      ack_properties = None\<rparr>), TCPSOCKET_COMPLETE, nh, r)"
proof -
  have h: "Header PUBREL 0 1 0 = 0x62" by (simp add: Header_def)
  have "incoming loop_transport (net blank_client) [0x62, 2, 0, 9] (Header PUBREL 0 1 0) (be_bytes 2 (nat 9)) [] []"
    using loop_incoming [of "[0, 9]" "net blank_client" "0x62" "[]"] by (simp add: h be_bytes_small vbi_enc_small)
  with acks_round_trip [OF loop_alloc loop_alloc, where msgid = 9 and nh = "net blank_client" and v = 4 and s = "[]"
      and dup = 0 and type = PUBREL and nh' = "net blank_client" and r = "[0x62, 2, 0, 9]" and qos = 1
      and post = "[]" and r' = "[]"]
  have "MQTTPacket_Factory loop_transport 4 (net blank_client) [0x62, 2, 0, 9] =
      (case stamp_received loop_transport (net blank_client) [] of (nh'', r'') \<Rightarrow>
        Some (Some (Ack_packet \<lparr>ack_header = Header PUBREL 0 1 0, ack_msgId = Some 9,
          ack_rc = (if 5 \<le> (4 :: int) then Some 0 else None), ack_MQTTVersion = 4,
          ack_properties = (if 5 \<le> (4 :: int) then Some MQTTProperties_initializer else None)\<rparr>), 0, nh'', r''))"
    unfolding Let_def by simp
  then show ?thesis by (simp add: h split: prod.splits)
qed

theorem disconnect_reason_witness:
  "\<exists>props. MQTTPacket_ack always_alloc 5 0xE0 (0x8B # props_enc sample_properties) (length (0x8B # props_enc sample_properties)) =
      Some (Some \<lparr>ack_header = 0xE0, ack_msgId = None, ack_rc = Some 0x8B, ack_MQTTVersion = 5, ack_properties = Some props\<rparr>) \<and>
    props_entries props = Some sample_properties"
proof -
  have "length (concat (map prop_enc sample_properties)) < 2 ^ 28" "sample_properties \<noteq> []"
    by (simp_all add: sample_ok(2)) (simp add: sample_properties_def)
  from disconnect_reason [OF sample_ok(1) this, of "0x8B"] show ?thesis unfolding Let_def by simp
qed

theorem malformed_packets_witness:
  "MQTTPacket_publish always_alloc 4 0x32 [0, 1, 0x61] 3 = None \<and>
   MQTTPacket_suback always_alloc 4 0x90 [0, 7] 2 = None"
proof -
  have h: "header_qos (0x32 :: byte) \<noteq> 0" "header_type (0x40 :: byte) \<noteq> DISCONNECT"
    by (simp_all add: header_qos_def header_type_def uint_take_byte uint_drop_byte)
  have e: "utf_enc [0x61] = [0, 1, 0x61]" by (simp add: utf_enc_def be_bytes_small)
  from malformed_packets [of "[0x61]" 4 "0x32" "0x40" "[]" 0 7 "[]"] h show ?thesis by (simp add: e numeral_3_eq_3)
qed


end
