(* ===== verification/Protocol.thy ===== *)
theory Protocol
  imports PacketReceive
begin

text \<open>
  \<open>MQTTProtocolClient.c\<close>: the message exchanges of the client.  A client keeps the messages it
  sends with QoS 1 and 2 in \<open>outboundMsgs\<close> and those it receives with QoS 2 in \<open>inboundMsgs\<close>; topic
  and payload of a message are a publication of the list \<open>state.publications\<close>, here a table from
  addresses to publications, counted by references.

  Everything outside is the record \<open>protocol_env\<close>: the transport of the packets, the socket queries,
  \<open>MQTTPersistence_remove\<close>, and the two functions the API layers \<open>MQTTClient.c\<close> and \<open>MQTTAsyncUtils.c\<close>
  both define for this module, \<open>Protocol_processPublication\<close> and \<open>MQTTProtocol_closeSession\<close>.  They work
  on the state \<open>w_outer\<close>.  \<open>pe_sizeof\<close> is the size of a C structure.
\<close>

section \<open>State\<close>

record pending_write =
  pw_socket :: int
  pw_p :: addr

record MQTTProtocol =
  publications :: "(addr \<times> Publications) list"
  next_publication :: addr
  msgs_received :: "32 word"
  msgs_sent :: "32 word"
  pending_writes :: "pending_write list"

record 's world =
  w_clients :: "Clients clist"
  w_state :: MQTTProtocol
  w_outer :: 's

record 's protocol_env =
  pe_transport :: "'s transport"
  pe_sizeof :: "string \<Rightarrow> int"
  pe_noPendingWrites :: "int \<Rightarrow> 's \<Rightarrow> bool"
  pe_updateWrite :: "int \<Rightarrow> bytes \<Rightarrow> bytes \<Rightarrow> 's \<Rightarrow> 's"
  pe_remove :: "Clients \<Rightarrow> string \<Rightarrow> int \<Rightarrow> int \<Rightarrow> 's \<Rightarrow> int \<times> 's"
  pe_process :: "Publish \<Rightarrow> Clients \<Rightarrow> bool \<Rightarrow> 's \<Rightarrow> 's"
  pe_close :: "Clients \<Rightarrow> 's \<Rightarrow> Clients \<times> 's"

abbreviation (input) MAX_MSG_ID :: int where "MAX_MSG_ID \<equiv> 65535"

definition PERSISTENCE_PUBLISH_SENT :: string where "PERSISTENCE_PUBLISH_SENT = ''s-''"
definition PERSISTENCE_V5_PUBLISH_SENT :: string where "PERSISTENCE_V5_PUBLISH_SENT = ''s5-''"
definition PERSISTENCE_PUBLISH_RECEIVED :: string where "PERSISTENCE_PUBLISH_RECEIVED = ''r-''"
definition PERSISTENCE_V5_PUBLISH_RECEIVED :: string where "PERSISTENCE_V5_PUBLISH_RECEIVED = ''r5-''"

abbreviation (input) pe_alloc :: "'s protocol_env \<Rightarrow> allocator" where
  "pe_alloc E \<equiv> tr_alloc (pe_transport E)"

text \<open>\<open>MQTTTime_now\<close>, and the difference of two tick counts in milliseconds.\<close>

definition MQTTTime_now :: "'s protocol_env \<Rightarrow> 's world \<Rightarrow> START_TIME_TYPE \<times> 's world" where
  "MQTTTime_now E w = (case tr_now (pe_transport E) (w_outer w) of (now, s) \<Rightarrow> (now, w\<lparr>w_outer := s\<rparr>))"

definition MQTTTime_difftime :: "START_TIME_TYPE \<Rightarrow> START_TIME_TYPE \<Rightarrow> int" where
  "MQTTTime_difftime new old =
     (if old < new then uint (new - old) else uint ((0xFFFFFFFF - old) + 1 + new))"

text \<open>Products of \<open>int\<close> values.\<close>

definition int_mult :: "int \<Rightarrow> int \<Rightarrow> int ub" where
  "int_mult a b = (if - (2 ^ 31) \<le> a * b \<and> a * b < 2 ^ 31 then Some (a * b) else None)"

section \<open>Publications\<close>

definition messageIDCompare :: "Messages \<Rightarrow> int \<Rightarrow> bool" where
  "messageIDCompare msg b \<longleftrightarrow> msg_msgid msg = b"

text \<open>The publication behind a pointer that must not be \<open>NULL\<close>.\<close>

definition publication_at :: "'s world \<Rightarrow> ptr \<Rightarrow> (addr \<times> Publications) ub" where
  "publication_at w p =
     (case p of NULL \<Rightarrow> None
      | Ptr a \<Rightarrow> map_option (Pair a) (map_of (publications (w_state w)) a))"

definition set_publication :: "addr \<Rightarrow> Publications \<Rightarrow> 's world \<Rightarrow> 's world" where
  "set_publication a p w = w\<lparr>w_state := (w_state w)\<lparr>publications :=
     map (\<lambda>(b, q). if b = a then (b, p) else (b, q)) (publications (w_state w))\<rparr>\<rparr>"

text \<open>\<open>ListRemove(&(state.publications), p)\<close>.\<close>

definition drop_publication :: "addr \<Rightarrow> 's world \<Rightarrow> 's world" where
  "drop_publication a w = w\<lparr>w_state := (w_state w)\<lparr>publications :=
     filter (\<lambda>e. fst e \<noteq> a) (publications (w_state w))\<rparr>\<rparr>"

text \<open>The pointers to topic and payload move from the packet to the new publication.\<close>

definition MQTTProtocol_storePublication ::
  "'s protocol_env \<Rightarrow> Publish \<Rightarrow> 's world \<Rightarrow> ptr \<times> int \<times> 's world" where
  "MQTTProtocol_storePublication E publish w =
     (if \<not> pe_alloc E (Sizeof ''Publications'') then (NULL, 0, w)
      else
        let len = strlen_int (publish_topic publish) + 1 + pe_sizeof E ''Publications'' + publish_payloadlen publish;
            st = w_state w;
            a = next_publication st;
            p = \<lparr>pub_topic = Some (publish_topic publish), pub_topiclen = nat (publish_topiclen publish),
                 pub_payload = Some (publish_payload publish), pub_payloadlen = nat (publish_payloadlen publish),
                 pub_refcount = 1, pub_mask = publish_mask publish\<rparr>
        in if \<not> pe_alloc E (Sizeof ''ListElement'') then (NULL, len, w)
           else (Ptr a, len, w\<lparr>w_state := st\<lparr>publications := publications st @ [(a, p)], next_publication := a + 1\<rparr>\<rparr>))"

definition MQTTProtocol_removePublication :: "ptr \<Rightarrow> 's world \<Rightarrow> 's world ub" where
  "MQTTProtocol_removePublication p w =
     (if p = NULL then Some w
      else do {
        (a, q) \<leftarrow> publication_at w p;
        let q = q\<lparr>pub_refcount := pub_refcount q - 1\<rparr>;
        Some (if pub_refcount q = 0 then drop_publication a w else set_publication a q w)
      })"

section \<open>Outgoing publications\<close>

definition next_msgid :: "int \<Rightarrow> int" where
  "next_msgid msgid = (if msgid = MAX_MSG_ID then 1 else msgid + 1)"

text \<open>The search for an identifier that is not in use; it need not end.\<close>

partial_function (option) assign_loop :: "Messages clist \<Rightarrow> int \<Rightarrow> int \<Rightarrow> (int \<times> Messages clist) option" where
  "assign_loop msgs start_msgid msgid =
     (case cl_find (\<lambda>m. messageIDCompare m msgid) msgs of
        (None, msgs') \<Rightarrow> Some (msgid, msgs')
      | (Some i, msgs') \<Rightarrow>
          if next_msgid msgid = start_msgid then Some (0, msgs')
          else assign_loop msgs' start_msgid (next_msgid msgid))"

definition MQTTProtocol_assignMsgId :: "Clients \<Rightarrow> (int \<times> Clients) option" where
  "MQTTProtocol_assignMsgId client =
     do {
       (msgid, msgs) \<leftarrow> assign_loop (outboundMsgs client) (msgID client) (next_msgid (msgID client));
       let client = client\<lparr>outboundMsgs := msgs\<rparr>;
       Some (msgid, if msgid \<noteq> 0 then client\<lparr>msgID := msgid\<rparr> else client)
     }"

definition MQTTProtocol_storeQoS0 :: "'s protocol_env \<Rightarrow> Clients \<Rightarrow> Publish \<Rightarrow> 's world \<Rightarrow> 's world ub" where
  "MQTTProtocol_storeQoS0 E pubclient publish w =
     (if \<not> pe_alloc E (Sizeof ''pending_write'') then Some w
      else case MQTTProtocol_storePublication E publish w of
        (NULL, len, w) \<Rightarrow> Some w
      | (Ptr a, len, w) \<Rightarrow>
          if \<not> pe_alloc E (Sizeof ''ListElement'') then None
          else
            let socket = net_socket (net pubclient) in
            Some (w\<lparr>w_state := (w_state w)\<lparr>pending_writes := pending_writes (w_state w) @ [\<lparr>pw_socket = socket, pw_p = a\<rparr>]\<rparr>,
                    w_outer := pe_updateWrite E socket (publish_topic publish) (publish_payload publish) (w_outer w)\<rparr>))"

text \<open>Without memory for the list element \<open>storeQoS0\<close> frees a publication that stays in the list: no
  result.  The completion code, the packet after the attempt to send it, the client and the state.\<close>

definition MQTTProtocol_startPublishCommon ::
  "'s protocol_env \<Rightarrow> Clients \<Rightarrow> Publish \<Rightarrow> int \<Rightarrow> int \<Rightarrow> 's world \<Rightarrow> (int \<times> Publish \<times> Clients \<times> 's world) ub" where
  "MQTTProtocol_startPublishCommon E pubclient publish qos retained w =
     do {
       (rc, publish, handles, s) \<leftarrow>
         MQTTPacket_send_publish (pe_transport E) publish 0 qos retained (net pubclient) (w_outer w);
       let pubclient = pubclient\<lparr>net := handles\<rparr>;
       let w = w\<lparr>w_outer := s\<rparr>;
       w \<leftarrow> (if qos = 0 \<and> rc = TCPSOCKET_INTERRUPTED
             then MQTTProtocol_storeQoS0 E pubclient publish w else Some w);
       Some (rc, publish, pubclient, w)
     }"

text \<open>
  The message or, when there is no memory for it, \<open>NULL\<close>; when a later allocation fails the code
  returns a freed message: no result.  Fields the code leaves uninitialised are 0; \<open>properties\<close> is
  not read below version 5, \<open>nextMessageType\<close> only for QoS 2.
\<close>

definition MQTTProtocol_createMessage ::
  "'s protocol_env \<Rightarrow> Publish \<Rightarrow> Messages option \<Rightarrow> int \<Rightarrow> int \<Rightarrow> bool \<Rightarrow> 's world \<Rightarrow> (Messages option \<times> 's world) ub" where
  "MQTTProtocol_createMessage E publish mm qos retained allocatePayload w =
     (if \<not> pe_alloc E (Sizeof ''Messages'') then Some (None, w)
      else do {
        (p, len1, w) \<leftarrow>
          (case mm of
             Some m \<Rightarrow>
               if msg_publish m \<noteq> NULL then
                 do { (a, q) \<leftarrow> publication_at w (msg_publish m);
                      Some (Ptr a, 0, set_publication a (q\<lparr>pub_refcount := pub_refcount q + 1\<rparr>) w) }
               else Some (MQTTProtocol_storePublication E publish w)
           | None \<Rightarrow> Some (MQTTProtocol_storePublication E publish w));
        (a, q) \<leftarrow> publication_at w p;
        if (mm = None \<or> msg_publish (the mm) = NULL) \<and> allocatePayload \<and> \<not> pe_alloc E (Bytes (pub_payloadlen q)) then None
        else do {
          props \<leftarrow> (if 5 \<le> publish_MQTTVersion publish
                     then MQTTProperties_copy (pe_alloc E) (publish_properties publish)
                     else Some MQTTProperties_initializer);
          (case MQTTTime_now E w of (now, w) \<Rightarrow>
             Some (Some \<lparr>msg_qos = qos, msg_retain = retained, msg_msgid = publish_msgId publish,
               msg_MQTTVersion = publish_MQTTVersion publish, msg_properties = props, msg_publish = p,
               msg_lastTouch = now, msg_nextMessageType = (if qos = 2 then PUBREC else 0),
               msg_len = pe_sizeof E ''Messages'' + len1\<rparr>, w))
        }
      })"

text \<open>
  \<open>qos12pub\<close> points to topic and payload of the stored publication: what sending leaves in the
  buffers is what the publication holds, as is the mask.
\<close>

definition MQTTProtocol_startPublish ::
  "'s protocol_env \<Rightarrow> Clients \<Rightarrow> Publish \<Rightarrow> int \<Rightarrow> int \<Rightarrow> Messages option \<Rightarrow> 's world \<Rightarrow>
   (int \<times> Messages option \<times> Clients \<times> 's world) ub" where
  "MQTTProtocol_startPublish E pubclient publish qos retained mm w =
     (if 0 < qos then
        do {
          (mm, w) \<leftarrow> MQTTProtocol_createMessage E publish mm qos retained False w;
          m \<leftarrow> mm;
          let pubclient = (if pe_alloc E (Sizeof ''ListElement'')
                then pubclient\<lparr>outboundMsgs := cl_append m (outboundMsgs pubclient)\<rparr> else pubclient);
          (a, q) \<leftarrow> publication_at w (msg_publish m);
          topic \<leftarrow> pub_topic q;
          payload \<leftarrow> pub_payload q;
          (rc, sent, pubclient, w) \<leftarrow> MQTTProtocol_startPublishCommon E pubclient
            (publish\<lparr>publish_payload := payload, publish_topic := topic,
              publish_properties := msg_properties m, publish_MQTTVersion := msg_MQTTVersion m\<rparr>) qos retained w;
          Some (rc, Some m, pubclient,
            set_publication a (q\<lparr>pub_topic := Some (publish_topic sent), pub_payload := Some (publish_payload sent),
              pub_mask := publish_mask sent\<rparr>) w)
        }
      else
        do {
          (rc, sent, pubclient, w) \<leftarrow> MQTTProtocol_startPublishCommon E pubclient publish qos retained w;
          Some (rc, mm, pubclient, w)
        })"

section \<open>Incoming packets\<close>

text \<open>\<open>ListFindItem(bstate->clients, &sock, clientSocketCompare)->content\<close>, as an index and a client.\<close>

definition find_client :: "int \<Rightarrow> 's world \<Rightarrow> (nat \<times> Clients \<times> 's world) ub" where
  "find_client sock w =
     (case cl_find (\<lambda>c. clientSocketCompare c sock) (w_clients w) of
        (None, l) \<Rightarrow> None
      | (Some i, l) \<Rightarrow> Some (i, cl_items l ! i, w\<lparr>w_clients := l\<rparr>))"

definition set_client :: "nat \<Rightarrow> Clients \<Rightarrow> 's world \<Rightarrow> 's world" where
  "set_client i client w = w\<lparr>w_clients := (w_clients w)\<lparr>cl_items := (cl_items (w_clients w))[i := client]\<rparr>\<rparr>"

definition set_message :: "nat \<Rightarrow> Messages \<Rightarrow> Messages clist \<Rightarrow> Messages clist" where
  "set_message j m l = l\<lparr>cl_items := (cl_items l)[j := m]\<rparr>"

text \<open>\<open>ListRemove\<close> of the message the list element \<open>j\<close> holds.\<close>

definition remove_message :: "nat \<Rightarrow> Messages clist \<Rightarrow> Messages clist" where
  "remove_message j l = cl_remove_at j (cl_cur l) l"

definition process_publication ::
  "'s protocol_env \<Rightarrow> Publish \<Rightarrow> Clients \<Rightarrow> bool \<Rightarrow> 's world \<Rightarrow> 's world" where
  "process_publication E publish client allocatePayload w =
     w\<lparr>w_outer := pe_process E publish client allocatePayload (w_outer w)\<rparr>"

text \<open>The packet given to \<open>Protocol_processPublication\<close> for a stored message; header fields other than
  QoS and retain are not set.\<close>

definition stored_publish :: "Messages \<Rightarrow> Publications option \<Rightarrow> Publish" where
  "stored_publish m q =
     \<lparr>publish_header = Header 0 0 (msg_qos m) (msg_retain m),
      publish_topic = (case q of None \<Rightarrow> [] | Some q \<Rightarrow> (case pub_topic q of None \<Rightarrow> [] | Some t \<Rightarrow> t)),
      publish_topiclen = (case q of None \<Rightarrow> 0 | Some q \<Rightarrow> int (pub_topiclen q)),
      publish_msgId = msg_msgid m,
      publish_payload = (case q of None \<Rightarrow> [] | Some q \<Rightarrow> (case pub_payload q of None \<Rightarrow> [] | Some d \<Rightarrow> d)),
      publish_payloadlen = (case q of None \<Rightarrow> 0 | Some q \<Rightarrow> int (pub_payloadlen q)),
      publish_MQTTVersion = msg_MQTTVersion m, publish_properties = msg_properties m,
      publish_mask = [0, 0, 0, 0]\<rparr>"

text \<open>The message is put in the place of one with the same identifier, whose publication is
  released, or at the end; the result tells which.\<close>

definition store_inbound ::
  "'s protocol_env \<Rightarrow> Messages \<Rightarrow> Clients \<Rightarrow> 's world \<Rightarrow> (bool \<times> Clients \<times> 's world) ub" where
  "store_inbound E m client w =
     (case cl_find (\<lambda>x. messageIDCompare x (msg_msgid m)) (inboundMsgs client) of
        (Some j, l) \<Rightarrow>
          do {
            w \<leftarrow> MQTTProtocol_removePublication (msg_publish (cl_items l ! j)) w;
            Some (True, client\<lparr>inboundMsgs :=
              (if pe_alloc E (Sizeof ''ListElement'') then remove_message (Suc j) (cl_insert m j l)
               else remove_message j l)\<rparr>, w)
          }
      | (None, l) \<Rightarrow>
          Some (False, client\<lparr>inboundMsgs :=
            (if pe_alloc E (Sizeof ''ListElement'') then cl_append m l else l)\<rparr>, w))"

definition received_message :: "'s protocol_env \<Rightarrow> Publish \<Rightarrow> ptr \<Rightarrow> Messages ub" where
  "received_message E publish p =
     do {
       props \<leftarrow> (if 5 \<le> publish_MQTTVersion publish
                  then MQTTProperties_copy (pe_alloc E) (publish_properties publish)
                  else Some MQTTProperties_initializer);
       Some \<lparr>msg_qos = header_qos (publish_header publish), msg_retain = header_retain (publish_header publish),
         msg_msgid = publish_msgId publish, msg_MQTTVersion = publish_MQTTVersion publish,
         msg_properties = props, msg_publish = p, msg_lastTouch = 0, msg_nextMessageType = PUBREL, msg_len = 0\<rparr>
     }"

text \<open>The branch for QoS 2: return code, client and state.\<close>

definition receive_qos2 ::
  "'s protocol_env \<Rightarrow> Publish \<Rightarrow> Clients \<Rightarrow> 's world \<Rightarrow> (int \<times> Clients \<times> 's world) ub" where
  "receive_qos2 E publish client w =
     (if \<not> pe_alloc E (Sizeof ''Messages'') then Some (PAHO_MEMORY_ERROR, client, w)
      else case MQTTProtocol_storePublication E publish w of (p, len, w) \<Rightarrow>
        do {
          m \<leftarrow> received_message E publish p;
          (already_received, client, w) \<leftarrow> store_inbound E m client w;
          (rc, handles, s) \<leftarrow> MQTTPacket_send_pubrec (pe_transport E) (publish_MQTTVersion publish)
            (publish_msgId publish) (net client) (w_outer w);
          let client = client\<lparr>net := handles\<rparr>;
          let w = w\<lparr>w_outer := s\<rparr>;
          (a, q) \<leftarrow> publication_at w p;
          if 5 \<le> msg_MQTTVersion m \<and> \<not> already_received then
            let w = drop_publication a (process_publication E (stored_publish m (Some q)) client True w);
                l = inboundMsgs client
            in Some (rc, client\<lparr>inboundMsgs :=
                 (if pe_alloc E (Sizeof ''ListElement'')
                  then set_message (length (cl_items l) - 1) (m\<lparr>msg_publish := NULL\<rparr>) l else l)\<rparr>, w)
          else if \<not> pe_alloc E (Bytes (pub_payloadlen q))
          then Some (PAHO_MEMORY_ERROR, client, set_publication a (q\<lparr>pub_payload := None\<rparr>) w)
          else Some (rc, client, w)
        })"

definition MQTTProtocol_handlePublishes ::
  "'s protocol_env \<Rightarrow> Publish \<Rightarrow> int \<Rightarrow> 's world \<Rightarrow> (int \<times> 's world) ub" where
  "MQTTProtocol_handlePublishes E publish sock w =
     do {
       (i, client, w) \<leftarrow> find_client sock w;
       let qos = header_qos (publish_header publish);
       if qos = 0 then Some (TCPSOCKET_COMPLETE, process_publication E publish client True w)
       else if \<not> pe_noPendingWrites E sock (w_outer w) then Some (SOCKET_ERROR, w)
       else if qos = 1 then
         do {
           (rc, handles, s) \<leftarrow> MQTTPacket_send_puback (pe_transport E) (publish_MQTTVersion publish)
             (publish_msgId publish) (net client) (w_outer w);
           let client = client\<lparr>net := handles\<rparr>;
           Some (rc, process_publication E publish client True (set_client i client (w\<lparr>w_outer := s\<rparr>)))
         }
       else if qos = 2 then
         do { (rc, client, w) \<leftarrow> receive_qos2 E publish client w; Some (rc, set_client i client w) }
       else Some (TCPSOCKET_COMPLETE, w)
     }"

text \<open>The end of an exchange: the message is no longer kept, here or in the persistent store.\<close>

definition discard_message ::
  "'s protocol_env \<Rightarrow> nat \<Rightarrow> bool \<Rightarrow> Clients \<Rightarrow> 's world \<Rightarrow> (int \<times> Clients \<times> 's world) ub" where
  "discard_message E j v5 client w =
     (let m = cl_items (outboundMsgs client) ! j in
      case pe_remove E client (if v5 then PERSISTENCE_V5_PUBLISH_SENT else PERSISTENCE_PUBLISH_SENT)
          (msg_qos m) (msg_msgid m) (w_outer w) of
        (rc, s) \<Rightarrow>
          do {
            w \<leftarrow> MQTTProtocol_removePublication (msg_publish m) (w\<lparr>w_outer := s\<rparr>);
            Some (rc, client\<lparr>outboundMsgs := remove_message j (outboundMsgs client)\<rparr>, w)
          })"

definition count_sent :: "'s world \<Rightarrow> 's world" where
  "count_sent w = w\<lparr>w_state := (w_state w)\<lparr>msgs_sent := msgs_sent (w_state w) + 1\<rparr>\<rparr>"

definition MQTTProtocol_handlePubacks :: "'s protocol_env \<Rightarrow> Ack \<Rightarrow> int \<Rightarrow> 's world \<Rightarrow> (int \<times> 's world) ub" where
  "MQTTProtocol_handlePubacks E puback sock w =
     do {
       (i, client, w) \<leftarrow> find_client sock w;
       msgId \<leftarrow> ack_msgId puback;
       (case cl_find (\<lambda>m. messageIDCompare m msgId) (outboundMsgs client) of
          (None, l) \<Rightarrow> Some (TCPSOCKET_COMPLETE, set_client i (client\<lparr>outboundMsgs := l\<rparr>) w)
        | (Some j, l) \<Rightarrow>
            let client = client\<lparr>outboundMsgs := l\<rparr>; m = cl_items l ! j in
            if msg_qos m \<noteq> 1 then Some (TCPSOCKET_COMPLETE, set_client i client w)
            else do {
              (rc, client, w) \<leftarrow> discard_message E j (5 \<le> msg_MQTTVersion m) client w;
              Some (rc, set_client i client w)
            })
     }"

definition MQTTProtocol_handlePubrecs :: "'s protocol_env \<Rightarrow> Ack \<Rightarrow> int \<Rightarrow> 's world \<Rightarrow> (int \<times> 's world) ub" where
  "MQTTProtocol_handlePubrecs E pubrec sock w =
     do {
       (i, client, w) \<leftarrow> find_client sock w;
       msgId \<leftarrow> ack_msgId pubrec;
       (case cl_find (\<lambda>m. messageIDCompare m msgId) ((outboundMsgs client)\<lparr>cl_cur := None\<rparr>) of
          (None, l) \<Rightarrow> Some (TCPSOCKET_COMPLETE, set_client i (client\<lparr>outboundMsgs := l\<rparr>) w)
        | (Some j, l) \<Rightarrow>
            let client = client\<lparr>outboundMsgs := l\<rparr>; m = cl_items l ! j in
            if msg_qos m \<noteq> 2 \<or> msg_nextMessageType m \<noteq> PUBREC
            then Some (TCPSOCKET_COMPLETE, set_client i client w)
            else do {
              failed \<leftarrow> (if 5 \<le> ack_MQTTVersion pubrec then map_option (\<lambda>r. 128 \<le> r) (ack_rc pubrec) else Some False);
              if failed then
                do {
                  (rc, client, w) \<leftarrow> discard_message E j (5 \<le> ack_MQTTVersion pubrec) client w;
                  Some (rc, count_sent (set_client i client w))
                }
              else
                do {
                  (rc, handles, s) \<leftarrow> MQTTPacket_send_pubrel (pe_transport E) (ack_MQTTVersion pubrec) msgId 0
                    (net client) (w_outer w);
                  (case MQTTTime_now E (w\<lparr>w_outer := s\<rparr>) of (now, w) \<Rightarrow>
                     Some (rc, set_client i (client\<lparr>net := handles,
                       outboundMsgs := set_message j (m\<lparr>msg_nextMessageType := PUBCOMP, msg_lastTouch := now\<rparr>) l\<rparr>) w))
                }
            })
     }"

definition MQTTProtocol_handlePubcomps :: "'s protocol_env \<Rightarrow> Ack \<Rightarrow> int \<Rightarrow> 's world \<Rightarrow> (int \<times> 's world) ub" where
  "MQTTProtocol_handlePubcomps E pubcomp sock w =
     do {
       (i, client, w) \<leftarrow> find_client sock w;
       msgId \<leftarrow> ack_msgId pubcomp;
       (case cl_find (\<lambda>m. messageIDCompare m msgId) (outboundMsgs client) of
          (None, l) \<Rightarrow> Some (TCPSOCKET_COMPLETE, set_client i (client\<lparr>outboundMsgs := l\<rparr>) w)
        | (Some j, l) \<Rightarrow>
            let client = client\<lparr>outboundMsgs := l\<rparr>; m = cl_items l ! j in
            if msg_qos m \<noteq> 2 \<or> msg_nextMessageType m \<noteq> PUBCOMP
            then Some (TCPSOCKET_COMPLETE, set_client i client w)
            else do {
              (rc, client, w) \<leftarrow> discard_message E j (5 \<le> msg_MQTTVersion m) client w;
              Some (rc, count_sent (set_client i client w))
            })
     }"

text \<open>The message is released: PUBCOMP is sent, the publication is delivered (below version 5; with
  version 5 it was when it arrived) and forgotten.\<close>

definition release_message ::
  "'s protocol_env \<Rightarrow> Ack \<Rightarrow> int \<Rightarrow> nat \<Rightarrow> Clients \<Rightarrow> 's world \<Rightarrow> (int \<times> Clients \<times> 's world) ub" where
  "release_message E pubrel msgId j client w =
     (let m = cl_items (inboundMsgs client) ! j in
      do {
        (rc, handles, s) \<leftarrow> MQTTPacket_send_pubcomp (pe_transport E) (ack_MQTTVersion pubrel) msgId (net client) (w_outer w);
        let client = client\<lparr>net := handles\<rparr>;
        let w = w\<lparr>w_outer := s\<rparr>;
        found \<leftarrow> (if msg_publish m = NULL then Some None else map_option Some (publication_at w (msg_publish m)));
        let w = (if 5 \<le> msg_MQTTVersion m then w
                 else process_publication E (stored_publish m (map_option snd found)) client False w);
        (case pe_remove E client
            (if 5 \<le> msg_MQTTVersion m then PERSISTENCE_V5_PUBLISH_RECEIVED else PERSISTENCE_PUBLISH_RECEIVED)
            (msg_qos m) msgId (w_outer w) of
           (rc', s) \<Rightarrow>
             let w = w\<lparr>w_outer := s\<rparr>;
                 w = (case found of None \<Rightarrow> w | Some (a, q) \<Rightarrow> drop_publication a w);
                 client = client\<lparr>inboundMsgs := remove_message j (inboundMsgs client)\<rparr>
             in Some (rc + rc', client,
                  w\<lparr>w_state := (w_state w)\<lparr>msgs_received := msgs_received (w_state w) + 1\<rparr>\<rparr>))
      })"

definition MQTTProtocol_handlePubrels :: "'s protocol_env \<Rightarrow> Ack \<Rightarrow> int \<Rightarrow> 's world \<Rightarrow> (int \<times> 's world) ub" where
  "MQTTProtocol_handlePubrels E pubrel sock w =
     do {
       (i, client, w) \<leftarrow> find_client sock w;
       msgId \<leftarrow> ack_msgId pubrel;
       (case cl_find (\<lambda>m. messageIDCompare m msgId) (inboundMsgs client) of
          (None, l) \<Rightarrow>
            let client = client\<lparr>inboundMsgs := l\<rparr> in
            if header_dup (ack_header pubrel) = 0 then Some (TCPSOCKET_COMPLETE, set_client i client w)
            else if \<not> pe_noPendingWrites E sock (w_outer w) then Some (SOCKET_ERROR, set_client i client w)
            else do {
              (rc, handles, s) \<leftarrow> MQTTPacket_send_pubcomp (pe_transport E) (ack_MQTTVersion pubrel) msgId
                (net client) (w_outer w);
              Some (rc, set_client i (client\<lparr>net := handles\<rparr>) (w\<lparr>w_outer := s\<rparr>))
            }
        | (Some j, l) \<Rightarrow>
            let client = client\<lparr>inboundMsgs := l\<rparr>; m = cl_items l ! j in
            if msg_qos m \<noteq> 2 \<or> msg_nextMessageType m \<noteq> PUBREL
            then Some (TCPSOCKET_COMPLETE, set_client i client w)
            else if \<not> pe_noPendingWrites E sock (w_outer w) then Some (SOCKET_ERROR, set_client i client w)
            else do {
              (rc, client, w) \<leftarrow> release_message E pubrel msgId j client w;
              Some (rc, set_client i client w)
            })
     }"

section \<open>Keep alive and retries\<close>

text \<open>One client of the loop of \<open>MQTTProtocol_keepalive\<close>.\<close>

definition closeSession :: "'s protocol_env \<Rightarrow> Clients \<Rightarrow> 's world \<Rightarrow> Clients \<times> 's world" where
  "closeSession E client w = (case pe_close E client (w_outer w) of (client, s) \<Rightarrow> (client, w\<lparr>w_outer := s\<rparr>))"

definition keepalive_client ::
  "'s protocol_env \<Rightarrow> START_TIME_TYPE \<Rightarrow> Clients \<Rightarrow> 's world \<Rightarrow> (Clients \<times> 's world) ub" where
  "keepalive_client E now client w =
     (if \<not> connected client \<or> keepAliveInterval client = 0 then Some (client, w)
      else do {
        interval \<leftarrow> int_mult (keepAliveInterval client) 1000;
        if ping_outstanding client then
          if interval \<le> MQTTTime_difftime now (net_lastPing (net client))
          then Some (closeSession E client w) else Some (client, w)
        else if (interval \<le> MQTTTime_difftime now (net_lastSent (net client)) \<or>
                 interval \<le> MQTTTime_difftime now (net_lastReceived (net client))) \<and>
                pe_noPendingWrites E (net_socket (net client)) (w_outer w)
        then do {
          (rc, handles, s) \<leftarrow> MQTTPacket_send_pingreq (pe_transport E) (net client) (w_outer w);
          let w = w\<lparr>w_outer := s\<rparr>;
          if rc \<noteq> TCPSOCKET_COMPLETE then Some (closeSession E (client\<lparr>net := handles\<rparr>) w)
          else Some (client\<lparr>net := handles\<lparr>net_lastPing := now\<rparr>, ping_outstanding := True\<rparr>, w)
        }
        else Some (client, w)
      })"

fun each_client ::
  "(Clients \<Rightarrow> 's world \<Rightarrow> (Clients \<times> 's world) ub) \<Rightarrow> nat list \<Rightarrow> 's world \<Rightarrow> 's world ub" where
  "each_client f [] w = Some w"
| "each_client f (i # is) w =
     do { (client, w) \<leftarrow> f (cl_items (w_clients w) ! i) w; each_client f is (set_client i client w) }"

definition MQTTProtocol_keepalive :: "'s protocol_env \<Rightarrow> START_TIME_TYPE \<Rightarrow> 's world \<Rightarrow> 's world ub" where
  "MQTTProtocol_keepalive E now w =
     each_client (keepalive_client E now) [0..<length (cl_items (w_clients w))] w"

text \<open>One message of the retry loop; the client is \<open>None\<close> when its session was closed, with the
  client the session left.\<close>

definition retry_message ::
  "'s protocol_env \<Rightarrow> nat \<Rightarrow> Messages \<Rightarrow> Clients \<Rightarrow> 's world \<Rightarrow> (bool \<times> Clients \<times> 's world) ub" where
  "retry_message E i m client w =
     (let touch = (\<lambda>client w. case MQTTTime_now E w of (now, w) \<Rightarrow>
            (True, client\<lparr>outboundMsgs := set_message i (m\<lparr>msg_lastTouch := now\<rparr>) (outboundMsgs client)\<rparr>, w));
          close = (\<lambda>client w. case closeSession E (client\<lparr>good := False\<rparr>) w of (client, w) \<Rightarrow> (False, client, w))
      in
      if msg_qos m = 1 \<or> (msg_qos m = 2 \<and> msg_nextMessageType m = PUBREC) then
        do {
          (a, q) \<leftarrow> publication_at w (msg_publish m);
          topic \<leftarrow> pub_topic q;
          payload \<leftarrow> pub_payload q;
          (rc, sent, handles, s) \<leftarrow> MQTTPacket_send_publish (pe_transport E)
            ((stored_publish m (Some q))\<lparr>publish_mask := pub_mask q\<rparr>) 1 (msg_qos m) (msg_retain m) (net client) (w_outer w);
          let client = client\<lparr>net := handles\<rparr>;
          let w = set_publication a (q\<lparr>pub_topic := Some (publish_topic sent),
                pub_payload := Some (publish_payload sent), pub_mask := publish_mask sent\<rparr>) (w\<lparr>w_outer := s\<rparr>);
          Some (if rc = SOCKET_ERROR then close client w else touch client w)
        }
      else if msg_qos m \<noteq> 0 \<and> msg_nextMessageType m = PUBCOMP then
        do {
          (rc, handles, s) \<leftarrow> MQTTPacket_send_pubrel (pe_transport E) (msg_MQTTVersion m) (msg_msgid m) 0
            (net client) (w_outer w);
          let client = client\<lparr>net := handles\<rparr>;
          let w = w\<lparr>w_outer := s\<rparr>;
          Some (if rc \<noteq> TCPSOCKET_COMPLETE then close client w else touch client w)
        }
      else Some (True, client, w))"

fun retries_loop ::
  "'s protocol_env \<Rightarrow> START_TIME_TYPE \<Rightarrow> bool \<Rightarrow> nat list \<Rightarrow> Clients \<Rightarrow> 's world \<Rightarrow> (Clients \<times> 's world) ub" where
  "retries_loop E now regardless [] client w = Some (client, w)"
| "retries_loop E now regardless (i # is) client w =
     (if connected client \<and> good client \<and> pe_noPendingWrites E (net_socket (net client)) (w_outer w) then
        do {
          interval \<leftarrow> int_mult (max (retryInterval client) 10) 1000;
          let m = cl_items (outboundMsgs client) ! i;
          (open, client, w) \<leftarrow>
            (if regardless \<or> interval < MQTTTime_difftime now (msg_lastTouch m)
             then retry_message E i m client w else Some (True, client, w));
          if open then retries_loop E now regardless is client w else Some (client, w)
        }
      else Some (client, w))"

definition MQTTProtocol_retries ::
  "'s protocol_env \<Rightarrow> START_TIME_TYPE \<Rightarrow> Clients \<Rightarrow> bool \<Rightarrow> 's world \<Rightarrow> (Clients \<times> 's world) ub" where
  "MQTTProtocol_retries E now client regardless w =
     (if \<not> regardless \<and> retryInterval client \<le> 0 then Some (client, w)
      else retries_loop E now regardless [0..<length (cl_items (outboundMsgs client))] client w)"

definition retry_client ::
  "'s protocol_env \<Rightarrow> START_TIME_TYPE \<Rightarrow> bool \<Rightarrow> bool \<Rightarrow> Clients \<Rightarrow> 's world \<Rightarrow> (Clients \<times> 's world) ub" where
  "retry_client E now doRetry regardless client w =
     (if \<not> connected client then Some (client, w)
      else if \<not> good client then Some (closeSession E client w)
      else if \<not> pe_noPendingWrites E (net_socket (net client)) (w_outer w) then Some (client, w)
      else if doRetry then MQTTProtocol_retries E now client regardless w
      else Some (client, w))"

definition MQTTProtocol_retry ::
  "'s protocol_env \<Rightarrow> START_TIME_TYPE \<Rightarrow> bool \<Rightarrow> bool \<Rightarrow> 's world \<Rightarrow> 's world ub" where
  "MQTTProtocol_retry E now doRetry regardless w =
     each_client (retry_client E now doRetry regardless) [0..<length (cl_items (w_clients w))] w"

section \<open>Message lists and strings\<close>

fun release_publications :: "Messages list \<Rightarrow> 's world \<Rightarrow> 's world ub" where
  "release_publications [] w = Some w"
| "release_publications (m # ms) w =
     do { w \<leftarrow> MQTTProtocol_removePublication (msg_publish m) w; release_publications ms w }"

definition MQTTProtocol_emptyMessageList :: "Messages clist \<Rightarrow> 's world \<Rightarrow> (Messages clist \<times> 's world) ub" where
  "MQTTProtocol_emptyMessageList msgList w =
     do { w \<leftarrow> release_publications (cl_items msgList) w; Some (cl_zero, w) }"

text \<open>The loop of \<open>MQTTStrncpy\<close>; \<open>src\<close> is the string with its terminating zero, \<open>t\<close> and \<open>s\<close> are
  \<open>temp\<close> and \<open>src\<close> as positions.\<close>

function strncpy_loop :: "bytes \<Rightarrow> bytes \<Rightarrow> nat \<Rightarrow> nat \<Rightarrow> nat \<Rightarrow> (bytes \<times> nat) ub" where
  "strncpy_loop dest src t s count =
     (if 1 < count then
        (case read_at src s of None \<Rightarrow> None
         | Some c \<Rightarrow>
             (case write_at dest t c of None \<Rightarrow> None
              | Some dest \<Rightarrow>
                  if c \<noteq> 0 then strncpy_loop dest src (t + 1) (s + 1) (count - 1) else Some (dest, t + 1)))
      else Some (dest, t))"
  by pat_completeness auto
termination by (relation "measure (\<lambda>(dest, src, t, s, count). count)") auto

declare strncpy_loop.simps [simp del]

definition MQTTStrncpy :: "bytes \<Rightarrow> bytes \<Rightarrow> nat \<Rightarrow> bytes ub" where
  "MQTTStrncpy dest src dest_size =
     do { (dest, t) \<leftarrow> strncpy_loop dest src 0 0 dest_size; write_at dest t 0 }"

text \<open>\<open>NULL\<close> without memory; the new block holds \<open>junk\<close> before it is filled.\<close>

definition MQTTStrdup :: "allocator \<Rightarrow> byte \<Rightarrow> bytes \<Rightarrow> bytes option ub" where
  "MQTTStrdup malloc junk string =
     (let mlen = length string + 1 in
      if malloc (Bytes mlen) then map_option Some (MQTTStrncpy (replicate mlen junk) (string @ [0]) mlen)
      else Some None)"

section \<open>\<open>MQTTProtocolOut.c\<close>: answers without state\<close>

definition MQTTProtocol_handlePingresps :: "int \<Rightarrow> 's world \<Rightarrow> (int \<times> 's world) ub" where
  "MQTTProtocol_handlePingresps sock w =
     do {
       (i, client, w) \<leftarrow> find_client sock w;
       Some (TCPSOCKET_COMPLETE, set_client i (client\<lparr>ping_outstanding := False\<rparr>) w)
     }"

definition MQTTProtocol_handleSubacks :: "Suback \<Rightarrow> int \<Rightarrow> 's world \<Rightarrow> (int \<times> 's world) ub" where
  "MQTTProtocol_handleSubacks suback sock w =
     do { (i, client, w) \<leftarrow> find_client sock w; Some (TCPSOCKET_COMPLETE, w) }"

definition MQTTProtocol_handleUnsubacks :: "Unsuback \<Rightarrow> int \<Rightarrow> 's world \<Rightarrow> (int \<times> 's world) ub" where
  "MQTTProtocol_handleUnsubacks unsuback sock w =
     do { (i, client, w) \<leftarrow> find_client sock w; Some (TCPSOCKET_COMPLETE, w) }"

definition MQTTProtocol_subscribe ::
  "'s transport \<Rightarrow> Clients \<Rightarrow> bytes clist \<Rightarrow> int clist \<Rightarrow> int \<Rightarrow> MQTTSubscribe_options list option \<Rightarrow>
   MQTTProperties option \<Rightarrow> 's \<Rightarrow> (int \<times> Clients \<times> 's) ub" where
  "MQTTProtocol_subscribe T client topics qoss msgid opts props s =
     MQTTPacket_send_subscribe T topics qoss opts props msgid 0 client s"

definition MQTTProtocol_unsubscribe ::
  "'s transport \<Rightarrow> Clients \<Rightarrow> bytes clist \<Rightarrow> int \<Rightarrow> MQTTProperties option \<Rightarrow> 's \<Rightarrow> (int \<times> Clients \<times> 's) ub" where
  "MQTTProtocol_unsubscribe T client topics msgid props s =
     MQTTPacket_send_unsubscribe T topics props msgid 0 client s"

end
