(* ===== verification/MessageStore.thy ===== *)
theory MessageStore
  imports Protocol "HOL-Library.Multiset"
begin

text \<open>
  The publications and message lists under the handlers of \<open>Protocol\<close>.  \<open>accounted\<close> is the invariant of
  the table of publications: every publication is referenced exactly once, and every reference leads
  to a publication.  \<open>lookup\<close> reads a message list as a map from identifiers, and the operations the
  handlers perform on lists are updates of that map.
\<close>

section \<open>The store\<close>

definition ref :: "ptr \<Rightarrow> addr multiset" where
  "ref p = (case p of NULL \<Rightarrow> {#} | Ptr a \<Rightarrow> {#a#})"

definition refs_of :: "Messages clist \<Rightarrow> addr multiset" where
  "refs_of l = sum_list (map (\<lambda>m. ref (msg_publish m)) (cl_items l))"

definition client_refs :: "Clients \<Rightarrow> addr multiset" where
  "client_refs c = refs_of (inboundMsgs c) + refs_of (outboundMsgs c)"

definition accounted :: "MQTTProtocol \<Rightarrow> addr multiset \<Rightarrow> bool" where
  "accounted st refs \<longleftrightarrow>
     distinct (map fst (publications st)) \<and> mset (map fst (publications st)) = refs \<and>
     (\<forall>(a, q) \<in> set (publications st). a < next_publication st \<and> pub_refcount q = 1 \<and>
        pub_topic q \<noteq> None \<and> pub_payload q \<noteq> None)"

lemma ref_simps [simp]: "ref NULL = {#}" "ref (Ptr a) = {#a#}"
  by (simp_all add: ref_def)

lemma accounted_lookup:
  assumes "accounted (w_state w) refs" "a \<in># refs"
  obtains q where "publication_at w (Ptr a) = Some (a, q)" "pub_refcount q = 1" "pub_topic q \<noteq> None"
    "pub_payload q \<noteq> None" "(a, q) \<in> set (publications (w_state w))"
proof -
  have "a \<in> fst ` set (publications (w_state w))"
    using assms by (metis accounted_def set_map set_mset_mset)
  then obtain q where q: "(a, q) \<in> set (publications (w_state w))" by auto
  with assms(1) have "map_of (publications (w_state w)) a = Some q" by (simp add: accounted_def)
  with q assms(1) show thesis
    by (intro that [of q]) (auto simp: publication_at_def accounted_def)
qed

text \<open>Storing, releasing and dropping; other publications are not touched.\<close>

lemma accounted_store:
  assumes "accounted (w_state w) refs" "pe_alloc E = always_alloc"
  shows "\<exists>a len w'. MQTTProtocol_storePublication E p w = (Ptr a, len, w') \<and>
    accounted (w_state w') (add_mset a refs) \<and> a \<notin># refs \<and>
    publication_at w' (Ptr a) = Some (a, \<lparr>pub_topic = Some (publish_topic p), pub_topiclen = nat (publish_topiclen p),
      pub_payload = Some (publish_payload p), pub_payloadlen = nat (publish_payloadlen p),
      pub_refcount = 1, pub_mask = publish_mask p\<rparr>) \<and>
    (\<forall>b. b \<noteq> a \<longrightarrow> publication_at w' (Ptr b) = publication_at w (Ptr b)) \<and>
    w_clients w' = w_clients w \<and> w_outer w' = w_outer w \<and> pending_writes (w_state w') = pending_writes (w_state w)"
proof -
  let ?a = "next_publication (w_state w)"
  have "?a \<notin> fst ` set (publications (w_state w))" using assms(1) by (auto simp: accounted_def)
  moreover have "set_mset refs = fst ` set (publications (w_state w))"
    using assms(1) by (metis accounted_def set_map set_mset_mset)
  ultimately show ?thesis
    using assms by (auto simp: MQTTProtocol_storePublication_def Let_def accounted_def publication_at_def
        map_of_eq_None_iff map_add_def split: option.splits)
qed

lemma accounted_distinct:
  assumes "accounted st (add_mset a refs)"
  shows "a \<notin># refs"
proof -
  have "distinct (map fst (publications st))" "mset (map fst (publications st)) = add_mset a refs"
    using assms by (simp_all add: accounted_def)
  then have "count (add_mset a refs) a \<le> 1" by (metis distinct_count_atmost_1 le_refl zero_le_one)
  then show ?thesis by (simp add: not_in_iff)
qed

lemma accounted_drop:
  assumes "accounted (w_state w) (add_mset a refs)"
  shows "accounted (w_state (drop_publication a w)) refs \<and>
    (\<forall>b. b \<noteq> a \<longrightarrow> publication_at (drop_publication a w) (Ptr b) = publication_at w (Ptr b)) \<and>
    w_clients (drop_publication a w) = w_clients w \<and> w_outer (drop_publication a w) = w_outer w \<and>
    pending_writes (w_state (drop_publication a w)) = pending_writes (w_state w)"
proof -
  let ?ps = "publications (w_state w)"
  have d: "mset (map fst ?ps) = add_mset a refs"
    using assms by (simp add: accounted_def)
  have "map fst (filter (\<lambda>e. fst e \<noteq> a) ?ps) = filter (\<lambda>b. b \<noteq> a) (map fst ?ps)"
    by (simp add: filter_map comp_def)
  then have m: "mset (map fst (filter (\<lambda>e. fst e \<noteq> a) ?ps)) = filter_mset (\<lambda>b. b \<noteq> a) (add_mset a refs)"
    using d by (metis mset_filter)
  have "filter_mset (\<lambda>b. b \<noteq> a) refs = refs"
    using accounted_distinct [OF assms] by (auto simp: filter_mset_eq_conv)
  then have "accounted (w_state (drop_publication a w)) refs"
    using assms m by (auto simp: drop_publication_def accounted_def distinct_map_filter)
  moreover have "map_of (filter (\<lambda>e. fst e \<noteq> a) ps) b = map_of ps b" if "b \<noteq> a" for b and ps :: "(addr \<times> Publications) list"
    using that by (induction ps) auto
  ultimately show ?thesis by (simp add: drop_publication_def publication_at_def)
qed

lemma accounted_remove:
  assumes "accounted (w_state w) (ref p + refs)"
  shows "\<exists>w'. MQTTProtocol_removePublication p w = Some w' \<and> accounted (w_state w') refs \<and>
    (\<forall>b. b \<in># refs \<longrightarrow> publication_at w' (Ptr b) = publication_at w (Ptr b)) \<and>
    w_clients w' = w_clients w \<and> w_outer w' = w_outer w \<and> pending_writes (w_state w') = pending_writes (w_state w)"
proof (cases p)
  case NULL
  then show ?thesis using assms by (simp add: MQTTProtocol_removePublication_def)
next
  case (Ptr a)
  then have acc: "accounted (w_state w) (add_mset a refs)" using assms by simp
  obtain q where q: "publication_at w (Ptr a) = Some (a, q)" "pub_refcount q = 1"
    using accounted_lookup [OF acc] by auto
  have r: "MQTTProtocol_removePublication p w = Some (drop_publication a w)"
    using Ptr q by (simp add: MQTTProtocol_removePublication_def del: bind_Some_iff)
  show ?thesis
    unfolding r using accounted_drop [OF acc] accounted_distinct [OF acc] by auto
qed

section \<open>Message lists\<close>

definition lookup :: "Messages clist \<Rightarrow> int \<Rightarrow> Messages option" where
  "lookup l = map_of (map (\<lambda>m. (msg_msgid m, m)) (cl_items l))"

definition list_ok :: "Messages clist \<Rightarrow> bool" where
  "list_ok l \<longleftrightarrow> cl_wf l \<and> distinct (map msg_msgid (cl_items l))"

lemma keyed_split:
  assumes "distinct (map k (xs @ m # ys))" "k m' = k m"
  shows "map_of (map (\<lambda>m. (k m, m)) (xs @ ys)) =
      (map_of (map (\<lambda>m. (k m, m)) (xs @ m # ys)))(k m := None)"
    "map_of (map (\<lambda>m. (k m, m)) (xs @ m' # ys)) =
      (map_of (map (\<lambda>m. (k m, m)) (xs @ m # ys)))(k m \<mapsto> m')"
proof -
  let ?f = "\<lambda>zs. map_of (map (\<lambda>m. (k m, m)) zs)"
  have n: "?f xs (k m) = None" "?f ys (k m) = None"
    using assms(1) by (auto simp: map_of_eq_None_iff)
  show "?f (xs @ ys) = (?f (xs @ m # ys))(k m := None)"
    using n by (auto simp: map_add_def fun_eq_iff split: option.splits)
  show "?f (xs @ m' # ys) = (?f (xs @ m # ys))(k m \<mapsto> m')"
    using n assms(2) by (auto simp: map_add_def fun_eq_iff split: option.splits)
qed

lemma find_message:
  assumes "list_ok l"
  obtains (found) j l' where "cl_find (\<lambda>m. messageIDCompare m n) l = (Some j, l')" "j < length (cl_items l)"
      "msg_msgid (cl_items l ! j) = n" "lookup l n = Some (cl_items l ! j)" "cl_items l' = cl_items l" "list_ok l'" "cl_cur l' = Some j"
    | (missing) "cl_find (\<lambda>m. messageIDCompare m n) l = (None, l)" "lookup l n = None" "n \<notin> msg_msgid ` set (cl_items l)"
proof -
  have wf: "cl_wf l" using assms by (simp add: list_ok_def)
  obtain r l' where f: "cl_find (\<lambda>m. messageIDCompare m n) l = (r, l')" by force
  show thesis
  proof (cases r)
    case None
    with f have "l' = l" "n \<notin> msg_msgid ` set (cl_items l)" using cl_find_None [of "\<lambda>m. messageIDCompare m n" l l']
      by (auto simp: messageIDCompare_def)
    with f None show thesis by (intro missing) (auto simp: lookup_def map_of_eq_None_iff image_comp comp_def)
  next
    case (Some j)
    with f have g: "cl_find (\<lambda>m. messageIDCompare m n) l = (Some j, l')" by simp
    note h = cl_find_Some [OF wf g]
    have "lookup l n = Some (cl_items l ! j)"
      unfolding lookup_def using h assms
      by (intro map_of_is_SomeI) (auto simp: list_ok_def messageIDCompare_def comp_def image_iff intro!: bexI [of _ "cl_items l ! j"])
    moreover have "list_ok l'" using cl_wf_find [OF wf, of "\<lambda>m. messageIDCompare m n"] g h assms by (simp add: list_ok_def)
    ultimately show thesis using g h by (intro found) (auto simp: messageIDCompare_def)
  qed
qed

lemma lookup_cong: "cl_items l' = cl_items l \<Longrightarrow> lookup l' = lookup l"
  by (simp add: lookup_def)

lemma refs_of_cong: "cl_items l' = cl_items l \<Longrightarrow> refs_of l' = refs_of l"
  by (simp add: refs_of_def)

text \<open>Removing, replacing and appending a message.\<close>

lemma remove_message_ok:
  assumes "list_ok l" "j < length (cl_items l)"
  shows "list_ok (remove_message j l)" "lookup (remove_message j l) = (lookup l)(msg_msgid (cl_items l ! j) := None)"
    "refs_of l = ref (msg_publish (cl_items l ! j)) + refs_of (remove_message j l)"
    "set (cl_items (remove_message j l)) \<subseteq> set (cl_items l)"
proof -
  let ?xs = "take j (cl_items l)" and ?ys = "drop (Suc j) (cl_items l)" and ?m = "cl_items l ! j"
  have i: "cl_items l = ?xs @ ?m # ?ys" by (rule id_take_nth_drop [OF assms(2)])
  have r: "cl_items (remove_message j l) = ?xs @ ?ys" by (simp add: remove_message_def cl_remove_at_def)
  have d: "distinct (map msg_msgid (?xs @ ?m # ?ys))" using assms(1) i by (simp add: list_ok_def)
  have "cl_wf (remove_message j l)"
    using assms unfolding remove_message_def by (intro cl_wf_remove_at) (auto simp: list_ok_def cl_wf_def)
  then show "list_ok (remove_message j l)" using d by (simp add: list_ok_def r)
  show "lookup (remove_message j l) = (lookup l)(msg_msgid ?m := None)"
    using keyed_split(1) [OF d refl] i by (simp only: lookup_def r)
  show "refs_of l = ref (msg_publish ?m) + refs_of (remove_message j l)"
    unfolding refs_of_def r by (subst i) simp
  show "set (cl_items (remove_message j l)) \<subseteq> set (cl_items l)"
    unfolding r by (auto dest: in_set_takeD in_set_dropD)
qed

lemma set_message_ok:
  assumes "list_ok l" "j < length (cl_items l)" "msg_msgid m = msg_msgid (cl_items l ! j)"
    "cl_items l' = (cl_items l)[j := m]" "cl_wf l'"
  shows "list_ok l'" "lookup l' = (lookup l)(msg_msgid m \<mapsto> m)"
    "ref (msg_publish (cl_items l ! j)) + refs_of l' = ref (msg_publish m) + refs_of l"
    "set (cl_items l') \<subseteq> insert m (set (cl_items l))"
proof -
  let ?xs = "take j (cl_items l)" and ?ys = "drop (Suc j) (cl_items l)" and ?m = "cl_items l ! j"
  have i: "cl_items l = ?xs @ ?m # ?ys" by (rule id_take_nth_drop [OF assms(2)])
  have r: "cl_items l' = ?xs @ m # ?ys" using assms(2,4) by (simp add: upd_conv_take_nth_drop)
  have d: "distinct (map msg_msgid (?xs @ ?m # ?ys))" using assms(1) i by (simp add: list_ok_def)
  then show "list_ok l'" using assms(3,5) by (simp add: list_ok_def r)
  show "lookup l' = (lookup l)(msg_msgid m \<mapsto> m)"
    using keyed_split(2) [OF d assms(3)] i assms(3) by (simp only: lookup_def r)
  show "ref (msg_publish ?m) + refs_of l' = ref (msg_publish m) + refs_of l"
    unfolding refs_of_def r by (subst (3) i) simp
  show "set (cl_items l') \<subseteq> insert m (set (cl_items l))"
    unfolding assms(4) by (rule set_update_subset_insert)
qed

lemma append_message_ok:
  assumes "list_ok l" "msg_msgid m \<notin> msg_msgid ` set (cl_items l)"
  shows "list_ok (cl_append m l)" "lookup (cl_append m l) = (lookup l)(msg_msgid m \<mapsto> m)"
    "refs_of (cl_append m l) = ref (msg_publish m) + refs_of l"
proof -
  show "list_ok (cl_append m l)" using assms by (auto simp: list_ok_def)
  have "map_of (map (\<lambda>m. (msg_msgid m, m)) (cl_items l)) (msg_msgid m) = None"
    using assms(2) by (auto simp: map_of_eq_None_iff)
  then show "lookup (cl_append m l) = (lookup l)(msg_msgid m \<mapsto> m)"
    by (auto simp: lookup_def map_add_def fun_eq_iff split: option.splits)
  show "refs_of (cl_append m l) = ref (msg_publish m) + refs_of l"
    by (simp add: refs_of_def add.commute)
qed

lemma replace_message_items:
  "j < length (cl_items l) \<Longrightarrow> cl_items (remove_message (Suc j) (cl_insert m j l)) = (cl_items l)[j := m]"
  by (simp add: remove_message_def cl_remove_at_def cl_insert_def upd_conv_take_nth_drop min_def)

lemma replace_message_wf:
  assumes "cl_wf l" "j < length (cl_items l)"
  shows "cl_wf (remove_message (Suc j) (cl_insert m j l))"
  using cl_wf_insert [OF assms(1), of j m] assms
  unfolding remove_message_def by (intro cl_wf_remove_at) (auto simp: cl_wf_def cl_insert_def)

end
