(* ===== verification/Exchanges.thy ===== *)
theory Exchanges
  imports MessageStore
begin

text \<open>
  One client in the state of the program.  \<open>session\<close> is what an exchange of messages is about: the QoS 2
  publications that were received and not yet released, and the phase of every message sent.
  \<open>client_inv\<close> is the invariant of a client next to everything else, \<open>session_step\<close> the specification of
  the reaction to a packet; the handlers of \<open>Protocol\<close> keep the one and implement the other.
\<close>


section \<open>The abstract session\<close>

datatype phase = Wait_puback | Wait_pubrec | Wait_pubcomp

record session =
  unreleased :: "int \<rightharpoonup> Publish option"
  in_flight :: "int \<rightharpoonup> phase"

datatype packet_in = In_publish Publish | In_puback Ack | In_pubrec Ack | In_pubrel Ack | In_pubcomp Ack

text \<open>A stored publication as it is delivered; an unreleased one of version 5 was delivered when it
  arrived.\<close>

definition kept :: "Publish \<Rightarrow> Publish" where
  "kept p = p\<lparr>publish_header := Header 0 0 (header_qos (publish_header p)) (header_retain (publish_header p)),
     publish_properties := (if 5 \<le> publish_MQTTVersion p then publish_properties p else MQTTProperties_initializer),
     publish_mask := [0, 0, 0, 0]\<rparr>"

text \<open>\<open>writable\<close> says whether the socket has no unfinished writes; otherwise nothing that needs an answer
  is processed.  The new session, and the publications delivered.\<close>

definition receive_publish :: "bool \<Rightarrow> Publish \<Rightarrow> session \<Rightarrow> session \<times> Publish list" where
  "receive_publish writable p ss =
     (let qos = header_qos (publish_header p); n = publish_msgId p in
      if qos = 0 then (ss, [p])
      else if \<not> writable then (ss, [])
      else if qos = 1 then (ss, [p])
      else if qos = 2 then
        if publish_MQTTVersion p < 5 then (ss\<lparr>unreleased := (unreleased ss)(n \<mapsto> Some (kept p))\<rparr>, [])
        else (ss\<lparr>unreleased := (unreleased ss)(n \<mapsto> None)\<rparr>, if unreleased ss n = None then [kept p] else [])
      else (ss, []))"

definition receive_ack :: "phase \<Rightarrow> phase option \<Rightarrow> int \<Rightarrow> session \<Rightarrow> session" where
  "receive_ack before after n ss =
     (if in_flight ss n = Some before then ss\<lparr>in_flight := (in_flight ss)(n := after)\<rparr> else ss)"

definition receive_pubrel :: "bool \<Rightarrow> int \<Rightarrow> session \<Rightarrow> session \<times> Publish list" where
  "receive_pubrel writable n ss =
     (if \<not> writable then (ss, [])
      else (ss\<lparr>unreleased := (unreleased ss)(n := None)\<rparr>,
            case unreleased ss n of Some (Some p) \<Rightarrow> [p] | _ \<Rightarrow> []))"

definition refused :: "Ack \<Rightarrow> bool" where
  "refused a \<longleftrightarrow> 5 \<le> ack_MQTTVersion a \<and> 128 \<le> the (ack_rc a)"

fun session_step :: "bool \<Rightarrow> packet_in \<Rightarrow> session \<Rightarrow> session \<times> Publish list" where
  "session_step writable (In_publish p) ss = receive_publish writable p ss"
| "session_step writable (In_puback a) ss = (receive_ack Wait_puback None (the (ack_msgId a)) ss, [])"
| "session_step writable (In_pubrec a) ss =
     (receive_ack Wait_pubrec (if refused a then None else Some Wait_pubcomp) (the (ack_msgId a)) ss, [])"
| "session_step writable (In_pubcomp a) ss = (receive_ack Wait_pubcomp None (the (ack_msgId a)) ss, [])"
| "session_step writable (In_pubrel a) ss = receive_pubrel writable (the (ack_msgId a)) ss"

section \<open>The session of a client\<close>

definition awaited :: "'s world \<Rightarrow> Messages \<Rightarrow> Publish option" where
  "awaited w m =
     (if 5 \<le> msg_MQTTVersion m then None
      else Some (stored_publish m (map_option snd (publication_at w (msg_publish m)))))"

definition phase_of :: "Messages \<Rightarrow> phase" where
  "phase_of m = (if msg_qos m = 1 then Wait_puback
     else if msg_nextMessageType m = PUBREC then Wait_pubrec else Wait_pubcomp)"

definition unreleased_of :: "'s world \<Rightarrow> Messages clist \<Rightarrow> int \<rightharpoonup> Publish option" where
  "unreleased_of w l = (\<lambda>n. map_option (awaited w) (lookup l n))"

definition in_flight_of :: "Messages clist \<Rightarrow> int \<rightharpoonup> phase" where
  "in_flight_of l = (\<lambda>n. map_option phase_of (lookup l n))"

definition session_of :: "'s world \<Rightarrow> Clients \<Rightarrow> session" where
  "session_of w c = \<lparr>unreleased = unreleased_of w (inboundMsgs c), in_flight = in_flight_of (outboundMsgs c)\<rparr>"

definition inbound_ok :: "Messages \<Rightarrow> bool" where
  "inbound_ok m \<longleftrightarrow> msg_qos m = 2 \<and> msg_nextMessageType m = PUBREL \<and> (msg_MQTTVersion m < 5 \<longrightarrow> msg_publish m \<noteq> NULL)"

definition outbound_ok :: "Messages \<Rightarrow> bool" where
  "outbound_ok m \<longleftrightarrow> msg_publish m \<noteq> NULL \<and>
     (msg_qos m = 1 \<or> (msg_qos m = 2 \<and> (msg_nextMessageType m = PUBREC \<or> msg_nextMessageType m = PUBCOMP)))"

definition exchange_ok :: "Clients \<Rightarrow> bool" where
  "exchange_ok c \<longleftrightarrow> list_ok (inboundMsgs c) \<and> list_ok (outboundMsgs c) \<and>
     (\<forall>m \<in> set (cl_items (inboundMsgs c)). inbound_ok m) \<and> (\<forall>m \<in> set (cl_items (outboundMsgs c)). outbound_ok m)"

definition client_inv :: "addr multiset \<Rightarrow> 's world \<Rightarrow> Clients \<Rightarrow> bool" where
  "client_inv R w c \<longleftrightarrow> exchange_ok c \<and> accounted (w_state w) (client_refs c + R)"

text \<open>What the rest of the program sees of a change at one client: nothing.\<close>

definition same_rest :: "addr multiset \<Rightarrow> 's world \<Rightarrow> 's world \<Rightarrow> bool" where
  "same_rest R w w' \<longleftrightarrow> w_clients w' = w_clients w \<and> pending_writes (w_state w') = pending_writes (w_state w) \<and>
     (\<forall>b \<in># R. publication_at w' (Ptr b) = publication_at w (Ptr b))"

section \<open>The environment\<close>

text \<open>Memory is available, \<open>MQTTPersistence_remove\<close>, sending and the clock do not deliver anything, and
  \<open>Protocol_processPublication\<close> delivers its packet to the client of its socket: \<open>log\<close> reads the record
  of the deliveries.\<close>

definition observing :: "'s protocol_env \<Rightarrow> ('s \<Rightarrow> 'l) \<Rightarrow> (int \<Rightarrow> Publish \<Rightarrow> 'l \<Rightarrow> 'l) \<Rightarrow> bool" where
  "observing E log deliver \<longleftrightarrow> pe_alloc E = always_alloc \<and>
     (\<forall>nh h bufs s. log (snd (snd (tr_putdatas (pe_transport E) nh h bufs s))) = log s) \<and>
     (\<forall>sock h bufs t n r v s. log (snd (tr_putPacket (pe_transport E) sock h bufs t n r v s)) = log s) \<and>
     (\<forall>s. log (snd (tr_now (pe_transport E) s)) = log s) \<and>
     (\<forall>c key q n s. log (snd (pe_remove E c key q n s)) = log s) \<and>
     (\<forall>p c b s. log (pe_process E p c b s) = deliver (net_socket (net c)) p (log s))"

definition ack_ok :: "Ack \<Rightarrow> bool" where
  "ack_ok a \<longleftrightarrow> (\<exists>n. ack_msgId a = Some n \<and> 0 \<le> n \<and> n < 65536) \<and> (5 \<le> ack_MQTTVersion a \<longrightarrow> ack_rc a \<noteq> None)"

definition publish_in_ok :: "Publish \<Rightarrow> bool" where
  "publish_in_ok p \<longleftrightarrow> 0 \<le> publish_msgId p \<and> publish_msgId p < 65536 \<and> 0 \<le> publish_topiclen p \<and> 0 \<le> publish_payloadlen p \<and>
     (5 \<le> publish_MQTTVersion p \<longrightarrow> MQTTProperties_copy always_alloc (publish_properties p) = Some (publish_properties p))"

fun packet_ok :: "packet_in \<Rightarrow> bool" where
  "packet_ok (In_publish p) = publish_in_ok p"
| "packet_ok (In_puback a) = ack_ok a"
| "packet_ok (In_pubrec a) = ack_ok a"
| "packet_ok (In_pubrel a) = ack_ok a"
| "packet_ok (In_pubcomp a) = ack_ok a"


section \<open>Single changes\<close>

lemma observing_alloc: "observing E log deliver \<Longrightarrow> pe_alloc E = always_alloc"
  by (simp add: observing_def)

lemma observing_log:
  assumes "observing E log deliver"
  shows "tr_putdatas (pe_transport E) nh h bufs s = (rc, bufs', s') \<Longrightarrow> log s' = log s"
    "tr_now (pe_transport E) s = (now, s') \<Longrightarrow> log s' = log s"
    "pe_remove E c key q n s = (rc', s') \<Longrightarrow> log s' = log s"
  using assms unfolding observing_def by (metis snd_conv)+

lemma send_ack_total:
  assumes "observing E log deliver" "0 \<le> n" "n < 65536"
  obtains rc nh' s' where "MQTTPacket_send_ack (pe_transport E) v t n d nh s = Some (rc, nh', s')"
    "net_socket nh' = net_socket nh" "log s' = log s"
proof -
  let ?T = "pe_transport E"
  define h where "h = Header t d (if t = PUBREL then 1 else 0) 0"
  define body where "body = be_bytes 2 (nat n)"
  define s0 where "s0 = (if t mod 16 = PUBREL then persist_sent ?T nh h [(Some body, 2)] n v s else s)"
  have l0: "log s0 = log s" using assms(1) by (simp add: s0_def persist_sent_def observing_def)
  obtain rc bufs s1 where p: "tr_putdatas ?T nh (h # vbi_enc (sum_list (pbs_buflens (one_buffer body)))) (one_buffer body) s0 = (rc, bufs, s1)"
    by (metis prod_cases3)
  obtain nh' s2 where st: "stamp_sent ?T rc nh s1 = (nh', s2)" by fastforce
  have "net_socket nh' = net_socket nh \<and> log s2 = log s1"
    using st observing_log(2) [OF assms(1)] by (auto simp: stamp_sent_def split: if_splits prod.splits)
  moreover have "log s1 = log s0" by (rule observing_log(1) [OF assms(1) p])
  moreover have "MQTTPacket_send_ack ?T v t n d nh s = Some (rc, nh', s2)"
    unfolding send_ack_bytes [OF observing_alloc [OF assms(1)] assms(2,3)] Let_def transmit_def
      h_def [symmetric] body_def [symmetric] s0_def [symmetric] p
    by (simp add: st)
  ultimately show thesis using l0 that by simp
qed

lemma lookup_in: "lookup l n = Some m \<Longrightarrow> m \<in> set (cl_items l)"
  by (auto simp: lookup_def dest!: map_of_SomeD)

lemma refs_of_member: "m \<in> set (cl_items l) \<Longrightarrow> ref (msg_publish m) \<subseteq># refs_of l"
  unfolding refs_of_def by (induction "cl_items l") (auto dest: split_list)

lemma awaited_cong:
  assumes "\<forall>b \<in># ref (msg_publish m). publication_at w' (Ptr b) = publication_at w (Ptr b)"
  shows "awaited w' m = awaited w m"
  using assms by (cases "msg_publish m") (auto simp: awaited_def publication_at_def)

lemma unreleased_of_cong:
  assumes "\<forall>b \<in># refs_of l. publication_at w' (Ptr b) = publication_at w (Ptr b)"
  shows "unreleased_of w' l = unreleased_of w l"
proof
  fix n
  show "unreleased_of w' l n = unreleased_of w l n"
  proof (cases "lookup l n")
    case (Some m)
    then have "ref (msg_publish m) \<subseteq># refs_of l" by (intro refs_of_member lookup_in)
    then have "awaited w' m = awaited w m" using assms by (intro awaited_cong) (auto dest: mset_subset_eqD)
    with Some show ?thesis by (simp add: unreleased_of_def)
  qed (simp add: unreleased_of_def)
qed

text \<open>Outer state, network handles and cursors do not matter.\<close>

lemma publication_at_outer [simp]: "publication_at (w\<lparr>w_outer := s\<rparr>) p = publication_at w p"
  by (simp add: publication_at_def split: ptr.split)

lemma awaited_outer [simp]: "awaited (w\<lparr>w_outer := s\<rparr>) = awaited w"
  by (simp add: fun_eq_iff awaited_def)

lemma outer_irrelevant [simp]:
  "client_inv R (w\<lparr>w_outer := s\<rparr>) c = client_inv R w c" "session_of (w\<lparr>w_outer := s\<rparr>) c = session_of w c"
  "same_rest R w (w'\<lparr>w_outer := s\<rparr>) = same_rest R w w'" "same_rest R (w\<lparr>w_outer := s\<rparr>) w' = same_rest R w w'"
  by (simp_all add: client_inv_def session_of_def unreleased_of_def same_rest_def)

lemma net_irrelevant [simp]:
  "client_inv R w (c\<lparr>net := nh\<rparr>) = client_inv R w c" "session_of w (c\<lparr>net := nh\<rparr>) = session_of w c"
  "client_inv R w (c\<lparr>net := nh, outboundMsgs := l\<rparr>) = client_inv R w (c\<lparr>outboundMsgs := l\<rparr>)"
  "session_of w (c\<lparr>net := nh, outboundMsgs := l\<rparr>) = session_of w (c\<lparr>outboundMsgs := l\<rparr>)"
  "client_inv R w (c\<lparr>net := nh, inboundMsgs := l\<rparr>) = client_inv R w (c\<lparr>inboundMsgs := l\<rparr>)"
  "session_of w (c\<lparr>net := nh, inboundMsgs := l\<rparr>) = session_of w (c\<lparr>inboundMsgs := l\<rparr>)"
  by (simp_all add: client_inv_def exchange_ok_def client_refs_def session_of_def)

lemma same_rest_refl [simp]: "same_rest R w w"
  by (simp add: same_rest_def)

lemma cursor_irrelevant:
  assumes "client_inv R w c"
  shows "cl_items l = cl_items (outboundMsgs c) \<Longrightarrow> cl_wf l \<Longrightarrow>
      client_inv R w (c\<lparr>outboundMsgs := l\<rparr>) \<and> session_of w (c\<lparr>outboundMsgs := l\<rparr>) = session_of w c"
    "cl_items l = cl_items (inboundMsgs c) \<Longrightarrow> cl_wf l \<Longrightarrow>
      client_inv R w (c\<lparr>inboundMsgs := l\<rparr>) \<and> session_of w (c\<lparr>inboundMsgs := l\<rparr>) = session_of w c"
  using assms by (simp_all add: client_inv_def exchange_ok_def list_ok_def client_refs_def session_of_def
      in_flight_of_def unreleased_of_def refs_of_def lookup_def)


section \<open>Acknowledgements\<close>

lemma phase_of_iff:
  assumes "outbound_ok m"
  shows "phase_of m = Wait_puback \<longleftrightarrow> msg_qos m = 1" "phase_of m = Wait_pubrec \<longleftrightarrow> msg_qos m = 2 \<and> msg_nextMessageType m = PUBREC"
    "phase_of m = Wait_pubcomp \<longleftrightarrow> msg_qos m = 2 \<and> msg_nextMessageType m = PUBCOMP"
  using assms by (auto simp: outbound_ok_def phase_of_def)

lemma discard_message_step:
  assumes "observing E log deliver" "client_inv R w c" "j < length (cl_items (outboundMsgs c))"
    "n = msg_msgid (cl_items (outboundMsgs c) ! j)"
  obtains rc w' where "discard_message E j v5 c w = Some (rc, c\<lparr>outboundMsgs := remove_message j (outboundMsgs c)\<rparr>, w')"
    "client_inv R w' (c\<lparr>outboundMsgs := remove_message j (outboundMsgs c)\<rparr>)" "same_rest R w w'"
    "session_of w' (c\<lparr>outboundMsgs := remove_message j (outboundMsgs c)\<rparr>) =
      (session_of w c)\<lparr>in_flight := (in_flight (session_of w c))(n := None)\<rparr>"
    "log (w_outer w') = log (w_outer w)"
proof -
  let ?l = "outboundMsgs c"
  let ?m = "cl_items ?l ! j" and ?l' = "remove_message j ?l"
  have ok: "list_ok ?l" using assms(2) by (simp add: client_inv_def exchange_ok_def)
  note r = remove_message_ok [OF ok assms(3)]
  obtain rc s where p: "pe_remove E c (if v5 then PERSISTENCE_V5_PUBLISH_SENT else PERSISTENCE_PUBLISH_SENT)
      (msg_qos ?m) (msg_msgid ?m) (w_outer w) = (rc, s)" by force
  have "accounted (w_state (w\<lparr>w_outer := s\<rparr>)) (ref (msg_publish ?m) + (refs_of (inboundMsgs c) + refs_of ?l' + R))"
    using assms(2) r(3) by (simp add: client_inv_def client_refs_def ac_simps)
  from accounted_remove [OF this] obtain w' where w':
    "MQTTProtocol_removePublication (msg_publish ?m) (w\<lparr>w_outer := s\<rparr>) = Some w'"
    "accounted (w_state w') (refs_of (inboundMsgs c) + refs_of ?l' + R)"
    "\<forall>b. b \<in># refs_of (inboundMsgs c) + refs_of ?l' + R \<longrightarrow> publication_at w' (Ptr b) = publication_at w (Ptr b)"
    "w_clients w' = w_clients w" "w_outer w' = s" "pending_writes (w_state w') = pending_writes (w_state w)"
    by auto
  have "discard_message E j v5 c w = Some (rc, c\<lparr>outboundMsgs := ?l'\<rparr>, w')"
    using p w'(1) by (simp add: discard_message_def Let_def del: bind_Some_iff)
  moreover have "client_inv R w' (c\<lparr>outboundMsgs := ?l'\<rparr>)"
    using assms(2) w'(2) r(1,4) by (auto simp: client_inv_def exchange_ok_def client_refs_def)
  moreover have "same_rest R w w'" using w' by (simp add: same_rest_def)
  moreover have "unreleased_of w' (inboundMsgs c) = unreleased_of w (inboundMsgs c)"
    using w'(3) by (intro unreleased_of_cong) auto
  moreover have "in_flight_of ?l' = (in_flight_of ?l)(n := None)"
    unfolding in_flight_of_def r(2) assms(4) by (auto simp: fun_eq_iff)
  moreover have "log (w_outer w') = log (w_outer w)" using observing_log(3) [OF assms(1) p] w'(5) by simp
  ultimately show thesis using that by (simp add: session_of_def)
qed

text \<open>The search for the message of an acknowledgement.\<close>

lemma find_outbound:
  assumes "client_inv R w c"
  obtains (found) j l where "cl_find (\<lambda>m. messageIDCompare m n) (outboundMsgs c) = (Some j, l)" "j < length (cl_items l)"
      "msg_msgid (cl_items l ! j) = n" "in_flight (session_of w c) n = Some (phase_of (cl_items l ! j))"
      "outbound_ok (cl_items l ! j)" "client_inv R w (c\<lparr>outboundMsgs := l\<rparr>)" "session_of w (c\<lparr>outboundMsgs := l\<rparr>) = session_of w c"
    | (missing) "cl_find (\<lambda>m. messageIDCompare m n) (outboundMsgs c) = (None, outboundMsgs c)" "in_flight (session_of w c) n = None"
proof -
  have ok: "list_ok (outboundMsgs c)" using assms by (simp add: client_inv_def exchange_ok_def)
  from ok show thesis
  proof (cases rule: find_message [of _ n, consumes 1])
    case (found j l')
    have "outbound_ok (cl_items (outboundMsgs c) ! j)"
      using assms found(2) by (simp add: client_inv_def exchange_ok_def)
    moreover have "in_flight (session_of w c) n = Some (phase_of (cl_items l' ! j))"
      using found by (simp add: session_of_def in_flight_of_def)
    moreover have "cl_wf l'" using found(6) by (simp add: list_ok_def)
    ultimately show thesis
      using found cursor_irrelevant(1) [OF assms found(5)] by (intro that(1) [of j l']) simp_all
  next
    case missing
    then show thesis by (intro that(2)) (simp_all add: session_of_def in_flight_of_def)
  qed
qed


text \<open>The step of a client from \<open>w\<close>, \<open>c\<close> to \<open>w'\<close>, \<open>c'\<close>: invariant, session and deliveries.\<close>

definition turn ::
  "('s \<Rightarrow> 'l) \<Rightarrow> (int \<Rightarrow> Publish \<Rightarrow> 'l \<Rightarrow> 'l) \<Rightarrow> addr multiset \<Rightarrow> 's world \<Rightarrow> Clients \<Rightarrow> session \<times> Publish list \<Rightarrow>
   's world \<Rightarrow> Clients \<Rightarrow> bool" where
  "turn log deliver R w c result w' c' \<longleftrightarrow>
     client_inv R w' c' \<and> same_rest R w w' \<and> net_socket (net c') = net_socket (net c) \<and>
     session_of w' c' = fst result \<and> log (w_outer w') = fold (deliver (net_socket (net c))) (snd result) (log (w_outer w))"

lemma count_sent_irrelevant [simp]:
  "client_inv R (count_sent w) c = client_inv R w c" "session_of (count_sent w) c = session_of w c"
  "same_rest R w (count_sent w') = same_rest R w w'" "w_outer (count_sent w) = w_outer w"
  "count_sent (set_client i c w) = set_client i c (count_sent w)"
proof -
  have p: "publication_at (count_sent w) = publication_at w" for w :: "'a world"
    by (auto simp: fun_eq_iff publication_at_def count_sent_def split: ptr.split)
  have a: "awaited (count_sent w) = awaited w" by (simp add: fun_eq_iff awaited_def p)
  show "client_inv R (count_sent w) c = client_inv R w c" by (simp add: client_inv_def accounted_def count_sent_def)
  show "session_of (count_sent w) c = session_of w c" by (simp add: session_of_def unreleased_of_def a)
  show "same_rest R w (count_sent w') = same_rest R w w'" by (simp add: same_rest_def p) (simp add: count_sent_def)
qed (simp_all add: count_sent_def set_client_def)

text \<open>A handler called for client \<open>i\<close> makes such a step.\<close>

definition reacts ::
  "('s \<Rightarrow> 'l) \<Rightarrow> (int \<Rightarrow> Publish \<Rightarrow> 'l \<Rightarrow> 'l) \<Rightarrow> addr multiset \<Rightarrow> nat \<Rightarrow> 's world \<Rightarrow> Clients \<Rightarrow> session \<times> Publish list \<Rightarrow>
   (int \<times> 's world) ub \<Rightarrow> bool" where
  "reacts log deliver R i w c result h \<longleftrightarrow>
     (\<exists>rc c' w'. h = Some (rc, set_client i c' w') \<and> turn log deliver R w c result w' c')"

lemma reacts_turn:
  "h = Some (rc, set_client i c' w') \<Longrightarrow> turn log deliver R w c result w' c' \<Longrightarrow> reacts log deliver R i w c result h"
  unfolding reacts_def by blast

lemma reacts_idle:
  "h = Some (rc, set_client i c' w) \<Longrightarrow> client_inv R w c' \<Longrightarrow> session_of w c' = session_of w c \<Longrightarrow>
    net_socket (net c') = net_socket (net c) \<Longrightarrow> result = (session_of w c, []) \<Longrightarrow> reacts log deliver R i w c result h"
  by (rule reacts_turn, assumption) (simp add: turn_def)

lemma discard_turn:
  assumes "observing E log deliver" "client_inv R w (c\<lparr>outboundMsgs := l\<rparr>)" "session_of w (c\<lparr>outboundMsgs := l\<rparr>) = session_of w c"
    "j < length (cl_items l)" "msg_msgid (cl_items l ! j) = n"
  obtains rc c' w' where "discard_message E j v5 (c\<lparr>outboundMsgs := l\<rparr>) w = Some (rc, c', w')"
    "turn log deliver R w c ((session_of w c)\<lparr>in_flight := (in_flight (session_of w c))(n := None)\<rparr>, []) w' c'"
proof -
  have j: "j < length (cl_items (outboundMsgs (c\<lparr>outboundMsgs := l\<rparr>)))"
    "n = msg_msgid (cl_items (outboundMsgs (c\<lparr>outboundMsgs := l\<rparr>)) ! j)" using assms(4,5) by simp_all
  show thesis
    by (rule discard_message_step [OF assms(1,2) j, of v5], rule that, assumption) (simp add: turn_def assms(3))
qed

lemma handlePubacks_step:
  assumes "observing E log deliver" "ack_ok a" "find_client sock w0 = Some (i, c, w)" "client_inv R w c"
  shows "reacts log deliver R i w c (session_step writable (In_puback a) (session_of w c)) (MQTTProtocol_handlePubacks E a sock w0)"
proof -
  obtain n where n: "ack_msgId a = Some n" using assms(2) by (auto simp: ack_ok_def)
  note h = MQTTProtocol_handlePubacks_def Let_def assms(3) n
  from assms(4) show ?thesis
  proof (cases rule: find_outbound [of _ _ _ n, consumes 1])
    case (found j l)
    note p = phase_of_iff(1) [OF found(5)]
    show ?thesis
    proof (cases "msg_qos (cl_items l ! j) = 1")
      case False
      with found p show ?thesis
        by (intro reacts_idle [OF _ found(6,7)]) (simp_all add: h receive_ack_def del: bind_Some_iff)
    next
      case True
      obtain rc c' w' where
        d: "discard_message E j (5 \<le> msg_MQTTVersion (cl_items l ! j)) (c\<lparr>outboundMsgs := l\<rparr>) w = Some (rc, c', w')"
          "turn log deliver R w c ((session_of w c)\<lparr>in_flight := (in_flight (session_of w c))(n := None)\<rparr>, []) w' c'"
        by (rule discard_turn [OF assms(1) found(6,7,2,3)])
      show ?thesis
        by (rule reacts_turn) (use found True p d in \<open>simp_all add: h receive_ack_def del: bind_Some_iff\<close>)
    qed
  next
    case missing
    then show ?thesis
      by (intro reacts_idle [OF _ assms(4) refl refl]) (simp_all add: h receive_ack_def del: bind_Some_iff)
  qed
qed

lemma handlePubcomps_step:
  assumes "observing E log deliver" "ack_ok a" "find_client sock w0 = Some (i, c, w)" "client_inv R w c"
  shows "reacts log deliver R i w c (session_step writable (In_pubcomp a) (session_of w c)) (MQTTProtocol_handlePubcomps E a sock w0)"
proof -
  obtain n where n: "ack_msgId a = Some n" using assms(2) by (auto simp: ack_ok_def)
  note h = MQTTProtocol_handlePubcomps_def Let_def assms(3) n
  from assms(4) show ?thesis
  proof (cases rule: find_outbound [of _ _ _ n, consumes 1])
    case (found j l)
    note p = phase_of_iff(3) [OF found(5)]
    show ?thesis
    proof (cases "msg_qos (cl_items l ! j) = 2 \<and> msg_nextMessageType (cl_items l ! j) = PUBCOMP")
      case False
      then have "phase_of (cl_items l ! j) \<noteq> Wait_pubcomp" using p by blast
      with found False show ?thesis
        by (intro reacts_idle [OF _ found(6,7)]) (simp_all add: h receive_ack_def del: bind_Some_iff)
    next
      case True
      obtain rc c' w' where
        d: "discard_message E j (5 \<le> msg_MQTTVersion (cl_items l ! j)) (c\<lparr>outboundMsgs := l\<rparr>) w = Some (rc, c', w')"
          "turn log deliver R w c ((session_of w c)\<lparr>in_flight := (in_flight (session_of w c))(n := None)\<rparr>, []) w' c'"
        by (rule discard_turn [OF assms(1) found(6,7,2,3)])
      then have t: "turn log deliver R w c ((session_of w c)\<lparr>in_flight := (in_flight (session_of w c))(n := None)\<rparr>, []) (count_sent w') c'"
        by (simp add: turn_def)
      show ?thesis
        by (rule reacts_turn) (use found True p d(1) t in \<open>simp_all add: h receive_ack_def del: bind_Some_iff\<close>)
    qed
  next
    case missing
    then show ?thesis
      by (intro reacts_idle [OF _ assms(4) refl refl]) (simp_all add: h receive_ack_def del: bind_Some_iff)
  qed
qed


text \<open>PUBREC: the message is discarded or waits for PUBCOMP.\<close>

lemma advance_message:
  assumes "client_inv R w (c\<lparr>outboundMsgs := l\<rparr>)" "session_of w (c\<lparr>outboundMsgs := l\<rparr>) = session_of w c"
    "j < length (cl_items l)" "msg_msgid (cl_items l ! j) = n" "outbound_ok (cl_items l ! j)" "msg_qos (cl_items l ! j) = 2"
    "l' = set_message j ((cl_items l ! j)\<lparr>msg_nextMessageType := PUBCOMP, msg_lastTouch := now\<rparr>) l"
  shows "client_inv R w (c\<lparr>outboundMsgs := l'\<rparr>)"
    "session_of w (c\<lparr>outboundMsgs := l'\<rparr>) = (session_of w c)\<lparr>in_flight := (in_flight (session_of w c))(n \<mapsto> Wait_pubcomp)\<rparr>"
proof -
  let ?m = "(cl_items l ! j)\<lparr>msg_nextMessageType := PUBCOMP, msg_lastTouch := now\<rparr>"
  have ok: "list_ok l" using assms(1) by (simp add: client_inv_def exchange_ok_def)
  have i: "cl_items l' = (cl_items l)[j := ?m]" "cl_wf l'" "msg_msgid ?m = msg_msgid (cl_items l ! j)"
    using ok by (auto simp: assms(7) set_message_def list_ok_def cl_wf_def split: option.splits)
  note u = set_message_ok [OF ok assms(3) i(3,1,2)]
  have r: "refs_of l' = refs_of l" using u(3) by simp
  have m: "outbound_ok ?m" using assms(5,6) by (simp add: outbound_ok_def)
  show "client_inv R w (c\<lparr>outboundMsgs := l'\<rparr>)"
    using assms(1) u(1,4) m r by (auto simp: client_inv_def exchange_ok_def client_refs_def)
  have "in_flight_of l' = (in_flight_of l)(n \<mapsto> phase_of ?m)"
    unfolding in_flight_of_def u(2) using assms(4) by (auto simp: fun_eq_iff)
  moreover have "phase_of ?m = Wait_pubcomp" using assms(6) by (simp add: phase_of_def)
  ultimately show "session_of w (c\<lparr>outboundMsgs := l'\<rparr>) =
      (session_of w c)\<lparr>in_flight := (in_flight (session_of w c))(n \<mapsto> Wait_pubcomp)\<rparr>"
    using assms(2) by (simp add: session_of_def)
qed

lemma handlePubrecs_step:
  assumes "observing E log deliver" "ack_ok a" "find_client sock w0 = Some (i, c, w)" "client_inv R w c"
  shows "reacts log deliver R i w c (session_step writable (In_pubrec a) (session_of w c)) (MQTTProtocol_handlePubrecs E a sock w0)"
proof -
  obtain n where n: "ack_msgId a = Some n" "0 \<le> n" "n < 65536" using assms(2) by (auto simp: ack_ok_def)
  have f: "(if 5 \<le> ack_MQTTVersion a then map_option (\<lambda>r. 128 \<le> r) (ack_rc a) else Some False) = Some (refused a)"
    using assms(2) by (auto simp: ack_ok_def refused_def)
  note h = MQTTProtocol_handlePubrecs_def Let_def assms(3) n f
  define c0 where "c0 = c\<lparr>outboundMsgs := (outboundMsgs c)\<lparr>cl_cur := None\<rparr>\<rparr>"
  have c0: "client_inv R w c0" "session_of w c0 = session_of w c" "outboundMsgs c0 = (outboundMsgs c)\<lparr>cl_cur := None\<rparr>"
      "c0\<lparr>outboundMsgs := l\<rparr> = c\<lparr>outboundMsgs := l\<rparr>" "net c0 = net c" for l
    using cursor_irrelevant(1) [OF assms(4), of "(outboundMsgs c)\<lparr>cl_cur := None\<rparr>"] by (simp_all add: c0_def cl_wf_def)
  from c0(1) show ?thesis
  proof (cases rule: find_outbound [of _ _ _ n, consumes 1])
    case (found j l)
    note found = found [unfolded c0]
    note p = phase_of_iff(2) [OF found(5)]
    show ?thesis
    proof (cases "msg_qos (cl_items l ! j) = 2 \<and> msg_nextMessageType (cl_items l ! j) = PUBREC")
      case False
      then have "phase_of (cl_items l ! j) \<noteq> Wait_pubrec" using p by blast
      with found False show ?thesis
        by (intro reacts_idle [OF _ found(6,7)]) (simp_all add: h receive_ack_def del: bind_Some_iff)
    next
      case wait: True
      show ?thesis
      proof (cases "refused a")
        case True
        obtain rc c' w' where
          d: "discard_message E j (5 \<le> ack_MQTTVersion a) (c\<lparr>outboundMsgs := l\<rparr>) w = Some (rc, c', w')"
            "turn log deliver R w c ((session_of w c)\<lparr>in_flight := (in_flight (session_of w c))(n := None)\<rparr>, []) w' c'"
          by (rule discard_turn [OF assms(1) found(6,7,2,3)])
        then have t: "turn log deliver R w c ((session_of w c)\<lparr>in_flight := (in_flight (session_of w c))(n := None)\<rparr>, []) (count_sent w') c'"
          by (simp add: turn_def)
        show ?thesis
          by (rule reacts_turn) (use found True wait p d(1) t in \<open>simp_all add: h receive_ack_def del: bind_Some_iff\<close>)
      next
        case False
        obtain rc nh s where sent: "MQTTPacket_send_ack (pe_transport E) (ack_MQTTVersion a) PUBREL n 0 (net c) (w_outer w) = Some (rc, nh, s)"
            "net_socket nh = net_socket (net c)" "log s = log (w_outer w)"
          by (rule send_ack_total [OF assms(1) n(2,3)])
        obtain now s' where now: "tr_now (pe_transport E) s = (now, s')" by force
        let ?c = "c\<lparr>net := nh, outboundMsgs := set_message j
            ((cl_items l ! j)\<lparr>msg_nextMessageType := PUBCOMP, msg_lastTouch := now\<rparr>) l\<rparr>"
        note a = advance_message [OF found(6,7,2,3,5) _ refl, of now]
        have "turn log deliver R w c ((session_of w c)\<lparr>in_flight := (in_flight (session_of w c))(n \<mapsto> Wait_pubcomp)\<rparr>, [])
            (w\<lparr>w_outer := s'\<rparr>) ?c"
          using a wait sent(2,3) observing_log(2) [OF assms(1) now] by (simp add: turn_def)
        with found wait p sent(1) now False show ?thesis
          by (intro reacts_turn [where c' = ?c and w' = "w\<lparr>w_outer := s'\<rparr>"])
            (simp_all add: h receive_ack_def MQTTPacket_send_pubrel_def MQTTTime_now_def del: bind_Some_iff)
      qed
    qed
  next
    case missing
    note missing = missing [unfolded c0]
    have m: "client_inv R w (c\<lparr>outboundMsgs := (outboundMsgs c)\<lparr>cl_cur := None\<rparr>\<rparr>)"
      "session_of w (c\<lparr>outboundMsgs := (outboundMsgs c)\<lparr>cl_cur := None\<rparr>\<rparr>) = session_of w c"
      using c0(1,2) by (simp_all add: c0_def)
    show ?thesis
      by (rule reacts_idle [OF _ m]) (use missing in \<open>simp_all add: h receive_ack_def del: bind_Some_iff\<close>)
  qed
qed


section \<open>PUBREL\<close>

lemma find_inbound:
  assumes "client_inv R w c"
  obtains (found) j l where "cl_find (\<lambda>m. messageIDCompare m n) (inboundMsgs c) = (Some j, l)" "j < length (cl_items l)"
      "msg_msgid (cl_items l ! j) = n" "unreleased (session_of w c) n = Some (awaited w (cl_items l ! j))"
      "inbound_ok (cl_items l ! j)" "client_inv R w (c\<lparr>inboundMsgs := l\<rparr>)" "session_of w (c\<lparr>inboundMsgs := l\<rparr>) = session_of w c"
    | (missing) "cl_find (\<lambda>m. messageIDCompare m n) (inboundMsgs c) = (None, inboundMsgs c)" "unreleased (session_of w c) n = None"
        "n \<notin> msg_msgid ` set (cl_items (inboundMsgs c))"
proof -
  have ok: "list_ok (inboundMsgs c)" using assms by (simp add: client_inv_def exchange_ok_def)
  from ok show thesis
  proof (cases rule: find_message [of _ n, consumes 1])
    case (found j l')
    have "inbound_ok (cl_items (inboundMsgs c) ! j)"
      using assms found(2) by (simp add: client_inv_def exchange_ok_def)
    moreover have "unreleased (session_of w c) n = Some (awaited w (cl_items l' ! j))"
      using found by (simp add: session_of_def unreleased_of_def)
    moreover have "cl_wf l'" using found(6) by (simp add: list_ok_def)
    ultimately show thesis
      using found cursor_irrelevant(2) [OF assms found(5)] by (intro that(1) [of j l']) simp_all
  next
    case missing
    then show thesis by (intro that(2)) (simp_all add: session_of_def unreleased_of_def)
  qed
qed

lemma received_irrelevant [simp]:
  "client_inv R (w\<lparr>w_state := (w_state w)\<lparr>msgs_received := k\<rparr>\<rparr>) c = client_inv R w c"
  "session_of (w\<lparr>w_state := (w_state w)\<lparr>msgs_received := k\<rparr>\<rparr>) c = session_of w c"
  "same_rest R w (w'\<lparr>w_state := (w_state w')\<lparr>msgs_received := k\<rparr>\<rparr>) = same_rest R w w'"
proof -
  have p: "publication_at (w\<lparr>w_state := (w_state w)\<lparr>msgs_received := k\<rparr>\<rparr>) = publication_at w" for w :: "'a world"
    by (auto simp: fun_eq_iff publication_at_def split: ptr.split)
  have a: "awaited (w\<lparr>w_state := (w_state w)\<lparr>msgs_received := k\<rparr>\<rparr>) = awaited w" by (simp add: fun_eq_iff awaited_def p)
  show "client_inv R (w\<lparr>w_state := (w_state w)\<lparr>msgs_received := k\<rparr>\<rparr>) c = client_inv R w c"
    by (simp add: client_inv_def accounted_def)
  show "session_of (w\<lparr>w_state := (w_state w)\<lparr>msgs_received := k\<rparr>\<rparr>) c = session_of w c"
    by (simp add: session_of_def unreleased_of_def a)
  show "same_rest R w (w'\<lparr>w_state := (w_state w')\<lparr>msgs_received := k\<rparr>\<rparr>) = same_rest R w w'"
    by (simp add: same_rest_def p)
qed

text \<open>Forgetting a received message and its publication.\<close>

definition forget_publication :: "ptr \<Rightarrow> 's world \<Rightarrow> 's world" where
  "forget_publication p w = (case p of NULL \<Rightarrow> w | Ptr a \<Rightarrow> drop_publication a w)"

lemma forget_inbound:
  assumes "client_inv R w (c\<lparr>inboundMsgs := l\<rparr>)" "session_of w (c\<lparr>inboundMsgs := l\<rparr>) = session_of w c"
    "j < length (cl_items l)" "msg_msgid (cl_items l ! j) = n"
  defines "w' \<equiv> forget_publication (msg_publish (cl_items l ! j)) w"
  shows "client_inv R w' (c\<lparr>inboundMsgs := remove_message j l\<rparr>)" "same_rest R w w'" "w_outer w' = w_outer w"
    "session_of w' (c\<lparr>inboundMsgs := remove_message j l\<rparr>) = (session_of w c)\<lparr>unreleased := (unreleased (session_of w c))(n := None)\<rparr>"
proof -
  let ?m = "cl_items l ! j" and ?l' = "remove_message j l"
  have ok: "list_ok l" using assms(1) by (simp add: client_inv_def exchange_ok_def)
  note r = remove_message_ok [OF ok assms(3)]
  let ?rest = "refs_of ?l' + refs_of (outboundMsgs c) + R"
  have acc: "accounted (w_state w) (ref (msg_publish ?m) + ?rest)"
    using assms(1) r(3) by (simp add: client_inv_def client_refs_def ac_simps)
  have w': "accounted (w_state w') ?rest \<and> (\<forall>b \<in># ?rest. publication_at w' (Ptr b) = publication_at w (Ptr b)) \<and>
      w_clients w' = w_clients w \<and> w_outer w' = w_outer w \<and> pending_writes (w_state w') = pending_writes (w_state w)"
  proof (cases "msg_publish ?m")
    case NULL
    with acc show ?thesis by (simp add: w'_def forget_publication_def)
  next
    case (Ptr a)
    with acc have "accounted (w_state w) (add_mset a ?rest)" by simp
    from accounted_drop [OF this] accounted_distinct [OF this] Ptr show ?thesis
      by (auto simp: w'_def forget_publication_def)
  qed
  show "client_inv R w' (c\<lparr>inboundMsgs := ?l'\<rparr>)"
    using assms(1) w' r(1,4) by (auto simp: client_inv_def exchange_ok_def client_refs_def)
  show "same_rest R w w'" "w_outer w' = w_outer w" using w' by (simp_all add: same_rest_def)
  have "unreleased_of w' ?l' = unreleased_of w ?l'" using w' by (intro unreleased_of_cong) auto
  also have "\<dots> = (unreleased_of w l)(n := None)"
    unfolding unreleased_of_def r(2) using assms(4) by (auto simp: fun_eq_iff)
  finally show "session_of w' (c\<lparr>inboundMsgs := ?l'\<rparr>) =
      (session_of w c)\<lparr>unreleased := (unreleased (session_of w c))(n := None)\<rparr>"
    using assms(2) by (simp add: session_of_def)
qed


lemma inbound_publication:
  assumes "client_inv R w c" "m \<in> set (cl_items (inboundMsgs c))" "msg_publish m = Ptr b"
  shows "\<exists>q. publication_at w (Ptr b) = Some (b, q) \<and> pub_topic q \<noteq> None \<and> pub_payload q \<noteq> None"
proof -
  have "b \<in># refs_of (inboundMsgs c)" using refs_of_member [OF assms(2)] assms(3) by simp
  then have "b \<in># client_refs c + R" by (simp add: client_refs_def)
  with assms(1) show ?thesis unfolding client_inv_def by (metis accounted_lookup)
qed

lemma release_turn:
  assumes "observing E log deliver" "client_inv R w (c\<lparr>inboundMsgs := l\<rparr>)" "session_of w (c\<lparr>inboundMsgs := l\<rparr>) = session_of w c"
    "j < length (cl_items l)" "msg_msgid (cl_items l ! j) = n" "inbound_ok (cl_items l ! j)" "0 \<le> n" "n < 65536"
  obtains rc c' w' where "release_message E a n j (c\<lparr>inboundMsgs := l\<rparr>) w = Some (rc, c', w')"
    "turn log deliver R w c ((session_of w c)\<lparr>unreleased := (unreleased (session_of w c))(n := None)\<rparr>,
       case awaited w (cl_items l ! j) of Some p \<Rightarrow> [p] | None \<Rightarrow> []) w' c'"
proof -
  let ?m = "cl_items l ! j"
  obtain rc nh s where sent: "MQTTPacket_send_ack (pe_transport E) (ack_MQTTVersion a) PUBCOMP n 0 (net c) (w_outer w) = Some (rc, nh, s)"
      "net_socket nh = net_socket (net c)" "log s = log (w_outer w)"
    by (rule send_ack_total [OF assms(1,7,8)])
  define found where "found = (case msg_publish ?m of NULL \<Rightarrow> None | p \<Rightarrow> publication_at w p)"
  have p: "\<exists>q. publication_at w (Ptr b) = Some (b, q)" if "msg_publish ?m = Ptr b" for b
    using inbound_publication [OF assms(2), of ?m b] that assms(4) by auto
  have f: "(if msg_publish ?m = NULL then Some None else map_option Some (publication_at w (msg_publish ?m))) = Some found"
    using p by (cases "msg_publish ?m") (auto simp: found_def)
  have g: "(case found of None \<Rightarrow> w0 | Some (a, q) \<Rightarrow> drop_publication a w0) = forget_publication (msg_publish ?m) w0" for w0 :: "'a world"
    using p by (cases "msg_publish ?m") (auto simp: found_def forget_publication_def)
  have k: "msg_publish ?m \<noteq> NULL \<Longrightarrow> found = publication_at w (msg_publish ?m)"
    by (cases "msg_publish ?m") (simp_all add: found_def)
  define c1 where "c1 = c\<lparr>inboundMsgs := l, net := nh\<rparr>"
  have c1: "c1\<lparr>inboundMsgs := l'\<rparr> = c\<lparr>net := nh, inboundMsgs := l'\<rparr>" for l' by (simp add: c1_def)
  define w2 where "w2 = (if 5 \<le> msg_MQTTVersion ?m then w\<lparr>w_outer := s\<rparr>
      else process_publication E (stored_publish ?m (map_option snd found)) c1 False (w\<lparr>w_outer := s\<rparr>))"
  obtain rc' s3 where rem: "pe_remove E c1
      (if 5 \<le> msg_MQTTVersion ?m then PERSISTENCE_V5_PUBLISH_RECEIVED else PERSISTENCE_PUBLISH_RECEIVED)
      (msg_qos ?m) n (w_outer w2) = (rc', s3)" by force
  define w3 where "w3 = forget_publication (msg_publish ?m) (w\<lparr>w_outer := s3\<rparr>)"
  have w2: "w2\<lparr>w_outer := s3\<rparr> = w\<lparr>w_outer := s3\<rparr>" by (simp add: w2_def process_publication_def)
  have rel: "release_message E a n j (c\<lparr>inboundMsgs := l\<rparr>) w = Some (rc + rc', c1\<lparr>inboundMsgs := remove_message j l\<rparr>,
      w3\<lparr>w_state := (w_state w3)\<lparr>msgs_received := msgs_received (w_state w3) + 1\<rparr>\<rparr>)"
    using sent(1) rem f w2 by (simp add: release_message_def Let_def MQTTPacket_send_pubcomp_def g w3_def c1
        c1_def [symmetric] w2_def [symmetric] del: bind_Some_iff cong: if_cong)
  have lg: "log s3 = fold (deliver (net_socket (net c))) (case awaited w ?m of Some p \<Rightarrow> [p] | None \<Rightarrow> []) (log (w_outer w))"
    using observing_log(3) [OF assms(1) rem] sent(2,3) assms(1,6) k
    by (auto simp: w2_def c1_def process_publication_def awaited_def inbound_ok_def observing_def)
  have i: "client_inv R (w\<lparr>w_outer := s3\<rparr>) (c\<lparr>inboundMsgs := l\<rparr>)"
    "session_of (w\<lparr>w_outer := s3\<rparr>) (c\<lparr>inboundMsgs := l\<rparr>) = session_of (w\<lparr>w_outer := s3\<rparr>) c" using assms(2,3) by simp_all
  note h = forget_inbound [OF i assms(4,5)]
  show thesis
    by (rule that [OF rel]) (use sent(2) h lg in \<open>simp add: turn_def w3_def c1_def\<close>)
qed

lemma handlePubrels_step:
  assumes "observing E log deliver" "ack_ok a" "find_client sock w0 = Some (i, c, w)" "client_inv R w c"
  shows "reacts log deliver R i w c (session_step (pe_noPendingWrites E sock (w_outer w)) (In_pubrel a) (session_of w c))
    (MQTTProtocol_handlePubrels E a sock w0)"
proof -
  obtain n where n: "ack_msgId a = Some n" "0 \<le> n" "n < 65536" using assms(2) by (auto simp: ack_ok_def)
  note h = MQTTProtocol_handlePubrels_def Let_def assms(3) n(1)
  from assms(4) show ?thesis
  proof (cases rule: find_inbound [of _ _ _ n, consumes 1])
    case (found j l)
    have m: "\<not> (msg_qos (cl_items l ! j) \<noteq> 2 \<or> msg_nextMessageType (cl_items l ! j) \<noteq> PUBREL)"
      using found(5) by (simp add: inbound_ok_def)
    show ?thesis
    proof (cases "pe_noPendingWrites E sock (w_outer w)")
      case False
      with found m n show ?thesis
        by (intro reacts_idle [OF _ found(6,7)]) (simp_all add: h receive_pubrel_def del: bind_Some_iff)
    next
      case True
      obtain rc c' w' where r: "release_message E a n j (c\<lparr>inboundMsgs := l\<rparr>) w = Some (rc, c', w')"
        "turn log deliver R w c ((session_of w c)\<lparr>unreleased := (unreleased (session_of w c))(n := None)\<rparr>,
           case awaited w (cl_items l ! j) of Some p \<Rightarrow> [p] | None \<Rightarrow> []) w' c'"
        by (rule release_turn [OF assms(1) found(6,7,2,3,5) n(2,3)])
      moreover have "session_step True (In_pubrel a) (session_of w c) =
          ((session_of w c)\<lparr>unreleased := (unreleased (session_of w c))(n := None)\<rparr>,
           case awaited w (cl_items l ! j) of Some p \<Rightarrow> [p] | None \<Rightarrow> [])"
        using found(4) n(1) by (auto simp: receive_pubrel_def split: option.splits)
      ultimately show ?thesis
        by (intro reacts_turn [where c' = c' and w' = w']) (use found(1) m True in \<open>simp_all add: h del: bind_Some_iff\<close>)
    qed
  next
    case missing
    then have s: "session_step b (In_pubrel a) (session_of w c) = (session_of w c, [])" for b
      using n(1) by (simp add: receive_pubrel_def fun_upd_idem)
    have id: "c\<lparr>inboundMsgs := inboundMsgs c\<rparr> = c" by simp
    consider "header_dup (ack_header a) = 0" | "header_dup (ack_header a) \<noteq> 0" "\<not> pe_noPendingWrites E sock (w_outer w)"
      | (answer) "\<not> (header_dup (ack_header a) = 0 \<or> \<not> pe_noPendingWrites E sock (w_outer w))" by blast
    then show ?thesis
    proof cases
      case 1
      with missing(1) s show ?thesis
        by (intro reacts_idle [OF _ assms(4) refl refl, where rc = TCPSOCKET_COMPLETE]) (simp_all add: h id del: bind_Some_iff)
    next
      case 2
      with missing(1) s show ?thesis
        by (intro reacts_idle [OF _ assms(4) refl refl, where rc = SOCKET_ERROR]) (simp_all add: h id del: bind_Some_iff)
    next
      case answer
      obtain rc nh s' where sent: "MQTTPacket_send_ack (pe_transport E) (ack_MQTTVersion a) PUBCOMP n 0 (net c) (w_outer w) = Some (rc, nh, s')"
          "net_socket nh = net_socket (net c)" "log s' = log (w_outer w)"
        by (rule send_ack_total [OF assms(1) n(2,3)])
      have "turn log deliver R w c (session_of w c, []) (w\<lparr>w_outer := s'\<rparr>) (c\<lparr>net := nh\<rparr>)"
        using assms(4) sent(2,3) by (simp add: turn_def)
      with answer missing(1) s sent(1) show ?thesis
        by (intro reacts_turn [where c' = "c\<lparr>net := nh\<rparr>" and w' = "w\<lparr>w_outer := s'\<rparr>"])
          (simp_all add: h id MQTTPacket_send_pubcomp_def del: bind_Some_iff)
    qed
  qed
qed


section \<open>PUBLISH\<close>

definition new_message :: "Publish \<Rightarrow> addr \<Rightarrow> Messages" where
  "new_message p a = \<lparr>msg_qos = header_qos (publish_header p), msg_retain = header_retain (publish_header p),
     msg_msgid = publish_msgId p, msg_MQTTVersion = publish_MQTTVersion p,
     msg_properties = (if 5 \<le> publish_MQTTVersion p then publish_properties p else MQTTProperties_initializer),
     msg_publish = Ptr a, msg_lastTouch = 0, msg_nextMessageType = PUBREL, msg_len = 0\<rparr>"

lemma new_message_simps [simp]:
  "msg_publish (new_message p a) = Ptr a" "msg_MQTTVersion (new_message p a) = publish_MQTTVersion p"
  "msg_msgid (new_message p a) = publish_msgId p" "msg_qos (new_message p a) = header_qos (publish_header p)"
  by (simp_all add: new_message_def)

definition new_publication :: "Publish \<Rightarrow> Publications" where
  "new_publication p = \<lparr>pub_topic = Some (publish_topic p), pub_topiclen = nat (publish_topiclen p),
     pub_payload = Some (publish_payload p), pub_payloadlen = nat (publish_payloadlen p),
     pub_refcount = 1, pub_mask = publish_mask p\<rparr>"

lemma stored_publish_new:
  assumes "publish_in_ok p"
  shows "stored_publish (new_message p a) (Some (new_publication p)) = kept p"
  using assms by (cases p) (simp add: stored_publish_def new_message_def new_publication_def kept_def publish_in_ok_def)

lemma received_message_new:
  assumes "pe_alloc E = always_alloc" "publish_in_ok p"
  shows "received_message E p (Ptr a) = Some (new_message p a)"
  using assms by (simp add: received_message_def new_message_def publish_in_ok_def del: bind_Some_iff)

lemma unreleased_of_insert:
  assumes "lookup l' = (lookup l)(n \<mapsto> m)" "a \<notin># refs_of l"
    "\<forall>b \<in># refs_of l'. b \<noteq> a \<longrightarrow> publication_at w' (Ptr b) = publication_at w (Ptr b)"
  shows "unreleased_of w' l' = (unreleased_of w l)(n \<mapsto> awaited w' m)"
proof
  fix k
  show "unreleased_of w' l' k = ((unreleased_of w l)(n \<mapsto> awaited w' m)) k"
  proof (cases "k = n \<or> lookup l k = None")
    case False
    then obtain m0 where m0: "lookup l k = Some m0" "lookup l' k = Some m0" using assms(1) by auto
    then have "ref (msg_publish m0) \<subseteq># refs_of l" "ref (msg_publish m0) \<subseteq># refs_of l'"
      by (auto intro!: refs_of_member lookup_in)
    then have "\<forall>b \<in># ref (msg_publish m0). publication_at w' (Ptr b) = publication_at w (Ptr b)"
      using assms(2,3) by (metis mset_subset_eqD)
    then show ?thesis using False m0 awaited_cong [of m0 w' w] by (simp add: unreleased_of_def)
  qed (use assms(1) in \<open>auto simp: unreleased_of_def\<close>)
qed

text \<open>The message in the list: the state after \<open>store_inbound\<close>.\<close>

lemma store_inbound_step:
  assumes "pe_alloc E = always_alloc" "client_inv R w c" "publish_in_ok p" "header_qos (publish_header p) = 2"
    "accounted (w_state w1) (add_mset a (client_refs c + R))"
    "publication_at w1 (Ptr a) = Some (a, new_publication p)" "a \<notin># client_refs c + R"
    "\<forall>b. b \<noteq> a \<longrightarrow> publication_at w1 (Ptr b) = publication_at w (Ptr b)"
    "w_clients w1 = w_clients w" "pending_writes (w_state w1) = pending_writes (w_state w)"
  defines "n \<equiv> publish_msgId p" and "m \<equiv> new_message p a"
  obtains l w2 where "store_inbound E m c w1 = Some (unreleased (session_of w c) n \<noteq> None, c\<lparr>inboundMsgs := l\<rparr>, w2)"
    "client_inv R w2 (c\<lparr>inboundMsgs := l\<rparr>)" "same_rest R w w2" "w_outer w2 = w_outer w1"
    "publication_at w2 (Ptr a) = Some (a, new_publication p)"
    "session_of w2 (c\<lparr>inboundMsgs := l\<rparr>) = (session_of w c)\<lparr>unreleased := (unreleased (session_of w c))(n \<mapsto> awaited w2 m)\<rparr>"
    "unreleased (session_of w c) n = None \<longrightarrow> cl_items l = cl_items (inboundMsgs c) @ [m]"
proof -
  have mm: "msg_msgid m = n" "msg_publish m = Ptr a" "inbound_ok m"
    using assms(4) by (simp_all add: m_def n_def new_message_def inbound_ok_def)
  from assms(2) show thesis
  proof (cases rule: find_inbound [of _ _ _ n, consumes 1])
    case (found j l)
    let ?l = "remove_message (Suc j) (cl_insert m j l)" and ?o = "cl_items l ! j"
    have ok: "list_ok l" using found(6) by (simp add: client_inv_def exchange_ok_def)
    have wf: "cl_wf ?l" using ok found(2) by (intro replace_message_wf) (simp_all add: list_ok_def)
    have i: "msg_msgid m = msg_msgid ?o" using found(3) mm by simp
    note u = set_message_ok [OF ok found(2) i replace_message_items [OF found(2)] wf]
    have ex: "exchange_ok (c\<lparr>inboundMsgs := ?l\<rparr>)"
      using found(6) u(1,4) mm(3) by (auto simp: client_inv_def exchange_ok_def)
    have same: "refs_of l = refs_of (inboundMsgs c)" "unreleased_of w l = unreleased_of w (inboundMsgs c)"
      using cl_find_Some [OF _ found(1)] assms(2) found(7)
      by (auto simp: client_inv_def exchange_ok_def list_ok_def session_of_def intro!: refs_of_cong)
    have "add_mset a (client_refs c + R) = ref (msg_publish ?o) + (refs_of ?l + refs_of (outboundMsgs c) + R)"
      using u(3) mm(2) same(1) by (simp add: client_refs_def)
    from accounted_remove [OF assms(5) [unfolded this]] obtain w2 where w2:
      "MQTTProtocol_removePublication (msg_publish ?o) w1 = Some w2"
      "accounted (w_state w2) (refs_of ?l + refs_of (outboundMsgs c) + R)"
      "\<forall>b \<in># refs_of ?l + refs_of (outboundMsgs c) + R. publication_at w2 (Ptr b) = publication_at w1 (Ptr b)"
      "w_clients w2 = w_clients w1" "w_outer w2 = w_outer w1" "pending_writes (w_state w2) = pending_writes (w_state w1)"
      by auto
    have "m \<in> set (cl_items ?l)"
      using found(2) replace_message_items [OF found(2), of m] by (simp add: set_update_memI)
    then have "a \<in># refs_of ?l" using refs_of_member [of m ?l] mm(2) by simp
    have w2w: "\<forall>b \<in># refs_of ?l + refs_of (outboundMsgs c) + R. b \<noteq> a \<longrightarrow> publication_at w2 (Ptr b) = publication_at w (Ptr b)"
      using w2(3) assms(8) by auto
    show thesis
    proof (rule that)
      show "store_inbound E m c w1 = Some (unreleased (session_of w c) n \<noteq> None, c\<lparr>inboundMsgs := ?l\<rparr>, w2)"
        using found(1,4) w2(1) mm(1) assms(1) by (simp add: store_inbound_def del: bind_Some_iff)
      show "client_inv R w2 (c\<lparr>inboundMsgs := ?l\<rparr>)"
        using ex w2(2) by (simp add: client_inv_def client_refs_def)
      show "same_rest R w w2" using w2w w2(4,6) assms(7,9,10) by (auto simp: same_rest_def)
      show "publication_at w2 (Ptr a) = Some (a, new_publication p)" using w2(3) assms(6) \<open>a \<in># refs_of ?l\<close> by simp
      have "unreleased_of w2 ?l = (unreleased_of w l)(n \<mapsto> awaited w2 m)"
        using u(2) mm(1) w2w assms(7) same(1) by (intro unreleased_of_insert) (auto simp: client_refs_def)
      then show "session_of w2 (c\<lparr>inboundMsgs := ?l\<rparr>) =
          (session_of w c)\<lparr>unreleased := (unreleased (session_of w c))(n \<mapsto> awaited w2 m)\<rparr>"
        using same(2) by (simp add: session_of_def)
    qed (use w2(5) found(4) in simp_all)
  next
    case missing
    let ?l = "cl_append m (inboundMsgs c)"
    have ok: "list_ok (inboundMsgs c)" using assms(2) by (simp add: client_inv_def exchange_ok_def)
    note u = append_message_ok [OF ok, of m, unfolded mm, OF missing(3)]
    have r: "client_refs (c\<lparr>inboundMsgs := ?l\<rparr>) + R = add_mset a (client_refs c + R)"
      using u(3) by (simp add: client_refs_def)
    show thesis
    proof (rule that)
      show "store_inbound E m c w1 = Some (unreleased (session_of w c) n \<noteq> None, c\<lparr>inboundMsgs := ?l\<rparr>, w1)"
        using missing(1,2) mm(1) assms(1) by (simp add: store_inbound_def)
      show "client_inv R w1 (c\<lparr>inboundMsgs := ?l\<rparr>)"
        using assms(2,5) u(1) mm(3) r by (simp add: client_inv_def exchange_ok_def)
      show "same_rest R w w1" using assms(7,8,9,10) by (auto simp: same_rest_def)
      have "unreleased_of w1 ?l = (unreleased_of w (inboundMsgs c))(n \<mapsto> awaited w1 m)"
        using u(2) assms(7,8) by (intro unreleased_of_insert) (auto simp: client_refs_def)
      then show "session_of w1 (c\<lparr>inboundMsgs := ?l\<rparr>) =
          (session_of w c)\<lparr>unreleased := (unreleased (session_of w c))(n \<mapsto> awaited w1 m)\<rparr>"
        by (simp add: session_of_def)
    qed (use assms(6) in simp_all)
  qed
qed


text \<open>Version 5: the publication is delivered and its message stays without it.\<close>

lemma hand_over:
  assumes "client_inv R w (c\<lparr>inboundMsgs := l\<rparr>)" "cl_items l = ms @ [m]" "msg_publish m = Ptr a" "5 \<le> msg_MQTTVersion m"
  defines "l' \<equiv> set_message (length (cl_items l) - 1) (m\<lparr>msg_publish := NULL\<rparr>) l" and "w' \<equiv> drop_publication a w"
  shows "client_inv R w' (c\<lparr>inboundMsgs := l'\<rparr>)" "same_rest R w w'" "w_outer w' = w_outer w"
    "session_of w' (c\<lparr>inboundMsgs := l'\<rparr>) = session_of w (c\<lparr>inboundMsgs := l\<rparr>)"
proof -
  let ?m = "m\<lparr>msg_publish := NULL\<rparr>"
  have ok: "list_ok l" "\<forall>x \<in> set (cl_items l). inbound_ok x" using assms(1) by (simp_all add: client_inv_def exchange_ok_def)
  have i: "cl_items l' = (cl_items l)[length (cl_items l) - 1 := ?m]" "cl_wf l'"
    "length (cl_items l) - 1 < length (cl_items l)" "cl_items l ! (length (cl_items l) - 1) = m" "msg_msgid ?m = msg_msgid m"
    using ok assms(2) by (auto simp: l'_def set_message_def list_ok_def cl_wf_def split: option.splits)
  note u = set_message_ok [OF ok(1) i(3), of ?m, unfolded i(4), OF i(5) i(1,2)]
  have m: "inbound_ok ?m" using ok(2) assms(2,4) by (simp add: inbound_ok_def)
  let ?rest = "refs_of l' + refs_of (outboundMsgs c) + R"
  have "refs_of l = add_mset a (refs_of l')" using assms(3) u(3) by simp
  then have "accounted (w_state w) (add_mset a ?rest)"
    using assms(1) by (simp add: client_inv_def client_refs_def)
  from accounted_drop [OF this] accounted_distinct [OF this]
  have w': "accounted (w_state w') ?rest" "\<forall>b \<in># ?rest. publication_at w' (Ptr b) = publication_at w (Ptr b)"
    "w_clients w' = w_clients w" "w_outer w' = w_outer w" "pending_writes (w_state w') = pending_writes (w_state w)"
    by (auto simp: w'_def)
  show "client_inv R w' (c\<lparr>inboundMsgs := l'\<rparr>)"
    using assms(1) w'(1) u(1,4) m by (auto simp: client_inv_def exchange_ok_def client_refs_def)
  show "same_rest R w w'" "w_outer w' = w_outer w" using w' by (simp_all add: same_rest_def)
  have "unreleased_of w' l' = unreleased_of w l'" using w'(2) by (intro unreleased_of_cong) auto
  also have "\<dots> = unreleased_of w l"
  proof -
    have "lookup l (msg_msgid m) = Some m"
      unfolding lookup_def using ok(1) assms(2)
      by (intro map_of_is_SomeI) (auto simp: list_ok_def comp_def intro: rev_image_eqI)
    then show ?thesis
      unfolding unreleased_of_def u(2) using assms(4) by (auto simp: fun_eq_iff awaited_def)
  qed
  finally show "session_of w' (c\<lparr>inboundMsgs := l'\<rparr>) = session_of w (c\<lparr>inboundMsgs := l\<rparr>)"
    by (simp add: session_of_def)
qed

lemma receive_qos2_turn:
  assumes "observing E log deliver" "client_inv R w c" "publish_in_ok p" "header_qos (publish_header p) = 2"
  obtains rc c' w' where "receive_qos2 E p c w = Some (rc, c', w')"
    "turn log deliver R w c (receive_publish True p (session_of w c)) w' c'"
proof -
  note al = observing_alloc [OF assms(1)]
  let ?n = "publish_msgId p" and ?ss = "session_of w c" and ?v5 = "5 \<le> publish_MQTTVersion p"
  have "accounted (w_state w) (client_refs c + R)" using assms(2) by (simp add: client_inv_def)
  from accounted_store [OF this al, of p] obtain a len w1 where st:
    "MQTTProtocol_storePublication E p w = (Ptr a, len, w1)" "accounted (w_state w1) (add_mset a (client_refs c + R))"
    "a \<notin># client_refs c + R" "publication_at w1 (Ptr a) = Some (a, new_publication p)"
    "\<forall>b. b \<noteq> a \<longrightarrow> publication_at w1 (Ptr b) = publication_at w (Ptr b)"
    "w_clients w1 = w_clients w" "w_outer w1 = w_outer w" "pending_writes (w_state w1) = pending_writes (w_state w)"
    by (auto simp: new_publication_def)
  let ?m = "new_message p a"
  obtain l w2 where si: "store_inbound E ?m c w1 = Some (unreleased ?ss ?n \<noteq> None, c\<lparr>inboundMsgs := l\<rparr>, w2)"
    "client_inv R w2 (c\<lparr>inboundMsgs := l\<rparr>)" "same_rest R w w2" "w_outer w2 = w_outer w1"
    "publication_at w2 (Ptr a) = Some (a, new_publication p)"
    "session_of w2 (c\<lparr>inboundMsgs := l\<rparr>) = ?ss\<lparr>unreleased := (unreleased ?ss)(?n \<mapsto> awaited w2 ?m)\<rparr>"
    "unreleased ?ss ?n = None \<longrightarrow> cl_items l = cl_items (inboundMsgs c) @ [?m]"
    by (rule store_inbound_step [OF al assms(2,3,4) st(2,4,3,5,6,8)])
  have aw: "awaited w2 ?m = (if ?v5 then None else Some (kept p))"
    using si(5) stored_publish_new [OF assms(3), of a] by (simp add: awaited_def)
  have n: "0 \<le> ?n" "?n < 65536" using assms(3) by (simp_all add: publish_in_ok_def)
  obtain rc nh s where sent: "MQTTPacket_send_ack (pe_transport E) (publish_MQTTVersion p) PUBREC ?n 0 (net c) (w_outer w2) = Some (rc, nh, s)"
      "net_socket nh = net_socket (net c)" "log s = log (w_outer w2)"
    by (rule send_ack_total [OF assms(1) n])
  let ?c = "c\<lparr>inboundMsgs := l, net := nh\<rparr>" and ?w = "w2\<lparr>w_outer := s\<rparr>"
  have lg: "log s = log (w_outer w)" using sent(3) si(4) st(7) by simp
  have q: "receive_qos2 E p c w = (if ?v5 \<and> unreleased ?ss ?n = None
      then Some (rc, ?c\<lparr>inboundMsgs := set_message (length (cl_items l) - 1) (?m\<lparr>msg_publish := NULL\<rparr>) l\<rparr>,
        drop_publication a (process_publication E (kept p) ?c True ?w))
      else Some (rc, ?c, ?w))"
    using al st(1) received_message_new [OF al assms(3), of a] si(1,5) sent(1) stored_publish_new [OF assms(3), of a]
    by (simp add: receive_qos2_def Let_def MQTTPacket_send_pubrec_def del: bind_Some_iff cong: if_cong)
  show thesis
  proof (cases "?v5 \<and> unreleased ?ss ?n = None")
    case False
    have r: "receive_publish True p ?ss = (?ss\<lparr>unreleased := (unreleased ?ss)(?n \<mapsto> awaited w2 ?m)\<rparr>, [])"
      using False assms(4) aw by (auto simp: receive_publish_def Let_def)
    show thesis
    proof (rule that)
      show "receive_qos2 E p c w = Some (rc, ?c, ?w)" using q False by (simp only: if_False)
      show "turn log deliver R w c (receive_publish True p ?ss) ?w ?c"
        using si(2,3,6) sent(2) lg by (simp add: turn_def r)
    qed
  next
    case True
    let ?l = "set_message (length (cl_items l) - 1) (?m\<lparr>msg_publish := NULL\<rparr>) l"
    let ?s = "pe_process E (kept p) ?c True s"
    have r: "receive_publish True p ?ss = (?ss\<lparr>unreleased := (unreleased ?ss)(?n \<mapsto> None)\<rparr>, [kept p])"
      using True assms(4) by (simp add: receive_publish_def Let_def)
    have "client_inv R (w2\<lparr>w_outer := ?s\<rparr>) (c\<lparr>inboundMsgs := l\<rparr>)" using si(2) by simp
    note h = hand_over [OF this mp [OF si(7) conjunct2 [OF True]], of a]
    have l: "log ?s = deliver (net_socket (net c)) (kept p) (log (w_outer w))" using assms(1) lg sent(2) by (simp add: observing_def)
    show thesis
    proof (rule that)
      show "receive_qos2 E p c w = Some (rc, ?c\<lparr>inboundMsgs := ?l\<rparr>, drop_publication a (w2\<lparr>w_outer := ?s\<rparr>))"
        unfolding q if_P [OF True] by (simp add: process_publication_def)
      show "turn log deliver R w c (receive_publish True p ?ss) (drop_publication a (w2\<lparr>w_outer := ?s\<rparr>)) (?c\<lparr>inboundMsgs := ?l\<rparr>)"
        using h True si(3,6) sent(2) l aw by (simp add: turn_def r same_rest_def)
    qed
  qed
qed


lemma set_client_same: "cl_items (w_clients w) ! i = c \<Longrightarrow> set_client i c w = w"
  by (auto simp: set_client_def)

lemma handlePublishes_step:
  assumes "observing E log deliver" "publish_in_ok p" "find_client sock w0 = Some (i, c, w)" "client_inv R w c"
    "cl_items (w_clients w) ! i = c"
  shows "reacts log deliver R i w c (session_step (pe_noPendingWrites E sock (w_outer w)) (In_publish p) (session_of w c))
    (MQTTProtocol_handlePublishes E p sock w0)"
proof -
  note h = MQTTProtocol_handlePublishes_def Let_def assms(3)
  have d: "turn log deliver R w c (session_of w c, [p]) (process_publication E p c' True (w\<lparr>w_outer := s\<rparr>)) c'"
    if "c' = c\<lparr>net := nh\<rparr>" "net_socket nh = net_socket (net c)" "log s = log (w_outer w)" for c' nh s
    using that assms(1,4) by (simp add: turn_def process_publication_def observing_def)
  consider "header_qos (publish_header p) = 0"
    | (blocked) "header_qos (publish_header p) \<noteq> 0" "\<not> pe_noPendingWrites E sock (w_outer w)"
    | (one) "header_qos (publish_header p) = 1" "pe_noPendingWrites E sock (w_outer w)"
    | (two) "header_qos (publish_header p) = 2" "pe_noPendingWrites E sock (w_outer w)"
    | (three) "header_qos (publish_header p) \<notin> {0, 1, 2}" "pe_noPendingWrites E sock (w_outer w)" by auto
  then show ?thesis
  proof cases
    case 1
    have w: "set_client i c (process_publication E p c True w) = process_publication E p c True w"
      by (rule set_client_same) (simp add: process_publication_def assms(5))
    have "turn log deliver R w c (session_of w c, [p]) (process_publication E p c True w) c"
      using d [of c "net c" "w_outer w"] by simp
    then show ?thesis
      by (intro reacts_turn [where c' = c and w' = "process_publication E p c True w"]) (simp_all add: h 1 w receive_publish_def)
  next
    case blocked
    then show ?thesis
      by (intro reacts_idle [OF _ assms(4) refl refl, where rc = SOCKET_ERROR])
        (simp_all add: h receive_publish_def set_client_same [OF assms(5)])
  next
    case one
    have "0 \<le> publish_msgId p" "publish_msgId p < 65536" using assms(2) by (simp_all add: publish_in_ok_def)
    then obtain rc nh s where sent: "MQTTPacket_send_ack (pe_transport E) (publish_MQTTVersion p) PUBACK (publish_msgId p) 0 (net c) (w_outer w) = Some (rc, nh, s)"
        "net_socket nh = net_socket (net c)" "log s = log (w_outer w)"
      by (rule send_ack_total [OF assms(1)])
    have "turn log deliver R w c (session_of w c, [p])
        (process_publication E p (c\<lparr>net := nh\<rparr>) True (w\<lparr>w_outer := s\<rparr>)) (c\<lparr>net := nh\<rparr>)"
      by (rule d [OF refl sent(2,3)])
    moreover have "set_client i (c\<lparr>net := nh\<rparr>) (process_publication E p (c\<lparr>net := nh\<rparr>) True (w\<lparr>w_outer := s\<rparr>)) =
        process_publication E p (c\<lparr>net := nh\<rparr>) True (set_client i (c\<lparr>net := nh\<rparr>) (w\<lparr>w_outer := s\<rparr>))"
      by (simp add: process_publication_def set_client_def)
    ultimately show ?thesis
      using one sent(1) by (intro reacts_turn [where c' = "c\<lparr>net := nh\<rparr>" and
            w' = "process_publication E p (c\<lparr>net := nh\<rparr>) True (w\<lparr>w_outer := s\<rparr>)"])
        (simp_all add: h receive_publish_def MQTTPacket_send_puback_def)
  next
    case two
    obtain rc c' w' where r: "receive_qos2 E p c w = Some (rc, c', w')"
      "turn log deliver R w c (receive_publish True p (session_of w c)) w' c'"
      by (rule receive_qos2_turn [OF assms(1,4,2) two(1)])
    then show ?thesis
      by (intro reacts_turn [where c' = c' and w' = w']) (simp_all add: h two del: bind_Some_iff)
  next
    case three
    then show ?thesis
      by (intro reacts_idle [OF _ assms(4) refl refl, where rc = TCPSOCKET_COMPLETE])
        (simp_all add: h receive_publish_def set_client_same [OF assms(5)])
  qed
qed

end
