(* ===== verification/Sessions.thy ===== *)
theory Sessions
  imports Exchanges
begin

text \<open>
  All clients together.  \<open>sessions_ok\<close> is the invariant of the program's state under incoming packets,
  \<open>session_at\<close> reads it as a map from sockets to abstract sessions, and \<open>handle_all\<close> is a run over packets
  that arrive on any of the sockets.  The properties follow from the abstract runs.
\<close>

section \<open>The table of clients\<close>

definition world_refs :: "'s world \<Rightarrow> addr multiset" where
  "world_refs w = sum_list (map client_refs (cl_items (w_clients w))) + mset (map pw_p (pending_writes (w_state w)))"

definition sessions_ok :: "'s world \<Rightarrow> bool" where
  "sessions_ok w \<longleftrightarrow> cl_wf (w_clients w) \<and> distinct (map (\<lambda>c. net_socket (net c)) (cl_items (w_clients w))) \<and>
     (\<forall>c \<in> set (cl_items (w_clients w)). exchange_ok c) \<and> accounted (w_state w) (world_refs w)"

definition clients_at :: "'s world \<Rightarrow> int \<rightharpoonup> Clients" where
  "clients_at w = map_of (map (\<lambda>c. (net_socket (net c), c)) (cl_items (w_clients w)))"

definition session_at :: "'s world \<Rightarrow> int \<rightharpoonup> session" where
  "session_at w sock = map_option (session_of w) (clients_at w sock)"

definition others :: "nat \<Rightarrow> 's world \<Rightarrow> addr multiset" where
  "others i w = sum_list (map client_refs (take i (cl_items (w_clients w)) @ drop (Suc i) (cl_items (w_clients w)))) +
     mset (map pw_p (pending_writes (w_state w)))"

lemma world_refs_split:
  assumes "i < length (cl_items (w_clients w))"
  shows "world_refs w = client_refs (cl_items (w_clients w) ! i) + others i w"
proof -
  let ?l = "cl_items (w_clients w)"
  have "?l = take i ?l @ ?l ! i # drop (Suc i) ?l" by (rule id_take_nth_drop [OF assms])
  then have "sum_list (map client_refs ?l) = sum_list (map client_refs (take i ?l @ ?l ! i # drop (Suc i) ?l))" by simp
  then show ?thesis by (simp add: world_refs_def others_def ac_simps)
qed

lemma find_client_ok:
  assumes "sessions_ok w" "clients_at w sock = Some c"
  obtains i w1 where "find_client sock w = Some (i, c, w1)" "i < length (cl_items (w_clients w))"
    "cl_items (w_clients w) ! i = c" "net_socket (net c) = sock" "cl_items (w_clients w1) = cl_items (w_clients w)"
    "cl_wf (w_clients w1)" "w_state w1 = w_state w" "w_outer w1 = w_outer w" "client_inv (others i w) w1 c"
    "session_of w1 = session_of w"
proof -
  let ?P = "\<lambda>c. clientSocketCompare c sock" and ?l = "w_clients w"
  have wf: "cl_wf ?l" "distinct (map (\<lambda>c. net_socket (net c)) (cl_items ?l))" using assms(1) by (simp_all add: sessions_ok_def)
  have c: "c \<in> set (cl_items ?l)" "net_socket (net c) = sock"
    using assms(2) by (auto simp: clients_at_def dest!: map_of_SomeD)
  then have "fst (cl_find ?P ?l) \<noteq> None"
    unfolding cl_find_found_iff [OF wf(1)] by (auto simp: clientSocketCompare_def)
  then obtain i l' where f: "cl_find ?P ?l = (Some i, l')" by (metis option.exhaust prod.collapse)
  note s = cl_find_Some [OF wf(1) f]
  have "net_socket (net (cl_items ?l ! i)) = sock" using s(2) by (simp add: clientSocketCompare_def)
  then have i: "cl_items ?l ! i = c"
  proof -
    obtain k where k: "k < length (cl_items ?l)" "cl_items ?l ! k = c" using c(1) by (auto simp: in_set_conv_nth)
    have "k = i"
      using nth_eq_iff_index_eq [OF wf(2), of k i] k s(1) c(2) \<open>net_socket (net (cl_items ?l ! i)) = sock\<close> by simp
    then show ?thesis using k by simp
  qed
  have p: "publication_at (w\<lparr>w_clients := l'\<rparr>) = publication_at w"
    by (simp add: fun_eq_iff publication_at_def split: ptr.split)
  have a: "awaited (w\<lparr>w_clients := l'\<rparr>) = awaited w" by (simp add: fun_eq_iff awaited_def p)
  show thesis
  proof (rule that)
    show "find_client sock w = Some (i, c, w\<lparr>w_clients := l'\<rparr>)"
      using f s i by (simp add: find_client_def)
    show "cl_wf (w_clients (w\<lparr>w_clients := l'\<rparr>))" using cl_wf_find [OF wf(1), of ?P] f by simp
    show "client_inv (others i w) (w\<lparr>w_clients := l'\<rparr>) c"
      using assms(1) c(1) world_refs_split [OF s(1)] i by (simp add: client_inv_def sessions_ok_def)
    show "session_of (w\<lparr>w_clients := l'\<rparr>) = session_of w"
      by (intro ext) (simp add: session_of_def unreleased_of_def a)
  qed (use s i c in simp_all)
qed

text \<open>Putting a client back after its turn.\<close>

lemma put_back:
  assumes "sessions_ok w" "i < length (cl_items (w_clients w))" "cl_items (w_clients w) ! i = c"
    "cl_items (w_clients w1) = cl_items (w_clients w)" "cl_wf (w_clients w1)" "w_state w1 = w_state w"
    "client_inv (others i w) w2 c'" "same_rest (others i w) w1 w2" "net_socket (net c') = net_socket (net c)"
  shows "sessions_ok (set_client i c' w2)"
    "session_at (set_client i c' w2) = (session_at w)(net_socket (net c) \<mapsto> session_of w2 c')"
proof -
  let ?l = "cl_items (w_clients w)"
  have l: "cl_items (w_clients (set_client i c' w2)) = ?l[i := c']" "w_state (set_client i c' w2) = w_state w2"
    using assms(4,8) by (simp_all add: set_client_def same_rest_def)
  have so: "map (\<lambda>c. net_socket (net c)) (?l[i := c']) = map (\<lambda>c. net_socket (net c)) ?l"
    using assms(2,3,9) by (simp add: map_update list_update_id list_update_same_conv)
  have o: "others i (set_client i c' w2) = others i w"
    using assms(6,8) by (simp add: others_def l same_rest_def)
  have "world_refs (set_client i c' w2) = client_refs c' + others i w"
    using world_refs_split [of i "set_client i c' w2"] assms(2) by (simp add: l o)
  moreover have "\<forall>c \<in> set (?l[i := c']). exchange_ok c"
    using assms(1,7) set_update_subset_insert [of ?l i c'] by (auto simp: sessions_ok_def client_inv_def)
  moreover have "cl_wf (w_clients (set_client i c' w2))"
    using assms(5,8) by (auto simp: set_client_def same_rest_def cl_wf_def split: option.splits)
  ultimately show "sessions_ok (set_client i c' w2)"
    using assms(1,7) so by (simp add: sessions_ok_def l client_inv_def)
  have so2: "session_of (set_client i c' w2) = session_of w2"
  proof -
    have "publication_at (set_client i c' w2) = publication_at w2"
      by (simp add: fun_eq_iff publication_at_def set_client_def split: ptr.split)
    then have "awaited (set_client i c' w2) = awaited w2" by (simp add: fun_eq_iff awaited_def)
    then show ?thesis by (intro ext) (simp add: session_of_def unreleased_of_def)
  qed
  have u: "session_of w2 d = session_of w d" if "d \<in> set ?l" "net_socket (net d) \<noteq> net_socket (net c)" for d
  proof -
    have "d \<in> set (take i ?l @ drop (Suc i) ?l)"
      using that id_take_nth_drop [OF assms(2)] assms(3) by (metis Un_iff set_ConsD set_append)
    then have "client_refs d \<subseteq># others i w"
      unfolding others_def by (auto dest!: split_list)
    then have "\<forall>b \<in># refs_of (inboundMsgs d). publication_at w2 (Ptr b) = publication_at w (Ptr b)"
      using assms(6,8) by (auto simp: client_refs_def same_rest_def publication_at_def dest: mset_subset_eqD)
    then show ?thesis by (simp add: session_of_def unreleased_of_cong)
  qed
  show "session_at (set_client i c' w2) = (session_at w)(net_socket (net c) \<mapsto> session_of w2 c')"
  proof
    fix sock
    let ?f = "\<lambda>l. map_of (map (\<lambda>c. (net_socket (net c), c)) l)"
    have "?l[i := c'] = take i ?l @ c' # drop (Suc i) ?l" using assms(2) by (simp add: upd_conv_take_nth_drop)
    moreover have "?l = take i ?l @ c # drop (Suc i) ?l" using id_take_nth_drop [OF assms(2)] assms(3) by simp
    moreover have "distinct (map (\<lambda>c. net_socket (net c)) ?l)" using assms(1) by (simp add: sessions_ok_def)
    ultimately have "?f (?l[i := c']) = (?f ?l)(net_socket (net c) \<mapsto> c')"
      using keyed_split(2) [of "\<lambda>c. net_socket (net c)" "take i ?l" c "drop (Suc i) ?l" c'] assms(9) by argo
    then show "session_at (set_client i c' w2) sock = ((session_at w)(net_socket (net c) \<mapsto> session_of w2 c')) sock"
      using u by (auto simp: session_at_def clients_at_def l so2 intro!: option.map_cong dest!: map_of_SomeD)
  qed
qed


section \<open>Packets and runs\<close>

fun handle :: "'s protocol_env \<Rightarrow> packet_in \<Rightarrow> int \<Rightarrow> 's world \<Rightarrow> (int \<times> 's world) ub" where
  "handle E (In_publish p) sock w = MQTTProtocol_handlePublishes E p sock w"
| "handle E (In_puback a) sock w = MQTTProtocol_handlePubacks E a sock w"
| "handle E (In_pubrec a) sock w = MQTTProtocol_handlePubrecs E a sock w"
| "handle E (In_pubrel a) sock w = MQTTProtocol_handlePubrels E a sock w"
| "handle E (In_pubcomp a) sock w = MQTTProtocol_handlePubcomps E a sock w"

lemma handle_reacts:
  assumes "observing E log deliver" "packet_ok pkt" "find_client sock w0 = Some (i, c, w)" "client_inv R w c"
    "cl_items (w_clients w) ! i = c"
  shows "reacts log deliver R i w c (session_step (pe_noPendingWrites E sock (w_outer w)) pkt (session_of w c)) (handle E pkt sock w0)"
proof (cases pkt)
  case (In_publish p)
  with assms handlePublishes_step [OF assms(1) _ assms(3,4,5), of p] show ?thesis by simp
next
  case (In_puback a)
  with assms handlePubacks_step [OF assms(1) _ assms(3,4), of a] show ?thesis by simp
next
  case (In_pubrec a)
  with assms handlePubrecs_step [OF assms(1) _ assms(3,4), of a] show ?thesis by simp
next
  case (In_pubrel a)
  with assms handlePubrels_step [OF assms(1) _ assms(3,4), of a] show ?thesis by simp
next
  case (In_pubcomp a)
  with assms handlePubcomps_step [OF assms(1) _ assms(3,4), of a] show ?thesis by simp
qed

lemma handle_ok:
  assumes "observing E log deliver" "packet_ok pkt" "sessions_ok w" "session_at w sock = Some ss"
    "session_step (pe_noPendingWrites E sock (w_outer w)) pkt ss = (ss', ds)"
  obtains rc w' where "handle E pkt sock w = Some (rc, w')" "sessions_ok w'" "session_at w' = (session_at w)(sock \<mapsto> ss')"
    "log (w_outer w') = fold (deliver sock) ds (log (w_outer w))"
proof -
  obtain c where c: "clients_at w sock = Some c" "session_of w c = ss" using assms(4) by (auto simp: session_at_def)
  obtain i w1 where f: "find_client sock w = Some (i, c, w1)" "i < length (cl_items (w_clients w))"
    "cl_items (w_clients w) ! i = c" "net_socket (net c) = sock" "cl_items (w_clients w1) = cl_items (w_clients w)"
    "cl_wf (w_clients w1)" "w_state w1 = w_state w" "w_outer w1 = w_outer w" "client_inv (others i w) w1 c"
    "session_of w1 = session_of w"
    by (rule find_client_ok [OF assms(3) c(1)])
  have "reacts log deliver (others i w) i w1 c (ss', ds) (handle E pkt sock w)"
    using handle_reacts [OF assms(1,2) f(1,9)] f(3,5,8,10) c(2) assms(5) by simp
  then obtain rc c' w2 where h: "handle E pkt sock w = Some (rc, set_client i c' w2)" "client_inv (others i w) w2 c'"
    "same_rest (others i w) w1 w2" "net_socket (net c') = net_socket (net c)" "session_of w2 c' = ss'"
    "log (w_outer w2) = fold (deliver sock) ds (log (w_outer w))"
    using f(4,8) by (auto simp: reacts_def turn_def)
  note b = put_back [OF assms(3) f(2,3,5,6,7) h(2,3,4)]
  show thesis
    by (rule that [OF h(1) b(1)]) (use b(2) f(4) h(5,6) in \<open>simp_all add: set_client_def\<close>)
qed

text \<open>A run: packets in the order they arrive, each with its socket.\<close>

fun handle_all :: "'s protocol_env \<Rightarrow> (int \<times> packet_in) list \<Rightarrow> 's world \<Rightarrow> 's world ub" where
  "handle_all E [] w = Some w"
| "handle_all E ((sock, pkt) # events) w =
     do { (rc, w) \<leftarrow> handle E pkt sock w; handle_all E events w }"

inductive session_run :: "bool set \<Rightarrow> session \<Rightarrow> packet_in list \<Rightarrow> session \<Rightarrow> Publish list \<Rightarrow> bool" for B where
  run_Nil: "session_run B ss [] ss []"
| run_Cons: "b \<in> B \<Longrightarrow> session_step b pkt ss = (ss1, ds) \<Longrightarrow> session_run B ss1 pkts ss2 es \<Longrightarrow>
    session_run B ss (pkt # pkts) ss2 (ds @ es)"

inductive_cases session_run_NilE [elim!]: "session_run B ss [] ss' ds"
inductive_cases session_run_ConsE [elim!]: "session_run B ss (pkt # pkts) ss' ds"

definition packets_of :: "int \<Rightarrow> (int \<times> packet_in) list \<Rightarrow> packet_in list" where
  "packets_of sock events = map snd (filter (\<lambda>e. fst e = sock) events)"

definition deliveries_of :: "int \<Rightarrow> (int \<times> Publish) list \<Rightarrow> Publish list" where
  "deliveries_of sock l = map snd (filter (\<lambda>e. fst e = sock) l)"

abbreviation (input) record_delivery :: "int \<Rightarrow> Publish \<Rightarrow> (int \<times> Publish) list \<Rightarrow> (int \<times> Publish) list" where
  "record_delivery sock p l \<equiv> l @ [(sock, p)]"

lemma fold_record: "fold (record_delivery sock) ds l = l @ map (Pair sock) ds"
  by (induction ds arbitrary: l) auto

lemma packets_of_simps [simp]:
  "packets_of sock [] = []"
  "packets_of sock ((s, pkt) # events) = (if s = sock then pkt # packets_of sock events else packets_of sock events)"
  by (simp_all add: packets_of_def)

lemma deliveries_of_simps [simp]:
  "deliveries_of sock (l @ l') = deliveries_of sock l @ deliveries_of sock l'"
  "deliveries_of sock (map (Pair s) ds) = (if s = sock then ds else [])"
  by (simp_all add: deliveries_of_def filter_map comp_def)

lemma handle_all_ok:
  assumes "observing E log record_delivery" "\<forall>(sock, pkt) \<in> set events. packet_ok pkt \<and> sock \<in> dom (session_at w)" "sessions_ok w"
  shows "\<exists>w'. handle_all E events w = Some w' \<and> sessions_ok w' \<and> dom (session_at w') = dom (session_at w) \<and>
    (\<forall>sock ss. session_at w sock = Some ss \<longrightarrow> (\<exists>ss' ds. session_at w' sock = Some ss' \<and>
       session_run (range (pe_noPendingWrites E sock)) ss (packets_of sock events) ss' ds \<and>
       deliveries_of sock (log (w_outer w')) = deliveries_of sock (log (w_outer w)) @ ds))"
  using assms(2,3)
proof (induction events arbitrary: w)
  case Nil
  then show ?case by (auto intro: run_Nil)
next
  case (Cons e events)
  obtain sock pkt where e: "e = (sock, pkt)" by force
  obtain ss where ss: "session_at w sock = Some ss" "packet_ok pkt" using Cons.prems(1) e by auto
  obtain ss1 ds where st: "session_step (pe_noPendingWrites E sock (w_outer w)) pkt ss = (ss1, ds)" by force
  obtain rc w1 where h: "handle E pkt sock w = Some (rc, w1)" "sessions_ok w1" "session_at w1 = (session_at w)(sock \<mapsto> ss1)"
    "log (w_outer w1) = fold (record_delivery sock) ds (log (w_outer w))"
    by (rule handle_ok [OF assms(1) ss(2) Cons.prems(2) ss(1) st])
  have d: "dom (session_at w1) = dom (session_at w)" using h(3) ss(1) by auto
  have "\<forall>(sock, pkt) \<in> set events. packet_ok pkt \<and> sock \<in> dom (session_at w1)" using Cons.prems(1) d by auto
  from Cons.IH [OF this h(2)] obtain w' where w': "handle_all E events w1 = Some w'" "sessions_ok w'"
    "dom (session_at w') = dom (session_at w1)"
    "\<And>sock ss. session_at w1 sock = Some ss \<Longrightarrow> \<exists>ss' ds. session_at w' sock = Some ss' \<and>
       session_run (range (pe_noPendingWrites E sock)) ss (packets_of sock events) ss' ds \<and>
       deliveries_of sock (log (w_outer w')) = deliveries_of sock (log (w_outer w1)) @ ds" by blast
  have "\<exists>ss' ds. session_at w' s = Some ss' \<and>
       session_run (range (pe_noPendingWrites E s)) ss0 (packets_of s (e # events)) ss' ds \<and>
       deliveries_of s (log (w_outer w')) = deliveries_of s (log (w_outer w)) @ ds" if s: "session_at w s = Some ss0" for s ss0
  proof (cases "s = sock")
    case True
    from w'(4) [of s ss1] h(3) True obtain ss' es where r: "session_at w' s = Some ss'"
      "session_run (range (pe_noPendingWrites E s)) ss1 (packets_of s events) ss' es"
      "deliveries_of s (log (w_outer w')) = deliveries_of s (log (w_outer w1)) @ es" by auto
    have "session_run (range (pe_noPendingWrites E s)) ss0 (packets_of s (e # events)) ss' (ds @ es)"
      using r(2) st s ss(1) True e by (auto intro: run_Cons)
    then show ?thesis using r h(4) True by (auto simp: fold_record)
  next
    case False
    with w'(4) [of s ss0] h(3,4) s e show ?thesis by (auto simp: fold_record)
  qed
  then show ?case using w' h(1) e d by (auto simp del: bind_Some_iff)
qed


section \<open>One identifier in a run\<close>

text \<open>\<open>concerns n\<close>: the packets of the QoS 2 exchange with identifier \<open>n\<close>; \<open>got n\<close>: its deliveries.\<close>

fun concerns :: "int \<Rightarrow> packet_in \<Rightarrow> bool" where
  "concerns n (In_publish p) \<longleftrightarrow> header_qos (publish_header p) = 2 \<and> publish_msgId p = n"
| "concerns n (In_pubrel a) \<longleftrightarrow> the (ack_msgId a) = n"
| "concerns n _ \<longleftrightarrow> False"

definition got :: "int \<Rightarrow> Publish list \<Rightarrow> Publish list" where
  "got n ds = filter (\<lambda>p. concerns n (In_publish p)) ds"

definition keyed :: "session \<Rightarrow> bool" where
  "keyed ss \<longleftrightarrow> (\<forall>k p. unreleased ss k = Some (Some p) \<longrightarrow> concerns k (In_publish p))"

lemma got_simps [simp]: "got n [] = []" "got n (ds @ es) = got n ds @ got n es"
  by (simp_all add: got_def)

lemma kept_simps [simp]:
  "publish_msgId (kept p) = publish_msgId p"
  "header_qos (publish_header p) = 2 \<Longrightarrow> header_qos (publish_header (kept p)) = 2"
  by (simp_all add: kept_def)

lemma step_keyed: "session_step b pkt ss = (ss1, ds) \<Longrightarrow> keyed ss \<Longrightarrow> keyed ss1"
  by (cases pkt) (auto simp: keyed_def receive_publish_def receive_ack_def receive_pubrel_def Let_def split: if_splits)

lemma step_other:
  assumes "session_step b pkt ss = (ss1, ds)" "keyed ss" "\<not> concerns n pkt"
  shows "unreleased ss1 n = unreleased ss n" "got n ds = []"
  using assms by (cases pkt; auto simp: keyed_def got_def receive_publish_def receive_ack_def receive_pubrel_def Let_def
      split: if_splits option.splits)+

lemma step_concerns:
  assumes "session_step b pkt ss = (ss1, ds)" "keyed ss" "concerns n pkt" "unreleased ss' n = unreleased ss n"
  shows "\<exists>ss1'. session_step b pkt ss' = (ss1', ds) \<and> unreleased ss1' n = unreleased ss1 n" "got n ds = ds"
  using assms by (cases pkt; auto simp: keyed_def got_def receive_publish_def receive_ack_def receive_pubrel_def Let_def
      split: if_splits option.splits)+

text \<open>Only the packets that concern the identifier matter.\<close>

lemma run_projection:
  assumes "session_run B ss pkts ss1 ds" "keyed ss" "unreleased ss' n = unreleased ss n"
  shows "\<exists>ss1'. session_run B ss' (filter (concerns n) pkts) ss1' (got n ds) \<and> unreleased ss1' n = unreleased ss1 n"
  using assms
proof (induction arbitrary: ss' rule: session_run.induct)
  case (run_Nil ss)
  then show ?case by (auto intro: session_run.run_Nil)
next
  case (run_Cons b pkt ss ss1 ds pkts ss2 es)
  have k: "keyed ss1" by (rule step_keyed [OF run_Cons.hyps(2) run_Cons.prems(1)])
  show ?case
  proof (cases "concerns n pkt")
    case True
    note c = step_concerns [OF run_Cons.hyps(2) run_Cons.prems(1) True run_Cons.prems(2)]
    then obtain ss1' where s: "session_step b pkt ss' = (ss1', ds)" "unreleased ss1' n = unreleased ss1 n" by blast
    from run_Cons.IH [OF k s(2)] obtain ss2' where
      "session_run B ss1' (filter (concerns n) pkts) ss2' (got n es)" "unreleased ss2' n = unreleased ss2 n" by blast
    with run_Cons.hyps(1) s c(2) True show ?thesis by (auto intro!: exI [of _ ss2'] session_run.run_Cons)
  next
    case False
    note o = step_other [OF run_Cons.hyps(2) run_Cons.prems(1) False]
    have "unreleased ss' n = unreleased ss1 n" using o(1) run_Cons.prems(2) by simp
    from run_Cons.IH [OF k this] o(2) False show ?thesis by simp
  qed
qed

lemma run_append:
  assumes "session_run B ss (xs @ ys) ss2 ds"
  obtains ss1 ds1 ds2 where "session_run B ss xs ss1 ds1" "session_run B ss1 ys ss2 ds2" "ds = ds1 @ ds2"
  using assms
proof (induction xs arbitrary: ss ds thesis)
  case Nil
  then show ?case using run_Nil [of B ss] by auto
next
  case (Cons x xs)
  from Cons.prems(2) obtain b ss1 d e where s: "b \<in> B" "session_step b x ss = (ss1, d)"
    "session_run B ss1 (xs @ ys) ss2 e" "ds = d @ e" by auto
  obtain ss' e1 e2 where r: "session_run B ss1 xs ss' e1" "session_run B ss' ys ss2 e2" "e = e1 @ e2"
    by (rule Cons.IH [OF _ s(3)])
  show ?case by (rule Cons.prems(1) [of ss' "d @ e1" e2]) (use run_Cons [OF s(1,2) r(1)] r s(4) in auto)
qed

text \<open>Repeated publications: the last one is kept below version 5, with version 5 the first is delivered.\<close>

lemma run_publishes_v3:
  assumes "session_run B ss (map In_publish ps) ss1 ds" "\<forall>p \<in> set ps. concerns n (In_publish p) \<and> publish_MQTTVersion p < 5"
  shows "ds = [] \<and> unreleased ss1 n \<in> insert (unreleased ss n) ((\<lambda>p. Some (Some (kept p))) ` set ps) \<and>
    (B = {True} \<and> ps \<noteq> [] \<longrightarrow> unreleased ss1 n = Some (Some (kept (last ps))))"
  using assms
proof (induction ps arbitrary: ss ds)
  case (Cons p ps)
  from Cons.prems(1) obtain b ss2 d e where s: "b \<in> B" "session_step b (In_publish p) ss = (ss2, d)"
    "session_run B ss2 (map In_publish ps) ss1 e" "ds = d @ e" by auto
  have "d = []" "unreleased ss2 n = (if b then Some (Some (kept p)) else unreleased ss n)"
    using s(2) Cons.prems(2) by (auto simp: receive_publish_def Let_def split: if_splits)
  with Cons.IH [OF s(3)] Cons.prems(2) s(1,4) show ?case by (cases b; cases "ps = []") auto
qed auto

lemma run_publishes_v5:
  assumes "session_run B ss (map In_publish ps) ss1 ds" "\<forall>p \<in> set ps. concerns n (In_publish p) \<and> 5 \<le> publish_MQTTVersion p"
    "unreleased ss n \<in> {None, Some None}"
  shows "(unreleased ss n = Some None \<longrightarrow> ds = [] \<and> unreleased ss1 n = Some None) \<and>
    (unreleased ss n = None \<longrightarrow> (ds = [] \<and> unreleased ss1 n = None) \<or> (\<exists>p \<in> set ps. ds = [kept p] \<and> unreleased ss1 n = Some None)) \<and>
    (unreleased ss n = None \<and> B = {True} \<and> ps \<noteq> [] \<longrightarrow> ds = [kept (hd ps)])"
  using assms
proof (induction ps arbitrary: ss ds)
  case (Cons p ps)
  from Cons.prems(1) obtain b ss2 d e where s: "b \<in> B" "session_step b (In_publish p) ss = (ss2, d)"
    "session_run B ss2 (map In_publish ps) ss1 e" "ds = d @ e" by auto
  have r: "d = (if b \<and> unreleased ss n = None then [kept p] else [])"
    "unreleased ss2 n = (if b then Some None else unreleased ss n)"
    using s(2) Cons.prems(2) by (auto simp: receive_publish_def Let_def split: if_splits)
  then have "unreleased ss2 n \<in> {None, Some None}" using Cons.prems(3) by auto
  from Cons.IH [OF s(3) _ this] Cons.prems(2,3) s(1,4) r show ?case by (cases b) auto
qed auto

lemma run_pubrels:
  assumes "session_run B ss (map In_pubrel as) ss1 ds" "\<forall>a \<in> set as. concerns n (In_pubrel a)"
  shows "(ds = [] \<or> (\<exists>p. unreleased ss n = Some (Some p) \<and> ds = [p])) \<and>
    (\<forall>p. B = {True} \<and> as \<noteq> [] \<and> unreleased ss n = Some (Some p) \<longrightarrow> ds = [p])"
  using assms
proof (induction as arbitrary: ss ds)
  case (Cons a as)
  from Cons.prems(1) obtain b ss2 d e where s: "b \<in> B" "session_step b (In_pubrel a) ss = (ss2, d)"
    "session_run B ss2 (map In_pubrel as) ss1 e" "ds = d @ e" by auto
  have r: "d = (if b then case unreleased ss n of Some (Some p) \<Rightarrow> [p] | _ \<Rightarrow> [] else [])"
    "unreleased ss2 n = (if b then None else unreleased ss n)"
    using s(2) Cons.prems(2) by (auto simp: receive_pubrel_def split: if_splits)
  from Cons.IH [OF s(3)] Cons.prems(2) s(1,4) r show ?case by (auto split: option.splits if_splits)
qed auto


lemma keyed_session_of:
  assumes "exchange_ok c"
  shows "keyed (session_of w c)"
proof -
  have "concerns k (In_publish p)" if u: "unreleased (session_of w c) k = Some (Some p)" for k p
  proof -
    obtain m where m: "lookup (inboundMsgs c) k = Some m" "awaited w m = Some p"
      using u by (auto simp: session_of_def unreleased_of_def)
    have "msg_msgid m = k" using m(1) by (auto simp: lookup_def dest!: map_of_SomeD)
    moreover have "msg_qos m = 2" using lookup_in [OF m(1)] assms by (simp add: exchange_ok_def inbound_ok_def)
    ultimately show ?thesis using m(2) by (auto simp: awaited_def stored_publish_def split: if_splits)
  qed
  then show ?thesis by (simp add: keyed_def)
qed

lemma keyed_session_at:
  assumes "sessions_ok w" "session_at w sock = Some ss"
  shows "keyed ss"
  using assms by (auto simp: session_at_def clients_at_def sessions_ok_def intro!: keyed_session_of dest!: map_of_SomeD)

section \<open>Properties\<close>

text \<open>
  C1.  The handlers of PUBLISH, PUBACK, PUBREC, PUBREL and PUBCOMP keep the invariant of the program's
  state \<open>sessions_ok\<close> (unique identifiers in every message list, every message in a state of its
  protocol, every stored publication referenced exactly once), run into no undefined behaviour, and
  implement \<open>session_step\<close>: the session of the socket's client makes that step, its deliveries go to
  \<open>Protocol_processPublication\<close> in order, and the session of no other client changes.
\<close>

theorem handlers_implement_sessions:
  assumes "observing E log deliver" "packet_ok pkt" "sessions_ok w" "session_at w sock = Some ss"
  shows "case session_step (pe_noPendingWrites E sock (w_outer w)) pkt ss of (ss', ds) \<Rightarrow>
    \<exists>rc w'. handle E pkt sock w = Some (rc, w') \<and> sessions_ok w' \<and>
      session_at w' = (session_at w)(sock \<mapsto> ss') \<and>
      log (w_outer w') = fold (deliver sock) ds (log (w_outer w))"
proof -
  obtain ss' ds where s: "session_step (pe_noPendingWrites E sock (w_outer w)) pkt ss = (ss', ds)" by force
  show ?thesis unfolding s by (rule handle_ok [OF assms s]) auto
qed

text \<open>
  C3.  With memory available, every sequence of acceptable packets on the sockets of the clients, in any
  order and with any answers of the operating system, is processed without undefined behaviour and
  keeps the invariant: no publication is lost, freed twice or left without an owner.
\<close>

theorem runs_keep_invariant:
  assumes "pe_alloc E = always_alloc" "sessions_ok w"
    "\<forall>(sock, pkt) \<in> set events. packet_ok pkt \<and> sock \<in> dom (session_at w)"
  shows "\<exists>w'. handle_all E events w = Some w' \<and> sessions_ok w' \<and> dom (session_at w') = dom (session_at w)"
  using assms(2,3)
proof (induction events arbitrary: w)
  case (Cons e events)
  obtain sock pkt where e: "e = (sock, pkt)" by force
  obtain ss where ss: "session_at w sock = Some ss" "packet_ok pkt" using Cons.prems(2) e by auto
  obtain ss1 ds where st: "session_step (pe_noPendingWrites E sock (w_outer w)) pkt ss = (ss1, ds)" by force
  have "observing E (\<lambda>_. ()) (\<lambda>_ _ l. l)" using assms(1) by (simp add: observing_def)
  then obtain rc w1 where h: "handle E pkt sock w = Some (rc, w1)" "sessions_ok w1" "session_at w1 = (session_at w)(sock \<mapsto> ss1)"
    by (rule handle_ok [OF _ ss(2) Cons.prems(1) ss(1) st])
  have "dom (session_at w1) = dom (session_at w)" using h(3) ss(1) by auto
  with Cons.IH [OF h(2)] Cons.prems(2) h(1) e show ?case by (simp del: bind_Some_iff)
qed simp

text \<open>
  C2.  Exactly once.  Packets arrive on the sockets of all clients in any order.  The publications with
  QoS 2 and identifier \<open>n\<close> on one socket arrive any number of times, then PUBREL with \<open>n\<close> any number of
  times, among any other packets: at most one of them is delivered, and exactly one when the
  socket takes the answers and both kinds arrive, the last one below version 5 and the first one
  with version 5.
\<close>

theorem qos2_exactly_once:
  assumes "observing E log record_delivery" "sessions_ok w"
    "\<forall>(sock, pkt) \<in> set events. packet_ok pkt \<and> sock \<in> dom (session_at w)"
    "session_at w sock = Some ss" "unreleased ss n = None"
    "filter (concerns n) (packets_of sock events) = map In_publish ps @ map In_pubrel as"
    "(\<forall>p \<in> set ps. publish_MQTTVersion p < 5) \<or> (\<forall>p \<in> set ps. 5 \<le> publish_MQTTVersion p)"
  shows "\<exists>w' ds. handle_all E events w = Some w' \<and>
    deliveries_of sock (log (w_outer w')) = deliveries_of sock (log (w_outer w)) @ ds \<and>
    length (got n ds) \<le> 1 \<and>
    ((\<forall>s. pe_noPendingWrites E sock s) \<and> ps \<noteq> [] \<and> as \<noteq> [] \<longrightarrow>
       got n ds = [kept (if publish_MQTTVersion (last ps) < 5 then last ps else hd ps)])"
proof -
  let ?B = "range (pe_noPendingWrites E sock)"
  from handle_all_ok [OF assms(1,3,2)] assms(4) obtain w' ss' ds where w': "handle_all E events w = Some w'"
    "session_run ?B ss (packets_of sock events) ss' ds"
    "deliveries_of sock (log (w_outer w')) = deliveries_of sock (log (w_outer w)) @ ds" by metis
  from run_projection [OF w'(2) keyed_session_at [OF assms(2,4)] refl, of n]
  obtain ss2 where "session_run ?B ss (map In_publish ps @ map In_pubrel as) ss2 (got n ds)"
    unfolding assms(6) by blast
  then obtain ss1 d1 d2 where r: "session_run ?B ss (map In_publish ps) ss1 d1"
    "session_run ?B ss1 (map In_pubrel as) ss2 d2" "got n ds = d1 @ d2" by (rule run_append)
  have c: "concerns n pkt" if "pkt \<in> set (map In_publish ps @ map In_pubrel as)" for pkt
    using that unfolding assms(6) [symmetric] by simp
  then have cp: "\<forall>p \<in> set ps. concerns n (In_publish p)" and ca: "\<forall>a \<in> set as. concerns n (In_pubrel a)"
    by (intro ballI, simp del: concerns.simps)+
  note rel = run_pubrels [OF r(2) ca]
  have B: "?B = {True}" if "\<forall>s. pe_noPendingWrites E sock s" using that by auto
  have "length (got n ds) \<le> 1 \<and> (?B = {True} \<and> ps \<noteq> [] \<and> as \<noteq> [] \<longrightarrow>
      got n ds = [kept (if publish_MQTTVersion (last ps) < 5 then last ps else hd ps)])"
    using assms(7)
  proof
    assume v: "\<forall>p \<in> set ps. publish_MQTTVersion p < 5"
    then have "\<forall>p \<in> set ps. concerns n (In_publish p) \<and> publish_MQTTVersion p < 5" using cp by blast
    from run_publishes_v3 [OF r(1) this] rel v show ?thesis unfolding r(3) by auto
  next
    assume v: "\<forall>p \<in> set ps. 5 \<le> publish_MQTTVersion p"
    then have "\<forall>p \<in> set ps. concerns n (In_publish p) \<and> 5 \<le> publish_MQTTVersion p" using cp by blast
    moreover have "ps \<noteq> [] \<longrightarrow> \<not> publish_MQTTVersion (last ps) < 5" using v by (auto simp: not_less)
    ultimately show ?thesis using run_publishes_v5 [OF r(1), of n] rel assms(5) unfolding r(3) by auto
  qed
  with w'(1,3) B show ?thesis by blast
qed


section \<open>An instance\<close>

text \<open>Two clients of an environment that writes everything and records what is delivered.\<close>

definition recording_env :: "(int \<times> Publish) list protocol_env" where
  "recording_env =
     \<lparr>pe_transport = \<lparr>tr_framePos = (\<lambda>s. 0), tr_framePosSeekTo = (\<lambda>n s. s), tr_getch = (\<lambda>nh s. (SOCKET_ERROR, 0, s)),
        tr_getdata = (\<lambda>nh n s. (None, 0, s)), tr_putdatas = (\<lambda>nh hdr bufs s. (TCPSOCKET_COMPLETE, bufs, s)),
        tr_putPacket = (\<lambda>sock hdr bufs t n r v s. (0, s)), tr_now = (\<lambda>s. (7, s)), tr_alloc = always_alloc, tr_junk = 0\<rparr>,
      pe_sizeof = (\<lambda>_. 64), pe_noPendingWrites = (\<lambda>sock s. True), pe_updateWrite = (\<lambda>sock t p s. s),
      pe_remove = (\<lambda>c key q n s. (0, s)), pe_process = (\<lambda>p c b s. s @ [(net_socket (net c), p)]),
      pe_close = (\<lambda>c s. (c, s))\<rparr>"

definition sample_world :: "(int \<times> Publish) list world" where
  "sample_world =
     \<lparr>w_clients = \<lparr>cl_items = [blank_client\<lparr>net := (net blank_client)\<lparr>net_socket := 3\<rparr>\<rparr>,
        blank_client\<lparr>net := (net blank_client)\<lparr>net_socket := 4\<rparr>\<rparr>], cl_cur = None\<rparr>,
      w_state = \<lparr>publications = [], next_publication = 0, msgs_received = 0, msgs_sent = 0, pending_writes = []\<rparr>,
      w_outer = []\<rparr>"

definition sample_publish :: "int \<Rightarrow> bytes \<Rightarrow> Publish" where
  "sample_publish n payload =
     \<lparr>publish_header = Header PUBLISH 0 2 0, publish_topic = [97], publish_topiclen = 1, publish_msgId = n,
      publish_payload = payload, publish_payloadlen = int (length payload), publish_MQTTVersion = 4,
      publish_properties = MQTTProperties_initializer, publish_mask = [0, 0, 0, 0]\<rparr>"

definition sample_pubrel :: "int \<Rightarrow> Ack" where
  "sample_pubrel n = \<lparr>ack_header = Header PUBREL 0 1 0, ack_msgId = Some n, ack_rc = None, ack_MQTTVersion = 4,
     ack_properties = None\<rparr>"

lemma recording_env_observing: "observing recording_env (\<lambda>s. s) record_delivery"
  by (simp add: observing_def recording_env_def)

lemma sample_world_ok:
  "sessions_ok sample_world" "dom (session_at sample_world) = {3, 4}"
  "session_at sample_world 3 = Some \<lparr>unreleased = (\<lambda>_. None), in_flight = (\<lambda>_. None)\<rparr>"
  by (auto simp: sample_world_def sessions_ok_def session_at_def clients_at_def world_refs_def accounted_def client_refs_def
      refs_of_def exchange_ok_def list_ok_def blank_client_def cl_zero_def cl_wf_def session_of_def unreleased_of_def
      in_flight_of_def lookup_def dom_def split: if_splits)

lemma sample_packets_ok:
  "0 \<le> n \<Longrightarrow> n < 65536 \<Longrightarrow> packet_ok (In_publish (sample_publish n d))"
  "0 \<le> n \<Longrightarrow> n < 65536 \<Longrightarrow> packet_ok (In_pubrel (sample_pubrel n))"
  by (simp_all add: sample_publish_def sample_pubrel_def publish_in_ok_def ack_ok_def)

theorem handlers_implement_sessions_witness:
  "\<exists>rc w'. handle recording_env (In_publish (sample_publish 9 [1])) 3 sample_world = Some (rc, w') \<and> sessions_ok w' \<and>
    unreleased (the (session_at w' 3)) 9 = Some (Some (kept (sample_publish 9 [1]))) \<and> w_outer w' = []"
proof -
  have w: "pe_noPendingWrites recording_env sock s" "w_outer sample_world = []" for sock s
    by (simp_all add: recording_env_def sample_world_def)
  have q: "header_qos (publish_header (sample_publish 9 [1])) = 2" "publish_msgId (sample_publish 9 [1]) = 9"
    "publish_MQTTVersion (sample_publish 9 [1]) = 4" by (simp_all add: sample_publish_def)
  have p: "packet_ok (In_publish (sample_publish 9 [1]))" by (rule sample_packets_ok) simp_all
  from handlers_implement_sessions [OF recording_env_observing p sample_world_ok(1,3)] q w
  show ?thesis by (auto simp: receive_publish_def)
qed

theorem qos2_exactly_once_witness:
  "\<exists>w' ds. handle_all recording_env
      [(3, In_publish (sample_publish 9 [1])), (4, In_publish (sample_publish 9 [5])), (3, In_publish (sample_publish 9 [2])),
       (3, In_publish (sample_publish 8 [3])), (3, In_pubrel (sample_pubrel 9)), (3, In_pubrel (sample_pubrel 9))]
      sample_world = Some w' \<and>
    deliveries_of 3 (w_outer w') = ds \<and> got 9 ds = [kept (sample_publish 9 [2])]"
proof -
  let ?es = "[(3, In_publish (sample_publish 9 [1])), (4, In_publish (sample_publish 9 [5])), (3, In_publish (sample_publish 9 [2])),
       (3, In_publish (sample_publish 8 [3])), (3, In_pubrel (sample_pubrel 9)), (3, In_pubrel (sample_pubrel 9))]"
  have p: "\<forall>(sock, pkt) \<in> set ?es. packet_ok pkt \<and> sock \<in> dom (session_at sample_world)"
    using sample_packets_ok sample_world_ok(2) by simp
  have f: "filter (concerns 9) (packets_of 3 ?es) =
      map In_publish [sample_publish 9 [1], sample_publish 9 [2]] @ map In_pubrel [sample_pubrel 9, sample_pubrel 9]"
    by (simp add: sample_publish_def sample_pubrel_def)
  have v: "(\<forall>p \<in> set [sample_publish 9 [1], sample_publish 9 [2]]. publish_MQTTVersion p < 5) \<or>
      (\<forall>p \<in> set [sample_publish 9 [1], sample_publish 9 [2]]. 5 \<le> publish_MQTTVersion p)"
    by (simp add: sample_publish_def)
  have w: "\<forall>s. pe_noPendingWrites recording_env 3 s" "deliveries_of 3 (w_outer sample_world) = []"
    "publish_MQTTVersion (sample_publish 9 [2]) < 5"
    by (simp_all add: recording_env_def sample_world_def deliveries_of_def sample_publish_def)
  from qos2_exactly_once [OF recording_env_observing sample_world_ok(1) p sample_world_ok(3) _ f v] w
  show ?thesis by (auto simp del: handle_all.simps)
qed


theorem runs_keep_invariant_witness:
  "\<exists>w'. handle_all recording_env [(4, In_publish (sample_publish 9 [5])), (4, In_pubrel (sample_pubrel 9))] sample_world = Some w' \<and>
    sessions_ok w'"
proof -
  have a: "pe_alloc recording_env = always_alloc" by (simp add: recording_env_def)
  have p: "\<forall>(sock, pkt) \<in> set [(4, In_publish (sample_publish 9 [5])), (4, In_pubrel (sample_pubrel 9))].
      packet_ok pkt \<and> sock \<in> dom (session_at sample_world)"
    using sample_packets_ok sample_world_ok(2) by simp
  show ?thesis using runs_keep_invariant [OF a sample_world_ok(1) p] by (auto simp del: handle_all.simps)
qed

end
