(* ===== verification/MessageIds.thy ===== *)
theory MessageIds
  imports Protocol
begin

text \<open>
  The choice of message identifiers.  From the identifier assigned last the search goes round the
  identifiers 1 to 65535; \<open>nth_msgid start n\<close> is the one tried in round \<open>n\<close>.
\<close>

section \<open>The search\<close>

definition nth_msgid :: "int \<Rightarrow> nat \<Rightarrow> int" where
  "nth_msgid start n = (start - 1 + int n) mod MAX_MSG_ID + 1"

definition in_use :: "Messages clist \<Rightarrow> int set" where
  "in_use msgs = msg_msgid ` set (cl_items msgs)"

lemma nth_msgid_range: "nth_msgid start n \<in> {1..MAX_MSG_ID}"
  using pos_mod_bound [of 65535 "start - 1 + int n"] pos_mod_sign [of 65535 "start - 1 + int n"]
  by (simp add: nth_msgid_def)

lemma next_nth_msgid: "next_msgid (nth_msgid start n) = nth_msgid start (Suc n)"
proof -
  let ?x = "start - 1 + int n"
  have m: "(?x + 1) mod 65535 = (if ?x mod 65535 = 65534 then 0 else ?x mod 65535 + 1)"
    by (smt (verit) mod_add_left_eq mod_pos_pos_trivial pos_mod_bound pos_mod_sign mod_self)
  have "start - 1 + int (Suc n) = ?x + 1" by simp
  then show ?thesis using m by (simp add: next_msgid_def nth_msgid_def)
qed

lemma nth_msgid_1:
  assumes "0 \<le> start" "start \<le> MAX_MSG_ID"
  shows "nth_msgid start 1 = next_msgid start"
  using assms by (auto simp: nth_msgid_def next_msgid_def)

lemma nth_msgid_start:
  assumes "1 \<le> start" "start \<le> MAX_MSG_ID"
  shows "nth_msgid start n = start \<longleftrightarrow> 65535 dvd int n"
proof -
  have "nth_msgid start n = start \<longleftrightarrow> (start - 1 + int n) mod 65535 = (start - 1) mod 65535"
    using assms by (auto simp: nth_msgid_def)
  also have "\<dots> \<longleftrightarrow> 65535 dvd int n" by (simp add: mod_eq_dvd_iff)
  finally show ?thesis .
qed

lemma nth_msgid_surj:
  assumes "i \<in> {1..MAX_MSG_ID}"
  obtains n where "1 \<le> n" "n \<le> 65535" "nth_msgid start n = i"
proof -
  define k where "k = (i - start) mod 65535"
  have k: "0 \<le> k" "k < 65535" by (simp_all add: k_def)
  have "(start - 1 + k) mod 65535 = (i - 1) mod 65535" unfolding k_def by (simp add: mod_add_right_eq)
  then have i: "(start - 1 + k) mod 65535 + 1 = i" using assms by simp
  show thesis
  proof (cases "k = 0")
    case True
    then have "nth_msgid start 65535 = i" using i mod_add_self2 [of "start - 1" 65535] True
      by (simp add: nth_msgid_def algebra_simps)
    then show thesis using that [of 65535] by simp
  next
    case False
    then have "nth_msgid start (nat k) = i" using i k by (simp add: nth_msgid_def)
    then show thesis using that [of "nat k"] False k by simp
  qed
qed

lemma find_msgid:
  assumes "cl_wf msgs"
  shows "(msgid \<in> in_use msgs \<longrightarrow> (\<exists>i msgs'. cl_find (\<lambda>m. messageIDCompare m msgid) msgs = (Some i, msgs') \<and>
      cl_items msgs' = cl_items msgs \<and> cl_wf msgs')) \<and>
    (msgid \<notin> in_use msgs \<longrightarrow> cl_find (\<lambda>m. messageIDCompare m msgid) msgs = (None, msgs))"
proof -
  let ?P = "\<lambda>m. messageIDCompare m msgid"
  have u: "msgid \<in> in_use msgs \<longleftrightarrow> (\<exists>x \<in> set (cl_items msgs). ?P x)"
    by (auto simp: in_use_def messageIDCompare_def)
  obtain r l where f: "cl_find ?P msgs = (r, l)" by force
  have l: "cl_items l = cl_items msgs" "cl_wf l"
    using cl_find_items [of ?P msgs] cl_wf_find [OF assms, of ?P] f by simp_all
  show ?thesis
  proof (cases r)
    case None
    then show ?thesis using cl_find_None [of ?P msgs l] f u by auto
  next
    case (Some i)
    then have "\<exists>x \<in> set (cl_items msgs). ?P x" using cl_find_found_iff [OF assms, of ?P] f by auto
    then show ?thesis using Some f l u by simp
  qed
qed

text \<open>The first free identifier is found, \<dots>\<close>

lemma assign_loop_free:
  assumes "cl_wf msgs" "n \<le> k" "\<forall>i \<in> {n..<k}. nth_msgid start i \<in> in_use msgs"
    "nth_msgid start k \<notin> in_use msgs" "\<forall>i \<in> {n<..k}. nth_msgid start i \<noteq> start"
  shows "\<exists>msgs'. assign_loop msgs start (nth_msgid start n) = Some (nth_msgid start k, msgs') \<and>
    cl_items msgs' = cl_items msgs \<and> cl_wf msgs'"
  using assms
proof (induction "k - n" arbitrary: n msgs)
  case 0
  then have "n = k" by simp
  with 0 show ?case using find_msgid [of msgs "nth_msgid start k"] by (subst assign_loop.simps) simp
next
  case (Suc d)
  then have nk: "n < k" by simp
  with Suc.prems(3) obtain i msgs' where f: "cl_find (\<lambda>m. messageIDCompare m (nth_msgid start n)) msgs = (Some i, msgs')"
    "cl_items msgs' = cl_items msgs" "cl_wf msgs'"
    using find_msgid [OF Suc.prems(1), of "nth_msgid start n"] by auto
  have u: "in_use msgs' = in_use msgs" using f(2) by (simp add: in_use_def)
  have "\<exists>msgs''. assign_loop msgs' start (nth_msgid start (Suc n)) = Some (nth_msgid start k, msgs'') \<and>
      cl_items msgs'' = cl_items msgs' \<and> cl_wf msgs''"
    by (rule Suc.hyps(1)) (use Suc.hyps(2) Suc.prems f(3) u nk in auto)
  moreover have "nth_msgid start (Suc n) \<noteq> start" using Suc.prems(5) nk by simp
  ultimately show ?case
    using f(1,2) by (subst assign_loop.simps) (simp add: next_nth_msgid)
qed

text \<open>without one the search ends when it comes back to its start, \<dots>\<close>

lemma assign_loop_full:
  assumes "cl_wf msgs" "n < k" "\<forall>i \<in> {n..<k}. nth_msgid start i \<in> in_use msgs" "nth_msgid start k = start"
    "\<forall>i \<in> {n<..<k}. nth_msgid start i \<noteq> start"
  shows "\<exists>msgs'. assign_loop msgs start (nth_msgid start n) = Some (0, msgs') \<and>
    cl_items msgs' = cl_items msgs \<and> cl_wf msgs'"
  using assms
proof (induction "k - n" arbitrary: n msgs)
  case 0
  then show ?case by simp
next
  case (Suc d)
  obtain i msgs' where f: "cl_find (\<lambda>m. messageIDCompare m (nth_msgid start n)) msgs = (Some i, msgs')"
    "cl_items msgs' = cl_items msgs" "cl_wf msgs'"
    using find_msgid [OF Suc.prems(1), of "nth_msgid start n"] Suc.prems(2,3) by auto
  have u: "in_use msgs' = in_use msgs" using f(2) by (simp add: in_use_def)
  show ?case
  proof (cases "Suc n = k")
    case True
    then show ?thesis
      using f Suc.prems(4) by (subst assign_loop.simps) (simp add: next_nth_msgid)
  next
    case False
    with Suc.prems(2) have nk: "Suc n < k" by simp
    have "\<exists>msgs''. assign_loop msgs' start (nth_msgid start (Suc n)) = Some (0, msgs'') \<and>
        cl_items msgs'' = cl_items msgs' \<and> cl_wf msgs''"
      by (rule Suc.hyps(1)) (use Suc.hyps(2) Suc.prems f(3) u nk in auto)
    moreover have "nth_msgid start (Suc n) \<noteq> start" using Suc.prems(5) nk by simp
    ultimately show ?thesis
      using f(1,2) by (subst assign_loop.simps) (simp add: next_nth_msgid)
  qed
qed

text \<open>and from 0, which no identifier is, it does not.\<close>

lemma assign_loop_zero:
  assumes "assign_loop msgs start msgid = Some r"
  shows "start = 0 \<longrightarrow> msgid \<in> {1..MAX_MSG_ID} \<longrightarrow> cl_wf msgs \<longrightarrow> \<not> {1..MAX_MSG_ID} \<subseteq> in_use msgs"
proof (rule assign_loop.raw_induct [where P = "\<lambda>msgs start msgid r. start = 0 \<longrightarrow> msgid \<in> {1..MAX_MSG_ID} \<longrightarrow>
    cl_wf msgs \<longrightarrow> \<not> {1..MAX_MSG_ID} \<subseteq> in_use msgs", OF _ assms])
  fix loop msgs start msgid r
  assume ih: "\<And>msgs start msgid y. loop msgs start msgid = Some y \<Longrightarrow>
      start = 0 \<longrightarrow> msgid \<in> {1..65535} \<longrightarrow> cl_wf msgs \<longrightarrow> \<not> {1..65535} \<subseteq> in_use msgs"
    and eq: "(case cl_find (\<lambda>m. messageIDCompare m msgid) msgs of
       (None, msgs') \<Rightarrow> Some (msgid, msgs')
     | (Some i, msgs') \<Rightarrow>
         if next_msgid msgid = start then Some (0, msgs') else loop msgs' start (next_msgid msgid)) = Some r"
  show "start = 0 \<longrightarrow> msgid \<in> {1..65535} \<longrightarrow> cl_wf msgs \<longrightarrow> \<not> {1..65535} \<subseteq> in_use msgs"
  proof (intro impI notI)
    assume a: "start = 0" "msgid \<in> {1..65535}" "cl_wf msgs" "{1..65535} \<subseteq> in_use msgs"
    then obtain i msgs' where f: "cl_find (\<lambda>m. messageIDCompare m msgid) msgs = (Some i, msgs')"
      "cl_items msgs' = cl_items msgs" "cl_wf msgs'"
      using find_msgid [OF a(3), of msgid] by auto
    have n: "next_msgid msgid \<in> {1..65535}" using a(2) by (auto simp: next_msgid_def)
    then have "loop msgs' start (next_msgid msgid) = Some r" using eq f(1) a(1) by auto
    from ih [OF this] a n f show False by (simp add: in_use_def)
  qed
qed

section \<open>Properties\<close>

text \<open>
  C26.  \<open>MQTTProtocol_assignMsgId\<close> returns, from an identifier assigned before (1 to 65535), the next
  identifier in cyclic order that no outbound message uses and remembers it, or 0 when all but the
  one it started from are in use, even if that one is free.  From 0, which a new client has, it
  returns in the same way while there is a free identifier; with all in use it never returns.
\<close>

theorem message_id_assignment:
  assumes "cl_wf (outboundMsgs c)" "0 \<le> msgID c" "msgID c \<le> MAX_MSG_ID"
  shows "if {1..MAX_MSG_ID} - {msgID c} \<subseteq> in_use (outboundMsgs c)
    then (if msgID c = 0 then MQTTProtocol_assignMsgId c = None
          else \<exists>msgs. MQTTProtocol_assignMsgId c = Some (0, c\<lparr>outboundMsgs := msgs\<rparr>) \<and>
            cl_items msgs = cl_items (outboundMsgs c))
    else \<exists>k msgs. 1 \<le> k \<and> (\<forall>i \<in> {1..<k}. nth_msgid (msgID c) i \<in> in_use (outboundMsgs c)) \<and>
      nth_msgid (msgID c) k \<notin> in_use (outboundMsgs c) \<and> nth_msgid (msgID c) k \<noteq> msgID c \<and>
      MQTTProtocol_assignMsgId c = Some (nth_msgid (msgID c) k,
        c\<lparr>outboundMsgs := msgs, msgID := nth_msgid (msgID c) k\<rparr>) \<and>
      cl_items msgs = cl_items (outboundMsgs c)"
proof -
  let ?s = "msgID c" and ?l = "outboundMsgs c"
  have n1: "next_msgid ?s = nth_msgid ?s 1" using nth_msgid_1 [OF assms(2,3)] by simp
  have r: "nth_msgid ?s i \<noteq> ?s" if "1 \<le> i" "i < 65535" for i
  proof (cases "?s = 0")
    case True
    then show ?thesis using nth_msgid_range [of ?s i] by auto
  next
    case False
    then have "\<not> 65535 dvd int i" using that by (auto dest: zdvd_imp_le)
    then show ?thesis using nth_msgid_start [of ?s i] False assms(2,3) by simp
  qed
  show ?thesis
  proof (cases "{1..65535} - {?s} \<subseteq> in_use ?l")
    case full: True
    show ?thesis
    proof (cases "?s = 0")
      case True
      then have "{1..65535} \<subseteq> in_use ?l" using full by auto
      moreover have "nth_msgid ?s 1 \<in> {1..65535}" by (rule nth_msgid_range)
      ultimately have "assign_loop ?l ?s (nth_msgid ?s 1) = None"
        using assign_loop_zero [of ?l ?s "nth_msgid ?s 1"] assms(1) True
        by (cases "assign_loop ?l ?s (nth_msgid ?s 1)") blast+
      then show ?thesis using full True n1 by (simp add: MQTTProtocol_assignMsgId_def del: bind_Some_iff)
    next
      case False
      have "nth_msgid ?s i \<in> in_use ?l" if "i \<in> {1..<65535}" for i
        using that full r [of i] nth_msgid_range [of ?s i] by auto
      moreover have "nth_msgid ?s 65535 = ?s" using nth_msgid_start [of ?s 65535] False assms(2,3) by simp
      ultimately obtain msgs where "assign_loop ?l ?s (nth_msgid ?s 1) = Some (0, msgs)" "cl_items msgs = cl_items ?l"
        using assign_loop_full [OF assms(1), of 1 65535 ?s] r by auto
      then have "MQTTProtocol_assignMsgId c = Some (0, c\<lparr>outboundMsgs := msgs\<rparr>)"
        using n1 by (simp add: MQTTProtocol_assignMsgId_def del: bind_Some_iff)
      then show ?thesis using full False \<open>cl_items msgs = cl_items ?l\<close> by (simp only: if_True if_False) blast
    qed
  next
    case free: False
    then obtain i where i: "i \<in> {1..65535}" "i \<noteq> ?s" "i \<notin> in_use ?l" by blast
    obtain n where n: "1 \<le> n" "n \<le> 65535" "nth_msgid ?s n = i" by (rule nth_msgid_surj [OF i(1)])
    define k where "k = (LEAST k. 1 \<le> k \<and> nth_msgid ?s k \<notin> in_use ?l)"
    have k: "1 \<le> k \<and> nth_msgid ?s k \<notin> in_use ?l" unfolding k_def by (rule LeastI [of _ n]) (use n i in simp)
    have "k \<le> n" unfolding k_def by (rule Least_le) (use n i in simp)
    have u: "nth_msgid ?s j \<in> in_use ?l" if "1 \<le> j" "j < k" for j
      using not_less_Least [of j "\<lambda>k. 1 \<le> k \<and> nth_msgid ?s k \<notin> in_use ?l"] that unfolding k_def by blast
    have ks: "nth_msgid ?s k \<noteq> ?s"
      using \<open>k \<le> n\<close> n i(2) k r [of k] by (cases "k = n") auto
    have "\<forall>j \<in> {1<..k}. nth_msgid ?s j \<noteq> ?s"
      using ks r \<open>k \<le> n\<close> n(2) by (metis greaterThanAtMost_iff le_neq_implies_less less_imp_le less_le_trans)
    then obtain msgs where a: "assign_loop ?l ?s (nth_msgid ?s 1) = Some (nth_msgid ?s k, msgs)" "cl_items msgs = cl_items ?l"
      using assign_loop_free [OF assms(1), of 1 k ?s] k u by auto
    have "nth_msgid ?s k \<noteq> 0" using nth_msgid_range [of ?s k] by auto
    then have "MQTTProtocol_assignMsgId c = Some (nth_msgid ?s k, c\<lparr>outboundMsgs := msgs, msgID := nth_msgid ?s k\<rparr>)"
      using a(1) n1 by (simp add: MQTTProtocol_assignMsgId_def Let_def del: bind_Some_iff)
    moreover have "\<forall>j \<in> {1..<k}. nth_msgid ?s j \<in> in_use ?l" using u by simp
    ultimately show ?thesis
      unfolding if_not_P [OF free] using k ks a(2) by blast
  qed
qed

theorem message_id_assignment_witness:
  "\<exists>k msgs. MQTTProtocol_assignMsgId (blank_client\<lparr>msgID := 65535\<rparr>) =
    Some (nth_msgid 65535 k, blank_client\<lparr>msgID := nth_msgid 65535 k, outboundMsgs := msgs\<rparr>) \<and> 1 \<le> k"
proof -
  have "(1 :: int) \<in> {1..MAX_MSG_ID} - {65535}" "1 \<notin> in_use cl_zero" by (simp_all add: in_use_def)
  then have "\<not> {1..MAX_MSG_ID} - {65535} \<subseteq> in_use cl_zero" by blast
  then show ?thesis
    using message_id_assignment [of "blank_client\<lparr>msgID := 65535\<rparr>"] by (auto simp: blank_client_def)
qed

end
