(* ===== verification/Publishing.thy ===== *)
theory Publishing
  imports Sessions MessageIds
begin

text \<open>
  The beginning of an exchange: \<open>MQTTProtocol_startPublish\<close> adds the message to the outbound list of the
  client and sends the PUBLISH packet; the other steps of the exchange are those of \<open>Exchanges\<close>.
\<close>

section \<open>Sending\<close>

lemma send_publish_total:
  assumes "observing E log deliver" "publish_ok p qos ps" "length (publication p qos ps) < 2 ^ 28"
  obtains rc p' nh' s' where "MQTTPacket_send_publish (pe_transport E) p dup qos retained nh s = Some (rc, p', nh', s')"
    "net_socket nh' = net_socket nh" "log s' = log s"
proof -
  let ?T = "pe_transport E"
  define h where "h = Header PUBLISH dup qos retained"
  define bufs where "bufs = publish_buffers p qos ps"
  define s0 where "s0 = (if 0 < qos then persist_sent ?T nh h (zip (pbs_buffers bufs) (pbs_buflens bufs)) (publish_msgId p)
      (publish_MQTTVersion p) s else s)"
  have l0: "log s0 = log s" using assms(1) by (simp add: s0_def persist_sent_def observing_def)
  obtain rc bufs' s1 where pd: "tr_putdatas ?T nh (h # vbi_enc (sum_list (pbs_buflens bufs))) bufs s0 = (rc, bufs', s1)"
    by (metis prod_cases3)
  obtain nh' s2 where st: "stamp_sent ?T rc nh s1 = (nh', s2)" by fastforce
  have "net_socket nh' = net_socket nh \<and> log s2 = log s1"
    using st observing_log(2) [OF assms(1)] by (auto simp: stamp_sent_def split: if_splits prod.splits)
  moreover have "log s1 = log s0" by (rule observing_log(1) [OF assms(1) pd])
  moreover have "\<exists>p'. MQTTPacket_send_publish ?T p dup qos retained nh s = Some (rc, p', nh', s2)"
    unfolding send_publish_bytes [OF observing_alloc [OF assms(1)] assms(2,3)] Let_def transmit_def
      h_def [symmetric] bufs_def [symmetric] s0_def [symmetric] pd
    by (simp add: st)
  ultimately show thesis using l0 that by auto
qed

section \<open>Changing a publication in place\<close>

lemma publication_at_set:
  "publication_at (set_publication a q w) (Ptr b) =
     (if b = a then map_option (\<lambda>_. (a, q)) (publication_at w (Ptr a)) else publication_at w (Ptr b))"
proof -
  have "map_of (map (\<lambda>(b, q'). if b = a then (b, q) else (b, q')) l) b =
      (if b = a then map_option (\<lambda>_. q) (map_of l a) else map_of l b)" for l :: "(addr \<times> Publications) list"
    by (induction l) auto
  then show ?thesis by (auto simp: publication_at_def set_publication_def option.map_comp comp_def)
qed

lemma accounted_set:
  assumes "accounted (w_state w) refs" "pub_refcount q = 1" "pub_topic q \<noteq> None" "pub_payload q \<noteq> None"
  shows "accounted (w_state (set_publication a q w)) refs"
proof -
  let ?ps = "publications (w_state w)"
  let ?ps' = "map (\<lambda>(b, q'). if b = a then (b, q) else (b, q')) ?ps"
  have f: "map fst ?ps' = map fst ?ps" by (simp add: case_prod_beta)
  have "\<forall>(b, q') \<in> set ?ps'. b < next_publication (w_state w) \<and> pub_refcount q' = 1 \<and> pub_topic q' \<noteq> None \<and> pub_payload q' \<noteq> None"
    using assms by (auto simp: accounted_def split: if_splits prod.splits)
  then show ?thesis
    using assms(1) by (simp add: accounted_def set_publication_def f del: map_map)
qed

section \<open>Starting to publish\<close>

definition message_out :: "'s protocol_env \<Rightarrow> Publish \<Rightarrow> int \<Rightarrow> int \<Rightarrow> int \<Rightarrow> START_TIME_TYPE \<Rightarrow> addr \<Rightarrow> Messages" where
  "message_out E p qos retained len now a =
     \<lparr>msg_qos = qos, msg_retain = retained, msg_msgid = publish_msgId p, msg_MQTTVersion = publish_MQTTVersion p,
      msg_properties = (if 5 \<le> publish_MQTTVersion p then publish_properties p else MQTTProperties_initializer),
      msg_publish = Ptr a, msg_lastTouch = now, msg_nextMessageType = (if qos = 2 then PUBREC else 0),
      msg_len = pe_sizeof E ''Messages'' + len\<rparr>"

lemma createMessage_step:
  assumes "observing E log deliver" "accounted (w_state w) refs" "mm = None \<or> msg_publish (the mm) = NULL"
    "5 \<le> publish_MQTTVersion p \<longrightarrow> MQTTProperties_copy always_alloc (publish_properties p) = Some (publish_properties p)"
  obtains a len now w' where
    "MQTTProtocol_createMessage E p mm qos retained False w = Some (Some (message_out E p qos retained len now a), w')"
    "accounted (w_state w') (add_mset a refs)" "a \<notin># refs" "publication_at w' (Ptr a) = Some (a, new_publication p)"
    "\<forall>b. b \<noteq> a \<longrightarrow> publication_at w' (Ptr b) = publication_at w (Ptr b)" "w_clients w' = w_clients w"
    "pending_writes (w_state w') = pending_writes (w_state w)" "log (w_outer w') = log (w_outer w)"
proof -
  note al = observing_alloc [OF assms(1)]
  from accounted_store [OF assms(2) al, of p] obtain a len w1 where st:
    "MQTTProtocol_storePublication E p w = (Ptr a, len, w1)" "accounted (w_state w1) (add_mset a refs)"
    "a \<notin># refs" "publication_at w1 (Ptr a) = Some (a, new_publication p)"
    "\<forall>b. b \<noteq> a \<longrightarrow> publication_at w1 (Ptr b) = publication_at w (Ptr b)"
    "w_clients w1 = w_clients w" "w_outer w1 = w_outer w" "pending_writes (w_state w1) = pending_writes (w_state w)"
    by (auto simp: new_publication_def)
  obtain now s where now: "tr_now (pe_transport E) (w_outer w1) = (now, s)" by force
  have c: "(case mm of Some m \<Rightarrow> if msg_publish m \<noteq> NULL then x m else y | None \<Rightarrow> y) = y" for x y
    using assms(3) by (auto split: option.split)
  have "MQTTProtocol_createMessage E p mm qos retained False w =
      Some (Some (message_out E p qos retained len now a), w1\<lparr>w_outer := s\<rparr>)"
    unfolding MQTTProtocol_createMessage_def c
    using al st(1,4) now assms(4) by (simp add: message_out_def MQTTTime_now_def del: bind_Some_iff)
  then show thesis
    by (rule that) (use st observing_log(2) [OF assms(1) now] in simp_all)
qed

text \<open>
  C4.  Starting an exchange: with an identifier no outbound message uses, \<open>MQTTProtocol_startPublish\<close>
  with QoS 1 or 2 runs without undefined behaviour whatever becomes of the packet, keeps the
  invariant, and adds exactly the phase that waits for PUBACK or PUBREC; the new message is the last
  one of the list.
\<close>

theorem publish_starts_exchange:
  assumes "observing E log deliver" "client_inv R w c" "in_flight (session_of w c) (publish_msgId p) = None"
    "qos = 1 \<or> qos = 2" "publish_ok p qos ps" "length (publication p qos ps) < 2 ^ 28"
    "5 \<le> publish_MQTTVersion p \<longrightarrow> MQTTProperties_copy always_alloc (publish_properties p) = Some (publish_properties p)"
    "mm = None \<or> msg_publish (the mm) = NULL"
  shows "\<exists>rc m c' w'. MQTTProtocol_startPublish E c p qos retained mm w = Some (rc, Some m, c', w') \<and>
    turn log deliver R w c ((session_of w c)\<lparr>in_flight := (in_flight (session_of w c))
      (publish_msgId p \<mapsto> if qos = 1 then Wait_puback else Wait_pubrec)\<rparr>, []) w' c' \<and>
    cl_items (outboundMsgs c') = cl_items (outboundMsgs c) @ [m] \<and> msg_msgid m = publish_msgId p"
proof -
  note al = observing_alloc [OF assms(1)]
  have acc: "accounted (w_state w) (client_refs c + R)" using assms(2) by (simp add: client_inv_def)
  obtain a len now w1 where cm:
    "MQTTProtocol_createMessage E p mm qos retained False w = Some (Some (message_out E p qos retained len now a), w1)"
    "accounted (w_state w1) (add_mset a (client_refs c + R))" "a \<notin># client_refs c + R"
    "publication_at w1 (Ptr a) = Some (a, new_publication p)"
    "\<forall>b. b \<noteq> a \<longrightarrow> publication_at w1 (Ptr b) = publication_at w (Ptr b)" "w_clients w1 = w_clients w"
    "pending_writes (w_state w1) = pending_writes (w_state w)" "log (w_outer w1) = log (w_outer w)"
    by (rule createMessage_step [OF assms(1) acc assms(8,7)])
  define m where "m = message_out E p qos retained len now a"
  have m: "msg_msgid m = publish_msgId p" "msg_publish m = Ptr a" "outbound_ok m" "msg_MQTTVersion m = publish_MQTTVersion p"
    "phase_of m = (if qos = 1 then Wait_puback else Wait_pubrec)"
    using assms(4) by (auto simp: m_def message_out_def outbound_ok_def phase_of_def)
  define p1 where "p1 = p\<lparr>publish_payload := publish_payload p, publish_topic := publish_topic p,
    publish_properties := msg_properties m, publish_MQTTVersion := publish_MQTTVersion p\<rparr>"
  have p1: "publish_ok p1 qos ps" "length (publication p1 qos ps) < 2 ^ 28"
    using assms(5,6) by (auto simp: p1_def publish_ok_def publication_def m_def message_out_def)
  let ?l = "cl_append m (outboundMsgs c)"
  obtain rc sent nh s where sp: "MQTTPacket_send_publish (pe_transport E) p1 0 qos retained (net c) (w_outer w1) = Some (rc, sent, nh, s)"
    "net_socket nh = net_socket (net c)" "log s = log (w_outer w1)"
    by (rule send_publish_total [OF assms(1) p1])
  define q where "q = (new_publication p)\<lparr>pub_topic := Some (publish_topic sent), pub_payload := Some (publish_payload sent),
    pub_mask := publish_mask sent\<rparr>"
  define w2 where "w2 = set_publication a q (w1\<lparr>w_outer := s\<rparr>)"
  let ?c = "c\<lparr>outboundMsgs := ?l, net := nh\<rparr>"
  have start: "MQTTProtocol_startPublish E c p qos retained mm w = Some (rc, Some m, ?c, w2)"
    using assms(4) cm(1,4) al sp(1) m(2,4) unfolding m_def [symmetric]
    by (auto simp: MQTTProtocol_startPublish_def MQTTProtocol_startPublishCommon_def new_publication_def p1_def q_def w2_def
        simp del: bind_Some_iff)
  have ok: "list_ok (outboundMsgs c)" using assms(2) by (simp add: client_inv_def exchange_ok_def)
  have "lookup (outboundMsgs c) (publish_msgId p) = None"
    using assms(3) by (simp add: session_of_def in_flight_of_def)
  then have "msg_msgid m \<notin> msg_msgid ` set (cl_items (outboundMsgs c))"
    using m(1) by (auto simp: lookup_def map_of_eq_None_iff image_iff)
  note u = append_message_ok [OF ok this]
  have pw: "publication_at w2 (Ptr b) = publication_at w (Ptr b)" if "b \<in># client_refs c + R" for b
    using that cm(3,5) by (auto simp: w2_def publication_at_set)
  have "accounted (w_state w2) (add_mset a (client_refs c + R))"
    unfolding w2_def using cm(2) by (intro accounted_set) (simp_all add: q_def new_publication_def)
  moreover have "client_refs ?c + R = add_mset a (client_refs c + R)"
    using u(3) m(2) by (simp add: client_refs_def)
  ultimately have inv: "client_inv R w2 ?c"
    using assms(2) u(1) m(3) by (simp add: client_inv_def exchange_ok_def)
  have "unreleased_of w2 (inboundMsgs c) = unreleased_of w (inboundMsgs c)"
    using pw by (intro unreleased_of_cong) (simp add: client_refs_def)
  moreover have "in_flight_of ?l = (in_flight_of (outboundMsgs c))(publish_msgId p \<mapsto> phase_of m)"
    unfolding in_flight_of_def u(2) m(1) by (auto simp: fun_eq_iff)
  ultimately have "session_of w2 ?c = (session_of w c)\<lparr>in_flight := (in_flight (session_of w c))
      (publish_msgId p \<mapsto> if qos = 1 then Wait_puback else Wait_pubrec)\<rparr>"
    by (simp add: session_of_def m(5))
  moreover have "same_rest R w w2"
    using pw cm(6,7) by (simp add: same_rest_def) (simp add: w2_def set_publication_def)
  moreover have "log (w_outer w2) = log (w_outer w)" using sp(3) cm(8) by (simp add: w2_def set_publication_def)
  ultimately have "turn log deliver R w c ((session_of w c)\<lparr>in_flight := (in_flight (session_of w c))
      (publish_msgId p \<mapsto> if qos = 1 then Wait_puback else Wait_pubrec)\<rparr>, []) w2 ?c"
    using inv sp(2) by (simp add: turn_def)
  with start m(1) show ?thesis by (intro exI conjI) auto
qed


theorem publish_starts_exchange_witness:
  "\<exists>rc m c' w'. MQTTProtocol_startPublish recording_env (blank_client\<lparr>net := (net blank_client)\<lparr>net_socket := 3\<rparr>\<rparr>)
      (sample_publish 9 [1]) 2 0 None sample_world = Some (rc, Some m, c', w') \<and>
    in_flight (session_of w' c') = [9 \<mapsto> Wait_pubrec]"
proof -
  let ?c = "blank_client\<lparr>net := (net blank_client)\<lparr>net_socket := 3\<rparr>\<rparr>" and ?p = "sample_publish 9 [1]"
  have i: "client_inv {#} sample_world ?c" "in_flight (session_of sample_world ?c) = (\<lambda>_. None)"
    by (auto simp: client_inv_def sample_world_def exchange_ok_def accounted_def client_refs_def refs_of_def list_ok_def
        blank_client_def cl_zero_def cl_wf_def session_of_def in_flight_of_def lookup_def)
  have p: "publish_ok ?p 2 []" "length (publication ?p 2 []) < 2 ^ 28"
    by (simp_all add: sample_publish_def publish_ok_def publication_def publish_enc_def utf_enc_def)
  have n: "publish_msgId ?p = 9" "\<not> 5 \<le> publish_MQTTVersion ?p" by (simp_all add: sample_publish_def)
  from publish_starts_exchange [OF recording_env_observing i(1) _ _ p, of None 0] i(2) n
  show ?thesis by (auto simp: turn_def)
qed

end
