(* ===== verification/SocketBuffer.thy ===== *)
theory SocketBuffer
  imports Packets
begin

text \<open>
  \<open>SocketBuffer.c\<close>: what was read of a packet that is not complete yet, one queue per socket and the
  default queue for the packet that is being read, and what remains of packets that could not be
  written at once.  A queue owns its buffer; \<open>sq_buf\<close> is the block \<open>malloc\<close> gave, whose contents
  beyond what was read are not initialised.  \<open>def_queue\<close> is \<open>None\<close> for the pointer \<open>NULL\<close>.

  \<open>alloc\<close> and \<open>junk\<close> stand for \<open>malloc\<close> and the contents of new blocks.
\<close>

section \<open>State\<close>

record socket_queue =
  sq_socket :: int
  sq_index :: nat
  sq_headerlen :: nat
  sq_fixed_header :: bytes
  sq_buflen :: nat
  sq_datalen :: nat
  sq_buf :: "bytes option"

record pending_writes =
  pws_socket :: int
  pws_total :: nat
  pws_bytes :: nat
  pws_iovecs :: "(bytes option \<times> nat) list"
  pws_frees :: "bool list"

record SocketBuffer =
  def_queue :: "socket_queue option"
  queues :: "socket_queue clist"
  writes :: "pending_writes clist"

abbreviation (input) SOCKETBUFFER_COMPLETE :: int where "SOCKETBUFFER_COMPLETE \<equiv> 0"
abbreviation (input) SOCKETBUFFER_INTERRUPTED :: int where "SOCKETBUFFER_INTERRUPTED \<equiv> - 22"

definition socketcompare :: "int \<Rightarrow> socket_queue \<Rightarrow> bool" where
  "socketcompare b q \<longleftrightarrow> sq_socket q = b"

definition pending_socketcompare :: "int \<Rightarrow> pending_writes \<Rightarrow> bool" where
  "pending_socketcompare b pw \<longleftrightarrow> pws_socket pw = b"

section \<open>Set-up\<close>

text \<open>A failed \<open>malloc\<close> of the buffer leaves a queue whose fields are not initialised, here 0.\<close>

definition new_queue :: "bytes option \<Rightarrow> nat \<Rightarrow> byte \<Rightarrow> socket_queue" where
  "new_queue buf buflen junk =
     \<lparr>sq_socket = 0, sq_index = 0, sq_headerlen = 0, sq_fixed_header = replicate 5 junk,
      sq_buflen = buflen, sq_datalen = 0, sq_buf = buf\<rparr>"

definition SocketBuffer_newDefQ :: "allocator \<Rightarrow> byte \<Rightarrow> SocketBuffer \<Rightarrow> int \<times> SocketBuffer" where
  "SocketBuffer_newDefQ alloc junk sb =
     (if \<not> alloc (Sizeof ''socket_queue'') then (PAHO_MEMORY_ERROR, sb\<lparr>def_queue := None\<rparr>)
      else if \<not> alloc (Bytes 1000) then (PAHO_MEMORY_ERROR, sb\<lparr>def_queue := Some (new_queue None 1000 junk)\<rparr>)
      else (0, sb\<lparr>def_queue := Some (new_queue (Some (replicate 1000 junk)) 0 junk)\<rparr>))"

text \<open>\<open>SocketBuffer_initialize\<close>; without memory for the list there are no queues, \<open>queues\<close> is \<open>NULL\<close>:
  the second component says whether there is a list.\<close>

definition SocketBuffer_initialize :: "allocator \<Rightarrow> byte \<Rightarrow> SocketBuffer \<Rightarrow> int \<times> bool \<times> SocketBuffer" where
  "SocketBuffer_initialize alloc junk sb =
     (case SocketBuffer_newDefQ alloc junk sb of (rc, sb) \<Rightarrow>
        let sb = sb\<lparr>writes := cl_zero\<rparr> in
        if rc \<noteq> 0 then (rc, False, sb)
        else if \<not> alloc (Sizeof ''List'') then (PAHO_MEMORY_ERROR, False, sb)
        else (rc, True, sb\<lparr>queues := cl_zero\<rparr>))"

definition SocketBuffer_freeDefQ :: "SocketBuffer \<Rightarrow> SocketBuffer ub" where
  "SocketBuffer_freeDefQ sb = (if def_queue sb = None then None else Some (sb\<lparr>def_queue := None\<rparr>))"

definition SocketBuffer_terminate :: "SocketBuffer \<Rightarrow> SocketBuffer ub" where
  "SocketBuffer_terminate sb = SocketBuffer_freeDefQ (sb\<lparr>writes := cl_zero, queues := cl_zero\<rparr>)"

definition SocketBuffer_writeComplete :: "int \<Rightarrow> SocketBuffer \<Rightarrow> bool \<times> SocketBuffer" where
  "SocketBuffer_writeComplete socket sb =
     (case cl_unlink (pending_socketcompare socket) (writes sb) of (removed, ws) \<Rightarrow> (removed, sb\<lparr>writes := ws\<rparr>))"

definition SocketBuffer_cleanup :: "int \<Rightarrow> SocketBuffer \<Rightarrow> SocketBuffer ub" where
  "SocketBuffer_cleanup socket sb =
     (let sb = snd (SocketBuffer_writeComplete socket sb);
          sb = (case cl_find (socketcompare socket) (queues sb) of
                  (None, l) \<Rightarrow> sb\<lparr>queues := l\<rparr>
                | (Some j, l) \<Rightarrow> sb\<lparr>queues := cl_remove_at j (cl_cur l) l\<rparr>)
      in do {
        q \<leftarrow> def_queue sb;
        Some (if sq_socket q = socket
              then sb\<lparr>def_queue := Some (q\<lparr>sq_socket := 0, sq_index := 0, sq_headerlen := 0, sq_datalen := 0\<rparr>)\<rparr>
              else sb)
      })"

section \<open>Reading\<close>

text \<open>The queue a function works on: \<open>Some j\<close> for an element of \<open>queues\<close>, \<open>None\<close> for the default
  queue.\<close>

definition queue_at :: "nat option \<Rightarrow> SocketBuffer \<Rightarrow> socket_queue ub" where
  "queue_at r sb = (case r of Some j \<Rightarrow> Some (cl_items (queues sb) ! j) | None \<Rightarrow> def_queue sb)"

definition set_queue :: "nat option \<Rightarrow> socket_queue \<Rightarrow> SocketBuffer \<Rightarrow> SocketBuffer" where
  "set_queue r q sb =
     (case r of
        Some j \<Rightarrow> sb\<lparr>queues := (queues sb)\<lparr>cl_items := (cl_items (queues sb))[j := q]\<rparr>\<rparr>
      | None \<Rightarrow> sb\<lparr>def_queue := Some q\<rparr>)"

definition find_queue :: "int \<Rightarrow> SocketBuffer \<Rightarrow> nat option \<times> SocketBuffer" where
  "find_queue socket sb = (case cl_find (socketcompare socket) (queues sb) of (r, l) \<Rightarrow> (r, sb\<lparr>queues := l\<rparr>))"

text \<open>When the buffer is too small and holds data, \<open>memcpy\<close> copies the new block to itself: the data are
  lost.  Without memory the buffer becomes \<open>NULL\<close>.  The result is the queue whose buffer is returned
  and \<open>*actual_len\<close>.\<close>

definition SocketBuffer_getQueuedData ::
  "allocator \<Rightarrow> byte \<Rightarrow> int \<Rightarrow> nat \<Rightarrow> SocketBuffer \<Rightarrow> (nat option \<times> nat \<times> SocketBuffer) ub" where
  "SocketBuffer_getQueuedData alloc junk socket bytes sb =
     (case find_queue socket sb of (r, sb) \<Rightarrow>
        do {
          q \<leftarrow> queue_at r sb;
          let actual_len = (if r = None then 0 else sq_datalen q);
          if sq_buflen q < bytes then
            if 0 < sq_datalen q then
              if \<not> alloc (Bytes bytes) then Some (r, actual_len, set_queue r (q\<lparr>sq_buf := None\<rparr>) sb)
              else if bytes < sq_datalen q then None
              else Some (r, actual_len, set_queue r (q\<lparr>sq_buf := Some (replicate bytes junk), sq_buflen := bytes\<rparr>) sb)
            else
              let old = (case sq_buf q of None \<Rightarrow> [] | Some b \<Rightarrow> b);
                  buf = (if alloc (Bytes bytes) then Some (take bytes old @ replicate (bytes - length old) junk) else None)
              in Some (r, actual_len, set_queue r (q\<lparr>sq_buf := buf, sq_buflen := bytes\<rparr>) sb)
          else Some (r, actual_len, sb)
        })"

definition SocketBuffer_getQueuedChar :: "int \<Rightarrow> byte \<Rightarrow> SocketBuffer \<Rightarrow> (int \<times> byte \<times> SocketBuffer) ub" where
  "SocketBuffer_getQueuedChar socket c sb =
     (case find_queue socket sb of
        (None, sb) \<Rightarrow> Some (SOCKETBUFFER_INTERRUPTED, c, sb)
      | (Some j, sb) \<Rightarrow>
          do {
            q \<leftarrow> queue_at (Some j) sb;
            if sq_index q < sq_headerlen q then
              do {
                c \<leftarrow> read_at (sq_fixed_header q) (sq_index q);
                Some (SOCKETBUFFER_COMPLETE, c, set_queue (Some j) (q\<lparr>sq_index := sq_index q + 1\<rparr>) sb)
              }
            else if 4 < sq_index q then Some (SOCKET_ERROR, c, sb)
            else Some (SOCKETBUFFER_INTERRUPTED, c, sb)
          })"

definition SocketBuffer_interrupted :: "allocator \<Rightarrow> byte \<Rightarrow> int \<Rightarrow> nat \<Rightarrow> SocketBuffer \<Rightarrow> SocketBuffer ub" where
  "SocketBuffer_interrupted alloc junk socket actual_len sb =
     (case find_queue socket sb of
        (Some j, sb) \<Rightarrow>
          do { q \<leftarrow> queue_at (Some j) sb; Some (set_queue (Some j) (q\<lparr>sq_index := 0, sq_datalen := actual_len\<rparr>) sb) }
      | (None, sb) \<Rightarrow>
          do {
            q \<leftarrow> def_queue sb;
            let q = q\<lparr>sq_socket := socket, sq_index := 0, sq_datalen := actual_len\<rparr>;
            let sb = (if alloc (Sizeof ''ListElement'') then sb\<lparr>queues := cl_append q (queues sb)\<rparr> else sb);
            Some (snd (SocketBuffer_newDefQ alloc junk sb))
          })"

text \<open>The buffer of the default queue after the call is returned.\<close>

definition SocketBuffer_complete :: "int \<Rightarrow> SocketBuffer \<Rightarrow> (bytes option \<times> SocketBuffer) ub" where
  "SocketBuffer_complete socket sb =
     do {
       sb \<leftarrow> (case find_queue socket sb of
                (None, sb) \<Rightarrow> Some sb
              | (Some j, sb) \<Rightarrow>
                  do {
                    q \<leftarrow> queue_at (Some j) sb;
                    sb \<leftarrow> SocketBuffer_freeDefQ sb;
                    Some (sb\<lparr>def_queue := Some q, queues := cl_remove_at j (cl_cur (queues sb)) (queues sb)\<rparr>)
                  });
       q \<leftarrow> def_queue sb;
       Some (sq_buf q, sb\<lparr>def_queue := Some (q\<lparr>sq_socket := 0, sq_index := 0, sq_headerlen := 0, sq_datalen := 0\<rparr>)\<rparr>)
     }"

definition SocketBuffer_queueChar :: "int \<Rightarrow> byte \<Rightarrow> SocketBuffer \<Rightarrow> SocketBuffer ub" where
  "SocketBuffer_queueChar socket c sb =
     (case find_queue socket sb of (r, sb) \<Rightarrow>
        do {
          d \<leftarrow> (if r = None then def_queue sb else queue_at r sb);
          let error = (r = None \<and> sq_socket d \<noteq> 0 \<and> sq_socket d \<noteq> socket);
          let q = (if r = None \<and> sq_socket d = 0 then d\<lparr>sq_socket := socket, sq_index := 0, sq_datalen := 0\<rparr> else d);
          if error \<or> 4 < sq_index q then Some (set_queue r q sb)
          else do {
            h \<leftarrow> write_at (sq_fixed_header q) (sq_index q) c;
            Some (set_queue r (q\<lparr>sq_fixed_header := h, sq_index := sq_index q + 1, sq_headerlen := sq_index q + 1\<rparr>) sb)
          }
        })"

section \<open>Writing\<close>

text \<open>The arrays have room for five buffers.\<close>

definition SocketBuffer_pendingWrite ::
  "allocator \<Rightarrow> int \<Rightarrow> (bytes option \<times> nat) list \<Rightarrow> bool list \<Rightarrow> nat \<Rightarrow> nat \<Rightarrow> SocketBuffer \<Rightarrow> (int \<times> SocketBuffer) ub" where
  "SocketBuffer_pendingWrite alloc socket iovecs frees whole bytes sb =
     (if \<not> alloc (Sizeof ''pending_writes'') then Some (PAHO_MEMORY_ERROR, sb)
      else if 5 < length iovecs \<or> length frees \<noteq> length iovecs then None
      else
        let pw = \<lparr>pws_socket = socket, pws_total = whole, pws_bytes = bytes, pws_iovecs = iovecs, pws_frees = frees\<rparr>
        in Some (0, if alloc (Sizeof ''ListElement'') then sb\<lparr>writes := cl_append pw (writes sb)\<rparr> else sb))"

definition SocketBuffer_getWrite :: "int \<Rightarrow> SocketBuffer \<Rightarrow> (nat \<times> pending_writes) option \<times> SocketBuffer" where
  "SocketBuffer_getWrite socket sb =
     (case cl_find (pending_socketcompare socket) (writes sb) of
        (None, l) \<Rightarrow> (None, sb\<lparr>writes := l\<rparr>)
      | (Some j, l) \<Rightarrow> (Some (j, cl_items l ! j), sb\<lparr>writes := l\<rparr>))"

definition set_write :: "nat \<Rightarrow> pending_writes \<Rightarrow> SocketBuffer \<Rightarrow> SocketBuffer" where
  "set_write j pw sb = sb\<lparr>writes := (writes sb)\<lparr>cl_items := (cl_items (writes sb))[j := pw]\<rparr>\<rparr>"

text \<open>\<open>SocketBuffer_updateWrite\<close> says whether there is such a write.\<close>

definition SocketBuffer_updateWrite :: "int \<Rightarrow> bytes option \<Rightarrow> bytes option \<Rightarrow> SocketBuffer \<Rightarrow> bool \<times> SocketBuffer" where
  "SocketBuffer_updateWrite socket topic payload sb =
     (case SocketBuffer_getWrite socket sb of
        (None, sb) \<Rightarrow> (False, sb)
      | (Some (j, pw), sb) \<Rightarrow>
          (True,
           if length (pws_iovecs pw) = 4
           then set_write j (pw\<lparr>pws_iovecs := (pws_iovecs pw)[2 := (topic, snd (pws_iovecs pw ! 2)),
                                                           3 := (payload, snd (pws_iovecs pw ! 3))]\<rparr>) sb
           else sb))"

end
