(* ===== verification/SocketLayer.thy ===== *)
theory SocketLayer
  imports SocketBuffer
begin

text \<open>
  \<open>Socket.c\<close>: the sockets of the program, non-blocking reads of a packet in pieces, writes that may
  be cut short and are continued later, and the choice of the next socket that is ready.

  The operating system (WinSock, as in the rest of the configuration modelled here) is the record
  \<open>os_env\<close>; its state is the last component of \<open>net_state\<close>.  \<open>recv\<close> returns \<open>None\<close> for
  \<open>SOCKET_ERROR\<close> and otherwise the bytes it stores; \<open>WSASend\<close> returns its code and the number of bytes
  sent.  A set of descriptors is a set of sockets.  \<open>cur_clientsds\<close> points into the list of sockets,
  whose entries differ: it is the socket it points to.
\<close>

section \<open>State\<close>

record Sockets =
  rset :: "int set"
  rset_saved :: "int set"
  maxfdp1 :: int
  clientsds :: "int clist"
  cur_clientsds :: "int option"
  connect_pending :: "int clist"
  write_pending :: "int clist"
  pending_wset :: "int set"
  wset :: "int set"

record 'o net_state =
  nt_sb :: SocketBuffer
  nt_socks :: Sockets
  nt_os :: 'o

record 'o os_env =
  os_alloc :: allocator
  os_junk :: byte
  os_error :: "'o \<Rightarrow> int"
  os_recv :: "int \<Rightarrow> int \<Rightarrow> 'o \<Rightarrow> bytes option \<times> 'o"
  os_WSASend :: "int \<Rightarrow> bytes list \<Rightarrow> 'o \<Rightarrow> int \<times> nat \<times> 'o"
  os_select :: "int \<Rightarrow> int set \<Rightarrow> int set \<Rightarrow> int \<Rightarrow> 'o \<Rightarrow> int \<times> int set \<times> int set \<times> 'o"
  os_ioctl :: "int \<Rightarrow> 'o \<Rightarrow> int \<times> 'o"
  os_socket :: "int \<Rightarrow> 'o \<Rightarrow> int \<times> 'o"
  os_connect :: "int \<Rightarrow> int \<Rightarrow> bytes \<Rightarrow> int \<Rightarrow> 'o \<Rightarrow> int \<times> 'o"
  os_getaddrinfo :: "bytes \<Rightarrow> 'o \<Rightarrow> int \<times> (int \<times> bytes) list \<times> 'o"
  os_shutdown :: "int \<Rightarrow> 'o \<Rightarrow> int \<times> 'o"
  os_closesocket :: "int \<Rightarrow> 'o \<Rightarrow> int \<times> 'o"
  os_writecomplete :: "(int \<Rightarrow> int \<Rightarrow> 'o \<Rightarrow> 'o) option"

abbreviation (input) WSAEWOULDBLOCK :: int where "WSAEWOULDBLOCK \<equiv> 10035"
abbreviation (input) WSAEINPROGRESS :: int where "WSAEINPROGRESS \<equiv> 10036"
abbreviation (input) FD_SETSIZE :: nat where "FD_SETSIZE \<equiv> 64"
abbreviation (input) PF_INET :: int where "PF_INET \<equiv> 2"
abbreviation (input) PF_INET6 :: int where "PF_INET6 \<equiv> 23"

definition with_sb :: "'o net_state \<Rightarrow> SocketBuffer \<Rightarrow> 'o net_state" where
  "with_sb n sb = n\<lparr>nt_sb := sb\<rparr>"

definition with_socks :: "'o net_state \<Rightarrow> (Sockets \<Rightarrow> Sockets) \<Rightarrow> 'o net_state" where
  "with_socks n f = n\<lparr>nt_socks := f (nt_socks n)\<rparr>"

definition intcompare :: "int \<Rightarrow> int \<Rightarrow> bool" where
  "intcompare a b \<longleftrightarrow> a = b"

section \<open>Set-up\<close>

definition Socket_setnonblocking :: "'o os_env \<Rightarrow> int \<Rightarrow> 'o net_state \<Rightarrow> int \<times> 'o net_state" where
  "Socket_setnonblocking E sock n = (case os_ioctl E sock (nt_os n) of (rc, s) \<Rightarrow> (rc, n\<lparr>nt_os := s\<rparr>))"

definition Socket_error :: "'o os_env \<Rightarrow> 'o net_state \<Rightarrow> int" where
  "Socket_error E n = os_error E (nt_os n)"

text \<open>\<open>ListInitialize\<close> is assumed to find memory; its results are not checked by the code.\<close>

definition Socket_outInitialize :: "'o os_env \<Rightarrow> 'o net_state \<Rightarrow> 'o net_state ub" where
  "Socket_outInitialize E n =
     (case SocketBuffer_initialize (os_alloc E) (os_junk E) (nt_sb n) of (rc, has_list, sb) \<Rightarrow>
        if \<not> os_alloc E (Sizeof ''List'') then None
        else Some (n\<lparr>nt_sb := sb,
          nt_socks := (nt_socks n)\<lparr>clientsds := cl_zero, connect_pending := cl_zero, write_pending := cl_zero,
            cur_clientsds := None, rset := {}, pending_wset := {}, maxfdp1 := 0, rset_saved := {}\<rparr>\<rparr>))"

definition Socket_outTerminate :: "'o net_state \<Rightarrow> 'o net_state ub" where
  "Socket_outTerminate n =
     map_option (with_sb (with_socks n (\<lambda>so. so\<lparr>connect_pending := cl_zero, write_pending := cl_zero, clientsds := cl_zero\<rparr>)))
       (SocketBuffer_terminate (nt_sb n))"

definition Socket_addSocket :: "'o os_env \<Rightarrow> int \<Rightarrow> 'o net_state \<Rightarrow> int \<times> 'o net_state" where
  "Socket_addSocket E newSd n =
     (case cl_find (intcompare newSd) (clientsds (nt_socks n)) of
        (Some j, l) \<Rightarrow> (0, with_socks n (\<lambda>so. so\<lparr>clientsds := l\<rparr>))
      | (None, l) \<Rightarrow>
          let n = with_socks n (\<lambda>so. so\<lparr>clientsds := l\<rparr>) in
          if FD_SETSIZE \<le> length (cl_items l) then (SOCKET_ERROR, n)
          else if \<not> os_alloc E (Sizeof ''int'') \<or> \<not> os_alloc E (Sizeof ''ListElement'') then (PAHO_MEMORY_ERROR, n)
          else Socket_setnonblocking E newSd (with_socks n (\<lambda>so. so\<lparr>clientsds := cl_append newSd l,
            rset_saved := insert newSd (rset_saved so), maxfdp1 := max (maxfdp1 so) (newSd + 1)\<rparr>)))"

definition Socket_noPendingWrites :: "int \<Rightarrow> 'o net_state \<Rightarrow> bool \<times> 'o net_state" where
  "Socket_noPendingWrites socket n =
     (case cl_find (intcompare socket) (write_pending (nt_socks n)) of (r, l) \<Rightarrow>
        (r = None, with_socks n (\<lambda>so. so\<lparr>write_pending := l\<rparr>)))"

section \<open>Reading\<close>

definition Socket_getch :: "'o os_env \<Rightarrow> int \<Rightarrow> 'o net_state \<Rightarrow> (int \<times> byte \<times> 'o net_state) ub" where
  "Socket_getch E socket n =
     do {
       (rc, c, sb) \<leftarrow> SocketBuffer_getQueuedChar socket (os_junk E) (nt_sb n);
       let n = with_sb n sb;
       if rc \<noteq> SOCKETBUFFER_INTERRUPTED then Some (rc, c, n)
       else case os_recv E socket 1 (nt_os n) of (r, s) \<Rightarrow>
         let n = n\<lparr>nt_os := s\<rparr> in
         (case r of
            None \<Rightarrow>
              if Socket_error E n = WSAEWOULDBLOCK
              then do {
                sb \<leftarrow> SocketBuffer_interrupted (os_alloc E) (os_junk E) socket 0 (nt_sb n);
                Some (TCPSOCKET_INTERRUPTED, c, with_sb n sb)
              }
              else Some (SOCKET_ERROR, c, n)
          | Some [] \<Rightarrow> Some (SOCKET_ERROR, c, n)
          | Some [b] \<Rightarrow> do { sb \<leftarrow> SocketBuffer_queueChar socket b (nt_sb n); Some (TCPSOCKET_COMPLETE, b, with_sb n sb) }
          | Some _ \<Rightarrow> None)
     }"

text \<open>The end of \<open>Socket_getdata\<close>: the packet is complete or stays queued.\<close>

definition getdata_done ::
  "'o os_env \<Rightarrow> int \<Rightarrow> nat \<Rightarrow> nat option \<Rightarrow> nat \<Rightarrow> int \<Rightarrow> 'o net_state \<Rightarrow> (bytes option \<times> nat \<times> int \<times> 'o net_state) ub" where
  "getdata_done E socket bytes r actual_len rc n =
     do {
       q \<leftarrow> queue_at r (nt_sb n);
       sb \<leftarrow> (if actual_len = bytes then map_option snd (SocketBuffer_complete socket (nt_sb n))
               else SocketBuffer_interrupted (os_alloc E) (os_junk E) socket actual_len (nt_sb n));
       Some (sq_buf q, actual_len, rc, with_sb n sb)
     }"

text \<open>The buffer as a pointer, \<open>*actual_len\<close>, \<open>*rc\<close>; with \<open>bytes = 0\<close> the latter two are not set.  The
  number of bytes asked for is cast to an \<open>int\<close>.\<close>

definition Socket_getdata ::
  "'o os_env \<Rightarrow> int \<Rightarrow> nat \<Rightarrow> nat \<Rightarrow> int \<Rightarrow> 'o net_state \<Rightarrow> (bytes option \<times> nat \<times> int \<times> 'o net_state) ub" where
  "Socket_getdata E socket bytes actual_len rc n =
     (if bytes = 0 then
        do { (buf, sb) \<leftarrow> SocketBuffer_complete socket (nt_sb n); Some (buf, actual_len, rc, with_sb n sb) }
      else
        do {
          (r, actual_len, sb) \<leftarrow> SocketBuffer_getQueuedData (os_alloc E) (os_junk E) socket bytes (nt_sb n);
          let n = with_sb n sb;
          (case os_recv E socket (signed_take_bit 31 (int bytes - int actual_len)) (nt_os n) of (res, s) \<Rightarrow>
             let n = n\<lparr>nt_os := s\<rparr> in
             (case res of
                None \<Rightarrow>
                  let rc = Socket_error E n in
                  if rc \<noteq> WSAEWOULDBLOCK then Some (None, actual_len, rc, n)
                  else getdata_done E socket bytes r actual_len rc n
              | Some [] \<Rightarrow> Some (None, actual_len, 0, n)
              | Some bs \<Rightarrow>
                  do {
                    q \<leftarrow> queue_at r (nt_sb n);
                    buf \<leftarrow> sq_buf q;
                    buf \<leftarrow> memcpy_at buf actual_len bs;
                    getdata_done E socket bytes r (actual_len + length bs) (int (length bs))
                      (with_sb n (set_queue r (q\<lparr>sq_buf := Some buf\<rparr>) (nt_sb n)))
                  }))
        })"

section \<open>Writing\<close>

text \<open>The bytes of a buffer array as the system call sees them.\<close>

definition iov_bytes :: "(bytes option \<times> nat) list \<Rightarrow> bytes list ub" where
  "iov_bytes iovecs =
     those (map (\<lambda>(base, len). case base of
       None \<Rightarrow> if len = 0 then Some [] else None
     | Some b \<Rightarrow> if len \<le> length b then Some (take len b) else None) iovecs)"

definition Socket_writev ::
  "'o os_env \<Rightarrow> int \<Rightarrow> (bytes option \<times> nat) list \<Rightarrow> 'o net_state \<Rightarrow> (int \<times> nat \<times> 'o net_state) ub" where
  "Socket_writev E socket iovecs n =
     do {
       bs \<leftarrow> iov_bytes iovecs;
       (case os_WSASend E socket bs (nt_os n) of (rc, sent, s) \<Rightarrow>
          let n = n\<lparr>nt_os := s\<rparr> in
          Some (if rc = SOCKET_ERROR \<and> Socket_error E n = WSAEWOULDBLOCK then TCPSOCKET_INTERRUPTED else rc, sent, n))
     }"

definition Socket_putdatas ::
  "'o os_env \<Rightarrow> int \<Rightarrow> bytes \<Rightarrow> PacketBuffers \<Rightarrow> 'o net_state \<Rightarrow> (int \<times> 'o net_state) ub" where
  "Socket_putdatas E socket buf0 bufs n =
     (case Socket_noPendingWrites socket n of (free, n) \<Rightarrow>
        if \<not> free then Some (SOCKET_ERROR, n)
        else if 4 < length (pbs_buflens bufs) then None
        else
          let whole = length buf0 + sum_list (pbs_buflens bufs);
              iovecs = (Some buf0, length buf0) # zip (pbs_buffers bufs) (pbs_buflens bufs);
              frees1 = True # pbs_frees bufs
          in do {
            (rc, bytes, n) \<leftarrow> Socket_writev E socket iovecs n;
            if rc = SOCKET_ERROR then Some (rc, n)
            else if bytes = whole then Some (TCPSOCKET_COMPLETE, n)
            else if \<not> os_alloc E (Sizeof ''int'') then Some (PAHO_MEMORY_ERROR, n)
            else do {
              (rc, sb) \<leftarrow> SocketBuffer_pendingWrite (os_alloc E) socket iovecs frees1 whole bytes (nt_sb n);
              let n = with_sb n sb;
              Some (if \<not> os_alloc E (Sizeof ''ListElement'') then (PAHO_MEMORY_ERROR, n)
                    else (TCPSOCKET_INTERRUPTED, with_socks n (\<lambda>so. so\<lparr>write_pending := cl_append socket (write_pending so),
                      pending_wset := insert socket (pending_wset so)\<rparr>)))
            }
          })"

definition Socket_addPendingWrite :: "int \<Rightarrow> 'o net_state \<Rightarrow> 'o net_state" where
  "Socket_addPendingWrite socket n = with_socks n (\<lambda>so. so\<lparr>pending_wset := insert socket (pending_wset so)\<rparr>)"

definition Socket_clearPendingWrite :: "int \<Rightarrow> 'o net_state \<Rightarrow> 'o net_state" where
  "Socket_clearPendingWrite socket n = with_socks n (\<lambda>so. so\<lparr>pending_wset := pending_wset so - {socket}\<rparr>)"

text \<open>What is left of a buffer array when \<open>done_bytes\<close> of it have been written; \<open>curbuflen\<close> counts the bytes
  of the buffers passed.  Moving a pointer into \<open>NULL\<close> does not happen with its length 0.\<close>

fun rest_of_iovecs :: "nat \<Rightarrow> nat \<Rightarrow> (bytes option \<times> nat) list \<Rightarrow> (bytes option \<times> nat) list" where
  "rest_of_iovecs done_bytes curbuflen [] = []"
| "rest_of_iovecs done_bytes curbuflen ((base, len) # iovecs) =
     (if done_bytes \<le> curbuflen then [(base, len)]
      else if done_bytes < curbuflen + len
      then [(map_option (drop (done_bytes - curbuflen)) base, len - (done_bytes - curbuflen))]
      else []) @ rest_of_iovecs done_bytes (curbuflen + len) iovecs"

text \<open>The buffers marked for it are freed and their pointers become \<open>NULL\<close>.  A pointer without a block
  stands for one whose block was freed meanwhile; freeing it again is undefined.\<close>

definition free_iovecs :: "pending_writes \<Rightarrow> pending_writes ub" where
  "free_iovecs pw =
     (if \<exists>((base, len), fr) \<in> set (zip (pws_iovecs pw) (pws_frees pw)). fr \<and> 0 < len \<and> base = None then None
      else Some (pw\<lparr>pws_iovecs := map2 (\<lambda>(base, len) fr. (if fr then None else base, len)) (pws_iovecs pw) (pws_frees pw)\<rparr>))"

definition Socket_continueWrite :: "'o os_env \<Rightarrow> int \<Rightarrow> 'o net_state \<Rightarrow> (int \<times> 'o net_state) ub" where
  "Socket_continueWrite E socket n =
     (case SocketBuffer_getWrite socket (nt_sb n) of
        (None, sb) \<Rightarrow> None
      | (Some (j, pw), sb) \<Rightarrow>
          do {
            (rc, bytes, n) \<leftarrow> Socket_writev E socket (rest_of_iovecs (pws_bytes pw) 0 (pws_iovecs pw)) (with_sb n sb);
            if rc \<noteq> SOCKET_ERROR then
              let pw = pw\<lparr>pws_bytes := pws_bytes pw + bytes\<rparr> in
              if pws_bytes pw = pws_total pw
              then do { pw \<leftarrow> free_iovecs pw; Some (1, with_sb n (set_write j pw (nt_sb n))) }
              else Some (0, with_sb n (set_write j pw (nt_sb n)))
            else do { pw \<leftarrow> free_iovecs pw; Some (rc, with_sb n (set_write j pw (nt_sb n))) }
          })"

text \<open>\<open>Socket_abortWrite\<close> frees the buffers and leaves the pointers to them.\<close>

definition Socket_abortWrite :: "int \<Rightarrow> 'o net_state \<Rightarrow> (int \<times> 'o net_state) ub" where
  "Socket_abortWrite socket n =
     (case SocketBuffer_getWrite socket (nt_sb n) of
        (None, sb) \<Rightarrow> Some (0, with_sb n sb)
      | (Some (j, pw), sb) \<Rightarrow> do { pw \<leftarrow> free_iovecs pw; Some (0, with_sb n sb) })"

text \<open>The loop of \<open>Socket_continueWrites\<close>: \<open>cur\<close> is the position of \<open>curpending\<close>; after a removal the loop
  goes on where the cursor of the list points.  The result has \<open>rc1\<close> and \<open>*sock\<close>.\<close>

definition next_index :: "nat \<Rightarrow> 'a clist \<Rightarrow> nat option" where
  "next_index k l = (if Suc k < length (cl_items l) then Some (Suc k) else None)"

partial_function (option) continue_loop ::
  "'o os_env \<Rightarrow> int set \<Rightarrow> nat option \<Rightarrow> int \<Rightarrow> int \<Rightarrow> 'o net_state \<Rightarrow> (int \<times> int \<times> 'o net_state) option" where
  "continue_loop E pwset cur rc1 sock n =
     (case cur of
        None \<Rightarrow> Some (rc1, sock, n)
      | Some k \<Rightarrow>
          let socket = cl_items (write_pending (nt_socks n)) ! k in
          Option.bind (if socket \<in> pwset then Socket_continueWrite E socket n else Some (0, n)) (\<lambda>(rc, n).
          if rc \<noteq> 0 then
            let n = with_sb n (snd (SocketBuffer_writeComplete socket (nt_sb n)));
                n = with_socks n (\<lambda>so. so\<lparr>pending_wset := pending_wset so - {socket},
                      write_pending := cl_remove_at k (cl_cur (write_pending so)) (write_pending so)\<rparr>);
                cur = cl_cur (write_pending (nt_socks n));
                n = (case os_writecomplete E of None \<Rightarrow> n | Some f \<Rightarrow> n\<lparr>nt_os := f socket rc (nt_os n)\<rparr>)
            in if rc = SOCKET_ERROR then continue_loop E pwset cur SOCKET_ERROR socket n
               else continue_loop E pwset cur rc1 sock n
          else continue_loop E pwset (next_index k (write_pending (nt_socks n))) rc1 sock n))"

definition Socket_continueWrites :: "'o os_env \<Rightarrow> int set \<Rightarrow> int \<Rightarrow> 'o net_state \<Rightarrow> (int \<times> int \<times> 'o net_state) option" where
  "Socket_continueWrites E pwset sock n =
     continue_loop E pwset (if cl_items (write_pending (nt_socks n)) = [] then None else Some 0) 0 sock n"

section \<open>The next socket\<close>

definition isReady :: "int \<Rightarrow> int set \<Rightarrow> int set \<Rightarrow> 'o net_state \<Rightarrow> bool \<times> 'o net_state" where
  "isReady socket read_set write_set n =
     (case cl_find (intcompare socket) (connect_pending (nt_socks n)) of (r, l) \<Rightarrow>
        let n = with_socks n (\<lambda>so. so\<lparr>connect_pending := l\<rparr>) in
        if r \<noteq> None \<and> socket \<in> write_set
        then (True, with_socks n (\<lambda>so. so\<lparr>connect_pending := snd (cl_unlink (intcompare socket) l)\<rparr>))
        else if socket \<in> read_set \<and> socket \<in> write_set then Socket_noPendingWrites socket n
        else (False, n))"

definition next_socket :: "int \<Rightarrow> int list \<Rightarrow> int option" where
  "next_socket s l = (case dropWhile (\<lambda>x. x \<noteq> s) l of x # y # ys \<Rightarrow> Some y | _ \<Rightarrow> None)"

text \<open>The search for a ready socket from the current one on, through the sockets \<open>l\<close> still ahead.\<close>

fun ready_loop :: "int list \<Rightarrow> 'o net_state \<Rightarrow> 'o net_state" where
  "ready_loop [] n = with_socks n (\<lambda>so. so\<lparr>cur_clientsds := None\<rparr>)"
| "ready_loop (s # l) n =
     (case isReady s (rset (nt_socks n)) (wset (nt_socks n)) n of (ready, n) \<Rightarrow>
        if ready then with_socks n (\<lambda>so. so\<lparr>cur_clientsds := Some s\<rparr>) else ready_loop l n)"

definition sockets_from_cur :: "'o net_state \<Rightarrow> int list" where
  "sockets_from_cur n =
     (case cur_clientsds (nt_socks n) of
        None \<Rightarrow> []
      | Some s \<Rightarrow> dropWhile (\<lambda>x. x \<noteq> s) (cl_items (clientsds (nt_socks n))))"

text \<open>The two calls of \<open>select\<close> and the continued writes in between: the return code and the socket when
  the function ends there.  The mutex is not modelled.\<close>

definition poll_sockets :: "'o os_env \<Rightarrow> int \<Rightarrow> 'o net_state \<Rightarrow> (int \<times> int option \<times> 'o net_state) option" where
  "poll_sockets E timeout n =
     (let so = nt_socks n in
      case os_select E (maxfdp1 so) (rset_saved so) (pending_wset so) timeout (nt_os n) of (rc, rd, pwset, s) \<Rightarrow>
      let n = (with_socks n (\<lambda>so. so\<lparr>rset := rd\<rparr>))\<lparr>nt_os := s\<rparr> in
      if rc = SOCKET_ERROR then Some (rc, Some 0, n)
      else Option.bind (Socket_continueWrites E pwset 0 n) (\<lambda>(rcw, sock, n).
        if rcw = SOCKET_ERROR then Some (SOCKET_ERROR, Some sock, n)
        else case os_select E (maxfdp1 (nt_socks n)) {} (rset_saved (nt_socks n)) 0 (nt_os n) of (rc1, rd1, ws, s) \<Rightarrow>
          let n = (with_socks n (\<lambda>so. so\<lparr>wset := ws\<rparr>))\<lparr>nt_os := s\<rparr> in
          if rc1 = SOCKET_ERROR then Some (rc1, Some sock, n)
          else if rc = 0 \<and> rc1 = 0 then Some (rc, Some 0, n)
          else Some (rc, None, n)))"

definition Socket_getReadySocket ::
  "'o os_env \<Rightarrow> bool \<Rightarrow> int option \<Rightarrow> 'o net_state \<Rightarrow> (int \<times> int \<times> 'o net_state) option" where
  "Socket_getReadySocket E more_work tp n =
     (if cl_items (clientsds (nt_socks n)) = [] then Some (0, 0, n)
      else
        let timeout = (if more_work then 0 else case tp of None \<Rightarrow> 1000 | Some t \<Rightarrow> t);
            n = ready_loop (sockets_from_cur n) n;
            take_cur = (\<lambda>n. case cur_clientsds (nt_socks n) of
                None \<Rightarrow> Some (0, 0, n)
              | Some s \<Rightarrow> Some (s, 0, with_socks n (\<lambda>so. so\<lparr>cur_clientsds := next_socket s (cl_items (clientsds so))\<rparr>)))
        in if cur_clientsds (nt_socks n) \<noteq> None then take_cur n
           else Option.bind (poll_sockets E timeout n) (\<lambda>(rc, stop, n).
             case stop of
               Some sock \<Rightarrow> Some (sock, rc, n)
             | None \<Rightarrow> take_cur (ready_loop (cl_items (clientsds (nt_socks n))) n)))"

section \<open>Opening and closing\<close>

definition Socket_close_only :: "'o os_env \<Rightarrow> int \<Rightarrow> 'o net_state \<Rightarrow> int \<times> 'o net_state" where
  "Socket_close_only E socket n =
     (case os_shutdown E socket (nt_os n) of (rc0, s) \<Rightarrow>
      case os_closesocket E socket s of (rc, s) \<Rightarrow> (rc, n\<lparr>nt_os := s\<rparr>))"

definition Socket_close :: "'o os_env \<Rightarrow> int \<Rightarrow> 'o net_state \<Rightarrow> 'o net_state ub" where
  "Socket_close E socket n =
     (let n = snd (Socket_close_only E socket n);
          n = with_socks n (\<lambda>so. so\<lparr>rset_saved := rset_saved so - {socket}, pending_wset := pending_wset so - {socket},
                cur_clientsds := (if cur_clientsds so = Some socket then next_socket socket (cl_items (clientsds so))
                                  else cur_clientsds so)\<rparr>)
      in do {
        (rc, n) \<leftarrow> Socket_abortWrite socket n;
        sb \<leftarrow> SocketBuffer_cleanup socket (nt_sb n);
        Some (with_socks (with_sb n sb) (\<lambda>so.
          let so = so\<lparr>connect_pending := snd (cl_unlink (intcompare socket) (connect_pending so)),
                      write_pending := snd (cl_unlink (intcompare socket) (write_pending so)),
                      clientsds := snd (cl_unlink (intcompare socket) (clientsds so))\<rparr>
          in if maxfdp1 so \<le> socket + 1
             then so\<lparr>maxfdp1 := fold max (cl_items (clientsds so)) 0 + 1\<rparr> else so))
      })"

text \<open>The first IPv4 address of the list, else the last one.\<close>

fun preferred_address :: "(int \<times> bytes) list \<Rightarrow> (int \<times> bytes) option" where
  "preferred_address [] = None"
| "preferred_address [a] = Some a"
| "preferred_address (a # b # l) = (if fst a = PF_INET then Some a else preferred_address (b # l))"

text \<open>Once there is a socket: \<open>addSocket\<close> and \<open>connect\<close>; the second component says whether the function
  returns at once because there is no memory.\<close>

definition open_connection ::
  "'o os_env \<Rightarrow> int \<Rightarrow> int \<Rightarrow> bytes \<Rightarrow> int \<Rightarrow> 'o net_state \<Rightarrow> int \<times> bool \<times> 'o net_state" where
  "open_connection E sock family addr port n =
     (case Socket_addSocket E sock n of (rc, n) \<Rightarrow>
        if rc = SOCKET_ERROR then (Socket_error E n, False, n)
        else case os_connect E sock family addr (port mod 65536) (nt_os n) of (rc, s) \<Rightarrow>
          let n = n\<lparr>nt_os := s\<rparr>;
              rc = (if rc = SOCKET_ERROR then Socket_error E n else rc)
          in if rc = WSAEINPROGRESS \<or> rc = WSAEWOULDBLOCK then
               if os_alloc E (Sizeof ''int'') \<and> os_alloc E (Sizeof ''ListElement'')
               then (rc, False, with_socks n (\<lambda>so. so\<lparr>connect_pending := cl_append sock (connect_pending so)\<rparr>))
               else (PAHO_MEMORY_ERROR, True, n)
             else (rc, False, n))"

definition Socket_new :: "'o os_env \<Rightarrow> bytes \<Rightarrow> nat \<Rightarrow> int \<Rightarrow> 'o net_state \<Rightarrow> (int \<times> int \<times> 'o net_state) ub" where
  "Socket_new E addr addr_len port n =
     do {
       c \<leftarrow> read_at (addr @ [0]) 0;
       let addr' = (if c = 0x5B then drop 1 addr else addr);
       let addr_len' = (if c = 0x5B then addr_len - 1 else addr_len);
       if \<not> os_alloc E (Bytes (addr_len' + 1)) then Some (PAHO_MEMORY_ERROR, - 1, n)
       else if length addr' + 1 < addr_len' then None
       else case os_getaddrinfo E (take addr_len' (addr' @ [0])) (nt_os n) of (rc, result, s) \<Rightarrow>
         let n = n\<lparr>nt_os := s\<rparr> in
         if rc \<noteq> 0 then Some (rc, - 1, n)
         else case preferred_address result of
           None \<Rightarrow> Some (- 1, - 1, n)
         | Some (family, a) \<Rightarrow>
             if family \<noteq> PF_INET \<and> family \<noteq> PF_INET6 then Some (- 1, - 1, n)
             else case os_socket E family (nt_os n) of (sock, s) \<Rightarrow>
               let n = n\<lparr>nt_os := s\<rparr> in
               if sock = INVALID_SOCKET then Some (Socket_error E n, sock, n)
               else case open_connection E sock family a port n of (rc, out, n) \<Rightarrow>
                 if out \<or> rc = 0 \<or> rc = WSAEINPROGRESS \<or> rc = WSAEWOULDBLOCK then Some (rc, sock, n)
                 else do { n \<leftarrow> Socket_close E sock n; Some (rc, - 1, n) }
     }"

end
