(* ===== verification/CString.thy ===== *)
theory CString
  imports CursorList
begin

text \<open>
  The functions of the C library on strings that the sources use, and the decimal numbers of \<open>%d\<close> and
  \<open>%u\<close>.  A string is its bytes without the terminating zero; a pointer into it is an index.
\<close>

section \<open>Searching\<close>

definition strchr :: "bytes \<Rightarrow> byte \<Rightarrow> nat option" where
  "strchr s c = find_index (\<lambda>x. x = c) s"

definition strrchr :: "bytes \<Rightarrow> byte \<Rightarrow> nat option" where
  "strrchr s c = map_option (\<lambda>j. length s - 1 - j) (find_index (\<lambda>x. x = c) (rev s))"

fun strstr :: "bytes \<Rightarrow> bytes \<Rightarrow> nat option" where
  "strstr [] p = (if p = [] then Some 0 else None)"
| "strstr (c # s) p = (if take (length p) (c # s) = p then Some 0 else map_option Suc (strstr s p))"

lemma strstr_front: "strstr (p @ x) p = Some 0"
  by (cases "p @ x") (simp_all, metis append_eq_conv_conj)

lemma strchr_first: "c \<notin> set s \<Longrightarrow> strchr (s @ c # rest) c = Some (length s)"
  unfolding strchr_def by (induction s) auto

lemma strchr_none: "c \<notin> set s \<Longrightarrow> strchr s c = None"
  unfolding strchr_def by (auto simp: find_index_None_iff)

section \<open>Numbers\<close>

definition isspace :: "byte \<Rightarrow> bool" where
  "isspace c \<longleftrightarrow> c = 0x20 \<or> (9 \<le> c \<and> c \<le> 13)"

definition isdigit :: "byte \<Rightarrow> bool" where
  "isdigit c \<longleftrightarrow> 0x30 \<le> c \<and> c \<le> 0x39"

definition isxdigit :: "byte \<Rightarrow> bool" where
  "isxdigit c \<longleftrightarrow> isdigit c \<or> (0x41 \<le> c \<and> c \<le> 0x46) \<or> (0x61 \<le> c \<and> c \<le> 0x66)"

definition digit_value :: "byte \<Rightarrow> nat" where
  "digit_value c = (if c \<le> 0x39 then unat c - 0x30 else if c \<le> 0x46 then unat c - 0x37 else unat c - 0x57)"

text \<open>A number that is not an \<open>int\<close> makes \<open>atoi\<close> undefined.\<close>

definition atoi :: "bytes \<Rightarrow> int ub" where
  "atoi s =
     (let s = dropWhile isspace s;
          neg = (s \<noteq> [] \<and> s ! 0 = 0x2D);
          s = (if s \<noteq> [] \<and> (s ! 0 = 0x2D \<or> s ! 0 = 0x2B) then drop 1 s else s);
          n = int (foldl (\<lambda>n c. n * 10 + digit_value c) 0 (takeWhile isdigit s));
          n = (if neg then - n else n)
      in if - (2 ^ 31) \<le> n \<and> n < 2 ^ 31 then Some n else None)"

definition c_string :: "bytes \<Rightarrow> bytes" where
  "c_string buf = takeWhile (\<lambda>c. c \<noteq> 0) buf"

text \<open>\<open>%u\<close> and \<open>%d\<close>.\<close>

fun dec_bytes :: "nat \<Rightarrow> bytes" where
  "dec_bytes n = (if n < 10 then [0x30 + of_nat n] else dec_bytes (n div 10) @ [0x30 + of_nat (n mod 10)])"

declare dec_bytes.simps [simp del]

definition dec_int :: "int \<Rightarrow> bytes" where
  "dec_int n = (if n < 0 then 0x2D # dec_bytes (nat (- n)) else dec_bytes (nat n))"

lemma isdigit_dec_bytes: "c \<in> set (dec_bytes n) \<Longrightarrow> isdigit c"
proof (induction n rule: dec_bytes.induct)
  case (1 n)
  have d: "isdigit (0x30 + of_nat m)" if "m < 10" for m :: nat
  proof -
    have "m = 0 \<or> m = 1 \<or> m = 2 \<or> m = 3 \<or> m = 4 \<or> m = 5 \<or> m = 6 \<or> m = 7 \<or> m = 8 \<or> m = 9"
      using that by presburger
    then show ?thesis by (elim disjE) (simp_all add: isdigit_def)
  qed
  show ?case
  proof (cases "n < 10")
    case True
    then show ?thesis using 1(2) d [of n] by (simp add: dec_bytes.simps [of n])
  next
    case False
    have "n mod 10 < 10" by simp
    then show ?thesis using 1 False d [of "n mod 10"] by (auto simp: dec_bytes.simps [of n])
  qed
qed

lemma dec_bytes_nonempty [simp]: "dec_bytes n \<noteq> []"
  by (subst dec_bytes.simps) simp

lemma digit_value_of: "m < 10 \<Longrightarrow> digit_value (0x30 + of_nat m) = m"
proof -
  assume "m < 10"
  then have "m = 0 \<or> m = 1 \<or> m = 2 \<or> m = 3 \<or> m = 4 \<or> m = 5 \<or> m = 6 \<or> m = 7 \<or> m = 8 \<or> m = 9" by presburger
  then show ?thesis by (elim disjE) (simp_all add: digit_value_def)
qed

lemma dec_bytes_value: "foldl (\<lambda>n c. n * 10 + digit_value c) 0 (dec_bytes n) = n"
proof (induction n rule: dec_bytes.induct)
  case (1 n)
  then show ?case by (subst dec_bytes.simps) (auto simp: digit_value_of)
qed

lemma dec_bytes_inj [simp]: "dec_bytes m = dec_bytes n \<longleftrightarrow> m = n"
  using dec_bytes_value by metis

lemma length_dec_bytes: "n < 10 ^ Suc k \<Longrightarrow> length (dec_bytes n) \<le> Suc k"
proof (induction k arbitrary: n)
  case 0
  then show ?case by (subst dec_bytes.simps) simp
next
  case (Suc k)
  then have "n div 10 < 10 ^ Suc k" by (simp add: less_mult_imp_div_less mult.commute)
  then show ?case using Suc.IH [of "n div 10"] by (subst dec_bytes.simps) simp
qed

lemma length_dec_bytes_ge: "10 ^ k \<le> n \<Longrightarrow> Suc k \<le> length (dec_bytes n)"
proof (induction k arbitrary: n)
  case 0
  show ?case by (simp add: Suc_le_eq)
next
  case (Suc k)
  then have "10 ^ k \<le> n div 10" "\<not> n < 10"
    by (simp_all add: less_eq_div_iff_mult_less_eq mult.commute not_less) (metis le_trans one_le_numeral one_le_power mult_le_mono2 mult.right_neutral)
  then show ?case using Suc.IH [of "n div 10"] by (subst dec_bytes.simps) simp
qed

lemma atoi_dec_bytes: "n < 2 ^ 31 \<Longrightarrow> atoi (dec_bytes n) = Some (int n)"
proof -
  assume n: "n < 2 ^ 31"
  obtain c cs where cs: "dec_bytes n = c # cs" by (cases "dec_bytes n") auto
  have d: "\<forall>x \<in> set (c # cs). isdigit x" using isdigit_dec_bytes [of _ n] cs by auto
  then have c: "\<not> isspace c" "c \<noteq> 0x2D" "c \<noteq> 0x2B"
    by (auto simp: isdigit_def isspace_def word_le_nat_alt)
  have t: "takeWhile isdigit (c # cs) = c # cs" using d by (simp add: takeWhile_eq_all_conv)
  have v: "foldl (\<lambda>n c. n * 10 + digit_value c) 0 (c # cs) = n" using dec_bytes_value [of n] cs by simp
  show ?thesis unfolding cs atoi_def Let_def using c t v n by simp
qed

end
