(* ===== verification/WebSocket.thy ===== *)
theory WebSocket
  imports SocketLayer Addresses Sha1
begin

text \<open>
  \<open>WebSocket.c\<close>: MQTT over WebSocket frames, or directly over the socket when the connection was not
  upgraded, and the HTTP exchanges that upgrade a connection or open a tunnel through a proxy
  (\<open>WebSocket_socks5_proxy_connect\<close> is in \<open>Socks5\<close>).

  A received frame is its data and the position up to which they were read; \<open>in_frames\<close> is \<open>NULL\<close> before
  the first frame, and an entry \<open>None\<close> of the list is a pointer to a freed frame.  \<open>rand\<close>, the UUIDs,
  \<open>time\<close> and \<open>Sleep\<close> are arguments, and so is \<open>we_rcs\<close>, the value that the variable \<open>rcs\<close>, which has no
  initialiser, happens to have.  A function that reads or frees memory it must not has no result.
\<close>

section \<open>State\<close>

record ws_frame =
  fr_pos :: nat
  fr_data :: bytes

record 'o web_state =
  ws_net :: "'o net_state"
  in_frames :: "ws_frame option list option"
  last_frame :: "ws_frame option"
  frame_buffer :: "bytes option"
  frame_buffer_len :: nat
  frame_buffer_index :: nat
  frame_buffer_data_len :: nat

record 'o web_env =
  we_os :: "'o os_env"
  we_rand :: "'o \<Rightarrow> nat \<times> 'o"
  we_uuid :: "'o \<Rightarrow> bytes \<times> 'o"
  we_time :: "'o \<Rightarrow> int \<times> 'o"
  we_sleep :: "'o \<Rightarrow> 'o"
  we_rcs :: int

abbreviation (input) WebSocket_OP_CONTINUE :: int where "WebSocket_OP_CONTINUE \<equiv> 0"
abbreviation (input) WebSocket_OP_TEXT :: int where "WebSocket_OP_TEXT \<equiv> 1"
abbreviation (input) WebSocket_OP_BINARY :: int where "WebSocket_OP_BINARY \<equiv> 2"
abbreviation (input) WebSocket_OP_CLOSE :: int where "WebSocket_OP_CLOSE \<equiv> 8"
abbreviation (input) WebSocket_OP_PING :: int where "WebSocket_OP_PING \<equiv> 9"
abbreviation (input) WebSocket_OP_PONG :: int where "WebSocket_OP_PONG \<equiv> 10"
abbreviation (input) WebSocket_CLOSE_NORMAL :: int where "WebSocket_CLOSE_NORMAL \<equiv> 1000"
abbreviation (input) WebSocket_CLOSE_GOING_AWAY :: int where "WebSocket_CLOSE_GOING_AWAY \<equiv> 1001"
abbreviation (input) WebSocket_CLOSE_TLS_FAIL :: int where "WebSocket_CLOSE_TLS_FAIL \<equiv> 1015"

definition with_net :: "'o web_state \<Rightarrow> 'o net_state \<Rightarrow> 'o web_state" where
  "with_net w n = w\<lparr>ws_net := n\<rparr>"

definition with_os :: "'o web_state \<Rightarrow> 'o \<Rightarrow> 'o web_state" where
  "with_os w s = w\<lparr>ws_net := (ws_net w)\<lparr>nt_os := s\<rparr>\<rparr>"

text \<open>\<open>in_frames && in_frames->first\<close>, and the frame; a freed frame cannot be used.\<close>

definition first_frame :: "'o web_state \<Rightarrow> ws_frame option ub" where
  "first_frame w =
     (case in_frames w of
        Some (None # l) \<Rightarrow> None
      | Some (Some f # l) \<Rightarrow> Some (Some f)
      | _ \<Rightarrow> Some None)"

definition set_first_frame :: "ws_frame option \<Rightarrow> 'o web_state \<Rightarrow> 'o web_state" where
  "set_first_frame f w = (case in_frames w of Some (g # l) \<Rightarrow> w\<lparr>in_frames := Some (f # l)\<rparr> | _ \<Rightarrow> w)"

text \<open>\<open>last_frame = ListDetachHead(in_frames)\<close>, after \<open>last_frame\<close> was freed.\<close>

definition detach_frame :: "'o web_state \<Rightarrow> 'o web_state" where
  "detach_frame w = (case in_frames w of Some (g # l) \<Rightarrow> w\<lparr>in_frames := Some l, last_frame := g\<rparr> | _ \<Rightarrow> w)"

text \<open>The block that \<open>Socket_putdatas\<close> was given as its first buffer is freed: when it is still to be
  written, the pending write is left with a dangling pointer.\<close>

definition free_written :: "int \<Rightarrow> int \<Rightarrow> 'o web_state \<Rightarrow> 'o web_state" where
  "free_written rc socket w =
     (if rc \<noteq> TCPSOCKET_INTERRUPTED then w
      else case SocketBuffer_getWrite socket (nt_sb (ws_net w)) of
        (None, sb) \<Rightarrow> w
      | (Some (j, pw), sb) \<Rightarrow>
          with_net w (with_sb (ws_net w) (set_write j (pw\<lparr>pws_iovecs := map (\<lambda>(base, len). (None, len)) (pws_iovecs pw)\<rparr>)
            (nt_sb (ws_net w)))))"

section \<open>Frames to send\<close>

definition WebSocket_calculateFrameHeaderSize :: "networkHandles \<Rightarrow> bool \<Rightarrow> nat \<Rightarrow> nat" where
  "WebSocket_calculateFrameHeaderSize nh mask_data data_len =
     (if net_websocket nh
      then (if data_len < 126 then 2 else if data_len < 65536 then 4 else if data_len < 2 ^ 64 - 1 then 10 else 0)
        + (if mask_data then 4 else 0)
      else 0)"

fun mask_bytes :: "bytes \<Rightarrow> nat \<Rightarrow> bytes \<Rightarrow> bytes" where
  "mask_bytes key idx [] = []"
| "mask_bytes key idx (b # bs) = (b XOR key ! (idx mod 4)) # mask_bytes key (Suc idx) bs"

definition mask_buffer :: "bytes \<Rightarrow> nat \<Rightarrow> bytes option \<Rightarrow> nat \<Rightarrow> bytes option ub" where
  "mask_buffer key idx base len =
     (case base of
        None \<Rightarrow> if len = 0 then Some None else None
      | Some b \<Rightarrow> if len \<le> length b then Some (Some (mask_bytes key idx (take len b) @ drop len b)) else None)"

text \<open>The masking of the buffers in place; without a new mask it stops at the buffer 2 or the last one.\<close>

fun mask_buffers :: "bytes \<Rightarrow> bool \<Rightarrow> nat \<Rightarrow> nat \<Rightarrow> nat \<Rightarrow> (bytes option \<times> nat) list \<Rightarrow> bytes option list ub" where
  "mask_buffers key new_mask i count idx [] = Some []"
| "mask_buffers key new_mask i count idx ((base, len) # r) =
     (if \<not> new_mask \<and> (i = 2 \<or> Suc i = count) then Some (base # map fst r)
      else do {
        b \<leftarrow> mask_buffer key idx base len;
        l \<leftarrow> mask_buffers key new_mask (Suc i) count (idx + len) r;
        Some (b # l)
      })"

definition new_mask_bytes :: "'o web_env \<Rightarrow> 'o \<Rightarrow> bytes \<times> 'o" where
  "new_mask_bytes E s =
     (case we_rand E s of (a, s) \<Rightarrow> case we_rand E s of (b, s) \<Rightarrow>
      case we_rand E s of (c, s) \<Rightarrow> case we_rand E s of (d, s) \<Rightarrow>
        (map (\<lambda>r. of_nat (r mod 255)) [a, b, c, d], s))"

definition frame_header :: "int \<Rightarrow> bool \<Rightarrow> nat \<Rightarrow> bytes" where
  "frame_header opcode mask_data data_len =
     (let b = (if mask_data then 0x80 else 0 :: byte) in
      (0x80 OR (of_int opcode AND 0x0F)) #
      (if data_len < 126 then [b OR (of_nat data_len AND 0x7F)]
       else if data_len < 65536 then (b OR 126) # be_bytes 2 data_len
       else (b OR 127) # be_bytes 8 data_len))"

text \<open>\<open>struct frameData\<close> and the buffers afterwards; the block is \<open>None\<close> without memory.\<close>

definition WebSocket_buildFrame ::
  "'o web_env \<Rightarrow> networkHandles \<Rightarrow> int \<Rightarrow> bool \<Rightarrow> bytes option \<Rightarrow> PacketBuffers \<Rightarrow> 'o \<Rightarrow>
   (bytes option \<times> nat \<times> PacketBuffers \<times> 'o) ub" where
  "WebSocket_buildFrame E nh opcode mask_data buf0 bufs s =
     (if \<not> net_websocket nh then Some (None, 0, bufs, s)
      else
        let head = (case buf0 of None \<Rightarrow> [] | Some b \<Rightarrow> b);
            data_len = length head + sum_list (pbs_buflens bufs);
            ws_header_size = WebSocket_calculateFrameHeaderSize nh mask_data data_len;
            len = length head + ws_header_size
        in if \<not> os_alloc (we_os E) (Bytes len) then Some (None, if buf0 = None then 0 else len, bufs, s)
        else
          let new_mask = (mask_data \<and> pbs_mask bufs ! 0 = 0);
              (key, s) = (if new_mask then new_mask_bytes E s else (pbs_mask bufs, s))
          in if \<not> mask_data then Some (Some (frame_header opcode mask_data data_len @ head), len, bufs, s)
          else do {
            l \<leftarrow> mask_buffers key new_mask 0 (length (pbs_buflens bufs)) (length head)
                   (zip (pbs_buffers bufs) (pbs_buflens bufs));
            Some (Some (frame_header opcode mask_data data_len @ key @ mask_bytes key 0 head), len,
              bufs\<lparr>pbs_buffers := l, pbs_mask := key\<rparr>, s)
          })"

definition WebSocket_unmaskData :: "nat \<Rightarrow> PacketBuffers \<Rightarrow> PacketBuffers ub" where
  "WebSocket_unmaskData idx bufs =
     do {
       l \<leftarrow> mask_buffers (pbs_mask bufs) True 0 (length (pbs_buflens bufs)) idx (zip (pbs_buffers bufs) (pbs_buflens bufs));
       Some (bufs\<lparr>pbs_buffers := l, pbs_mask := [0, 0, 0, 0]\<rparr>)
     }"

text \<open>\<open>Socket_putdatas\<close> with the block of a frame; a null pointer with a length cannot be written.\<close>

definition put_frame ::
  "'o web_env \<Rightarrow> int \<Rightarrow> bytes option \<Rightarrow> nat \<Rightarrow> PacketBuffers \<Rightarrow> 'o web_state \<Rightarrow> (int \<times> 'o web_state) ub" where
  "put_frame E socket wsbuf0 len bufs w =
     do {
       buf \<leftarrow> (case wsbuf0 of None \<Rightarrow> if len = 0 then Some [] else None | Some b \<Rightarrow> Some b);
       (rc, n) \<leftarrow> Socket_putdatas (we_os E) socket buf bufs (ws_net w);
       Some (rc, with_net w n)
     }"

definition WebSocket_putdatas ::
  "'o web_env \<Rightarrow> networkHandles \<Rightarrow> bytes \<Rightarrow> PacketBuffers \<Rightarrow> 'o web_state \<Rightarrow> (int \<times> PacketBuffers \<times> 'o web_state) ub" where
  "WebSocket_putdatas E nh buf0 bufs w =
     (if net_websocket nh then
        do {
          (wsbuf0, len, bufs, s) \<leftarrow> WebSocket_buildFrame E nh WebSocket_OP_BINARY True (Some buf0) bufs (nt_os (ws_net w));
          (rc, w) \<leftarrow> put_frame E (net_socket nh) wsbuf0 len bufs (with_os w s);
          if rc \<noteq> TCPSOCKET_INTERRUPTED
          then do { bufs \<leftarrow> WebSocket_unmaskData (length buf0) bufs; Some (rc, bufs, w) }
          else Some (rc, bufs, w)
        }
      else do {
        (rc, w) \<leftarrow> put_frame E (net_socket nh) (Some buf0) (length buf0) bufs w;
        Some (rc, bufs, w)
      })"

definition no_buffers :: PacketBuffers where
  "no_buffers = \<lparr>pbs_buffers = [], pbs_buflens = [], pbs_frees = [], pbs_mask = [0, 0, 0, 0]\<rparr>"

text \<open>\<open>WebSocket_close\<close>: \<open>strcpy\<close> of a reason writes its terminating zero behind the block.\<close>

definition WebSocket_close ::
  "'o web_env \<Rightarrow> networkHandles \<Rightarrow> int \<Rightarrow> bytes option \<Rightarrow> 'o web_state \<Rightarrow> (networkHandles \<times> 'o web_state) ub" where
  "WebSocket_close E nh status_code reason w =
     (if net_websocket nh then
        let status_code = (if status_code < WebSocket_CLOSE_NORMAL \<or> status_code > WebSocket_CLOSE_TLS_FAIL
                           then WebSocket_CLOSE_GOING_AWAY else status_code)
        in if \<not> os_alloc (we_os E) (Bytes (2 + (case reason of None \<Rightarrow> 0 | Some r \<Rightarrow> length r))) then Some (nh, w)
        else if reason \<noteq> None then None
        else do {
          (wsbuf0, len, bufs, s) \<leftarrow> WebSocket_buildFrame E nh WebSocket_OP_CLOSE True
             (Some (be_bytes 2 (nat status_code))) no_buffers (nt_os (ws_net w));
          (rc, w) \<leftarrow> put_frame E (net_socket nh) wsbuf0 len no_buffers (with_os w s);
          Some (nh\<lparr>net_websocket := False, net_websocket_key := None\<rparr>, free_written rc (net_socket nh) w)
        }
      else Some (nh\<lparr>net_websocket_key := None\<rparr>, w))"

text \<open>The application data of a PONG are masked in place and freed by the caller.\<close>

definition WebSocket_pong :: "'o web_env \<Rightarrow> networkHandles \<Rightarrow> bytes \<Rightarrow> 'o web_state \<Rightarrow> 'o web_state ub" where
  "WebSocket_pong E nh app_data w =
     (if net_websocket nh then
        do {
          (wsbuf0, len, bufs, s) \<leftarrow> WebSocket_buildFrame E nh WebSocket_OP_PONG True None
             \<lparr>pbs_buffers = [Some app_data], pbs_buflens = [length app_data], pbs_frees = [False], pbs_mask = [0, 0, 0, 0]\<rparr>
             (nt_os (ws_net w));
          (rc, w) \<leftarrow> put_frame E (net_socket nh) wsbuf0 len bufs (with_os w s);
          Some (free_written rc (net_socket nh) w)
        }
      else Some w)"


section \<open>Raw data\<close>

definition WebSocket_rewindData :: "'o web_state \<Rightarrow> 'o web_state" where
  "WebSocket_rewindData w = w\<lparr>frame_buffer_index := 0\<rparr>"

text \<open>The next \<open>bytes\<close> of the buffer, which has enough of them.\<close>

definition take_raw :: "nat \<Rightarrow> int \<Rightarrow> 'o web_state \<Rightarrow> (bytes option \<times> nat \<times> int \<times> 'o web_state) ub" where
  "take_raw bytes rc w =
     Some (map_option (drop (frame_buffer_index w)) (frame_buffer w), bytes, rc,
       w\<lparr>frame_buffer_index := frame_buffer_index w + bytes\<rparr>)"

definition append_raw :: "'o web_env \<Rightarrow> bytes \<Rightarrow> 'o web_state \<Rightarrow> 'o web_state option ub" where
  "append_raw E data w =
     (let m = frame_buffer_data_len w + length data in
      case frame_buffer w of
        None \<Rightarrow>
          Some (if os_alloc (we_os E) (Bytes (length data))
                then Some (w\<lparr>frame_buffer := Some data, frame_buffer_index := 0,
                  frame_buffer_data_len := length data, frame_buffer_len := length data\<rparr>)
                else None)
      | Some fb \<Rightarrow>
          if m < frame_buffer_len w then
            do { fb \<leftarrow> memcpy_at fb (frame_buffer_data_len w) data;
                 Some (Some (w\<lparr>frame_buffer := Some fb, frame_buffer_data_len := m\<rparr>)) }
          else if \<not> os_alloc (we_os E) (Bytes m) then None
          else do {
            fb \<leftarrow> memcpy_at (take m fb @ replicate (m - length fb) (os_junk (we_os E))) (frame_buffer_data_len w) data;
            Some (Some (w\<lparr>frame_buffer := Some fb, frame_buffer_len := m, frame_buffer_data_len := m\<rparr>))
          })"

text \<open>The pointer, \<open>*actual_len\<close> and \<open>*rc\<close>; \<open>rc\<close> is its value before.\<close>

definition WebSocket_getRawSocketData ::
  "'o web_env \<Rightarrow> networkHandles \<Rightarrow> nat \<Rightarrow> int \<Rightarrow> 'o web_state \<Rightarrow> (bytes option \<times> nat \<times> int \<times> 'o web_state) ub" where
  "WebSocket_getRawSocketData E nh bytes rc w =
     (let left = to_size (int (frame_buffer_data_len w) - int (frame_buffer_index w)) in
      if 0 < bytes \<and> bytes \<le> left then take_raw bytes rc w
      else do {
        let wanted = (if 0 < bytes then bytes - left else 0);
        (rv, actual_len, rc, n) \<leftarrow> Socket_getdata (we_os E) (net_socket nh) wanted 0 rc (ws_net w);
        let w = with_net w n;
        if rc = 0 then Some (rv, actual_len, SOCKET_ERROR, w)
        else if wanted = 0 then
          Some (rv, actual_len, rc,
            w\<lparr>frame_buffer := None, frame_buffer_index := 0, frame_buffer_data_len := 0, frame_buffer_len := 0\<rparr>)
        else case rv of
          None \<Rightarrow> Some (None, actual_len, rc, w)
        | Some data \<Rightarrow>
            if actual_len = 0 then Some (Some data, actual_len, rc, w)
            else if length data < actual_len then None
            else do {
              r \<leftarrow> append_raw E (take actual_len data) w;
              (case r of
                 None \<Rightarrow> Some (None, actual_len, rc, w)
               | Some w \<Rightarrow>
                   do {
                     (buf, sb) \<leftarrow> SocketBuffer_complete (net_socket nh) (nt_sb (ws_net w));
                     let w = with_net w (with_sb (ws_net w) sb);
                     let left = to_size (int (frame_buffer_data_len w) - int (frame_buffer_index w));
                     take_raw (min bytes left) rc w
                   })
            }
      })"

section \<open>Receiving frames\<close>

text \<open>Steps that may leave the function with a return code.\<close>

definition and_then ::
  "((int + 'a) \<times> 's) ub \<Rightarrow> ('a \<Rightarrow> 's \<Rightarrow> ((int + 'b) \<times> 's) ub) \<Rightarrow> ((int + 'b) \<times> 's) ub" where
  "and_then m f = Option.bind m (\<lambda>(r, s). case r of Inl rc \<Rightarrow> Some (Inl rc, s) | Inr a \<Rightarrow> f a s)"

text \<open>A call of \<open>WebSocket_getRawSocketData\<close> with the checks of its results; \<open>null_rc\<close> is returned for a
  null pointer.\<close>

definition read_raw ::
  "'o web_env \<Rightarrow> networkHandles \<Rightarrow> nat \<Rightarrow> int \<Rightarrow> int \<Rightarrow> 'o web_state \<Rightarrow> ((int + bytes \<times> int) \<times> 'o web_state) ub" where
  "read_raw E nh bytes null_rc rcs w =
     do {
       (b, len, rcs, w) \<leftarrow> WebSocket_getRawSocketData E nh bytes rcs w;
       if rcs = SOCKET_ERROR then Some (Inl rcs, w)
       else case b of
         None \<Rightarrow> Some (Inl null_rc, w)
       | Some data \<Rightarrow>
           if len < bytes then Some (Inl TCPSOCKET_INTERRUPTED, w)
           else if length data < len then None
           else Some (Inr (take len data, rcs), w)
     }"

text \<open>The extended length, and the mask, which goes into a variable of the inner block.\<close>

definition read_length ::
  "'o web_env \<Rightarrow> networkHandles \<Rightarrow> nat \<Rightarrow> int \<Rightarrow> 'o web_state \<Rightarrow> ((int + nat \<times> int) \<times> 'o web_state) ub" where
  "read_length E nh payload_len rcs w =
     (if payload_len = 126
      then and_then (read_raw E nh 2 SOCKET_ERROR rcs w) (\<lambda>(b, rcs) w. Some (Inr (be_nat (take 2 b), rcs), w))
      else if payload_len = 127
      then and_then (read_raw E nh 8 SOCKET_ERROR rcs w) (\<lambda>(b, rcs) w. Some (Inr (be_nat (take 8 b), rcs), w))
      else Some (Inr (payload_len, rcs), w))"

definition read_mask ::
  "'o web_env \<Rightarrow> networkHandles \<Rightarrow> bool \<Rightarrow> int \<Rightarrow> 'o web_state \<Rightarrow> ((int + int) \<times> 'o web_state) ub" where
  "read_mask E nh has_mask rcs w =
     (if has_mask then and_then (read_raw E nh 4 SOCKET_ERROR rcs w) (\<lambda>(b, rcs) w. Some (Inr rcs, w))
      else Some (Inr rcs, w))"

text \<open>One frame: whether it is final, the opcode, the payload, and \<open>rcs\<close>.  The mask used is the outer
  variable, which is zero.\<close>

definition read_frame ::
  "'o web_env \<Rightarrow> networkHandles \<Rightarrow> int \<Rightarrow> 'o web_state \<Rightarrow> ((int + bool \<times> int \<times> bytes \<times> int) \<times> 'o web_state) ub" where
  "read_frame E nh opcode w =
     and_then (read_raw E nh 2 TCPSOCKET_INTERRUPTED (we_rcs E) w) (\<lambda>(b, rcs) w.
       let tmp_opcode = uint (b ! 0 AND 0x0F);
           opcode = (if tmp_opcode \<noteq> 0 then tmp_opcode else opcode);
           has_mask = bit (b ! 1) 7
       in if opcode < WebSocket_OP_CONTINUE \<or> opcode > WebSocket_OP_PONG \<or>
             (opcode > WebSocket_OP_BINARY \<and> opcode < WebSocket_OP_CLOSE)
          then Some (Inl SOCKET_ERROR, w)
          else and_then (read_length E nh (unat (b ! 1 AND 0x7F)) rcs w) (\<lambda>(payload_len, rcs) w.
            and_then (read_mask E nh has_mask rcs w) (\<lambda>rcs w.
            and_then (read_raw E nh payload_len SOCKET_ERROR rcs w) (\<lambda>(data, rcs) w.
              Some (Inr (bit (b ! 0) 7, opcode,
                if has_mask then mask_bytes [0, 0, 0, 0] 0 data else data, rcs), w)))))"

text \<open>The payload is appended to \<open>res\<close>, which becomes the first frame of a list that has one.\<close>

definition add_payload ::
  "'o web_env \<Rightarrow> networkHandles \<Rightarrow> bytes \<Rightarrow> int \<Rightarrow> ws_frame option \<Rightarrow> 'o web_state \<Rightarrow> ((int + ws_frame) \<times> 'o web_state) ub" where
  "add_payload E nh payload rcs res w =
     (let f = (case res of
                 None \<Rightarrow> \<lparr>fr_pos = 0, fr_data = payload\<rparr>
               | Some f \<Rightarrow> f\<lparr>fr_data := fr_data f @ payload\<rparr>)
      in if \<not> os_alloc (we_os E) (Bytes (16 + length (fr_data f))) then Some (Inl PAHO_MEMORY_ERROR, w)
      else do {
        (b, len, rcs, w) \<leftarrow> WebSocket_getRawSocketData E nh 0 rcs (set_first_frame (Some f) w);
        Some (if rcs = SOCKET_ERROR then Inl rcs else Inr f, w)
      })"

text \<open>Both loops of \<open>WebSocket_receiveFrame\<close>: the return code, the frame, the connection and the state.\<close>

partial_function (option) receive_loop ::
  "'o web_env \<Rightarrow> networkHandles \<Rightarrow> int \<Rightarrow> ws_frame option \<Rightarrow> 'o web_state \<Rightarrow>
   ((int + ws_frame) \<times> networkHandles \<times> 'o web_state) option" where
  "receive_loop E nh opcode res w =
     Option.bind (and_then (read_frame E nh opcode w) (\<lambda>(final, opcode, payload, rcs) w.
         and_then (add_payload E nh payload rcs res w) (\<lambda>f w. Some (Inr (final, opcode, f), w))))
       (\<lambda>(r, w). case r of
          Inl rc \<Rightarrow> Some (Inl rc, nh, w)
        | Inr (final, opcode, f) \<Rightarrow>
            if \<not> final then receive_loop E nh opcode (Some f) w
            else if opcode = WebSocket_OP_PING then
              Option.bind (WebSocket_pong E nh (fr_data f) w) (\<lambda>w.
                receive_loop E nh opcode None (set_first_frame None w))
            else if opcode = WebSocket_OP_PONG then receive_loop E nh opcode None (set_first_frame None w)
            else if opcode = WebSocket_OP_CLOSE then
              map_option (\<lambda>(nh, w). (Inl SOCKET_ERROR, nh, w))
                (WebSocket_close E nh WebSocket_CLOSE_GOING_AWAY None (set_first_frame None w))
            else Some (Inr f, nh, w))"

text \<open>\<open>*actual_len\<close> is only set when a frame was received.  An append without memory is not noticed.\<close>

definition WebSocket_receiveFrame ::
  "'o web_env \<Rightarrow> networkHandles \<Rightarrow> nat \<Rightarrow> 'o web_state \<Rightarrow> (int \<times> nat \<times> networkHandles \<times> 'o web_state) option" where
  "WebSocket_receiveFrame E nh actual_len w =
     (if in_frames w = None \<and> \<not> os_alloc (we_os E) (Sizeof ''List'') then None
      else do {
        let w = (if in_frames w = None then w\<lparr>in_frames := Some []\<rparr> else w);
        res \<leftarrow> first_frame w;
        (r, nh, w) \<leftarrow> receive_loop E nh WebSocket_OP_BINARY res w;
        Some (case r of
            Inl rc \<Rightarrow> (rc, actual_len, nh, if rc = TCPSOCKET_INTERRUPTED then WebSocket_rewindData w else w)
          | Inr f \<Rightarrow>
              (TCPSOCKET_COMPLETE, to_size (int (length (fr_data f)) - int (fr_pos f)), nh,
               if in_frames w = Some [] \<and> os_alloc (we_os E) (Sizeof ''ListElement'')
               then w\<lparr>in_frames := Some [Some f]\<rparr> else w))
      })"

section \<open>Reading\<close>

definition frame_at_end :: "ws_frame option \<Rightarrow> bool" where
  "frame_at_end f = (case f of None \<Rightarrow> True | Some f \<Rightarrow> length (fr_data f) = fr_pos f)"

text \<open>The return code and \<open>*c\<close>, which is not set when a frame is empty.\<close>

definition WebSocket_getch ::
  "'o web_env \<Rightarrow> networkHandles \<Rightarrow> 'o web_state \<Rightarrow> (int \<times> byte \<times> networkHandles \<times> 'o web_state) option" where
  "WebSocket_getch E nh w =
     (if net_websocket nh then
        do {
          f \<leftarrow> first_frame w;
          (rc, nh, w) \<leftarrow> (if frame_at_end f
             then map_option (\<lambda>(rc, actual_len, nh, w). (rc, nh, w)) (WebSocket_receiveFrame E nh 0 w)
             else Some (TCPSOCKET_COMPLETE, nh, w));
          if rc \<noteq> TCPSOCKET_COMPLETE then Some (rc, os_junk (we_os E), nh, w)
          else do {
            f \<leftarrow> first_frame w;
            Some (case f of
                None \<Rightarrow> (rc, os_junk (we_os E), nh, w)
              | Some f \<Rightarrow>
                  if fr_pos f < length (fr_data f)
                  then (TCPSOCKET_COMPLETE, fr_data f ! fr_pos f, nh, set_first_frame (Some (f\<lparr>fr_pos := fr_pos f + 1\<rparr>)) w)
                  else (rc, os_junk (we_os E), nh, w))
          }
        }
      else
        map_option (\<lambda>(rc, c, n). (rc, c, nh, with_net w n)) (Socket_getch (we_os E) (net_socket nh) (ws_net w)))"

definition WebSocket_framePos :: "'o web_state \<Rightarrow> nat ub" where
  "WebSocket_framePos w = map_option (\<lambda>f. case f of None \<Rightarrow> 0 | Some f \<Rightarrow> fr_pos f) (first_frame w)"

definition WebSocket_framePosSeekTo :: "nat \<Rightarrow> 'o web_state \<Rightarrow> 'o web_state ub" where
  "WebSocket_framePosSeekTo pos w =
     map_option (\<lambda>f. case f of None \<Rightarrow> w | Some f \<Rightarrow> set_first_frame (Some (f\<lparr>fr_pos := pos\<rparr>)) w) (first_frame w)"

text \<open>The loop of \<open>WebSocket_getdata\<close> over the rest of the first frame: the pointer, \<open>*actual_len\<close>, and whether
  there are enough bytes.\<close>

partial_function (option) getdata_loop ::
  "'o web_env \<Rightarrow> networkHandles \<Rightarrow> nat \<Rightarrow> ws_frame \<Rightarrow> 'o web_state \<Rightarrow>
   (bytes \<times> nat \<times> bool \<times> networkHandles \<times> 'o web_state) option" where
  "getdata_loop E nh bytes f w =
     (let rv = drop (fr_pos f) (fr_data f);
          actual_len = to_size (int (length (fr_data f)) - int (fr_pos f))
      in if bytes \<le> actual_len then Some (rv, actual_len, True, nh, w)
      else Option.bind (WebSocket_receiveFrame E nh actual_len w) (\<lambda>(rc, actual_len, nh, w).
        if rc \<noteq> TCPSOCKET_COMPLETE then Some (rv, actual_len, False, nh, w)
        else Option.bind (first_frame w) (\<lambda>f. case f of None \<Rightarrow> None | Some f \<Rightarrow> getdata_loop E nh bytes f w)))"

definition WebSocket_getdata ::
  "'o web_env \<Rightarrow> networkHandles \<Rightarrow> nat \<Rightarrow> nat \<Rightarrow> 'o web_state \<Rightarrow>
   (bytes option \<times> nat \<times> networkHandles \<times> 'o web_state) option" where
  "WebSocket_getdata E nh bytes actual_len w =
     (if net_websocket nh then
        if bytes = 0 then
          do {
            f \<leftarrow> first_frame w;
            Some (if f \<noteq> None \<and> frame_at_end f then (Some [], 0, nh, detach_frame w) else (None, actual_len, nh, w))
          }
        else do {
          f \<leftarrow> first_frame w;
          (f, actual_len, nh, w) \<leftarrow> (if f \<noteq> None then Some (f, actual_len, nh, w)
            else do {
              (rc, actual_len, nh, w) \<leftarrow> WebSocket_receiveFrame E nh actual_len w;
              f \<leftarrow> (if rc = TCPSOCKET_COMPLETE then first_frame w else Some None);
              Some (f, actual_len, nh, w)
            });
          (case f of
             None \<Rightarrow> Some (None, actual_len, nh, w)
           | Some f \<Rightarrow>
               do {
                 (rv, actual_len, enough, nh, w) \<leftarrow> getdata_loop E nh bytes f w;
                 f \<leftarrow> (if enough then first_frame w else Some None);
                 Some (Some rv, actual_len, nh,
                   (case f of
                      None \<Rightarrow> w
                    | Some f \<Rightarrow>
                        if bytes < actual_len then set_first_frame (Some (f\<lparr>fr_pos := fr_pos f + bytes\<rparr>)) w
                        else detach_frame w))
               })
        }
      else
        map_option (\<lambda>(rv, actual_len, rc, n). (rv, actual_len, nh, with_net w n))
          (Socket_getdata (we_os E) (net_socket nh) bytes actual_len 0 (ws_net w)))"


section \<open>The upgrade\<close>

definition crlf :: bytes where
  "crlf = [0x0D, 0x0A]"

definition header_lines :: "(bytes \<times> bytes) list \<Rightarrow> bytes" where
  "header_lines headers = concat (map (\<lambda>(name, val). name @ bytes_of '': '' @ val @ crlf) headers)"

definition upgrade_request :: "bytes \<Rightarrow> bytes \<Rightarrow> int \<Rightarrow> bytes \<Rightarrow> bytes \<Rightarrow> bytes" where
  "upgrade_request topic host port key headers =
     bytes_of ''GET '' @ topic @ bytes_of '' HTTP/1.1'' @ crlf @
     bytes_of ''Host: '' @ host @ bytes_of '':'' @ dec_int port @ crlf @
     bytes_of ''Upgrade: websocket'' @ crlf @
     bytes_of ''Connection: Upgrade'' @ crlf @
     bytes_of ''Origin: http://'' @ host @ bytes_of '':'' @ dec_int port @ crlf @
     bytes_of ''Sec-WebSocket-Key: '' @ key @ crlf @
     bytes_of ''Sec-WebSocket-Version: 13'' @ crlf @
     bytes_of ''Sec-WebSocket-Protocol: mqtt'' @ crlf @
     headers @ crlf"

text \<open>The headers end at the first entry with a null name or value: they are the list up to there.\<close>

definition WebSocket_connect ::
  "'o web_env \<Rightarrow> networkHandles \<Rightarrow> bytes \<Rightarrow> 'o web_state \<Rightarrow> (int \<times> networkHandles \<times> 'o web_state) ub" where
  "WebSocket_connect E nh uri w =
     (if \<not> os_alloc (we_os E) (Bytes 25) then Some (PAHO_MEMORY_ERROR, nh\<lparr>net_websocket_key := None\<rparr>, w)
      else
        let (uuid, s) = we_uuid E (nt_os (ws_net w)); w = with_os w s
        in do {
          (n, key) \<leftarrow> Base64_encode (replicate 25 (os_junk (we_os E))) uuid;
          let key = c_string key;
          let nh = nh\<lparr>net_websocket_key := Some key\<rparr>;
          (hostname_len, port, topic) \<leftarrow> MQTTProtocol_addressPort uri WS_DEFAULT_PORT;
          let topic = (case topic of None \<Rightarrow> bytes_of ''/mqtt'' | Some t \<Rightarrow> t);
          let headers = (case net_httpHeaders nh of None \<Rightarrow> [] | Some h \<Rightarrow> header_lines h);
          let request = upgrade_request topic (take hostname_len uri) port key headers;
          if net_httpHeaders nh \<noteq> None \<and> \<not> os_alloc (we_os E) (Bytes (length headers + 1))
          then Some (PAHO_MEMORY_ERROR, nh, w)
          else if \<not> os_alloc (we_os E) (Bytes (length request + 1)) then Some (PAHO_MEMORY_ERROR, nh, w)
          else do {
            (rc, w) \<leftarrow> put_frame E (net_socket nh) (Some request) (length request) no_buffers w;
            Some (1, nh, free_written rc (net_socket nh) w)
          }
        })"

definition lower_byte :: "byte \<Rightarrow> byte" where
  "lower_byte c = (if 0x41 \<le> c \<and> c \<le> 0x5A then c + 0x20 else c)"

text \<open>The position of \<open>str\<close> in the \<open>len\<close> bytes \<open>buf\<close>.\<close>

fun WebSocket_strcasefind :: "bytes \<Rightarrow> bytes \<Rightarrow> nat option" where
  "WebSocket_strcasefind [] str = None"
| "WebSocket_strcasefind (c # buf) str =
     (if map lower_byte (take (length str) (c # buf)) = map lower_byte str then Some 0
      else map_option Suc (WebSocket_strcasefind buf str))"

text \<open>\<open>memchr(buf + start, c, n)\<close>: reading past the buffer is undefined.\<close>

definition memchr_at :: "bytes \<Rightarrow> nat \<Rightarrow> byte \<Rightarrow> nat \<Rightarrow> nat option ub" where
  "memchr_at buf start c n =
     (case find_index (\<lambda>x. x = c) (take n (drop start buf)) of
        Some j \<Rightarrow> Some (Some (start + j))
      | None \<Rightarrow> if start + n \<le> length buf then Some None else None)"

text \<open>Whether \<open>strncmp(a, b, n)\<close> is 0, for a buffer \<open>a\<close> and a string \<open>b\<close>.\<close>

fun strncmp_eq :: "bytes \<Rightarrow> bytes \<Rightarrow> nat \<Rightarrow> bool ub" where
  "strncmp_eq a b 0 = Some True"
| "strncmp_eq [] b (Suc n) = None"
| "strncmp_eq (x # a) b (Suc n) =
     (case b of
        [] \<Rightarrow> Some (x = 0)
      | y # b \<Rightarrow> if x = y then strncmp_eq a b n else Some False)"

definition ws_guid :: bytes where
  "ws_guid = bytes_of ''258EAFA5-E914-47DA-95CA-C5AB0DC85B11''"

text \<open>The contents of \<open>ws_key\<close>, the answer expected for the key of the request.\<close>

definition accept_key :: "byte \<Rightarrow> bytes \<Rightarrow> bytes ub" where
  "accept_key junk key =
     do {
       let text = take 61 (key @ ws_guid);
       ctx \<leftarrow> snd (SHA1_Init (Some \<lparr>sha_h = [], sha_buffer = replicate 64 junk, sha_size = 0, sha_total = 0\<rparr>));
       ctx \<leftarrow> SHA1_Update True ctx text;
       (hash, ctx) \<leftarrow> SHA1_Final True True ctx;
       hash \<leftarrow> hash;
       (n, ws_key) \<leftarrow> Base64_encode (text @ replicate (62 - length text) 0) hash;
       Some (c_string ws_key)
     }"

text \<open>The checks of the rest of the answer: whether there is a line with the expected key.\<close>

definition connection_upgrade :: "bytes \<Rightarrow> nat \<Rightarrow> bool ub" where
  "connection_upgrade buf rcv =
     (case WebSocket_strcasefind (take rcv buf) (bytes_of ''Connection'') of
        None \<Rightarrow> Some False
      | Some p \<Rightarrow>
          do {
            eol \<leftarrow> memchr_at buf p 0x0A (rcv + p);
            Some (case eol of
                None \<Rightarrow> False
              | Some e \<Rightarrow> WebSocket_strcasefind (take (e - p) (drop p buf)) (bytes_of ''Upgrade'') \<noteq> None)
          })"

definition accept_matches :: "bytes \<Rightarrow> nat \<Rightarrow> bytes \<Rightarrow> bool ub" where
  "accept_matches buf rcv ws_key =
     (case WebSocket_strcasefind (take rcv buf) (bytes_of ''sec-websocket-accept'') of
        None \<Rightarrow> Some False
      | Some p \<Rightarrow>
          do {
            eol \<leftarrow> memchr_at buf p 0x0A (rcv + p);
            (case eol of
               None \<Rightarrow> Some False
             | Some e \<Rightarrow>
                 do {
                   colon \<leftarrow> memchr_at buf p 0x3A (e - p);
                   (case colon of
                      None \<Rightarrow> Some False
                    | Some c \<Rightarrow>
                        let k = length (takeWhile (\<lambda>x. x = 0x3A \<or> x = 0x20) (drop c buf)) in
                        strncmp_eq (drop (c + k) buf) ws_key (to_size (int e - int c - 1 - int k)))
                 })
          })"

definition upgrade_accepted :: "bytes option \<Rightarrow> nat \<Rightarrow> bytes \<Rightarrow> bool ub" where
  "upgrade_accepted read_buf rcv ws_key =
     (case read_buf of
        None \<Rightarrow> Some False
      | Some buf \<Rightarrow>
          if length buf < rcv then None
          else do {
            up \<leftarrow> connection_upgrade buf rcv;
            if up then accept_matches buf rcv ws_key else Some False
          })"

definition WebSocket_upgrade ::
  "'o web_env \<Rightarrow> networkHandles \<Rightarrow> 'o web_state \<Rightarrow> (int \<times> networkHandles \<times> 'o web_state) ub" where
  "WebSocket_upgrade E nh w =
     (case net_websocket_key nh of
        None \<Rightarrow> Some (SOCKET_ERROR, nh, w)
      | Some key \<Rightarrow>
          do {
            ws_key \<leftarrow> accept_key (os_junk (we_os E)) key;
            (read_buf, rcv, rc, w) \<leftarrow> WebSocket_getRawSocketData E nh 12 TCPSOCKET_INTERRUPTED w;
            if rc = SOCKET_ERROR \<or> read_buf = None \<or> rcv < 12 then Some (rc, nh, w)
            else do {
              buf \<leftarrow> read_buf;
              http \<leftarrow> strncmp_eq buf (bytes_of ''HTTP/1.1'') 8;
              code \<leftarrow> strncmp_eq (drop 9 buf) (bytes_of ''101'') 3;
              line \<leftarrow> strncmp_eq buf (bytes_of ''HTTP/1.1 101'') 12;
              if http \<and> \<not> code then Some (SOCKET_ERROR, nh, w)
              else if \<not> line then Some (rc, nh, w)
              else do {
                (read_buf, rcv, rc, w) \<leftarrow> WebSocket_getRawSocketData E nh 1024 rc w;
                if rc = SOCKET_ERROR then Some (rc, nh, w)
                else if read_buf \<noteq> None \<and> 4 < rcv \<and> take 4 (drop (rcv - 4) (the read_buf)) \<noteq> crlf @ crlf
                then Some (SOCKET_ERROR, nh, w)
                else do {
                  ok \<leftarrow> upgrade_accepted read_buf rcv ws_key;
                  let rc = (if ok then 1 else SOCKET_ERROR);
                  let nh = (if ok then nh\<lparr>net_websocket := True, net_websocket_key := None\<rparr>
                            else nh\<lparr>net_websocket_key := None\<rparr>);
                  (b, rcv, rc, w) \<leftarrow> WebSocket_getRawSocketData E nh 0 rc w;
                  Some (rc, nh, w)
                }
              }
            }
          })"

section \<open>The HTTP proxy\<close>

definition proxy_request :: "bytes \<Rightarrow> int \<Rightarrow> bytes option \<Rightarrow> bytes" where
  "proxy_request host port auth =
     bytes_of ''CONNECT '' @ host @ bytes_of '':'' @ dec_int port @ bytes_of '' HTTP/1.1'' @ crlf @
     bytes_of ''Host: '' @ host @ crlf @
     (case auth of None \<Rightarrow> [] | Some a \<Rightarrow> bytes_of ''Proxy-authorization: Basic '' @ a @ crlf) @ crlf"

partial_function (option) proxy_answer ::
  "'o web_env \<Rightarrow> int \<Rightarrow> int \<Rightarrow> nat \<Rightarrow> int \<Rightarrow> 'o web_state \<Rightarrow> (int \<times> 'o web_state) option" where
  "proxy_answer E socket timeout actual_len rc w =
     Option.bind (Socket_getdata (we_os E) socket 12 actual_len rc (ws_net w)) (\<lambda>(buf, actual_len, rc, n).
       if actual_len \<noteq> 0 then
         Option.bind buf (\<lambda>b.
         Option.bind (strncmp_eq b (bytes_of ''HTTP/1.0 200'') 12) (\<lambda>a0.
         Option.bind (if a0 then Some True else strncmp_eq b (bytes_of ''HTTP/1.1 200'') 12) (\<lambda>a1.
           Some (if a1 then rc else SOCKET_ERROR, with_net w n))))
       else case we_time E (nt_os n) of (current, s) \<Rightarrow>
         if timeout < current then Some (SOCKET_ERROR, with_os (with_net w n) s)
         else proxy_answer E socket timeout actual_len rc (with_os (with_net w n) (we_sleep E s)))"

partial_function (option) flush_socket ::
  "'o web_env \<Rightarrow> int \<Rightarrow> nat \<Rightarrow> 'o web_state \<Rightarrow> 'o web_state option" where
  "flush_socket E socket actual_len w =
     (if actual_len = 0 then Some w
      else Option.bind (Socket_getdata (we_os E) socket 1 actual_len 0 (ws_net w)) (\<lambda>(buf, actual_len, rc1, n).
        flush_socket E socket actual_len (with_net w n)))"

text \<open>Without SSL; the return code is not set to 0 when the proxy accepts.\<close>

definition WebSocket_proxy_connect ::
  "'o web_env \<Rightarrow> networkHandles \<Rightarrow> bytes \<Rightarrow> 'o web_state \<Rightarrow> (int \<times> 'o web_state) option" where
  "WebSocket_proxy_connect E nh hostname w =
     do {
       (hostname_len, port, topic) \<leftarrow> MQTTProtocol_addressPort hostname WS_DEFAULT_PORT;
       let request = proxy_request (take hostname_len hostname) port (net_http_proxy_auth nh);
       if \<not> os_alloc (we_os E) (Bytes (length request + 1)) then Some (PAHO_MEMORY_ERROR, w)
       else do {
         (rc0, w) \<leftarrow> put_frame E (net_socket nh) (Some request) (length request) no_buffers w;
         let w = free_written rc0 (net_socket nh) w;
         let (t, s) = we_time E (nt_os (ws_net w));
         (rc, w) \<leftarrow> proxy_answer E (net_socket nh) (t + 10) 0 0 (with_os w s);
         w \<leftarrow> flush_socket E (net_socket nh) 1 w;
         Some (rc, w)
       }
     }"

section \<open>Termination of the subsystem\<close>

definition WebSocket_terminate :: "'o web_state \<Rightarrow> 'o web_state ub" where
  "WebSocket_terminate w =
     (if in_frames w \<noteq> None \<and> None \<in> set (the (in_frames w)) then None
      else do {
        n \<leftarrow> Socket_outTerminate (ws_net w);
        Some (w\<lparr>ws_net := n, in_frames := None, last_frame := None, frame_buffer := None,
          frame_buffer_len := 0, frame_buffer_index := 0, frame_buffer_data_len := 0\<rparr>)
      })"

end
