(* ===== verification/PartialWrites.thy ===== *)
theory PartialWrites
  imports WebSocket
begin

text \<open>
  Packets that the system does not take at once: what \<open>Socket_putdatas\<close> leaves to
  \<open>Socket_continueWrite\<close> is exactly the rest of the packet.
\<close>

section \<open>Buffer arrays\<close>

lemma iov_bytes_Nil [simp]: "iov_bytes [] = Some []"
  by (simp add: iov_bytes_def)

lemma iov_bytes_Cons:
  "iov_bytes ((base, len) # iovecs) = do { b \<leftarrow> iov_base base len; bs \<leftarrow> iov_bytes iovecs; Some (b # bs) }"
  unfolding iov_bytes_def iov_base_def
  by (cases base) (simp_all add: map_conv_bind_option comp_def)

text \<open>The rest of the array has the rest of the bytes.\<close>

lemma rest_of_iovecs_bytes:
  assumes "iov_bytes iovecs = Some bs"
  shows "\<exists>bs'. iov_bytes (rest_of_iovecs k c iovecs) = Some bs' \<and> concat bs' = drop (k - c) (concat bs)"
  using assms
proof (induction iovecs arbitrary: c bs)
  case (Cons iov iovecs)
  obtain base len where iov: "iov = (base, len)" by (cases iov)
  obtain b bs1 where b: "iov_base base len = Some b" "iov_bytes iovecs = Some bs1" "bs = b # bs1"
    using Cons.prems unfolding iov iov_bytes_Cons by auto
  have l: "length b = len" using b(1) by (rule iov_base_length)
  obtain bs2 where r: "iov_bytes (rest_of_iovecs k (c + len) iovecs) = Some bs2"
      "concat bs2 = drop (k - (c + len)) (concat bs1)"
    using Cons.IH [OF b(2), of "c + len"] by blast
  show ?case
    using b r l iov_base_drop [OF b(1), of "k - c"] unfolding iov
    by (auto simp: iov_bytes_Cons)
qed simp

lemma iov_bytes_base:
  assumes "iov_bytes iovecs = Some bs" "(base, len) \<in> set iovecs" "0 < len"
  shows "base \<noteq> None"
  using assms
proof (induction iovecs arbitrary: bs)
  case (Cons iov iovecs)
  obtain base' len' where iov: "iov = (base', len')" by (cases iov)
  obtain b bs1 where "iov_base base' len' = Some b" "iov_bytes iovecs = Some bs1"
    using Cons.prems(1) unfolding iov iov_bytes_Cons by auto
  with Cons.IH [of bs1] Cons.prems(2,3) show ?case by (auto simp: iov iov_base_def split: if_splits option.splits)
qed simp

lemma iov_bytes_frees:
  assumes "iov_bytes (pws_iovecs pw) = Some bs"
  shows "free_iovecs pw \<noteq> None"
  using iov_bytes_base [OF assms] by (auto simp: free_iovecs_def dest: set_zip_leftD)

section \<open>The system\<close>

text \<open>
  A stream socket takes some of the bytes offered, or none because it would block or fails.  It would
  block \<open>stalls\<close> times at most.
\<close>

definition send_stream :: "'o os_env \<Rightarrow> int \<Rightarrow> ('o \<Rightarrow> bytes) \<Rightarrow> ('o \<Rightarrow> nat) \<Rightarrow> bool" where
  "send_stream E socket wire stalls \<longleftrightarrow>
     (\<forall>bs s. concat bs \<noteq> [] \<longrightarrow> (case os_WSASend E socket bs s of (rc, k, s') \<Rightarrow>
        wire s' = wire s @ take k (concat bs) \<and>
        ((rc = 0 \<and> 0 < k \<and> k \<le> length (concat bs) \<and> stalls s' \<le> stalls s) \<or>
         (rc = SOCKET_ERROR \<and> k = 0 \<and> (os_error E s' = WSAEWOULDBLOCK \<longrightarrow> stalls s' < stalls s)))))"

lemma Socket_writev_stream:
  assumes "send_stream E socket wire stalls" "iov_bytes iovecs = Some bs" "concat bs \<noteq> []"
  obtains rc k s' where "Socket_writev E socket iovecs n = Some (rc, k, n\<lparr>nt_os := s'\<rparr>)"
    "wire s' = wire (nt_os n) @ take k (concat bs)"
    "rc = 0 \<and> 0 < k \<and> k \<le> length (concat bs) \<and> stalls s' \<le> stalls (nt_os n) \<or>
     rc = TCPSOCKET_INTERRUPTED \<and> k = 0 \<and> stalls s' < stalls (nt_os n) \<or> rc = SOCKET_ERROR \<and> k = 0"
proof (cases "os_WSASend E socket bs (nt_os n)")
  case (fields rc k s')
  have w: "wire s' = wire (nt_os n) @ take k (concat bs) \<and>
        ((rc = 0 \<and> 0 < k \<and> k \<le> length (concat bs) \<and> stalls s' \<le> stalls (nt_os n)) \<or>
         (rc = SOCKET_ERROR \<and> k = 0 \<and> (os_error E s' = WSAEWOULDBLOCK \<longrightarrow> stalls s' < stalls (nt_os n))))"
    using assms(1) [unfolded send_stream_def, THEN spec, THEN spec, of bs "nt_os n"] assms(3) fields by simp
  let ?rc = "if rc = SOCKET_ERROR \<and> os_error E s' = WSAEWOULDBLOCK then TCPSOCKET_INTERRUPTED else rc"
  have e: "Socket_writev E socket iovecs n = Some (?rc, k, n\<lparr>nt_os := s'\<rparr>)"
    using assms(2) fields by (simp add: Socket_writev_def Socket_error_def Let_def)
  show thesis by (rule that [OF e]) (use w in auto)
qed

section \<open>A pending packet\<close>

definition one_write :: "int \<Rightarrow> SocketBuffer \<Rightarrow> nat \<Rightarrow> pending_writes \<Rightarrow> bool" where
  "one_write socket sb j pw \<longleftrightarrow> cl_wf (writes sb) \<and>
     find_index (pending_socketcompare socket) (cl_items (writes sb)) = Some j \<and> cl_items (writes sb) ! j = pw \<and>
     (\<forall>i < length (cl_items (writes sb)). pws_socket (cl_items (writes sb) ! i) = socket \<longrightarrow> i = j)"

text \<open>The first \<open>k\<close> bytes of the packet have been written after \<open>base\<close>.\<close>

definition pending_packet :: "int \<Rightarrow> ('o \<Rightarrow> bytes) \<Rightarrow> bytes \<Rightarrow> bytes \<Rightarrow> nat \<Rightarrow> 'o net_state \<Rightarrow> bool" where
  "pending_packet socket wire base packet k n \<longleftrightarrow>
     (\<exists>j pw bs. one_write socket (nt_sb n) j pw \<and> iov_bytes (pws_iovecs pw) = Some bs \<and> concat bs = packet \<and>
        pws_total pw = length packet \<and> pws_bytes pw = k \<and> k < length packet \<and> wire (nt_os n) = base @ take k packet)"

lemma one_write_get:
  assumes "one_write socket sb j pw"
  shows "SocketBuffer_getWrite socket sb = (Some (j, pw), sb\<lparr>writes := snd (cl_find (pending_socketcompare socket) (writes sb))\<rparr>)"
proof -
  have "fst (cl_find (pending_socketcompare socket) (writes sb)) = find_index (pending_socketcompare socket) (cl_items (writes sb))"
    using assms by (intro cl_find_unique) (auto simp: one_write_def pending_socketcompare_def)
  then obtain l where l: "cl_find (pending_socketcompare socket) (writes sb) = (Some j, l)"
    using assms by (cases "cl_find (pending_socketcompare socket) (writes sb)") (auto simp: one_write_def)
  then have "cl_items l = cl_items (writes sb)"
    using cl_find_items [of "pending_socketcompare socket" "writes sb"] by simp
  with l assms show ?thesis by (simp add: SocketBuffer_getWrite_def one_write_def)
qed

lemma one_write_update:
  assumes "one_write socket sb j pw" "pws_socket pw' = pws_socket pw"
  shows "one_write socket (set_write j pw' (sb\<lparr>writes := snd (cl_find P (writes sb))\<rparr>)) j pw'"
proof -
  have i: "find_index (pending_socketcompare socket) (cl_items (writes sb)) = Some j" "cl_items (writes sb) ! j = pw"
      "cl_wf (writes sb)" using assms by (auto simp: one_write_def)
  have j: "j < length (cl_items (writes sb))" "pws_socket pw = socket"
    using find_index_SomeD [OF i(1)] i(2) by (auto simp: pending_socketcompare_def)
  have "find_index (pending_socketcompare socket) ((cl_items (writes sb))[j := pw']) = Some j"
    using i(1) assms(2) j by (auto simp: find_index_Some_iff nth_list_update pending_socketcompare_def)
  moreover have "cl_wf (snd (cl_find P (writes sb)))" using i(3) by (rule cl_wf_find)
  moreover have "pws_socket ((cl_items (writes sb))[j := pw'] ! i) = socket \<Longrightarrow> i < length (cl_items (writes sb)) \<Longrightarrow> i = j" for i
    using assms(1) by (cases "i = j") (simp_all add: one_write_def)
  ultimately show ?thesis using j(1)
    by (simp add: one_write_def set_write_def frame_simps cl_wf_def cong: option.case_cong)
qed

text \<open>One turn of \<open>Socket_continueWrite\<close>.\<close>

lemma continueWrite_pending:
  assumes stream: "send_stream E socket wire stalls" and p: "pending_packet socket wire base packet k n"
  shows "\<exists>rc n'. Socket_continueWrite E socket n = Some (rc, n') \<and>
    (rc = 1 \<and> wire (nt_os n') = base @ packet \<or>
     rc = SOCKET_ERROR \<and> wire (nt_os n') = base @ take k packet \<or>
     rc = 0 \<and> (\<exists>k' \<ge> k. pending_packet socket wire base packet k' n' \<and>
       stalls (nt_os n') + (length packet - k') < stalls (nt_os n) + (length packet - k)))"
proof -
  obtain j pw bs where one: "one_write socket (nt_sb n) j pw" and iov: "iov_bytes (pws_iovecs pw) = Some bs"
      and pw: "concat bs = packet" "pws_total pw = length packet" "pws_bytes pw = k" "k < length packet"
      and wire: "wire (nt_os n) = base @ take k packet"
    using p by (auto simp: pending_packet_def)
  note get = one_write_get [OF one]
  let ?sb = "(nt_sb n)\<lparr>writes := snd (cl_find (pending_socketcompare socket) (writes (nt_sb n)))\<rparr>"
  obtain bs' where rest: "iov_bytes (rest_of_iovecs k 0 (pws_iovecs pw)) = Some bs'" "concat bs' = drop k packet"
    using rest_of_iovecs_bytes [OF iov, of k 0] pw by auto
  have ne: "concat bs' \<noteq> []" using rest pw by simp
  obtain rc i s' where w: "Socket_writev E socket (rest_of_iovecs k 0 (pws_iovecs pw)) (with_sb n ?sb) =
        Some (rc, i, (with_sb n ?sb)\<lparr>nt_os := s'\<rparr>)"
      and ws: "wire s' = wire (nt_os n) @ take i (drop k packet)"
      and cases: "rc = 0 \<and> 0 < i \<and> i \<le> length (drop k packet) \<and> stalls s' \<le> stalls (nt_os n) \<or>
        rc = TCPSOCKET_INTERRUPTED \<and> i = 0 \<and> stalls s' < stalls (nt_os n) \<or> rc = SOCKET_ERROR \<and> i = 0"
    using Socket_writev_stream [OF stream rest(1) ne, of "with_sb n ?sb"] rest(2) by (auto simp: with_sb_def)
  have free: "free_iovecs (pw\<lparr>pws_bytes := b\<rparr>) \<noteq> None" for b
    by (rule iov_bytes_frees) (simp add: iov)
  have wire': "wire s' = base @ take (k + i) packet" using ws wire by (simp add: take_add)
  show ?thesis
  proof (cases "rc = SOCKET_ERROR")
    case True
    then have "i = 0" using cases by auto
    with True show ?thesis using get w free [of k] pw wire'
      by (auto simp: Socket_continueWrite_def with_sb_def simp del: bind_Some_iff)
  next
    case False
    then have i: "i \<le> length (drop k packet)" using cases by auto
    show ?thesis
    proof (cases "k + i = length packet")
      case True
      obtain pw' where "free_iovecs (pw\<lparr>pws_bytes := k + i\<rparr>) = Some pw'" using free [of "k + i"] by auto
      with True False show ?thesis using get w pw wire'
        by (simp add: Socket_continueWrite_def with_sb_def Let_def del: bind_Some_iff)
    next
      case less: False
      let ?pw = "pw\<lparr>pws_bytes := k + i\<rparr>"
      let ?n = "n\<lparr>nt_sb := set_write j ?pw ?sb, nt_os := s'\<rparr>"
      have c: "Socket_continueWrite E socket n = Some (0, ?n)"
        using False less get w pw by (simp add: Socket_continueWrite_def with_sb_def Let_def del: bind_Some_iff)
      have "one_write socket (set_write j ?pw ?sb) j ?pw" using one by (rule one_write_update) simp
      then have p': "pending_packet socket wire base packet (k + i) ?n"
        using iov pw i less wire' unfolding pending_packet_def
        by (intro exI [of _ j] exI [of _ ?pw] exI [of _ bs]) simp
      have "stalls s' + (length packet - (k + i)) < stalls (nt_os n) + (length packet - k)"
        using cases False pw(4) i by auto
      with p' have "\<exists>k' \<ge> k. pending_packet socket wire base packet k' ?n \<and>
          stalls (nt_os ?n) + (length packet - k') < stalls (nt_os n) + (length packet - k)"
        by (intro exI [of _ "k + i"]) simp
      with c show ?thesis by blast
    qed
  qed
qed

primrec continue_calls :: "'o os_env \<Rightarrow> int \<Rightarrow> nat \<Rightarrow> 'o net_state \<Rightarrow> (int \<times> 'o net_state) ub" where
  "continue_calls E socket 0 n = Some (0, n)"
| "continue_calls E socket (Suc m) n =
     do { (rc, n) \<leftarrow> Socket_continueWrite E socket n; if rc = 0 then continue_calls E socket m n else Some (rc, n) }"

lemma continue_calls_pending:
  assumes stream: "send_stream E socket wire stalls" and p: "pending_packet socket wire base packet k n"
  shows "\<exists>rc n'. continue_calls E socket m n = Some (rc, n') \<and>
    (rc = 1 \<and> wire (nt_os n') = base @ packet \<or>
     (rc = SOCKET_ERROR \<or> rc = 0 \<and> m < stalls (nt_os n) + (length packet - k)) \<and>
     (\<exists>k' < length packet. wire (nt_os n') = base @ take k' packet))"
  using p
proof (induction m arbitrary: k n)
  case 0
  then have k: "k < length packet" "wire (nt_os n) = base @ take k packet" by (auto simp: pending_packet_def)
  then have "0 < stalls (nt_os n) + (length packet - k)" by simp
  with k show ?case by (intro exI [of _ 0] exI [of _ n]) auto
next
  case (Suc m)
  have k: "k < length packet" using Suc.prems by (auto simp: pending_packet_def)
  obtain rc n' where c: "Socket_continueWrite E socket n = Some (rc, n')"
    and r: "rc = 1 \<and> wire (nt_os n') = base @ packet \<or>
     rc = SOCKET_ERROR \<and> wire (nt_os n') = base @ take k packet \<or>
     rc = 0 \<and> (\<exists>k' \<ge> k. pending_packet socket wire base packet k' n' \<and>
       stalls (nt_os n') + (length packet - k') < stalls (nt_os n) + (length packet - k))"
    using continueWrite_pending [OF stream Suc.prems] by blast
  show ?case
  proof (cases "rc = 0")
    case False
    then have "continue_calls E socket (Suc m) n = Some (rc, n')" using c by simp
    with False r k show ?thesis by blast
  next
    case True
    then obtain k' where p': "pending_packet socket wire base packet k' n'"
      and lt: "stalls (nt_os n') + (length packet - k') < stalls (nt_os n) + (length packet - k)"
      using r by auto
    have "continue_calls E socket (Suc m) n = continue_calls E socket m n'" using c True by simp
    moreover have "m < stalls (nt_os n') + (length packet - k') \<Longrightarrow> Suc m < stalls (nt_os n) + (length packet - k)"
      using lt by simp
    ultimately show ?thesis using Suc.IH [OF p'] by metis
  qed
qed


section \<open>Property\<close>

lemma iov_bytes_total:
  "iov_bytes (zip bases lens) = Some bs \<Longrightarrow> length bases = length lens \<Longrightarrow> length (concat bs) = sum_list lens"
proof (induction bases arbitrary: lens bs)
  case (Cons base bases)
  then obtain len lens' where l: "lens = len # lens'" by (cases lens) auto
  obtain b bs1 where b: "iov_base base len = Some b" "iov_bytes (zip bases lens') = Some bs1" "bs = b # bs1"
    using Cons.prems(1) unfolding l by (auto simp: iov_bytes_Cons)
  then show ?case using Cons.IH [OF b(2)] Cons.prems(2) iov_base_length [OF b(1)] l by simp
qed simp

text \<open>The bytes of a packet that starts with the block \<open>buf0\<close>.\<close>

definition packet_bytes :: "bytes \<Rightarrow> PacketBuffers \<Rightarrow> bytes ub" where
  "packet_bytes buf0 bufs = map_option (\<lambda>bs. buf0 @ concat bs) (iov_bytes (zip (pbs_buffers bufs) (pbs_buflens bufs)))"

definition buffers_fit :: "PacketBuffers \<Rightarrow> bool" where
  "buffers_fit bufs \<longleftrightarrow> length (pbs_buflens bufs) \<le> 4 \<and> length (pbs_buffers bufs) = length (pbs_buflens bufs) \<and>
     length (pbs_frees bufs) = length (pbs_buflens bufs)"

definition nothing_pending :: "int \<Rightarrow> 'o net_state \<Rightarrow> bool" where
  "nothing_pending socket n \<longleftrightarrow> cl_wf (write_pending (nt_socks n)) \<and> socket \<notin> set (cl_items (write_pending (nt_socks n))) \<and>
     cl_wf (writes (nt_sb n)) \<and> (\<forall>pw \<in> set (cl_items (writes (nt_sb n))). pws_socket pw \<noteq> socket)"

lemma nothing_pending_free:
  assumes "nothing_pending socket n"
  shows "Socket_noPendingWrites socket n = (True, n)"
proof (cases "cl_find (intcompare socket) (write_pending (nt_socks n))")
  case (Pair r l)
  have "r = None"
    using cl_find_found_iff [of "write_pending (nt_socks n)" "intcompare socket"] assms Pair
    by (auto simp: nothing_pending_def intcompare_def)
  moreover from this have "l = write_pending (nt_socks n)" using cl_find_None(2) Pair by blast
  ultimately show ?thesis using Pair by (simp add: Socket_noPendingWrites_def with_socks_def)
qed

text \<open>
  C8.  A packet given to \<open>Socket_putdatas\<close> while nothing is pending on the socket is written whole, or
  as much of it as the system takes; then the calls of \<open>Socket_continueWrite\<close> write exactly the rest, in
  order and without a byte lost or repeated.  At any time a prefix of the packet is on the wire; 1 is
  returned exactly when all of it is, and that is the case after at most as many calls as there are bytes
  and writes that would block, unless the system fails.
\<close>

theorem partial_writes:
  assumes "send_stream E socket wire stalls" "\<forall>x. os_alloc E x" "nothing_pending socket n" "buffers_fit bufs"
    "packet_bytes buf0 bufs = Some packet" "buf0 \<noteq> []"
  shows "\<exists>rc n1. Socket_putdatas E socket buf0 bufs n = Some (rc, n1) \<and>
    (rc = TCPSOCKET_COMPLETE \<and> wire (nt_os n1) = wire (nt_os n) @ packet \<or>
     rc = SOCKET_ERROR \<and> wire (nt_os n1) = wire (nt_os n) \<or>
     rc = TCPSOCKET_INTERRUPTED \<and>
     (\<forall>m. \<exists>rc' n2. continue_calls E socket m n1 = Some (rc', n2) \<and>
        (rc' = 1 \<and> wire (nt_os n2) = wire (nt_os n) @ packet \<or>
         (rc' = SOCKET_ERROR \<or> rc' = 0 \<and> m < stalls (nt_os n) + length packet) \<and>
         (\<exists>k < length packet. wire (nt_os n2) = wire (nt_os n) @ take k packet))))"
proof -
  let ?iov = "(Some buf0, length buf0) # zip (pbs_buffers bufs) (pbs_buflens bufs)"
  let ?bs = "buf0 # the (iov_bytes (zip (pbs_buffers bufs) (pbs_buflens bufs)))"
  have iov: "iov_bytes ?iov = Some ?bs" and c: "concat ?bs = packet"
    using assms(5) by (auto simp: packet_bytes_def iov_bytes_Cons iov_base_def)
  have len: "length buf0 + sum_list (pbs_buflens bufs) = length packet"
    using iov_bytes_total [of "pbs_buffers bufs" "pbs_buflens bufs"] assms(4,5)
    by (auto simp: packet_bytes_def buffers_fit_def)
  have ne: "concat ?bs \<noteq> []" using assms(6) by simp
  note free = nothing_pending_free [OF assms(3)]
  obtain rc k s' where w: "Socket_writev E socket ?iov n = Some (rc, k, n\<lparr>nt_os := s'\<rparr>)"
    and ws: "wire s' = wire (nt_os n) @ take k packet"
    and cases: "rc = 0 \<and> 0 < k \<and> k \<le> length packet \<and> stalls s' \<le> stalls (nt_os n) \<or>
     rc = TCPSOCKET_INTERRUPTED \<and> k = 0 \<and> stalls s' < stalls (nt_os n) \<or> rc = SOCKET_ERROR \<and> k = 0"
    using Socket_writev_stream [OF assms(1) iov ne, of n] unfolding c by blast
  have four: "\<not> 4 < length (pbs_buflens bufs)" using assms(4) by (simp add: buffers_fit_def)
  consider "rc = SOCKET_ERROR" | "rc \<noteq> SOCKET_ERROR" "k = length packet" | "rc \<noteq> SOCKET_ERROR" "k < length packet"
    using cases ne c by fastforce
  then show ?thesis
  proof cases
    case 1
    then have "Socket_putdatas E socket buf0 bufs n = Some (SOCKET_ERROR, n\<lparr>nt_os := s'\<rparr>)"
      using free w four by (simp add: Socket_putdatas_def Let_def del: bind_Some_iff)
    then show ?thesis using 1 cases ws by auto
  next
    case 2
    then have "Socket_putdatas E socket buf0 bufs n = Some (TCPSOCKET_COMPLETE, n\<lparr>nt_os := s'\<rparr>)"
      using free w four len by (simp add: Socket_putdatas_def Let_def del: bind_Some_iff)
    then show ?thesis using 2 ws by auto
  next
    case 3
    let ?pw = "\<lparr>pws_socket = socket, pws_total = length packet, pws_bytes = k, pws_iovecs = ?iov, pws_frees = True # pbs_frees bufs\<rparr>"
    let ?sb = "(nt_sb n)\<lparr>writes := cl_append ?pw (writes (nt_sb n))\<rparr>"
    let ?n = "with_socks (n\<lparr>nt_os := s', nt_sb := ?sb\<rparr>) (\<lambda>so. so\<lparr>write_pending := cl_append socket (write_pending so),
                      pending_wset := insert socket (pending_wset so)\<rparr>)"
    have "SocketBuffer_pendingWrite (os_alloc E) socket ?iov (True # pbs_frees bufs) (length packet) k (nt_sb n) = Some (0, ?sb)"
      using assms(2,4) by (simp add: SocketBuffer_pendingWrite_def buffers_fit_def)
    then have put: "Socket_putdatas E socket buf0 bufs n = Some (TCPSOCKET_INTERRUPTED, ?n)"
      using 3 free w four len assms(2) by (simp add: Socket_putdatas_def with_sb_def Let_def del: bind_Some_iff)
    have idx: "find_index (pending_socketcompare socket) (cl_items (writes (nt_sb n))) = None"
      using assms(3) by (auto simp: nothing_pending_def find_index_None_iff pending_socketcompare_def)
    then have "find_index (pending_socketcompare socket) (cl_items (writes (nt_sb n)) @ [?pw]) = Some (length (cl_items (writes (nt_sb n))))"
      by (auto simp: find_index_None_iff find_index_Some_iff nth_append pending_socketcompare_def)
    moreover have "i = length (cl_items (writes (nt_sb n)))"
      if "i < Suc (length (cl_items (writes (nt_sb n))))" "pws_socket ((cl_items (writes (nt_sb n)) @ [?pw]) ! i) = socket" for i
      using that assms(3) by (auto simp: nothing_pending_def nth_append less_Suc_eq split: if_splits)
    ultimately have one: "one_write socket ?sb (length (cl_items (writes (nt_sb n)))) ?pw"
      using assms(3) by (auto simp: one_write_def nothing_pending_def)
    have "pending_packet socket wire (wire (nt_os n)) packet k ?n"
      unfolding pending_packet_def
      by (rule exI [of _ "length (cl_items (writes (nt_sb n)))"], rule exI [of _ ?pw], rule exI [of _ ?bs])
        (use one iov c 3 ws in \<open>simp add: with_socks_def\<close>)
    note cont = continue_calls_pending [OF assms(1) this]
    have "stalls (nt_os ?n) + (length packet - k) \<le> stalls (nt_os n) + length packet"
      using cases 3 by (auto simp: with_socks_def)
    then have "\<forall>m. \<exists>rc' n2. continue_calls E socket m ?n = Some (rc', n2) \<and>
        (rc' = 1 \<and> wire (nt_os n2) = wire (nt_os n) @ packet \<or>
         (rc' = SOCKET_ERROR \<or> rc' = 0 \<and> m < stalls (nt_os n) + length packet) \<and>
         (\<exists>k < length packet. wire (nt_os n2) = wire (nt_os n) @ take k packet))"
      using cont by (meson less_le_trans)
    with put show ?thesis by blast
  qed
qed

text \<open>A system that takes at most three bytes of each write and blocks every other time.\<close>

definition slow_send :: "int \<Rightarrow> bytes list \<Rightarrow> nat \<times> bytes \<Rightarrow> int \<times> nat \<times> (nat \<times> bytes)" where
  "slow_send socket bs s =
     (case s of (t, out) \<Rightarrow>
        if odd t then (SOCKET_ERROR, 0, (t - 1, out))
        else (0, min 3 (length (concat bs)), (t - 1, out @ take 3 (concat bs))))"

definition slow_os :: "(nat \<times> bytes) os_env" where
  "slow_os = \<lparr>os_alloc = always_alloc, os_junk = 0xAA, os_error = (\<lambda>s. WSAEWOULDBLOCK), os_recv = (\<lambda>socket k s. (None, s)),
     os_WSASend = slow_send, os_select = (\<lambda>m r w t s. (0, {}, {}, s)),
     os_ioctl = (\<lambda>socket s. (0, s)), os_socket = (\<lambda>f s. (1, s)), os_connect = (\<lambda>socket f a p s. (0, s)),
     os_getaddrinfo = (\<lambda>a s. (0, [], s)), os_shutdown = (\<lambda>socket s. (0, s)), os_closesocket = (\<lambda>socket s. (0, s)),
     os_writecomplete = None\<rparr>"

lemma slow_stream: "send_stream slow_os socket snd fst"
  unfolding send_stream_def by (auto simp: slow_os_def slow_send_def min_def dest: odd_pos)

definition idle_net :: "'o \<Rightarrow> 'o net_state" where
  "idle_net s =
     \<lparr>nt_sb = \<lparr>def_queue = None, queues = cl_zero, writes = cl_zero\<rparr>,
      nt_socks = \<lparr>rset = {}, rset_saved = {}, maxfdp1 = 0, clientsds = cl_zero, cur_clientsds = None,
        connect_pending = cl_zero, write_pending = cl_zero, pending_wset = {}, wset = {}\<rparr>, nt_os = s\<rparr>"

theorem partial_writes_witness:
  "\<exists>rc n1. Socket_putdatas slow_os 7 [0x30, 5] \<lparr>pbs_buffers = [Some [0, 1, 0x61], Some [1, 2]], pbs_buflens = [3, 2],
      pbs_frees = [False, True], pbs_mask = []\<rparr> (idle_net (4, [])) = Some (rc, n1) \<and>
    (rc = TCPSOCKET_COMPLETE \<and> snd (nt_os n1) = snd (nt_os (idle_net (4 :: nat, []))) @ [0x30, 5, 0, 1, 0x61, 1, 2] \<or>
     rc = SOCKET_ERROR \<and> snd (nt_os n1) = snd (nt_os (idle_net (4 :: nat, []))) \<or>
     rc = TCPSOCKET_INTERRUPTED \<and>
     (\<forall>m. \<exists>rc' n2. continue_calls slow_os 7 m n1 = Some (rc', n2) \<and>
        (rc' = 1 \<and> snd (nt_os n2) = snd (nt_os (idle_net (4 :: nat, []))) @ [0x30, 5, 0, 1, 0x61, 1, 2] \<or>
         (rc' = SOCKET_ERROR \<or> rc' = 0 \<and> m < fst (nt_os (idle_net (4 :: nat, [] :: bytes))) + length [0x30, 5, 0, 1, 0x61, 1, 2 :: byte]) \<and>
         (\<exists>k < length [0x30, 5, 0, 1, 0x61, 1, 2 :: byte]. snd (nt_os n2) =
            snd (nt_os (idle_net (4 :: nat, []))) @ take k [0x30, 5, 0, 1, 0x61, 1, 2 :: byte]))))"
  by (rule partial_writes [OF slow_stream])
    (simp_all add: slow_os_def nothing_pending_def idle_net_def buffers_fit_def packet_bytes_def iov_bytes_Cons iov_base_def)

end
