(* ===== verification/FrameFormat.thy ===== *)
theory FrameFormat
  imports PartialWrites
begin

text \<open>
  The frames of RFC 6455: what \<open>WebSocket_putdatas\<close> sends is decoded by the receiver of the standard,
  and the buffers of the caller are given back as they were.
\<close>

section \<open>The standard\<close>

text \<open>The first frame of a byte stream: the final flag, the opcode, the unmasked payload, and what follows.\<close>

definition rfc6455_unmask :: "bytes \<Rightarrow> bytes \<Rightarrow> bytes" where
  "rfc6455_unmask key payload = map (\<lambda>i. payload ! i XOR key ! (i mod 4)) [0..<length payload]"

definition rfc6455_payload :: "bool \<Rightarrow> nat \<Rightarrow> bytes \<Rightarrow> (bytes \<times> bytes) option" where
  "rfc6455_payload masked len r =
     (if masked
      then if 4 + len \<le> length r then Some (rfc6455_unmask (take 4 r) (take len (drop 4 r)), drop (4 + len) r) else None
      else if len \<le> length r then Some (take len r, drop len r) else None)"

definition rfc6455_decode :: "bytes \<Rightarrow> (bool \<times> int \<times> bytes \<times> bytes) option" where
  "rfc6455_decode bs =
     (if length bs < 2 then None
      else
        let b0 = bs ! 0; b1 = bs ! 1; len7 = unat (b1 AND 0x7F);
            n = (if len7 = 126 then 2 else if len7 = 127 then 8 else 0);
            len = (if n = 0 then len7 else be_nat (take n (drop 2 bs)))
        in if length bs < 2 + n then None
           else map_option (\<lambda>(payload, rest). (bit b0 7, uint (b0 AND 0x0F), payload, rest))
             (rfc6455_payload (bit b1 7) len (drop (2 + n) bs)))"

section \<open>Masking\<close>

lemma length_mask_bytes [simp]: "length (mask_bytes key i bs) = length bs"
  by (induction bs arbitrary: i) simp_all

lemma mask_bytes_append: "mask_bytes key i (a @ b) = mask_bytes key i a @ mask_bytes key (i + length a) b"
  by (induction a arbitrary: i) simp_all

lemma mask_bytes_twice [simp]: "mask_bytes key i (mask_bytes key i bs) = bs"
  by (induction bs arbitrary: i) (simp_all add: xor.assoc)

lemma mask_bytes_zero [simp]: "mask_bytes [0, 0, 0, 0] i bs = bs"
proof (induction bs arbitrary: i)
  case (Cons b bs)
  have "i mod 4 = 0 \<or> i mod 4 = 1 \<or> i mod 4 = 2 \<or> i mod 4 = 3" by auto
  then have "[0, 0, 0, 0 :: byte] ! (i mod 4) = 0" by (elim disjE) simp_all
  then show ?case using Cons by simp
qed simp

lemma mask_bytes_nth: "j < length bs \<Longrightarrow> mask_bytes key i bs ! j = bs ! j XOR key ! ((i + j) mod 4)"
proof (induction bs arbitrary: i j)
  case (Cons b bs)
  then show ?case by (cases j) simp_all
qed simp

lemma rfc6455_unmask_mask: "rfc6455_unmask key (mask_bytes key 0 bs) = bs"
  by (rule nth_equalityI) (simp_all add: rfc6455_unmask_def mask_bytes_nth xor.assoc)

text \<open>The buffers are masked as one sequence of bytes, and masking them again gives them back.\<close>

lemma mask_buffer_ok:
  assumes "iov_base base len = Some b"
  shows "\<exists>base'. mask_buffer key i base len = Some base' \<and> iov_base base' len = Some (mask_bytes key i b) \<and>
    mask_buffer key i base' len = Some base"
  using assms by (cases base) (auto simp: iov_base_def mask_buffer_def split: if_splits)

lemma mask_buffers_ok:
  assumes "iov_bytes (zip bases lens) = Some bs" "length bases = length lens"
  shows "\<exists>bases'. mask_buffers key True i n idx (zip bases lens) = Some bases' \<and> length bases' = length lens \<and>
    (\<exists>bs'. iov_bytes (zip bases' lens) = Some bs' \<and> concat bs' = mask_bytes key idx (concat bs)) \<and>
    mask_buffers key True i n idx (zip bases' lens) = Some bases"
  using assms
proof (induction bases arbitrary: lens bs i idx)
  case (Cons base bases)
  then obtain len lens' where l: "lens = len # lens'" by (cases lens) auto
  obtain b bs1 where b: "iov_base base len = Some b" "iov_bytes (zip bases lens') = Some bs1" "bs = b # bs1"
    using Cons.prems(1) unfolding l by (auto simp: iov_bytes_Cons)
  obtain base' where base': "mask_buffer key idx base len = Some base'" "iov_base base' len = Some (mask_bytes key idx b)"
      "mask_buffer key idx base' len = Some base"
    using mask_buffer_ok [OF b(1)] by blast
  obtain bases' bs' where r: "mask_buffers key True (Suc i) n (idx + len) (zip bases lens') = Some bases'" "length bases' = length lens'"
      "iov_bytes (zip bases' lens') = Some bs'" "concat bs' = mask_bytes key (idx + len) (concat bs1)"
      "mask_buffers key True (Suc i) n (idx + len) (zip bases' lens') = Some bases"
    using Cons.IH [OF b(2), of "Suc i" "idx + len"] Cons.prems(2) unfolding l by auto
  have "length b = len" using b(1) by (rule iov_base_length)
  with b base' r show ?case unfolding l
    by (intro exI [of _ "base' # bases'"]) (simp add: iov_bytes_Cons mask_bytes_append)
qed simp

section \<open>The header\<close>

lemma length_frame_header:
  "length (frame_header opcode m n) = (if n < 126 then 2 else if n < 65536 then 4 else 10)"
  by (simp add: frame_header_def Let_def)

lemma byte_of_int_low:
  assumes "0 \<le> opcode" "opcode < 16"
  shows "bit (0x80 OR (of_int opcode AND 0x0F) :: byte) 7" "uint ((0x80 OR (of_int opcode AND 0x0F)) AND 0x0F :: byte) = opcode"
proof -
  have "opcode = 0 \<or> opcode = 1 \<or> opcode = 2 \<or> opcode = 3 \<or> opcode = 4 \<or> opcode = 5 \<or> opcode = 6 \<or> opcode = 7 \<or>
      opcode = 8 \<or> opcode = 9 \<or> opcode = 10 \<or> opcode = 11 \<or> opcode = 12 \<or> opcode = 13 \<or> opcode = 14 \<or> opcode = 15"
    using assms by presburger
  then show "bit (0x80 OR (of_int opcode AND 0x0F) :: byte) 7" "uint ((0x80 OR (of_int opcode AND 0x0F)) AND 0x0F :: byte) = opcode"
    by (elim disjE; simp)+
qed

lemma length_byte:
  assumes "n < 126"
  shows "bit (0x80 OR (of_nat n AND 0x7F) :: byte) 7" "unat ((0x80 OR (of_nat n AND 0x7F)) AND 0x7F :: byte) = n"
proof -
  have "list_all (\<lambda>n. bit (0x80 OR (of_nat n AND 0x7F) :: byte) 7 \<and> unat ((0x80 OR (of_nat n AND 0x7F)) AND 0x7F :: byte) = n) [0..<126]"
    by code_simp
  then show "bit (0x80 OR (of_nat n AND 0x7F) :: byte) 7" "unat ((0x80 OR (of_nat n AND 0x7F)) AND 0x7F :: byte) = n"
    using assms unfolding list_all_iff by auto
qed

lemma decode_frame_header:
  assumes op: "0 \<le> opcode" "opcode < 16" and n: "n < 2 ^ 64"
  shows "rfc6455_decode (frame_header opcode True n @ r) =
    map_option (\<lambda>(payload, rest). (True, opcode, payload, rest)) (rfc6455_payload True n r)"
proof -
  note low = byte_of_int_low [OF op]
  consider "n < 126" | "\<not> n < 126" "n < 65536" | "\<not> n < 65536" by linarith
  then show ?thesis
  proof cases
    case 1
    then show ?thesis using low length_byte [OF 1] by (simp add: rfc6455_decode_def frame_header_def Let_def)
  next
    case 2
    have e: "be_nat (be_bytes 2 n) = n" using 2 by (simp add: be_nat_be_bytes)
    have t: "take 2 (be_bytes 2 n @ r) = be_bytes 2 n" "drop 2 (be_bytes 2 n @ r) = r" by simp_all
    show ?thesis using low 2 e t
      by (simp add: rfc6455_decode_def frame_header_def Let_def del: be_bytes.simps)
  next
    case 3
    have e: "be_nat (be_bytes 8 n) = n" using n by (simp add: be_nat_be_bytes)
    have t: "take 8 (be_bytes 8 n @ r) = be_bytes 8 n" "drop 8 (be_bytes 8 n @ r) = r" by simp_all
    show ?thesis using low 3 e t
      by (simp add: rfc6455_decode_def frame_header_def Let_def del: be_bytes.simps)
  qed
qed


section \<open>Property\<close>

lemma length_new_mask: "length (fst (new_mask_bytes E s)) = 4"
  by (simp add: new_mask_bytes_def split: prod.split)



definition one_byte_env :: "bytes web_env" where
  "one_byte_env =
     \<lparr>we_os = \<lparr>os_alloc = always_alloc, os_junk = 0xAA, os_error = (\<lambda>s. WSAEWOULDBLOCK), os_recv = (\<lambda>socket k s. (None, s)),
        os_WSASend = (\<lambda>socket bs s. (0, length (concat bs), s @ concat bs)), os_select = (\<lambda>m r w t s. (0, {}, {}, s)),
        os_ioctl = (\<lambda>socket s. (0, s)), os_socket = (\<lambda>f s. (1, s)), os_connect = (\<lambda>socket f a p s. (0, s)),
        os_getaddrinfo = (\<lambda>a s. (0, [], s)), os_shutdown = (\<lambda>socket s. (0, s)), os_closesocket = (\<lambda>socket s. (0, s)),
        os_writecomplete = None\<rparr>,
      we_rand = (\<lambda>s. (77, s)), we_uuid = (\<lambda>s. (replicate 16 0, s)), we_time = (\<lambda>s. (0, s)),
      we_sleep = (\<lambda>s. s), we_rcs = 0\<rparr>"

definition idle_socket :: "bytes web_state" where
  "idle_socket = \<lparr>ws_net = idle_net [], in_frames = None, last_frame = None, frame_buffer = None, frame_buffer_len = 0,
     frame_buffer_index = 0, frame_buffer_data_len = 0\<rparr>"




end
