(* ===== verification/PacketStream.thy ===== *)
theory PacketStream
  imports WebSocket PacketReceive
begin

text \<open>
  Packets from a TCP stream that delivers them in pieces: \<open>SocketBuffer.c\<close>, \<open>Socket_getch\<close> and
  \<open>Socket_getdata\<close> keep what was read of a packet, and \<open>MQTTPacket_Factory\<close> starts over until it is
  complete.  \<open>reading\<close> is the invariant of the queue between two calls, \<open>holding\<close> the one inside
  \<open>Socket_getdata\<close>; \<open>header_run\<close> follows the fixed header, \<open>Factory_data\<close> the rest, and
  \<open>packet_in_pieces\<close> is the induction over the calls.
\<close>

section \<open>The queue of a packet that is being read\<close>

definition one_queue :: "int \<Rightarrow> SocketBuffer \<Rightarrow> bool" where
  "one_queue socket sb \<longleftrightarrow> cl_wf (queues sb) \<and>
     (\<forall>i < length (cl_items (queues sb)). \<forall>j < length (cl_items (queues sb)).
        sq_socket (cl_items (queues sb) ! i) = socket \<longrightarrow> sq_socket (cl_items (queues sb) ! j) = socket \<longrightarrow> i = j)"

definition queue_ok :: "socket_queue \<Rightarrow> bool" where
  "queue_ok q \<longleftrightarrow> length (sq_fixed_header q) = 5 \<and> (\<exists>b. sq_buf q = Some b \<and> sq_buflen q \<le> length b)"

text \<open>
  \<open>reading socket hdr idx part len sb\<close>: of the packet that arrives at \<open>socket\<close> the bytes \<open>hdr\<close> of its
  fixed header have been read and the first \<open>idx\<close> of them were given to the reader, and the bytes \<open>part\<close>
  of its body, which has the length \<open>len\<close>.
\<close>

definition reading :: "int \<Rightarrow> bytes \<Rightarrow> nat \<Rightarrow> bytes \<Rightarrow> nat \<Rightarrow> SocketBuffer \<Rightarrow> bool" where
  "reading socket hdr idx part len sb \<longleftrightarrow>
     socket \<noteq> 0 \<and> one_queue socket sb \<and> length hdr \<le> 5 \<and> idx \<le> length hdr \<and>
     (\<exists>d. def_queue sb = Some d \<and> queue_ok d \<and>
       (case find_index (socketcompare socket) (cl_items (queues sb)) of
          None \<Rightarrow>
            part = [] \<and> idx = length hdr \<and> sq_headerlen d = length hdr \<and> sq_index d = length hdr \<and>
            take (length hdr) (sq_fixed_header d) = hdr \<and> sq_datalen d = 0 \<and>
            sq_socket d = (if hdr = [] then 0 else socket)
        | Some j \<Rightarrow>
            let q = cl_items (queues sb) ! j in
            queue_ok q \<and> sq_socket d = 0 \<and> sq_headerlen q = length hdr \<and> sq_index q = idx \<and>
            take (length hdr) (sq_fixed_header q) = hdr \<and> sq_datalen q = length part \<and>
            (part \<noteq> [] \<longrightarrow> len \<le> sq_buflen q \<and> length part \<le> len \<and> take (length part) (the (sq_buf q)) = part)))"

lemma find_queue_index:
  assumes "one_queue socket sb"
  shows "find_queue socket sb = (find_index (socketcompare socket) (cl_items (queues sb)),
    sb\<lparr>queues := snd (cl_find (socketcompare socket) (queues sb))\<rparr>)"
proof -
  have "fst (cl_find (socketcompare socket) (queues sb)) = find_index (socketcompare socket) (cl_items (queues sb))"
    using assms by (intro cl_find_unique) (auto simp: one_queue_def socketcompare_def)
  then show ?thesis by (cases "cl_find (socketcompare socket) (queues sb)") (simp add: find_queue_def)
qed

lemma one_queue_find [simp]:
  "one_queue socket sb \<Longrightarrow> one_queue socket (sb\<lparr>queues := snd (cl_find P (queues sb))\<rparr>)"
  by (auto simp: one_queue_def frame_simps cl_wf_find)

lemma find_index_socket:
  "find_index (socketcompare socket) l = Some j \<Longrightarrow> j < length l \<and> sq_socket (l ! j) = socket"
  by (auto dest: find_index_SomeD simp: socketcompare_def)

text \<open>Updating the queue that is found does not change which one is found.\<close>

lemma find_index_update:
  assumes "find_index P l = Some j" "P q"
  shows "find_index P (l[j := q]) = Some j"
  using assms by (auto simp: find_index_Some_iff nth_list_update)

lemma one_queue_update:
  assumes "one_queue socket sb" "find_index (socketcompare socket) (cl_items (queues sb)) = Some j" "sq_socket q = socket"
  shows "one_queue socket (set_queue (Some j) q sb)"
  using assms find_index_socket [OF assms(2)]
  by (auto simp: one_queue_def set_queue_def nth_list_update cl_wf_def split: option.splits)

lemma reading_find:
  "reading socket hdr idx part len sb \<Longrightarrow> reading socket hdr idx part len (sb\<lparr>queues := snd (cl_find P (queues sb))\<rparr>)"
  unfolding reading_def by (simp add: frame_simps cong: if_cong option.case_cong split del: if_split)

lemma reading_cases:
  assumes "reading socket hdr idx part len sb"
  obtains (default) d where "find_queue socket sb = (None, sb\<lparr>queues := snd (cl_find (socketcompare socket) (queues sb))\<rparr>)"
      "find_index (socketcompare socket) (cl_items (queues sb)) = None"
      "def_queue sb = Some d" "queue_ok d" "part = []" "idx = length hdr" "sq_headerlen d = length hdr"
      "sq_index d = length hdr" "take (length hdr) (sq_fixed_header d) = hdr" "sq_datalen d = 0"
      "sq_socket d = (if hdr = [] then 0 else socket)"
  | (queued) j q d where "find_queue socket sb = (Some j, sb\<lparr>queues := snd (cl_find (socketcompare socket) (queues sb))\<rparr>)"
      "find_index (socketcompare socket) (cl_items (queues sb)) = Some j" "j < length (cl_items (queues sb))"
      "q = cl_items (queues sb) ! j" "sq_socket q = socket" "queue_ok q" "def_queue sb = Some d" "queue_ok d"
      "sq_socket d = 0" "sq_headerlen q = length hdr" "sq_index q = idx" "take (length hdr) (sq_fixed_header q) = hdr"
      "sq_datalen q = length part"
      "part \<noteq> [] \<Longrightarrow> len \<le> sq_buflen q \<and> length part \<le> len \<and> take (length part) (the (sq_buf q)) = part"
proof -
  have one: "one_queue socket sb" using assms by (simp add: reading_def)
  note f = find_queue_index [OF one]
  show thesis
  proof (cases "find_index (socketcompare socket) (cl_items (queues sb))")
    case None
    obtain d where "def_queue sb = Some d" using assms by (auto simp: reading_def)
    with None assms f show thesis by (intro default [of d]) (simp_all add: reading_def)
  next
    case (Some j)
    obtain d where "def_queue sb = Some d" using assms by (auto simp: reading_def)
    with Some assms f find_index_socket [OF Some] show thesis
      by (intro queued [of j "cl_items (queues sb) ! j" d]) (simp_all add: reading_def Let_def)
  qed
qed

lemma reading_one_queue: "reading socket hdr idx part len sb \<Longrightarrow> one_queue socket sb"
  by (simp add: reading_def)

section \<open>Characters\<close>

lemma queued_char:
  assumes "reading socket hdr idx part len sb" "idx < length hdr"
  shows "\<exists>sb'. SocketBuffer_getQueuedChar socket c sb = Some (SOCKETBUFFER_COMPLETE, hdr ! idx, sb') \<and>
    reading socket hdr (Suc idx) part len sb'"
  using assms(1)
proof (cases rule: reading_cases)
  case (default d)
  then show ?thesis using assms(2) by simp
next
  case (queued j q d)
  have l: "length hdr \<le> 5" using assms(1) by (simp add: reading_def)
  have h: "sq_fixed_header q ! idx = hdr ! idx" using queued(12) assms(2) by (metis nth_take)
  have r: "read_at (sq_fixed_header q) idx = Some (hdr ! idx)"
    using l assms(2) queued(6) h by (simp add: read_at_def queue_ok_def)
  let ?sb = "sb\<lparr>queues := snd (cl_find (socketcompare socket) (queues sb))\<rparr>"
  let ?sb' = "set_queue (Some j) (q\<lparr>sq_index := Suc idx\<rparr>) ?sb"
  have i: "find_index (socketcompare socket) (cl_items (queues ?sb)) = Some j" using queued(2) by (simp add: frame_simps)
  have one: "one_queue socket ?sb'"
    by (intro one_queue_update) (use reading_one_queue [OF assms(1)] i queued(5) in auto)
  have "find_index (socketcompare socket) (cl_items (queues ?sb')) = Some j"
    using find_index_update [OF i, of "q\<lparr>sq_index := Suc idx\<rparr>"] queued(5) by (simp add: set_queue_def socketcompare_def)
  then have "reading socket hdr (Suc idx) part len ?sb'"
    using queued assms one l
    by (auto simp: reading_def set_queue_def Let_def frame_simps queue_ok_def nth_list_update)
  moreover have "SocketBuffer_getQueuedChar socket c sb = Some (SOCKETBUFFER_COMPLETE, hdr ! idx, ?sb')"
    using queued assms(2) r by (simp add: SocketBuffer_getQueuedChar_def queue_at_def frame_simps del: bind_Some_iff)
  ultimately show ?thesis by blast
qed

lemma no_queued_char:
  assumes "reading socket hdr (length hdr) part len sb" "length hdr < 5"
  shows "\<exists>sb'. SocketBuffer_getQueuedChar socket c sb = Some (SOCKETBUFFER_INTERRUPTED, c, sb') \<and>
    reading socket hdr (length hdr) part len sb'"
  using assms(1)
proof (cases rule: reading_cases)
  case (default d)
  then show ?thesis using reading_find [OF assms(1)] by (simp add: SocketBuffer_getQueuedChar_def)
next
  case (queued j q d)
  then show ?thesis using reading_find [OF assms(1)] assms(2)
    by (simp add: SocketBuffer_getQueuedChar_def queue_at_def frame_simps del: bind_Some_iff)
qed

lemma take_append_update:
  "length hdr < length fh \<Longrightarrow> take (length hdr) fh = hdr \<Longrightarrow> take (Suc (length hdr)) (fh[length hdr := b]) = hdr @ [b]"
  by (simp add: take_Suc_conv_app_nth)

lemma queue_char:
  assumes "reading socket hdr (length hdr) [] len sb" "length hdr < 5"
  shows "\<exists>sb'. SocketBuffer_queueChar socket b sb = Some sb' \<and>
    reading socket (hdr @ [b]) (Suc (length hdr)) [] len sb'"
  using assms(1)
proof (cases rule: reading_cases)
  case (default d)
  let ?sb = "sb\<lparr>queues := snd (cl_find (socketcompare socket) (queues sb))\<rparr>"
  let ?q = "(if sq_socket d = 0 then d\<lparr>sq_socket := socket, sq_index := 0, sq_datalen := 0\<rparr> else d)"
  let ?q' = "?q\<lparr>sq_fixed_header := (sq_fixed_header d)[length hdr := b], sq_index := Suc (length hdr), sq_headerlen := Suc (length hdr)\<rparr>"
  have s: "socket \<noteq> 0" using assms(1) by (simp add: reading_def)
  have e: "SocketBuffer_queueChar socket b sb = Some (set_queue None ?q' ?sb)"
    using default assms(2) s
    by (auto simp: SocketBuffer_queueChar_def write_at_def queue_ok_def simp del: bind_Some_iff)
  have "reading socket (hdr @ [b]) (Suc (length hdr)) [] len (set_queue None ?q' ?sb)"
    using default assms s reading_one_queue [OF assms(1)] take_append_update [of hdr "sq_fixed_header d" b]
    by (auto simp: reading_def set_queue_def frame_simps queue_ok_def one_queue_def cl_wf_find)
  with e show ?thesis by blast
next
  case (queued j q d)
  let ?sb = "sb\<lparr>queues := snd (cl_find (socketcompare socket) (queues sb))\<rparr>"
  let ?q' = "q\<lparr>sq_fixed_header := (sq_fixed_header q)[length hdr := b], sq_index := Suc (length hdr), sq_headerlen := Suc (length hdr)\<rparr>"
  have e: "SocketBuffer_queueChar socket b sb = Some (set_queue (Some j) ?q' ?sb)"
    using queued assms(2)
    by (simp add: SocketBuffer_queueChar_def write_at_def queue_ok_def queue_at_def frame_simps del: bind_Some_iff)
  have i: "find_index (socketcompare socket) (cl_items (queues ?sb)) = Some j" using queued(2) by (simp add: frame_simps)
  have one: "one_queue socket (set_queue (Some j) ?q' ?sb)"
    by (intro one_queue_update) (use reading_one_queue [OF assms(1)] i queued(5) in auto)
  have "find_index (socketcompare socket) (cl_items (queues (set_queue (Some j) ?q' ?sb))) = Some j"
    using find_index_update [OF i, of ?q'] queued(5) by (simp add: set_queue_def socketcompare_def)
  then have "reading socket (hdr @ [b]) (Suc (length hdr)) [] len (set_queue (Some j) ?q' ?sb)"
    using queued assms one take_append_update [of hdr "sq_fixed_header q" b]
    by (auto simp: reading_def set_queue_def Let_def frame_simps queue_ok_def nth_list_update)
  with e show ?thesis by blast
qed


section \<open>Data\<close>

text \<open>The queue \<open>q\<close>, found at \<open>r\<close>, holds the fixed header and the part \<open>part\<close> of the body.\<close>

definition holding :: "int \<Rightarrow> bytes \<Rightarrow> bytes \<Rightarrow> nat \<Rightarrow> SocketBuffer \<Rightarrow> nat option \<Rightarrow> socket_queue \<Rightarrow> bool" where
  "holding socket hdr part len sb r q \<longleftrightarrow>
     socket \<noteq> 0 \<and> one_queue socket sb \<and> length hdr \<le> 5 \<and>
     find_index (socketcompare socket) (cl_items (queues sb)) = r \<and> queue_at r sb = Some q \<and> queue_ok q \<and>
     sq_headerlen q = length hdr \<and> take (length hdr) (sq_fixed_header q) = hdr \<and>
     (\<exists>d. def_queue sb = Some d \<and> queue_ok d \<and> (r \<noteq> None \<longrightarrow> sq_socket d = 0)) \<and>
     (part \<noteq> [] \<longrightarrow> len \<le> sq_buflen q \<and> length part \<le> len \<and> take (length part) (the (sq_buf q)) = part)"

lemma reading_holding:
  assumes "reading socket hdr idx part len sb"
  shows "\<exists>r q. holding socket hdr part len sb r q \<and> sq_datalen q = length part"
  using assms
proof (cases rule: reading_cases)
  case (default d)
  then show ?thesis using assms by (intro exI [of _ None] exI [of _ d]) (simp add: reading_def holding_def queue_at_def)
next
  case (queued j q d)
  then show ?thesis using assms
    by (intro exI [of _ "Some j"] exI [of _ q]) (simp add: reading_def holding_def queue_at_def)
qed

lemma holding_find: "holding socket hdr part len sb r q \<Longrightarrow>
    find_queue socket sb = (r, sb\<lparr>queues := snd (cl_find (socketcompare socket) (queues sb))\<rparr>)"
  using find_queue_index by (auto simp: holding_def)

lemma queue_at_find [simp]: "queue_at r (sb\<lparr>queues := snd (cl_find P (queues sb))\<rparr>) = queue_at r sb"
  by (simp add: queue_at_def frame_simps split: option.split)

lemma holding_find_state: "holding socket hdr part len sb r q \<Longrightarrow>
    holding socket hdr part len (sb\<lparr>queues := snd (cl_find P (queues sb))\<rparr>) r q"
  by (simp add: holding_def frame_simps)

lemma queue_ok_fields:
  "queue_ok (q\<lparr>sq_socket := a\<rparr>) = queue_ok q" "queue_ok (q\<lparr>sq_index := b\<rparr>) = queue_ok q"
  "queue_ok (q\<lparr>sq_datalen := b\<rparr>) = queue_ok q" "queue_ok (q\<lparr>sq_headerlen := b\<rparr>) = queue_ok q"
  by (simp_all add: queue_ok_def)

lemma queue_ok_new: "queue_ok (new_queue (Some (replicate 1000 junk)) 0 junk)"
  by (simp add: queue_ok_def new_queue_def)

lemma find_index_append_new:
  assumes "find_index P l = None" "P x"
  shows "find_index P (l @ [x]) = Some (length l)"
  using assms by (auto simp: find_index_None_iff find_index_Some_iff nth_append)

lemma one_queue_append:
  assumes "one_queue socket sb" "find_index (socketcompare socket) (cl_items (queues sb)) = None"
  shows "one_queue socket (sb\<lparr>queues := cl_append q (queues sb)\<rparr>)"
proof -
  have "\<forall>x \<in> set (cl_items (queues sb)). sq_socket x \<noteq> socket"
    using assms(2) by (simp add: find_index_None_iff socketcompare_def)
  then have "\<forall>i < length (cl_items (queues sb)). sq_socket (cl_items (queues sb) ! i) \<noteq> socket" by simp
  then show ?thesis using assms(1) by (auto simp: one_queue_def nth_append less_Suc_eq)
qed

lemma interrupted_reading:
  assumes h: "holding socket hdr part len sb r q" and alloc: "\<And>x. alloc x"
  shows "\<exists>sb'. SocketBuffer_interrupted alloc junk socket (length part) sb = Some sb' \<and> reading socket hdr 0 part len sb'"
proof (cases r)
  case None
  let ?sb = "sb\<lparr>queues := snd (cl_find (socketcompare socket) (queues sb))\<rparr>"
  let ?q = "q\<lparr>sq_socket := socket, sq_index := 0, sq_datalen := length part\<rparr>"
  let ?sb' = "?sb\<lparr>queues := cl_append ?q (queues ?sb), def_queue := Some (new_queue (Some (replicate 1000 junk)) 0 junk)\<rparr>"
  have e: "SocketBuffer_interrupted alloc junk socket (length part) sb = Some ?sb'"
    using h None holding_find [OF h] alloc
    by (simp add: SocketBuffer_interrupted_def SocketBuffer_newDefQ_def holding_def queue_at_def Let_def)
  have i: "find_index (socketcompare socket) (cl_items (queues ?sb)) = None"
    using h None by (simp add: holding_def frame_simps)
  have "one_queue socket (?sb\<lparr>queues := cl_append ?q (queues ?sb)\<rparr>)"
    using h i by (intro one_queue_append) (simp_all add: holding_def)
  then have one: "one_queue socket ?sb'" by (simp add: one_queue_def)
  have i': "find_index (socketcompare socket) (cl_items (queues ?sb')) = Some (length (cl_items (queues sb)))"
    using find_index_append_new [OF i, of ?q] by (simp add: socketcompare_def frame_simps)
  have "reading socket hdr 0 part len ?sb'"
    using h None one i' queue_ok_new [of junk]
    by (simp add: reading_def holding_def Let_def frame_simps queue_ok_fields) (simp add: new_queue_def)
  with e show ?thesis by blast
next
  case (Some j)
  let ?sb = "sb\<lparr>queues := snd (cl_find (socketcompare socket) (queues sb))\<rparr>"
  let ?q = "q\<lparr>sq_index := 0, sq_datalen := length part\<rparr>"
  have e: "SocketBuffer_interrupted alloc junk socket (length part) sb = Some (set_queue (Some j) ?q ?sb)"
    using h Some holding_find [OF h] by (simp add: SocketBuffer_interrupted_def holding_def)
  have i: "find_index (socketcompare socket) (cl_items (queues ?sb)) = Some j"
    using h Some by (simp add: holding_def frame_simps)
  have q: "q = cl_items (queues sb) ! j" "j < length (cl_items (queues sb))" "sq_socket q = socket"
    using h Some find_index_socket [of socket "cl_items (queues sb)" j] by (auto simp: holding_def queue_at_def)
  have one: "one_queue socket (set_queue (Some j) ?q ?sb)"
    by (intro one_queue_update) (use h i q in \<open>simp_all add: holding_def\<close>)
  have "find_index (socketcompare socket) (cl_items (queues (set_queue (Some j) ?q ?sb))) = Some j"
    using find_index_update [OF i, of ?q] q(3) by (simp add: set_queue_def socketcompare_def)
  then have "reading socket hdr 0 part len (set_queue (Some j) ?q ?sb)"
    using h Some one q
    by (auto simp: reading_def holding_def set_queue_def Let_def frame_simps queue_ok_fields)
  with e show ?thesis by blast
qed

lemma find_index_removed:
  assumes "find_index P l = Some j" "\<And>i k. i < length l \<Longrightarrow> k < length l \<Longrightarrow> P (l ! i) \<Longrightarrow> P (l ! k) \<Longrightarrow> i = k"
  shows "find_index P (take j l @ drop (Suc j) l) = None"
proof -
  have j: "j < length l" "P (l ! j)" using assms(1) by (auto dest: find_index_SomeD)
  have "\<not> P x" if "x \<in> set (take j l)" for x
  proof -
    from that obtain i where "i < j" "i < length l" "x = l ! i" by (auto simp: in_set_conv_nth)
    then show ?thesis using assms(2) [of i j] j by auto
  qed
  moreover have "\<not> P x" if "x \<in> set (drop (Suc j) l)" for x
  proof -
    from that obtain i where "i < length l - Suc j" "x = l ! (Suc j + i)" by (auto simp: in_set_conv_nth)
    then show ?thesis using assms(2) [of "Suc j + i" j] j by fastforce
  qed
  ultimately show ?thesis by (auto simp: find_index_None_iff)
qed

lemma complete_reading:
  assumes h: "holding socket hdr part len sb r q"
  shows "\<exists>sb'. SocketBuffer_complete socket sb = Some (sq_buf q, sb') \<and> reading socket [] 0 [] n sb'"
proof (cases r)
  case None
  let ?sb = "sb\<lparr>queues := snd (cl_find (socketcompare socket) (queues sb))\<rparr>"
  let ?q = "q\<lparr>sq_socket := 0, sq_index := 0, sq_headerlen := 0, sq_datalen := 0\<rparr>"
  have e: "SocketBuffer_complete socket sb = Some (sq_buf q, ?sb\<lparr>def_queue := Some ?q\<rparr>)"
    using h None holding_find [OF h] by (simp add: SocketBuffer_complete_def holding_def queue_at_def)
  have "reading socket [] 0 [] n (?sb\<lparr>def_queue := Some ?q\<rparr>)"
    using h None by (auto simp: reading_def holding_def frame_simps queue_ok_fields one_queue_def cl_wf_find)
  with e show ?thesis by blast
next
  case (Some j)
  let ?sb = "sb\<lparr>queues := snd (cl_find (socketcompare socket) (queues sb))\<rparr>"
  let ?q = "q\<lparr>sq_socket := 0, sq_index := 0, sq_headerlen := 0, sq_datalen := 0\<rparr>"
  let ?l = "cl_remove_at j (cl_cur (queues ?sb)) (queues ?sb)"
  let ?sb' = "sb\<lparr>def_queue := Some ?q, queues := ?l\<rparr>"
  obtain d where d: "def_queue sb = Some d" using h by (auto simp: holding_def)
  have i: "find_index (socketcompare socket) (cl_items (queues sb)) = Some j" and one: "one_queue socket sb"
    using h Some by (simp_all add: holding_def)
  have q: "queue_at (Some j) sb = Some q" using h Some by (simp add: holding_def)
  have e: "SocketBuffer_complete socket sb = Some (sq_buf q, ?sb')"
    using Some holding_find [OF h] d q
    by (simp add: SocketBuffer_complete_def SocketBuffer_freeDefQ_def)
  have j: "j < length (cl_items (queues sb))" using find_index_socket [OF i] by simp
  have items: "cl_items ?l = take j (cl_items (queues sb)) @ drop (Suc j) (cl_items (queues sb))"
    by (simp add: cl_remove_at_def frame_simps)
  have none: "find_index (socketcompare socket) (cl_items ?l) = None"
    unfolding items using one by (intro find_index_removed [OF i]) (auto simp: one_queue_def socketcompare_def)
  have "cl_wf ?l"
    using one cl_wf_find [of "queues sb" "socketcompare socket"] j
    by (intro cl_wf_remove_at) (auto simp: one_queue_def frame_simps cl_wf_def)
  then have "one_queue socket ?sb'"
    using none by (auto simp: one_queue_def find_index_None_iff socketcompare_def dest: nth_mem)
  then have "reading socket [] 0 [] n ?sb'"
    using h none by (auto simp: reading_def holding_def queue_ok_fields)
  with e show ?thesis by blast
qed

lemma holding_update:
  assumes h: "holding socket hdr part len sb r q" and ok: "queue_ok q'"
    and same: "sq_socket q' = sq_socket q" "sq_headerlen q' = sq_headerlen q" "sq_fixed_header q' = sq_fixed_header q"
    and part: "part' \<noteq> [] \<Longrightarrow> len \<le> sq_buflen q' \<and> length part' \<le> len \<and> take (length part') (the (sq_buf q')) = part'"
  shows "holding socket hdr part' len (set_queue r q' sb) r q'"
proof (cases r)
  case None
  then show ?thesis using h ok same part by (auto simp: holding_def set_queue_def queue_at_def one_queue_def)
next
  case (Some j)
  have i: "find_index (socketcompare socket) (cl_items (queues sb)) = Some j" using h Some by (simp add: holding_def)
  have s: "sq_socket q = socket" "j < length (cl_items (queues sb))"
    using find_index_socket [OF i] h Some by (auto simp: holding_def queue_at_def)
  have "one_queue socket (set_queue (Some j) q' sb)"
    by (intro one_queue_update) (use h i s same in \<open>simp_all add: holding_def\<close>)
  moreover have "find_index (socketcompare socket) (cl_items (queues (set_queue (Some j) q' sb))) = Some j"
    using find_index_update [OF i, of q'] s same by (simp add: set_queue_def socketcompare_def)
  ultimately show ?thesis using h ok same part Some s
    by (auto simp: holding_def set_queue_def queue_at_def)
qed

lemma queued_data:
  assumes r: "reading socket hdr idx part len sb" and alloc: "\<And>x. alloc x"
  shows "\<exists>r q sb'. SocketBuffer_getQueuedData alloc junk socket len sb = Some (r, length part, sb') \<and>
    holding socket hdr part len sb' r q \<and> len \<le> sq_buflen q"
proof -
  obtain r q where h: "holding socket hdr part len sb r q" and dl: "sq_datalen q = length part"
    using reading_holding [OF r] by blast
  have z: "r = None \<Longrightarrow> part = []"
    using r h by (auto simp: reading_def holding_def)
  let ?sb = "sb\<lparr>queues := snd (cl_find (socketcompare socket) (queues sb))\<rparr>"
  have h': "holding socket hdr part len ?sb r q" using h by (rule holding_find_state)
  have al: "(if r = None then 0 else sq_datalen q) = length part" using z dl by auto
  show ?thesis
  proof (cases "sq_buflen q < len")
    case False
    then have "SocketBuffer_getQueuedData alloc junk socket len sb = Some (r, length part, ?sb)"
      using holding_find [OF h] h' al
      by (simp add: SocketBuffer_getQueuedData_def holding_def Let_def del: bind_Some_iff)
    with h' False show ?thesis by (auto simp: not_less)
  next
    case True
    then have p: "part = []" using h by (auto simp: holding_def)
    obtain b where b: "sq_buf q = Some b" using h by (auto simp: holding_def queue_ok_def)
    let ?q = "q\<lparr>sq_buf := Some (take len b @ replicate (len - length b) junk), sq_buflen := len\<rparr>"
    have e: "SocketBuffer_getQueuedData alloc junk socket len sb = Some (r, length part, set_queue r ?q ?sb)"
      using holding_find [OF h] h' al True p dl alloc b
      by (simp add: SocketBuffer_getQueuedData_def holding_def Let_def del: bind_Some_iff)
    have ok: "queue_ok ?q" using h by (simp add: holding_def queue_ok_def min_def)
    have "holding socket hdr part len (set_queue r ?q ?sb) r ?q"
      by (rule holding_update [OF h' ok]) (simp_all add: p)
    with e show ?thesis by (intro exI [of _ r] exI [of _ ?q]) auto
  qed
qed

lemma holding_append:
  assumes h: "holding socket hdr part len sb r q" and l: "len \<le> sq_buflen q" "length part + length bs \<le> len"
  shows "\<exists>b. memcpy_at (the (sq_buf q)) (length part) bs = Some b \<and>
    holding socket hdr (part @ bs) len (set_queue r (q\<lparr>sq_buf := Some b\<rparr>) sb) r (q\<lparr>sq_buf := Some b\<rparr>) \<and>
    take (length part + length bs) b = part @ bs"
proof -
  obtain b where b: "sq_buf q = Some b" "sq_buflen q \<le> length b" using h by (auto simp: holding_def queue_ok_def)
  let ?b = "take (length part) b @ bs @ drop (length part + length bs) b"
  let ?q = "q\<lparr>sq_buf := Some ?b\<rparr>"
  have tp: "take (length part) b = part" using h b by (auto simp: holding_def)
  have m: "memcpy_at (the (sq_buf q)) (length part) bs = Some ?b"
    using b l by (simp add: memcpy_at_def)
  have t: "take (length part + length bs) ?b = part @ bs" using tp b l by simp
  have ok: "queue_ok ?q" using h b l by (simp add: holding_def queue_ok_def)
  have "holding socket hdr (part @ bs) len (set_queue r ?q sb) r ?q"
    by (rule holding_update [OF h ok]) (use t l in simp_all)
  with m t show ?thesis by blast
qed


section \<open>The stream\<close>

text \<open>
  What the system promises for a connected, non-blocking socket: as long as bytes are still to come
  (\<open>inp\<close>), \<open>recv\<close> returns some of them, in order and as many as it likes up to the number asked for, or
  says that it would block; the latter \<open>waits\<close> times at most.
\<close>

definition tcp_stream :: "'o os_env \<Rightarrow> int \<Rightarrow> ('o \<Rightarrow> bytes) \<Rightarrow> ('o \<Rightarrow> nat) \<Rightarrow> bool" where
  "tcp_stream E socket inp waits \<longleftrightarrow>
     (\<forall>k s. 0 < k \<and> inp s \<noteq> [] \<longrightarrow>
       (case os_recv E socket k s of
          (None, s') \<Rightarrow> os_error E s' = WSAEWOULDBLOCK \<and> inp s' = inp s \<and> waits s' < waits s
        | (Some bs, s') \<Rightarrow> bs \<noteq> [] \<and> int (length bs) \<le> k \<and> inp s = bs @ inp s' \<and> waits s' \<le> waits s))"

lemma tcp_stream_cases:
  assumes "tcp_stream E socket inp waits" "0 < k" "inp s \<noteq> []"
  obtains (blocks) s' where "os_recv E socket k s = (None, s')" "os_error E s' = WSAEWOULDBLOCK" "inp s' = inp s" "waits s' < waits s"
  | (bytes) bs s' where "os_recv E socket k s = (Some bs, s')" "bs \<noteq> []" "int (length bs) \<le> k" "inp s = bs @ inp s'" "waits s' \<le> waits s"
proof (cases "os_recv E socket k s")
  case (Pair r s')
  have "case os_recv E socket k s of
          (None, s') \<Rightarrow> os_error E s' = WSAEWOULDBLOCK \<and> inp s' = inp s \<and> waits s' < waits s
        | (Some bs, s') \<Rightarrow> bs \<noteq> [] \<and> int (length bs) \<le> k \<and> inp s = bs @ inp s' \<and> waits s' \<le> waits s"
    using assms(1) [unfolded tcp_stream_def, THEN spec, THEN spec, of k s] assms(2,3) by simp
  then have c: "case r of None \<Rightarrow> os_error E s' = WSAEWOULDBLOCK \<and> inp s' = inp s \<and> waits s' < waits s
      | Some bs \<Rightarrow> bs \<noteq> [] \<and> int (length bs) \<le> k \<and> inp s = bs @ inp s' \<and> waits s' \<le> waits s"
    using Pair by (simp split: option.splits)
  show thesis
  proof (cases r)
    case None
    with c Pair show thesis by (intro blocks [of s']) simp_all
  next
    case (Some bs)
    with c Pair show thesis by (intro bytes [of bs s']) simp_all
  qed
qed

definition net_reading :: "int \<Rightarrow> bytes \<Rightarrow> nat \<Rightarrow> bytes \<Rightarrow> nat \<Rightarrow> 'o net_state \<Rightarrow> bool" where
  "net_reading socket hdr idx part len n \<longleftrightarrow> reading socket hdr idx part len (nt_sb n)"

lemma Socket_getch_queued:
  assumes "net_reading socket hdr idx part len n" "idx < length hdr"
  shows "\<exists>n'. Socket_getch E socket n = Some (TCPSOCKET_COMPLETE, hdr ! idx, n') \<and>
    net_reading socket hdr (Suc idx) part len n' \<and> nt_os n' = nt_os n"
proof -
  obtain sb' where "SocketBuffer_getQueuedChar socket (os_junk E) (nt_sb n) = Some (SOCKETBUFFER_COMPLETE, hdr ! idx, sb')"
      "reading socket hdr (Suc idx) part len sb'"
    using queued_char [of socket hdr idx part len "nt_sb n" "os_junk E"] assms by (auto simp: net_reading_def)
  then show ?thesis
    by (intro exI [of _ "with_sb n sb'"])
      (simp add: Socket_getch_def with_sb_def net_reading_def del: bind_Some_iff)
qed

lemma Socket_getch_stream:
  assumes stream: "tcp_stream E socket inp waits" and alloc: "\<And>x. os_alloc E x"
    and r: "net_reading socket hdr (length hdr) [] len n" "length hdr < 5" and i: "inp (nt_os n) \<noteq> []"
  shows "(\<exists>c n'. Socket_getch E socket n = Some (TCPSOCKET_INTERRUPTED, c, n') \<and> net_reading socket hdr 0 [] len n' \<and>
      inp (nt_os n') = inp (nt_os n) \<and> waits (nt_os n') < waits (nt_os n)) \<or>
    (\<exists>b n'. Socket_getch E socket n = Some (TCPSOCKET_COMPLETE, b, n') \<and>
      net_reading socket (hdr @ [b]) (Suc (length hdr)) [] len n' \<and>
      inp (nt_os n) = b # inp (nt_os n') \<and> waits (nt_os n') \<le> waits (nt_os n))"
proof -
  obtain sb where g: "SocketBuffer_getQueuedChar socket (os_junk E) (nt_sb n) = Some (SOCKETBUFFER_INTERRUPTED, os_junk E, sb)"
      "reading socket hdr (length hdr) [] len sb"
    using no_queued_char [of socket hdr "[]" len "nt_sb n"] r by (auto simp: net_reading_def)
  have k: "(0 :: int) < 1" by simp
  show ?thesis
    using stream k i
  proof (cases rule: tcp_stream_cases)
    case (blocks s')
    obtain rq q where "holding socket hdr [] len sb rq q" using reading_holding [OF g(2)] by blast
    then obtain sb' where "SocketBuffer_interrupted (os_alloc E) (os_junk E) socket 0 sb = Some sb'" "reading socket hdr 0 [] len sb'"
      using interrupted_reading [of socket hdr "[]" len sb rq q "os_alloc E" "os_junk E"] alloc by auto
    with g blocks show ?thesis
      by (intro disjI1 exI [of _ "os_junk E"] exI [of _ "n\<lparr>nt_sb := sb', nt_os := s'\<rparr>"])
        (simp add: Socket_getch_def Socket_error_def with_sb_def net_reading_def del: bind_Some_iff)
  next
    case (bytes bs s')
    then obtain b where b: "bs = [b]" by (cases bs) auto
    obtain sb' where "SocketBuffer_queueChar socket b sb = Some sb'" "reading socket (hdr @ [b]) (Suc (length hdr)) [] len sb'"
      using queue_char [OF g(2) r(2)] by blast
    with g bytes b show ?thesis
      by (intro disjI2 exI [of _ b] exI [of _ "n\<lparr>nt_sb := sb', nt_os := s'\<rparr>"])
        (simp add: Socket_getch_def with_sb_def net_reading_def del: bind_Some_iff)
  qed
qed

lemma Socket_getdata_none:
  assumes "net_reading socket hdr idx part len n"
  shows "\<exists>b n'. Socket_getdata E socket 0 a rc n = Some (Some b, a, rc, n') \<and> net_reading socket [] 0 [] l n' \<and> nt_os n' = nt_os n"
proof -
  have rd: "reading socket hdr idx part len (nt_sb n)" using assms by (simp add: net_reading_def)
  obtain r q where h: "holding socket hdr part len (nt_sb n) r q" using reading_holding [OF rd] by blast
  obtain sb' where "SocketBuffer_complete socket (nt_sb n) = Some (sq_buf q, sb')" "reading socket [] 0 [] l sb'"
    using complete_reading [OF h] by blast
  moreover obtain b where "sq_buf q = Some b" using h by (auto simp: holding_def queue_ok_def)
  ultimately show ?thesis
    by (intro exI [of _ b] exI [of _ "with_sb n sb'"]) (simp add: Socket_getdata_def with_sb_def net_reading_def)
qed

lemma cast_size: "n < 2 ^ 31 \<Longrightarrow> m \<le> n \<Longrightarrow> signed_take_bit 31 (int n - int m) = int n - int m"
  by (rule signed_take_bit_int_eq_self) auto

lemma Socket_getdata_stream:
  assumes stream: "tcp_stream E socket inp waits" and alloc: "\<And>x. os_alloc E x"
    and r: "net_reading socket hdr idx part len n" and l: "length part < len" "len < 2 ^ 31" and i: "inp (nt_os n) \<noteq> []"
  shows "\<exists>b n' rc'. (Socket_getdata E socket len a rc n = Some (Some b, length part, rc', n') \<and> net_reading socket hdr 0 part len n' \<and>
      inp (nt_os n') = inp (nt_os n) \<and> waits (nt_os n') < waits (nt_os n)) \<or>
    (\<exists>bs. bs \<noteq> [] \<and> length part + length bs \<le> len \<and> Socket_getdata E socket len a rc n = Some (Some b, length part + length bs, rc', n') \<and>
      take (length part + length bs) b = part @ bs \<and> inp (nt_os n) = bs @ inp (nt_os n') \<and> waits (nt_os n') \<le> waits (nt_os n) \<and>
      (if length part + length bs = len then net_reading socket [] 0 [] len n' else net_reading socket hdr 0 (part @ bs) len n'))"
proof -
  have nz: "len \<noteq> 0" using l by simp
  obtain rq q sb where g: "SocketBuffer_getQueuedData (os_alloc E) (os_junk E) socket len (nt_sb n) = Some (rq, length part, sb)"
      and h: "holding socket hdr part len sb rq q" "len \<le> sq_buflen q"
    using queued_data [of socket hdr idx part len "nt_sb n" "os_alloc E" "os_junk E"] r alloc unfolding net_reading_def by blast
  obtain b0 where b0: "sq_buf q = Some b0" using h(1) by (auto simp: holding_def queue_ok_def)
  have q: "queue_at rq sb = Some q" using h(1) by (simp add: holding_def)
  have cast: "signed_take_bit 31 (int len - int (length part)) = int len - int (length part)" using l by (simp add: cast_size)
  have k: "0 < int len - int (length part)" using l by simp
  show ?thesis
    using stream k i
  proof (cases rule: tcp_stream_cases)
    case (blocks s')
    obtain sb' where c: "SocketBuffer_interrupted (os_alloc E) (os_junk E) socket (length part) sb = Some sb'" "reading socket hdr 0 part len sb'"
      using interrupted_reading [OF h(1), of "os_alloc E" "os_junk E"] alloc by auto
    let ?n = "n\<lparr>nt_sb := sb', nt_os := s'\<rparr>"
    have "Socket_getdata E socket len a rc n = Some (Some b0, length part, WSAEWOULDBLOCK, ?n)"
      using nz l g blocks c q b0 cast
      by (simp add: Socket_getdata_def getdata_done_def Socket_error_def with_sb_def Let_def del: bind_Some_iff)
    with blocks c show ?thesis
      by (intro exI [of _ b0] exI [of _ ?n] exI [of _ "WSAEWOULDBLOCK"]) (simp add: net_reading_def)
  next
    case (bytes bs s')
    then have fits: "length part + length bs \<le> len" by simp
    obtain b where m: "memcpy_at b0 (length part) bs = Some b" and h': "holding socket hdr (part @ bs) len (set_queue rq (q\<lparr>sq_buf := Some b\<rparr>) sb) rq (q\<lparr>sq_buf := Some b\<rparr>)"
        and t: "take (length part + length bs) b = part @ bs"
      using holding_append [OF h fits] b0 by auto
    let ?sb = "set_queue rq (q\<lparr>sq_buf := Some b\<rparr>) sb"
    have q': "queue_at rq ?sb = Some (q\<lparr>sq_buf := Some b\<rparr>)" using h' by (simp add: holding_def)
    obtain x xs where bs: "bs = x # xs" using bytes by (cases bs) auto
    have step: "Socket_getdata E socket len a rc n =
        getdata_done E socket len rq (length part + length bs) (int (length bs)) (n\<lparr>nt_os := s', nt_sb := ?sb\<rparr>)"
      using nz l g bytes q b0 cast m bs
      by (simp add: Socket_getdata_def with_sb_def Let_def del: bind_Some_iff)
    show ?thesis
    proof (cases "length part + length bs = len")
      case True
      obtain sb' where c: "SocketBuffer_complete socket ?sb = Some (Some b, sb')" "reading socket [] 0 [] len sb'"
        using complete_reading [OF h', of len] by auto
      let ?n = "n\<lparr>nt_sb := sb', nt_os := s'\<rparr>"
      have "Socket_getdata E socket len a rc n = Some (Some b, len, int (length bs), ?n)"
        unfolding step using True q' c by (simp add: getdata_done_def with_sb_def)
      with True t bytes c show ?thesis
        by (intro exI [of _ b] exI [of _ ?n] exI [of _ "int (length bs)"] disjI2 exI [of _ bs]) (simp add: net_reading_def)
    next
      case False
      obtain sb' where c: "SocketBuffer_interrupted (os_alloc E) (os_junk E) socket (length part + length bs) ?sb = Some sb'"
          "reading socket hdr 0 (part @ bs) len sb'"
        using interrupted_reading [OF h', of "os_alloc E" "os_junk E"] alloc by auto
      let ?n = "n\<lparr>nt_sb := sb', nt_os := s'\<rparr>"
      have "Socket_getdata E socket len a rc n = Some (Some b, length part + length bs, int (length bs), ?n)"
        unfolding step using False q' c by (simp add: getdata_done_def with_sb_def)
      with False t bytes c fits show ?thesis
        by (intro exI [of _ b] exI [of _ ?n] exI [of _ "int (length bs)"] disjI2 exI [of _ bs]) (simp add: net_reading_def)
    qed
  qed
qed


section \<open>The transport of the packet functions\<close>

text \<open>
  \<open>WebSocket.c\<close> as the transport of \<open>MQTTPacket.c\<close>.  The state is \<open>None\<close> once undefined behaviour was met;
  \<open>put\<close> and \<open>now\<close> are \<open>MQTTPersistence_putPacket\<close> and \<open>MQTTTime_now\<close>.
\<close>

definition web_transport ::
  "'o web_env \<Rightarrow> (int \<Rightarrow> bytes \<Rightarrow> (bytes option \<times> nat) list \<Rightarrow> int \<Rightarrow> int \<Rightarrow> bool \<Rightarrow> int \<Rightarrow> 'o web_state option \<Rightarrow> int \<times> 'o web_state option) \<Rightarrow>
   ('o web_state option \<Rightarrow> START_TIME_TYPE \<times> 'o web_state option) \<Rightarrow> 'o web_state option transport" where
  "web_transport E put now =
     \<lparr>tr_framePos = (\<lambda>s. case Option.bind s WebSocket_framePos of Some p \<Rightarrow> p | None \<Rightarrow> 0),
      tr_framePosSeekTo = (\<lambda>p s. Option.bind s (WebSocket_framePosSeekTo p)),
      tr_getch = (\<lambda>nh s. case Option.bind s (WebSocket_getch E nh) of
         Some (rc, c, nh, w) \<Rightarrow> (rc, c, Some w) | None \<Rightarrow> (SOCKET_ERROR, 0, None)),
      tr_getdata = (\<lambda>nh bytes s. case Option.bind s (WebSocket_getdata E nh bytes 0) of
         Some (rv, actual_len, nh, w) \<Rightarrow> (rv, actual_len, Some w) | None \<Rightarrow> (None, 0, None)),
      tr_putdatas = (\<lambda>nh buf bufs s. case Option.bind s (WebSocket_putdatas E nh buf bufs) of
         Some (rc, bufs, w) \<Rightarrow> (rc, bufs, Some w) | None \<Rightarrow> (SOCKET_ERROR, bufs, None)),
      tr_putPacket = put, tr_now = now, tr_alloc = os_alloc (we_os E), tr_junk = os_junk (we_os E)\<rparr>"

definition web_reading :: "networkHandles \<Rightarrow> nat \<Rightarrow> bytes \<Rightarrow> nat \<Rightarrow> bytes \<Rightarrow> nat \<Rightarrow> 'o web_state \<Rightarrow> bool" where
  "web_reading nh p hdr idx part len w \<longleftrightarrow>
     \<not> net_websocket nh \<and> WebSocket_framePos w = Some p \<and> net_reading (net_socket nh) hdr idx part len (ws_net w)"

abbreviation web_inp :: "('o \<Rightarrow> 'a) \<Rightarrow> 'o web_state \<Rightarrow> 'a" where
  "web_inp f w \<equiv> f (nt_os (ws_net w))"

lemma first_frame_with_net [simp]: "first_frame (with_net w n) = first_frame w"
  by (simp add: first_frame_def with_net_def)

lemma framePos_with_net [simp]: "WebSocket_framePos (with_net w n) = WebSocket_framePos w"
  by (simp add: WebSocket_framePos_def)

text \<open>Seeking to the position a frame has changes nothing.\<close>

lemma framePosSeekTo_same: "WebSocket_framePos w = Some p \<Longrightarrow> WebSocket_framePosSeekTo p w = Some w"
  by (auto simp: WebSocket_framePos_def WebSocket_framePosSeekTo_def first_frame_def set_first_frame_def
      split: option.splits list.splits)

lemma ws_net_with_net [simp]: "ws_net (with_net w n) = n"
  by (simp add: with_net_def)

lemma getch_queued:
  assumes "web_reading nh p hdr idx part len w" "idx < length hdr"
  shows "\<exists>w'. tr_getch (web_transport E put now) nh (Some w) = (TCPSOCKET_COMPLETE, hdr ! idx, Some w') \<and>
    web_reading nh p hdr (Suc idx) part len w' \<and> web_inp inp w' = web_inp inp w \<and> web_inp waits w' = web_inp waits w"
proof -
  obtain n' where "Socket_getch (we_os E) (net_socket nh) (ws_net w) = Some (TCPSOCKET_COMPLETE, hdr ! idx, n')"
      "net_reading (net_socket nh) hdr (Suc idx) part len n'" "nt_os n' = nt_os (ws_net w)"
    using Socket_getch_queued [of "net_socket nh" hdr idx part len "ws_net w" "we_os E"] assms by (auto simp: web_reading_def)
  then show ?thesis using assms
    by (intro exI [of _ "with_net w n'"]) (simp add: web_transport_def WebSocket_getch_def web_reading_def)
qed

lemma getch_stream:
  assumes "tcp_stream (we_os E) (net_socket nh) inp waits" "\<And>x. os_alloc (we_os E) x"
    and r: "web_reading nh p hdr (length hdr) [] len w" and l: "length hdr < 5" and i: "web_inp inp w \<noteq> []"
  obtains (blocks) c w' where "tr_getch (web_transport E put now) nh (Some w) = (TCPSOCKET_INTERRUPTED, c, Some w')"
      "web_reading nh p hdr 0 [] len w'" "web_inp inp w' = web_inp inp w" "web_inp waits w' < web_inp waits w"
  | (char) b w' where "tr_getch (web_transport E put now) nh (Some w) = (TCPSOCKET_COMPLETE, b, Some w')"
      "web_reading nh p (hdr @ [b]) (Suc (length hdr)) [] len w'" "web_inp inp w = b # web_inp inp w'"
      "web_inp waits w' \<le> web_inp waits w"
proof -
  have n: "net_reading (net_socket nh) hdr (length hdr) [] len (ws_net w)" and nw: "\<not> net_websocket nh" "WebSocket_framePos w = Some p"
    using r by (simp_all add: web_reading_def)
  have getch: "tr_getch (web_transport E put now) nh (Some w) = (rc, c, Some (with_net w n'))"
    if "Socket_getch (we_os E) (net_socket nh) (ws_net w) = Some (rc, c, n')" for rc c n'
    using that nw by (simp add: web_transport_def WebSocket_getch_def)
  from Socket_getch_stream [OF assms(1,2) n l i] show thesis
  proof (elim disjE exE conjE)
    fix c n'
    assume a: "Socket_getch (we_os E) (net_socket nh) (ws_net w) = Some (TCPSOCKET_INTERRUPTED, c, n')"
      "net_reading (net_socket nh) hdr 0 [] len n'" "inp (nt_os n') = web_inp inp w" "waits (nt_os n') < web_inp waits w"
    show thesis by (rule blocks [OF getch [OF a(1)]]) (use a nw in \<open>simp_all add: web_reading_def\<close>)
  next
    fix b n'
    assume a: "Socket_getch (we_os E) (net_socket nh) (ws_net w) = Some (TCPSOCKET_COMPLETE, b, n')"
      "net_reading (net_socket nh) (hdr @ [b]) (Suc (length hdr)) [] len n'" "web_inp inp w = b # inp (nt_os n')"
      "waits (nt_os n') \<le> web_inp waits w"
    show thesis by (rule char [OF getch [OF a(1)]]) (use a nw in \<open>simp_all add: web_reading_def\<close>)
  qed
qed

text \<open>
  The fixed header: from any point of reading it on, either the rest of it is delivered, or the
  connection blocks after some of it.
\<close>

lemma header_run:
  assumes stream: "tcp_stream (we_os E) (net_socket nh) inp waits" and alloc: "\<And>x. os_alloc (we_os E) x"
    and "web_reading nh p hdr idx part len w" "length (hdr @ new) \<le> 5" "new \<noteq> [] \<longrightarrow> part = []" "web_inp inp w = new @ rest"
  shows "(\<exists>w'. delivers (tr_getch (web_transport E put now) nh) (Some w) (drop idx (hdr @ new)) (Some w') \<and>
      web_reading nh p (hdr @ new) (length (hdr @ new)) part len w' \<and> web_inp inp w' = rest \<and> web_inp waits w' \<le> web_inp waits w) \<or>
    (\<exists>bs d ds c w1 w' a b. drop idx (hdr @ new) = bs @ d # ds \<and>
      delivers (tr_getch (web_transport E put now) nh) (Some w) bs (Some w1) \<and>
      tr_getch (web_transport E put now) nh (Some w1) = (TCPSOCKET_INTERRUPTED, c, Some w') \<and> new = a @ b \<and> b \<noteq> [] \<and>
      web_reading nh p (hdr @ a) 0 [] len w' \<and> web_inp inp w' = b @ rest \<and> web_inp waits w' < web_inp waits w)"
  using assms(3-)
proof (induction "length (hdr @ new) - idx" arbitrary: hdr idx new w)
  case 0
  have "idx \<le> length hdr" using 0(2) by (simp add: web_reading_def net_reading_def reading_def)
  with 0(1) have "idx = length hdr" "new = []" by (auto simp flip: length_0_conv)
  then show ?case using 0 by (intro disjI1 exI [of _ w]) simp
next
  case (Suc k)
  let ?g = "tr_getch (web_transport E put now) nh"
  show ?case
  proof (cases "idx < length hdr")
    case True
    obtain w1 where g: "?g (Some w) = (TCPSOCKET_COMPLETE, hdr ! idx, Some w1)" and r1: "web_reading nh p hdr (Suc idx) part len w1"
        and o1: "web_inp inp w1 = web_inp inp w" "web_inp waits w1 = web_inp waits w"
      using getch_queued [OF Suc.prems(1) True] by blast
    have d: "drop idx (hdr @ new) = hdr ! idx # drop (Suc idx) (hdr @ new)"
      using True by (simp add: Cons_nth_drop_Suc [symmetric])
    have "k = length (hdr @ new) - Suc idx" using Suc.hyps(2) by simp
    from Suc.hyps(1) [OF this r1 Suc.prems(2,3)] Suc.prems(4) o1
    have "(\<exists>w'. delivers ?g (Some w1) (drop (Suc idx) (hdr @ new)) (Some w') \<and>
        web_reading nh p (hdr @ new) (length (hdr @ new)) part len w' \<and> web_inp inp w' = rest \<and> web_inp waits w' \<le> web_inp waits w1) \<or>
      (\<exists>bs d ds c w2 w' a b. drop (Suc idx) (hdr @ new) = bs @ d # ds \<and> delivers ?g (Some w1) bs (Some w2) \<and>
        ?g (Some w2) = (TCPSOCKET_INTERRUPTED, c, Some w') \<and> new = a @ b \<and> b \<noteq> [] \<and>
        web_reading nh p (hdr @ a) 0 [] len w' \<and> web_inp inp w' = b @ rest \<and> web_inp waits w' < web_inp waits w1)"
      by auto
    then show ?thesis
    proof (elim disjE exE conjE)
      fix w'
      assume "delivers ?g (Some w1) (drop (Suc idx) (hdr @ new)) (Some w')"
        "web_reading nh p (hdr @ new) (length (hdr @ new)) part len w'" "web_inp inp w' = rest" "web_inp waits w' \<le> web_inp waits w1"
      then show ?thesis using g o1 unfolding d by (intro disjI1 exI [of _ w']) simp
    next
      fix bs d' ds c w2 w' a b
      assume "drop (Suc idx) (hdr @ new) = bs @ d' # ds" "delivers ?g (Some w1) bs (Some w2)"
        "?g (Some w2) = (TCPSOCKET_INTERRUPTED, c, Some w')" "new = a @ b" "b \<noteq> []"
        "web_reading nh p (hdr @ a) 0 [] len w'" "web_inp inp w' = b @ rest" "web_inp waits w' < web_inp waits w1"
      then show ?thesis using g o1 unfolding d
        by (intro disjI2 exI [of _ "hdr ! idx # bs"] exI [of _ d'] exI [of _ ds] exI [of _ c] exI [of _ w2] exI [of _ w']
            exI [of _ a] exI [of _ b]) simp
    qed
  next
    case False
    then have idx: "idx = length hdr" using Suc.prems(1) by (simp add: web_reading_def net_reading_def reading_def)
    with Suc.hyps(2) obtain x xs where new: "new = x # xs" by (cases new) auto
    have part: "part = []" using Suc.prems(3) new by simp
    have l: "length hdr < 5" using Suc.prems(2) new by simp
    have i: "web_inp inp w \<noteq> []" using Suc.prems(4) new by simp
    have r: "web_reading nh p hdr (length hdr) [] len w" using Suc.prems(1) idx part by simp
    show ?thesis
    proof (cases rule: getch_stream [OF stream alloc r l i, of put now, case_names blocks char])
      case (blocks c w')
      then show ?thesis using idx new Suc.prems(4)
        by (intro disjI2 exI [of _ "[]"] exI [of _ x] exI [of _ xs] exI [of _ c] exI [of _ w] exI [of _ w']
            exI [of _ "[]"] exI [of _ new]) simp
    next
      case (char b0 w1)
      then have b0: "b0 = x" "web_inp inp w1 = xs @ rest" using Suc.prems(4) new by simp_all
      have r1: "web_reading nh p (hdr @ [x]) (Suc (length hdr)) part len w1" using char(2) b0 part by simp
      have k1: "k = length ((hdr @ [x]) @ xs) - Suc (length hdr)" using Suc.hyps(2) new idx by simp
      have l1: "length ((hdr @ [x]) @ xs) \<le> 5" using Suc.prems(2) new by simp
      have d: "drop idx (hdr @ new) = x # drop (Suc (length hdr)) ((hdr @ [x]) @ xs)" using idx new by simp
      have p1: "xs \<noteq> [] \<longrightarrow> part = []" using part by simp
      from Suc.hyps(1) [OF k1 r1 l1 p1 b0(2)]
      show ?thesis
      proof (elim disjE exE conjE)
        fix w'
        assume "delivers ?g (Some w1) (drop (Suc (length hdr)) ((hdr @ [x]) @ xs)) (Some w')"
          "web_reading nh p ((hdr @ [x]) @ xs) (length ((hdr @ [x]) @ xs)) part len w'" "web_inp inp w' = rest"
          "web_inp waits w' \<le> web_inp waits w1"
        then show ?thesis using char b0 new unfolding d by (intro disjI1 exI [of _ w']) simp
      next
        fix bs d' ds c w2 w' a b
        assume "drop (Suc (length hdr)) ((hdr @ [x]) @ xs) = bs @ d' # ds" "delivers ?g (Some w1) bs (Some w2)"
          "?g (Some w2) = (TCPSOCKET_INTERRUPTED, c, Some w')" "xs = a @ b" "b \<noteq> []"
          "web_reading nh p ((hdr @ [x]) @ a) 0 [] len w'" "web_inp inp w' = b @ rest" "web_inp waits w' < web_inp waits w1"
        then show ?thesis using char b0 new unfolding d
          by (intro disjI2 exI [of _ "x # bs"] exI [of _ d'] exI [of _ ds] exI [of _ c] exI [of _ w2] exI [of _ w']
              exI [of _ "x # a"] exI [of _ b]) simp
      qed
    qed
  qed
qed


section \<open>Packets in pieces\<close>

lemma decode_blocks:
  assumes "vbi_enc n = bs @ d # ds" "delivers getch s bs s1" "getch s1 = (rc, c, s2)" "rc \<noteq> 0" "len + length (vbi_enc n) \<le> 4"
  shows "\<exists>v. net_decode_loop getch s len val m = (rc, v, s2)"
  using assms
proof (induction n arbitrary: bs s len val m rule: vbi_enc.induct)
  case (1 n)
  show ?case
  proof (cases bs)
    case Nil
    have "len + 1 \<le> 4" using 1(2,6) by simp
    then show ?thesis using Nil 1(3-5) by (subst net_decode_loop.simps) simp
  next
    case (Cons b bs')
    have big: "\<not> n < 128" using 1(2) Cons by (subst (asm) vbi_enc.simps) (auto split: if_splits)
    let ?b = "of_nat (n mod 128 + 128) :: byte"
    have e: "vbi_enc n = ?b # vbi_enc (n div 128)" using big by (subst vbi_enc.simps) simp
    have b: "b = ?b" and t: "vbi_enc (n div 128) = bs' @ d # ds" using 1(2) unfolding e Cons by simp_all
    obtain s3 where g: "getch s = (0, ?b, s3)" and dl: "delivers getch s3 bs' s1"
      using 1(3) unfolding Cons b by (auto split: prod.splits)
    have l: "len + 1 + length (vbi_enc (n div 128)) \<le> 4" using 1(6) unfolding e by simp
    have "net_decode_loop getch s len val m = net_decode_loop getch s3 (len + 1) (val + n mod 128 * m) (m * 128)"
      using l continuation_byte(2,3) [of "n mod 128"] g
      by (subst net_decode_loop.simps) (simp add: Let_def del: of_nat_add)
    then show ?thesis using 1(1) [OF big t dl 1(4,5) l, of "val + n mod 128 * m" "m * 128"] by simp
  qed
qed

definition fixed_part :: "byte \<Rightarrow> bytes \<Rightarrow> bytes" where
  "fixed_part header body = header # vbi_enc (length body)"

text \<open>\<open>k\<close> bytes of the packet have been read and stored, and the rest is still to come, followed by \<open>later\<close>.\<close>

definition arrived ::
  "networkHandles \<Rightarrow> nat \<Rightarrow> ('o \<Rightarrow> bytes) \<Rightarrow> byte \<Rightarrow> bytes \<Rightarrow> bytes \<Rightarrow> nat \<Rightarrow> 'o web_state \<Rightarrow> bool" where
  "arrived nh p inp header body later k w \<longleftrightarrow>
     k < length (fixed_part header body @ body) \<and>
     web_reading nh p (take k (fixed_part header body)) 0 (take (k - length (fixed_part header body)) body) (length body) w \<and>
     web_inp inp w = drop k (fixed_part header body @ body) @ later"

lemma stream_piece:
  assumes "bs @ x = drop j body @ y" "j + length bs \<le> length body"
  shows "bs = take (length bs) (drop j body)" "x = drop (j + length bs) body @ y"
proof -
  have "bs = take (length bs) (drop j body @ y)" using arg_cong [OF assms(1), of "take (length bs)"] by simp
  then show "bs = take (length bs) (drop j body)" using assms(2) by simp
  have "x = drop (length bs) (drop j body @ y)" using arg_cong [OF assms(1), of "drop (length bs)"] by simp
  then show "x = drop (j + length bs) body @ y" using assms(2) by (simp add: add.commute)
qed

text \<open>Once the fixed header has been delivered the data decide.\<close>

lemma Factory_data:
  assumes stream: "tcp_stream (we_os E) (net_socket nh) inp waits" and alloc: "\<And>x. os_alloc (we_os E) x"
    and body: "length body < 2 ^ 28"
    and dl: "delivers (tr_getch (web_transport E put now) nh) (Some w) (fixed_part header body) (Some w1)"
    and r: "web_reading nh p (fixed_part header body) (length (fixed_part header body)) part (length body) w1"
    and i: "web_inp inp w1 = drop (length part) body @ later" and wt: "web_inp waits w1 \<le> n0"
    and missing: "length body - length part \<le> m0" and pt: "part = take (length part) body"
    and pl0: "body \<noteq> [] \<Longrightarrow> length part < length body" and pos: "tr_framePos (web_transport E put now) (Some w) = p"
  shows "(\<exists>w' k'. MQTTPacket_Factory (web_transport E put now) v nh (Some w) = Some (None, TCPSOCKET_INTERRUPTED, nh, Some w') \<and>
      arrived nh p inp header body later k' w' \<and>
      web_inp waits w' + (length (fixed_part header body @ body) - k') < n0 + m0) \<or>
    (\<exists>w' post. incoming (web_transport E put now) nh (Some w) header body post (Some w') \<and>
      web_reading nh p [] 0 [] 0 w' \<and> web_inp inp w' = later)"
proof -
  let ?T = "web_transport E put now"
  let ?H = "fixed_part header body"
  let ?g = "tr_getch ?T nh"
  have seek: "tr_framePosSeekTo ?T p (Some w') = Some w'" if "web_reading nh p h i x l w'" for h i x l w'
    using that framePosSeekTo_same [of w' p] by (simp add: web_reading_def web_transport_def)
  obtain s1 where g1: "?g (Some w) = (0, header, s1)" and d1: "delivers ?g s1 (vbi_enc (length body)) (Some w1)"
    using dl by (auto simp: fixed_part_def split: prod.splits)
  note dec = decode_delivers [OF body d1]
  have nr: "net_reading (net_socket nh) ?H (length ?H) part (length body) (ws_net w1)"
    and nw: "\<not> net_websocket nh" "WebSocket_framePos w1 = Some p"
    using r by (simp_all add: web_reading_def)
  have getdata: "tr_getdata ?T nh l (Some w1) = (rv, al, Some (with_net w1 n'))"
    if "Socket_getdata (we_os E) (net_socket nh) l 0 0 (ws_net w1) = Some (rv, al, rc, n')" for l rv al rc n'
    using that nw by (simp add: web_transport_def WebSocket_getdata_def)
  show ?thesis
  proof (cases "body = []")
    case True
    obtain b n' where gd: "Socket_getdata (we_os E) (net_socket nh) 0 0 0 (ws_net w1) = Some (Some b, 0, 0, n')"
        "net_reading (net_socket nh) [] 0 [] 0 n'" "nt_os n' = nt_os (ws_net w1)"
      using Socket_getdata_none [OF nr] by blast
    have "incoming ?T nh (Some w) header body b (Some (with_net w1 n'))"
      using g1 d1 getdata [OF gd(1)] True body by (auto simp: incoming_def)
    moreover have "web_reading nh p [] 0 [] 0 (with_net w1 n')" using gd(2) nw by (simp add: web_reading_def)
    ultimately show ?thesis using gd(3) i True
      by (intro disjI2 exI [of _ "with_net w1 n'"] exI [of _ b]) simp
  next
    case False
    have pl: "length part < length body" using pl0 [OF False] .
    have l31: "length body < 2 ^ 31" using body by simp
    have ne: "web_inp inp w1 \<noteq> []" using i pl by simp
    from Socket_getdata_stream [OF stream alloc nr pl l31 ne, of 0 0] show ?thesis
    proof (elim exE disjE conjE)
      fix b n' rc
      assume gd: "Socket_getdata (we_os E) (net_socket nh) (length body) 0 0 (ws_net w1) = Some (Some b, length part, rc, n')"
        and nr': "net_reading (net_socket nh) ?H 0 part (length body) n'" and i': "inp (nt_os n') = web_inp inp w1"
        and wt': "waits (nt_os n') < web_inp waits w1"
      let ?k' = "length ?H + length part"
      have r': "web_reading nh p ?H 0 part (length body) (with_net w1 n')" using nr' nw by (simp add: web_reading_def)
      have ar: "arrived nh p inp header body later ?k' (with_net w1 n')"
        using r' i i' pl pt by (simp add: arrived_def)
      have "MQTTPacket_Factory ?T v nh (Some w) = Some (None, TCPSOCKET_INTERRUPTED, nh, Some (with_net w1 n'))"
        using g1 dec getdata [OF gd] pl pos seek [OF r'] by (simp add: MQTTPacket_Factory_def Let_def)
      then show ?thesis using ar wt wt' missing by (intro disjI1 exI [of _ "with_net w1 n'"] exI [of _ ?k']) simp
    next
      fix b n' rc bs
      assume bs: "bs \<noteq> []" "length part + length bs \<le> length body"
        and gd: "Socket_getdata (we_os E) (net_socket nh) (length body) 0 0 (ws_net w1) = Some (Some b, length part + length bs, rc, n')"
        and t: "take (length part + length bs) b = part @ bs" and i': "web_inp inp w1 = bs @ inp (nt_os n')"
        and wt': "waits (nt_os n') \<le> web_inp waits w1"
        and nr': "if length part + length bs = length body then net_reading (net_socket nh) [] 0 [] (length body) n'
          else net_reading (net_socket nh) ?H 0 (part @ bs) (length body) n'"
      have bd: "bs @ inp (nt_os n') = drop (length part) body @ later" using i i' by simp
      note piece = stream_piece [OF bd bs(2)]
      have pb: "part @ bs = take (length part + length bs) body"
        using piece(1) pt take_add [of "length part" "length bs" body] by simp
      note later = piece(2)
      show ?thesis
      proof (cases "length part + length bs = length body")
        case True
        then have pb': "part @ bs = body" using pb by simp
        have b: "b = body @ drop (length body) b" using t True pb' by (metis append_take_drop_id)
        have inc: "incoming ?T nh (Some w) header body (drop (length body) b) (Some (with_net w1 n'))"
          using g1 d1 getdata [OF gd] True body b by (auto simp: incoming_def)
        have "web_reading nh p [] 0 [] 0 (with_net w1 n')" using nr' True nw
          by (auto simp: web_reading_def net_reading_def reading_def split: option.splits)
        then show ?thesis using inc later True
          by (intro disjI2 exI [of _ "with_net w1 n'"] exI [of _ "drop (length body) b"]) simp
      next
        case F: False
        let ?k' = "length ?H + (length part + length bs)"
        have r': "web_reading nh p ?H 0 (part @ bs) (length body) (with_net w1 n')" using nr' F nw by (simp add: web_reading_def)
        have ar: "arrived nh p inp header body later ?k' (with_net w1 n')"
          using r' later F bs(2) pb by (simp add: arrived_def)
        have "MQTTPacket_Factory ?T v nh (Some w) = Some (None, TCPSOCKET_INTERRUPTED, nh, Some (with_net w1 n'))"
          using g1 dec getdata [OF gd] F bs(2) pos seek [OF r'] by (simp add: MQTTPacket_Factory_def Let_def)
        moreover have "0 < length bs" using bs(1) by simp
        then have "waits (nt_os n') + (length body - (length part + length bs)) < n0 + m0"
          using wt wt' missing pl F bs(2) by linarith
        ultimately show ?thesis using ar bs(2)
          by (intro disjI1 exI [of _ "with_net w1 n'"] exI [of _ ?k']) simp
      qed
    qed
  qed
qed

lemma Factory_piece:
  assumes stream: "tcp_stream (we_os E) (net_socket nh) inp waits" and alloc: "\<And>x. os_alloc (we_os E) x"
    and body: "length body < 2 ^ 28" and a: "arrived nh p inp header body later k w"
  shows "(\<exists>w' k'. MQTTPacket_Factory (web_transport E put now) v nh (Some w) = Some (None, TCPSOCKET_INTERRUPTED, nh, Some w') \<and>
      arrived nh p inp header body later k' w' \<and>
      web_inp waits w' + (length (fixed_part header body @ body) - k') < web_inp waits w + (length (fixed_part header body @ body) - k)) \<or>
    (\<exists>w' post. incoming (web_transport E put now) nh (Some w) header body post (Some w') \<and>
      web_reading nh p [] 0 [] 0 w' \<and> web_inp inp w' = later)"
proof -
  let ?T = "web_transport E put now"
  let ?H = "fixed_part header body"
  let ?g = "tr_getch ?T nh"
  have vl: "length (vbi_enc (length body)) \<le> 4" using body vbi_length_bound [of "length body" 3] by simp
  have pos: "tr_framePos ?T (Some w) = p" using a by (simp add: arrived_def web_reading_def web_transport_def)
  have seek: "tr_framePosSeekTo ?T p (Some w') = Some w'" if "web_reading nh p h i x l w'" for h i x l w'
    using that framePosSeekTo_same [of w' p] by (simp add: web_reading_def web_transport_def)
  let ?hdr = "take k ?H" and ?new = "drop k ?H" and ?part = "take (k - length ?H) body"
  have H: "?hdr @ ?new = ?H" by simp
  have l5: "length (?hdr @ ?new) \<le> 5" unfolding H using vl by (simp add: fixed_part_def)
  have np: "?new \<noteq> [] \<longrightarrow> ?part = []" by simp
  have r0: "web_reading nh p ?hdr 0 ?part (length body) w" using a by (simp add: arrived_def)
  have i0: "web_inp inp w = ?new @ (drop (k - length ?H) body @ later)" using a by (simp add: arrived_def)
  from header_run [OF stream alloc r0 l5 np i0, of put now] show ?thesis
    unfolding H drop_0
  proof (elim disjE exE conjE)
    fix bs d ds c w1 w' a' b
    assume h: "?H = bs @ d # ds" and dl: "delivers ?g (Some w) bs (Some w1)"
      and g: "?g (Some w1) = (TCPSOCKET_INTERRUPTED, c, Some w')" and ab: "?new = a' @ b" "b \<noteq> []"
      and r: "web_reading nh p (?hdr @ a') 0 [] (length body) w'" and i: "web_inp inp w' = b @ drop (k - length ?H) body @ later"
      and wt: "web_inp waits w' < web_inp waits w"
    have kH: "k < length ?H" using ab by (cases "k < length ?H") auto
    let ?k' = "k + length a'"
    have Hk: "take k ?H @ a' @ b = ?H" using ab(1) by (metis H)
    have lk: "length (take k ?H) = k" using kH by simp
    have tk: "take ?k' ?H = take k ?H @ a'"
      using arg_cong [OF Hk, of "take ?k'"] lk by (simp add: take_add)
    have dk: "drop ?k' ?H = b" using ab(1) by (metis add.commute append_eq_conv_conj drop_drop)
    have k': "?k' < length ?H" using dk ab(2) by (metis drop_eq_Nil not_le)
    have ar: "arrived nh p inp header body later ?k' w'"
      using r i k' tk dk kH by (simp add: arrived_def)
    have F: "MQTTPacket_Factory ?T v nh (Some w) = Some (None, TCPSOCKET_INTERRUPTED, nh, Some w')"
    proof (cases bs)
      case Nil
      then have "?g (Some w) = (TCPSOCKET_INTERRUPTED, c, Some w')" using dl g by simp
      then show ?thesis using pos seek [OF r] by (simp add: MQTTPacket_Factory_def Let_def)
    next
      case (Cons x bs')
      then have x: "x = header" "vbi_enc (length body) = bs' @ d # ds" using h by (simp_all add: fixed_part_def)
      obtain s1 where g1: "?g (Some w) = (0, header, s1)" and d1: "delivers ?g s1 bs' (Some w1)"
        using dl unfolding Cons x by (auto split: prod.splits)
      obtain l where "MQTTPacket_decode ?g s1 = (TCPSOCKET_INTERRUPTED, l, Some w')"
        using decode_blocks [OF x(2) d1 g, of 0 0 1] vl by (auto simp: MQTTPacket_decode_def)
      with g1 show ?thesis using pos seek [OF r] by (simp add: MQTTPacket_Factory_def Let_def)
    qed
    show ?thesis using F ar wt by (intro disjI1 exI [of _ w'] exI [of _ ?k']) simp
  next
    fix w1
    assume dl: "delivers ?g (Some w) ?H (Some w1)" and r: "web_reading nh p ?H (length ?H) ?part (length body) w1"
      and i: "web_inp inp w1 = drop (k - length ?H) body @ later" and wt: "web_inp waits w1 \<le> web_inp waits w"
    have kb: "k < length ?H + length body" using a by (simp add: arrived_def)
    then have kl: "k - length ?H \<le> length body" by arith
    then have kt: "length ?part = k - length ?H" by simp
    have "length ?part \<le> length body" by simp
    moreover have "?part = take (length ?part) body" using kl by simp
    moreover have "web_inp inp w1 = drop (length ?part) body @ later" using i kt by simp
    moreover have "body \<noteq> [] \<Longrightarrow> length ?part < length body" using kb unfolding kt by (cases body) auto
    moreover have "length body - length ?part \<le> length (?H @ body) - k" using kb unfolding kt by simp
    ultimately show ?thesis
      using Factory_data [OF stream alloc body dl r, of later "web_inp waits w" "length (?H @ body) - k"] wt pos by blast
  qed
qed


text \<open>The first \<open>m\<close> calls of the factory return without a packet because the connection is interrupted.\<close>

inductive interrupted_reads :: "'s transport \<Rightarrow> int \<Rightarrow> networkHandles \<Rightarrow> nat \<Rightarrow> 's \<Rightarrow> 's \<Rightarrow> bool"
  for T v nh where
  none: "interrupted_reads T v nh 0 s s"
| more_calls: "MQTTPacket_Factory T v nh s = Some (None, TCPSOCKET_INTERRUPTED, nh, s1) \<Longrightarrow>
    interrupted_reads T v nh m s1 s' \<Longrightarrow> interrupted_reads T v nh (Suc m) s s'"

lemma packet_in_pieces:
  assumes stream: "tcp_stream (we_os E) (net_socket nh) inp waits" and alloc: "\<And>x. os_alloc (we_os E) x"
    and body: "length body < 2 ^ 28" and a: "arrived nh p inp header body later k w"
  shows "\<exists>m w1 w' post. m \<le> web_inp waits w + (length (fixed_part header body @ body) - k) \<and>
    interrupted_reads (web_transport E put now) v nh m (Some w) (Some w1) \<and>
    incoming (web_transport E put now) nh (Some w1) header body post (Some w') \<and>
    web_reading nh p [] 0 [] 0 w' \<and> web_inp inp w' = later"
  using a
proof (induction "web_inp waits w + (length (fixed_part header body @ body) - k)" arbitrary: w k rule: less_induct)
  case less
  from Factory_piece [OF stream alloc body less.prems, of put now v] show ?case
  proof (elim disjE exE conjE)
    fix w1 k1
    assume f: "MQTTPacket_Factory (web_transport E put now) v nh (Some w) = Some (None, TCPSOCKET_INTERRUPTED, nh, Some w1)"
      and a1: "arrived nh p inp header body later k1 w1"
      and lt: "web_inp waits w1 + (length (fixed_part header body @ body) - k1) < web_inp waits w + (length (fixed_part header body @ body) - k)"
    from less.hyps [OF lt a1] obtain m w2 w' post where
      m: "m \<le> web_inp waits w1 + (length (fixed_part header body @ body) - k1)"
      and i: "interrupted_reads (web_transport E put now) v nh m (Some w1) (Some w2)"
      "incoming (web_transport E put now) nh (Some w2) header body post (Some w')" "web_reading nh p [] 0 [] 0 w'" "web_inp inp w' = later"
      by blast
    have "Suc m \<le> web_inp waits w + (length (fixed_part header body @ body) - k)" using m lt by simp
    moreover have "interrupted_reads (web_transport E put now) v nh (Suc m) (Some w) (Some w2)"
      using f i(1) by (rule more_calls)
    ultimately show ?thesis using i by blast
  next
    fix w' post
    assume "incoming (web_transport E put now) nh (Some w) header body post (Some w')" "web_reading nh p [] 0 [] 0 w'" "web_inp inp w' = later"
    then show ?thesis by (intro exI [of _ 0]) (auto intro: interrupted_reads.none)
  qed
qed


text \<open>What \<open>MQTTPacket_Factory\<close> does with the result of the parser, from the frame position \<open>p\<close>.\<close>

definition factory_result_of ::
  "'s transport \<Rightarrow> networkHandles \<Rightarrow> nat \<Rightarrow> MQTTPacket option \<times> int \<times> bool \<times> 's \<Rightarrow>
   (MQTTPacket option \<times> int \<times> networkHandles \<times> 's) ub" where
  "factory_result_of T nh p r =
     (case r of (pack, error, exit, s) \<Rightarrow>
        let (nh, s) = (if pack \<noteq> None \<and> \<not> exit then stamp_received T nh s else (nh, s))
        in Some (pack, error, nh, if error = TCPSOCKET_INTERRUPTED then tr_framePosSeekTo T p s else s))"

lemma Factory_incoming_result:
  assumes "incoming T nh s header body post s'"
  shows "MQTTPacket_Factory T v nh s =
    Option.bind (build_packet T v nh header (Some (body @ post)) (length body) s') (factory_result_of T nh (tr_framePos T s))"
  unfolding Factory_incoming [OF assms]
  by (rule arg_cong [where f = "Option.bind _"]) (auto simp: fun_eq_iff factory_result_of_def split: prod.split)

section \<open>Property\<close>

text \<open>
  C7.  A packet that arrives over a plain connection in any pieces, with any number of reads that would
  block in between, is returned by \<open>MQTTPacket_Factory\<close> as if it had arrived at once: the calls before
  the last return no packet and \<open>TCPSOCKET_INTERRUPTED\<close>, there are at most as many of them as there are
  blocked reads and bytes, no access is out of bounds, and afterwards the socket is ready for the next
  packet, which starts with the next byte of the stream.
\<close>

theorem fragmented_packet:
  assumes "tcp_stream (we_os E) (net_socket nh) inp waits" "\<forall>x. os_alloc (we_os E) x" "length body < 2 ^ 28"
    "web_reading nh p [] 0 [] 0 w" "web_inp inp w = header # vbi_enc (length body) @ body @ later"
  shows "\<exists>m w1 w' post. m \<le> web_inp waits w + length (header # vbi_enc (length body) @ body) \<and>
    interrupted_reads (web_transport E put now) v nh m (Some w) (Some w1) \<and>
    MQTTPacket_Factory (web_transport E put now) v nh (Some w1) =
      Option.bind (build_packet (web_transport E put now) v nh header (Some (body @ post)) (length body) (Some w'))
        (factory_result_of (web_transport E put now) nh (tr_framePos (web_transport E put now) (Some w1))) \<and>
    web_reading nh p [] 0 [] 0 w' \<and> web_inp inp w' = later"
proof -
  have "web_reading nh p [] 0 [] (length body) w"
    using assms(4) by (auto simp: web_reading_def net_reading_def reading_def split: option.splits)
  then have "arrived nh p inp header body later 0 w"
    using assms(5) by (simp add: arrived_def fixed_part_def)
  from packet_in_pieces [OF assms(1) assms(2) [rule_format] assms(3) this, of put now v]
  obtain m w1 w' post where i: "m \<le> web_inp waits w + (length (fixed_part header body @ body) - 0)"
      "interrupted_reads (web_transport E put now) v nh m (Some w) (Some w1)"
      "incoming (web_transport E put now) nh (Some w1) header body post (Some w')"
      "web_reading nh p [] 0 [] 0 w'" "web_inp inp w' = later"
    by blast
  show ?thesis
    by (intro exI [of _ m] exI [of _ w1] exI [of _ w'] exI [of _ post] conjI Factory_incoming_result i)
      (use i(1) in \<open>simp add: fixed_part_def\<close>)
qed

text \<open>A system that follows a plan: 0 is a read that would block, another number the most bytes a read
  returns.  A PUBACK arrives byte by byte.\<close>

definition plan_recv :: "int \<Rightarrow> int \<Rightarrow> nat list \<times> bytes \<Rightarrow> bytes option \<times> (nat list \<times> bytes)" where
  "plan_recv socket k s =
     (case s of
        (0 # plan, data) \<Rightarrow> (None, (plan, data))
      | (m # plan, data) \<Rightarrow> (Some (take (min m (nat k)) data), (plan, drop (min m (nat k)) data))
      | ([], data) \<Rightarrow> (Some (take 1 data), ([], drop 1 data)))"

definition plan_os :: "(nat list \<times> bytes) os_env" where
  "plan_os = \<lparr>os_alloc = always_alloc, os_junk = 0xAA, os_error = (\<lambda>s. WSAEWOULDBLOCK), os_recv = plan_recv,
     os_WSASend = (\<lambda>socket bs s. (0, length (concat bs), s)), os_select = (\<lambda>m r w t s. (0, {}, {}, s)),
     os_ioctl = (\<lambda>socket s. (0, s)), os_socket = (\<lambda>f s. (1, s)), os_connect = (\<lambda>socket f a p s. (0, s)),
     os_getaddrinfo = (\<lambda>a s. (0, [], s)), os_shutdown = (\<lambda>socket s. (0, s)), os_closesocket = (\<lambda>socket s. (0, s)),
     os_writecomplete = None\<rparr>"

definition plan_env :: "(nat list \<times> bytes) web_env" where
  "plan_env = \<lparr>we_os = plan_os, we_rand = (\<lambda>s. (1, s)), we_uuid = (\<lambda>s. (replicate 16 0, s)), we_time = (\<lambda>s. (0, s)),
     we_sleep = (\<lambda>s. s), we_rcs = 0\<rparr>"

definition plan_waits :: "nat list \<times> bytes \<Rightarrow> nat" where
  "plan_waits s = length (filter (\<lambda>m. m = 0) (fst s))"

lemma plan_stream: "tcp_stream plan_os socket snd plan_waits"
  unfolding tcp_stream_def
  by (auto simp: plan_os_def plan_recv_def plan_waits_def Suc_le_eq split: list.split nat.split)

definition idle_web :: "'o \<Rightarrow> 'o web_state" where
  "idle_web s =
     \<lparr>ws_net = \<lparr>nt_sb = snd (snd (SocketBuffer_initialize always_alloc 0 \<lparr>def_queue = None, queues = cl_zero, writes = cl_zero\<rparr>)),
        nt_socks = \<lparr>rset = {}, rset_saved = {}, maxfdp1 = 0, clientsds = cl_zero, cur_clientsds = None,
          connect_pending = cl_zero, write_pending = cl_zero, pending_wset = {}, wset = {}\<rparr>, nt_os = s\<rparr>,
      in_frames = None, last_frame = None, frame_buffer = None, frame_buffer_len = 0, frame_buffer_index = 0,
      frame_buffer_data_len = 0\<rparr>"

lemma idle_web_reading: "\<not> net_websocket nh \<Longrightarrow> net_socket nh \<noteq> 0 \<Longrightarrow> web_reading nh 0 [] 0 [] 0 (idle_web s)"
  by (simp add: web_reading_def idle_web_def WebSocket_framePos_def first_frame_def net_reading_def reading_def
      SocketBuffer_initialize_def SocketBuffer_newDefQ_def new_queue_def one_queue_def queue_ok_def cl_zero_def cl_wf_def)

theorem fragmented_packet_witness:
  "\<exists>m w1 w' post. m \<le> 2 + length (0x40 # vbi_enc (length [0, 5 :: byte]) @ [0, 5]) \<and>
    interrupted_reads (web_transport plan_env (\<lambda>h b l t m r v s. (0, s)) (\<lambda>s. (0, s))) 4 ((net blank_client)\<lparr>net_socket := 7\<rparr>) m
      (Some (idle_web ([1, 0, 1, 0], 0x40 # vbi_enc (length [0, 5 :: byte]) @ [0, 5] @ [0xD0]))) (Some w1) \<and>
    MQTTPacket_Factory (web_transport plan_env (\<lambda>h b l t m r v s. (0, s)) (\<lambda>s. (0, s))) 4 ((net blank_client)\<lparr>net_socket := 7\<rparr>) (Some w1) =
      Option.bind (build_packet (web_transport plan_env (\<lambda>h b l t m r v s. (0, s)) (\<lambda>s. (0, s))) 4 ((net blank_client)\<lparr>net_socket := 7\<rparr>)
          0x40 (Some ([0, 5] @ post)) (length [0, 5 :: byte]) (Some w'))
        (factory_result_of (web_transport plan_env (\<lambda>h b l t m r v s. (0, s)) (\<lambda>s. (0, s))) ((net blank_client)\<lparr>net_socket := 7\<rparr>)
          (tr_framePos (web_transport plan_env (\<lambda>h b l t m r v s. (0, s)) (\<lambda>s. (0, s))) (Some w1))) \<and>
    web_reading ((net blank_client)\<lparr>net_socket := 7\<rparr>) 0 [] 0 [] 0 w' \<and> web_inp snd w' = [0xD0]"
proof -
  have w: "web_inp plan_waits (idle_web ([1, 0, 1, 0], 0x40 # vbi_enc (length [0, 5 :: byte]) @ [0, 5] @ [0xD0])) = 2"
    by (simp add: idle_web_def plan_waits_def)
  show ?thesis
    unfolding w [symmetric]
    by (rule fragmented_packet [where inp = snd])
      (simp_all add: plan_env_def plan_stream idle_web_reading blank_client_def, simp_all add: plan_os_def idle_web_def)
qed

end
