(* ===== verification/Connecting.thy ===== *)
theory Connecting
  imports PacketStream PacketsOut
begin

text \<open>
  \<open>MQTTProtocol_connect\<close>: the address to connect to, the socket, and the handshakes in front of the
  CONNECT packet.  \<open>getenv\<close> is the value of the variable \<open>http_proxy\<close>.  \<open>tunnel\<close> is the outcome of
  \<open>WebSocket_socks5_proxy_connect\<close>, whose runs with the reading thread are the steps of \<open>Socks5\<close>.
\<close>

definition with_nh :: "Clients \<Rightarrow> (networkHandles \<Rightarrow> networkHandles) \<Rightarrow> Clients" where
  "with_nh c f = c\<lparr>net := f (net c)\<rparr>"

text \<open>The proxy of the client or of the environment.\<close>

definition choose_proxy :: "'o os_env \<Rightarrow> bytes option \<Rightarrow> Clients \<Rightarrow> (int \<times> Clients) ub" where
  "choose_proxy E getenv c =
     (case (case httpProxy c of Some p \<Rightarrow> Some p | None \<Rightarrow> getenv) of
        None \<Rightarrow> Some (0, c)
      | Some p0 \<Rightarrow>
          do {
            (rc, dest, auth) \<leftarrow> MQTTProtocol_setHTTPProxy (os_alloc E) (os_junk E) (Some p0) (net_http_proxy (net c))
               (bytes_of ''http://'');
            Some (rc, with_nh c (\<lambda>nh. nh\<lparr>net_http_proxy := dest, net_http_proxy_auth := auth\<rparr>))
          })"

text \<open>What the socket is connected to: the HTTP proxy, the SOCKS5 proxy or the server.\<close>

definition connect_target :: "bytes \<Rightarrow> bool \<Rightarrow> networkHandles \<Rightarrow> bytes \<times> int" where
  "connect_target ip_address websocket nh =
     (case (net_http_proxy nh, net_socks5_host nh) of
        (Some p, h) \<Rightarrow> if websocket then (p, WS_DEFAULT_PORT)
          else (case h of Some h \<Rightarrow> (h, int (net_socks5_port nh)) | None \<Rightarrow> (ip_address, MQTT_DEFAULT_PORT))
      | (None, Some h) \<Rightarrow> (h, int (net_socks5_port nh))
      | (None, None) \<Rightarrow> (ip_address, MQTT_DEFAULT_PORT))"

definition open_socket ::
  "'o web_env \<Rightarrow> bytes \<Rightarrow> bool \<Rightarrow> Clients \<Rightarrow> 'o web_state \<Rightarrow> (int \<times> Clients \<times> 'o web_state) ub" where
  "open_socket E ip_address websocket c w =
     (case connect_target ip_address websocket (net c) of (addr, default_port) \<Rightarrow>
        do {
          (addr_len, port, topic) \<leftarrow> MQTTProtocol_addressPort addr default_port;
          (rc, sock, n) \<leftarrow> Socket_new (we_os E) addr addr_len port (ws_net w);
          Some (rc, with_nh c (\<lambda>nh. nh\<lparr>net_socket := sock\<rparr>), with_net w n)
        })"

text \<open>The handshakes once the socket is connected.\<close>

definition proxy_handshake ::
  "'o web_env \<Rightarrow> bytes \<Rightarrow> bool \<Rightarrow> Clients \<Rightarrow> 'o web_state \<Rightarrow> (int \<times> Clients \<times> 'o web_state) option" where
  "proxy_handshake E ip_address websocket c w =
     (if websocket \<and> net_http_proxy (net c) \<noteq> None then
        do {
          (rc, w) \<leftarrow> WebSocket_proxy_connect E (net c) ip_address w;
          Some (rc, c\<lparr>connect_state := PROXY_CONNECT_IN_PROGRESS\<rparr>, w)
        }
      else Some (0, c, w))"

definition websocket_handshake ::
  "'o web_env \<Rightarrow> bytes \<Rightarrow> bool \<Rightarrow> int \<times> Clients \<times> 'o web_state \<Rightarrow> (int \<times> Clients \<times> 'o web_state) option" where
  "websocket_handshake E ip_address websocket r =
     (case r of (rc, c, w) \<Rightarrow>
        if websocket then
          do {
            (rc, nh, w) \<leftarrow> WebSocket_connect E (net c) ip_address w;
            let c = with_nh c (\<lambda>_. nh);
            Some (rc, if rc = TCPSOCKET_INTERRUPTED then c\<lparr>connect_state := WEBSOCKET_IN_PROGRESS\<rparr> else c, w)
          }
        else Some (rc, c, w))"

definition socks5_handshake ::
  "(Clients \<Rightarrow> 'o web_state \<Rightarrow> int \<times> Clients \<times> 'o web_state) \<Rightarrow> int \<times> Clients \<times> 'o web_state \<Rightarrow>
   int \<times> Clients \<times> 'o web_state" where
  "socks5_handshake tunnel r =
     (case r of (rc, c, w) \<Rightarrow>
        if net_socks5_host (net c) \<noteq> None
        then tunnel (c\<lparr>connect_state := SOCKS5_PROXY_CONNECT_IN_PROGRESS\<rparr>) w
        else (rc, c, w))"

definition send_connect ::
  "'o web_state option transport \<Rightarrow> int \<Rightarrow> MQTTProperties option \<Rightarrow> MQTTProperties option \<Rightarrow>
   int \<times> Clients \<times> 'o web_state \<Rightarrow> (int \<times> Clients \<times> 'o web_state) option" where
  "send_connect T MQTTVersion connectProperties willProperties r =
     (case r of (rc, c, w) \<Rightarrow>
        if rc = 0 then
          do {
            (rc, c, s) \<leftarrow> MQTTPacket_send_connect T c MQTTVersion connectProperties willProperties (Some w);
            w \<leftarrow> s;
            Some (rc, c\<lparr>connect_state := (if rc = 0 then WAIT_FOR_CONNACK else NOT_IN_PROGRESS)\<rparr>, w)
          }
        else Some (rc, c, w))"

definition MQTTProtocol_connect ::
  "'o web_env \<Rightarrow> 'o web_state option transport \<Rightarrow> bytes option \<Rightarrow>
   (Clients \<Rightarrow> 'o web_state \<Rightarrow> int \<times> Clients \<times> 'o web_state) \<Rightarrow> bytes \<Rightarrow> Clients \<Rightarrow> bool \<Rightarrow> int \<Rightarrow>
   MQTTProperties option \<Rightarrow> MQTTProperties option \<Rightarrow> 'o web_state \<Rightarrow> (int \<times> Clients \<times> 'o web_state) option" where
  "MQTTProtocol_connect E T getenv tunnel ip_address c websocket MQTTVersion connectProperties willProperties w =
     do {
       (rc, c) \<leftarrow> choose_proxy (we_os E) getenv (c\<lparr>good := True\<rparr>);
       if rc \<noteq> 0 then Some (rc, c, w)
       else do {
         (rc, c, w) \<leftarrow> open_socket E ip_address websocket c w;
         if rc = WSAEINPROGRESS \<or> rc = WSAEWOULDBLOCK then Some (rc, c\<lparr>connect_state := TCP_IN_PROGRESS\<rparr>, w)
         else if rc \<noteq> 0 then Some (rc, c, w)
         else do {
           r \<leftarrow> proxy_handshake E ip_address websocket c w;
           r \<leftarrow> websocket_handshake E ip_address websocket r;
           send_connect T MQTTVersion connectProperties willProperties (socks5_handshake tunnel r)
         }
       }
     }"

end
