(* ===== verification/FileStore.thy ===== *)
theory FileStore
  imports CString Packets
begin

text \<open>
  \<open>MQTTPersistenceDefault.c\<close>, the message store in a directory of files, as it is compiled for Windows.

  A path is a pair: whether it is absolute, and its components; repeated and either kind of separators
  name the same directory.  The file system is the list of its directories and the list of its files
  with their contents.  \<open>file_env\<close> says which of the requests to the system succeed: it stands for full
  disks, missing rights and the allocator.  The only error of \<open>FindNextFile\<close> is \<open>ERROR_NO_MORE_FILES\<close>.
  The \<open>handle\<close> of the store is the string \<open>clientDir\<close>, \<open>NULL\<close> before the store is open.
\<close>

section \<open>The file system\<close>

type_synonym path = "bool \<times> bytes list"

record file_system =
  fs_dirs :: "path list"
  fs_files :: "(path \<times> bytes) list"

record file_env =
  fe_alloc :: allocator
  fe_mkdir :: "path \<Rightarrow> bool"
  fe_rmdir :: "path \<Rightarrow> bool"
  fe_create :: "path \<Rightarrow> bool"
  fe_open :: "path \<Rightarrow> bool"
  fe_fwrite :: "path \<Rightarrow> nat \<Rightarrow> nat"
  fe_fread :: "path \<Rightarrow> nat \<Rightarrow> nat"
  fe_unlink :: "path \<Rightarrow> bool"
  fe_archive :: "path \<Rightarrow> bool"

abbreviation (input) MQTTCLIENT_PERSISTENCE_ERROR :: int where "MQTTCLIENT_PERSISTENCE_ERROR \<equiv> - 2"
abbreviation (input) MESSAGE_FILENAME_LENGTH :: nat where "MESSAGE_FILENAME_LENGTH \<equiv> 8"
abbreviation (input) MAX_PATH :: nat where "MAX_PATH \<equiv> 260"

definition MESSAGE_FILENAME_EXTENSION :: bytes where
  "MESSAGE_FILENAME_EXTENSION = bytes_of ''.msg''"

definition is_separator :: "byte \<Rightarrow> bool" where
  "is_separator c \<longleftrightarrow> c = 0x2F \<or> c = 0x5C"

text \<open>The tokens \<open>strtok\<close> finds with both separators.\<close>

fun split_tokens :: "bytes \<Rightarrow> bytes \<Rightarrow> bytes list" where
  "split_tokens cur [] = (if cur = [] then [] else [cur])"
| "split_tokens cur (c # s) =
     (if is_separator c then (if cur = [] then [] else [cur]) @ split_tokens [] s else split_tokens (cur @ [c]) s)"

definition path_tokens :: "bytes \<Rightarrow> bytes list" where
  "path_tokens s = split_tokens [] s"

definition path_of :: "bytes \<Rightarrow> path" where
  "path_of s = (s \<noteq> [] \<and> is_separator (s ! 0), path_tokens s)"

definition with_files :: "file_system \<Rightarrow> (path \<times> bytes) list \<Rightarrow> file_system" where
  "with_files s l = s\<lparr>fs_files := l\<rparr>"

text \<open>The contents of a file replace what was there.\<close>

definition set_file :: "path \<Rightarrow> bytes \<Rightarrow> file_system \<Rightarrow> file_system" where
  "set_file p d s =
     with_files s (if p \<in> fst ` set (fs_files s) then map (\<lambda>(q, e). (q, if q = p then d else e)) (fs_files s)
       else fs_files s @ [(p, d)])"

definition delete_file :: "path \<Rightarrow> file_system \<Rightarrow> file_system" where
  "delete_file p s = with_files s (filter (\<lambda>(q, e). q \<noteq> p) (fs_files s))"

text \<open>The names of the files of a directory.\<close>

definition file_names :: "file_env \<Rightarrow> path \<Rightarrow> file_system \<Rightarrow> bytes list" where
  "file_names E dir s = map (last \<circ> snd \<circ> fst)
     (filter (\<lambda>(p, d). fst p = fst dir \<and> snd p \<noteq> [] \<and> butlast (snd p) = snd dir \<and> fe_archive E p) (fs_files s))"

section \<open>Opening and closing the store\<close>

definition pstmkdir :: "file_env \<Rightarrow> path \<Rightarrow> file_system \<Rightarrow> int \<times> file_system" where
  "pstmkdir E p s =
     (if p \<in> set (fs_dirs s) \<or> p \<in> fst ` set (fs_files s) then (0, s)
      else if fe_mkdir E p then (0, s\<lparr>fs_dirs := fs_dirs s @ [p]\<rparr>)
      else (MQTTCLIENT_PERSISTENCE_ERROR, s))"

text \<open>The directories from the first level on, until one cannot be created.\<close>

fun make_directories :: "file_env \<Rightarrow> bool \<Rightarrow> bytes list \<Rightarrow> bytes list \<Rightarrow> file_system \<Rightarrow> int \<times> file_system" where
  "make_directories E absolute made [] s = (0, s)"
| "make_directories E absolute made (t # ts) s =
     (case pstmkdir E (absolute, made @ [t]) s of
        (rc, s) \<Rightarrow> if rc = 0 then make_directories E absolute (made @ [t]) ts s else (rc, s))"

text \<open>\<open>serverURI\<close> with the colons replaced, and the directory of the client.\<close>

definition client_dir :: "bytes \<Rightarrow> bytes \<Rightarrow> bytes \<Rightarrow> bytes" where
  "client_dir dataDir cid uri =
     dataDir @ [0x2F] @ cid @ [0x2D] @ map (\<lambda>c. if c = 0x3A then 0x2D else c) uri"

text \<open>The result has \<open>*handle\<close> if it was set.  A string without a token would make \<open>strcpy\<close> read \<open>NULL\<close>.\<close>

definition pstopen ::
  "file_env \<Rightarrow> bytes \<Rightarrow> bytes \<Rightarrow> bytes \<Rightarrow> file_system \<Rightarrow> (int \<times> bytes option \<times> file_system) ub" where
  "pstopen E cid uri ctx s =
     (if \<not> fe_alloc E (Bytes (length uri + 1)) then Some (PAHO_MEMORY_ERROR, None, s)
      else
        let alloclen = length ctx + length cid + length uri + 3;
            clientDir = client_dir ctx cid uri
        in if \<not> fe_alloc E (Bytes alloclen) then Some (PAHO_MEMORY_ERROR, None, s)
           else if alloclen \<le> length clientDir then Some (MQTTCLIENT_PERSISTENCE_ERROR, None, s)
           else if \<not> fe_alloc E (Bytes (length clientDir + 1)) then Some (PAHO_MEMORY_ERROR, None, s)
           else if path_tokens clientDir = [] then None
           else (case make_directories E (fst (path_of clientDir)) [] (path_tokens clientDir) s of
                   (rc, s) \<Rightarrow> Some (rc, Some clientDir, s)))"

text \<open>\<open>rmdir\<close> fails with \<open>ENOTEMPTY\<close> for a directory that is in use and \<open>ENOENT\<close> without one; both are no error.\<close>

definition pstclose :: "file_env \<Rightarrow> bytes option \<Rightarrow> file_system \<Rightarrow> int \<times> file_system" where
  "pstclose E handle s =
     (case handle of None \<Rightarrow> (MQTTCLIENT_PERSISTENCE_ERROR, s)
      | Some clientDir \<Rightarrow>
          let dir = path_of clientDir in
          if dir \<notin> set (fs_dirs s) then (0, s)
          else if \<exists>p \<in> set (fs_dirs s) \<union> fst ` set (fs_files s).
            fst p = fst dir \<and> length (snd dir) < length (snd p) \<and> take (length (snd dir)) (snd p) = snd dir then (0, s)
          else if fe_rmdir E dir then (0, s\<lparr>fs_dirs := removeAll dir (fs_dirs s)\<rparr>)
          else (MQTTCLIENT_PERSISTENCE_ERROR, s))"

section \<open>Records\<close>

definition record_path :: "bytes \<Rightarrow> bytes \<Rightarrow> path" where
  "record_path clientDir key = path_of (clientDir @ [0x2F] @ key @ MESSAGE_FILENAME_EXTENSION)"

text \<open>The block for the name of a file; \<open>snprintf\<close> always fits in it.\<close>

definition name_block :: "bytes \<Rightarrow> bytes \<Rightarrow> alloc_request" where
  "name_block clientDir key = Bytes (length clientDir + length key + length MESSAGE_FILENAME_EXTENSION + 2)"

definition pstremove :: "file_env \<Rightarrow> bytes option \<Rightarrow> bytes \<Rightarrow> file_system \<Rightarrow> int \<times> file_system" where
  "pstremove E handle key s =
     (case handle of None \<Rightarrow> (MQTTCLIENT_PERSISTENCE_ERROR, s)
      | Some clientDir \<Rightarrow>
          let file = record_path clientDir key in
          if \<not> fe_alloc E (name_block clientDir key) then (PAHO_MEMORY_ERROR, s)
          else if file \<notin> fst ` set (fs_files s) then (0, s)
          else if fe_unlink E file then (0, delete_file file s)
          else (MQTTCLIENT_PERSISTENCE_ERROR, s))"

text \<open>The buffers are written one after the other; a short write leaves a part of the buffer.\<close>

fun write_buffers :: "file_env \<Rightarrow> path \<Rightarrow> (bytes option \<times> int) list \<Rightarrow> bytes \<Rightarrow> bytes ub" where
  "write_buffers E file [] out = Some out"
| "write_buffers E file ((buffer, len) # r) out =
     do { b \<leftarrow> iov_base buffer (to_size len); write_buffers E file r (out @ take (fe_fwrite E file (to_size len)) b) }"

definition pstput ::
  "file_env \<Rightarrow> bytes option \<Rightarrow> bytes \<Rightarrow> (bytes option \<times> int) list \<Rightarrow> file_system \<Rightarrow> (int \<times> file_system) ub" where
  "pstput E handle key buffers s =
     (case handle of None \<Rightarrow> Some (MQTTCLIENT_PERSISTENCE_ERROR, s)
      | Some clientDir \<Rightarrow>
          let file = record_path clientDir key in
          if \<not> fe_alloc E (name_block clientDir key) then Some (PAHO_MEMORY_ERROR, s)
          else if (fst file, butlast (snd file)) \<notin> set (fs_dirs s) \<or> \<not> fe_create E file
          then Some (MQTTCLIENT_PERSISTENCE_ERROR, s)
          else do {
            out \<leftarrow> write_buffers E file buffers [];
            let s = set_file file out s;
            Some (if length out \<noteq> to_size (\<Sum>b \<leftarrow> buffers. snd b)
              then (MQTTCLIENT_PERSISTENCE_ERROR, snd (pstremove E handle key s)) else (0, s))
          })"

text \<open>The completion code, and what \<open>*buffer\<close> and \<open>*buflen\<close> are set to.\<close>

definition pstget :: "file_env \<Rightarrow> bytes option \<Rightarrow> bytes \<Rightarrow> file_system \<Rightarrow> int \<times> bytes option" where
  "pstget E handle key s =
     (case handle of None \<Rightarrow> (MQTTCLIENT_PERSISTENCE_ERROR, None)
      | Some clientDir \<Rightarrow>
          let file = record_path clientDir key in
          if \<not> fe_alloc E (name_block clientDir key) then (PAHO_MEMORY_ERROR, None)
          else (case map_of (fs_files s) file of
              None \<Rightarrow> (MQTTCLIENT_PERSISTENCE_ERROR, None)
            | Some d \<Rightarrow>
                if \<not> fe_open E file then (MQTTCLIENT_PERSISTENCE_ERROR, None)
                else if \<not> fe_alloc E (Bytes (length d)) then (PAHO_MEMORY_ERROR, None)
                else let buf = take (fe_fread E file (length d)) d in
                  (if length buf \<noteq> length d then MQTTCLIENT_PERSISTENCE_ERROR else 0, Some buf)))"

section \<open>Keys\<close>

text \<open>
  \<open>snprintf(dir, DIRSIZE, ...)\<close> is \<open>_snprintf\<close>, which returns a negative number and leaves the string
  without its terminating zero when it is too long: no result.  \<open>Some False\<close> is the error that is noticed.
\<close>

definition directory_pattern :: "bytes \<Rightarrow> bool ub" where
  "directory_pattern dirname =
     (if MAX_PATH + 1 < length dirname + 2 then None else Some (length dirname + 2 < MAX_PATH + 1))"

text \<open>The name of a file up to the first extension in it.\<close>

definition key_of_name :: "bytes \<Rightarrow> bytes" where
  "key_of_name name = (case strstr name MESSAGE_FILENAME_EXTENSION of None \<Rightarrow> name | Some j \<Rightarrow> take j name)"

fun find_key :: "file_env \<Rightarrow> bytes list \<Rightarrow> bytes \<Rightarrow> int" where
  "find_key E [] key = MQTTCLIENT_PERSISTENCE_ERROR"
| "find_key E (name # names) key =
     (if \<not> fe_alloc E (Bytes (length name + 1)) then PAHO_MEMORY_ERROR
      else if key_of_name name = key then 0 else find_key E names key)"

definition containskeyWin32 :: "file_env \<Rightarrow> bytes \<Rightarrow> bytes \<Rightarrow> file_system \<Rightarrow> int ub" where
  "containskeyWin32 E dirname key s =
     do {
       fits \<leftarrow> directory_pattern dirname;
       Some (if fits \<and> path_of dirname \<in> set (fs_dirs s) then find_key E (file_names E (path_of dirname) s) key
         else MQTTCLIENT_PERSISTENCE_ERROR)
     }"

definition pstcontainskey :: "file_env \<Rightarrow> bytes option \<Rightarrow> bytes \<Rightarrow> file_system \<Rightarrow> int ub" where
  "pstcontainskey E handle key s =
     (case handle of None \<Rightarrow> Some MQTTCLIENT_PERSISTENCE_ERROR
      | Some clientDir \<Rightarrow> containskeyWin32 E clientDir key s)"

fun clear_files :: "file_env \<Rightarrow> bytes \<Rightarrow> bytes list \<Rightarrow> file_system \<Rightarrow> int \<times> file_system" where
  "clear_files E dirname [] s = (0, s)"
| "clear_files E dirname (name # names) s =
     (let file = (fst (path_of dirname), path_tokens dirname @ [name]) in
      if \<not> fe_alloc E (Bytes (length dirname + length name + 2)) then (PAHO_MEMORY_ERROR, s)
      else if fe_unlink E file then clear_files E dirname names (delete_file file s)
      else (MQTTCLIENT_PERSISTENCE_ERROR, s))"

definition clearWin32 :: "file_env \<Rightarrow> bytes \<Rightarrow> file_system \<Rightarrow> (int \<times> file_system) ub" where
  "clearWin32 E dirname s =
     do {
       fits \<leftarrow> directory_pattern dirname;
       Some (if fits \<and> path_of dirname \<in> set (fs_dirs s)
         then clear_files E dirname (file_names E (path_of dirname) s) s else (MQTTCLIENT_PERSISTENCE_ERROR, s))
     }"

definition pstclear :: "file_env \<Rightarrow> bytes option \<Rightarrow> file_system \<Rightarrow> (int \<times> file_system) ub" where
  "pstclear E handle s =
     (case handle of None \<Rightarrow> Some (MQTTCLIENT_PERSISTENCE_ERROR, s) | Some clientDir \<Rightarrow> clearWin32 E clientDir s)"

text \<open>The completion code and \<open>*keys\<close>, whose length is \<open>*nkeys\<close>.\<close>

definition keysWin32 :: "file_env \<Rightarrow> bytes \<Rightarrow> file_system \<Rightarrow> (int \<times> bytes list option) ub" where
  "keysWin32 E dirname s =
     do {
       fits \<leftarrow> directory_pattern dirname;
       let names = file_names E (path_of dirname) s;
       Some (if \<not> fits \<or> path_of dirname \<notin> set (fs_dirs s) then (MQTTCLIENT_PERSISTENCE_ERROR, None)
         else if names \<noteq> [] \<and> \<not> fe_alloc E (Sizeof ''char*[]'') then (PAHO_MEMORY_ERROR, None)
         else if \<exists>name \<in> set names. \<not> fe_alloc E (Bytes (length name + 1)) then (PAHO_MEMORY_ERROR, None)
         else (0, Some (map key_of_name names)))
     }"

definition pstkeys :: "file_env \<Rightarrow> bytes option \<Rightarrow> file_system \<Rightarrow> (int \<times> bytes list option) ub" where
  "pstkeys E handle s =
     (case handle of None \<Rightarrow> Some (MQTTCLIENT_PERSISTENCE_ERROR, None) | Some clientDir \<Rightarrow> keysWin32 E clientDir s)"

section \<open>The store as a map\<close>

text \<open>The keys of the library: letters of the stems, digits and dashes.\<close>

definition key_char :: "byte \<Rightarrow> bool" where
  "key_char c \<longleftrightarrow> isdigit c \<or> c = 0x2D \<or> c = 0x63 \<or> c = 0x71 \<or> c = 0x72 \<or> c = 0x73"

definition key_ok :: "bytes \<Rightarrow> bool" where
  "key_ok key \<longleftrightarrow> key \<noteq> [] \<and> (\<forall>c \<in> set key. key_char c)"

lemma key_char_plain: "key_char c \<Longrightarrow> \<not> is_separator c \<and> c \<noteq> 0x2E"
  by (auto simp: key_char_def is_separator_def isdigit_def word_le_nat_alt)

lemma split_tokens_plain:
  "\<forall>c \<in> set s. \<not> is_separator c \<Longrightarrow> split_tokens cur s = (if cur @ s = [] then [] else [cur @ s])"
  by (induction s arbitrary: cur) auto

lemma split_tokens_separator:
  "is_separator c \<Longrightarrow> split_tokens cur (a @ c # b) = split_tokens cur a @ split_tokens [] b"
  by (induction a arbitrary: cur) auto

lemma record_name_plain:
  assumes "key_ok key" "c \<in> set (key @ MESSAGE_FILENAME_EXTENSION)"
  shows "\<not> is_separator c"
proof (cases "c \<in> set key")
  case True
  then show ?thesis using assms(1) key_char_plain by (auto simp: key_ok_def)
next
  case False
  then have "c \<in> {0x2E, 0x6D, 0x73, 0x67}" using assms(2) by (auto simp: MESSAGE_FILENAME_EXTENSION_def bytes_of_def)
  then show ?thesis by (auto simp: is_separator_def)
qed

lemma record_path_eq:
  assumes "dir \<noteq> []" "key_ok key"
  shows "record_path dir key = (fst (path_of dir), path_tokens dir @ [key @ MESSAGE_FILENAME_EXTENSION])"
proof -
  have "is_separator 0x2F" "MESSAGE_FILENAME_EXTENSION \<noteq> []"
    by (simp_all add: is_separator_def MESSAGE_FILENAME_EXTENSION_def bytes_of_def)
  then show ?thesis
    using assms record_name_plain [OF assms(2)]
    by (auto simp: record_path_def path_of_def path_tokens_def split_tokens_separator split_tokens_plain nth_append)
qed

lemma strstr_after: "\<forall>x \<in> set key. x \<noteq> c \<Longrightarrow> strstr (key @ c # p) (c # p) = Some (length key)"
  by (induction key) auto

lemma key_of_record_name: "key_ok key \<Longrightarrow> key_of_name (key @ MESSAGE_FILENAME_EXTENSION) = key"
proof -
  assume k: "key_ok key"
  obtain e where e: "MESSAGE_FILENAME_EXTENSION = 0x2E # e" by (simp add: MESSAGE_FILENAME_EXTENSION_def bytes_of_def)
  have "\<forall>x \<in> set key. x \<noteq> 0x2E" using k key_char_plain by (auto simp: key_ok_def)
  from strstr_after [OF this, of e] show ?thesis by (simp add: key_of_name_def e)
qed

text \<open>An open store: its directory is there, its name is short enough, and it holds only records.\<close>

definition store_open :: "bytes \<Rightarrow> file_system \<Rightarrow> bool" where
  "store_open dir s \<longleftrightarrow>
     dir \<noteq> [] \<and> path_of dir \<in> set (fs_dirs s) \<and> length dir + 2 \<le> MAX_PATH \<and> distinct (map fst (fs_files s)) \<and>
     (\<forall>p \<in> fst ` set (fs_files s). fst p = fst (path_of dir) \<longrightarrow> snd p \<noteq> [] \<longrightarrow> butlast (snd p) = path_tokens dir \<longrightarrow>
        (\<exists>key. key_ok key \<and> last (snd p) = key @ MESSAGE_FILENAME_EXTENSION))"

definition stored :: "bytes \<Rightarrow> file_system \<Rightarrow> bytes \<Rightarrow> bytes option" where
  "stored dir s key = (if key_ok key then map_of (fs_files s) (record_path dir key) else None)"

text \<open>A system that grants every request.\<close>

definition reliable :: "file_env \<Rightarrow> bool" where
  "reliable E \<longleftrightarrow> fe_alloc E = always_alloc \<and> (\<forall>p. fe_create E p \<and> fe_open E p \<and> fe_unlink E p \<and> fe_archive E p) \<and>
     (\<forall>p n. n \<le> fe_fwrite E p n \<and> n \<le> fe_fread E p n)"

lemma reliable_facts:
  assumes "reliable E"
  shows "fe_alloc E = always_alloc" "fe_create E p" "fe_open E p" "fe_unlink E p" "fe_archive E p"
    "take (fe_fwrite E p (length d)) d = d" "take (fe_fread E p (length d)) d = d"
  using assms unfolding reliable_def by (auto simp del: split_paired_All)

definition buffers_bytes :: "(bytes option \<times> int) list \<Rightarrow> bytes ub" where
  "buffers_bytes bufs = map_option concat (those (map (\<lambda>(b, n). iov_base b (to_size n)) bufs))"

lemma buffers_bytes_simps [simp]:
  "buffers_bytes [] = Some []"
  "buffers_bytes ((b, n) # bufs) = do { x \<leftarrow> iov_base b (to_size n); y \<leftarrow> buffers_bytes bufs; Some (x @ y) }"
  by (auto simp: buffers_bytes_def split: option.split Option.bind_split)

lemma write_buffers_all:
  assumes "reliable E"
  shows "write_buffers E file bufs out = map_option (\<lambda>bs. out @ bs) (buffers_bytes bufs)"
proof (induction bufs arbitrary: out)
  case (Cons b bufs)
  obtain x n where b: "b = (x, n)" by (cases b)
  show ?case
  proof (cases "iov_base x (to_size n)")
    case (Some y)
    have "take (fe_fwrite E file (length y)) y = y" by (rule reliable_facts(6) [OF assms])
    then have "take (fe_fwrite E file (to_size n)) y = y" using iov_base_length [OF Some] by simp
    then show ?thesis using Cons Some unfolding b by (cases "buffers_bytes bufs") (simp_all del: bind_Some_iff)
  qed (simp add: b del: bind_Some_iff)
qed simp

lemma buffers_bytes_length:
  "buffers_bytes bufs = Some bs \<Longrightarrow> length bs = (\<Sum>b \<leftarrow> bufs. to_size (snd b))"
proof (induction bufs arbitrary: bs)
  case (Cons b bufs)
  then obtain x y where "iov_base (fst b) (to_size (snd b)) = Some x" "buffers_bytes bufs = Some y" "bs = x @ y"
    by (cases b) auto
  then show ?case using Cons.IH iov_base_length by fastforce
qed simp

lemma to_size_sum:
  assumes "(\<Sum>b \<leftarrow> bufs. to_size (snd b)) < 2 ^ 64"
  shows "to_size (\<Sum>b \<leftarrow> bufs. snd b) = (\<Sum>b \<leftarrow> bufs. to_size (snd b))"
proof -
  have "int (\<Sum>b \<leftarrow> bufs. to_size (snd b)) mod 2 ^ 64 = (\<Sum>b \<leftarrow> bufs. snd b) mod 2 ^ 64"
  proof (induction bufs)
    case (Cons b bufs)
    have "int (to_size (snd b)) mod 2 ^ 64 = snd b mod 2 ^ 64" by (simp add: to_size_def)
    from mod_add_cong [OF this Cons] show ?case by simp
  qed simp
  moreover have "int (\<Sum>b \<leftarrow> bufs. to_size (snd b)) mod 2 ^ 64 = int (\<Sum>b \<leftarrow> bufs. to_size (snd b))"
    using assms by simp
  ultimately show ?thesis by (simp add: to_size_def)
qed

lemma map_of_update:
  "map_of (map (\<lambda>(q, e). (q, if q = p then d else e)) l) r = (if r = p then map_option (\<lambda>_. d) (map_of l p) else map_of l r)"
  by (induction l) auto

lemma map_of_set_file: "map_of (fs_files (set_file p d s)) = (map_of (fs_files s))(p \<mapsto> d)"
proof (cases "p \<in> fst ` set (fs_files s)")
  case True
  then have "map_of (fs_files s) p \<noteq> None" by (simp add: map_of_eq_None_iff)
  then show ?thesis using True by (auto simp: set_file_def with_files_def map_of_update fun_eq_iff)
next
  case False
  then have "map_of (fs_files s) p = None" by (simp add: map_of_eq_None_iff)
  then show ?thesis using False by (auto simp: set_file_def with_files_def fun_eq_iff map_add_def split: option.split)
qed

lemma fst_set_file: "fst ` set (fs_files (set_file p d s)) = insert p (fst ` set (fs_files s))"
  using arg_cong [OF map_of_set_file, of dom p d s] by (simp add: dom_map_of_conv_image_fst)

lemma distinct_set_file:
  "distinct (map fst (fs_files s)) \<Longrightarrow> distinct (map fst (fs_files (set_file p d s)))"
  by (auto simp: set_file_def with_files_def comp_def case_prod_beta)

lemma map_of_delete_file: "map_of (fs_files (delete_file p s)) = (map_of (fs_files s))(p := None)"
proof -
  have "map_of (filter (\<lambda>(q, e). q \<noteq> p) l) r = (if r = p then None else map_of l r)" for l :: "(path \<times> bytes) list" and r
    by (induction l) auto
  then show ?thesis by (auto simp: delete_file_def with_files_def fun_eq_iff)
qed

lemma fst_delete_file: "fst ` set (fs_files (delete_file p s)) = fst ` set (fs_files s) - {p}"
  using arg_cong [OF map_of_delete_file, of dom p s] by (simp add: dom_map_of_conv_image_fst)

lemma distinct_delete_file:
  "distinct (map fst (fs_files s)) \<Longrightarrow> distinct (map fst (fs_files (delete_file p s)))"
  unfolding delete_file_def with_files_def by (simp add: distinct_map_filter)

lemma fs_dirs_simps [simp]: "fs_dirs (set_file p d s) = fs_dirs s" "fs_dirs (delete_file p s) = fs_dirs s"
  by (simp_all add: set_file_def delete_file_def with_files_def)

lemma stored_set_file:
  assumes "dir \<noteq> []" "key_ok key"
  shows "stored dir (set_file (record_path dir key) d s) = (stored dir s)(key \<mapsto> d)"
  using assms by (auto simp: stored_def map_of_set_file fun_eq_iff record_path_eq)

lemma stored_delete_file:
  assumes "dir \<noteq> []" "key_ok key"
  shows "stored dir (delete_file (record_path dir key) s) = (stored dir s)(key := None)"
  using assms by (auto simp: stored_def map_of_delete_file fun_eq_iff record_path_eq)

lemma store_open_set_file:
  assumes "store_open dir s" "key_ok key"
  shows "store_open dir (set_file (record_path dir key) d s)"
  using assms unfolding store_open_def
  by (auto simp: fst_set_file distinct_set_file record_path_eq)

lemma store_open_delete_file:
  "store_open dir s \<Longrightarrow> store_open dir (delete_file p s)"
  unfolding store_open_def by (auto simp: fst_delete_file distinct_delete_file)

lemma pstput_reliable:
  assumes "reliable E" "store_open dir s" "key_ok key" "buffers_bytes bufs = Some bs" "length bs < 2 ^ 64"
  shows "pstput E (Some dir) key bufs s = Some (0, set_file (record_path dir key) bs s)"
proof -
  have d: "(fst (record_path dir key), butlast (snd (record_path dir key))) = path_of dir"
    using assms(2,3) by (simp add: store_open_def record_path_eq path_of_def)
  have "to_size (\<Sum>b \<leftarrow> bufs. snd b) = length bs"
    using to_size_sum [of bufs] buffers_bytes_length [OF assms(4)] assms(5) by simp
  then show ?thesis
    using assms d by (simp add: pstput_def Let_def write_buffers_all reliable_facts [OF assms(1)] store_open_def del: bind_Some_iff)
qed

lemma pstremove_reliable:
  assumes "reliable E" "store_open dir s" "key_ok key"
  shows "\<exists>s'. pstremove E (Some dir) key s = (0, s') \<and> store_open dir s' \<and> stored dir s' = (stored dir s)(key := None)"
proof (cases "record_path dir key \<in> fst ` set (fs_files s)")
  case True
  have dir: "dir \<noteq> []" using assms(2) by (simp add: store_open_def)
  have "pstremove E (Some dir) key s = (0, delete_file (record_path dir key) s)"
    using True by (simp add: pstremove_def Let_def reliable_facts [OF assms(1)])
  then show ?thesis using store_open_delete_file [OF assms(2)] stored_delete_file [OF dir assms(3)] by blast
next
  case False
  then have "map_of (fs_files s) (record_path dir key) = None" by (simp add: map_of_eq_None_iff)
  then have "(stored dir s)(key := None) = stored dir s" by (auto simp: stored_def fun_eq_iff)
  then show ?thesis using assms(2) False by (simp add: pstremove_def Let_def reliable_facts [OF assms(1)])
qed

lemma pstget_reliable:
  assumes "reliable E" "stored dir s key = Some d"
  shows "pstget E (Some dir) key s = (0, Some d)"
  using assms(2) by (auto simp: pstget_def Let_def reliable_facts [OF assms(1)] stored_def split: if_splits)

lemma keys_of_store:
  assumes "reliable E" "store_open dir s"
  shows "distinct (map key_of_name (file_names E (path_of dir) s))"
    "set (map key_of_name (file_names E (path_of dir) s)) = dom (stored dir s)"
proof -
  let ?P = "\<lambda>p. fst p = fst (path_of dir) \<and> snd p \<noteq> [] \<and> butlast (snd p) = path_tokens dir"
  have dir: "dir \<noteq> []" using assms(2) by (simp add: store_open_def)
  have n: "file_names E (path_of dir) s = map (last \<circ> snd) (filter ?P (map fst (fs_files s)))"
    by (simp add: file_names_def reliable_facts [OF assms(1)] path_of_def filter_map comp_def split_def)
  have k: "\<exists>key. key_ok key \<and> p = record_path dir key" if p: "?P p" "p \<in> set (map fst (fs_files s))" for p
  proof -
    obtain key where key: "key_ok key" "last (snd p) = key @ MESSAGE_FILENAME_EXTENSION"
      using p assms(2) unfolding store_open_def set_map by metis
    then have "snd p = path_tokens dir @ [key @ MESSAGE_FILENAME_EXTENSION]"
      using p(1) by (metis append_butlast_last_id)
    then show ?thesis using p(1) key(1) record_path_eq [OF dir key(1)] by (intro exI [of _ key]) (simp add: prod_eq_iff)
  qed
  have r: "?P (record_path dir key)" "key_of_name (last (snd (record_path dir key))) = key" if "key_ok key" for key
    using that by (simp_all add: record_path_eq [OF dir that] key_of_record_name)
  have "inj_on (key_of_name \<circ> (last \<circ> snd)) (set (filter ?P (map fst (fs_files s))))"
  proof (rule inj_onI)
    fix p q
    assume "p \<in> set (filter ?P (map fst (fs_files s)))" "q \<in> set (filter ?P (map fst (fs_files s)))"
      and e: "(key_of_name \<circ> (last \<circ> snd)) p = (key_of_name \<circ> (last \<circ> snd)) q"
    then obtain a b where "key_ok a" "p = record_path dir a" "key_ok b" "q = record_path dir b"
      using k [of p] k [of q] by auto
    then show "p = q" using e r(2) by simp
  qed
  moreover have "distinct (filter ?P (map fst (fs_files s)))" using assms(2) by (simp add: store_open_def)
  ultimately show "distinct (map key_of_name (file_names E (path_of dir) s))"
    by (simp add: n distinct_map)
  have "key \<in> set (map key_of_name (file_names E (path_of dir) s)) \<longleftrightarrow> stored dir s key \<noteq> None" for key
  proof
    assume "key \<in> set (map key_of_name (file_names E (path_of dir) s))"
    then obtain p where p: "p \<in> set (map fst (fs_files s))" "?P p" "key = key_of_name (last (snd p))"
      unfolding n by auto
    obtain a where a: "key_ok a" "p = record_path dir a" using k [OF p(2,1)] by blast
    have "key = a" using r(2) [OF a(1)] p(3) a(2) by simp
    moreover have "map_of (fs_files s) p \<noteq> None" using p(1) by (simp add: map_of_eq_None_iff)
    ultimately show "stored dir s key \<noteq> None" using a by (simp add: stored_def)
  next
    assume "stored dir s key \<noteq> None"
    then have a: "key_ok key" "map_of (fs_files s) (record_path dir key) \<noteq> None" by (auto simp: stored_def split: if_splits)
    then have "record_path dir key \<in> set (map fst (fs_files s))" by (simp add: map_of_eq_None_iff)
    then have "record_path dir key \<in> set (filter ?P (map fst (fs_files s)))" using r(1) [OF a(1)] by simp
    then have "key_of_name ((last \<circ> snd) (record_path dir key)) \<in> set (map key_of_name (file_names E (path_of dir) s))"
      unfolding n set_map by (intro imageI)
    then show "key \<in> set (map key_of_name (file_names E (path_of dir) s))" using r(2) [OF a(1)] by (simp only: comp_apply)
  qed
  then show "set (map key_of_name (file_names E (path_of dir) s)) = dom (stored dir s)" by blast
qed

lemma pstkeys_reliable:
  assumes "reliable E" "store_open dir s"
  shows "pstkeys E (Some dir) s = Some (0, Some (map key_of_name (file_names E (path_of dir) s)))"
  using assms(2) by (simp add: pstkeys_def keysWin32_def directory_pattern_def store_open_def reliable_facts [OF assms(1)] Let_def
      del: bind_Some_iff)

lemma find_key_reliable:
  "reliable E \<Longrightarrow> find_key E names key = 0 \<longleftrightarrow> key \<in> key_of_name ` set names"
  by (induction names) (auto simp: reliable_def)

lemma pstcontainskey_reliable:
  assumes "reliable E" "store_open dir s"
  shows "\<exists>rc. pstcontainskey E (Some dir) key s = Some rc \<and> (rc = 0 \<longleftrightarrow> key \<in> dom (stored dir s))"
  using assms keys_of_store(2) [OF assms]
  by (simp add: pstcontainskey_def containskeyWin32_def directory_pattern_def store_open_def find_key_reliable)

end
