(* ===== verification/Persistence.thy ===== *)
theory Persistence
  imports FileStore Protocol
begin

text \<open>
  \<open>MQTTPersistence.c\<close>: the messages in flight and the queue of received messages in a persistent store.

  A store is a record of functions on the state \<open>'s\<close>, as the application or \<open>FileStore\<close> provides it.
  What \<open>Clients\<close> has for persistence is the record \<open>client_store\<close>.  \<open>beforeWrite\<close> and \<open>afterRead\<close> are the
  callbacks of the application; they may replace the data.
\<close>

section \<open>Keys\<close>

definition PERSISTENCE_PUBREL :: string where "PERSISTENCE_PUBREL = ''sc-''"
definition PERSISTENCE_V5_PUBREL :: string where "PERSISTENCE_V5_PUBREL = ''sc5-''"
definition PERSISTENCE_COMMAND_KEY :: string where "PERSISTENCE_COMMAND_KEY = ''c-''"
definition PERSISTENCE_V5_COMMAND_KEY :: string where "PERSISTENCE_V5_COMMAND_KEY = ''c5-''"
definition PERSISTENCE_QUEUE_KEY :: string where "PERSISTENCE_QUEUE_KEY = ''q-''"
definition PERSISTENCE_V5_QUEUE_KEY :: string where "PERSISTENCE_V5_QUEUE_KEY = ''q5-''"

abbreviation (input) PERSISTENCE_MAX_KEY_LENGTH :: nat where "PERSISTENCE_MAX_KEY_LENGTH \<equiv> 9"
abbreviation (input) PERSISTENCE_SEQNO_LIMIT :: "32 word" where "PERSISTENCE_SEQNO_LIMIT \<equiv> 1000000"

lemmas key_stems =
  PERSISTENCE_PUBLISH_SENT_def PERSISTENCE_V5_PUBLISH_SENT_def PERSISTENCE_PUBLISH_RECEIVED_def
  PERSISTENCE_V5_PUBLISH_RECEIVED_def PERSISTENCE_PUBREL_def PERSISTENCE_V5_PUBREL_def
  PERSISTENCE_COMMAND_KEY_def PERSISTENCE_V5_COMMAND_KEY_def PERSISTENCE_QUEUE_KEY_def
  PERSISTENCE_V5_QUEUE_KEY_def

text \<open>\<open>snprintf(key, keysize, "%s%d", ...)\<close> into a block of \<open>MESSAGE_FILENAME_LENGTH + 1\<close> bytes; \<open>None\<close> when
  the test for the length fails.\<close>

definition message_key :: "string \<Rightarrow> int \<Rightarrow> bytes option" where
  "message_key stem msgId =
     (let key = bytes_of stem @ dec_int msgId in
      if MESSAGE_FILENAME_LENGTH + 1 \<le> length key then None else Some key)"

text \<open>The key of a queue entry.  The size is an \<open>int\<close> here, to which a negative \<open>_snprintf\<close> compares as
  smaller: a key that is more than one character too long is used without its end.\<close>

definition queue_key :: "string \<Rightarrow> 32 word \<Rightarrow> bytes option ub" where
  "queue_key stem seqno =
     (let key = bytes_of stem @ dec_bytes (unat seqno) in
      if PERSISTENCE_MAX_KEY_LENGTH + 1 < length key then None
      else Some (if length key = PERSISTENCE_MAX_KEY_LENGTH + 1 then None else Some key))"

text \<open>\<open>strncmp(key, stem, strlen(stem)) == 0\<close>\<close>

definition has_stem :: "string \<Rightarrow> bytes \<Rightarrow> bool" where
  "has_stem stem key \<longleftrightarrow> take (length stem) key = bytes_of stem"

section \<open>Stores\<close>

record 's MQTTClient_persistence =
  per_context :: bytes
  popen :: "bytes \<Rightarrow> bytes \<Rightarrow> bytes \<Rightarrow> 's \<Rightarrow> (int \<times> bytes option \<times> 's) ub"
  pclose :: "bytes option \<Rightarrow> 's \<Rightarrow> (int \<times> 's) ub"
  pput :: "bytes option \<Rightarrow> bytes \<Rightarrow> (bytes option \<times> int) list \<Rightarrow> 's \<Rightarrow> (int \<times> 's) ub"
  pget :: "bytes option \<Rightarrow> bytes \<Rightarrow> 's \<Rightarrow> (int \<times> bytes option \<times> 's) ub"
  premove :: "bytes option \<Rightarrow> bytes \<Rightarrow> 's \<Rightarrow> (int \<times> 's) ub"
  pkeys :: "bytes option \<Rightarrow> 's \<Rightarrow> (int \<times> bytes list option \<times> 's) ub"
  pclear :: "bytes option \<Rightarrow> 's \<Rightarrow> (int \<times> 's) ub"
  pcontainskey :: "bytes option \<Rightarrow> bytes \<Rightarrow> 's \<Rightarrow> (int \<times> 's) ub"

text \<open>The functions of \<open>FileStore\<close> on a part of the state.\<close>

definition on_files ::
  "('s \<Rightarrow> file_system) \<Rightarrow> ((file_system \<Rightarrow> file_system) \<Rightarrow> 's \<Rightarrow> 's) \<Rightarrow> (file_system \<Rightarrow> ('a \<times> file_system) ub) \<Rightarrow>
   's \<Rightarrow> ('a \<times> 's) ub" where
  "on_files get upd f s = map_option (\<lambda>(r, fs). (r, upd (\<lambda>_. fs) s)) (f (get s))"

definition default_persistence ::
  "file_env \<Rightarrow> ('s \<Rightarrow> file_system) \<Rightarrow> ((file_system \<Rightarrow> file_system) \<Rightarrow> 's \<Rightarrow> 's) \<Rightarrow> bytes \<Rightarrow> 's MQTTClient_persistence" where
  "default_persistence E get upd ctx =
     \<lparr>per_context = ctx,
      popen = (\<lambda>cid uri ctx s. map_option (\<lambda>((rc, h), s). (rc, h, s))
        (on_files get upd (\<lambda>fs. map_option (\<lambda>(rc, h, fs). ((rc, h), fs)) (pstopen E cid uri ctx fs)) s)),
      pclose = (\<lambda>h. on_files get upd (\<lambda>fs. Some (pstclose E h fs))),
      pput = (\<lambda>h key bufs. on_files get upd (pstput E h key bufs)),
      pget = (\<lambda>h key s. case pstget E h key (get s) of (rc, buffer) \<Rightarrow> Some (rc, buffer, s)),
      premove = (\<lambda>h key. on_files get upd (\<lambda>fs. Some (pstremove E h key fs))),
      pkeys = (\<lambda>h s. map_option (\<lambda>(rc, keys). (rc, keys, s)) (pstkeys E h (get s))),
      pclear = (\<lambda>h. on_files get upd (pstclear E h)),
      pcontainskey = (\<lambda>h key s. map_option (\<lambda>rc. (rc, s)) (pstcontainskey E h key (get s)))\<rparr>"

record MQTTPersistence_message =
  pm_struct_version :: int
  pm_payloadlen :: int
  pm_payload :: bytes
  pm_qos :: int
  pm_retained :: int
  pm_dup :: int
  pm_msgid :: int
  pm_properties :: MQTTProperties

record MQTTPersistence_qEntry =
  qe_msg :: MQTTPersistence_message
  qe_topicName :: bytes
  qe_topicLen :: int
  qe_seqno :: "32 word"

record 's client_store =
  persistence :: "'s MQTTClient_persistence option"
  phandle :: "bytes option"
  beforeWrite :: "((bytes option \<times> int) list \<Rightarrow> 's \<Rightarrow> int \<times> (bytes option \<times> int) list \<times> 's) option"
  afterRead :: "(bytes \<Rightarrow> 's \<Rightarrow> int \<times> bytes \<times> 's) option"
  messageQueue :: "MQTTPersistence_qEntry clist"
  qentry_seqno :: "32 word"

abbreviation (input) MQTTCLIENT_PERSISTENCE_DEFAULT :: int where "MQTTCLIENT_PERSISTENCE_DEFAULT \<equiv> 0"
abbreviation (input) MQTTCLIENT_PERSISTENCE_NONE :: int where "MQTTCLIENT_PERSISTENCE_NONE \<equiv> 1"
abbreviation (input) MQTTCLIENT_PERSISTENCE_USER :: int where "MQTTCLIENT_PERSISTENCE_USER \<equiv> 2"

text \<open>
  The argument \<open>pcontext\<close> is a directory or a structure of the application, with whether none of its
  pointers is \<open>NULL\<close>.  The result is \<open>None\<close> when \<open>*persistence\<close> is not set.
\<close>

datatype 's pcontext = Directory bytes | User "'s MQTTClient_persistence" bool

definition MQTTPersistence_create ::
  "allocator \<Rightarrow> (bytes \<Rightarrow> 's MQTTClient_persistence) \<Rightarrow> int \<Rightarrow> 's pcontext option \<Rightarrow>
   (int \<times> 's MQTTClient_persistence option option) ub" where
  "MQTTPersistence_create malloc file_store type pcontext =
     (if type = MQTTCLIENT_PERSISTENCE_NONE then Some (0, Some None)
      else if type = MQTTCLIENT_PERSISTENCE_DEFAULT then
        if \<not> malloc (Sizeof ''MQTTClient_persistence'') then Some (PAHO_MEMORY_ERROR, Some None)
        else (case pcontext of
            Some (User p complete) \<Rightarrow> None
          | _ \<Rightarrow>
              let ctx = (case pcontext of Some (Directory d) \<Rightarrow> d | _ \<Rightarrow> bytes_of ''.'') in
              Some (if malloc (Bytes (length ctx + 1)) then (0, Some (Some (file_store ctx)))
                else (PAHO_MEMORY_ERROR, None)))
      else if type = MQTTCLIENT_PERSISTENCE_USER then
        (case pcontext of
           None \<Rightarrow> Some (MQTTCLIENT_PERSISTENCE_ERROR, Some None)
         | Some (Directory d) \<Rightarrow> None
         | Some (User p complete) \<Rightarrow> Some (if complete then 0 else MQTTCLIENT_PERSISTENCE_ERROR, Some (Some p)))
      else Some (MQTTCLIENT_PERSISTENCE_ERROR, Some None))"

definition MQTTPersistence_close :: "'s client_store \<Rightarrow> 's \<Rightarrow> (int \<times> 's client_store \<times> 's) ub" where
  "MQTTPersistence_close c s =
     (case persistence c of None \<Rightarrow> Some (0, c, s)
      | Some p \<Rightarrow>
          do {
            (rc, s) \<leftarrow> pclose p (phandle c) s;
            Some (rc, c\<lparr>phandle := None, persistence := None\<rparr>, s)
          })"

definition MQTTPersistence_clear :: "'s client_store \<Rightarrow> 's \<Rightarrow> (int \<times> 's) ub" where
  "MQTTPersistence_clear c s = (case persistence c of None \<Rightarrow> Some (0, s) | Some p \<Rightarrow> pclear p (phandle c) s)"

section \<open>Storing packets\<close>

definition int_of_size :: "nat \<Rightarrow> int" where
  "int_of_size n = sint (of_nat n :: 32 word)"

definition packet_stem :: "int \<Rightarrow> bool \<Rightarrow> int \<Rightarrow> string" where
  "packet_stem htype scr MQTTVersion =
     (if scr then if 5 \<le> MQTTVersion then PERSISTENCE_V5_PUBLISH_RECEIVED else PERSISTENCE_PUBLISH_RECEIVED
      else if htype = PUBLISH then if 5 \<le> MQTTVersion then PERSISTENCE_V5_PUBLISH_SENT else PERSISTENCE_PUBLISH_SENT
      else if htype = PUBREL then if 5 \<le> MQTTVersion then PERSISTENCE_V5_PUBREL else PERSISTENCE_PUBREL
      else PERSISTENCE_PUBLISH_SENT)"

text \<open>The callback and the write.\<close>

definition write_record ::
  "'s client_store \<Rightarrow> 's MQTTClient_persistence \<Rightarrow> bytes \<Rightarrow> (bytes option \<times> int) list \<Rightarrow> 's \<Rightarrow> (int \<times> 's) ub" where
  "write_record c p key bufs s =
     (case (case beforeWrite c of None \<Rightarrow> (0, bufs, s) | Some f \<Rightarrow> f bufs s) of
        (rc, bufs, s) \<Rightarrow> if rc = 0 then pput p (phandle c) key bufs s else Some (rc, s))"

definition put_packet ::
  "allocator \<Rightarrow> 's client_store \<Rightarrow> bytes \<Rightarrow> (bytes option \<times> nat) list \<Rightarrow> int \<Rightarrow> int \<Rightarrow> bool \<Rightarrow> int \<Rightarrow> 's \<Rightarrow> (int \<times> 's) ub" where
  "put_packet malloc c buf0 buffers htype msgId scr MQTTVersion s =
     (case persistence c of None \<Rightarrow> Some (0, s)
      | Some p \<Rightarrow>
          if \<not> malloc (Bytes (MESSAGE_FILENAME_LENGTH + 1)) \<or> \<not> malloc (Bytes ((1 + length buffers) * 4)) \<or>
             \<not> malloc (Bytes ((1 + length buffers) * 8))
          then Some (PAHO_MEMORY_ERROR, s)
          else (case message_key (packet_stem htype scr MQTTVersion) msgId of
              None \<Rightarrow> Some (MQTTCLIENT_PERSISTENCE_ERROR, s)
            | Some key \<Rightarrow>
                write_record c p key (map (\<lambda>(b, n). (b, int_of_size n)) ((Some buf0, length buf0) # buffers)) s))"

text \<open>The client is looked for in the list of clients, which leaves the cursor on it.\<close>

definition MQTTPersistence_putPacket ::
  "allocator \<Rightarrow> (Clients \<times> 's client_store) clist \<Rightarrow> int \<Rightarrow> bytes \<Rightarrow> (bytes option \<times> nat) list \<Rightarrow> int \<Rightarrow> int \<Rightarrow> bool \<Rightarrow> int \<Rightarrow>
   's \<Rightarrow> (int \<times> (Clients \<times> 's client_store) clist \<times> 's) ub" where
  "MQTTPersistence_putPacket malloc clients socket buf0 buffers htype msgId scr MQTTVersion s =
     (case cl_find (\<lambda>(client, c). clientSocketCompare client socket) clients of
        (None, l) \<Rightarrow> None
      | (Some i, l) \<Rightarrow>
          map_option (\<lambda>(rc, s). (rc, l, s))
            (put_packet malloc (snd (cl_items l ! i)) buf0 buffers htype msgId scr MQTTVersion s))"

text \<open>The keys of a message are removed until one is too long; the return codes are added.\<close>

fun remove_keys :: "'s MQTTClient_persistence \<Rightarrow> bytes option \<Rightarrow> string list \<Rightarrow> int \<Rightarrow> int \<Rightarrow> 's \<Rightarrow> (int \<times> 's) ub" where
  "remove_keys p h [] msgId rc s = Some (rc, s)"
| "remove_keys p h (stem # stems) msgId rc s =
     (case message_key stem msgId of
        None \<Rightarrow> Some (MQTTCLIENT_PERSISTENCE_ERROR, s)
      | Some key \<Rightarrow> do { (r, s) \<leftarrow> premove p h key s; remove_keys p h stems msgId (rc + r) s })"

definition MQTTPersistence_remove ::
  "allocator \<Rightarrow> 's client_store \<Rightarrow> string \<Rightarrow> int \<Rightarrow> int \<Rightarrow> 's \<Rightarrow> (int \<times> 's) ub" where
  "MQTTPersistence_remove malloc c type qos msgId s =
     (case persistence c of None \<Rightarrow> Some (0, s)
      | Some p \<Rightarrow>
          if \<not> malloc (Bytes (MESSAGE_FILENAME_LENGTH + 1)) then Some (PAHO_MEMORY_ERROR, s)
          else remove_keys p (phandle c)
            (if type = PERSISTENCE_PUBLISH_SENT \<or> type = PERSISTENCE_V5_PUBLISH_SENT
             then [PERSISTENCE_V5_PUBLISH_SENT, PERSISTENCE_V5_PUBREL, PERSISTENCE_PUBLISH_SENT, PERSISTENCE_PUBREL]
             else [PERSISTENCE_V5_PUBLISH_RECEIVED, PERSISTENCE_PUBLISH_RECEIVED]) msgId 0 s)"

section \<open>Restoring packets\<close>

text \<open>The remaining length of a stored packet and the position behind it.  The products are \<open>int\<close>s: a fifth
  byte of the length, or a record that ends inside it, has no result.\<close>

fun restored_length :: "bytes \<Rightarrow> nat \<Rightarrow> nat \<Rightarrow> nat \<Rightarrow> nat \<Rightarrow> (nat \<times> nat) ub" where
  "restored_length buffer 0 i multiplier len = None"
| "restored_length buffer (Suc fuel) i multiplier len =
     do {
       c \<leftarrow> read_at buffer i;
       let len = len + unat (c AND 127) * multiplier;
       if 2 ^ 31 \<le> len \<or> 2 ^ 31 \<le> multiplier * 128 then None
       else if c AND 128 \<noteq> 0 then restored_length buffer fuel (Suc i) (multiplier * 128) len
       else Some (len, Suc i)
     }"

definition MQTTPersistence_restorePacket :: "allocator \<Rightarrow> int \<Rightarrow> bytes \<Rightarrow> MQTTPacket option ub" where
  "MQTTPersistence_restorePacket malloc MQTTVersion buffer =
     do {
       header \<leftarrow> read_at buffer 0;
       (remaining_length, i) \<leftarrow> restored_length buffer 5 1 1 0;
       let ptype = header_type header;
       if i + remaining_length = length buffer \<and> CONNECT \<le> ptype \<and> ptype \<le> DISCONNECT then
         (case new_packets malloc ! nat ptype of None \<Rightarrow> Some None
          | Some parse \<Rightarrow> parse MQTTVersion header (drop i buffer) remaining_length)
       else Some None
     }"

definition MQTTPersistence_insertInOrder :: "allocator \<Rightarrow> Messages \<Rightarrow> Messages clist \<Rightarrow> Messages clist" where
  "MQTTPersistence_insertInOrder malloc m l =
     (if \<not> malloc (Sizeof ''ListElement'') then l
      else case find_index (\<lambda>x. msg_msgid m < msg_msgid x) (cl_items l) of
          Some j \<Rightarrow> cl_insert m j l
        | None \<Rightarrow> cl_append m l)"

text \<open>The element in front of which the largest gap is, unless that is between the last and the first.\<close>

fun wrap_search :: "int \<Rightarrow> nat option \<Rightarrow> nat \<Rightarrow> int \<Rightarrow> int list \<Rightarrow> nat option" where
  "wrap_search gap wrapel i prev [] = wrapel"
| "wrap_search gap wrapel i prev (x # xs) =
     (if gap < x - prev then wrap_search (x - prev) (Some i) (Suc i) x xs else wrap_search gap wrapel (Suc i) x xs)"

definition wrap_element :: "int list \<Rightarrow> nat option" where
  "wrap_element ids =
     (case ids of [] \<Rightarrow> None
      | x # xs \<Rightarrow> wrap_search (MAX_MSG_ID - last ids + x) None 1 x xs)"

definition MQTTPersistence_wrapMsgID :: "Messages clist \<Rightarrow> Messages clist" where
  "MQTTPersistence_wrapMsgID l =
     (case wrap_element (map msg_msgid (cl_items l)) of None \<Rightarrow> l
      | Some k \<Rightarrow> \<lparr>cl_items = drop k (cl_items l) @ take k (cl_items l),
                   cl_cur = map_option (\<lambda>i. if i < k then i + (length (cl_items l) - k) else i - k) (cl_cur l)\<rparr>)"

text \<open>The version of the record and the stem that is left of its key.\<close>

definition record_kind :: "bytes \<Rightarrow> int \<times> string option" where
  "record_kind key =
     (if has_stem PERSISTENCE_V5_PUBLISH_RECEIVED key then (MQTTVERSION_5, Some PERSISTENCE_PUBLISH_RECEIVED)
      else if has_stem PERSISTENCE_V5_PUBLISH_SENT key then (MQTTVERSION_5, Some PERSISTENCE_PUBLISH_SENT)
      else if has_stem PERSISTENCE_V5_PUBREL key then (MQTTVERSION_5, Some PERSISTENCE_PUBREL)
      else if has_stem PERSISTENCE_PUBLISH_RECEIVED key then (MQTTVERSION_3_1_1, Some PERSISTENCE_PUBLISH_RECEIVED)
      else if has_stem PERSISTENCE_PUBLISH_SENT key then (MQTTVERSION_3_1_1, Some PERSISTENCE_PUBLISH_SENT)
      else if has_stem PERSISTENCE_PUBREL key then (MQTTVERSION_3_1_1, Some PERSISTENCE_PUBREL)
      else (MQTTVERSION_3_1_1, None))"

text \<open>A PUBLISH that was received with QoS 2.  Version 5 has delivered it: topic and payload are dropped.\<close>

definition restore_received ::
  "'s protocol_env \<Rightarrow> Publish \<Rightarrow> Clients \<Rightarrow> 's world \<Rightarrow> (Clients \<times> 's world) ub" where
  "restore_received E publish c w =
     do {
       let publish = publish\<lparr>publish_MQTTVersion := client_MQTTVersion c\<rparr>;
       (mm, w) \<leftarrow> MQTTProtocol_createMessage E publish None (header_qos (publish_header publish))
         (header_retain (publish_header publish)) True w;
       m \<leftarrow> mm;
       let m = m\<lparr>msg_nextMessageType := PUBREL\<rparr>;
       let c = (if pe_alloc E (Sizeof ''ListElement'') then c\<lparr>inboundMsgs := cl_append m (inboundMsgs c)\<rparr> else c);
       if 5 \<le> client_MQTTVersion c then
         do {
           (a, q) \<leftarrow> publication_at w (msg_publish m);
           Some (c, set_publication a (q\<lparr>pub_payload := None, pub_topic := None\<rparr>) w)
         }
       else Some (c, w)
     }"

text \<open>A PUBLISH that was sent; with its PUBREL in the store it waits for PUBCOMP.  The result has \<open>rc\<close> and
  whether the code jumps to \<open>exit\<close>.\<close>

definition restore_sent ::
  "'s protocol_env \<Rightarrow> 's client_store \<Rightarrow> 's MQTTClient_persistence \<Rightarrow> Publish \<Rightarrow> Clients \<Rightarrow> 's world \<Rightarrow>
   (int \<times> bool \<times> Clients \<times> 's world) ub" where
  "restore_sent E cs p publish c w =
     (if \<not> pe_alloc E (Bytes (MESSAGE_FILENAME_LENGTH + 1)) then Some (PAHO_MEMORY_ERROR, True, c, w)
      else
        let publish = publish\<lparr>publish_MQTTVersion := client_MQTTVersion c\<rparr> in
        (case message_key (if 5 \<le> client_MQTTVersion c then PERSISTENCE_V5_PUBREL else PERSISTENCE_PUBREL)
           (publish_msgId publish) of
           None \<Rightarrow> Some (MQTTCLIENT_PERSISTENCE_ERROR, False, c, w)
         | Some key \<Rightarrow>
             do {
               (mm, w) \<leftarrow> MQTTProtocol_createMessage E publish None (header_qos (publish_header publish))
                 (header_retain (publish_header publish)) True w;
               (found, s) \<leftarrow> pcontainskey p (phandle cs) key (w_outer w);
               m \<leftarrow> mm;
               let m = (if found = 0 then m\<lparr>msg_nextMessageType := PUBCOMP\<rparr> else m)\<lparr>msg_lastTouch := 0\<rparr>;
               Some (0, False, c\<lparr>outboundMsgs := MQTTPersistence_insertInOrder (pe_alloc E) m (outboundMsgs c)\<rparr>,
                 w\<lparr>w_outer := s\<rparr>)
             }))"

text \<open>A PUBREL whose PUBLISH is not in the store is removed.\<close>

definition restore_pubrel ::
  "'s protocol_env \<Rightarrow> 's client_store \<Rightarrow> 's MQTTClient_persistence \<Rightarrow> bytes \<Rightarrow> Ack \<Rightarrow> Clients \<Rightarrow> 's world \<Rightarrow>
   (int \<times> bool \<times> Clients \<times> 's world) ub" where
  "restore_pubrel E cs p msgkey pubrel c w =
     (if \<not> pe_alloc E (Bytes (MESSAGE_FILENAME_LENGTH + 1)) then Some (PAHO_MEMORY_ERROR, True, c, w)
      else do {
        msgId \<leftarrow> ack_msgId pubrel;
        (case message_key (if 5 \<le> client_MQTTVersion c then PERSISTENCE_V5_PUBLISH_SENT else PERSISTENCE_PUBLISH_SENT) msgId of
           None \<Rightarrow> Some (MQTTCLIENT_PERSISTENCE_ERROR, False, c, w)
         | Some key \<Rightarrow>
             do {
               (found, s) \<leftarrow> pcontainskey p (phandle cs) key (w_outer w);
               (rc, s) \<leftarrow> (if found \<noteq> 0 then premove p (phandle cs) msgkey s else Some (0, s));
               Some (rc, False, c, w\<lparr>w_outer := s\<rparr>)
             })
      })"

text \<open>The data of one record.  A packet of another kind than its key says has no result.\<close>

definition restore_record ::
  "'s protocol_env \<Rightarrow> 's client_store \<Rightarrow> 's MQTTClient_persistence \<Rightarrow> bytes \<Rightarrow> bytes \<Rightarrow> Clients \<Rightarrow> 's world \<Rightarrow>
   (int \<times> bool \<times> Clients \<times> 's world) ub" where
  "restore_record E cs p msgkey buffer c w =
     (case record_kind msgkey of (data_MQTTVersion, stem) \<Rightarrow>
        if data_MQTTVersion = MQTTVERSION_5 \<and> client_MQTTVersion c < 5
        then Some (MQTTCLIENT_PERSISTENCE_ERROR, True, c, w)
        else do {
          pack \<leftarrow> MQTTPersistence_restorePacket (pe_alloc E) data_MQTTVersion buffer;
          (case pack of
             None \<Rightarrow>
               do { (rc, s) \<leftarrow> premove p (phandle cs) msgkey (w_outer w); Some (rc, False, c, w\<lparr>w_outer := s\<rparr>) }
           | Some pack \<Rightarrow>
               if stem = Some PERSISTENCE_PUBLISH_RECEIVED then
                 (case pack of
                    Publish_packet publish \<Rightarrow> map_option (\<lambda>(c, w). (0, False, c, w)) (restore_received E publish c w)
                  | _ \<Rightarrow> None)
               else if stem = Some PERSISTENCE_PUBLISH_SENT then
                 (case pack of Publish_packet publish \<Rightarrow> restore_sent E cs p publish c w | _ \<Rightarrow> None)
               else if stem = Some PERSISTENCE_PUBREL then
                 (case pack of Ack_packet pubrel \<Rightarrow> restore_pubrel E cs p msgkey pubrel c w | _ \<Rightarrow> None)
               else Some (0, False, c, w))
        })"

text \<open>\<open>pget\<close> and the callback \<open>afterRead\<close>.\<close>

definition read_record ::
  "'s client_store \<Rightarrow> 's MQTTClient_persistence \<Rightarrow> bytes \<Rightarrow> 's \<Rightarrow> (int \<times> bytes option \<times> 's) ub" where
  "read_record cs p key s =
     do {
       (rc, buffer, s) \<leftarrow> pget p (phandle cs) key s;
       if rc \<noteq> 0 then Some (rc, buffer, s)
       else (case afterRead cs of
           None \<Rightarrow> Some (rc, buffer, s)
         | Some f \<Rightarrow> do { data \<leftarrow> buffer; (case f data s of (rc, data, s) \<Rightarrow> Some (rc, Some data, s)) })
     }"

definition restore_key ::
  "'s protocol_env \<Rightarrow> 's client_store \<Rightarrow> 's MQTTClient_persistence \<Rightarrow> bytes \<Rightarrow> Clients \<Rightarrow> 's world \<Rightarrow>
   (int \<times> bool \<times> Clients \<times> 's world) ub" where
  "restore_key E cs p msgkey c w =
     (if has_stem PERSISTENCE_COMMAND_KEY msgkey \<or> has_stem PERSISTENCE_V5_COMMAND_KEY msgkey \<or>
         has_stem PERSISTENCE_QUEUE_KEY msgkey \<or> has_stem PERSISTENCE_V5_QUEUE_KEY msgkey
      then Some (0, False, c, w)
      else do {
        (rc, buffer, s) \<leftarrow> read_record cs p msgkey (w_outer w);
        let w = w\<lparr>w_outer := s\<rparr>;
        if rc = 0 then do { data \<leftarrow> buffer; restore_record E cs p msgkey data c w } else Some (rc, False, c, w)
      })"

fun restore_loop ::
  "'s protocol_env \<Rightarrow> 's client_store \<Rightarrow> 's MQTTClient_persistence \<Rightarrow> bytes list \<Rightarrow> Clients \<Rightarrow> 's world \<Rightarrow>
   (int \<times> bool \<times> Clients \<times> 's world) ub" where
  "restore_loop E cs p [] c w = Some (0, False, c, w)"
| "restore_loop E cs p (key # keys) c w =
     do {
       (rc, exit, c, w) \<leftarrow> restore_key E cs p key c w;
       if rc = 0 \<and> \<not> exit then restore_loop E cs p keys c w else Some (rc, exit, c, w)
     }"

text \<open>A jump to \<open>exit\<close> leaves out \<open>MQTTPersistence_wrapMsgID\<close>.\<close>

definition MQTTPersistence_restorePackets ::
  "'s protocol_env \<Rightarrow> 's client_store \<Rightarrow> Clients \<Rightarrow> 's world \<Rightarrow> (int \<times> Clients \<times> 's world) ub" where
  "MQTTPersistence_restorePackets E cs c w =
     do {
       (rc, exit, c, w) \<leftarrow> (case persistence cs of
           None \<Rightarrow> Some (0, False, c, w)
         | Some p \<Rightarrow>
             do {
               (rc, keys, s) \<leftarrow> pkeys p (phandle cs) (w_outer w);
               let w = w\<lparr>w_outer := s\<rparr>;
               if rc = 0 then do { keys \<leftarrow> keys; restore_loop E cs p keys c w } else Some (rc, False, c, w)
             });
       Some (rc, if exit then c else c\<lparr>outboundMsgs := MQTTPersistence_wrapMsgID (outboundMsgs c)\<rparr>, w)
     }"

definition MQTTPersistence_initialize ::
  "'s protocol_env \<Rightarrow> bytes \<Rightarrow> 's client_store \<Rightarrow> Clients \<Rightarrow> 's world \<Rightarrow>
   (int \<times> 's client_store \<times> Clients \<times> 's world) ub" where
  "MQTTPersistence_initialize E uri cs c w =
     (case persistence cs of
        None \<Rightarrow> Some (0, cs, c, w)
      | Some p \<Rightarrow>
          do {
            (rc, h, s) \<leftarrow> popen p (clientID c) uri (per_context p) (w_outer w);
            let cs = (case h of None \<Rightarrow> cs | Some d \<Rightarrow> cs\<lparr>phandle := h\<rparr>);
            let w = w\<lparr>w_outer := s\<rparr>;
            if rc = 0
            then map_option (\<lambda>(rc, c, w). (rc, cs, c, w)) (MQTTPersistence_restorePackets E cs c w)
            else Some (rc, cs, c, w)
          })"

section \<open>The queue of received messages\<close>

text \<open>An \<open>int\<close> in memory, with the low byte first.\<close>

definition int_bytes :: "int \<Rightarrow> bytes" where
  "int_bytes i = rev (be_bytes 4 (nat (i mod 2 ^ 32)))"

definition read_int :: "bytes \<Rightarrow> nat \<Rightarrow> (int \<times> nat) ub" where
  "read_int buffer p =
     (if p + 4 \<le> length buffer
      then Some (sint (of_nat (be_nat (rev (take 4 (drop p buffer)))) :: 32 word), p + 4) else None)"

definition MQTTPersistence_unpersistQueueEntry ::
  "'s client_store \<Rightarrow> int \<Rightarrow> MQTTPersistence_qEntry \<Rightarrow> 's \<Rightarrow> (int \<times> 's) ub" where
  "MQTTPersistence_unpersistQueueEntry c MQTTVersion qe s =
     do {
       key \<leftarrow> queue_key (if 5 \<le> MQTTVersion then PERSISTENCE_V5_QUEUE_KEY else PERSISTENCE_QUEUE_KEY) (qe_seqno qe);
       (case key of
          None \<Rightarrow> Some (MQTTCLIENT_PERSISTENCE_ERROR, s)
        | Some key \<Rightarrow> do { p \<leftarrow> persistence c; premove p (phandle c) key s })
     }"

definition entry_buffers :: "MQTTPersistence_qEntry \<Rightarrow> (bytes option \<times> int) list" where
  "entry_buffers qe =
     (let m = qe_msg qe in
      [(Some (int_bytes (pm_payloadlen m)), 4), (Some (pm_payload m), pm_payloadlen m),
       (Some (int_bytes (pm_qos m)), 4), (Some (int_bytes (pm_retained m)), 4), (Some (int_bytes (pm_dup m)), 4),
       (Some (int_bytes (pm_msgid m)), 4), (Some (qe_topicName qe @ [0]), strlen_int (qe_topicName qe) + 1),
       (Some (int_bytes (qe_topicLen qe)), 4)])"

definition entry_properties :: "MQTTPersistence_qEntry \<Rightarrow> MQTTProperties" where
  "entry_properties qe =
     (if 1 \<le> pm_struct_version (qe_msg qe) then pm_properties (qe_msg qe) else MQTTProperties_initializer)"

text \<open>In version 5 \<open>rc\<close> is what \<open>MQTTProperties_write\<close> returned, unless \<open>beforeWrite\<close> overwrites it.\<close>

definition store_entry ::
  "'s client_store \<Rightarrow> MQTTPersistence_qEntry \<Rightarrow> bytes option \<Rightarrow> (bytes option \<times> int) list \<Rightarrow> int \<Rightarrow> 's \<Rightarrow>
   (int \<times> MQTTPersistence_qEntry \<times> 's) ub" where
  "store_entry c qe key bufs rc s =
     (case key of
        None \<Rightarrow> Some (MQTTCLIENT_PERSISTENCE_ERROR, qe, s)
      | Some key \<Rightarrow>
          (case (case beforeWrite c of None \<Rightarrow> (rc, bufs, s) | Some f \<Rightarrow> f bufs s) of
             (rc, bufs, s) \<Rightarrow>
               do {
                 (rc, s) \<leftarrow> (if rc = 0
                   then do { p \<leftarrow> persistence c; pput p (phandle c) key bufs s } else Some (rc, s));
                 Some (rc, qe\<lparr>qe_seqno := qentry_seqno c\<rparr>, s)
               }))"

definition MQTTPersistence_persistQueueEntry ::
  "allocator \<Rightarrow> byte \<Rightarrow> 's client_store \<Rightarrow> int \<Rightarrow> MQTTPersistence_qEntry \<Rightarrow> 's \<Rightarrow>
   (int \<times> MQTTPersistence_qEntry \<times> 's client_store \<times> 's) ub" where
  "MQTTPersistence_persistQueueEntry malloc junk c MQTTVersion qe s =
     (let seqno = qentry_seqno c + 1;
          c = c\<lparr>qentry_seqno := (if seqno = PERSISTENCE_SEQNO_LIMIT then 0 else seqno)\<rparr>
      in if 5 \<le> MQTTVersion then
           let props = entry_properties qe; temp_len = MQTTProperties_len (Some props) in
           if \<not> malloc (Bytes (to_size temp_len)) then Some (PAHO_MEMORY_ERROR, qe, c, s)
           else do {
             (rc, block, n) \<leftarrow> MQTTProperties_write (Some props) (replicate (to_size temp_len) junk, 0);
             key \<leftarrow> queue_key PERSISTENCE_V5_QUEUE_KEY (qentry_seqno c);
             (rc, qe, s) \<leftarrow> store_entry c qe key (entry_buffers qe @ [(Some block, temp_len)]) rc s;
             Some (rc, qe, c, s)
           }
         else do {
           key \<leftarrow> queue_key PERSISTENCE_QUEUE_KEY (qentry_seqno c);
           (rc, qe, s) \<leftarrow> store_entry c qe key (entry_buffers qe) 0 s;
           Some (rc, qe, c, s)
         })"

text \<open>The string at a position of the buffer and the position behind its terminating zero.\<close>

definition read_string :: "bytes \<Rightarrow> nat \<Rightarrow> (bytes \<times> nat) ub" where
  "read_string buffer p =
     (case strchr (drop p buffer) 0 of None \<Rightarrow> None | Some n \<Rightarrow> Some (take n (drop p buffer), p + n + 1))"

definition MQTTPersistence_restoreQueueEntry ::
  "allocator \<Rightarrow> bytes \<Rightarrow> int \<Rightarrow> MQTTPersistence_qEntry option ub" where
  "MQTTPersistence_restoreQueueEntry malloc buffer MQTTVersion =
     (if \<not> malloc (Sizeof ''MQTTPersistence_qEntry'') \<or> \<not> malloc (Sizeof ''MQTTPersistence_message'') then Some None
      else do {
        (payloadlen, ptr) \<leftarrow> read_int buffer 0;
        if \<not> malloc (Bytes (to_size payloadlen)) then Some None
        else if length buffer < ptr + to_size payloadlen then None
        else do {
          let payload = take (to_size payloadlen) (drop ptr buffer);
          (qos, ptr) \<leftarrow> read_int buffer (ptr + to_size payloadlen);
          (retained, ptr) \<leftarrow> read_int buffer ptr;
          (dup, ptr) \<leftarrow> read_int buffer ptr;
          (msgid, ptr) \<leftarrow> read_int buffer ptr;
          (topicName, ptr) \<leftarrow> read_string buffer ptr;
          if \<not> malloc (Bytes (length topicName + 1)) then Some None
          else do {
            (topicLen, ptr) \<leftarrow> read_int buffer ptr;
            props \<leftarrow> (if 5 \<le> MQTTVersion
              then map_option (\<lambda>(rc, props, p). props)
                (MQTTProperties_read malloc MQTTProperties_initializer buffer ptr (length buffer))
              else Some MQTTProperties_initializer);
            Some (Some \<lparr>qe_msg = \<lparr>pm_struct_version = 1, pm_payloadlen = payloadlen, pm_payload = payload,
                pm_qos = qos, pm_retained = retained, pm_dup = dup, pm_msgid = msgid, pm_properties = props\<rparr>,
              qe_topicName = topicName, qe_topicLen = topicLen, qe_seqno = 0\<rparr>)
          }
        }
      })"

definition MQTTPersistence_insertInSeqOrder ::
  "allocator \<Rightarrow> MQTTPersistence_qEntry \<Rightarrow> MQTTPersistence_qEntry clist \<Rightarrow> MQTTPersistence_qEntry clist" where
  "MQTTPersistence_insertInSeqOrder malloc qe l =
     (if \<not> malloc (Sizeof ''ListElement'') then l
      else case find_index (\<lambda>x. qe_seqno qe < qe_seqno x) (cl_items l) of
          Some j \<Rightarrow> cl_insert qe j l
        | None \<Rightarrow> cl_append qe l)"

text \<open>The entry of one key; without memory for it the entry is left out.\<close>

definition restore_entry ::
  "allocator \<Rightarrow> 's MQTTClient_persistence \<Rightarrow> bytes \<Rightarrow> 's client_store \<Rightarrow> 's \<Rightarrow> (int \<times> 's client_store \<times> 's) ub" where
  "restore_entry malloc p msgkey c s =
     (if \<not> has_stem PERSISTENCE_QUEUE_KEY msgkey \<and> \<not> has_stem PERSISTENCE_V5_QUEUE_KEY msgkey then Some (0, c, s)
      else do {
        (rc, buffer, s) \<leftarrow> read_record c p msgkey s;
        if rc \<noteq> 0 then Some (rc, c, s)
        else do {
          data \<leftarrow> buffer;
          qe \<leftarrow> MQTTPersistence_restoreQueueEntry malloc data
            (if has_stem PERSISTENCE_V5_QUEUE_KEY msgkey then MQTTVERSION_5 else MQTTVERSION_3_1_1);
          (case qe of
             None \<Rightarrow> Some (0, c, s)
           | Some qe \<Rightarrow>
               do {
                 dash \<leftarrow> strchr msgkey 0x2D;
                 n \<leftarrow> atoi (drop (dash + 1) msgkey);
                 let qe = qe\<lparr>qe_seqno := of_int n\<rparr>;
                 Some (0, c\<lparr>messageQueue := MQTTPersistence_insertInSeqOrder malloc qe (messageQueue c),
                   qentry_seqno := max (qentry_seqno c) (qe_seqno qe)\<rparr>, s)
               })
        }
      })"

fun restore_entries ::
  "allocator \<Rightarrow> 's MQTTClient_persistence \<Rightarrow> bytes list \<Rightarrow> 's client_store \<Rightarrow> 's \<Rightarrow> (int \<times> 's client_store \<times> 's) ub" where
  "restore_entries malloc p [] c s = Some (0, c, s)"
| "restore_entries malloc p (key # keys) c s =
     do {
       (rc, c, s) \<leftarrow> restore_entry malloc p key c s;
       if rc = 0 then restore_entries malloc p keys c s else Some (rc, c, s)
     }"

definition MQTTPersistence_restoreMessageQueue ::
  "allocator \<Rightarrow> 's client_store \<Rightarrow> 's \<Rightarrow> (int \<times> 's client_store \<times> 's) ub" where
  "MQTTPersistence_restoreMessageQueue malloc c s =
     (case persistence c of
        None \<Rightarrow> Some (0, c, s)
      | Some p \<Rightarrow>
          do {
            (rc, keys, s) \<leftarrow> pkeys p (phandle c) s;
            if rc = 0 then do { keys \<leftarrow> keys; restore_entries malloc p keys c s } else Some (rc, c, s)
          })"

end
