(* ===== verification/RecoveryOrder.thy ===== *)
theory RecoveryOrder
  imports Persistence MessageIds "HOL-Library.Multiset"
begin

text \<open>
  The order of the restored messages.  The records of a store come in any order;
  \<open>MQTTPersistence_insertInOrder\<close> sorts them by identifier and \<open>MQTTPersistence_wrapMsgID\<close> turns the list at
  its largest gap.  When the messages in flight were given identifiers on an arc of at most 32767 of the
  65535 identifiers, that is the order in which they were sent.
\<close>

section \<open>Sorting\<close>

lemma insert_at_index:
  assumes "f x \<notin> f ` set xs"
  shows "(case find_index (\<lambda>y. f x < f y) xs of Some j \<Rightarrow> take j xs @ x # drop j xs | None \<Rightarrow> xs @ [x]) =
    insort_key (f :: 'a \<Rightarrow> 'b :: linorder) x xs"
  using assms
proof (induction xs)
  case (Cons y ys)
  then have "f x \<noteq> f y" by auto
  then show ?case using Cons by (auto split: option.split)
qed simp

lemma insertInOrder_items:
  assumes "msg_msgid m \<notin> msg_msgid ` set (cl_items l)"
  shows "cl_items (MQTTPersistence_insertInOrder always_alloc m l) = insort_key msg_msgid m (cl_items l)"
  unfolding insert_at_index [OF assms, symmetric]
  by (simp add: MQTTPersistence_insertInOrder_def cl_insert_def cl_append_def split: option.split)

lemma map_insort_key: "map f (insort_key f x xs) = insort (f x) (map f xs)"
  by (induction xs) auto

section \<open>Turning\<close>

lemma wrap_search_keeps:
  "sorted (prev # xs) \<Longrightarrow> last (prev # xs) - prev \<le> gap \<Longrightarrow> wrap_search gap w i prev xs = w"
proof (induction xs arbitrary: i prev)
  case (Cons x xs)
  have "x \<le> last (x # xs)" using Cons.prems(1) by (cases xs rule: rev_cases) (auto simp: sorted_wrt_append)
  then show ?case using Cons by auto
qed simp

lemma wrap_search_finds:
  assumes "sorted (prev # as)" "last (prev # as) - prev < b - last (prev # as)" "gap < b - last (prev # as)"
    "sorted (b # bs)" "last (b # bs) - b \<le> b - last (prev # as)"
  shows "wrap_search gap w i prev (as @ b # bs) = Some (i + length as)"
  using assms
proof (induction as arbitrary: prev gap w i)
  case Nil
  then show ?case by (simp add: wrap_search_keeps del: last.simps) (simp add: wrap_search_keeps)
next
  case (Cons c as)
  have "c \<le> last (c # as)" using Cons.prems(1) by (cases as rule: rev_cases) (auto simp: sorted_wrt_append)
  moreover have "prev \<le> c" using Cons.prems(1) by simp
  ultimately show ?case using Cons.IH [of c] Cons.prems by simp
qed

lemma sorted_head_last: "sorted xs \<Longrightarrow> xs \<noteq> [] \<Longrightarrow> x \<in> set xs \<Longrightarrow> hd xs \<le> x \<and> (x :: int) \<le> last xs"
  by (induction xs) (auto simp: last_in_set)

text \<open>The sorted identifiers \<open>vs @ us\<close> of a sequence that was sent as \<open>us @ vs\<close>.\<close>

lemma wrap_element_keeps:
  assumes "sorted us" "last us - hd us < 32767"
  shows "wrap_element us = None"
proof (cases us)
  case (Cons u us')
  then show ?thesis
    using assms wrap_search_keeps [of u us' "MAX_MSG_ID - last us + u" None 1] by (simp add: wrap_element_def)
qed (simp add: wrap_element_def)

lemma wrap_element_finds:
  assumes "sorted (vs @ us)" "us \<noteq> []" "vs \<noteq> []" "last vs + MAX_MSG_ID - hd us < 32767" "set (vs @ us) \<subseteq> {1..MAX_MSG_ID}"
  shows "wrap_element (vs @ us) = Some (length vs)"
proof -
  obtain u us' where us: "us = u # us'" using assms(2) by (cases us) auto
  obtain v vs' where vs: "vs = v # vs'" using assms(3) by (cases vs) auto
  have s: "sorted (v # vs')" "sorted (u # us')" "\<forall>x \<in> set vs. \<forall>y \<in> set us. x \<le> y"
    using assms(1) by (auto simp: us vs sorted_append)
  have l: "last vs \<in> set vs" "last us \<in> set us" using assms(2,3) by simp_all
  have "v \<le> last vs" "u \<le> last us" using sorted_head_last [of vs "last vs"] sorted_head_last [of us "last us"] s l by (auto simp: us vs)
  moreover have "1 \<le> v" "last us \<le> 65535" using assms(5) l by (auto simp: vs)
  moreover have e: "last (v # vs') = last vs" "last (u # us') = last us" "hd us = u" by (simp_all add: us vs)
  ultimately have "wrap_search (MAX_MSG_ID - last us + v) None 1 v (vs' @ u # us') = Some (1 + length vs')"
    using assms(4) by (intro wrap_search_finds) (use s(1,2) e in \<open>fastforce\<close>)+
  moreover have "last (vs @ us) = last us" using assms(2) by simp
  ultimately show ?thesis by (simp add: wrap_element_def us vs)
qed

text \<open>The identifiers in the order of their assignment: first those up to 65535, then those from 1 on.\<close>

lemma assigned_ids_split:
  assumes "sorted_wrt (<) offs" "offs \<noteq> []" "last offs - hd offs < 32767" "1 \<le> start"
  obtains us vs where "map (nth_msgid start) offs = us @ vs" "us \<noteq> []" "sorted us" "sorted vs"
    "\<forall>x \<in> set vs. \<forall>y \<in> set us. x < y"
    "(if vs = [] then last us - hd us else last vs + MAX_MSG_ID - hd us) = int (last offs) - int (hd offs)"
proof -
  have span: "int (last offs) < int (hd offs) + 32767" using assms(3) by linarith
  define g where "g n = start - 1 + int n" for n
  define q where "q = g (hd offs) div 65535"
  have nth: "nth_msgid start n = g n mod 65535 + 1" for n by (simp add: nth_msgid_def g_def)
  have s: "sorted offs" using assms(1) by (simp add: strict_sorted_iff)
  have hl: "hd offs \<le> n \<and> n \<le> last offs" if "n \<in> set offs" for n
    using s assms(2) that by (induction offs) (auto simp: last_in_set split: if_splits)
  have r: "q * 65535 \<le> g n" "g n < (q + 1) * 65535 + 32767" if "n \<in> set offs" for n
  proof -
    have "g (hd offs) = q * 65535 + g (hd offs) mod 65535" by (simp add: q_def)
    moreover have "0 \<le> g (hd offs) mod 65535" "g (hd offs) mod 65535 < 65535" by simp_all
    ultimately show "q * 65535 \<le> g n" "g n < (q + 1) * 65535 + 32767"
      using hl [OF that] assms(3) by (auto simp: g_def)
  qed
  define low where "low n \<longleftrightarrow> g n < (q + 1) * 65535" for n
  have v: "nth_msgid start n = g n - (if low n then q else q + 1) * 65535 + 1" if "n \<in> set offs" for n
  proof -
    define p where "p = (if low n then q else q + 1)"
    have "0 \<le> g n - p * 65535" "g n - p * 65535 < 65535" using r [OF that] by (auto simp: p_def low_def)
    then have "(g n - p * 65535) mod 65535 = g n - p * 65535" by (rule mod_pos_pos_trivial)
    moreover have "(g n - p * 65535) mod 65535 = g n mod 65535" by (simp add: mod_eq_dvd_iff)
    ultimately show ?thesis by (simp add: nth p_def)
  qed
  define A where "A = takeWhile low offs"
  define B where "B = dropWhile low offs"
  have AB: "offs = A @ B" by (simp add: A_def B_def)
  have A: "low n" "n \<in> set offs" if "n \<in> set A" for n using that unfolding A_def by (auto dest: set_takeWhileD)
  have "hd offs \<in> set offs" using assms(2) by simp
  have "g (hd offs) = q * 65535 + g (hd offs) mod 65535" "g (hd offs) mod 65535 < 65535" by (simp_all add: q_def)
  then have "low (hd offs)" by (simp add: low_def)
  then have ne: "A \<noteq> []" using assms(2) by (cases offs) (auto simp: A_def)
  have sAB: "sorted A" "sorted B" using s unfolding AB by (simp_all add: sorted_append)
  have B: "\<not> low n" "n \<in> set offs" if "n \<in> set B" for n
  proof -
    have b: "B \<noteq> []" using that by auto
    then have "\<not> low (hd B)" unfolding B_def by (rule hd_dropWhile)
    moreover have "hd B \<le> n" using sAB(2) that b by (cases B) auto
    ultimately show "\<not> low n" by (simp add: low_def g_def)
    show "n \<in> set offs" using that unfolding AB by simp
  qed
  let ?us = "map (\<lambda>n. g n - q * 65535 + 1) A" and ?vs = "map (\<lambda>n. g n - (q + 1) * 65535 + 1) B"
  have e: "map (nth_msgid start) offs = ?us @ ?vs" unfolding AB using A B v by simp
  show thesis
  proof (rule that [OF e])
    show "sorted ?us" "sorted ?vs" using sAB by (simp_all add: sorted_map g_def)
    show "\<forall>x \<in> set ?vs. \<forall>y \<in> set ?us. x < y"
    proof (intro ballI)
      fix x y assume "x \<in> set ?vs" "y \<in> set ?us"
      then obtain m n where mn: "m \<in> set B" "x = g m - (q + 1) * 65535 + 1" "n \<in> set A" "y = g n - q * 65535 + 1" by auto
      then show "x < y" using hl [OF B(2) [OF mn(1)]] hl [OF A(2) [OF mn(3)]] span by (simp add: g_def)
    qed
    have h: "hd offs = hd A" using ne by (simp add: AB)
    show "(if ?vs = [] then last ?us - hd ?us else last ?vs + MAX_MSG_ID - hd ?us) = int (last offs) - int (hd offs)"
    proof (cases "B = []")
      case True
      then show ?thesis using ne by (simp add: AB h last_map hd_map g_def)
    next
      case False
      then show ?thesis using ne by (simp add: AB last_map hd_map g_def)
    qed
  qed (use ne in simp)
qed

text \<open>Identifiers that were assigned one after the other, \<open>offs\<close> rounds after \<open>start\<close>.\<close>

definition sent_in_order :: "int list \<Rightarrow> bool" where
  "sent_in_order ids \<longleftrightarrow> (\<exists>start offs. 1 \<le> start \<and> ids = map (nth_msgid start) offs \<and> sorted_wrt (<) offs \<and>
     (offs \<noteq> [] \<longrightarrow> last offs - hd offs < 32767))"

lemma wrapMsgID_order:
  assumes "sent_in_order ids" "sorted (map msg_msgid (cl_items l))" "distinct (map msg_msgid (cl_items l))"
    "set (map msg_msgid (cl_items l)) = set ids"
  shows "map msg_msgid (cl_items (MQTTPersistence_wrapMsgID l)) = ids"
proof -
  obtain start offs where o: "1 \<le> start" "ids = map (nth_msgid start) offs" "sorted_wrt (<) offs"
    "offs \<noteq> [] \<longrightarrow> last offs - hd offs < 32767"
    using assms(1) by (auto simp: sent_in_order_def)
  show ?thesis
  proof (cases "offs = []")
    case True
    then show ?thesis using assms(4) o(2) by (simp add: MQTTPersistence_wrapMsgID_def wrap_element_def)
  next
    case False
    obtain us vs where uv: "map (nth_msgid start) offs = us @ vs" "us \<noteq> []" "sorted us" "sorted vs"
      "\<forall>x \<in> set vs. \<forall>y \<in> set us. x < y"
      "(if vs = [] then last us - hd us else last vs + MAX_MSG_ID - hd us) = int (last offs) - int (hd offs)"
      using assigned_ids_split [OF o(3) False _ o(1)] o(4) False by blast
    have span: "(if vs = [] then last us - hd us else last vs + MAX_MSG_ID - hd us) < 32767"
      unfolding uv(6) using o(4) False by simp
    have r: "set (vs @ us) \<subseteq> {1..MAX_MSG_ID}"
    proof -
      have "set (vs @ us) = nth_msgid start ` set offs" using arg_cong [OF uv(1), of set] by auto
      then show ?thesis using nth_msgid_range [of start] by (simp only:) blast
    qed
    have d: "distinct (us @ vs)"
    proof -
      have "inj_on (nth_msgid start) (set offs)"
      proof (rule inj_onI)
        fix m n assume mn: "m \<in> set offs" "n \<in> set offs" "nth_msgid start m = nth_msgid start n"
        have hl: "hd offs \<le> n \<and> n \<le> last offs" if "n \<in> set offs" for n
          using strict_sorted_imp_sorted [OF o(3)] False that by (induction offs) (auto simp: last_in_set split: if_splits)
        have "int (last offs) < int (hd offs) + 32767" using o(4) False by linarith
        then have "\<bar>int m - int n\<bar> < 65535" using hl [OF mn(1)] hl [OF mn(2)] by linarith
        moreover have "65535 dvd (start - 1 + int m) - (start - 1 + int n)"
          using mn(3) by (simp add: nth_msgid_def mod_eq_dvd_iff)
        then have "int m - int n = 0 \<or> 65535 \<le> \<bar>int m - int n\<bar>" 
          using dvd_imp_le_int [of "int m - int n" 65535] by fastforce
        ultimately show "m = n" by linarith
      qed
      then show ?thesis using o(3) unfolding uv(1) [symmetric] by (simp add: distinct_map strict_sorted_iff)
    qed
    have sv: "sorted (vs @ us)" using uv(3-5) by (auto simp: sorted_append intro: less_imp_le)
    have ids: "map msg_msgid (cl_items l) = vs @ us"
      by (rule sorted_distinct_set_unique [OF assms(2,3) sv]) (use d assms(4) o(2) uv(1) in auto)
    show ?thesis
    proof (cases "vs = []")
      case True
      then show ?thesis using wrap_element_keeps [OF uv(3)] span ids o(2) uv(1)
        by (simp add: MQTTPersistence_wrapMsgID_def)
    next
      case False
      then have w: "wrap_element (vs @ us) = Some (length vs)" using wrap_element_finds [OF sv uv(2) False _ r] span by simp
      have "drop (length vs) (map msg_msgid (cl_items l)) @ take (length vs) (map msg_msgid (cl_items l)) = us @ vs"
        by (simp add: ids)
      then have "map msg_msgid (drop (length vs) (cl_items l)) @ map msg_msgid (take (length vs) (cl_items l)) = us @ vs"
        by (simp only: drop_map take_map)
      then show ?thesis using w ids o(2) uv(1) by (simp add: MQTTPersistence_wrapMsgID_def)
    qed
  qed
qed

lemma wrapMsgID_set: "set (cl_items (MQTTPersistence_wrapMsgID l)) = set (cl_items l)"
proof (cases "wrap_element (map msg_msgid (cl_items l))")
  case (Some k)
  have "set (drop k xs) \<union> set (take k xs) = set xs" for xs :: "Messages list"
    by (metis append_take_drop_id set_append sup_commute)
  then show ?thesis using Some by (simp add: MQTTPersistence_wrapMsgID_def)
qed (simp add: MQTTPersistence_wrapMsgID_def)

lemma wrapMsgID_distinct:
  "distinct (map msg_msgid (cl_items (MQTTPersistence_wrapMsgID l))) = distinct (map msg_msgid (cl_items l))"
proof (cases "wrap_element (map msg_msgid (cl_items l))")
  case (Some k)
  have "mset (drop k xs @ take k xs) = mset xs" for xs :: "int list"
    by (metis append_take_drop_id mset_append add.commute)
  then have "distinct (drop k xs @ take k xs) = distinct xs" for xs :: "int list" by (metis mset_eq_imp_distinct_iff)
  from this [of "map msg_msgid (cl_items l)"] show ?thesis
    using Some by (simp only: MQTTPersistence_wrapMsgID_def option.case clist.select_convs map_append drop_map take_map)
qed (simp add: MQTTPersistence_wrapMsgID_def)

end
