(* ===== verification/StoreRecords.thy ===== *)
theory StoreRecords
  imports Persistence
begin

text \<open>
  The records a store holds for the messages in flight.  \<open>message_store\<close> is what \<open>MQTTPersistence.c\<close> relies on of
  a store: a map from keys to bytes.  Over it, each call that stores or removes a record changes the
  abstract contents \<open>in_store\<close> as it should.  The files of \<open>FileStore\<close> are such a store.
\<close>

section \<open>Keys\<close>

definition sent_key :: "int \<Rightarrow> int \<Rightarrow> bytes" where
  "sent_key v n = bytes_of (packet_stem PUBLISH False v) @ dec_int n"

definition pubrel_key :: "int \<Rightarrow> int \<Rightarrow> bytes" where
  "pubrel_key v n = bytes_of (packet_stem PUBREL False v) @ dec_int n"

definition received_key :: "int \<Rightarrow> int \<Rightarrow> bytes" where
  "received_key v n = bytes_of (packet_stem PUBLISH True v) @ dec_int n"

lemmas record_keys = sent_key_def pubrel_key_def received_key_def

lemma bytes_of_stems:
  "bytes_of ''s-'' = [0x73, 0x2D]" "bytes_of ''s5-'' = [0x73, 0x35, 0x2D]" "bytes_of ''sc-'' = [0x73, 0x63, 0x2D]"
  "bytes_of ''sc5-'' = [0x73, 0x63, 0x35, 0x2D]" "bytes_of ''r-'' = [0x72, 0x2D]" "bytes_of ''r5-'' = [0x72, 0x35, 0x2D]"
  "bytes_of ''c-'' = [0x63, 0x2D]" "bytes_of ''c5-'' = [0x63, 0x35, 0x2D]" "bytes_of ''q-'' = [0x71, 0x2D]"
  "bytes_of ''q5-'' = [0x71, 0x35, 0x2D]"
  by (simp_all add: bytes_of_def)

lemma dec_int_pos: "0 \<le> n \<Longrightarrow> dec_int n = dec_bytes (nat n)"
  by (simp add: dec_int_def)

lemma record_keys_eq:
  assumes "0 \<le> i" "0 \<le> j"
  shows "sent_key v i = sent_key v j \<longleftrightarrow> i = j" "pubrel_key v i = pubrel_key v j \<longleftrightarrow> i = j"
    "received_key v i = received_key v j \<longleftrightarrow> i = j"
    "sent_key v i \<noteq> pubrel_key v j" "sent_key v i \<noteq> received_key v j" "pubrel_key v i \<noteq> received_key v j"
    "pubrel_key v i \<noteq> sent_key v j" "received_key v i \<noteq> sent_key v j" "received_key v i \<noteq> pubrel_key v j"
  using assms by (auto simp: record_keys packet_stem_def key_stems dec_int_pos nat_eq_iff2 bytes_of_stems)

lemma stem_key_ok:
  assumes "0 \<le> n" "stem \<in> {''s-'', ''s5-'', ''sc-'', ''sc5-'', ''r-'', ''r5-''}"
  shows "key_ok (bytes_of stem @ dec_int n)"
  using assms isdigit_dec_bytes by (auto simp: key_ok_def key_char_def isdigit_def dec_int_pos bytes_of_stems)

lemma record_keys_ok:
  assumes "0 \<le> n"
  shows "key_ok (sent_key v n)" "key_ok (pubrel_key v n)" "key_ok (received_key v n)"
  by (simp_all add: record_keys packet_stem_def key_stems stem_key_ok [OF assms])

text \<open>The identifiers whose keys fit.\<close>

definition id_limit :: "int \<Rightarrow> int" where
  "id_limit v = (if 5 \<le> v then 9999 else 65535)"

lemma message_key_fits:
  assumes "0 \<le> n" "length stem + length (dec_bytes (nat n)) \<le> 8"
  shows "message_key stem n = Some (bytes_of stem @ dec_int n)"
  using assms by (simp add: message_key_def dec_int_pos)

lemma dec_length:
  "0 \<le> n \<Longrightarrow> n \<le> 65535 \<Longrightarrow> length (dec_bytes (nat n)) \<le> 5"
  "0 \<le> n \<Longrightarrow> n \<le> 9999 \<Longrightarrow> length (dec_bytes (nat n)) \<le> 4"
  using length_dec_bytes [of "nat n" 4] length_dec_bytes [of "nat n" 3] by auto

lemma message_key_record:
  assumes "0 \<le> n" "n \<le> id_limit v"
  shows "message_key (packet_stem PUBLISH False v) n = Some (sent_key v n)"
    "message_key (packet_stem PUBREL False v) n = Some (pubrel_key v n)"
    "message_key (packet_stem PUBLISH True v) n = Some (received_key v n)"
  unfolding record_keys using assms dec_length [OF assms(1)]
  by (auto simp: message_key_def packet_stem_def key_stems id_limit_def dec_int_pos split: if_splits)

lemma message_key_removed:
  assumes "0 \<le> n" "n \<le> 9999" "stem \<in> {''s-'', ''s5-'', ''sc-'', ''sc5-'', ''r-'', ''r5-''}"
  shows "message_key stem n = Some (bytes_of stem @ dec_int n)"
  using assms dec_length(2) [OF assms(1,2)] by (intro message_key_fits) auto

lemma message_key_received:
  assumes "0 \<le> n" "n \<le> 65535" "stem \<in> {''r-'', ''r5-''}"
  shows "message_key stem n = Some (bytes_of stem @ dec_int n)"
  using assms dec_length(1) [OF assms(1,2)] by (intro message_key_fits) auto

lemma record_kind_keys:
  "0 \<le> n \<Longrightarrow> record_kind (sent_key v n) = (if 5 \<le> v then MQTTVERSION_5 else MQTTVERSION_3_1_1, Some PERSISTENCE_PUBLISH_SENT)"
  "0 \<le> n \<Longrightarrow> record_kind (pubrel_key v n) = (if 5 \<le> v then MQTTVERSION_5 else MQTTVERSION_3_1_1, Some PERSISTENCE_PUBREL)"
  "0 \<le> n \<Longrightarrow> record_kind (received_key v n) = (if 5 \<le> v then MQTTVERSION_5 else MQTTVERSION_3_1_1, Some PERSISTENCE_PUBLISH_RECEIVED)"
  by (simp_all add: record_kind_def has_stem_def record_keys packet_stem_def key_stems bytes_of_stems)

lemma record_keys_restored:
  "\<not> has_stem PERSISTENCE_COMMAND_KEY (sent_key v n)" "\<not> has_stem PERSISTENCE_V5_COMMAND_KEY (sent_key v n)"
  "\<not> has_stem PERSISTENCE_QUEUE_KEY (sent_key v n)" "\<not> has_stem PERSISTENCE_V5_QUEUE_KEY (sent_key v n)"
  "\<not> has_stem PERSISTENCE_COMMAND_KEY (pubrel_key v n)" "\<not> has_stem PERSISTENCE_V5_COMMAND_KEY (pubrel_key v n)"
  "\<not> has_stem PERSISTENCE_QUEUE_KEY (pubrel_key v n)" "\<not> has_stem PERSISTENCE_V5_QUEUE_KEY (pubrel_key v n)"
  "\<not> has_stem PERSISTENCE_COMMAND_KEY (received_key v n)" "\<not> has_stem PERSISTENCE_V5_COMMAND_KEY (received_key v n)"
  "\<not> has_stem PERSISTENCE_QUEUE_KEY (received_key v n)" "\<not> has_stem PERSISTENCE_V5_QUEUE_KEY (received_key v n)"
  by (simp_all add: has_stem_def record_keys packet_stem_def key_stems bytes_of_stems)

section \<open>Records\<close>

text \<open>A message in flight: the packet, the flags of its header byte, and its properties as a list.\<close>

record flight =
  fl_pack :: Publish
  fl_dup :: int
  fl_qos :: int
  fl_retained :: int
  fl_props :: "MQTTProperty list"

definition flight_id :: "flight \<Rightarrow> int" where
  "flight_id f = publish_msgId (fl_pack f)"

definition flight_body :: "flight \<Rightarrow> bytes" where
  "flight_body f = publication (fl_pack f) (fl_qos f) (fl_props f)"

definition flight_header :: "flight \<Rightarrow> byte" where
  "flight_header f = Header PUBLISH (fl_dup f) (fl_qos f) (fl_retained f)"

definition flight_sound :: "int \<Rightarrow> flight \<Rightarrow> bool" where
  "flight_sound v f \<longleftrightarrow> publish_MQTTVersion (fl_pack f) = v \<and> publish_ok (fl_pack f) (fl_qos f) (fl_props f) \<and>
     (fl_qos f = 1 \<or> fl_qos f = 2) \<and> length (flight_body f) < 2 ^ 28 \<and> fl_retained f \<in> {0, 1}"

definition flight_ok :: "int \<Rightarrow> flight \<Rightarrow> bool" where
  "flight_ok v f \<longleftrightarrow> flight_sound v f \<and> flight_id f \<in> {1..id_limit v}"

lemmas flight_ok_facts = flight_ok_def flight_sound_def

definition publish_record :: "flight \<Rightarrow> bytes" where
  "publish_record f = flight_header f # vbi_enc (length (flight_body f)) @ flight_body f"

definition pubrel_record :: "int \<Rightarrow> int \<Rightarrow> bytes" where
  "pubrel_record dup n = Header PUBREL dup 1 0 # vbi_enc 2 @ be_bytes 2 (nat n)"

text \<open>The contents of a store: the messages sent, the DUP flag of their PUBREL where one was stored, and
  the messages received with QoS 2.\<close>

record in_store =
  st_sent :: "int \<Rightarrow> flight option"
  st_pubrel :: "int \<Rightarrow> int option"
  st_received :: "int \<Rightarrow> flight option"

definition nothing_stored :: in_store where
  "nothing_stored = \<lparr>st_sent = (\<lambda>_. None), st_pubrel = (\<lambda>_. None), st_received = (\<lambda>_. None)\<rparr>"

text \<open>The calls of the library that change the store: from \<open>MQTTPacket_sends\<close> and \<open>MQTTPacket_send\<close> before they
  send, from \<open>MQTTPacket_Factory\<close>, and from the handlers at the end of an exchange.\<close>

datatype store_call =
    Store_sent flight
  | Store_pubrel int int
  | Forget_sent int
  | Store_received flight
  | Forget_received int

definition call_ok :: "int \<Rightarrow> store_call \<Rightarrow> bool" where
  "call_ok v call = (case call of
     Store_sent f \<Rightarrow> flight_ok v f
   | Store_pubrel dup n \<Rightarrow> n \<in> {1..id_limit v}
   | Forget_sent n \<Rightarrow> n \<in> {1..9999}
   | Store_received f \<Rightarrow> flight_ok v f \<and> fl_qos f = 2
   | Forget_received n \<Rightarrow> n \<in> {1..65535})"

fun after_call :: "store_call \<Rightarrow> in_store \<Rightarrow> in_store" where
  "after_call (Store_sent f) A = A\<lparr>st_sent := (st_sent A)(flight_id f \<mapsto> f)\<rparr>"
| "after_call (Store_pubrel dup n) A = A\<lparr>st_pubrel := (st_pubrel A)(n \<mapsto> dup)\<rparr>"
| "after_call (Forget_sent n) A = A\<lparr>st_sent := (st_sent A)(n := None), st_pubrel := (st_pubrel A)(n := None)\<rparr>"
| "after_call (Store_received f) A = A\<lparr>st_received := (st_received A)(flight_id f \<mapsto> f)\<rparr>"
| "after_call (Forget_received n) A = A\<lparr>st_received := (st_received A)(n := None)\<rparr>"

fun perform :: "'s client_store \<Rightarrow> int \<Rightarrow> store_call \<Rightarrow> 's \<Rightarrow> (int \<times> 's) ub" where
  "perform cs v (Store_sent f) s =
     (let bufs = publish_buffers (fl_pack f) (fl_qos f) (fl_props f) in
      put_packet always_alloc cs (flight_header f # vbi_enc (sum_list (pbs_buflens bufs)))
        (zip (pbs_buffers bufs) (pbs_buflens bufs)) PUBLISH (flight_id f) False v s)"
| "perform cs v (Store_pubrel dup n) s =
     put_packet always_alloc cs (Header PUBREL dup 1 0 # vbi_enc 2) [(Some (be_bytes 2 (nat n)), 2)] PUBREL n False v s"
| "perform cs v (Forget_sent n) s =
     MQTTPersistence_remove always_alloc cs (if 5 \<le> v then PERSISTENCE_V5_PUBLISH_SENT else PERSISTENCE_PUBLISH_SENT) 2 n s"
| "perform cs v (Store_received f) s =
     put_packet always_alloc cs (flight_header f # vbi_enc (length (flight_body f)))
       [(Some (flight_body f), length (flight_body f))] PUBLISH (flight_id f) True v s"
| "perform cs v (Forget_received n) s =
     MQTTPersistence_remove always_alloc cs
       (if 5 \<le> v then PERSISTENCE_V5_PUBLISH_RECEIVED else PERSISTENCE_PUBLISH_RECEIVED) 2 n s"

fun perform_all :: "'s client_store \<Rightarrow> int \<Rightarrow> store_call list \<Rightarrow> 's \<Rightarrow> 's ub" where
  "perform_all cs v [] s = Some s"
| "perform_all cs v (call # calls) s = do { (rc, s) \<leftarrow> perform cs v call s; perform_all cs v calls s }"

definition record_key :: "int \<Rightarrow> bytes \<Rightarrow> bool" where
  "record_key v k \<longleftrightarrow> (\<exists>n \<ge> 0. k = sent_key v n \<or> k = pubrel_key v n \<or> k = received_key v n)"

lemma record_keyI [simp]:
  assumes "0 \<le> n"
  shows "record_key v (sent_key v n)" "record_key v (pubrel_key v n)" "record_key v (received_key v n)"
  using assms unfolding record_key_def by blast+

lemma record_keyE:
  assumes "record_key v k"
  obtains n where "0 \<le> n" "k = sent_key v n" | n where "0 \<le> n" "k = pubrel_key v n" | n where "0 \<le> n" "k = received_key v n"
  using assms unfolding record_key_def by blast

text \<open>What the map of keys holds of the messages.\<close>

definition records :: "int \<Rightarrow> in_store \<Rightarrow> (bytes \<Rightarrow> bytes option) \<Rightarrow> bool" where
  "records v A m \<longleftrightarrow>
     (\<forall>n \<ge> 0. m (sent_key v n) = map_option publish_record (st_sent A n) \<and>
        m (pubrel_key v n) = map_option (\<lambda>dup. pubrel_record dup n) (st_pubrel A n) \<and>
        m (received_key v n) = map_option publish_record (st_received A n)) \<and>
     (\<forall>k. m k \<noteq> None \<longrightarrow> record_key v k) \<and>
     (\<forall>n f. st_sent A n = Some f \<longrightarrow> flight_ok v f \<and> flight_id f = n) \<and>
     (\<forall>n dup. st_pubrel A n = Some dup \<longrightarrow> n \<in> {1..id_limit v}) \<and>
     (\<forall>n f. st_received A n = Some f \<longrightarrow> flight_ok v f \<and> flight_id f = n \<and> fl_qos f = 2)"

lemma records_empty: "records v nothing_stored (\<lambda>_. None)"
  by (simp add: records_def nothing_stored_def)

lemma records_store:
  assumes "records v A m"
  shows "flight_ok v f \<Longrightarrow> records v (after_call (Store_sent f) A) (m(sent_key v (flight_id f) \<mapsto> publish_record f))"
    "n \<in> {1..id_limit v} \<Longrightarrow> records v (after_call (Store_pubrel dup n) A) (m(pubrel_key v n \<mapsto> pubrel_record dup n))"
    "flight_ok v f \<Longrightarrow> fl_qos f = 2 \<Longrightarrow>
      records v (after_call (Store_received f) A) (m(received_key v (flight_id f) \<mapsto> publish_record f))"
proof -
  have i: "flight_ok v f \<Longrightarrow> 0 \<le> flight_id f" by (simp add: flight_ok_facts)
  show "flight_ok v f \<Longrightarrow> records v (after_call (Store_sent f) A) (m(sent_key v (flight_id f) \<mapsto> publish_record f))"
    using assms i by (auto simp: records_def record_keys_eq)
  show "n \<in> {1..id_limit v} \<Longrightarrow> records v (after_call (Store_pubrel dup n) A) (m(pubrel_key v n \<mapsto> pubrel_record dup n))"
    using assms by (auto simp: records_def record_keys_eq)
  show "flight_ok v f \<Longrightarrow> fl_qos f = 2 \<Longrightarrow>
      records v (after_call (Store_received f) A) (m(received_key v (flight_id f) \<mapsto> publish_record f))"
    using assms i by (auto simp: records_def record_keys_eq)
qed

lemma records_remove:
  assumes "records v A m" "0 \<le> n"
  shows "records v (A\<lparr>st_sent := (st_sent A)(n := None)\<rparr>) (m(sent_key v n := None))"
    "records v (A\<lparr>st_pubrel := (st_pubrel A)(n := None)\<rparr>) (m(pubrel_key v n := None))"
    "records v (A\<lparr>st_received := (st_received A)(n := None)\<rparr>) (m(received_key v n := None))"
  using assms by (auto simp: records_def record_keys_eq)

text \<open>Keys of the other protocol version are not in the store.\<close>

lemma other_version_absent:
  assumes "records v A m" "0 \<le> n" "(5 \<le> w) = (v < 5)"
  shows "m(sent_key w n := None) = m" "m(pubrel_key w n := None) = m" "m(received_key w n := None) = m"
proof -
  have d: "k \<noteq> sent_key w n \<and> k \<noteq> pubrel_key w n \<and> k \<noteq> received_key w n" if "m k \<noteq> None" for k
  proof -
    have "record_key v k" using assms(1) that unfolding records_def by blast
    then obtain j where "0 \<le> j" "k = sent_key v j \<or> k = pubrel_key v j \<or> k = received_key v j"
      unfolding record_key_def by blast
    moreover obtain c cs where "dec_bytes (nat j) = c # cs" by (cases "dec_bytes (nat j)") auto
    moreover obtain d ds where "dec_bytes (nat n) = d # ds" by (cases "dec_bytes (nat n)") auto
    ultimately show ?thesis using assms(2,3) isdigit_dec_bytes [of c "nat j"] isdigit_dec_bytes [of d "nat n"]
      by (auto simp: record_keys packet_stem_def key_stems dec_int_pos isdigit_def bytes_of_stems)
  qed
  have "m (sent_key w n) = None" "m (pubrel_key w n) = None" "m (received_key w n) = None"
    using d [of "sent_key w n"] d [of "pubrel_key w n"] d [of "received_key w n"] by blast+
  then show "m(sent_key w n := None) = m" "m(pubrel_key w n := None) = m" "m(received_key w n := None) = m"
    by (auto simp: fun_eq_iff)
qed

text \<open>Buffers that hold exactly their bytes.\<close>

lemma int_of_size_small: "n < 2 ^ 31 \<Longrightarrow> int_of_size n = int n"
  by (simp add: int_of_size_def signed_of_nat signed_take_bit_int_eq_self)

lemma whole_buffers_bytes:
  assumes "\<forall>x \<in> set xs. length x < 2 ^ 31"
  shows "buffers_bytes (map (\<lambda>(b, n). (b, int_of_size n)) (map (\<lambda>x. (Some x, length x)) xs)) = Some (concat xs)"
  using assms by (induction xs) (simp_all add: int_of_size_small to_size_def iov_base_def)

lemma publish_buffers_whole:
  assumes "publish_ok pack qos ps"
  shows "\<exists>xs. zip (pbs_buffers (publish_buffers pack qos ps)) (pbs_buflens (publish_buffers pack qos ps)) =
      map (\<lambda>x. (Some x, length x)) xs \<and> concat xs = publication pack qos ps"
proof -
  let ?l = "be_bytes 2 (length (publish_topic pack))" and ?t = "publish_topic pack" and ?d = "publish_payload pack"
  let ?b = "(if 0 < qos then be_bytes 2 (nat (publish_msgId pack)) else []) @ (if 5 \<le> publish_MQTTVersion pack then props_enc ps else [])"
  show ?thesis
  proof (cases "0 < qos \<or> 5 \<le> publish_MQTTVersion pack")
    case True
    then show ?thesis
      by (intro exI [of _ "[?l, ?t, ?b, ?d]"]) (auto simp: publish_buffers_def Let_def publication_def publish_enc_def utf_enc_def)
  next
    case False
    then show ?thesis
      by (intro exI [of _ "[?l, ?t, ?d]"]) (auto simp: publish_buffers_def Let_def publication_def publish_enc_def utf_enc_def)
  qed
qed

text \<open>A client with a store and without callbacks.\<close>

definition stores_in :: "'s MQTTClient_persistence \<Rightarrow> bytes option \<Rightarrow> 's client_store \<Rightarrow> bool" where
  "stores_in p h cs \<longleftrightarrow> persistence cs = Some p \<and> phandle cs = h \<and> beforeWrite cs = None \<and> afterRead cs = None"

section \<open>The contract of a store\<close>

locale message_store =
  fixes p :: "'s MQTTClient_persistence" and h :: "bytes option" and ok :: "'s \<Rightarrow> bool"
    and content :: "'s \<Rightarrow> bytes \<Rightarrow> bytes option"
  assumes put: "ok s \<Longrightarrow> key_ok key \<Longrightarrow> buffers_bytes bufs = Some bs \<Longrightarrow> length bs < 2 ^ 64 \<Longrightarrow>
      \<exists>s'. pput p h key bufs s = Some (0, s') \<and> ok s' \<and> content s' = (content s)(key \<mapsto> bs)"
    and remove: "ok s \<Longrightarrow> key_ok key \<Longrightarrow>
      \<exists>s'. premove p h key s = Some (0, s') \<and> ok s' \<and> content s' = (content s)(key := None)"
    and get: "ok s \<Longrightarrow> content s key = Some bs \<Longrightarrow> pget p h key s = Some (0, Some bs, s)"
    and keys: "ok s \<Longrightarrow> \<exists>ks. pkeys p h s = Some (0, Some ks, s) \<and> distinct ks \<and> set ks = dom (content s)"
    and contains: "ok s \<Longrightarrow> key_ok key \<Longrightarrow> \<exists>rc. pcontainskey p h key s = Some (rc, s) \<and> (rc = 0 \<longleftrightarrow> key \<in> dom (content s))"

begin

lemma put_packet_stores:
  assumes "ok s" "stores_in p h cs" "message_key (packet_stem htype scr v) n = Some key" "key_ok key"
    "buffers = map (\<lambda>x. (Some x, length x)) xs" "length buf0 + length (concat xs) < 2 ^ 31"
  shows "\<exists>s'. put_packet always_alloc cs buf0 buffers htype n scr v s = Some (0, s') \<and> ok s' \<and>
    content s' = (content s)(key \<mapsto> buf0 @ concat xs)"
proof -
  have l: "\<forall>x \<in> set (buf0 # xs). length x < 2 ^ 31"
  proof
    fix x assume "x \<in> set (buf0 # xs)"
    then have "length x \<le> length (concat (buf0 # xs))" by (induction "buf0 # xs") (auto dest!: split_list)
    then show "length x < 2 ^ 31" using assms(6) by simp
  qed
  have b: "buffers_bytes (map (\<lambda>(b, n). (b, int_of_size n)) ((Some buf0, length buf0) # buffers)) = Some (buf0 @ concat xs)"
    using whole_buffers_bytes [OF l] assms(5) by simp
  show ?thesis
    using put [OF assms(1,4) b] assms(2,3,6) by (auto simp: put_packet_def stores_in_def write_record_def)
qed

lemma remove_keys_removes:
  assumes "ok s" "\<forall>stem \<in> set stems. message_key stem n = Some (bytes_of stem @ dec_int n) \<and> key_ok (bytes_of stem @ dec_int n)"
  shows "\<exists>s'. remove_keys p h stems n 0 s = Some (0, s') \<and> ok s' \<and>
    content s' = fold (\<lambda>stem m. m(bytes_of stem @ dec_int n := None)) stems (content s)"
  using assms
proof (induction stems arbitrary: s)
  case (Cons stem stems)
  then obtain s1 where s1: "premove p h (bytes_of stem @ dec_int n) s = Some (0, s1)" "ok s1"
      "content s1 = (content s)(bytes_of stem @ dec_int n := None)"
    using remove [of s "bytes_of stem @ dec_int n"] by auto
  from Cons.IH [OF s1(2)] Cons.prems(2) s1 show ?case by simp
qed simp

text \<open>Every call of the library does what it should.\<close>

lemma perform_call:
  assumes s: "ok s" "records v A (content s)" and cs: "stores_in p h cs" and c: "call_ok v call"
  shows "\<exists>s'. perform cs v call s = Some (0, s') \<and> ok s' \<and> records v (after_call call A) (content s')"
proof (cases call)
  case (Store_sent f)
  then have f: "flight_ok v f" using c by (simp add: call_ok_def)
  have n: "0 \<le> flight_id f" "flight_id f \<le> id_limit v" using f by (simp_all add: flight_ok_facts)
  obtain xs where xs: "zip (pbs_buffers (publish_buffers (fl_pack f) (fl_qos f) (fl_props f)))
      (pbs_buflens (publish_buffers (fl_pack f) (fl_qos f) (fl_props f))) = map (\<lambda>x. (Some x, length x)) xs"
      "concat xs = flight_body f"
    using publish_buffers_whole [of "fl_pack f" "fl_qos f" "fl_props f"] f by (auto simp: flight_ok_facts flight_body_def)
  have l: "length (flight_header f # vbi_enc (length (flight_body f))) + length (concat xs) < 2 ^ 31"
    using f vbi_length_bound [of "length (flight_body f)" 3] unfolding xs(2) by (simp add: flight_ok_facts)
  show ?thesis
    using put_packet_stores [OF s(1) cs message_key_record(1) [OF n] record_keys_ok(1) [OF n(1)] xs(1) l]
      records_store(1) [OF s(2) f] xs(2) publish_buffers_bytes(2) [of "fl_pack f" "fl_qos f" "fl_props f"]
    unfolding Store_sent perform.simps Let_def by (auto simp: publish_record_def flight_body_def)
next
  case (Store_pubrel dup n)
  then have n: "0 \<le> n" "n \<le> id_limit v" "n \<in> {1..id_limit v}" using c by (simp_all add: call_ok_def)
  have x: "[(Some (be_bytes 2 (nat n)), 2)] = map (\<lambda>x. (Some x, length x)) [be_bytes 2 (nat n)]" by simp
  have l: "length (Header PUBREL dup 1 0 # vbi_enc 2) + length (concat [be_bytes 2 (nat n)]) < 2 ^ 31"
    using vbi_length_bound [of 2 3] by simp
  show ?thesis
    using put_packet_stores [OF s(1) cs message_key_record(2) [OF n(1,2)] record_keys_ok(2) [OF n(1)] x l]
      records_store(2) [OF s(2) n(3), of dup]
    unfolding Store_pubrel perform.simps by (auto simp: pubrel_record_def simp del: be_bytes.simps)
next
  case (Forget_sent n)
  then have n: "0 \<le> n" "n \<le> 9999" using c by (simp_all add: call_ok_def)
  let ?stems = "[PERSISTENCE_V5_PUBLISH_SENT, PERSISTENCE_V5_PUBREL, PERSISTENCE_PUBLISH_SENT, PERSISTENCE_PUBREL]"
  have st: "\<forall>stem \<in> set ?stems. message_key stem n = Some (bytes_of stem @ dec_int n) \<and> key_ok (bytes_of stem @ dec_int n)"
    using message_key_removed [OF n] stem_key_ok [OF n(1)] by (simp add: key_stems)
  have k: "bytes_of PERSISTENCE_V5_PUBLISH_SENT @ dec_int n = sent_key 5 n" "bytes_of PERSISTENCE_V5_PUBREL @ dec_int n = pubrel_key 5 n"
    "bytes_of PERSISTENCE_PUBLISH_SENT @ dec_int n = sent_key 4 n" "bytes_of PERSISTENCE_PUBREL @ dec_int n = pubrel_key 4 n"
    by (simp_all add: record_keys packet_stem_def)
  obtain s' where s': "remove_keys p h ?stems n 0 s = Some (0, s')" "ok s'"
      "content s' = (content s)(sent_key 5 n := None, pubrel_key 5 n := None, sent_key 4 n := None, pubrel_key 4 n := None)"
    using remove_keys_removes [OF s(1) st] by (auto simp: k)
  define m where "m = (content s)(sent_key v n := None)"
  have m: "records v (A\<lparr>st_sent := (st_sent A)(n := None)\<rparr>) m" unfolding m_def by (rule records_remove(1) [OF s(2) n(1)])
  have r: "records v (A\<lparr>st_sent := (st_sent A)(n := None), st_pubrel := (st_pubrel A)(n := None)\<rparr>) (m(pubrel_key v n := None))"
    using records_remove(2) [OF m n(1)] by simp
  have e: "content s' = m(pubrel_key v n := None)"
  proof (cases "5 \<le> v")
    case True
    then have v: "sent_key v n = sent_key 5 n" "pubrel_key v n = pubrel_key 5 n" by (simp_all add: record_keys packet_stem_def)
    show ?thesis using other_version_absent [OF r n(1), of 4] True unfolding s'(3) m_def v by (simp add: fun_upd_twist)
  next
    case False
    then have v: "sent_key v n = sent_key 4 n" "pubrel_key v n = pubrel_key 4 n" by (simp_all add: record_keys packet_stem_def)
    show ?thesis using other_version_absent [OF s(2) n(1), of 5] False unfolding s'(3) m_def v by simp
  qed
  show ?thesis
    using s'(1,2) r cs unfolding e [symmetric] Forget_sent
    by (auto simp: MQTTPersistence_remove_def stores_in_def)
next
  case (Store_received f)
  then have f: "flight_ok v f" "fl_qos f = 2" using c by (simp_all add: call_ok_def)
  have n: "0 \<le> flight_id f" "flight_id f \<le> id_limit v" using f by (simp_all add: flight_ok_facts)
  have x: "[(Some (flight_body f), length (flight_body f))] = map (\<lambda>x. (Some x, length x)) [flight_body f]" by simp
  have l: "length (flight_header f # vbi_enc (length (flight_body f))) + length (concat [flight_body f]) < 2 ^ 31"
    using f(1) vbi_length_bound [of "length (flight_body f)" 3] by (simp add: flight_ok_facts)
  show ?thesis
    using put_packet_stores [OF s(1) cs message_key_record(3) [OF n] record_keys_ok(3) [OF n(1)] x l]
      records_store(3) [OF s(2) f]
    unfolding Store_received perform.simps by (auto simp: publish_record_def)
next
  case (Forget_received n)
  then have n: "0 \<le> n" "n \<le> 65535" using c by (simp_all add: call_ok_def)
  let ?stems = "[PERSISTENCE_V5_PUBLISH_RECEIVED, PERSISTENCE_PUBLISH_RECEIVED]"
  have st: "\<forall>stem \<in> set ?stems. message_key stem n = Some (bytes_of stem @ dec_int n) \<and> key_ok (bytes_of stem @ dec_int n)"
    using message_key_received [OF n] stem_key_ok [OF n(1)] by (simp add: key_stems)
  have k: "bytes_of PERSISTENCE_V5_PUBLISH_RECEIVED @ dec_int n = received_key 5 n"
    "bytes_of PERSISTENCE_PUBLISH_RECEIVED @ dec_int n = received_key 4 n"
    by (simp_all add: record_keys packet_stem_def)
  obtain s' where s': "remove_keys p h ?stems n 0 s = Some (0, s')" "ok s'"
      "content s' = (content s)(received_key 5 n := None, received_key 4 n := None)"
    using remove_keys_removes [OF s(1) st] by (auto simp: k)
  note r = records_remove(3) [OF s(2) n(1)]
  have e: "content s' = (content s)(received_key v n := None)"
  proof (cases "5 \<le> v")
    case True
    then have v: "received_key v n = received_key 5 n" by (simp add: record_keys packet_stem_def)
    show ?thesis using other_version_absent(3) [OF r n(1), of 4] True unfolding s'(3) v by simp
  next
    case False
    then have v: "received_key v n = received_key 4 n" by (simp add: record_keys packet_stem_def)
    show ?thesis using other_version_absent(3) [OF s(2) n(1), of 5] False unfolding s'(3) v by simp
  qed
  have "type \<noteq> PERSISTENCE_PUBLISH_SENT \<and> type \<noteq> PERSISTENCE_V5_PUBLISH_SENT"
    if "type = (if 5 \<le> v then PERSISTENCE_V5_PUBLISH_RECEIVED else PERSISTENCE_PUBLISH_RECEIVED)" for type
    using that by (auto simp: key_stems)
  then show ?thesis
    using s'(1,2) r cs unfolding e [symmetric] Forget_received
    by (auto simp: MQTTPersistence_remove_def stores_in_def)
qed

lemma perform_calls:
  assumes "ok s" "records v A (content s)" "stores_in p h cs" "\<forall>call \<in> set calls. call_ok v call"
  shows "\<exists>s'. perform_all cs v calls s = Some s' \<and> ok s' \<and> records v (fold after_call calls A) (content s')"
  using assms
proof (induction calls arbitrary: s A)
  case (Cons call calls)
  then obtain s1 where "perform cs v call s = Some (0, s1)" "ok s1" "records v (after_call call A) (content s1)"
    using perform_call [of s v A cs call] by auto
  then show ?case using Cons by simp
qed simp

end

text \<open>The file store is one, on a system that grants every request.\<close>

definition file_part :: "('s \<Rightarrow> file_system) \<Rightarrow> ((file_system \<Rightarrow> file_system) \<Rightarrow> 's \<Rightarrow> 's) \<Rightarrow> bool" where
  "file_part get upd \<longleftrightarrow> (\<forall>f s. get (upd f s) = f (get s))"

interpretation files: message_store "default_persistence E get upd ctx" "Some dir"
  "\<lambda>s. file_part get upd \<and> reliable E \<and> store_open dir (get s)" "\<lambda>s. stored dir (get s)" 
  for E get upd ctx dir
proof
  fix s key bufs bs
  assume s: "file_part get upd \<and> reliable E \<and> store_open dir (get s)" and k: "key_ok key"
    and b: "buffers_bytes bufs = Some bs" "length bs < 2 ^ 64"
  have d: "dir \<noteq> []" using s by (simp add: store_open_def)
  show "\<exists>s'. pput (default_persistence E get upd ctx) (Some dir) key bufs s = Some (0, s') \<and>
      (file_part get upd \<and> reliable E \<and> store_open dir (get s')) \<and> stored dir (get s') = (stored dir (get s))(key \<mapsto> bs)"
    using s pstput_reliable [of E dir "get s" key bufs bs] store_open_set_file [of dir "get s" key bs] stored_set_file [OF d k] k b
    by (auto simp: default_persistence_def on_files_def file_part_def)
next
  fix s key
  assume s: "file_part get upd \<and> reliable E \<and> store_open dir (get s)" and k: "key_ok key"
  then obtain fs where "pstremove E (Some dir) key (get s) = (0, fs)" "store_open dir fs"
      "stored dir fs = (stored dir (get s))(key := None)"
    using pstremove_reliable [of E dir "get s" key] by auto
  then show "\<exists>s'. premove (default_persistence E get upd ctx) (Some dir) key s = Some (0, s') \<and>
      (file_part get upd \<and> reliable E \<and> store_open dir (get s')) \<and> stored dir (get s') = (stored dir (get s))(key := None)"
    using s by (auto simp: default_persistence_def on_files_def file_part_def)
next
  fix s key bs
  assume "file_part get upd \<and> reliable E \<and> store_open dir (get s)" "stored dir (get s) key = Some bs"
  then show "pget (default_persistence E get upd ctx) (Some dir) key s = Some (0, Some bs, s)"
    using pstget_reliable [of E dir "get s" key bs] by (simp add: default_persistence_def)
next
  fix s
  assume "file_part get upd \<and> reliable E \<and> store_open dir (get s)"
  then show "\<exists>ks. pkeys (default_persistence E get upd ctx) (Some dir) s = Some (0, Some ks, s) \<and> distinct ks \<and>
      set ks = dom (stored dir (get s))"
    using pstkeys_reliable [of E dir "get s"] keys_of_store [of E dir "get s"] by (simp add: default_persistence_def)
next
  fix s key
  assume "file_part get upd \<and> reliable E \<and> store_open dir (get s)" "key_ok key"
  then obtain rc where "pstcontainskey E (Some dir) key (get s) = Some rc" "rc = 0 \<longleftrightarrow> key \<in> dom (stored dir (get s))"
    using pstcontainskey_reliable [of E dir "get s" key] by blast
  then show "\<exists>rc. pcontainskey (default_persistence E get upd ctx) (Some dir) key s = Some (rc, s) \<and>
      (rc = 0 \<longleftrightarrow> key \<in> dom (stored dir (get s)))"
    by (intro exI [of _ rc]) (simp add: default_persistence_def)
qed


section \<open>An instance\<close>

definition granting_env :: file_env where
  "granting_env = \<lparr>fe_alloc = always_alloc, fe_mkdir = (\<lambda>_. True), fe_rmdir = (\<lambda>_. True), fe_create = (\<lambda>_. True),
     fe_open = (\<lambda>_. True), fe_fwrite = (\<lambda>_ n. n), fe_fread = (\<lambda>_ n. n), fe_unlink = (\<lambda>_. True), fe_archive = (\<lambda>_. True)\<rparr>"

definition sample_files :: file_system where
  "sample_files = \<lparr>fs_dirs = [path_of (bytes_of ''c-srv'')], fs_files = []\<rparr>"

definition sample_store :: "file_system client_store" where
  "sample_store = \<lparr>persistence = Some (default_persistence granting_env (\<lambda>s. s) (\<lambda>f s. f s) []), phandle = Some (bytes_of ''c-srv''),
     beforeWrite = None, afterRead = None, messageQueue = cl_zero, qentry_seqno = 0\<rparr>"

end
