(* ===== verification/QueueRecords.thy ===== *)
theory QueueRecords
  imports RecoveryOrder StoreRecords
begin

text \<open>
  The queue of received messages in a store.  Each entry has a record under a sequence number; entries are
  appended by the receiving side and taken from the front by the application.  \<open>MQTTPersistence_restoreMessageQueue\<close>
  builds the same queue again, as long as the numbers do not start again from 0.  In version 5 nothing is stored:
  \<open>MQTTPersistence_persistQueueEntry\<close> takes the length that \<open>MQTTProperties_write\<close> returns for an error.
\<close>

section \<open>Records\<close>

definition queue_record_key :: "32 word \<Rightarrow> bytes" where
  "queue_record_key n = bytes_of PERSISTENCE_QUEUE_KEY @ dec_bytes (unat n)"

lemma queue_record_key_eq [simp]: "queue_record_key m = queue_record_key n \<longleftrightarrow> m = n"
  by (simp add: queue_record_key_def word_unat_eq_iff)

lemma queue_key_fits: "n < PERSISTENCE_SEQNO_LIMIT \<Longrightarrow> queue_key PERSISTENCE_QUEUE_KEY n = Some (Some (queue_record_key n))"
  using length_dec_bytes [of "unat n" 5]
  by (simp add: queue_key_def queue_record_key_def key_stems word_less_nat_alt)

lemma queue_record_key_ok: "key_ok (queue_record_key n)"
  using isdigit_dec_bytes by (auto simp: key_ok_def key_char_def isdigit_def queue_record_key_def key_stems bytes_of_stems)

lemma queue_record_key_stem:
  "has_stem PERSISTENCE_QUEUE_KEY (queue_record_key n)" "\<not> has_stem PERSISTENCE_V5_QUEUE_KEY (queue_record_key n)"
  by (simp_all add: has_stem_def queue_record_key_def key_stems bytes_of_stems)

lemma queue_record_key_number:
  "strchr (queue_record_key n) 0x2D = Some 1"
  "unat n < 2 ^ 31 \<Longrightarrow> atoi (drop (Suc 1) (queue_record_key n)) = Some (int (unat n))"
proof -
  have "(0x2D :: byte) \<notin> set [0x71]" by simp
  from strchr_first [OF this, of "dec_bytes (unat n)"] show "strchr (queue_record_key n) 0x2D = Some 1"
    by (simp add: queue_record_key_def key_stems bytes_of_stems)
  show "unat n < 2 ^ 31 \<Longrightarrow> atoi (drop (Suc 1) (queue_record_key n)) = Some (int (unat n))"
    using atoi_dec_bytes [of "unat n"] by (simp add: queue_record_key_def key_stems bytes_of_stems)
qed

text \<open>An entry whose numbers are \<open>int\<close>s and whose topic is a string.\<close>

definition int_ok :: "int \<Rightarrow> bool" where
  "int_ok i \<longleftrightarrow> - (2 ^ 31) \<le> i \<and> i < 2 ^ 31"

definition entry_ok :: "MQTTPersistence_qEntry \<Rightarrow> bool" where
  "entry_ok qe \<longleftrightarrow> pm_payloadlen (qe_msg qe) = int (length (pm_payload (qe_msg qe))) \<and>
     int_ok (pm_qos (qe_msg qe)) \<and> int_ok (pm_retained (qe_msg qe)) \<and> int_ok (pm_dup (qe_msg qe)) \<and> int_ok (pm_msgid (qe_msg qe)) \<and>
     0 \<notin> set (qe_topicName qe) \<and> int_ok (qe_topicLen qe) \<and>
     length (pm_payload (qe_msg qe)) + length (qe_topicName qe) + 25 < 2 ^ 31"

definition entry_record :: "MQTTPersistence_qEntry \<Rightarrow> bytes" where
  "entry_record qe =
     (let m = qe_msg qe in
      int_bytes (pm_payloadlen m) @ pm_payload m @ int_bytes (pm_qos m) @ int_bytes (pm_retained m) @ int_bytes (pm_dup m) @
      int_bytes (pm_msgid m) @ qe_topicName qe @ [0] @ int_bytes (qe_topicLen qe))"

text \<open>What is restored of an entry: properties are not in the record.\<close>

definition restored_entry :: "MQTTPersistence_qEntry \<Rightarrow> MQTTPersistence_qEntry" where
  "restored_entry qe = qe\<lparr>qe_msg := (qe_msg qe)\<lparr>pm_struct_version := 1, pm_properties := MQTTProperties_initializer\<rparr>\<rparr>"

lemma restored_entry_seqno [simp]: "qe_seqno (restored_entry qe) = qe_seqno qe"
  by (simp add: restored_entry_def)

lemma length_int_bytes [simp]: "length (int_bytes i) = 4"
  by (simp add: int_bytes_def)

lemma read_int_front:
  assumes "int_ok i" "data = pre @ int_bytes i @ post" "p = length pre"
  shows "read_int data p = Some (i, p + 4)"
proof -
  have "be_nat (rev (take 4 (drop p data))) = nat (i mod 2 ^ 32)"
    using assms(2,3) by (simp add: int_bytes_def be_nat_be_bytes nat_mod_as_int del: be_bytes.simps)
  moreover have "sint (of_nat (nat (i mod 2 ^ 32)) :: 32 word) = i"
  proof -
    have "(of_nat (nat (i mod 2 ^ 32)) :: 32 word) = of_int i"
      by (simp add: of_nat_nat word_of_int_eq_iff take_bit_eq_mod)
    then show ?thesis using assms(1) by (simp add: int_ok_def signed_of_int signed_take_bit_int_eq_self)
  qed
  ultimately show ?thesis using assms by (simp add: read_int_def)
qed

lemma read_string_front:
  assumes "0 \<notin> set s" "data = pre @ s @ 0 # post" "p = length pre"
  shows "read_string data p = Some (s, p + length s + 1)"
  using strchr_first [OF assms(1), of post] assms(2,3) by (simp add: read_string_def)


lemma entry_buffers_bytes:
  assumes "entry_ok qe"
  shows "buffers_bytes (entry_buffers qe) = Some (entry_record qe)" "length (entry_record qe) < 2 ^ 31"
proof -
  have "strlen_int (qe_topicName qe) = int (length (qe_topicName qe))"
    using assms by (simp add: entry_ok_def strlen_int_def signed_of_nat signed_take_bit_int_eq_self)
  then have b: "entry_buffers qe = map (\<lambda>x. (Some x, int (length x)))
    [int_bytes (pm_payloadlen (qe_msg qe)), pm_payload (qe_msg qe), int_bytes (pm_qos (qe_msg qe)), int_bytes (pm_retained (qe_msg qe)),
     int_bytes (pm_dup (qe_msg qe)), int_bytes (pm_msgid (qe_msg qe)), qe_topicName qe @ [0], int_bytes (qe_topicLen qe)]"
    using assms by (simp add: entry_buffers_def entry_ok_def Let_def)
  show "buffers_bytes (entry_buffers qe) = Some (entry_record qe)"
    unfolding b using assms
    by (simp add: to_size_def iov_base_def entry_record_def entry_ok_def Let_def nat_mod_as_int flip: of_nat_Suc)
  show "length (entry_record qe) < 2 ^ 31" using assms by (simp add: entry_record_def entry_ok_def Let_def)
qed

lemma restoreQueueEntry_record:
  assumes "entry_ok qe"
  shows "MQTTPersistence_restoreQueueEntry always_alloc (entry_record qe) MQTTVERSION_3_1_1 =
    Some (Some ((restored_entry qe)\<lparr>qe_seqno := 0\<rparr>))"
proof -
  let ?m = "qe_msg qe" and ?r = "entry_record qe" and ?n = "length (pm_payload (qe_msg qe))" and ?t = "length (qe_topicName qe)"
  have i: "int_ok (pm_payloadlen ?m)" "int_ok (pm_qos ?m)" "int_ok (pm_retained ?m)" "int_ok (pm_dup ?m)" "int_ok (pm_msgid ?m)"
    "int_ok (qe_topicLen qe)" "0 \<notin> set (qe_topicName qe)" "to_size (pm_payloadlen ?m) = ?n"
    using assms by (auto simp: entry_ok_def int_ok_def to_size_def)
  have 1: "read_int ?r 0 = Some (pm_payloadlen ?m, 4)"
    using read_int_front [OF i(1), of ?r "[]"] by (simp add: entry_record_def Let_def)
  have 2: "read_int ?r (4 + ?n) = Some (pm_qos ?m, 8 + ?n)"
    using read_int_front [OF i(2), of ?r "int_bytes (pm_payloadlen ?m) @ pm_payload ?m"] by (simp add: entry_record_def Let_def)
  have 3: "read_int ?r (8 + ?n) = Some (pm_retained ?m, 12 + ?n)"
    using read_int_front [OF i(3), of ?r "int_bytes (pm_payloadlen ?m) @ pm_payload ?m @ int_bytes (pm_qos ?m)"]
    by (simp add: entry_record_def Let_def)
  have 4: "read_int ?r (12 + ?n) = Some (pm_dup ?m, 16 + ?n)"
    using read_int_front [OF i(4), of ?r "int_bytes (pm_payloadlen ?m) @ pm_payload ?m @ int_bytes (pm_qos ?m) @ int_bytes (pm_retained ?m)"]
    by (simp add: entry_record_def Let_def)
  have 5: "read_int ?r (16 + ?n) = Some (pm_msgid ?m, 20 + ?n)"
    using read_int_front [OF i(5), of ?r "int_bytes (pm_payloadlen ?m) @ pm_payload ?m @ int_bytes (pm_qos ?m) @ int_bytes (pm_retained ?m) @
      int_bytes (pm_dup ?m)"] by (simp add: entry_record_def Let_def)
  have 6: "read_string ?r (20 + ?n) = Some (qe_topicName qe, 21 + (?n + ?t))"
    using read_string_front [OF i(7), of ?r "int_bytes (pm_payloadlen ?m) @ pm_payload ?m @ int_bytes (pm_qos ?m) @ int_bytes (pm_retained ?m) @
      int_bytes (pm_dup ?m) @ int_bytes (pm_msgid ?m)"] by (simp add: entry_record_def Let_def)
  have 7: "read_int ?r (21 + (?n + ?t)) = Some (qe_topicLen qe, 25 + (?n + ?t))"
    using read_int_front [OF i(6), of ?r "int_bytes (pm_payloadlen ?m) @ pm_payload ?m @ int_bytes (pm_qos ?m) @ int_bytes (pm_retained ?m) @
      int_bytes (pm_dup ?m) @ int_bytes (pm_msgid ?m) @ qe_topicName qe @ [0]"] by (simp add: entry_record_def Let_def)
  have p: "take ?n (drop 4 ?r) = pm_payload ?m" "\<not> length ?r < 4 + ?n" by (simp_all add: entry_record_def Let_def)
  have e: "\<lparr>qe_msg = \<lparr>pm_struct_version = 1, pm_payloadlen = pm_payloadlen ?m, pm_payload = pm_payload ?m, pm_qos = pm_qos ?m,
      pm_retained = pm_retained ?m, pm_dup = pm_dup ?m, pm_msgid = pm_msgid ?m, pm_properties = MQTTProperties_initializer\<rparr>,
      qe_topicName = qe_topicName qe, qe_topicLen = qe_topicLen qe, qe_seqno = 0\<rparr> = (restored_entry qe)\<lparr>qe_seqno := 0\<rparr>"
    by (simp add: restored_entry_def)
  show ?thesis
    unfolding MQTTPersistence_restoreQueueEntry_def Let_def
    by (simp add: 1 i(8) 2 3 4 5 6 7 p e del: bind_Some_iff)
qed

section \<open>The calls\<close>

text \<open>A received message is appended; the application takes the first.\<close>

datatype queue_call = Enqueue MQTTPersistence_qEntry | Dequeue

fun perform_queue :: "int \<Rightarrow> queue_call \<Rightarrow> 's client_store \<times> 's \<Rightarrow> (int \<times> 's client_store \<times> 's) ub" where
  "perform_queue v (Enqueue qe) (cs, s) =
     do {
       (rc, qe, cs, s) \<leftarrow> MQTTPersistence_persistQueueEntry always_alloc 0 cs v qe s;
       Some (rc, cs\<lparr>messageQueue := cl_append qe (messageQueue cs)\<rparr>, s)
     }"
| "perform_queue v Dequeue (cs, s) =
     (case cl_detach_head (messageQueue cs) of
        (None, l) \<Rightarrow> Some (0, cs, s)
      | (Some qe, l) \<Rightarrow>
          do {
            (rc, s) \<leftarrow> MQTTPersistence_unpersistQueueEntry cs v qe s;
            Some (rc, cs\<lparr>messageQueue := l\<rparr>, s)
          })"

fun perform_queue_all :: "int \<Rightarrow> queue_call list \<Rightarrow> 's client_store \<times> 's \<Rightarrow> ('s client_store \<times> 's) ub" where
  "perform_queue_all v [] st = Some st"
| "perform_queue_all v (call # calls) st = do { (rc, st) \<leftarrow> perform_queue v call st; perform_queue_all v calls st }"

definition enqueues :: "queue_call list \<Rightarrow> nat" where
  "enqueues calls = length (filter (\<lambda>call. call \<noteq> Dequeue) calls)"

text \<open>What the records are of the entries in the queue.\<close>

definition queue_records :: "MQTTPersistence_qEntry list \<Rightarrow> (bytes \<Rightarrow> bytes option) \<Rightarrow> bool" where
  "queue_records es m \<longleftrightarrow>
     (\<forall>k. has_stem PERSISTENCE_QUEUE_KEY k \<or> has_stem PERSISTENCE_V5_QUEUE_KEY k \<longrightarrow> m k \<noteq> None \<longrightarrow>
        k \<in> (\<lambda>e. queue_record_key (qe_seqno e)) ` set es) \<and>
     (\<forall>e \<in> set es. m (queue_record_key (qe_seqno e)) = Some (entry_record e) \<and> entry_ok e)"

lemma entry_record_seqno [simp]: "entry_record (qe\<lparr>qe_seqno := n\<rparr>) = entry_record qe" "entry_ok (qe\<lparr>qe_seqno := n\<rparr>) = entry_ok qe"
  by (simp_all add: entry_record_def entry_ok_def)

lemma queue_records_put:
  assumes "queue_records es m" "entry_ok qe" "n \<notin> qe_seqno ` set es"
  shows "queue_records (es @ [qe\<lparr>qe_seqno := n\<rparr>]) (m(queue_record_key n \<mapsto> entry_record qe))"
  using assms by (auto simp: queue_records_def)

lemma queue_records_remove:
  assumes "queue_records (e # es) m" "qe_seqno e \<notin> qe_seqno ` set es"
  shows "queue_records es (m(queue_record_key (qe_seqno e) := None))"
proof -
  have "\<forall>x \<in> set es. qe_seqno x \<noteq> qe_seqno e" using assms(2) by (metis image_eqI)
  with assms(1) show ?thesis by (auto simp: queue_records_def)
qed

text \<open>The numbers grow along the queue up to the last one that was given.\<close>

definition numbered :: "'s client_store \<Rightarrow> bool" where
  "numbered cs \<longleftrightarrow> sorted_wrt (<) (map qe_seqno (cl_items (messageQueue cs))) \<and>
     (\<forall>e \<in> set (cl_items (messageQueue cs)). qe_seqno e \<le> qentry_seqno cs)"


context message_store
begin

lemma enqueue_step:
  assumes s: "ok s" "queue_records (cl_items (messageQueue cs)) (content s)" and cs: "stores_in p h cs" "numbered cs"
    and c: "entry_ok qe" "v < 5" "unat (qentry_seqno cs) + 1 < 1000000"
  shows "\<exists>cs' s'. perform_queue v (Enqueue qe) (cs, s) = Some (0, cs', s') \<and> ok s' \<and> stores_in p h cs' \<and> numbered cs' \<and>
    queue_records (cl_items (messageQueue cs')) (content s') \<and> unat (qentry_seqno cs') = unat (qentry_seqno cs) + 1"
proof -
  let ?n = "qentry_seqno cs + 1"
  have u: "unat ?n = unat (qentry_seqno cs) + 1" using c(3) by (simp add: unat_word_ariths)
  then have n: "?n < PERSISTENCE_SEQNO_LIMIT" "?n \<noteq> PERSISTENCE_SEQNO_LIMIT" "qentry_seqno cs < ?n"
    using c(3) by (auto simp: word_less_nat_alt)
  have new: "?n \<notin> qe_seqno ` set (cl_items (messageQueue cs))" using cs(2) n(3) by (auto simp: numbered_def)
  have l: "length (entry_record qe) < 2 ^ 64" using entry_buffers_bytes(2) [OF c(1)] by simp
  obtain s' where s': "pput p h (queue_record_key ?n) (entry_buffers qe) s = Some (0, s')" "ok s'"
    "content s' = (content s)(queue_record_key ?n \<mapsto> entry_record qe)"
    using put [OF s(1) queue_record_key_ok entry_buffers_bytes(1) [OF c(1)] l] by blast
  let ?cs = "cs\<lparr>qentry_seqno := ?n, messageQueue := cl_append (qe\<lparr>qe_seqno := ?n\<rparr>) (messageQueue cs)\<rparr>"
  have p: "persistence cs = Some p" "phandle cs = h" "beforeWrite cs = None" using cs(1) by (simp_all add: stores_in_def)
  have "MQTTPersistence_persistQueueEntry always_alloc 0 cs v qe s =
      Some (0, qe\<lparr>qe_seqno := ?n\<rparr>, cs\<lparr>qentry_seqno := ?n\<rparr>, s')"
    using queue_key_fits [OF n(1)] s'(1) n(2) p c(2)
    by (simp add: MQTTPersistence_persistQueueEntry_def store_entry_def Let_def del: bind_Some_iff)
  then have "perform_queue v (Enqueue qe) (cs, s) = Some (0, ?cs, s')" by simp
  moreover have "numbered ?cs"
    using cs(2) n(3) by (fastforce simp: numbered_def cl_append_def sorted_wrt_append)
  moreover have "queue_records (cl_items (messageQueue ?cs)) (content s')"
    unfolding s'(3) using queue_records_put [OF s(2) c(1) new] by (simp add: cl_append_def)
  ultimately show ?thesis using s'(2) cs(1) u
    by (intro exI [of _ ?cs] exI [of _ s']) (simp add: stores_in_def del: perform_queue.simps)
qed

lemma dequeue_step:
  assumes s: "ok s" "queue_records (cl_items (messageQueue cs)) (content s)" and cs: "stores_in p h cs" "numbered cs"
    and c: "v < 5" "unat (qentry_seqno cs) < 1000000"
  shows "\<exists>cs' s'. perform_queue v Dequeue (cs, s) = Some (0, cs', s') \<and> ok s' \<and> stores_in p h cs' \<and> numbered cs' \<and>
    queue_records (cl_items (messageQueue cs')) (content s') \<and> qentry_seqno cs' = qentry_seqno cs"
proof (cases "cl_items (messageQueue cs)")
  case Nil
  then show ?thesis using assms by (simp add: cl_detach_head_def)
next
  case (Cons e es)
  have n: "qe_seqno e < PERSISTENCE_SEQNO_LIMIT" "qe_seqno e \<notin> qe_seqno ` set es"
    using cs(2) c(2) Cons by (auto simp: numbered_def word_less_nat_alt word_le_nat_alt)
  obtain s' where s': "premove p h (queue_record_key (qe_seqno e)) s = Some (0, s')" "ok s'"
    "content s' = (content s)(queue_record_key (qe_seqno e) := None)"
    using remove [OF s(1) queue_record_key_ok] by blast
  let ?cs = "cs\<lparr>messageQueue := cl_remove_at 0 (cl_cur (messageQueue cs)) (messageQueue cs)\<rparr>"
  have i: "cl_items (messageQueue ?cs) = es" using Cons by (simp add: cl_remove_at_def)
  have "perform_queue v Dequeue (cs, s) = Some (0, ?cs, s')"
    using queue_key_fits [OF n(1)] s'(1) Cons cs(1) c(1)
    by (simp add: cl_detach_head_def MQTTPersistence_unpersistQueueEntry_def stores_in_def del: bind_Some_iff)
  moreover have "numbered ?cs" using cs(2) Cons i unfolding numbered_def i by simp
  moreover have "queue_records es (content s')"
    unfolding s'(3) using s(2) Cons n(2) by (intro queue_records_remove) simp_all
  ultimately show ?thesis using s'(2) cs(1) i
    by (intro exI [of _ ?cs] exI [of _ s']) (simp add: stores_in_def del: perform_queue.simps)
qed

lemma queue_calls_keep:
  assumes "ok s" "queue_records (cl_items (messageQueue cs)) (content s)" "stores_in p h cs" "numbered cs"
    "\<forall>qe. Enqueue qe \<in> set calls \<longrightarrow> entry_ok qe" "v < 5" "unat (qentry_seqno cs) + enqueues calls < 1000000"
  shows "\<exists>cs' s'. perform_queue_all v calls (cs, s) = Some (cs', s') \<and> ok s' \<and> numbered cs' \<and>
    queue_records (cl_items (messageQueue cs')) (content s') \<and> unat (qentry_seqno cs') < 1000000"
  using assms
proof (induction calls arbitrary: cs s)
  case (Cons call calls)
  have "\<exists>cs1 s1. perform_queue v call (cs, s) = Some (0, cs1, s1) \<and> ok s1 \<and> stores_in p h cs1 \<and> numbered cs1 \<and>
      queue_records (cl_items (messageQueue cs1)) (content s1) \<and>
      unat (qentry_seqno cs1) + enqueues calls = unat (qentry_seqno cs) + enqueues (call # calls)"
  proof (cases call)
    case (Enqueue qe)
    then have "entry_ok qe" "unat (qentry_seqno cs) + 1 < 1000000" using Cons.prems(5,7) by (auto simp: enqueues_def)
    from enqueue_step [OF Cons.prems(1-4) this(1) Cons.prems(6) this(2)] Enqueue show ?thesis
      by (auto simp: enqueues_def simp del: perform_queue.simps)
  next
    case Dequeue
    have "unat (qentry_seqno cs) < 1000000" using Cons.prems(7) by simp
    from dequeue_step [OF Cons.prems(1-4,6) this] Dequeue show ?thesis
      by (auto simp: enqueues_def simp del: perform_queue.simps)
  qed
  then obtain cs1 s1 where 1: "perform_queue v call (cs, s) = Some (0, cs1, s1)" "ok s1" "stores_in p h cs1" "numbered cs1"
      "queue_records (cl_items (messageQueue cs1)) (content s1)"
      "unat (qentry_seqno cs1) + enqueues calls = unat (qentry_seqno cs) + enqueues (call # calls)" by blast
  have "\<forall>qe. Enqueue qe \<in> set calls \<longrightarrow> entry_ok qe" "unat (qentry_seqno cs1) + enqueues calls < 1000000"
    using Cons.prems(5,7) 1(6) by auto
  from Cons.IH [OF 1(2,5,3,4) this(1) Cons.prems(6) this(2)] 1(1) show ?case by (simp del: perform_queue.simps)
qed (simp add: enqueues_def)

end


section \<open>Restoring the queue\<close>

lemma insertInSeqOrder_items:
  assumes "qe_seqno e \<notin> qe_seqno ` set (cl_items l)"
  shows "cl_items (MQTTPersistence_insertInSeqOrder always_alloc e l) = insort_key qe_seqno e (cl_items l)"
  unfolding insert_at_index [OF assms, symmetric]
  by (simp add: MQTTPersistence_insertInSeqOrder_def cl_insert_def cl_append_def split: option.split)

lemma sorted_entries_unique:
  assumes "sorted_wrt (<) (map qe_seqno xs)" "sorted_wrt (<) (map qe_seqno ys)" "set xs = set ys"
  shows "xs = ys"
proof (rule map_sorted_distinct_set_unique)
  show "inj_on qe_seqno (set xs \<union> set ys)"
    using assms strict_sorted_iff by (metis Un_absorb distinct_map)
qed (use assms strict_sorted_iff in auto)

text \<open>The entries whose keys were read.\<close>

definition restoring_queue :: "MQTTPersistence_qEntry list \<Rightarrow> bytes set \<Rightarrow> 's client_store \<Rightarrow> bool" where
  "restoring_queue es D cs \<longleftrightarrow> numbered cs \<and> qentry_seqno cs \<in> insert 0 (qe_seqno ` set es) \<and>
     set (cl_items (messageQueue cs)) = restored_entry ` {e \<in> set es. queue_record_key (qe_seqno e) \<in> D}"

context message_store
begin

lemma restore_entry_step:
  assumes s: "ok s" "queue_records es (content s)" "sorted_wrt (<) (map qe_seqno es)" "\<forall>e \<in> set es. qe_seqno e < PERSISTENCE_SEQNO_LIMIT"
    and k: "k \<in> dom (content s)" "k \<notin> D" and cs: "stores_in p h cs" "restoring_queue es D cs"
  shows "\<exists>cs'. restore_entry always_alloc p k cs s = Some (0, cs', s) \<and> stores_in p h cs' \<and> restoring_queue es (insert k D) cs'"
proof (cases "has_stem PERSISTENCE_QUEUE_KEY k \<or> has_stem PERSISTENCE_V5_QUEUE_KEY k")
  case False
  then have "(queue_record_key (qe_seqno e) = k) = False" for e :: MQTTPersistence_qEntry using queue_record_key_stem(1) by metis
  then have "restoring_queue es (insert k D) cs" using cs(2) by (simp add: restoring_queue_def)
  then show ?thesis using False cs(1) by (simp add: restore_entry_def)
next
  case True
  then obtain e where e: "e \<in> set es" "k = queue_record_key (qe_seqno e)" using s(2) k(1) by (fastforce simp: queue_records_def)
  then have c: "content s k = Some (entry_record e)" "entry_ok e" using s(2) by (auto simp: queue_records_def)
  have u: "unat (qe_seqno e) < 2 ^ 31" using s(4) e(1) by (fastforce simp: word_less_nat_alt)
  let ?q = "cl_items (messageQueue cs)"
  have inj: "x = e" if "x \<in> set es" "qe_seqno x = qe_seqno e" for x
    using s(3) that e(1) by (metis distinct_map inj_onD strict_sorted_iff)
  have new: "qe_seqno (restored_entry e) \<notin> qe_seqno ` set ?q"
    using cs(2) k(2) e(2) by (auto simp: restoring_queue_def)
  let ?l = "MQTTPersistence_insertInSeqOrder always_alloc (restored_entry e) (messageQueue cs)"
  let ?cs = "cs\<lparr>messageQueue := ?l, qentry_seqno := max (qentry_seqno cs) (qe_seqno e)\<rparr>"
  have q: "(restored_entry e)\<lparr>qe_seqno := qe_seqno e\<rparr> = restored_entry e"
    by (simp add: restored_entry_def)
  have v: "read_record cs p k s = Some (0, Some (entry_record e), s)"
    using get [OF s(1) c(1)] cs(1) by (simp add: read_record_def stores_in_def)
  have "restore_entry always_alloc p k cs s = Some (0, ?cs, s)"
    using v restoreQueueEntry_record [OF c(2)] queue_record_key_number [of "qe_seqno e"] u queue_record_key_stem e(2)
    by (simp add: restore_entry_def q Let_def max_def del: bind_Some_iff)
  moreover have "restoring_queue es (insert k D) ?cs"
  proof -
    note i = insertInSeqOrder_items [OF new]
    have old: "sorted_wrt (<) (map qe_seqno ?q)" "\<forall>e \<in> set ?q. qe_seqno e \<le> qentry_seqno cs"
      using cs(2) by (simp_all add: restoring_queue_def numbered_def)
    have "sorted_wrt (<) (map qe_seqno (insort_key qe_seqno (restored_entry e) ?q))"
      using old(1) new by (simp add: map_insort_key strict_sorted_iff sorted_insort distinct_insort)
    then have "numbered ?cs" using old(2) by (fastforce simp: numbered_def i set_insort_key max_def)
    moreover have "{x \<in> set es. queue_record_key (qe_seqno x) \<in> insert k D} = insert e {x \<in> set es. queue_record_key (qe_seqno x) \<in> D}"
      using e inj by auto
    ultimately show ?thesis using cs(2) e(1) by (auto simp: restoring_queue_def i set_insort_key max_def)
  qed
  ultimately show ?thesis using cs(1) by (auto simp: stores_in_def)
qed

lemma restore_entries_all:
  assumes s: "ok s" "queue_records es (content s)" "sorted_wrt (<) (map qe_seqno es)" "\<forall>e \<in> set es. qe_seqno e < PERSISTENCE_SEQNO_LIMIT"
    and "set ks \<subseteq> dom (content s) - D" "distinct ks" "stores_in p h cs" "restoring_queue es D cs"
  shows "\<exists>cs'. restore_entries always_alloc p ks cs s = Some (0, cs', s) \<and> stores_in p h cs' \<and> restoring_queue es (D \<union> set ks) cs'"
  using assms(5-8)
proof (induction ks arbitrary: D cs)
  case (Cons k ks)
  obtain cs1 where 1: "restore_entry always_alloc p k cs s = Some (0, cs1, s)" "stores_in p h cs1" "restoring_queue es (insert k D) cs1"
    using restore_entry_step [OF s, of k D cs] Cons.prems by auto
  have "set ks \<subseteq> dom (content s) - insert k D" "distinct ks" using Cons.prems(1,2) by auto
  from Cons.IH [OF this 1(2,3)] 1(1) show ?case by simp
qed simp

lemma restore_queue:
  assumes s: "ok s" "queue_records es (content s)" "sorted_wrt (<) (map qe_seqno es)" "\<forall>e \<in> set es. qe_seqno e < PERSISTENCE_SEQNO_LIMIT"
    and cs: "stores_in p h cs" "cl_items (messageQueue cs) = []" "qentry_seqno cs = 0"
  shows "\<exists>cs'. MQTTPersistence_restoreMessageQueue always_alloc cs s = Some (0, cs', s) \<and>
    cl_items (messageQueue cs') = map restored_entry es \<and> numbered cs' \<and> qentry_seqno cs' \<in> insert 0 (qe_seqno ` set es)"
proof -
  obtain ks where ks: "pkeys p h s = Some (0, Some ks, s)" "distinct ks" "set ks = dom (content s)"
    using keys [OF s(1)] by blast
  have "restoring_queue es {} cs" using cs by (simp add: restoring_queue_def numbered_def)
  then obtain cs' where r: "restore_entries always_alloc p ks cs s = Some (0, cs', s)" "restoring_queue es (set ks) cs'"
    using restore_entries_all [OF s _ ks(2) cs(1), of "{}"] ks(3) by auto
  have "queue_record_key (qe_seqno e) \<in> set ks" if "e \<in> set es" for e
    using that s(2) ks(3) by (auto simp: queue_records_def)
  then have "set (cl_items (messageQueue cs')) = set (map restored_entry es)"
    using r(2) by (auto simp: restoring_queue_def)
  then have "cl_items (messageQueue cs') = map restored_entry es"
    by (intro sorted_entries_unique) (use r(2) s(3) in \<open>simp_all add: restoring_queue_def numbered_def comp_def\<close>)
  moreover have "MQTTPersistence_restoreMessageQueue always_alloc cs s = Some (0, cs', s)"
    using ks(1) r(1) cs(1) by (simp add: MQTTPersistence_restoreMessageQueue_def stores_in_def del: bind_Some_iff)
  ultimately show ?thesis using r(2) by (auto simp: restoring_queue_def)
qed

end



definition sample_entry :: "byte \<Rightarrow> MQTTPersistence_qEntry" where
  "sample_entry b =
     \<lparr>qe_msg = \<lparr>pm_struct_version = 1, pm_payloadlen = 1, pm_payload = [b], pm_qos = 1, pm_retained = 0, pm_dup = 0, pm_msgid = 9,
        pm_properties = MQTTProperties_initializer\<rparr>, qe_topicName = [97], qe_topicLen = 0, qe_seqno = 0\<rparr>"


section \<open>Version 5\<close>



end
