(* ===== verification/Recovery.thy ===== *)
theory Recovery
  imports RecoveryOrder StoreRecords Publishing
begin

text \<open>
  Restarting.  \<open>MQTTPersistence_restorePackets\<close> reads back what the calls of \<open>StoreRecords\<close> left in the store:
  every message that was sent and not completed, in the order of sending and waiting for the packet it
  waited for, and every message received with QoS 2 and not released.
\<close>

section \<open>Reading one record\<close>

lemma and_127: "unat ((x :: byte) AND 127) = unat x mod 128"
proof -
  have "x AND 127 = take_bit 7 x" by (rule byte_eqI) (simp_all add: bit_simps)
  then show ?thesis by (simp add: unat_take_byte)
qed

lemma and_128: "(x :: byte) AND 128 \<noteq> 0 \<longleftrightarrow> 128 \<le> unat x"
proof -
  have "\<forall>x :: byte. (x AND 128 \<noteq> 0) = (128 \<le> unat x)" unfolding byte_all_iff by code_simp
  then show ?thesis by simp
qed

lemma low_high: "(a * 128 + b) * m = b * m + a * (m * 128)" for a b m :: nat
  by (simp add: algebra_simps)

lemma restored_length_vbi:
  assumes "n < 128 ^ Suc k" "k \<le> 3" "multiplier = 128 ^ (3 - k)" "len + n * multiplier < 2 ^ 28"
  shows "restored_length (pre @ vbi_enc n @ post) (Suc (Suc k)) (length pre) multiplier len =
    Some (len + n * multiplier, length pre + length (vbi_enc n))"
  using assms
proof (induction k arbitrary: n pre multiplier len)
  case 0
  then have v: "vbi_enc n = [of_nat n]" by (subst vbi_enc.simps) simp
  have u: "unat (of_nat n :: byte) = n" using 0(1) by (simp add: unat_of_nat_byte)
  have m: "multiplier = 2097152" using 0(3) by simp
  have z: "(of_nat n :: byte) AND 128 = 0" using and_128 [of "of_nat n"] 0(1) by (simp add: u)
  show ?case using 0 by (simp add: v m read_at_def and_127 u z)
next
  case (Suc k)
  have m: "multiplier \<le> 128 ^ 3" unfolding Suc.prems(3) by (rule power_increasing) simp_all
  show ?case
  proof (cases "n < 128")
    case True
    then have v: "vbi_enc n = [of_nat n]" by (subst vbi_enc.simps) simp
    have u: "unat (of_nat n :: byte) = n" using True by (simp add: unat_of_nat_byte)
    have z: "(of_nat n :: byte) AND 128 = 0" using and_128 [of "of_nat n"] True by (simp add: u)
    show ?thesis using True Suc.prems(4) m by (simp add: v read_at_def and_127 u z)
  next
    case False
    define c :: byte where "c = of_nat (n mod 128 + 128)"
    have v: "vbi_enc n = c # vbi_enc (n div 128)" using False by (subst vbi_enc.simps) (simp add: c_def)
    have u: "unat c = n mod 128 + 128" by (simp add: c_def unat_of_nat_byte del: of_nat_add)
    have z: "c AND 128 \<noteq> 0" using and_128 [of c] by (simp add: u)
    have s: "n * multiplier = n mod 128 * multiplier + n div 128 * (multiplier * 128)"
      using low_high [of "n div 128" "n mod 128" multiplier] by simp
    have k: "3 - k = Suc (3 - Suc k)" using Suc.prems(2) by simp
    have m': "multiplier * 128 = 128 ^ (3 - k)" unfolding Suc.prems(3) k by (rule power_Suc2 [symmetric])
    have d: "n div 128 < 128 ^ Suc k" using Suc.prems(1) by (simp add: less_mult_imp_div_less mult.commute)
    have "restored_length ((pre @ [c]) @ vbi_enc (n div 128) @ post) (Suc (Suc k)) (length (pre @ [c])) (multiplier * 128)
        (len + n mod 128 * multiplier) =
      Some (len + n mod 128 * multiplier + n div 128 * (multiplier * 128), length (pre @ [c]) + length (vbi_enc (n div 128)))"
      by (rule Suc.IH [OF d _ m']) (use Suc.prems(2,4) s in simp_all)
    moreover have "len + n mod 128 * multiplier < 2 ^ 31" using Suc.prems(4) unfolding s by simp
    ultimately show ?thesis using m s by (simp add: v read_at_def and_127 u z)
  qed
qed

lemma restored_length_record:
  assumes "length body < 2 ^ 28"
  shows "restored_length (h # vbi_enc (length body) @ body) 5 1 1 0 = Some (length body, 1 + length (vbi_enc (length body)))"
proof -
  have f: "(5 :: nat) = Suc (Suc 3)" by simp
  show ?thesis
    unfolding f using restored_length_vbi [of "length body" 3 1 0 "[h]" body] assms by (simp del: restored_length.simps)
qed

text \<open>A record of version 5 is parsed as such, one of version 3.1 as version 3.1.1.\<close>

definition parsed_version :: "int \<Rightarrow> int" where
  "parsed_version v = (if 5 \<le> v then MQTTVERSION_5 else MQTTVERSION_3_1_1)"

text \<open>The packet behind a message in flight.\<close>

definition parsed_publish :: "flight \<Rightarrow> Publish \<Rightarrow> bool" where
  "parsed_publish f P \<longleftrightarrow> publish_header P = flight_header f \<and> publish_topic P = publish_topic (fl_pack f) \<and>
     publish_msgId P = flight_id f \<and> publish_payload P = publish_payload (fl_pack f) \<and>
     (5 \<le> publish_MQTTVersion (fl_pack f) \<longrightarrow> props_entries (publish_properties P) = Some (fl_props f))"

lemma restorePacket_publish:
  assumes "flight_sound v f"
  obtains P where "MQTTPersistence_restorePacket always_alloc (parsed_version v) (publish_record f) = Some (Some (Publish_packet P))"
    "parsed_publish f P"
proof -
  let ?p = "fl_pack f" and ?w = "parsed_version v"
  have ok: "publish_MQTTVersion ?p = v" "length (publish_topic ?p) < 65536" "fl_qos f \<in> {1, 2}" "length (flight_body f) < 2 ^ 28"
    "0 \<le> publish_msgId ?p" "publish_msgId ?p < 65536"
    "5 \<le> v \<longrightarrow> props_arg (Some (publish_properties ?p)) (fl_props f)"
    using assms by (auto simp: flight_sound_def publish_ok_def)
  have q: "header_qos (flight_header f) = fl_qos f" "header_type (flight_header f) = PUBLISH"
    using ok(3) by (auto simp: flight_header_def)
  have w: "5 \<le> ?w \<longleftrightarrow> 5 \<le> v" by (simp add: parsed_version_def)
  have b: "flight_body f = publish_enc ?w (fl_qos f) (publish_topic ?p) (nat (publish_msgId ?p)) (fl_props f) (publish_payload ?p)"
    unfolding flight_body_def publication_def publish_enc_def w ok(1) ..
  have n: "nat (publish_msgId ?p) < 65536" using ok(5,6) by simp
  have r: "5 \<le> ?w \<longrightarrow> (\<forall>p \<in> set (fl_props f). prop_ok p) \<and> length (concat (map prop_enc (fl_props f))) < 2 ^ 28"
    using ok(7) w by (simp add: props_arg_def)
  have q0: "0 \<le> fl_qos f" using ok(3) by auto
  obtain props where P: "MQTTPacket_publish always_alloc ?w (flight_header f) (flight_body f) (length (flight_body f)) =
      Some (Some \<lparr>publish_header = flight_header f, publish_topic = publish_topic ?p,
        publish_topiclen = int (length (publish_topic ?p)), publish_msgId = (if 0 < fl_qos f then int (nat (publish_msgId ?p)) else 0),
        publish_payload = publish_payload ?p, publish_payloadlen = int (length (publish_payload ?p)),
        publish_MQTTVersion = ?w, publish_properties = props, publish_mask = [0, 0, 0, 0]\<rparr>)"
      "5 \<le> ?w \<longrightarrow> props_entries props = Some (fl_props f)"
    by (rule publish_parse [OF ok(2) n q(1) q0 r b])
  show thesis
  proof (rule that)
    show "MQTTPersistence_restorePacket always_alloc ?w (publish_record f) = Some (Some (Publish_packet
      \<lparr>publish_header = flight_header f, publish_topic = publish_topic ?p,
        publish_topiclen = int (length (publish_topic ?p)), publish_msgId = (if 0 < fl_qos f then int (nat (publish_msgId ?p)) else 0),
        publish_payload = publish_payload ?p, publish_payloadlen = int (length (publish_payload ?p)),
        publish_MQTTVersion = ?w, publish_properties = props, publish_mask = [0, 0, 0, 0]\<rparr>))"
      using restored_length_record [OF ok(4), of "flight_header f"] P(1)
      by (simp add: MQTTPersistence_restorePacket_def publish_record_def read_at_def q(2) new_packets_def numeral_3_eq_3 Let_def
          del: bind_Some_iff restored_length.simps)
  qed (use ok(1,3,5) P(2) w in \<open>auto simp: parsed_publish_def flight_id_def\<close>)
qed

lemma restorePacket_pubrel:
  assumes "0 \<le> n" "n < 65536"
  shows "\<exists>ack. MQTTPersistence_restorePacket always_alloc w (pubrel_record dup n) = Some (Some (Ack_packet ack)) \<and> ack_msgId ack = Some n"
proof -
  have l: "restored_length (Header PUBREL dup 1 0 # vbi_enc 2 @ be_bytes 2 (nat n)) 5 1 1 0 = Some (2, 1 + length (vbi_enc 2))"
    using restored_length_record [of "be_bytes 2 (nat n)" "Header PUBREL dup 1 0"] by simp
  have t: "header_type (Header PUBREL dup 1 0) = PUBREL" by simp
  have r: "readInt (be_bytes 2 (nat n)) 0 = Some (nat n, 2)" using readInt_front [of "nat n" "[]"] assms by simp
  have d: "drop (1 + length (vbi_enc 2)) (Header PUBREL dup 1 0 # vbi_enc 2 @ be_bytes 2 (nat n)) = be_bytes 2 (nat n)" by simp
  show ?thesis
    unfolding MQTTPersistence_restorePacket_def pubrel_record_def
    using assms l t r d
    by (simp add: read_at_def new_packets_def parse_ack_def MQTTPacket_ack_def Let_def numeral_eq_Suc
        del: bind_Some_iff restored_length.simps be_bytes.simps)
qed

section \<open>The restored messages\<close>

text \<open>New publications get new addresses.\<close>

definition fresh_publications :: "'s world \<Rightarrow> bool" where
  "fresh_publications w \<longleftrightarrow> (\<forall>a \<in> fst ` set (publications (w_state w)). a < next_publication (w_state w))"

definition extends :: "'s world \<Rightarrow> 's world \<Rightarrow> bool" where
  "extends w w' \<longleftrightarrow> (\<forall>a r. publication_at w (Ptr a) = Some r \<longrightarrow> publication_at w' (Ptr a) = Some r)"

lemma extends_refl [simp]: "extends w w"
  by (simp add: extends_def)

lemma extends_trans: "extends w w' \<Longrightarrow> extends w' w'' \<Longrightarrow> extends w w''"
  by (auto simp: extends_def)

lemma extends_outer [simp]: "extends w (w'\<lparr>w_outer := s\<rparr>) = extends w w'"
  by (simp add: extends_def publication_at_def)

lemma fresh_outer [simp]: "fresh_publications (w\<lparr>w_outer := s\<rparr>) = fresh_publications w"
  by (simp add: fresh_publications_def)

text \<open>What a restored message shows of a message in flight: in version 5 topic and payload of a received one
  are gone, because it was delivered.\<close>

definition shows_flight :: "'s world \<Rightarrow> int \<Rightarrow> flight \<Rightarrow> int \<Rightarrow> bool \<Rightarrow> Messages \<Rightarrow> bool" where
  "shows_flight w v f nxt dropped m \<longleftrightarrow>
     msg_msgid m = flight_id f \<and> msg_qos m = fl_qos f \<and> msg_retain m = fl_retained f \<and> msg_MQTTVersion m = v \<and>
     (5 \<le> v \<longrightarrow> props_entries (msg_properties m) = Some (fl_props f)) \<and> msg_nextMessageType m = nxt \<and>
     (\<exists>a q. msg_publish m = Ptr a \<and> publication_at w (Ptr a) = Some (a, q) \<and>
        pub_topic q = (if dropped then None else Some (publish_topic (fl_pack f))) \<and>
        pub_payload q = (if dropped then None else Some (publish_payload (fl_pack f))))"

lemma shows_flight_extends: "shows_flight w v f nxt dropped m \<Longrightarrow> extends w w' \<Longrightarrow> shows_flight w' v f nxt dropped m"
  unfolding shows_flight_def extends_def by blast

lemma store_publication_fresh:
  assumes "fresh_publications w" "pe_alloc E = always_alloc"
  shows "\<exists>len w'. MQTTProtocol_storePublication E P w = (Ptr (next_publication (w_state w)), len, w') \<and>
    fresh_publications w' \<and> extends w w' \<and> publication_at w (Ptr (next_publication (w_state w))) = None \<and>
    publication_at w' (Ptr (next_publication (w_state w))) = Some (next_publication (w_state w), new_publication P) \<and>
    w_outer w' = w_outer w \<and> w_clients w' = w_clients w"
proof -
  have n: "next_publication (w_state w) \<notin> fst ` set (publications (w_state w))"
    using assms(1) by (auto simp: fresh_publications_def)
  then have "map_of (publications (w_state w)) (next_publication (w_state w)) = None" by (simp add: map_of_eq_None_iff)
  then show ?thesis
    using assms by (auto simp: MQTTProtocol_storePublication_def Let_def fresh_publications_def extends_def publication_at_def
        new_publication_def map_add_def split: option.split)
qed

lemma createMessage_restores:
  assumes "fresh_publications w" "pe_alloc E = always_alloc" "flight_ok v f" "parsed_publish f P"
  obtains m a w' where
    "MQTTProtocol_createMessage E (P\<lparr>publish_MQTTVersion := v\<rparr>) None (fl_qos f) (fl_retained f) True w = Some (Some m, w')"
    "shows_flight w' v f (if fl_qos f = 2 then PUBREC else 0) False m" "msg_publish m = Ptr a"
    "publication_at w (Ptr a) = None" "fresh_publications w'" "extends w w'"
    "w_outer w' = snd (tr_now (pe_transport E) (w_outer w))"
proof -
  let ?P = "P\<lparr>publish_MQTTVersion := v\<rparr>" and ?a = "next_publication (w_state w)"
  obtain len w1 where st: "MQTTProtocol_storePublication E ?P w = (Ptr ?a, len, w1)" "fresh_publications w1" "extends w w1"
    "publication_at w (Ptr ?a) = None" "publication_at w1 (Ptr ?a) = Some (?a, new_publication ?P)" "w_outer w1 = w_outer w"
    using store_publication_fresh [OF assms(1,2), of ?P] by auto
  have "\<exists>props. (if 5 \<le> v then MQTTProperties_copy always_alloc (publish_properties P) else Some MQTTProperties_initializer) = Some props \<and>
      (5 \<le> v \<longrightarrow> props_entries props = Some (fl_props f))"
  proof (cases "5 \<le> v")
    case True
    have "props_arg (Some (publish_properties (fl_pack f))) (fl_props f)" "props_entries (publish_properties P) = Some (fl_props f)"
      using assms(3,4) True by (auto simp: flight_ok_facts publish_ok_def parsed_publish_def)
    then obtain props where "copy_loop always_alloc (fl_props f) MQTTProperties_initializer = Some props" "props_rep props (fl_props f)"
      using copy_loop_rep [OF _ props_rep_initializer, of "fl_props f"] by (auto simp: props_arg_def)
    then show ?thesis
      using True \<open>props_entries (publish_properties P) = Some (fl_props f)\<close> props_rep_entries
      by (auto simp: MQTTProperties_copy_def simp del: bind_Some_iff)
  qed simp
  then obtain props where props: "(if 5 \<le> v then MQTTProperties_copy always_alloc (publish_properties P) else Some MQTTProperties_initializer) = Some props"
    "5 \<le> v \<longrightarrow> props_entries props = Some (fl_props f)" by blast
  obtain now s where now: "tr_now (pe_transport E) (w_outer w1) = (now, s)" by force
  let ?m = "\<lparr>msg_qos = fl_qos f, msg_retain = fl_retained f, msg_msgid = publish_msgId P, msg_MQTTVersion = v, msg_properties = props,
    msg_publish = Ptr ?a, msg_lastTouch = now, msg_nextMessageType = (if fl_qos f = 2 then PUBREC else 0),
    msg_len = pe_sizeof E ''Messages'' + len\<rparr>"
  show thesis
  proof (rule that)
    show "MQTTProtocol_createMessage E ?P None (fl_qos f) (fl_retained f) True w = Some (Some ?m, w1\<lparr>w_outer := s\<rparr>)"
      using assms(2) st(1,5) props(1) now
      by (cases "5 \<le> v") (simp_all add: MQTTProtocol_createMessage_def MQTTTime_now_def del: bind_Some_iff)
    show "shows_flight (w1\<lparr>w_outer := s\<rparr>) v f (if fl_qos f = 2 then PUBREC else 0) False ?m"
      using assms(4) st(5) props(2)
      by (auto simp: shows_flight_def parsed_publish_def publication_at_def new_publication_def)
    show "w_outer (w1\<lparr>w_outer := s\<rparr>) = snd (tr_now (pe_transport E) (w_outer w))" using now st(6) by simp
  qed (use st in simp_all)
qed


section \<open>The loop over the keys\<close>

text \<open>The contents of a store without the orphans among the PUBRELs whose keys were read.\<close>

definition without_orphans :: "int \<Rightarrow> bytes set \<Rightarrow> in_store \<Rightarrow> in_store" where
  "without_orphans v D A = A\<lparr>st_pubrel := (\<lambda>n. if 0 \<le> n \<and> pubrel_key v n \<in> D \<and> st_sent A n = None then None else st_pubrel A n)\<rparr>"

definition restored_next :: "in_store \<Rightarrow> flight \<Rightarrow> int" where
  "restored_next A f = (if st_pubrel A (flight_id f) \<noteq> None then PUBCOMP else if fl_qos f = 2 then PUBREC else 0)"

text \<open>What was restored of the records with keys in \<open>D\<close>.\<close>

definition restored_sent :: "'s world \<Rightarrow> int \<Rightarrow> in_store \<Rightarrow> bytes set \<Rightarrow> Messages list \<Rightarrow> bool" where
  "restored_sent w v A D ms \<longleftrightarrow>
     distinct (map msg_msgid ms) \<and> set (map msg_msgid ms) = {n \<in> dom (st_sent A). sent_key v n \<in> D} \<and>
     (\<forall>m \<in> set ms. \<exists>f. st_sent A (msg_msgid m) = Some f \<and> shows_flight w v f (restored_next A f) False m)"

definition restored_received :: "'s world \<Rightarrow> int \<Rightarrow> in_store \<Rightarrow> bytes set \<Rightarrow> Messages list \<Rightarrow> bool" where
  "restored_received w v A D ms \<longleftrightarrow>
     distinct (map msg_msgid ms) \<and> set (map msg_msgid ms) = {n \<in> dom (st_received A). received_key v n \<in> D} \<and>
     (\<forall>m \<in> set ms. \<exists>f. st_received A (msg_msgid m) = Some f \<and> shows_flight w v f PUBREL (5 \<le> v) m)"

lemma restored_sent_mono:
  "restored_sent w v A D ms \<Longrightarrow> extends w w' \<Longrightarrow>
   (\<And>n. n \<in> dom (st_sent A) \<Longrightarrow> sent_key v n \<in> D' \<longleftrightarrow> sent_key v n \<in> D) \<Longrightarrow> restored_sent w' v A D' ms"
  unfolding restored_sent_def by (fastforce intro: shows_flight_extends)

lemma restored_received_mono:
  "restored_received w v A D ms \<Longrightarrow> extends w w' \<Longrightarrow>
   (\<And>n. n \<in> dom (st_received A) \<Longrightarrow> received_key v n \<in> D' \<longleftrightarrow> received_key v n \<in> D) \<Longrightarrow> restored_received w' v A D' ms"
  unfolding restored_received_def by (fastforce intro: shows_flight_extends)

lemma records_ids:
  assumes "records v A m"
  shows "n \<in> dom (st_sent A) \<Longrightarrow> 0 \<le> n" "n \<in> dom (st_received A) \<Longrightarrow> 0 \<le> n" "n \<in> dom (st_pubrel A) \<Longrightarrow> 0 \<le> n"
  using assms by (fastforce simp: records_def flight_ok_facts)+

lemma without_orphans_simps [simp]:
  "st_sent (without_orphans v D A) = st_sent A" "st_received (without_orphans v D A) = st_received A"
  by (simp_all add: without_orphans_def)

text \<open>The state of the loop: the client apart from its two lists is as it was.\<close>

definition restoring :: "Clients \<Rightarrow> int \<Rightarrow> in_store \<Rightarrow> bytes set \<Rightarrow> Clients \<Rightarrow> 's world \<Rightarrow> bool" where
  "restoring c0 v A D c w \<longleftrightarrow> c\<lparr>outboundMsgs := outboundMsgs c0, inboundMsgs := inboundMsgs c0\<rparr> = c0 \<and>
     sorted (map msg_msgid (cl_items (outboundMsgs c))) \<and>
     restored_sent w v A D (cl_items (outboundMsgs c)) \<and> restored_received w v A D (cl_items (inboundMsgs c)) \<and>
     fresh_publications w"

lemma restoring_other:
  assumes "restoring c0 v A D c w" "fresh_publications w'" "extends w w'"
    "\<And>n. n \<in> dom (st_sent A) \<Longrightarrow> sent_key v n \<noteq> k" "\<And>n. n \<in> dom (st_received A) \<Longrightarrow> received_key v n \<noteq> k"
  shows "restoring c0 v A (insert k D) c w'"
  using assms restored_sent_mono [of w v A D _ w' "insert k D"] restored_received_mono [of w v A D _ w' "insert k D"]
  unfolding restoring_def by auto


lemma sent_step:
  assumes r: "restoring c0 v A D c w" and f: "st_sent A (flight_id f) = Some f" "flight_ok v f" "sent_key v (flight_id f) \<notin> D"
    and E: "pe_alloc E = always_alloc" "parsed_publish f P" "client_MQTTVersion c = v"
    and ids: "\<And>n. n \<in> dom (st_sent A) \<Longrightarrow> 0 \<le> n" "\<And>n. n \<in> dom (st_received A) \<Longrightarrow> 0 \<le> n"
    and p: "pcontainskey p (phandle cs) (pubrel_key v (flight_id f)) (snd (tr_now (pe_transport E) (w_outer w))) = Some (rc, s')"
      "rc = 0 \<longleftrightarrow> st_pubrel A (flight_id f) \<noteq> None"
  shows "\<exists>c' w'. restore_sent E cs p P c w = Some (0, False, c', w') \<and>
    restoring c0 v A (insert (sent_key v (flight_id f)) D) c' w' \<and> w_outer w' = s'"
proof -
  have n: "0 \<le> flight_id f" "flight_id f \<le> id_limit v" using f(2) by (simp_all add: flight_ok_facts)
  have h: "header_qos (publish_header P) = fl_qos f" "header_retain (publish_header P) = fl_retained f"
    using E(2) f(2) by (auto simp: parsed_publish_def flight_header_def flight_ok_facts)
  have id: "publish_msgId P = flight_id f" using E(2) by (simp add: parsed_publish_def)
  obtain m a w1 where m: "MQTTProtocol_createMessage E (P\<lparr>publish_MQTTVersion := v\<rparr>) None (fl_qos f) (fl_retained f) True w = Some (Some m, w1)"
    "shows_flight w1 v f (if fl_qos f = 2 then PUBREC else 0) False m" "fresh_publications w1" "extends w w1"
    "w_outer w1 = snd (tr_now (pe_transport E) (w_outer w))"
    by (rule createMessage_restores [OF _ E(1) f(2) E(2), of w]) (use r in \<open>auto simp: restoring_def\<close>)
  let ?m = "(if rc = 0 then m\<lparr>msg_nextMessageType := PUBCOMP\<rparr> else m)\<lparr>msg_lastTouch := 0\<rparr>"
  let ?l = "MQTTPersistence_insertInOrder always_alloc ?m (outboundMsgs c)" and ?D = "insert (sent_key v (flight_id f)) D"
  let ?w = "w1\<lparr>w_outer := s'\<rparr>"
  have stem: "(if 5 \<le> v then PERSISTENCE_V5_PUBREL else PERSISTENCE_PUBREL) = packet_stem PUBREL False v"
    by (simp add: packet_stem_def)
  have shown: "shows_flight ?w v f (restored_next A f) False ?m"
    using m(2) p(2) by (auto simp: shows_flight_def restored_next_def publication_at_def)
  have i: "msg_msgid ?m = flight_id f" using shown by (simp add: shows_flight_def)
  have s: "restored_sent w v A D (cl_items (outboundMsgs c))" "sorted (map msg_msgid (cl_items (outboundMsgs c)))"
    using r by (simp_all add: restoring_def)
  have new: "msg_msgid ?m \<notin> msg_msgid ` set (cl_items (outboundMsgs c))"
    unfolding i using s(1) f(3) by (simp add: restored_sent_def)
  note items = insertInOrder_items [OF new]
  have old: "restored_sent ?w v A D (cl_items (outboundMsgs c))"
    by (rule restored_sent_mono [OF s(1)]) (use m(4) in simp_all)
  have sent: "restored_sent ?w v A ?D (cl_items ?l)"
    unfolding items restored_sent_def
  proof (intro conjI)
    show "distinct (map msg_msgid (insort_key msg_msgid ?m (cl_items (outboundMsgs c))))"
      using new old by (simp add: map_insort_key distinct_insort restored_sent_def)
    have e: "sent_key v x = sent_key v (flight_id f) \<longleftrightarrow> x = flight_id f" if "x \<in> dom (st_sent A)" for x
      by (rule record_keys_eq) (use ids(1) [OF that] n(1) in simp_all)
    have d: "flight_id f \<in> dom (st_sent A)" using f(1) by blast
    have k: "{n \<in> dom (st_sent A). sent_key v n \<in> ?D} = insert (flight_id f) {n \<in> dom (st_sent A). sent_key v n \<in> D}"
      using e d by blast
    show "set (map msg_msgid (insort_key msg_msgid ?m (cl_items (outboundMsgs c)))) = {n \<in> dom (st_sent A). sent_key v n \<in> ?D}"
      unfolding k using i old by (simp add: map_insort_key set_insort_key restored_sent_def)
    show "\<forall>m \<in> set (insort_key msg_msgid ?m (cl_items (outboundMsgs c))). \<exists>f. st_sent A (msg_msgid m) = Some f \<and>
        shows_flight ?w v f (restored_next A f) False m"
      unfolding set_insort_key ball_simps insert_iff using old i f(1) shown by (auto simp: restored_sent_def)
  qed
  have recv: "restored_received ?w v A ?D (cl_items (inboundMsgs c))"
    by (rule restored_received_mono [of w v A D]) (use r m(4) ids n(1) record_keys_eq in \<open>auto simp: restoring_def\<close>)
  have sort: "sorted (map msg_msgid (cl_items ?l))" unfolding items using s(2) by (simp add: map_insort_key sorted_insort)
  have "restore_sent E cs p P c w = Some (0, False, c\<lparr>outboundMsgs := ?l\<rparr>, ?w)"
    unfolding restore_sent_def Let_def E(1,3) stem
    using m(1,5) p(1) h id message_key_record(2) [OF n] by (simp del: bind_Some_iff)
  moreover have "restoring c0 v A ?D (c\<lparr>outboundMsgs := ?l\<rparr>) ?w"
    using r sent recv sort m(3) by (simp add: restoring_def)
  ultimately show ?thesis by auto
qed

lemma received_step:
  assumes r: "restoring c0 v A D c w" and f: "st_received A (flight_id f) = Some f" "flight_ok v f" "received_key v (flight_id f) \<notin> D"
    and E: "pe_alloc E = always_alloc" "parsed_publish f P" "client_MQTTVersion c = v"
    and ids: "\<And>n. n \<in> dom (st_sent A) \<Longrightarrow> 0 \<le> n" "\<And>n. n \<in> dom (st_received A) \<Longrightarrow> 0 \<le> n"
  shows "\<exists>c' w'. restore_received E P c w = Some (c', w') \<and> restoring c0 v A (insert (received_key v (flight_id f)) D) c' w' \<and>
    w_outer w' = snd (tr_now (pe_transport E) (w_outer w))"
proof -
  have n: "0 \<le> flight_id f" "flight_id f \<le> id_limit v" using f(2) by (simp_all add: flight_ok_facts)
  have h: "header_qos (publish_header P) = fl_qos f" "header_retain (publish_header P) = fl_retained f"
    using E(2) f(2) by (auto simp: parsed_publish_def flight_header_def flight_ok_facts)
  obtain m a w1 where m: "MQTTProtocol_createMessage E (P\<lparr>publish_MQTTVersion := v\<rparr>) None (fl_qos f) (fl_retained f) True w = Some (Some m, w1)"
    "shows_flight w1 v f (if fl_qos f = 2 then PUBREC else 0) False m" "msg_publish m = Ptr a" "publication_at w (Ptr a) = None"
    "fresh_publications w1" "extends w w1" "w_outer w1 = snd (tr_now (pe_transport E) (w_outer w))"
    by (rule createMessage_restores [OF _ E(1) f(2) E(2), of w]) (use r in \<open>auto simp: restoring_def\<close>)
  obtain q where q: "publication_at w1 (Ptr a) = Some (a, q)" using m(2,3) by (auto simp: shows_flight_def)
  let ?m = "m\<lparr>msg_nextMessageType := PUBREL\<rparr>"
  let ?w = "if 5 \<le> v then set_publication a (q\<lparr>pub_payload := None, pub_topic := None\<rparr>) w1 else w1"
  let ?l = "cl_append ?m (inboundMsgs c)" and ?D = "insert (received_key v (flight_id f)) D"
  have ext: "extends w ?w" using m(4,6) by (auto simp: extends_def publication_at_set)
  have shown: "shows_flight ?w v f PUBREL (5 \<le> v) ?m"
    using m(2,3) q by (auto simp: shows_flight_def publication_at_set)
  have i: "msg_msgid ?m = flight_id f" using shown by (simp add: shows_flight_def)
  have fresh: "fresh_publications ?w"
    using m(5) by (auto simp: fresh_publications_def set_publication_def)
  have outer: "w_outer ?w = w_outer w1" by (simp add: set_publication_def)
  have old: "restored_received ?w v A D (cl_items (inboundMsgs c))"
    by (rule restored_received_mono [of w v A D]) (use r ext in \<open>simp_all add: restoring_def\<close>)
  have new: "msg_msgid ?m \<notin> msg_msgid ` set (cl_items (inboundMsgs c))"
    unfolding i using old f(3) by (simp add: restored_received_def)
  have recv: "restored_received ?w v A ?D (cl_items ?l)"
    unfolding restored_received_def
  proof (intro conjI)
    show "distinct (map msg_msgid (cl_items ?l))" using new old by (simp add: cl_append_def restored_received_def)
    have e: "received_key v x = received_key v (flight_id f) \<longleftrightarrow> x = flight_id f" if "x \<in> dom (st_received A)" for x
      by (rule record_keys_eq) (use ids(2) [OF that] n(1) in simp_all)
    have d: "flight_id f \<in> dom (st_received A)" using f(1) by blast
    have k: "{n \<in> dom (st_received A). received_key v n \<in> ?D} =
        insert (flight_id f) {n \<in> dom (st_received A). received_key v n \<in> D}"
      using e d by blast
    show "set (map msg_msgid (cl_items ?l)) = {n \<in> dom (st_received A). received_key v n \<in> ?D}"
      unfolding k using i old by (simp add: cl_append_def restored_received_def)
    show "\<forall>m \<in> set (cl_items ?l). \<exists>f. st_received A (msg_msgid m) = Some f \<and> shows_flight ?w v f PUBREL (5 \<le> v) m"
      using old i f(1) shown by (auto simp: cl_append_def restored_received_def)
  qed
  have sent: "restored_sent ?w v A ?D (cl_items (outboundMsgs c))"
    by (rule restored_sent_mono [of w v A D]) (use r ext ids n(1) record_keys_eq in \<open>auto simp: restoring_def\<close>)
  have "restore_received E P c w = Some (c\<lparr>inboundMsgs := ?l\<rparr>, ?w)"
    unfolding restore_received_def Let_def E(1,3) using m(1,3) q h by (simp add: E(1,3) del: bind_Some_iff)
  moreover have "restoring c0 v A ?D (c\<lparr>inboundMsgs := ?l\<rparr>) ?w"
    using r sent recv fresh by (simp add: restoring_def)
  ultimately show ?thesis using outer m(7) by auto
qed


context message_store
begin

text \<open>One record.  Reading the clock leaves the store as it is.\<close>

lemma restore_key_record:
  assumes m0: "records v A m0" "D \<subseteq> dom m0" "k \<in> dom m0" "k \<notin> D"
    and s: "ok (w_outer w)" "records v (without_orphans v D A) (content (w_outer w))"
    and r: "restoring c0 v A D c w"
    and E: "pe_alloc E = always_alloc" "client_MQTTVersion c0 = v" "stores_in p h cs"
    and clock: "\<And>s. ok s \<Longrightarrow> ok (snd (tr_now (pe_transport E) s)) \<and> content (snd (tr_now (pe_transport E) s)) = content s"
  shows "\<exists>c' w'. restore_key E cs p k c w = Some (0, False, c', w') \<and> restoring c0 v A (insert k D) c' w' \<and>
    ok (w_outer w') \<and> records v (without_orphans v (insert k D) A) (content (w_outer w'))"
proof -
  note ids = records_ids(1,2) [OF m0(1)]
  have c0: "c\<lparr>outboundMsgs := outboundMsgs c0, inboundMsgs := inboundMsgs c0\<rparr> = c0" using r by (simp add: restoring_def)
  have "client_MQTTVersion c = client_MQTTVersion (c\<lparr>outboundMsgs := outboundMsgs c0, inboundMsgs := inboundMsgs c0\<rparr>)" by simp
  then have cv: "client_MQTTVersion c = v" unfolding c0 E(2) .
  have h: "phandle cs = h" "afterRead cs = None" using E(3) by (simp_all add: stores_in_def)
  have pv: "(if 5 \<le> v then MQTTVERSION_5 else MQTTVERSION_3_1_1) = parsed_version v" by (simp add: parsed_version_def)
  have vv: "\<not> (parsed_version v = MQTTVERSION_5 \<and> v < 5)" by (simp add: parsed_version_def)
  have "record_key v k" using m0(1,3) unfolding records_def by blast
  then show ?thesis
  proof (cases rule: record_keyE)
    case (1 n)
    then obtain f where f: "st_sent A n = Some f" "flight_ok v f" "flight_id f = n"
      using m0(1,3) by (auto simp: records_def)
    have c: "content (w_outer w) k = Some (publish_record f)" using s(2) 1 f(1) by (simp add: records_def)
    obtain P where P: "MQTTPersistence_restorePacket always_alloc (parsed_version v) (publish_record f) = Some (Some (Publish_packet P))"
      "parsed_publish f P" by (rule restorePacket_publish [of v f]) (use f(2) in \<open>simp add: flight_ok_def\<close>)
    let ?s = "snd (tr_now (pe_transport E) (w_outer w))"
    obtain rc where rc: "pcontainskey p h (pubrel_key v n) ?s = Some (rc, ?s)" "rc = 0 \<longleftrightarrow> pubrel_key v n \<in> dom (content ?s)"
      using contains [of ?s "pubrel_key v n"] clock [OF s(1)] record_keys_ok(2) [OF 1(1)] by auto
    have "content (w_outer w) (pubrel_key v n) = map_option (\<lambda>dup. pubrel_record dup n) (st_pubrel A n)"
      using s(2) 1(1) f(1) by (simp add: records_def without_orphans_def)
    then have rc0: "rc = 0 \<longleftrightarrow> st_pubrel A (flight_id f) \<noteq> None" using rc(2) clock [OF s(1)] f(3) by (auto simp: dom_def)
    obtain c' w' where st: "restore_sent E cs p P c w = Some (0, False, c', w')"
      "restoring c0 v A (insert k D) c' w'" "w_outer w' = ?s"
      using sent_step [OF r _ f(2) _ E(1) P(2) cv ids, of p cs rc ?s] f(1,3) rc(1) rc0 m0(4) 1(2) h by auto
    have "restore_key E cs p k c w = Some (0, False, c', w')"
      using get [OF s(1) c] P(1) st(1) 1 h record_keys_restored vv
      by (simp add: restore_key_def read_record_def restore_record_def record_kind_keys pv E(1) cv key_stems del: bind_Some_iff)
    moreover have "without_orphans v (insert k D) A = without_orphans v D A"
      using 1 by (simp add: without_orphans_def record_keys_eq cong: if_cong conj_cong)
    ultimately show ?thesis using st(2,3) clock [OF s(1)] s(2) by auto
  next
    case (2 n)
    then obtain dup where dup: "st_pubrel A n = Some dup" "n \<in> {1..id_limit v}"
      using m0(1,3) by (auto simp: records_def)
    have kD: "pubrel_key v n \<notin> D" using m0(4) 2(2) by simp
    have c: "content (w_outer w) k = Some (pubrel_record dup n)"
      using s(2) 2 dup(1) kD by (simp add: records_def without_orphans_def)
    have n: "0 \<le> n" "n < 65536" using dup(2) by (auto simp: id_limit_def split: if_splits)
    obtain ack where ack: "MQTTPersistence_restorePacket always_alloc (parsed_version v) (pubrel_record dup n) = Some (Some (Ack_packet ack))"
      "ack_msgId ack = Some n" using restorePacket_pubrel [OF n] by blast
    obtain rc where rc: "pcontainskey p h (sent_key v n) (w_outer w) = Some (rc, w_outer w)"
      "rc = 0 \<longleftrightarrow> sent_key v n \<in> dom (content (w_outer w))"
      using contains [OF s(1) record_keys_ok(1) [OF n(1), of v]] by blast
    have rc0: "rc = 0 \<longleftrightarrow> st_sent A n \<noteq> None" using rc(2) s(2) n(1) by (auto simp: records_def dom_def)
    obtain s' where s': "premove p h k (w_outer w) = Some (0, s')" "ok s'" "content s' = (content (w_outer w))(k := None)"
      using remove [OF s(1) record_keys_ok(2) [OF n(1)]] 2(2) by auto
    let ?s = "if st_sent A n = None then s' else w_outer w"
    have stem: "(if 5 \<le> v then PERSISTENCE_V5_PUBLISH_SENT else PERSISTENCE_PUBLISH_SENT) = packet_stem PUBLISH False v"
      by (simp add: packet_stem_def)
    have st: "restore_pubrel E cs p k ack c w = Some (0, False, c, w\<lparr>w_outer := ?s\<rparr>)"
      using message_key_record(1) [of n v] dup(2) ack(2) rc(1) rc0 s'(1)
      by (simp add: restore_pubrel_def E(1) cv h stem del: bind_Some_iff)
    have "restore_key E cs p k c w = Some (0, False, c, w\<lparr>w_outer := ?s\<rparr>)"
      using get [OF s(1) c] ack(1) st 2 h record_keys_restored vv
      by (simp add: restore_key_def read_record_def restore_record_def record_kind_keys pv E(1) cv key_stems del: bind_Some_iff)
    moreover have "restoring c0 v A (insert k D) c (w\<lparr>w_outer := ?s\<rparr>)"
      by (rule restoring_other [OF r]) (use r 2 ids record_keys_eq in \<open>auto simp: restoring_def\<close>)
    moreover have e: "pubrel_key v i \<in> insert k D \<longleftrightarrow> i = n \<or> pubrel_key v i \<in> D" if "0 \<le> i" for i
      using that 2 by (simp add: record_keys_eq)
    have "(\<lambda>i. if 0 \<le> i \<and> pubrel_key v i \<in> insert k D \<and> st_sent A i = None then None else st_pubrel A i) =
        (if st_sent A n = None then (\<lambda>i. if 0 \<le> i \<and> pubrel_key v i \<in> D \<and> st_sent A i = None then None else st_pubrel A i)(n := None)
         else (\<lambda>i. if 0 \<le> i \<and> pubrel_key v i \<in> D \<and> st_sent A i = None then None else st_pubrel A i))"
    proof
      fix i show "(if 0 \<le> i \<and> pubrel_key v i \<in> insert k D \<and> st_sent A i = None then None else st_pubrel A i) =
        (if st_sent A n = None then (\<lambda>i. if 0 \<le> i \<and> pubrel_key v i \<in> D \<and> st_sent A i = None then None else st_pubrel A i)(n := None)
         else (\<lambda>i. if 0 \<le> i \<and> pubrel_key v i \<in> D \<and> st_sent A i = None then None else st_pubrel A i)) i"
        using n(1) by (cases "0 \<le> i") (auto simp add: e simp del: insert_iff)
    qed
    then have "without_orphans v (insert k D) A = (if st_sent A n = None
        then (without_orphans v D A)\<lparr>st_pubrel := (st_pubrel (without_orphans v D A))(n := None)\<rparr> else without_orphans v D A)"
      unfolding without_orphans_def by simp
    then have "records v (without_orphans v (insert k D) A) (content ?s)"
      using records_remove(2) [OF s(2) n(1)] s'(3) 2(2) s(2) by simp
    ultimately show ?thesis using s'(2) s(1) by simp
  next
    case (3 n)
    then obtain f where f: "st_received A n = Some f" "flight_ok v f" "flight_id f = n"
      using m0(1,3) by (auto simp: records_def)
    have c: "content (w_outer w) k = Some (publish_record f)" using s(2) 3 f(1) by (simp add: records_def)
    obtain P where P: "MQTTPersistence_restorePacket always_alloc (parsed_version v) (publish_record f) = Some (Some (Publish_packet P))"
      "parsed_publish f P" by (rule restorePacket_publish [of v f]) (use f(2) in \<open>simp add: flight_ok_def\<close>)
    obtain c' w' where st: "restore_received E P c w = Some (c', w')" "restoring c0 v A (insert k D) c' w'"
      "w_outer w' = snd (tr_now (pe_transport E) (w_outer w))"
      using received_step [OF r _ f(2) _ E(1) P(2) cv ids] f(1,3) m0(4) 3(2) by auto
    have "restore_key E cs p k c w = Some (0, False, c', w')"
      using get [OF s(1) c] P(1) st(1) 3 h record_keys_restored vv
      by (simp add: restore_key_def read_record_def restore_record_def record_kind_keys pv E(1) cv key_stems del: bind_Some_iff)
    moreover have "without_orphans v (insert k D) A = without_orphans v D A"
      using 3 by (simp add: without_orphans_def record_keys_eq cong: if_cong conj_cong)
    ultimately show ?thesis using st(2,3) clock [OF s(1)] s(2) by auto
  qed
qed

lemma restore_loop_records:
  assumes "records v A m0" "D \<subseteq> dom m0" "set keys \<subseteq> dom m0 - D" "distinct keys"
    "ok (w_outer w)" "records v (without_orphans v D A) (content (w_outer w))" "restoring c0 v A D c w"
    and E: "pe_alloc E = always_alloc" "client_MQTTVersion c0 = v" "stores_in p h cs"
    and clock: "\<And>s. ok s \<Longrightarrow> ok (snd (tr_now (pe_transport E) s)) \<and> content (snd (tr_now (pe_transport E) s)) = content s"
  shows "\<exists>c' w'. restore_loop E cs p keys c w = Some (0, False, c', w') \<and> restoring c0 v A (D \<union> set keys) c' w' \<and>
    ok (w_outer w') \<and> records v (without_orphans v (D \<union> set keys) A) (content (w_outer w'))"
  using assms(2-7)
proof (induction keys arbitrary: D c w)
  case (Cons k keys)
  obtain c1 w1 where 1: "restore_key E cs p k c w = Some (0, False, c1, w1)" "restoring c0 v A (insert k D) c1 w1"
    "ok (w_outer w1)" "records v (without_orphans v (insert k D) A) (content (w_outer w1))"
    using restore_key_record [OF assms(1) Cons.prems(1) _ _ Cons.prems(4-6) E clock, of k] Cons.prems(2) by auto
  have "insert k D \<subseteq> dom m0" "set keys \<subseteq> dom m0 - insert k D" "distinct keys" using Cons.prems(1-3) by auto
  from Cons.IH [OF this 1(3,4,2)] show ?case using 1(1) by simp
qed simp

text \<open>All records.\<close>

lemma restorePackets_records:
  assumes s: "ok (w_outer w)" "records v A (content (w_outer w))"
    and c: "cl_items (outboundMsgs c) = []" "cl_items (inboundMsgs c) = []" "fresh_publications w"
    and E: "pe_alloc E = always_alloc" "client_MQTTVersion c = v" "stores_in p h cs"
    and clock: "\<And>s. ok s \<Longrightarrow> ok (snd (tr_now (pe_transport E) s)) \<and> content (snd (tr_now (pe_transport E) s)) = content s"
  shows "\<exists>c' w'. MQTTPersistence_restorePackets E cs c w = Some (0, c', w') \<and>
    restored_sent w' v A UNIV (cl_items (outboundMsgs c')) \<and>
    (\<forall>ids. sent_in_order ids \<and> set ids = dom (st_sent A) \<longrightarrow> map msg_msgid (cl_items (outboundMsgs c')) = ids) \<and>
    restored_received w' v A UNIV (cl_items (inboundMsgs c')) \<and>
    ok (w_outer w') \<and> records v (without_orphans v UNIV A) (content (w_outer w'))"
proof -
  let ?m = "content (w_outer w)"
  obtain ks where ks: "pkeys p h (w_outer w) = Some (0, Some ks, w_outer w)" "distinct ks" "set ks = dom ?m"
    using keys [OF s(1)] by blast
  have A: "without_orphans v {} A = A" by (simp add: without_orphans_def)
  have i: "restoring c v A {} c w" using c by (simp add: restoring_def restored_sent_def restored_received_def)
  obtain c1 w1 where 1: "restore_loop E cs p ks c w = Some (0, False, c1, w1)" "restoring c v A (dom ?m) c1 w1"
    "ok (w_outer w1)" "records v (without_orphans v (dom ?m) A) (content (w_outer w1))"
    using restore_loop_records [OF s(2) _ _ ks(2) s(1) _ i E clock] s(2) ks(3) A by auto
  let ?l = "MQTTPersistence_wrapMsgID (outboundMsgs c1)"
  have k: "sent_key v n \<in> dom ?m" if "n \<in> dom (st_sent A)" for n
    using that s(2) records_ids(1) [OF s(2) that] by (auto simp: records_def)
  have "received_key v n \<in> dom ?m" if "n \<in> dom (st_received A)" for n
    using that s(2) records_ids(2) [OF s(2) that] by (auto simp: records_def)
  then have recv: "restored_received w1 v A UNIV (cl_items (inboundMsgs c1))"
    using 1(2) restored_received_mono [of w1 v A "dom ?m" _ w1 UNIV] by (simp add: restoring_def)
  have sent: "restored_sent w1 v A UNIV (cl_items (outboundMsgs c1))"
    using 1(2) restored_sent_mono [of w1 v A "dom ?m" _ w1 UNIV] k by (simp add: restoring_def)
  have wrapped: "restored_sent w1 v A UNIV (cl_items ?l)"
    using sent wrapMsgID_distinct [of "outboundMsgs c1"] wrapMsgID_set [of "outboundMsgs c1"]
    by (simp only: restored_sent_def set_map) simp
  have order: "map msg_msgid (cl_items ?l) = ids" if "sent_in_order ids" "set ids = dom (st_sent A)" for ids
    by (rule wrapMsgID_order [OF that(1)]) (use 1(2) sent that(2) in \<open>auto simp: restoring_def restored_sent_def\<close>)
  have "pubrel_key v n \<in> dom ?m \<longleftrightarrow> st_pubrel A n \<noteq> None" if "0 \<le> n" for n
    using s(2) that by (auto simp: records_def)
  then have wo: "without_orphans v (dom ?m) A = without_orphans v UNIV A"
    by (auto simp: without_orphans_def fun_eq_iff)
  have p: "persistence cs = Some p" "phandle cs = h" using E(3) by (simp_all add: stores_in_def)
  have "MQTTPersistence_restorePackets E cs c w = Some (0, c1\<lparr>outboundMsgs := ?l\<rparr>, w1)"
    using ks(1) 1(1) by (simp add: MQTTPersistence_restorePackets_def p del: bind_Some_iff)
  then show ?thesis using wrapped order recv 1(3,4) unfolding wo by auto
qed

end

section \<open>Recovery from the files\<close>


section \<open>An instance\<close>

definition still_env :: "'s protocol_env" where
  "still_env =
     \<lparr>pe_transport = \<lparr>tr_framePos = (\<lambda>s. 0), tr_framePosSeekTo = (\<lambda>n s. s), tr_getch = (\<lambda>nh s. (SOCKET_ERROR, 0, s)),
        tr_getdata = (\<lambda>nh n s. (None, 0, s)), tr_putdatas = (\<lambda>nh hdr bufs s. (TCPSOCKET_COMPLETE, bufs, s)),
        tr_putPacket = (\<lambda>sock hdr bufs t n r v s. (0, s)), tr_now = (\<lambda>s. (7, s)), tr_alloc = always_alloc, tr_junk = 0\<rparr>,
      pe_sizeof = (\<lambda>_. 64), pe_noPendingWrites = (\<lambda>sock s. True), pe_updateWrite = (\<lambda>sock t p s. s),
      pe_remove = (\<lambda>c key q n s. (0, s)), pe_process = (\<lambda>p c b s. s), pe_close = (\<lambda>c s. (c, s))\<rparr>"

definition sample_flight :: "int \<Rightarrow> int \<Rightarrow> bytes \<Rightarrow> flight" where
  "sample_flight n qos payload = \<lparr>fl_pack = sample_publish n payload, fl_dup = 0, fl_qos = qos, fl_retained = 0, fl_props = []\<rparr>"

text \<open>The identifiers 65535, 1 and 2 were assigned; 1 waits for PUBCOMP, 2 is complete, 7 was received.\<close>

definition sample_calls :: "store_call list" where
  "sample_calls = [Store_sent (sample_flight 65535 1 [1]), Store_sent (sample_flight 1 2 [2]), Store_pubrel 0 1,
     Store_received (sample_flight 7 2 [3]), Store_sent (sample_flight 2 1 []), Forget_sent 2]"

definition restarted_world :: "file_system world" where
  "restarted_world = \<lparr>w_clients = cl_zero, w_state = \<lparr>publications = [], next_publication = 1, msgs_received = 0, msgs_sent = 0,
     pending_writes = []\<rparr>, w_outer = sample_files\<rparr>"


end
