(* ===== verification/LargeIds.thy ===== *)
theory LargeIds
  imports Recovery
begin

text \<open>
  Identifiers of five digits, which \<open>MQTTProtocol_assignMsgId\<close> gives after 9999 messages, do not fit into the keys
  of a version 5 PUBREL.  This affects clients of both versions.
\<close>

lemma large_id_length: "n \<in> {10000..65535} \<Longrightarrow> length (dec_bytes (nat n)) = 5"
  using length_dec_bytes [of "nat n" 4] length_dec_bytes_ge [of 4 "nat n"] by (fastforce simp: nat_le_eq_zle)

lemma large_id_keys:
  assumes "n \<in> {10000..65535}"
  shows "message_key PERSISTENCE_V5_PUBLISH_SENT n = Some (sent_key 5 n)" "message_key PERSISTENCE_V5_PUBREL n = None"
  using assms large_id_length [OF assms]
  by (simp_all add: message_key_def key_stems dec_int_pos record_keys packet_stem_def)

text \<open>C17. A message with an identifier of five digits is never forgotten by a version 3.1.1 client with the file store:
  \<open>MQTTPersistence_remove\<close> gives up at the key of a version 5 PUBREL, which does not fit, before the keys in use.  The
  acknowledged message is sent again after a restart.\<close>

theorem large_ids_not_removed:
  assumes "file_part get upd" "reliable env" "store_open dir (get s)" "records v A (stored dir (get s))"
    "stores_in (default_persistence env get upd ctx) (Some dir) cs" "v < 5" "n \<in> {10000..65535}"
  shows "\<exists>s'. perform cs v (Forget_sent n) s = Some (MQTTCLIENT_PERSISTENCE_ERROR, s') \<and> records v A (stored dir (get s'))"
proof -
  have ok: "file_part get upd \<and> reliable env \<and> store_open dir (get s)" using assms(1-3) by blast
  have n: "0 \<le> n" using assms(7) by simp
  obtain s' where s': "premove (default_persistence env get upd ctx) (Some dir) (sent_key 5 n) s = Some (0, s')"
    "stored dir (get s') = (stored dir (get s))(sent_key 5 n := None)"
    using files.remove [OF ok record_keys_ok(1) [OF n]] by blast
  have "stored dir (get s') = stored dir (get s)"
    unfolding s'(2) using other_version_absent(1) [OF assms(4) n, of 5] assms(6) by simp
  then show ?thesis
    using s'(1) large_id_keys [OF assms(7)] assms(4-6) by (simp add: MQTTPersistence_remove_def stores_in_def del: bind_Some_iff)
qed

theorem large_ids_not_removed_witness:
  "\<exists>s'. perform sample_store 4 (Forget_sent 12345) sample_files = Some (MQTTCLIENT_PERSISTENCE_ERROR, s') \<and>
    records 4 nothing_stored (stored (bytes_of ''c-srv'') s')"
proof -
  have s: "store_open (bytes_of ''c-srv'') sample_files" "stored (bytes_of ''c-srv'') sample_files = Map.empty"
    by (auto simp: store_open_def sample_files_def stored_def bytes_of_def)
  have p: "stores_in (default_persistence granting_env (\<lambda>s. s) (\<lambda>f s. f s) []) (Some (bytes_of ''c-srv'')) sample_store"
    by (simp add: stores_in_def sample_store_def)
  have r: "reliable granting_env" "file_part (\<lambda>s. s) (\<lambda>f s. f s)" by (simp_all add: reliable_def granting_env_def file_part_def)
  show ?thesis
    using large_ids_not_removed [OF r(2,1) s(1) _ p, of 4 nothing_stored 12345] records_empty [of 4] unfolding s(2) by simp
qed


text \<open>C18. A version 5 client cannot store the PUBREL of a message with an identifier of five digits, and does not
  restore its PUBLISH: the restart stops with an error at the first such message, before the records behind it.\<close>

theorem large_ids_not_restored:
  assumes "5 \<le> v" "flight_sound v f" "flight_id f \<in> {10000..65535}" "stores_in p h cs" "pe_alloc E = always_alloc"
    "client_MQTTVersion c = v" "pget p h (sent_key v (flight_id f)) (w_outer w) = Some (0, Some (publish_record f), w_outer w)"
  shows "perform cs v (Store_pubrel dup (flight_id f)) s = Some (MQTTCLIENT_PERSISTENCE_ERROR, s) \<and>
    restore_loop E cs p (sent_key v (flight_id f) # keys) c w = Some (MQTTCLIENT_PERSISTENCE_ERROR, False, c, w)"
proof
  let ?n = "flight_id f"
  have k: "message_key PERSISTENCE_V5_PUBREL ?n = None" by (rule large_id_keys [OF assms(3)])
  then show "perform cs v (Store_pubrel dup ?n) s = Some (MQTTCLIENT_PERSISTENCE_ERROR, s)"
    using assms(1,4) by (simp add: put_packet_def stores_in_def packet_stem_def)
  have n: "0 \<le> ?n" using assms(3) by simp
  obtain P where P: "MQTTPersistence_restorePacket always_alloc (parsed_version v) (publish_record f) = Some (Some (Publish_packet P))"
    "parsed_publish f P" by (rule restorePacket_publish [OF assms(2)])
  have "restore_key E cs p (sent_key v ?n) c w = Some (MQTTCLIENT_PERSISTENCE_ERROR, False, c, w)"
    using assms(1,4-7) P k record_keys_restored record_kind_keys(1) [OF n, of v]
    by (simp add: restore_key_def read_record_def restore_record_def restore_sent_def stores_in_def key_stems parsed_version_def
        parsed_publish_def del: bind_Some_iff)
  then show "restore_loop E cs p (sent_key v ?n # keys) c w = Some (MQTTCLIENT_PERSISTENCE_ERROR, False, c, w)" by simp
qed

definition sample_flight5 :: flight where
  "sample_flight5 = (sample_flight 12345 1 [1])\<lparr>fl_pack := (sample_publish 12345 [1])\<lparr>publish_MQTTVersion := 5\<rparr>\<rparr>"

definition files_with_flight5 :: file_system where
  "files_with_flight5 = set_file (record_path (bytes_of ''c-srv'') (sent_key 5 12345)) (publish_record sample_flight5) sample_files"

theorem large_ids_not_restored_witness:
  "perform sample_store 5 (Store_pubrel 0 12345) sample_files = Some (MQTTCLIENT_PERSISTENCE_ERROR, sample_files) \<and>
    restore_loop still_env sample_store (default_persistence granting_env (\<lambda>s. s) (\<lambda>f s. f s) []) [sent_key 5 12345]
      (blank_client\<lparr>client_MQTTVersion := 5\<rparr>) (restarted_world\<lparr>w_outer := files_with_flight5\<rparr>) =
    Some (MQTTCLIENT_PERSISTENCE_ERROR, False, blank_client\<lparr>client_MQTTVersion := 5\<rparr>, restarted_world\<lparr>w_outer := files_with_flight5\<rparr>)"
proof -
  let ?d = "bytes_of ''c-srv''" and ?k = "sent_key 5 12345" and ?r = "publish_record sample_flight5"
  have f: "flight_sound 5 sample_flight5" "flight_id sample_flight5 = 12345"
    by (simp_all add: sample_flight5_def sample_flight_def flight_sound_def publish_ok_def sample_publish_def flight_body_def
        publication_def publish_enc_def utf_enc_def flight_id_def props_arg_def props_enc_def vbi_enc.simps props_rep_initializer)
  have s: "store_open ?d sample_files" by (auto simp: store_open_def sample_files_def bytes_of_def)
  have k: "key_ok ?k" by (rule record_keys_ok) simp
  have o: "store_open ?d files_with_flight5" unfolding files_with_flight5_def by (rule store_open_set_file [OF s k])
  have "?d \<noteq> []" by (simp add: bytes_of_def)
  then have c: "stored ?d files_with_flight5 ?k = Some ?r" unfolding files_with_flight5_def by (simp add: stored_set_file k)
  have r: "reliable granting_env" "file_part (\<lambda>s. s) (\<lambda>f s. f s)" by (simp_all add: reliable_def granting_env_def file_part_def)
  then have ok: "file_part (\<lambda>s. s) (\<lambda>f s. f s) \<and> reliable granting_env \<and> store_open ?d files_with_flight5" using o by blast
  have p: "stores_in (default_persistence granting_env (\<lambda>s. s) (\<lambda>f s. f s) []) (Some ?d) sample_store"
    by (simp add: stores_in_def sample_store_def)
  from large_ids_not_restored [OF _ f(1) _ p, of still_env "blank_client\<lparr>client_MQTTVersion := 5\<rparr>"
      "restarted_world\<lparr>w_outer := files_with_flight5\<rparr>" 0 sample_files "[]"] files.get [OF ok c] f(2)
  show ?thesis by (simp add: still_env_def)
qed

end
