(* ===== verification/AsyncCommands.thy ===== *)
theory AsyncCommands
  imports Persistence PacketsOut MessageIds
begin

text \<open>
  The queue of commands of the asynchronous client, from \<open>MQTTAsyncUtils.c\<close>.  A subscription, a publication or a
  disconnection is a command; \<open>MQTTAsync_addCommand\<close> puts it into the list \<open>MQTTAsync_commands\<close>, which all clients share,
  and writes it to the store of the client; \<open>MQTTAsync_processCommand\<close> takes the first command that may be run.
  Of a stored publication only the short data stay in memory: topic, payload and properties are read from the store
  again when the command is taken.

  \<open>MQTTAsync_handles\<close> is the list \<open>ac_handles\<close>; a \<open>MQTTAsyncs*\<close> is an index of it.  A structure of subscription options
  is the bytes of its memory.
\<close>

section \<open>Data\<close>

datatype command_details =
    Sub int "bytes list" "int list" bytes "bytes list"
  | Unsub int "bytes list"
  | Pub "bytes option" int "bytes option" int int
  | Dis int int int
  | Conn int int

text \<open>\<open>type\<close> is the member of the union in use.\<close>

fun command_type :: "command_details \<Rightarrow> int" where
  "command_type (Sub count topics qoss opts optlist) = SUBSCRIBE"
| "command_type (Unsub count topics) = UNSUBSCRIBE"
| "command_type (Pub destinationName payloadlen payload qos retained) = PUBLISH"
| "command_type (Dis internal timeout reasonCode) = DISCONNECT"
| "command_type (Conn currentURI MQTTVersion) = CONNECT"

record MQTTAsync_command =
  cmd_onSuccess :: ptr
  cmd_onFailure :: ptr
  cmd_onSuccess5 :: ptr
  cmd_onFailure5 :: ptr
  cmd_token :: int
  cmd_context :: ptr
  cmd_start_time :: START_TIME_TYPE
  cmd_properties :: MQTTProperties
  cmd_details :: command_details

record MQTTAsync_queuedCommand =
  qc_command :: MQTTAsync_command
  qc_client :: nat
  qc_seqno :: "32 word"
  qc_not_restored :: bool
  qc_key :: "bytes option"

record MQTTAsync_createOptions =
  co_struct_version :: int
  co_sendWhileDisconnected :: int
  co_maxBufferedMessages :: int
  co_MQTTVersion :: int
  co_allowDisconnectedSendAtAnyTime :: int
  co_deleteOldestMessages :: int
  co_restoreMessages :: int
  co_persistQoS0 :: int

text \<open>The members the command queue and the retries use.\<close>

record 's MQTTAsyncs =
  ma_c :: Clients
  ma_store :: "'s client_store"
  ma_responses :: "MQTTAsync_queuedCommand clist"
  ma_command_seqno :: "32 word"
  ma_createOptions :: "MQTTAsync_createOptions option"
  ma_shouldBeConnected :: bool
  ma_noBufferedMessages :: int
  ma_automaticReconnect :: bool
  ma_minRetryInterval :: int
  ma_maxRetryInterval :: int
  ma_serverURIcount :: int
  ma_currentInterval :: int
  ma_currentIntervalBase :: int
  ma_lastConnectionFailedTime :: START_TIME_TYPE
  ma_retrying :: bool

record 's async_state =
  ac_handles :: "'s MQTTAsyncs list"
  ac_commands :: "MQTTAsync_queuedCommand clist"
  ac_outer :: 's

text \<open>The clock, \<open>rand\<close>, \<open>Thread_post_sem\<close> and the state of the sockets.\<close>

record 's async_env =
  ae_alloc :: allocator
  ae_junk :: byte
  ae_now :: "'s \<Rightarrow> START_TIME_TYPE \<times> 's"
  ae_RAND_MAX :: int
  ae_rand :: "'s \<Rightarrow> int \<times> 's"
  ae_post :: "'s \<Rightarrow> int \<times> 's"
  ae_noPendingWrites :: "int \<Rightarrow> 's \<Rightarrow> bool"

definition set_handle :: "nat \<Rightarrow> 's MQTTAsyncs \<Rightarrow> 's async_state \<Rightarrow> 's async_state" where
  "set_handle h m st = st\<lparr>ac_handles := (ac_handles st)[h := m]\<rparr>"

definition handle_at :: "'s async_state \<Rightarrow> nat \<Rightarrow> 's MQTTAsyncs ub" where
  "handle_at st h = (if h < length (ac_handles st) then Some (ac_handles st ! h) else None)"

text \<open>A command that \<open>memset\<close> has cleared, before its type is known.\<close>

definition zero_command :: "command_details \<Rightarrow> MQTTAsync_command" where
  "zero_command details =
     \<lparr>cmd_onSuccess = NULL, cmd_onFailure = NULL, cmd_onSuccess5 = NULL, cmd_onFailure5 = NULL, cmd_token = 0, cmd_context = NULL,
      cmd_start_time = 0, cmd_properties = MQTTProperties_initializer, cmd_details = details\<rparr>"

definition zero_queued :: "command_details \<Rightarrow> MQTTAsync_queuedCommand" where
  "zero_queued details =
     \<lparr>qc_command = zero_command details, qc_client = 0, qc_seqno = 0, qc_not_restored = False, qc_key = None\<rparr>"

section \<open>Storing a command\<close>

text \<open>\<open>snprintf(key, sizeof(key), "%s%u", ...)\<close>; \<open>sizeof\<close> is unsigned, so that every key that is too long is noticed.\<close>

definition command_key :: "int \<Rightarrow> 32 word \<Rightarrow> bytes option" where
  "command_key MQTTVersion seqno =
     (let key = bytes_of (if 5 \<le> MQTTVersion then PERSISTENCE_V5_COMMAND_KEY else PERSISTENCE_COMMAND_KEY) @ dec_bytes (unat seqno)
      in if PERSISTENCE_MAX_KEY_LENGTH + 1 \<le> length key then None else Some key)"

definition MQTTAsync_unpersistCommand :: "'s MQTTAsyncs \<Rightarrow> MQTTAsync_queuedCommand \<Rightarrow> 's \<Rightarrow> (int \<times> 's) ub" where
  "MQTTAsync_unpersistCommand m qcmd s =
     (case command_key (client_MQTTVersion (ma_c m)) (qc_seqno qcmd) of
        None \<Rightarrow> Some (MQTTCLIENT_PERSISTENCE_ERROR, s)
      | Some key \<Rightarrow> do { p \<leftarrow> persistence (ma_store m); premove p (phandle (ma_store m)) key s })"

text \<open>The buffers of a command; \<open>Some None\<close> for one that is not stored.\<close>

definition int_buffer :: "int \<Rightarrow> bytes option \<times> int" where
  "int_buffer i = (Some (int_bytes i), 4)"

definition string_buffer :: "bytes \<Rightarrow> bytes option \<times> int" where
  "string_buffer string = (Some (string @ [0]), strlen_int string + 1)"

definition command_buffers :: "int \<Rightarrow> MQTTAsync_command \<Rightarrow> (bytes option \<times> int) list option ub" where
  "command_buffers MQTTVersion cmd =
     (case cmd_details cmd of
        Sub count topics qoss opts optlist \<Rightarrow>
          if length topics < nat count \<or> (MQTTVersion < 5 \<and> length qoss < nat count) \<or>
            (5 \<le> MQTTVersion \<and> count \<noteq> 1 \<and> length optlist < nat count) then None
          else Some (Some ([int_buffer SUBSCRIBE, int_buffer (cmd_token cmd), int_buffer count] @
            concat (map (\<lambda>i. [string_buffer (topics ! i),
              if MQTTVersion < 5 then int_buffer (qoss ! i) else (Some (if count = 1 then opts else optlist ! i), 12)]) [0..<nat count])))
      | Unsub count topics \<Rightarrow>
          if length topics < nat count then None
          else Some (Some ([int_buffer UNSUBSCRIBE, int_buffer (cmd_token cmd), int_buffer count] @
            map string_buffer (take (nat count) topics)))
      | Pub destinationName payloadlen payload qos retained \<Rightarrow>
          do {
            destinationName \<leftarrow> destinationName;
            Some (Some [int_buffer PUBLISH, int_buffer (cmd_token cmd), string_buffer destinationName, int_buffer payloadlen,
              (payload, payloadlen), int_buffer qos, int_buffer retained])
          }
      | _ \<Rightarrow> Some None)"

text \<open>The buffers are given to \<open>beforeWrite\<close>, whose return code is overwritten.\<close>

definition write_command ::
  "'s MQTTAsyncs \<Rightarrow> bytes option \<Rightarrow> (bytes option \<times> int) list \<Rightarrow> int \<Rightarrow> MQTTAsync_queuedCommand \<Rightarrow> 's \<Rightarrow>
   (int \<times> MQTTAsync_queuedCommand \<times> 's) ub" where
  "write_command m key bufs rc qcmd s =
     (case key of
        None \<Rightarrow> Some (rc, qcmd, s)
      | Some key \<Rightarrow>
          (case (case beforeWrite (ma_store m) of None \<Rightarrow> (rc, bufs, s) | Some f \<Rightarrow> f bufs s) of
             (_, bufs, s) \<Rightarrow>
               do {
                 p \<leftarrow> persistence (ma_store m);
                 (rc, s) \<leftarrow> pput p (phandle (ma_store m)) key bufs s;
                 Some (rc, qcmd\<lparr>qc_seqno := ma_command_seqno m\<rparr>, s)
               }))"

definition MQTTAsync_persistCommand ::
  "'s async_env \<Rightarrow> 's MQTTAsyncs \<Rightarrow> MQTTAsync_queuedCommand \<Rightarrow> 's \<Rightarrow>
   (int \<times> MQTTAsync_queuedCommand \<times> 's MQTTAsyncs \<times> 's) ub" where
  "MQTTAsync_persistCommand E m qcmd s =
     do {
       let v = client_MQTTVersion (ma_c m);
       bufs \<leftarrow> command_buffers v (qc_command qcmd);
       let seqno = ma_command_seqno m + 1;
       let m' = m\<lparr>ma_command_seqno := (if seqno = PERSISTENCE_SEQNO_LIMIT then 0 else seqno)\<rparr>;
       (case bufs of
          None \<Rightarrow> Some (0, qcmd, m', s)
        | Some bufs \<Rightarrow>
            let nbufs = length bufs + (if 5 \<le> v then 1 else 0) in
            if \<not> ae_alloc E (Bytes (nbufs * 4)) \<or> \<not> ae_alloc E (Bytes (nbufs * 8)) then Some (PAHO_MEMORY_ERROR, qcmd, m, s)
            else if 5 \<le> v then
              let props = cmd_properties (qc_command qcmd); temp_len = MQTTProperties_len (Some props) in
              if \<not> ae_alloc E (Bytes (to_size temp_len)) then Some (PAHO_MEMORY_ERROR, qcmd, m', s)
              else do {
                (rc, block, n) \<leftarrow> MQTTProperties_write (Some props) (replicate (to_size temp_len) (ae_junk E), 0);
                (rc, qcmd, s) \<leftarrow> write_command m' (command_key v (ma_command_seqno m')) (bufs @ [(Some block, temp_len)]) rc qcmd s;
                Some (rc, qcmd, m', s)
              }
            else do {
              (rc, qcmd, s) \<leftarrow> write_command m' (command_key v (ma_command_seqno m')) bufs 0 qcmd s;
              Some (rc, qcmd, m', s)
            })
     }"


section \<open>Restoring a command\<close>

text \<open>A part of the record, \<open>Some None\<close> when the code jumps to \<open>error_exit\<close>.\<close>

definition take_int :: "bytes \<Rightarrow> nat \<Rightarrow> (int \<times> nat) option ub" where
  "take_int buffer p = (if length buffer < p + 4 then Some None else map_option Some (read_int buffer p))"

text \<open>The test for a string without its zero compares with the wrong length: a zero in the last byte is taken for an
  error, and without a zero \<open>strcpy\<close> reads on behind the record.\<close>

definition take_string :: "allocator \<Rightarrow> bool \<Rightarrow> bytes \<Rightarrow> nat \<Rightarrow> (bytes \<times> nat) option ub" where
  "take_string malloc copied buffer p =
     (let rest = drop p buffer;
          n = (case strchr rest 0 of None \<Rightarrow> length rest | Some n \<Rightarrow> n)
      in if n + 1 = length rest then Some None
         else if copied \<and> \<not> malloc (Bytes (n + 1)) then Some None
         else if copied \<and> n = length rest then None
         else Some (Some (take n rest, p + n + 1)))"

text \<open>The topics of a subscription with the requested QoS, or from version 5 on the options.\<close>

fun take_subscriptions ::
  "allocator \<Rightarrow> int \<Rightarrow> nat \<Rightarrow> bytes \<Rightarrow> nat \<Rightarrow> bytes list \<Rightarrow> int list \<Rightarrow> bytes list \<Rightarrow>
   (bytes list \<times> int list \<times> bytes list \<times> nat) option ub" where
  "take_subscriptions malloc v 0 buffer p topics qoss opts = Some (Some (topics, qoss, opts, p))"
| "take_subscriptions malloc v (Suc n) buffer p topics qoss opts =
     (case take_string malloc True buffer p of
        None \<Rightarrow> None
      | Some None \<Rightarrow> Some None
      | Some (Some (topic, p)) \<Rightarrow>
          if v < 5 then
            (case take_int buffer p of
               None \<Rightarrow> None
             | Some None \<Rightarrow> Some None
             | Some (Some (qos, p)) \<Rightarrow> take_subscriptions malloc v n buffer p (topics @ [topic]) (qoss @ [qos]) opts)
          else if length buffer < p + 12 then Some None
          else take_subscriptions malloc v n buffer (p + 12) (topics @ [topic]) qoss (opts @ [take 12 (drop p buffer)]))"

fun take_topics :: "allocator \<Rightarrow> nat \<Rightarrow> bytes \<Rightarrow> nat \<Rightarrow> bytes list \<Rightarrow> (bytes list \<times> nat) option ub" where
  "take_topics malloc 0 buffer p topics = Some (Some (topics, p))"
| "take_topics malloc (Suc n) buffer p topics =
     (case take_string malloc True buffer p of
        None \<Rightarrow> None
      | Some None \<Rightarrow> Some None
      | Some (Some (topic, p)) \<Rightarrow> take_topics malloc n buffer p (topics @ [topic]))"

definition restore_subscribe :: "allocator \<Rightarrow> int \<Rightarrow> bytes \<Rightarrow> nat \<Rightarrow> (command_details \<times> nat) option ub" where
  "restore_subscribe malloc v buffer p =
     (case take_int buffer p of
        None \<Rightarrow> None
      | Some None \<Rightarrow> Some None
      | Some (Some (count, p)) \<Rightarrow>
          if 0 < count \<and> (\<not> malloc (Bytes (nat count * 8)) \<or> (v < 5 \<and> \<not> malloc (Bytes (nat count * 4))) \<or>
            (5 \<le> v \<and> 1 < count \<and> \<not> malloc (Bytes (nat count * 12)))) then Some None
          else (case take_subscriptions malloc v (nat count) buffer p [] [] [] of
              None \<Rightarrow> None
            | Some None \<Rightarrow> Some None
            | Some (Some (topics, qoss, opts, p)) \<Rightarrow>
                Some (Some (if count = 1 \<and> opts \<noteq> [] then Sub count topics qoss (opts ! 0) []
                  else Sub count topics qoss (replicate 12 0) opts, p))))"

definition restore_unsubscribe :: "allocator \<Rightarrow> bytes \<Rightarrow> nat \<Rightarrow> (command_details \<times> nat) option ub" where
  "restore_unsubscribe malloc buffer p =
     (case take_int buffer p of
        None \<Rightarrow> None
      | Some None \<Rightarrow> Some None
      | Some (Some (count, p)) \<Rightarrow>
          if 0 < count \<and> \<not> malloc (Bytes (nat count * 8)) then Some None
          else (case take_topics malloc (nat count) buffer p [] of
              None \<Rightarrow> None
            | Some None \<Rightarrow> Some None
            | Some (Some (topics, p)) \<Rightarrow> Some (Some (Unsub count topics, p))))"

text \<open>Topic and payload are copied when the command is taken.  A negative length leaves the address space.\<close>

definition restore_publish :: "allocator \<Rightarrow> bool \<Rightarrow> bytes \<Rightarrow> nat \<Rightarrow> (command_details \<times> nat) option ub" where
  "restore_publish malloc short buffer p =
     (case take_string malloc (\<not> short) buffer p of
        None \<Rightarrow> None
      | Some None \<Rightarrow> Some None
      | Some (Some (topic, p)) \<Rightarrow>
          (case take_int buffer p of
             None \<Rightarrow> None
           | Some None \<Rightarrow> Some None
           | Some (Some (payloadlen, p)) \<Rightarrow>
               if payloadlen < 0 then None
               else if length buffer < p + nat payloadlen then Some None
               else if \<not> short \<and> \<not> malloc (Bytes (nat payloadlen)) then Some None
               else if length buffer < p + nat payloadlen + 8 then Some None
               else do {
                 (qos, p') \<leftarrow> read_int buffer (p + nat payloadlen);
                 (retained, p') \<leftarrow> read_int buffer p';
                 Some (Some (if short then Pub None payloadlen None qos retained
                   else Pub (Some topic) payloadlen (Some (take (nat payloadlen) (drop p buffer))) qos retained, p'))
               }))"

text \<open>
  \<open>qcommand\<close> is \<open>NULL\<close> when the commands are restored, and the command when it is taken.  Then a subscription keeps
  its details, but the properties are read from the position behind the token.
\<close>

definition restore_details ::
  "allocator \<Rightarrow> int \<Rightarrow> int \<Rightarrow> MQTTAsync_queuedCommand option \<Rightarrow> bytes \<Rightarrow> nat \<Rightarrow> (command_details \<times> nat) option ub" where
  "restore_details malloc v type qcommand buffer p =
     (if type = SUBSCRIBE then
        (case qcommand of None \<Rightarrow> restore_subscribe malloc v buffer p
         | Some q \<Rightarrow> if command_type (cmd_details (qc_command q)) = SUBSCRIBE then Some (Some (cmd_details (qc_command q), p)) else None)
      else if type = UNSUBSCRIBE then
        (case qcommand of None \<Rightarrow> restore_unsubscribe malloc buffer p
         | Some q \<Rightarrow> if command_type (cmd_details (qc_command q)) = UNSUBSCRIBE then Some (Some (cmd_details (qc_command q), p)) else None)
      else if type = PUBLISH then restore_publish malloc (qcommand = None) buffer p
      else Some None)"

definition MQTTAsync_restoreCommand ::
  "allocator \<Rightarrow> bytes \<Rightarrow> int \<Rightarrow> MQTTAsync_queuedCommand option \<Rightarrow> MQTTAsync_queuedCommand option ub" where
  "MQTTAsync_restoreCommand malloc buffer MQTTVersion qcommand =
     (if buffer = [] then Some None
      else if qcommand = None \<and> \<not> malloc (Sizeof ''MQTTAsync_queuedCommand'') then Some None
      else if length buffer < 8 then Some None
      else do {
        (type, p) \<leftarrow> read_int buffer 0;
        (token, p) \<leftarrow> read_int buffer p;
        restored \<leftarrow> restore_details malloc MQTTVersion type qcommand buffer p;
        (case restored of
           None \<Rightarrow> Some None
         | Some (details, p) \<Rightarrow>
             let q = (case qcommand of None \<Rightarrow> (zero_queued details)\<lparr>qc_not_restored := True\<rparr> | Some q \<Rightarrow> q\<lparr>qc_not_restored := False\<rparr>);
                 q = q\<lparr>qc_command := (qc_command q)\<lparr>cmd_token := token, cmd_details := details\<rparr>\<rparr>
             in if \<not> qc_not_restored q \<and> 5 \<le> MQTTVersion then
                  do {
                    (rc, props, p) \<leftarrow> MQTTProperties_read malloc (cmd_properties (qc_command q)) buffer p (length buffer);
                    Some (if rc = 1 then Some (q\<lparr>qc_command := (qc_command q)\<lparr>cmd_properties := props\<rparr>\<rparr>) else None)
                  }
                else Some (Some q))
      })"

text \<open>The number in a key; a key without a dash makes \<open>strchr\<close> return \<open>NULL\<close>.\<close>

definition key_number :: "bytes \<Rightarrow> int ub" where
  "key_number key = do { dash \<leftarrow> strchr key 0x2D; atoi (drop (dash + 1) key) }"

definition cmpkeys :: "bytes \<Rightarrow> bytes \<Rightarrow> int ub" where
  "cmpkeys p1 p2 =
     do {
       key1 \<leftarrow> key_number p1;
       key2 \<leftarrow> key_number p2;
       Some (if key1 = key2 then 0 else if key1 < key2 then - 1 else 1)
     }"

text \<open>
  \<open>qsort\<close> is a parameter: the standard does not say how it orders keys that compare as equal, as those of a message
  and of a command with the same number do.  It compares every key with another one.
\<close>

definition sort_keys :: "((bytes \<Rightarrow> bytes \<Rightarrow> int) \<Rightarrow> bytes list \<Rightarrow> bytes list) \<Rightarrow> bytes list \<Rightarrow> bytes list ub" where
  "sort_keys qsort keys =
     (if 2 \<le> length keys \<and> (\<exists>key \<in> set keys. key_number key = None) then None
      else Some (qsort (\<lambda>p1 p2. the (cmpkeys p1 p2)) keys))"

definition is_qsort :: "((bytes \<Rightarrow> bytes \<Rightarrow> int) \<Rightarrow> bytes list \<Rightarrow> bytes list) \<Rightarrow> bool" where
  "is_qsort qsort \<longleftrightarrow> (\<forall>cmp (f :: bytes \<Rightarrow> int) xs.
     (\<forall>x \<in> set xs. \<forall>y \<in> set xs. cmp x y = (if f x = f y then 0 else if f x < f y then - 1 else 1)) \<longrightarrow>
     (distinct xs \<longrightarrow> distinct (qsort cmp xs)) \<and> set (qsort cmp xs) = set xs \<and> sorted (map f (qsort cmp xs)))"

text \<open>One key; \<open>malloc\<close> for the copy of the key is not tested.\<close>

definition restore_command ::
  "'s async_env \<Rightarrow> nat \<Rightarrow> 's MQTTClient_persistence \<Rightarrow> bytes \<Rightarrow> 's async_state \<Rightarrow> (int \<times> 's async_state) ub" where
  "restore_command E h p key st =
     (if \<not> has_stem PERSISTENCE_COMMAND_KEY key \<and> \<not> has_stem PERSISTENCE_V5_COMMAND_KEY key then Some (0, st)
      else do {
        m \<leftarrow> handle_at st h;
        (rc, buffer, s) \<leftarrow> read_record (ma_store m) p key (ac_outer st);
        let st = st\<lparr>ac_outer := s\<rparr>;
        if rc \<noteq> 0 then Some (rc, st)
        else do {
          data \<leftarrow> buffer;
          cmd \<leftarrow> MQTTAsync_restoreCommand (ae_alloc E) data
            (if has_stem PERSISTENCE_V5_COMMAND_KEY key then MQTTVERSION_5 else MQTTVERSION_3_1_1) None;
          (case cmd of
             None \<Rightarrow> Some (0, st)
           | Some cmd \<Rightarrow>
               if \<not> ae_alloc E (Bytes (length key + 1)) then None
               else do {
                 n \<leftarrow> key_number key;
                 let cmd = cmd\<lparr>qc_key := Some key, qc_client := h, qc_seqno := of_int n\<rparr>;
                 let m = m\<lparr>ma_command_seqno := max (ma_command_seqno m) (qc_seqno cmd),
                   ma_noBufferedMessages := ma_noBufferedMessages m +
                     (if command_type (cmd_details (qc_command cmd)) = PUBLISH then 1 else 0)\<rparr>;
                 let commands = (if ae_alloc E (Sizeof ''ListElement'') then cl_append cmd (ac_commands st) else ac_commands st);
                 Some (0, (set_handle h m st)\<lparr>ac_commands := commands\<rparr>)
               })
        }
      })"

fun restore_commands ::
  "'s async_env \<Rightarrow> nat \<Rightarrow> 's MQTTClient_persistence \<Rightarrow> bytes list \<Rightarrow> 's async_state \<Rightarrow> (int \<times> 's async_state) ub" where
  "restore_commands E h p [] st = Some (0, st)"
| "restore_commands E h p (key # keys) st =
     do {
       (rc, st) \<leftarrow> restore_command E h p key st;
       if rc = 0 then restore_commands E h p keys st else Some (rc, st)
     }"

definition MQTTAsync_restoreCommands ::
  "'s async_env \<Rightarrow> ((bytes \<Rightarrow> bytes \<Rightarrow> int) \<Rightarrow> bytes list \<Rightarrow> bytes list) \<Rightarrow> nat \<Rightarrow> 's async_state \<Rightarrow> (int \<times> 's async_state) ub" where
  "MQTTAsync_restoreCommands E qsort h st =
     do {
       m \<leftarrow> handle_at st h;
       (case persistence (ma_store m) of
          None \<Rightarrow> Some (0, st)
        | Some p \<Rightarrow>
            do {
              (rc, keys, s) \<leftarrow> pkeys p (phandle (ma_store m)) (ac_outer st);
              let st = st\<lparr>ac_outer := s\<rparr>;
              if rc \<noteq> 0 then Some (rc, st)
              else do { keys \<leftarrow> keys; sorted \<leftarrow> sort_keys qsort keys; restore_commands E h p sorted st }
            })
     }"

text \<open>Removing the records of a kind until one cannot be removed.\<close>

fun remove_records ::
  "'s MQTTClient_persistence \<Rightarrow> bytes option \<Rightarrow> string list \<Rightarrow> bytes list \<Rightarrow> 's \<Rightarrow> (int \<times> 's) ub" where
  "remove_records p h stems [] s = Some (0, s)"
| "remove_records p h stems (key # keys) s =
     (if \<exists>stem \<in> set stems. has_stem stem key then
        do { (rc, s) \<leftarrow> premove p h key s; if rc = 0 then remove_records p h stems keys s else Some (rc, s) }
      else remove_records p h stems keys s)"

definition unpersist_records :: "string list \<Rightarrow> 's client_store \<Rightarrow> 's \<Rightarrow> (int \<times> 's) ub" where
  "unpersist_records stems c s =
     (case persistence c of
        None \<Rightarrow> Some (0, s)
      | Some p \<Rightarrow>
          do {
            (rc, keys, s) \<leftarrow> pkeys p (phandle c) s;
            if rc = 0 then do { keys \<leftarrow> keys; remove_records p (phandle c) stems keys s } else Some (rc, s)
          })"

definition MQTTAsync_unpersistCommandsAndMessages :: "'s client_store \<Rightarrow> 's \<Rightarrow> (int \<times> 's) ub" where
  "MQTTAsync_unpersistCommandsAndMessages =
     unpersist_records [PERSISTENCE_COMMAND_KEY, PERSISTENCE_V5_COMMAND_KEY, PERSISTENCE_QUEUE_KEY, PERSISTENCE_V5_QUEUE_KEY]"

definition MQTTAsync_unpersistInflightMessages :: "'s client_store \<Rightarrow> 's \<Rightarrow> (int \<times> 's) ub" where
  "MQTTAsync_unpersistInflightMessages =
     unpersist_records [PERSISTENCE_PUBLISH_SENT, PERSISTENCE_V5_PUBLISH_SENT, PERSISTENCE_PUBREL, PERSISTENCE_V5_PUBREL,
       PERSISTENCE_PUBLISH_RECEIVED, PERSISTENCE_V5_PUBLISH_RECEIVED]"


section \<open>Adding a command\<close>

definition clientCompareConnectCommand :: "MQTTAsync_queuedCommand \<Rightarrow> MQTTAsync_queuedCommand \<Rightarrow> bool" where
  "clientCompareConnectCommand cmd1 cmd2 \<longleftrightarrow>
     qc_client cmd1 = qc_client cmd2 \<and>
     command_type (cmd_details (qc_command cmd1)) = command_type (cmd_details (qc_command cmd2)) \<and>
     (command_type (cmd_details (qc_command cmd1)) = CONNECT \<or> command_type (cmd_details (qc_command cmd1)) = DISCONNECT)"

text \<open>A duplicate of the command at the head is dropped; any other connect or disconnect command of the client
  makes room for the new one at the head.\<close>

definition add_first :: "allocator \<Rightarrow> MQTTAsync_queuedCommand \<Rightarrow> MQTTAsync_queuedCommand clist \<Rightarrow> MQTTAsync_queuedCommand clist" where
  "add_first malloc cmd l =
     (case cl_items l of
        h # t \<Rightarrow>
          if qc_client h = qc_client cmd \<and> command_type (cmd_details (qc_command h)) = command_type (cmd_details (qc_command cmd))
          then l
          else let l = snd (cl_unlink (\<lambda>c. clientCompareConnectCommand c cmd) l) in
            if \<not> malloc (Sizeof ''ListElement'') then l else if cl_items l = [] then cl_append cmd l else cl_insert cmd 0 l
      | [] \<Rightarrow> if malloc (Sizeof ''ListElement'') then cl_append cmd l else l)"

text \<open>A stored publication keeps its key and gives up topic, payload and properties.\<close>

fun short_details :: "command_details \<Rightarrow> command_details" where
  "short_details (Pub destinationName payloadlen payload qos retained) = Pub None payloadlen None qos retained"
| "short_details d = d"

definition shorten :: "MQTTAsync_queuedCommand \<Rightarrow> MQTTAsync_queuedCommand" where
  "shorten q = q\<lparr>qc_command := (qc_command q)\<lparr>
     cmd_properties := MQTTProperties_free (cmd_properties (qc_command q)),
     cmd_details := short_details (cmd_details (qc_command q))\<rparr>\<rparr>"

definition is_publish :: "MQTTAsync_queuedCommand \<Rightarrow> bool" where
  "is_publish q \<longleftrightarrow> command_type (cmd_details (qc_command q)) = PUBLISH"

fun publish_qos :: "command_details \<Rightarrow> int" where
  "publish_qos (Pub destinationName payloadlen payload qos retained) = qos"
| "publish_qos d = 0"

text \<open>The result is the command as it is then in the list, and whether the code jumps to \<open>exit\<close>.\<close>

definition store_command ::
  "'s async_env \<Rightarrow> 's MQTTAsyncs \<Rightarrow> MQTTAsync_queuedCommand \<Rightarrow> 's \<Rightarrow>
   (bool \<times> MQTTAsync_queuedCommand \<times> 's MQTTAsyncs \<times> 's) ub" where
  "store_command E m q s =
     (if persistence (ma_store m) = None then Some (False, q, m, s)
      else if is_publish q \<and> (case ma_createOptions m of None \<Rightarrow> False
          | Some options \<Rightarrow> 2 \<le> co_struct_version options \<and> co_persistQoS0 options = 0 \<and> publish_qos (cmd_details (qc_command q)) = 0)
      then Some (False, q, m, s)
      else do {
        (rc, q, m, s) \<leftarrow> MQTTAsync_persistCommand E m q s;
        if is_publish q \<and> rc = 0 then
          (case command_key (client_MQTTVersion (ma_c m)) (qc_seqno q) of
             None \<Rightarrow> Some (True, q\<lparr>qc_not_restored := True\<rparr>, m, s)
           | Some key \<Rightarrow>
               if \<not> ae_alloc E (Bytes (length key + 1)) then None
               else Some (False, shorten (q\<lparr>qc_not_restored := True, qc_key := Some key\<rparr>), m, s))
        else Some (False, q, m, s)
      })"

definition detach_at :: "nat \<Rightarrow> 'a clist \<Rightarrow> 'a clist" where
  "detach_at i l = cl_remove_at i (cl_cur l) l"

text \<open>When the buffer is full the oldest publication is dropped.  It is freed before its record is removed by
  \<open>MQTTAsync_unpersistCommand\<close>, which reads the freed command: no result with a store.\<close>

definition count_publish :: "nat \<Rightarrow> 's async_state \<Rightarrow> 's async_state ub" where
  "count_publish h st =
     do {
       m \<leftarrow> handle_at st h;
       if (case ma_createOptions m of None \<Rightarrow> False | Some options \<Rightarrow> co_maxBufferedMessages options \<le> ma_noBufferedMessages m) then
         (case find_index (\<lambda>q. qc_client q = h \<and> is_publish q) (cl_items (ac_commands st)) of
            None \<Rightarrow> Some st
          | Some i \<Rightarrow> if persistence (ma_store m) \<noteq> None then None
              else Some (st\<lparr>ac_commands := detach_at i (ac_commands st)\<rparr>))
       else Some (set_handle h (m\<lparr>ma_noBufferedMessages := ma_noBufferedMessages m + 1\<rparr>) st)
     }"

definition add_last :: "'s async_env \<Rightarrow> MQTTAsync_queuedCommand \<Rightarrow> 's async_state \<Rightarrow> 's async_state ub" where
  "add_last E q st =
     do {
       m \<leftarrow> handle_at st (qc_client q);
       (exit, q', m, s) \<leftarrow> store_command E m q (ac_outer st);
       let st = (set_handle (qc_client q) m st)\<lparr>ac_outer := s,
         ac_commands := (if ae_alloc E (Sizeof ''ListElement'') then cl_append q' (ac_commands st) else ac_commands st)\<rparr>;
       if is_publish q' \<and> \<not> exit then count_publish (qc_client q) st else Some st
     }"

text \<open>The return code is that of the semaphore.\<close>

definition MQTTAsync_addCommand :: "'s async_env \<Rightarrow> MQTTAsync_queuedCommand \<Rightarrow> 's async_state \<Rightarrow> (int \<times> 's async_state) ub" where
  "MQTTAsync_addCommand E command st =
     do {
       m \<leftarrow> handle_at st (qc_client command);
       let type = command_type (cmd_details (qc_command command));
       (command, st) \<leftarrow> Some (if type \<noteq> CONNECT \<or> connect_state (ma_c m) = NOT_IN_PROGRESS then
           (case ae_now E (ac_outer st) of (now, s) \<Rightarrow>
              (command\<lparr>qc_command := (qc_command command)\<lparr>cmd_start_time := now\<rparr>\<rparr>, st\<lparr>ac_outer := s\<rparr>))
         else (command, st));
       st \<leftarrow> (if type = CONNECT \<or> (case cmd_details (qc_command command) of Dis internal timeout reasonCode \<Rightarrow> internal \<noteq> 0 | _ \<Rightarrow> False)
         then Some (st\<lparr>ac_commands := add_first (ae_alloc E) command (ac_commands st)\<rparr>)
         else add_last E command st);
       (case ae_post E (ac_outer st) of (rc, s) \<Rightarrow> Some (rc, st\<lparr>ac_outer := s\<rparr>))
     }"

section \<open>Taking a command\<close>

text \<open>The tests of \<open>MQTTAsync_processCommand\<close> for one command.\<close>

definition command_ready :: "'s async_env \<Rightarrow> 's async_state \<Rightarrow> MQTTAsync_queuedCommand \<Rightarrow> bool ub" where
  "command_ready E st cmd =
     do {
       m \<leftarrow> handle_at st (qc_client cmd);
       let c = ma_c m;
       let type = command_type (cmd_details (qc_command cmd));
       let n = int (length (cl_items (outboundMsgs c)));
       Some ((type = CONNECT \<or> type = DISCONNECT \<or>
           (connected c \<and> connect_state c = NOT_IN_PROGRESS \<and> ae_noPendingWrites E (net_socket (net c)) (ac_outer st))) \<and>
         \<not> ((type = PUBLISH \<or> type = SUBSCRIBE \<or> type = UNSUBSCRIBE) \<and> MAX_MSG_ID - 1 \<le> n) \<and>
         \<not> (((type = PUBLISH \<and> 0 < publish_qos (cmd_details (qc_command cmd))) \<or> type = SUBSCRIBE \<or> type = UNSUBSCRIBE) \<and>
            maxInflightMessages c \<le> n))
     }"

text \<open>Clients are ignored from their first command on that cannot be run.\<close>

fun choose_command :: "'s async_env \<Rightarrow> 's async_state \<Rightarrow> nat list \<Rightarrow> nat \<Rightarrow> MQTTAsync_queuedCommand list \<Rightarrow> nat option ub" where
  "choose_command E st ignored_clients i [] = Some None"
| "choose_command E st ignored_clients i (cmd # cmds) =
     (if qc_client cmd \<in> set ignored_clients then choose_command E st ignored_clients (Suc i) cmds
      else do {
        ready \<leftarrow> command_ready E st cmd;
        if ready then Some (Some i) else choose_command E st (ignored_clients @ [qc_client cmd]) (Suc i) cmds
      })"

text \<open>The command, or \<open>NULL\<close> when its record is damaged: \<open>MQTTAsync_unpersistCommand\<close> then has no result.\<close>

definition reload_command ::
  "'s async_env \<Rightarrow> 's MQTTAsyncs \<Rightarrow> MQTTAsync_queuedCommand \<Rightarrow> 's \<Rightarrow> (MQTTAsync_queuedCommand option \<times> 's) ub" where
  "reload_command E m q s =
     (if \<not> qc_not_restored q then Some (Some q, s)
      else do {
        key \<leftarrow> qc_key q;
        p \<leftarrow> persistence (ma_store m);
        (rc, buffer, s) \<leftarrow> read_record (ma_store m) p key s;
        if rc \<noteq> 0 then Some (Some q, s)
        else do {
          data \<leftarrow> buffer;
          q \<leftarrow> MQTTAsync_restoreCommand (ae_alloc E) data
            (if has_stem PERSISTENCE_V5_COMMAND_KEY key then MQTTVERSION_5 else MQTTVERSION_3_1_1) (Some (q\<lparr>qc_key := None\<rparr>));
          Some (q, s)
        }
      })"

definition take_command :: "'s async_env \<Rightarrow> nat \<Rightarrow> 's async_state \<Rightarrow> (MQTTAsync_queuedCommand \<times> 's async_state) ub" where
  "take_command E i st =
     (let q = cl_items (ac_commands st) ! i; h = qc_client q in
      do {
        m \<leftarrow> handle_at st h;
        let m = (if is_publish q then m\<lparr>ma_noBufferedMessages := ma_noBufferedMessages m - 1\<rparr> else m);
        let st = (set_handle h m st)\<lparr>ac_commands := detach_at i (ac_commands st)\<rparr>;
        if persistence (ma_store m) = None then Some (q, st)
        else do {
          (q, s) \<leftarrow> reload_command E m q (ac_outer st);
          q \<leftarrow> q;
          (rc, s) \<leftarrow> MQTTAsync_unpersistCommand m q s;
          Some (q, st\<lparr>ac_outer := s\<rparr>)
        }
      })"

text \<open>The part of \<open>MQTTAsync_processCommand\<close> under the lock of the commands.\<close>

definition next_command :: "'s async_env \<Rightarrow> 's async_state \<Rightarrow> (MQTTAsync_queuedCommand option \<times> 's async_state) ub" where
  "next_command E st =
     do {
       i \<leftarrow> choose_command E st [] 0 (cl_items (ac_commands st));
       (case i of None \<Rightarrow> Some (None, st) | Some i \<Rightarrow> do { (q, st) \<leftarrow> take_command E i st; Some (Some q, st) })
     }"

definition MQTTAsync_getNoBufferedMessages :: "'s MQTTAsyncs \<Rightarrow> int" where
  "MQTTAsync_getNoBufferedMessages m = ma_noBufferedMessages m"

section \<open>Retrying to connect\<close>

text \<open>
  The bounds of the jitter.  The code computes them in \<open>double\<close>: the factor 1.2 is stored with a relative error
  below \<open>2 ^ -53\<close>, so that a product or quotient that is a whole number is rounded to it, and one that is not has a
  distance of at least a sixth from the next; the conversion to \<open>int\<close> drops the fraction.
\<close>

definition int_of_double :: "int \<Rightarrow> int \<Rightarrow> int ub" where
  "int_of_double a b = (let q = (if a < 0 then - (- a div b) else a div b) in if - (2 ^ 31) \<le> q \<and> q < 2 ^ 31 then Some q else None)"

text \<open>Until \<open>rand\<close> gives a number below the limit.  \<open>RAND_MAX\<close> is that of the C library: 32767 on Windows.\<close>

partial_function (option) jitter_loop :: "('s \<Rightarrow> int \<times> 's) \<Rightarrow> int \<Rightarrow> 's \<Rightarrow> (int \<times> 's) option" where
  "jitter_loop rand limit s = (case rand s of (r, s) \<Rightarrow> if limit \<le> r then jitter_loop rand limit s else Some (r, s))"

definition MQTTAsync_randomJitter :: "int \<Rightarrow> ('s \<Rightarrow> int \<times> 's) \<Rightarrow> int \<Rightarrow> int \<Rightarrow> int \<Rightarrow> 's \<Rightarrow> (int \<times> 's) ub" where
  "MQTTAsync_randomJitter RAND_MAX rand currentIntervalBase minInterval maxInterval s =
     do {
       max_sleep \<leftarrow> int_of_double (min maxInterval currentIntervalBase * 6) 5;
       min_sleep \<leftarrow> int_of_double (max minInterval currentIntervalBase * 5) 6;
       if max_sleep \<le> min_sleep then Some (min_sleep, s)
       else if 2 ^ 31 \<le> max_sleep - min_sleep + 1 then None
       else do {
         let range = max_sleep - min_sleep + 1;
         let buckets = RAND_MAX div range;
         (r, s) \<leftarrow> jitter_loop rand (buckets * range) s;
         Some (min_sleep + r div buckets, s)
       }
     }"

definition MQTTAsync_startConnectRetry :: "'s async_env \<Rightarrow> 's MQTTAsyncs \<Rightarrow> 's \<Rightarrow> ('s MQTTAsyncs \<times> 's) ub" where
  "MQTTAsync_startConnectRetry E m s =
     (if ma_automaticReconnect m \<and> ma_shouldBeConnected m then
        (case ae_now E s of (now, s) \<Rightarrow>
          if ma_retrying m \<and> \<not> (- (2 ^ 31) \<le> ma_currentIntervalBase m * 2 \<and> ma_currentIntervalBase m * 2 < 2 ^ 31) then None
          else do {
            let m = (if ma_retrying m
              then m\<lparr>ma_lastConnectionFailedTime := now, ma_currentIntervalBase := min (ma_currentIntervalBase m * 2) (ma_maxRetryInterval m)\<rparr>
              else m\<lparr>ma_lastConnectionFailedTime := now, ma_currentIntervalBase := ma_minRetryInterval m, ma_retrying := True\<rparr>);
            (interval, s) \<leftarrow> MQTTAsync_randomJitter (ae_RAND_MAX E) (ae_rand E) (ma_currentIntervalBase m) (ma_minRetryInterval m) (ma_maxRetryInterval m) s;
            Some (m\<lparr>ma_currentInterval := interval\<rparr>, s)
          })
      else Some (m, s))"

end
