(* ===== verification/CommandRecords.thy ===== *)
theory CommandRecords
  imports AsyncCommands QueueRecords
begin

text \<open>
  The offline buffer: publications that wait in the command queue, in memory and in the store.  The buffer is a
  FIFO queue, and it stays one when the program is started again at any time.
\<close>

section \<open>Keys\<close>

definition command_record_key :: "int \<Rightarrow> 32 word \<Rightarrow> bytes" where
  "command_record_key v n = bytes_of (if 5 \<le> v then PERSISTENCE_V5_COMMAND_KEY else PERSISTENCE_COMMAND_KEY) @ dec_bytes (unat n)"

lemma command_record_key_eq [simp]: "command_record_key v m = command_record_key v n \<longleftrightarrow> m = n"
  by (simp add: command_record_key_def word_unat_eq_iff)

lemma command_key_fits: "unat n < 1000000 \<Longrightarrow> command_key v n = Some (command_record_key v n)"
  using length_dec_bytes [of "unat n" 5] by (auto simp: command_key_def command_record_key_def key_stems)

lemma command_record_key_ok: "key_ok (command_record_key v n)"
  using isdigit_dec_bytes
  by (auto simp: key_ok_def key_char_def isdigit_def command_record_key_def key_stems bytes_of_stems split: if_splits)

lemma command_record_key_stem:
  "5 \<le> v \<Longrightarrow> has_stem PERSISTENCE_V5_COMMAND_KEY (command_record_key v n)"
  "v < 5 \<Longrightarrow> has_stem PERSISTENCE_COMMAND_KEY (command_record_key v n)"
  "v < 5 \<Longrightarrow> \<not> has_stem PERSISTENCE_V5_COMMAND_KEY (command_record_key v n)"
  by (simp_all add: has_stem_def command_record_key_def key_stems bytes_of_stems)

lemma command_record_key_number: "unat n < 1000000 \<Longrightarrow> key_number (command_record_key v n) = Some (int (unat n))"
proof -
  assume "unat n < 1000000"
  then have a: "atoi (dec_bytes (unat n)) = Some (int (unat n))" by (intro atoi_dec_bytes) simp
  have "(0x2D :: byte) \<notin> set [0x63]" "(0x2D :: byte) \<notin> set [0x63, 0x35]" by simp_all
  from strchr_first [OF this(1), of "dec_bytes (unat n)"] strchr_first [OF this(2), of "dec_bytes (unat n)"] a
  show ?thesis by (simp add: key_number_def command_record_key_def key_stems bytes_of_stems)
qed

section \<open>Records\<close>

definition cmd_props :: "MQTTAsync_command \<Rightarrow> MQTTProperty list" where
  "cmd_props c = (case props_entries (cmd_properties c) of None \<Rightarrow> [] | Some ps \<Rightarrow> ps)"

definition publication_ok :: "int \<Rightarrow> MQTTAsync_command \<Rightarrow> bool" where
  "publication_ok v c \<longleftrightarrow> (\<exists>t d qos retained. cmd_details c = Pub (Some t) (int (length d)) (Some d) qos retained \<and>
     0 \<notin> set t \<and> int_ok qos \<and> int_ok retained \<and> length t + length d < 2 ^ 30) \<and> int_ok (cmd_token c) \<and>
     (5 \<le> v \<longrightarrow> props_rep (cmd_properties c) (cmd_props c) \<and> (\<forall>p \<in> set (cmd_props c). prop_ok p) \<and>
        length (concat (map prop_enc (cmd_props c))) < 2 ^ 28)"

text \<open>The bytes behind the properties.\<close>

definition publication_record :: "MQTTAsync_command \<Rightarrow> bytes" where
  "publication_record c = (case cmd_details c of
     Pub (Some t) payloadlen (Some d) qos retained \<Rightarrow>
       int_bytes PUBLISH @ int_bytes (cmd_token c) @ t @ [0] @ int_bytes payloadlen @ d @ int_bytes qos @ int_bytes retained
   | _ \<Rightarrow> [])"

definition command_record :: "int \<Rightarrow> MQTTAsync_command \<Rightarrow> bytes" where
  "command_record v c = publication_record c @ (if 5 \<le> v then props_enc (cmd_props c) else [])"

text \<open>What is the same of a command that was restored: the callbacks are not in the store.\<close>

definition same_publication :: "int \<Rightarrow> MQTTAsync_command \<Rightarrow> MQTTAsync_queuedCommand \<Rightarrow> bool" where
  "same_publication v c q \<longleftrightarrow> cmd_details (qc_command q) = cmd_details c \<and> cmd_token (qc_command q) = cmd_token c \<and>
     (5 \<le> v \<longrightarrow> props_entries (cmd_properties (qc_command q)) = Some (cmd_props c))"

lemma int_bytes_nonempty [simp]: "int_bytes i \<noteq> []"
  using length_int_bytes [of i] by (metis list.size(3) zero_neq_numeral)

lemma take_int_front: "int_ok i \<Longrightarrow> data = pre @ int_bytes i @ post \<Longrightarrow> p = length pre \<Longrightarrow> take_int data p = Some (Some (i, p + 4))"
  using read_int_front [of i data pre post p] by (simp add: take_int_def)

lemma take_string_front:
  assumes "0 \<notin> set t" "data = pre @ t @ 0 # post" "p = length pre" "post \<noteq> []"
  shows "take_string always_alloc copied data p = Some (Some (t, p + length t + 1))"
  using strchr_first [OF assms(1), of post] assms(2-4) by (simp add: take_string_def Let_def)

lemma restore_publish_record:
  assumes "cmd_details c = Pub (Some t) (int (length d)) (Some d) qos retained" "0 \<notin> set t" "int_ok qos" "int_ok retained"
    "length t + length d < 2 ^ 30" "data = publication_record c @ post"
  shows "restore_publish always_alloc short data 8 =
    Some (Some (if short then Pub None (int (length d)) None qos retained else cmd_details c, length (publication_record c)))"
proof -
  let ?h = "int_bytes PUBLISH @ int_bytes (cmd_token c)"
  have data: "data = ?h @ t @ 0 # int_bytes (int (length d)) @ d @ int_bytes qos @ int_bytes retained @ post"
    using assms(1,6) by (simp add: publication_record_def)
  have n: "length (publication_record c) = 8 + length t + 1 + 4 + length d + 8" using assms(1) by (simp add: publication_record_def)
  have 1: "take_string always_alloc (\<not> short) data 8 = Some (Some (t, 9 + length t))"
    using take_string_front [OF assms(2), of data ?h "int_bytes (int (length d)) @ d @ int_bytes qos @ int_bytes retained @ post" 8] data
    by simp
  have 2: "take_int data (9 + length t) = Some (Some (int (length d), 13 + length t))"
    using take_int_front [of "int (length d)" data "?h @ t @ [0]" "d @ int_bytes qos @ int_bytes retained @ post"] assms(5) data
    by (simp add: int_ok_def)
  have 3: "read_int data (13 + (length t + length d)) = Some (qos, 17 + (length t + length d))"
    using read_int_front [OF assms(3), of data "?h @ t @ 0 # int_bytes (int (length d)) @ d" "int_bytes retained @ post"] data by simp
  have 4: "read_int data (17 + (length t + length d)) = Some (retained, 21 + (length t + length d))"
    using read_int_front [OF assms(4), of data "?h @ t @ 0 # int_bytes (int (length d)) @ d @ int_bytes qos" post] data by simp
  have 5: "take (length d) (drop (13 + length t) data) = d" "length data = length t + length d + 21 + length post"
    unfolding data by simp_all
  show ?thesis
    unfolding restore_publish_def using 1 2 3 4 5 n assms(1) by (simp add: add.assoc del: bind_Some_iff)
qed


lemma command_record_head:
  assumes "publication_ok v c"
  shows "read_int (command_record v c) 0 = Some (PUBLISH, 4)" "read_int (command_record v c) 4 = Some (cmd_token c, 8)"
    "command_record v c \<noteq> []" "\<not> length (command_record v c) < 8"
proof -
  obtain t d qos retained where d: "cmd_details c = Pub (Some t) (int (length d)) (Some d) qos retained" "int_ok (cmd_token c)"
    using assms by (auto simp: publication_ok_def)
  obtain r where r: "command_record v c = int_bytes PUBLISH @ int_bytes (cmd_token c) @ r"
    by (simp add: command_record_def publication_record_def d(1))
  have "int_ok PUBLISH" by (simp add: int_ok_def)
  from read_int_front [OF this, of "command_record v c" "[]"] r show "read_int (command_record v c) 0 = Some (PUBLISH, 4)" by simp
  from read_int_front [OF d(2), of "command_record v c" "int_bytes PUBLISH" r] r
  show "read_int (command_record v c) 4 = Some (cmd_token c, 8)" by simp
  show "command_record v c \<noteq> []" "\<not> length (command_record v c) < 8" by (simp_all add: r)
qed

lemma restore_short:
  assumes "publication_ok v c"
  shows "MQTTAsync_restoreCommand always_alloc (command_record v c) w None =
    Some (Some ((zero_queued (short_details (cmd_details c)))\<lparr>qc_not_restored := True,
      qc_command := (zero_command (short_details (cmd_details c)))\<lparr>cmd_token := cmd_token c\<rparr>\<rparr>))"
proof -
  obtain t d qos retained where d: "cmd_details c = Pub (Some t) (int (length d)) (Some d) qos retained" "0 \<notin> set t" "int_ok qos"
    "int_ok retained" "length t + length d < 2 ^ 30"
    using assms by (auto simp: publication_ok_def)
  note r = restore_publish_record [OF d, of "command_record v c" "if 5 \<le> v then props_enc (cmd_props c) else []"]
  show ?thesis
    unfolding MQTTAsync_restoreCommand_def
    using r [of True] command_record_head [OF assms] d(1)
    by (simp add: restore_details_def command_record_def zero_queued_def zero_command_def del: bind_Some_iff)
qed

lemma restore_full:
  assumes "publication_ok v c" "cmd_properties (qc_command q) = MQTTProperties_initializer" "(5 \<le> w) = (5 \<le> v)"
  shows "\<exists>q'. MQTTAsync_restoreCommand always_alloc (command_record v c) w (Some q) = Some (Some q') \<and>
    same_publication v c q' \<and> qc_client q' = qc_client q \<and> qc_seqno q' = qc_seqno q"
proof -
  obtain t d qos retained where d: "cmd_details c = Pub (Some t) (int (length d)) (Some d) qos retained" "0 \<notin> set t" "int_ok qos"
    "int_ok retained" "length t + length d < 2 ^ 30"
    using assms by (auto simp: publication_ok_def)
  note r = restore_publish_record [OF d, of "command_record v c" "if 5 \<le> v then props_enc (cmd_props c) else []" False]
  have b: "command_record v c = publication_record c @ (if 5 \<le> v then props_enc (cmd_props c) else [])" by (simp add: command_record_def)
  show ?thesis
  proof (cases "5 \<le> v")
    case True
    have p: "\<forall>p \<in> set (cmd_props c). prop_ok p" "length (concat (map prop_enc (cmd_props c))) < 2 ^ 28"
      using assms(1) True by (simp_all add: publication_ok_def)
    obtain props e where props: "MQTTProperties_read always_alloc MQTTProperties_initializer (command_record v c)
        (length (publication_record c)) (length (command_record v c)) = Some (1, props, e)" "props_entries props = Some (cmd_props c)"
      using MQTTProperties_read_bytes [OF p, of "command_record v c" "publication_record c" "[]"] b True by auto
    show ?thesis
      unfolding MQTTAsync_restoreCommand_def
      using r [OF b] command_record_head [OF assms(1)] d(1) props assms(2,3) True
      by (simp add: restore_details_def same_publication_def del: bind_Some_iff)
  next
    case False
    then show ?thesis
      unfolding MQTTAsync_restoreCommand_def
      using r [OF b] command_record_head [OF assms(1)] d(1) assms(2,3)
      by (simp add: restore_details_def same_publication_def del: bind_Some_iff)
  qed
qed

lemma command_buffers_record:
  assumes "publication_ok v c"
  obtains bufs where "command_buffers v c = Some (Some bufs)" "buffers_bytes bufs = Some (publication_record c)"
    "length (publication_record c) < 2 ^ 31"
proof -
  obtain t d qos retained where d: "cmd_details c = Pub (Some t) (int (length d)) (Some d) qos retained" "length t + length d < 2 ^ 30"
    using assms by (auto simp: publication_ok_def)
  have "strlen_int t = int (length t)" using d(2) by (simp add: strlen_int_def signed_of_nat signed_take_bit_int_eq_self)
  then have "buffers_bytes [int_buffer PUBLISH, int_buffer (cmd_token c), string_buffer t, int_buffer (int (length d)),
      (Some d, int (length d)), int_buffer qos, int_buffer retained] = Some (publication_record c)"
    using d by (simp add: int_buffer_def string_buffer_def publication_record_def to_size_def iov_base_def nat_mod_as_int flip: of_nat_Suc)
  then show thesis
    using that d by (simp add: command_buffers_def publication_record_def)
qed


section \<open>The buffer\<close>

lemma buffers_bytes_append:
  "buffers_bytes xs = Some x \<Longrightarrow> buffers_bytes ys = Some y \<Longrightarrow> buffers_bytes (xs @ ys) = Some (x @ y)"
proof (induction xs arbitrary: x)
  case (Cons b xs)
  then show ?case by (cases b) auto
qed simp

text \<open>What stays in memory of a stored publication.\<close>

definition entry_for :: "int \<Rightarrow> nat \<Rightarrow> MQTTAsync_command \<Rightarrow> MQTTAsync_queuedCommand \<Rightarrow> bool" where
  "entry_for v i c q \<longleftrightarrow> qc_client q = i \<and> qc_not_restored q \<and> qc_key q = Some (command_record_key v (qc_seqno q)) \<and>
     cmd_details (qc_command q) = short_details (cmd_details c) \<and> cmd_properties (qc_command q) = MQTTProperties_initializer \<and>
     publication_ok v c"

text \<open>Options with which every publication is stored and none is dropped.\<close>

definition roomy :: "MQTTAsync_createOptions option \<Rightarrow> nat \<Rightarrow> bool" where
  "roomy co n \<longleftrightarrow> (case co of None \<Rightarrow> True
     | Some options \<Rightarrow> (co_struct_version options < 2 \<or> co_persistQoS0 options \<noteq> 0) \<and> int n \<le> co_maxBufferedMessages options)"

definition client_handle_ok :: "int \<Rightarrow> 's client_store \<Rightarrow> MQTTAsync_createOptions option \<Rightarrow> 's MQTTAsyncs \<Rightarrow> bool" where
  "client_handle_ok v cs co a \<longleftrightarrow> client_MQTTVersion (ma_c a) = v \<and> ma_store a = cs \<and> ma_createOptions a = co"

text \<open>The publications \<open>ps\<close> are in the queue of client \<open>i\<close> and in the store.\<close>

definition commands_for :: "int \<Rightarrow> nat \<Rightarrow> MQTTAsync_command list \<Rightarrow> MQTTAsync_queuedCommand list \<Rightarrow> (bytes \<Rightarrow> bytes option) \<Rightarrow> bool" where
  "commands_for v i ps qs m \<longleftrightarrow> list_all2 (entry_for v i) ps qs \<and> sorted_wrt (<) (map qc_seqno qs) \<and>
     dom m = (\<lambda>q. command_record_key v (qc_seqno q)) ` set qs \<and>
     list_all2 (\<lambda>c q. m (command_record_key v (qc_seqno q)) = Some (command_record v c)) ps qs"

definition buffered ::
  "int \<Rightarrow> 's client_store \<Rightarrow> MQTTAsync_createOptions option \<Rightarrow> nat \<Rightarrow> MQTTAsync_command list \<Rightarrow> 's async_state \<Rightarrow>
   (bytes \<Rightarrow> bytes option) \<Rightarrow> bool" where
  "buffered v cs co i ps st m \<longleftrightarrow> i < length (ac_handles st) \<and> client_handle_ok v cs co (ac_handles st ! i) \<and>
     ma_noBufferedMessages (ac_handles st ! i) = int (length ps) \<and> commands_for v i ps (cl_items (ac_commands st)) m \<and>
     (\<forall>q \<in> set (cl_items (ac_commands st)). qc_seqno q \<le> ma_command_seqno (ac_handles st ! i))"

lemma entry_for_publish: "entry_for v i c q \<Longrightarrow> is_publish q"
  by (auto simp: entry_for_def is_publish_def publication_ok_def)

lemma publication_not_connect:
  assumes "publication_ok v c"
  shows "command_type (cmd_details c) = PUBLISH" "cmd_details c \<noteq> Dis a b r"
  using assms by (auto simp: publication_ok_def)

lemma commands_for_add:
  assumes "commands_for v i ps qs m" "publication_ok v c" "\<forall>q \<in> set qs. qc_seqno q < n"
    "entry_for v i c q" "qc_seqno q = n"
  shows "commands_for v i (ps @ [c]) (qs @ [q]) (m(command_record_key v n \<mapsto> command_record v c))"
proof -
  let ?m = "m(command_record_key v n \<mapsto> command_record v c)"
  have a: "list_all2 (entry_for v i) ps qs" "sorted_wrt (<) (map qc_seqno qs)"
    "dom m = (\<lambda>q. command_record_key v (qc_seqno q)) ` set qs"
    "list_all2 (\<lambda>c q. m (command_record_key v (qc_seqno q)) = Some (command_record v c)) ps qs"
    using assms(1) by (simp_all add: commands_for_def)
  have ne: "qc_seqno x \<noteq> n" if "x \<in> set qs" for x using assms(3) that by fastforce
  have 1: "list_all2 (\<lambda>c q. ?m (command_record_key v (qc_seqno q)) = Some (command_record v c)) ps qs"
    by (rule list.rel_mono_strong [OF a(4)]) (simp add: ne)
  have 2: "list_all2 (\<lambda>c q. ?m (command_record_key v (qc_seqno q)) = Some (command_record v c)) [c] [q]"
    using assms(5) by simp
  have 3: "list_all2 (entry_for v i) [c] [q]" using assms(4) by simp
  show ?thesis
    unfolding commands_for_def
  proof (intro conjI)
    show "list_all2 (entry_for v i) (ps @ [c]) (qs @ [q])" by (rule list_all2_appendI [OF a(1) 3])
    show "sorted_wrt (<) (map qc_seqno (qs @ [q]))" using a(2) assms(3,5) by (simp add: sorted_wrt_append)
    show "dom ?m = (\<lambda>q. command_record_key v (qc_seqno q)) ` set (qs @ [q])" using a(3) assms(5) by simp
    show "list_all2 (\<lambda>c q. ?m (command_record_key v (qc_seqno q)) = Some (command_record v c)) (ps @ [c]) (qs @ [q])"
      by (rule list_all2_appendI [OF 1 2])
  qed
qed

lemma commands_for_take:
  assumes "commands_for v i (c # ps) (q # qs) m"
  shows "commands_for v i ps qs (m(command_record_key v (qc_seqno q) := None))"
proof -
  let ?m = "m(command_record_key v (qc_seqno q) := None)"
  have a: "list_all2 (entry_for v i) ps qs" "\<forall>x \<in> set qs. qc_seqno q < qc_seqno x" "sorted_wrt (<) (map qc_seqno qs)"
    "dom m = (\<lambda>q. command_record_key v (qc_seqno q)) ` set (q # qs)"
    "list_all2 (\<lambda>c q. m (command_record_key v (qc_seqno q)) = Some (command_record v c)) ps qs"
    using assms by (simp_all add: commands_for_def)
  have ne: "qc_seqno x \<noteq> qc_seqno q" if "x \<in> set qs" for x using a(2) that by fastforce
  have "list_all2 (\<lambda>c q. ?m (command_record_key v (qc_seqno q)) = Some (command_record v c)) ps qs"
    by (rule list.rel_mono_strong [OF a(5)]) (simp add: ne)
  moreover have "dom ?m = (\<lambda>q. command_record_key v (qc_seqno q)) ` set qs" using a(4) ne by (auto simp: image_iff)
  ultimately show ?thesis unfolding commands_for_def using a(1,3) by (intro conjI)
qed

lemma publication_time [simp]:
  "cmd_props (c\<lparr>cmd_start_time := t\<rparr>) = cmd_props c"
  "command_record v (c\<lparr>cmd_start_time := t\<rparr>) = command_record v c"
  "publication_ok v (c\<lparr>cmd_start_time := t\<rparr>) = publication_ok v c"
proof -
  show p: "cmd_props (c\<lparr>cmd_start_time := t\<rparr>) = cmd_props c" by (simp add: cmd_props_def)
  have "publication_record (c\<lparr>cmd_start_time := t\<rparr>) = publication_record c" by (simp add: publication_record_def cong: option.case_cong command_details.case_cong)
  then show "command_record v (c\<lparr>cmd_start_time := t\<rparr>) = command_record v c" by (simp add: command_record_def p)
  show "publication_ok v (c\<lparr>cmd_start_time := t\<rparr>) = publication_ok v c" by (simp add: publication_ok_def p)
qed

context message_store
begin

lemma persistCommand_stores:
  assumes "ok s" "publication_ok v (qc_command q)" "ma_store a = cs" "stores_in p h cs" "client_MQTTVersion (ma_c a) = v"
    "unat (ma_command_seqno a) + 1 < 1000000" "ae_alloc E = always_alloc"
  shows "\<exists>s'. MQTTAsync_persistCommand E a q s =
      Some (0, q\<lparr>qc_seqno := ma_command_seqno a + 1\<rparr>, a\<lparr>ma_command_seqno := ma_command_seqno a + 1\<rparr>, s') \<and>
    ok s' \<and> content s' = (content s)(command_record_key v (ma_command_seqno a + 1) \<mapsto> command_record v (qc_command q))"
proof -
  let ?n = "ma_command_seqno a + 1" and ?c = "qc_command q"
  have u: "unat ?n < 1000000" "?n \<noteq> PERSISTENCE_SEQNO_LIMIT" using assms(6) by (auto simp: unat_word_ariths)
  have key: "command_key v ?n = Some (command_record_key v ?n)" by (rule command_key_fits [OF u(1)])
  obtain bufs where b: "command_buffers v ?c = Some (Some bufs)" "buffers_bytes bufs = Some (publication_record ?c)"
    "length (publication_record ?c) < 2 ^ 31" by (rule command_buffers_record [OF assms(2)])
  have st: "persistence cs = Some p" "phandle cs = h" "beforeWrite cs = None" using assms(4) by (simp_all add: stores_in_def)
  show ?thesis
  proof (cases "5 \<le> v")
    case True
    let ?e = "props_enc (cmd_props ?c)"
    have ps: "props_rep (cmd_properties ?c) (cmd_props ?c)" "\<forall>p \<in> set (cmd_props ?c). prop_ok p"
      "length (concat (map prop_enc (cmd_props ?c))) < 2 ^ 28"
      using assms(2) True by (simp_all add: publication_ok_def)
    have el: "length ?e < 2 ^ 30" using ps(3) vbi_length_bound [of "length (concat (map prop_enc (cmd_props ?c)))" 3] by (simp add: props_enc_def)
    have l: "MQTTProperties_len (Some (cmd_properties ?c)) = int (length ?e)" by (rule length_props_enc [OF ps(1,3)])
    have w: "write_bytes ?e (replicate (length ?e) (ae_junk E), 0) = Some (?e, length ?e)" by (simp add: write_bytes_def memcpy_at_def)
    have wr: "MQTTProperties_write (Some (cmd_properties ?c)) (replicate (length ?e) (ae_junk E), 0) =
        Some (1 + int (length (concat (map prop_enc (cmd_props ?c)))), ?e, length ?e)"
      unfolding MQTTProperties_write_bytes [OF ps] w by simp
    have "buffers_bytes [(Some ?e, int (length ?e))] = Some ?e" using el by (simp add: to_size_def iov_base_def)
    from buffers_bytes_append [OF b(2) this]
    have bs: "buffers_bytes (bufs @ [(Some ?e, int (length ?e))]) = Some (command_record v ?c)"
      using True by (simp add: command_record_def)
    have "length (command_record v ?c) < 2 ^ 64" using b(3) el by (simp add: command_record_def)
    from put [OF assms(1) command_record_key_ok bs this] obtain s' where
      "pput p h (command_record_key v ?n) (bufs @ [(Some ?e, int (length ?e))]) s = Some (0, s')" "ok s'"
      "content s' = (content s)(command_record_key v ?n \<mapsto> command_record v ?c)" by blast
    then show ?thesis
      using b(1) l wr key u(2) st assms(3,5,7) True el
      by (simp add: MQTTAsync_persistCommand_def write_command_def Let_def del: bind_Some_iff)
  next
    case False
    then have r: "command_record v ?c = publication_record ?c" by (simp add: command_record_def)
    have "length (publication_record ?c) < 2 ^ 64" using b(3) by simp
    from put [OF assms(1) command_record_key_ok b(2) this] obtain s' where
      "pput p h (command_record_key v ?n) bufs s = Some (0, s')" "ok s'"
      "content s' = (content s)(command_record_key v ?n \<mapsto> publication_record ?c)" by blast
    then show ?thesis
      using b(1) key u(2) st assms(3,5,7) False r
      by (simp add: MQTTAsync_persistCommand_def write_command_def Let_def del: bind_Some_iff)
  qed
qed

lemma add_publication:
  assumes s: "ok (ac_outer st)" "buffered v cs co i ps st (content (ac_outer st))" and cs: "stores_in p h cs" "roomy co (Suc (length ps))"
    and c: "publication_ok v c" "unat (ma_command_seqno (ac_handles st ! i)) + 1 < 1000000"
    and E: "ae_alloc E = always_alloc" "\<And>s. ok s \<Longrightarrow> ok (snd (ae_now E s)) \<and> content (snd (ae_now E s)) = content s"
      "\<And>s. ok s \<Longrightarrow> ok (snd (ae_post E s)) \<and> content (snd (ae_post E s)) = content s"
  shows "\<exists>rc st'. MQTTAsync_addCommand E ((zero_queued (cmd_details c))\<lparr>qc_command := c, qc_client := i\<rparr>) st = Some (rc, st') \<and>
    ok (ac_outer st') \<and> buffered v cs co i (ps @ [c]) st' (content (ac_outer st')) \<and>
    unat (ma_command_seqno (ac_handles st' ! i)) = unat (ma_command_seqno (ac_handles st ! i)) + 1 \<and>
    ma_c (ac_handles st' ! i) = ma_c (ac_handles st ! i) \<and> length (ac_handles st') = length (ac_handles st)"
proof -
  let ?q = "(zero_queued (cmd_details c))\<lparr>qc_command := c, qc_client := i\<rparr>" and ?a = "ac_handles st ! i"
  let ?n = "ma_command_seqno ?a + 1"
  obtain now s1 where now: "ae_now E (ac_outer st) = (now, s1)" by force
  have s1: "ok s1" "content s1 = content (ac_outer st)" using E(2) [OF s(1)] now by simp_all
  let ?c = "c\<lparr>cmd_start_time := now\<rparr>" and ?q1 = "?q\<lparr>qc_command := c\<lparr>cmd_start_time := now\<rparr>\<rparr>"
  have c1: "publication_ok v ?c" "command_record v ?c = command_record v c" "cmd_details ?c = cmd_details c"
    using c(1) by simp_all
  have i: "i < length (ac_handles st)" and a: "client_handle_ok v cs co ?a" "ma_noBufferedMessages ?a = int (length ps)"
    and l: "\<forall>q \<in> set (cl_items (ac_commands st)). qc_seqno q \<le> ma_command_seqno ?a"
    using s(2) by (simp_all add: buffered_def)
  have av: "client_MQTTVersion (ma_c ?a) = v" "ma_store ?a = cs" "ma_createOptions ?a = co" using a(1) by (simp_all add: client_handle_ok_def)
  have pc: "persistence cs = Some p" using cs(1) by (simp add: stores_in_def)
  obtain s2 where p: "MQTTAsync_persistCommand E ?a ?q1 s1 = Some (0, ?q1\<lparr>qc_seqno := ?n\<rparr>, ?a\<lparr>ma_command_seqno := ?n\<rparr>, s2)" "ok s2"
      "content s2 = (content s1)(command_record_key v ?n \<mapsto> command_record v c)"
    using persistCommand_stores [OF s1(1), of v ?q1 ?a cs E] c1 av cs(1) c(2) E(1) by auto
  have u: "unat ?n = unat (ma_command_seqno ?a) + 1" using c(2) by (simp add: unat_word_ariths)
  then have un: "unat ?n < 1000000" "ma_command_seqno ?a < ?n" using c(2) by (simp_all add: word_less_nat_alt)
  have pub: "command_type (cmd_details c) = PUBLISH" "is_publish ?q1" using publication_not_connect [OF c(1)] by (simp_all add: is_publish_def)
  let ?q2 = "shorten (?q1\<lparr>qc_seqno := ?n, qc_not_restored := True, qc_key := Some (command_record_key v ?n)\<rparr>)"
  have e: "entry_for v i c ?q2" "qc_seqno ?q2 = ?n" "qc_client ?q2 = i" "is_publish ?q2"
  proof -
    show f: "entry_for v i c ?q2" "qc_seqno ?q2 = ?n" "qc_client ?q2 = i"
      using c(1) by (simp_all add: entry_for_def shorten_def zero_queued_def MQTTProperties_free_def)
    show "is_publish ?q2" by (rule entry_for_publish [OF f(1)])
  qed
  have sc: "store_command E ?a ?q1 s1 = Some (False, ?q2, ?a\<lparr>ma_command_seqno := ?n\<rparr>, s2)"
    using p(1) pc av pub cs(2) command_key_fits [OF un(1), of v] E(1)
    by (cases co) (auto simp: store_command_def roomy_def is_publish_def simp del: bind_Some_iff)
  let ?a2 = "?a\<lparr>ma_command_seqno := ?n, ma_noBufferedMessages := int (length ps) + 1\<rparr>"
  let ?st = "(set_handle i ?a2 st)\<lparr>ac_outer := s2, ac_commands := cl_append ?q2 (ac_commands st)\<rparr>"
  have room: "\<not> (case co of None \<Rightarrow> False | Some options \<Rightarrow> co_maxBufferedMessages options \<le> int (length ps))"
    using cs(2) by (auto simp: roomy_def split: option.splits)
  have al: "add_last E ?q1 (st\<lparr>ac_outer := s1\<rparr>) = Some ?st"
    using sc e(3,4) i a(2) room av(3) E(1)
    by (cases co) (simp_all add: add_last_def handle_at_def count_publish_def set_handle_def Let_def zero_queued_def del: bind_Some_iff)
  obtain rc s3 where post: "ae_post E s2 = (rc, s3)" by force
  have s3: "ok s3" "content s3 = content s2" using E(3) [OF p(2)] post by simp_all
  have "MQTTAsync_addCommand E ?q st = Some (rc, ?st\<lparr>ac_outer := s3\<rparr>)"
    using al now post pub(1) publication_not_connect(2) [OF c(1)] i
    by (simp add: MQTTAsync_addCommand_def handle_at_def zero_queued_def Let_def del: bind_Some_iff split: command_details.split)
  moreover have "buffered v cs co i (ps @ [c]) (?st\<lparr>ac_outer := s3\<rparr>) (content s3)"
  proof -
    have lt: "\<forall>q \<in> set (cl_items (ac_commands st)). qc_seqno q < ?n" using l un(2) by (meson le_less_trans)
    have "commands_for v i ps (cl_items (ac_commands st)) (content (ac_outer st))" using s(2) by (simp add: buffered_def)
    from commands_for_add [OF this c(1) lt e(1,2)]
    have f: "commands_for v i (ps @ [c]) (cl_items (ac_commands st) @ [?q2]) (content s3)" using s3(2) p(3) s1(2) by simp
    have h: "ac_handles (?st\<lparr>ac_outer := s3\<rparr>) ! i = ?a2" "length (ac_handles (?st\<lparr>ac_outer := s3\<rparr>)) = length (ac_handles st)"
      "cl_items (ac_commands (?st\<lparr>ac_outer := s3\<rparr>)) = cl_items (ac_commands st) @ [?q2]"
      using i by (simp_all add: set_handle_def cl_append_def)
    have g: "client_handle_ok v cs co ?a2" using av by (simp add: client_handle_ok_def)
    have k: "\<forall>q \<in> set (cl_items (ac_commands st) @ [?q2]). qc_seqno q \<le> ma_command_seqno ?a2"
      using lt e(2) by (auto intro: less_imp_le)
    show ?thesis unfolding buffered_def h using i g k f by simp
  qed
  ultimately show ?thesis using s3(1) i u by (simp add: set_handle_def)
qed

end

end
