(* ===== verification/OfflineBuffer.thy ===== *)
theory OfflineBuffer
  imports CommandRecords
begin

text \<open>
  The offline buffer of \<open>MQTTAsyncUtils.c\<close> as a queue: what \<open>MQTTAsync_addCommand\<close> puts into it,
  \<open>MQTTAsync_processCommand\<close> takes out again in the same order, and a restart of the program loses nothing.
\<close>

section \<open>Taking a publication\<close>

lemma take_reload:
  assumes "commands_for v i (c # ps) (q # qs) m"
  shows "entry_for v i c q" "m (command_record_key v (qc_seqno q)) = Some (command_record v c)"
  using assms by (simp_all add: commands_for_def)

lemma publish_qos_short [simp]: "publish_qos (short_details d) = publish_qos d"
  by (cases d) simp_all

lemma command_type_short [simp]: "command_type (short_details d) = command_type d"
  by (cases d) simp_all

text \<open>The conditions of \<open>MQTTAsync_processCommand\<close> for a publication.\<close>

definition sendable :: "(int \<Rightarrow> bool) \<Rightarrow> Clients \<Rightarrow> int \<Rightarrow> bool" where
  "sendable idle c qos \<longleftrightarrow> connected c \<and> connect_state c = NOT_IN_PROGRESS \<and> idle (net_socket (net c)) \<and>
     (let n = int (length (cl_items (outboundMsgs c))) in n < MAX_MSG_ID - 1 \<and> (0 < qos \<longrightarrow> n < maxInflightMessages c))"

lemma command_ready_publication:
  assumes "entry_for v i c q" "i < length (ac_handles st)" "\<And>sock. ae_noPendingWrites E sock (ac_outer st) = idle sock"
  shows "command_ready E st q = Some (sendable idle (ma_c (ac_handles st ! i)) (publish_qos (cmd_details c)))"
proof -
  have t: "command_type (cmd_details (qc_command q)) = PUBLISH" "publish_qos (cmd_details (qc_command q)) = publish_qos (cmd_details c)"
    "qc_client q = i"
    using assms(1) publication_not_connect(1) [of v c] by (simp_all add: entry_for_def)
  show ?thesis
    unfolding command_ready_def t(1,2)
    using assms(2,3) t(3) by (auto simp: handle_at_def sendable_def Let_def)
qed

text \<open>A client whose first command cannot be run is ignored.\<close>

lemma choose_ignored:
  "\<forall>q \<in> set qs. qc_client q \<in> set ignored \<Longrightarrow> choose_command E st ignored n qs = Some None"
  by (induction qs arbitrary: n) auto

lemma choose_publication:
  assumes "commands_for v i ps qs m" "i < length (ac_handles st)" "\<And>sock. ae_noPendingWrites E sock (ac_outer st) = idle sock"
  shows "choose_command E st [] 0 qs =
    Some (case ps of [] \<Rightarrow> None | c # _ \<Rightarrow> if sendable idle (ma_c (ac_handles st ! i)) (publish_qos (cmd_details c)) then Some 0 else None)"
proof (cases qs)
  case Nil
  then show ?thesis using assms(1) by (simp add: commands_for_def)
next
  case (Cons q qs')
  then obtain c ps' where ps: "ps = c # ps'" using assms(1) by (cases ps) (auto simp: commands_for_def)
  have e: "entry_for v i c q" "list_all2 (entry_for v i) ps' qs'" using assms(1) ps Cons by (simp_all add: commands_for_def)
  have "\<forall>q \<in> set qs'. qc_client q = i" using e(2) by (induction rule: list_all2_induct) (simp_all add: entry_for_def)
  then have "choose_command E st [i] (Suc 0) qs' = Some None" by (intro choose_ignored) simp
  moreover have "qc_client q = i" using e(1) by (simp add: entry_for_def)
  ultimately show ?thesis using command_ready_publication [OF e(1) assms(2,3)] ps Cons by simp
qed

context message_store
begin

lemma take_publication:
  assumes s: "ok (ac_outer st)" "buffered v cs co i (c # ps) st (content (ac_outer st))" and cs: "stores_in p h cs"
    and u: "unat (ma_command_seqno (ac_handles st ! i)) < 1000000" and E: "ae_alloc E = always_alloc"
  shows "\<exists>q st'. take_command E 0 st = Some (q, st') \<and> same_publication v c q \<and> ok (ac_outer st') \<and>
    buffered v cs co i ps st' (content (ac_outer st')) \<and> ma_c (ac_handles st' ! i) = ma_c (ac_handles st ! i) \<and>
    ma_command_seqno (ac_handles st' ! i) = ma_command_seqno (ac_handles st ! i) \<and> length (ac_handles st') = length (ac_handles st)"
proof -
  let ?a = "ac_handles st ! i" and ?m = "content (ac_outer st)"
  have i: "i < length (ac_handles st)" and a: "client_handle_ok v cs co ?a" "ma_noBufferedMessages ?a = int (length (c # ps))"
    and f: "commands_for v i (c # ps) (cl_items (ac_commands st)) ?m"
    and l: "\<forall>q \<in> set (cl_items (ac_commands st)). qc_seqno q \<le> ma_command_seqno ?a"
    using s(2) by (simp_all add: buffered_def)
  obtain q qs where q: "cl_items (ac_commands st) = q # qs" using f by (cases "cl_items (ac_commands st)") (auto simp: commands_for_def)
  note e = take_reload [OF f [unfolded q]]
  let ?k = "command_record_key v (qc_seqno q)"
  have pc: "persistence cs = Some p" "phandle cs = h" "afterRead cs = None" using cs by (simp_all add: stores_in_def)
  have av: "client_MQTTVersion (ma_c ?a) = v" "ma_store ?a = cs" using a(1) by (simp_all add: client_handle_ok_def)
  have "unat (qc_seqno q) < 1000000" using l q u by (fastforce simp: word_le_nat_alt)
  note key = command_key_fits [OF this, of v]
  have qe: "qc_client q = i" "qc_not_restored q" "qc_key q = Some ?k" "cmd_properties (qc_command q) = MQTTProperties_initializer"
    "publication_ok v c" "is_publish q"
    using e(1) entry_for_publish [OF e(1)] by (simp_all add: entry_for_def)
  let ?w = "if has_stem PERSISTENCE_V5_COMMAND_KEY ?k then MQTTVERSION_5 else MQTTVERSION_3_1_1"
  have w: "(5 \<le> ?w) = (5 \<le> v)" using command_record_key_stem(1,3) [of v "qc_seqno q"] by (cases "5 \<le> v") simp_all
  obtain q' where q': "MQTTAsync_restoreCommand always_alloc (command_record v c) ?w (Some (q\<lparr>qc_key := None\<rparr>)) = Some (Some q')"
      "same_publication v c q'" "qc_seqno q' = qc_seqno q"
    using restore_full [OF qe(5) _ w, of "q\<lparr>qc_key := None\<rparr>"] qe(4) by auto
  have r: "read_record cs p ?k (ac_outer st) = Some (0, Some (command_record v c), ac_outer st)"
    using get [OF s(1) e(2)] pc by (simp add: read_record_def)
  let ?a2 = "?a\<lparr>ma_noBufferedMessages := ma_noBufferedMessages ?a - 1\<rparr>"
  have rl: "reload_command E ?a2 q (ac_outer st) = Some (Some q', ac_outer st)"
    using r q'(1) qe(2,3) pc(1) av(2) E by (simp add: reload_command_def del: bind_Some_iff)
  obtain s' where s': "premove p h ?k (ac_outer st) = Some (0, s')" "ok s'" "content s' = ?m(?k := None)"
    using remove [OF s(1) command_record_key_ok] by blast
  have un: "MQTTAsync_unpersistCommand ?a2 q' (ac_outer st) = Some (0, s')"
    using s'(1) key q'(3) pc av by (simp add: MQTTAsync_unpersistCommand_def del: bind_Some_iff)
  let ?st = "(set_handle i ?a2 st)\<lparr>ac_commands := detach_at 0 (ac_commands st), ac_outer := s'\<rparr>"
  have "take_command E 0 st = Some (q', ?st)"
    using rl un q qe(1,6) i av(2) pc(1) by (simp add: take_command_def handle_at_def set_handle_def Let_def del: bind_Some_iff)
  moreover have "buffered v cs co i ps ?st (content s')"
  proof -
    have h: "ac_handles ?st ! i = ?a2" "length (ac_handles ?st) = length (ac_handles st)" "cl_items (ac_commands ?st) = qs"
      using i q by (simp_all add: set_handle_def detach_at_def cl_remove_at_def)
    show ?thesis
      unfolding buffered_def h s'(3) using i a av l q commands_for_take [OF f [unfolded q]] by (simp add: client_handle_ok_def)
  qed
  moreover have "ac_handles ?st ! i = ?a2" "length (ac_handles ?st) = length (ac_handles st)" using i by (simp_all add: set_handle_def)
  ultimately show ?thesis using q'(2) s'(2) by (intro exI [of _ q'] exI [of _ ?st]) simp
qed

end

section \<open>A restart\<close>

text \<open>Sorting by distinct numbers has only one result.\<close>

lemma sorted_keys_unique:
  assumes "is_qsort qsort" "distinct ks" "set ks = set (map (command_record_key v) ns)" "sorted_wrt (<) ns"
    "\<forall>n \<in> set ns. unat n < 1000000"
  shows "sort_keys qsort ks = Some (map (command_record_key v) ns)"
proof -
  let ?f = "\<lambda>k. the (key_number k)" and ?cmp = "\<lambda>p1 p2. the (cmpkeys p1 p2)"
  have n: "key_number (command_record_key v n) = Some (int (unat n))" if "n \<in> set ns" for n
    using that assms(5) command_record_key_number by blast
  have k: "\<exists>n. key_number k = Some (int (unat n)) \<and> n \<in> set ns \<and> k = command_record_key v n" if "k \<in> set ks" for k
    using that n assms(3) by auto
  have "\<forall>x \<in> set ks. \<forall>y \<in> set ks. ?cmp x y = (if ?f x = ?f y then 0 else if ?f x < ?f y then - 1 else 1)"
  proof (intro ballI)
    fix x y assume "x \<in> set ks" "y \<in> set ks"
    then obtain a b where "key_number x = Some a" "key_number y = Some b" using k by blast
    then show "?cmp x y = (if ?f x = ?f y then 0 else if ?f x < ?f y then - 1 else 1)" by (simp add: cmpkeys_def)
  qed
  from assms(1) [unfolded is_qsort_def, THEN spec, THEN spec, THEN spec, THEN mp, OF this] assms(2)
  have q: "distinct (qsort ?cmp ks)" "set (qsort ?cmp ks) = set ks" "sorted (map ?f (qsort ?cmp ks))" by auto
  have inj: "inj_on ?f (set ks)"
  proof (rule inj_onI)
    fix x y assume "x \<in> set ks" "y \<in> set ks" "?f x = ?f y"
    moreover obtain a b where "key_number x = Some (int (unat a))" "x = command_record_key v a"
        "key_number y = Some (int (unat b))" "y = command_record_key v b"
      using k [OF \<open>x \<in> set ks\<close>] k [OF \<open>y \<in> set ks\<close>] by blast
    ultimately show "x = y" by (simp add: word_uint_eq_iff)
  qed
  have m: "map ?f (map (command_record_key v) ns) = map (\<lambda>n. int (unat n)) ns" using n by simp
  have "sorted_wrt (<) (map (\<lambda>n. int (unat n)) ns)"
    unfolding sorted_wrt_map by (rule sorted_wrt_mono_rel [OF _ assms(4)]) (simp add: word_less_def)
  then have s: "sorted (map ?f (map (command_record_key v) ns))" "distinct (map ?f (map (command_record_key v) ns))"
    unfolding m strict_sorted_iff by simp_all
  have "qsort ?cmp ks = map (command_record_key v) ns"
  proof (rule map_sorted_distinct_set_unique [where f = ?f])
    show "inj_on ?f (set (qsort ?cmp ks) \<union> set (map (command_record_key v) ns))" using inj q(2) assms(3) by simp
    show "sorted (map ?f (qsort ?cmp ks))" "sorted (map ?f (map (command_record_key v) ns))" by (rule q(3), rule s(1))
    show "distinct (map ?f (qsort ?cmp ks))" using q(1,2) inj by (simp add: distinct_map)
    show "distinct (map ?f (map (command_record_key v) ns))" by (rule s(2))
    show "set (qsort ?cmp ks) = set (map (command_record_key v) ns)" using q(2) assms(3) by simp
  qed
  moreover have "\<not> (\<exists>key \<in> set ks. key_number key = None)" using k by fastforce
  ultimately show ?thesis by (simp add: sort_keys_def)
qed

lemma list_all2_both: "list_all2 P xs ys \<Longrightarrow> list_all2 Q xs ys \<Longrightarrow> list_all2 (\<lambda>x y. P x y \<and> Q x y) xs ys"
  by (simp add: list_all2_conv_all_nth)

lemma fold_max_upper: "n = m \<or> n \<in> set ns \<Longrightarrow> n \<le> fold (\<lambda>n m. max m n) ns (m :: 'a :: linorder)"
proof (induction ns arbitrary: m n)
  case (Cons k ns)
  have "max m k \<le> fold (\<lambda>n m. max m n) ns (max m k)" using Cons.IH by blast
  moreover have "n \<in> set ns \<Longrightarrow> n \<le> fold (\<lambda>n m. max m n) ns (max m k)" using Cons.IH by blast
  ultimately show ?case using Cons.prems by auto
qed auto

lemma fold_max_in: "fold (\<lambda>n m. max m n) ns (m :: 'a :: linorder) \<in> insert m (set ns)"
proof (induction ns arbitrary: m)
  case (Cons k ns)
  from Cons [of "max m k"] show ?case by (auto simp: max_def split: if_splits)
qed simp

definition restored_handle :: "32 word list \<Rightarrow> 's MQTTAsyncs \<Rightarrow> 's MQTTAsyncs" where
  "restored_handle ns a = a\<lparr>ma_command_seqno := fold (\<lambda>n m. max m n) ns (ma_command_seqno a),
     ma_noBufferedMessages := ma_noBufferedMessages a + int (length ns)\<rparr>"

context message_store
begin

lemma restore_publication:
  assumes s: "ok (ac_outer st)" "content (ac_outer st) (command_record_key v n) = Some (command_record v c)" "publication_ok v c"
    and n: "unat n < 1000000" and i: "i < length (ac_handles st)" "ma_store (ac_handles st ! i) = cs" "stores_in p h cs"
    and E: "ae_alloc E = always_alloc"
  shows "\<exists>q. entry_for v i c q \<and> qc_seqno q = n \<and> restore_command E i p (command_record_key v n) st =
    Some (0, (set_handle i (restored_handle [n] (ac_handles st ! i)) st)\<lparr>ac_commands := cl_append q (ac_commands st)\<rparr>)"
proof -
  let ?k = "command_record_key v n" and ?d = "short_details (cmd_details c)"
  let ?q = "(zero_queued ?d)\<lparr>qc_not_restored := True, qc_command := (zero_command ?d)\<lparr>cmd_token := cmd_token c\<rparr>,
    qc_key := Some ?k, qc_client := i, qc_seqno := n\<rparr>"
  have r: "read_record cs p ?k (ac_outer st) = Some (0, Some (command_record v c), ac_outer st)"
    using get [OF s(1,2)] i(3) by (simp add: read_record_def stores_in_def)
  have stem: "has_stem PERSISTENCE_COMMAND_KEY ?k \<or> has_stem PERSISTENCE_V5_COMMAND_KEY ?k"
    using command_record_key_stem [of v n] by (cases "5 \<le> v") simp_all
  have z: "cmd_details (zero_command d) = d" for d by (simp add: zero_command_def)
  have t: "command_type ?d = PUBLISH" using publication_not_connect(1) [OF s(3)] by simp
  have "restore_command E i p ?k st =
      Some (0, (set_handle i (restored_handle [n] (ac_handles st ! i)) st)\<lparr>ac_commands := cl_append ?q (ac_commands st)\<rparr>)"
    unfolding restore_command_def de_Morgan_disj [symmetric] if_not_P [OF not_not [THEN iffD2, OF stem]]
    using r restore_short [OF s(3)] command_record_key_number [OF n, of v] i(1,2) E t z
    by (simp add: handle_at_def set_handle_def restored_handle_def Let_def max_def del: bind_Some_iff)
  moreover have "entry_for v i c ?q" "qc_seqno ?q = n" using s(3) by (simp_all add: entry_for_def zero_command_def)
  ultimately show ?thesis by blast
qed

lemma restore_publications:
  assumes s: "ok s" "stores_in p h cs" "ae_alloc E = always_alloc"
  shows "list_all2 (\<lambda>c n. content s (command_record_key v n) = Some (command_record v c) \<and> publication_ok v c \<and> unat n < 1000000) ps ns \<Longrightarrow>
    ac_outer st = s \<Longrightarrow> i < length (ac_handles st) \<Longrightarrow> ma_store (ac_handles st ! i) = cs \<Longrightarrow>
    \<exists>st' qs. restore_commands E i p (map (command_record_key v) ns) st = Some (0, st') \<and> ac_outer st' = s \<and>
      ac_handles st' = (ac_handles st)[i := restored_handle ns (ac_handles st ! i)] \<and>
      cl_items (ac_commands st') = cl_items (ac_commands st) @ qs \<and> list_all2 (entry_for v i) ps qs \<and> map qc_seqno qs = ns"
proof (induction ps ns arbitrary: st rule: list_all2_induct)
  case Nil
  then show ?case by (intro exI [of _ st] exI [of _ "[]"]) (simp add: restored_handle_def)
next
  case (Cons c ps n ns)
  let ?a = "ac_handles st ! i"
  obtain q where q: "entry_for v i c q" "qc_seqno q = n" "restore_command E i p (command_record_key v n) st =
      Some (0, (set_handle i (restored_handle [n] ?a) st)\<lparr>ac_commands := cl_append q (ac_commands st)\<rparr>)"
    using restore_publication [of st v n c i cs E] Cons.hyps(1) Cons.prems s by auto
  let ?st = "(set_handle i (restored_handle [n] ?a) st)\<lparr>ac_commands := cl_append q (ac_commands st)\<rparr>"
  have h: "ac_outer ?st = s" "i < length (ac_handles ?st)" "ac_handles ?st ! i = restored_handle [n] ?a"
    "ma_store (ac_handles ?st ! i) = cs" "ac_handles ?st = (ac_handles st)[i := restored_handle [n] ?a]"
    "cl_items (ac_commands ?st) = cl_items (ac_commands st) @ [q]"
    using Cons.prems by (simp_all add: set_handle_def restored_handle_def cl_append_def)
  obtain st' qs where r: "restore_commands E i p (map (command_record_key v) ns) ?st = Some (0, st')" "ac_outer st' = s"
      "ac_handles st' = (ac_handles ?st)[i := restored_handle ns (ac_handles ?st ! i)]"
      "cl_items (ac_commands st') = cl_items (ac_commands ?st) @ qs" "list_all2 (entry_for v i) ps qs" "map qc_seqno qs = ns"
    using Cons.IH [OF h(1,2,4)] by blast
  have "restored_handle ns (restored_handle [n] ?a) = restored_handle (n # ns) ?a" by (simp add: restored_handle_def)
  then show ?case
    using r q h(3,5,6) by (intro exI [of _ st'] exI [of _ "q # qs"]) simp
qed

lemma restart_publications:
  assumes s: "ok (ac_outer st)" "commands_for v i ps qs (content (ac_outer st))" "\<forall>q \<in> set qs. unat (qc_seqno q) < 1000000"
    and i: "i < length (ac_handles st)" "client_handle_ok v cs co (ac_handles st ! i)" "stores_in p h cs"
      "ma_command_seqno (ac_handles st ! i) = 0" "ma_noBufferedMessages (ac_handles st ! i) = 0" "cl_items (ac_commands st) = []"
    and E: "ae_alloc E = always_alloc" "is_qsort qsort"
  shows "\<exists>st'. MQTTAsync_restoreCommands E qsort i st = Some (0, st') \<and> ok (ac_outer st') \<and>
    buffered v cs co i ps st' (content (ac_outer st')) \<and> ma_c (ac_handles st' ! i) = ma_c (ac_handles st ! i) \<and>
    ma_command_seqno (ac_handles st' ! i) \<in> insert 0 (qc_seqno ` set qs) \<and> length (ac_handles st') = length (ac_handles st)"
proof -
  let ?ns = "map qc_seqno qs" and ?m = "content (ac_outer st)"
  have f: "list_all2 (entry_for v i) ps qs" "sorted_wrt (<) ?ns" "dom ?m = set (map (command_record_key v) ?ns)"
    "list_all2 (\<lambda>c n. ?m (command_record_key v n) = Some (command_record v c)) ps ?ns"
    using s(2) by (simp_all add: commands_for_def list_all2_map2 image_image)
  obtain ks where ks: "pkeys p h (ac_outer st) = Some (0, Some ks, ac_outer st)" "distinct ks" "set ks = dom ?m"
    using keys [OF s(1)] by blast
  have n: "\<forall>n \<in> set ?ns. unat n < 1000000" using s(3) by simp
  have sk: "sort_keys qsort ks = Some (map (command_record_key v) ?ns)"
    by (rule sorted_keys_unique [OF E(2) ks(2) _ f(2) n]) (simp add: ks(3) f(3))
  have c: "ma_store (ac_handles st ! i) = cs" using i(2) by (simp add: client_handle_ok_def)
  have "list_all2 (\<lambda>c q. ?m (command_record_key v (qc_seqno q)) = Some (command_record v c) \<and> publication_ok v c \<and>
      unat (qc_seqno q) < 1000000) ps qs"
    by (rule list.rel_mono_strong [OF list_all2_both [OF f(1) f(4) [unfolded list_all2_map2]]]) (use s(3) in \<open>simp add: entry_for_def\<close>)
  then have "list_all2 (\<lambda>c n. ?m (command_record_key v n) = Some (command_record v c) \<and> publication_ok v c \<and> unat n < 1000000) ps ?ns"
    by (simp add: list_all2_map2)
  from restore_publications [OF s(1) i(3) E(1) this refl i(1) c]
  obtain st' qs' where r: "restore_commands E i p (map (command_record_key v) ?ns) st = Some (0, st')" "ac_outer st' = ac_outer st"
      "ac_handles st' = (ac_handles st)[i := restored_handle ?ns (ac_handles st ! i)]"
      "cl_items (ac_commands st') = qs'" "list_all2 (entry_for v i) ps qs'" "map qc_seqno qs' = ?ns"
    using i(6) by auto
  have "MQTTAsync_restoreCommands E qsort i st = Some (0, st')"
    using ks(1) sk r(1) i(1,3) c by (simp add: MQTTAsync_restoreCommands_def handle_at_def stores_in_def del: bind_Some_iff)
  moreover have "commands_for v i ps qs' ?m"
  proof -
    have "(\<lambda>q. command_record_key v (qc_seqno q)) ` set qs' = set (map (command_record_key v) ?ns)"
      unfolding r(6) [symmetric] by (simp add: image_image)
    moreover have "list_all2 (\<lambda>c q. ?m (command_record_key v (qc_seqno q)) = Some (command_record v c)) ps qs'"
      using f(4) unfolding r(6) [symmetric] list_all2_map2 .
    ultimately show ?thesis using r(5,6) f(2,3) by (simp add: commands_for_def)
  qed
  moreover have h: "ac_handles st' ! i = restored_handle ?ns (ac_handles st ! i)" "length (ac_handles st') = length (ac_handles st)"
    using r(3) i(1) by simp_all
  moreover have "ma_noBufferedMessages (ac_handles st' ! i) = int (length ps)"
    using h i(5) list_all2_lengthD [OF f(1)] by (simp add: restored_handle_def)
  moreover have "client_handle_ok v cs co (ac_handles st' ! i)" using h i(2) by (simp add: restored_handle_def client_handle_ok_def)
  moreover have "qc_seqno q \<le> ma_command_seqno (ac_handles st' ! i)" if "q \<in> set qs'" for q
  proof -
    have "qc_seqno q \<in> set ?ns" using that r(6) by (metis image_eqI list.set_map)
    then show ?thesis using h(1) by (simp add: restored_handle_def fold_max_upper)
  qed
  moreover have "ma_command_seqno (ac_handles st' ! i) \<in> insert 0 (qc_seqno ` set qs)"
    using h(1) fold_max_in [where m = "0 :: 32 word" and ns = ?ns] i(4) by (simp add: restored_handle_def)
  moreover have "ma_c (ac_handles st' ! i) = ma_c (ac_handles st ! i)" using h(1) by (simp add: restored_handle_def)
  ultimately show ?thesis using r(2,4) s(1) i(1) by (intro exI [of _ st']) (simp add: buffered_def)
qed

end

section \<open>The buffer as a queue\<close>

text \<open>The calls: the application publishes, the sending thread asks for a command, the program is started again, or
  the connection changes.\<close>

datatype buffer_call = Send MQTTAsync_command | Take | Restart Clients | Connection Clients

fun call_buffer ::
  "'s async_env \<Rightarrow> ((bytes \<Rightarrow> bytes \<Rightarrow> int) \<Rightarrow> bytes list \<Rightarrow> bytes list) \<Rightarrow> nat \<Rightarrow> buffer_call \<Rightarrow> 's async_state \<Rightarrow>
   (MQTTAsync_queuedCommand list \<times> 's async_state) ub" where
  "call_buffer E qsort i (Send c) st =
     do { (rc, st) \<leftarrow> MQTTAsync_addCommand E ((zero_queued (cmd_details c))\<lparr>qc_command := c, qc_client := i\<rparr>) st; Some ([], st) }"
| "call_buffer E qsort i Take st =
     do { (q, st) \<leftarrow> next_command E st; Some (case q of None \<Rightarrow> [] | Some q \<Rightarrow> [q], st) }"
| "call_buffer E qsort i (Restart c) st =
     do {
       m \<leftarrow> handle_at st i;
       (rc, st) \<leftarrow> MQTTAsync_restoreCommands E qsort i
         ((set_handle i (m\<lparr>ma_c := c, ma_command_seqno := 0, ma_noBufferedMessages := 0\<rparr>) st)\<lparr>ac_commands := cl_zero\<rparr>);
       Some ([], st)
     }"
| "call_buffer E qsort i (Connection c) st = do { m \<leftarrow> handle_at st i; Some ([], set_handle i (m\<lparr>ma_c := c\<rparr>) st) }"

fun call_buffer_all ::
  "'s async_env \<Rightarrow> ((bytes \<Rightarrow> bytes \<Rightarrow> int) \<Rightarrow> bytes list \<Rightarrow> bytes list) \<Rightarrow> nat \<Rightarrow> buffer_call list \<Rightarrow> 's async_state \<Rightarrow>
   (MQTTAsync_queuedCommand list \<times> 's async_state) ub" where
  "call_buffer_all E qsort i [] st = Some ([], st)"
| "call_buffer_all E qsort i (call # calls) st =
     do {
       (qs, st) \<leftarrow> call_buffer E qsort i call st;
       (qs', st) \<leftarrow> call_buffer_all E qsort i calls st;
       Some (qs @ qs', st)
     }"

text \<open>The queue they implement, with the state of the connection.\<close>

fun fifo :: "(int \<Rightarrow> bool) \<Rightarrow> buffer_call \<Rightarrow> MQTTAsync_command list \<times> Clients \<Rightarrow> MQTTAsync_command list \<times> MQTTAsync_command list \<times> Clients" where
  "fifo idle (Send c) (ps, client) = ([], ps @ [c], client)"
| "fifo idle Take (ps, client) =
     (case ps of
        [] \<Rightarrow> ([], ps, client)
      | c # ps' \<Rightarrow> if sendable idle client (publish_qos (cmd_details c)) then ([c], ps', client) else ([], ps, client))"
| "fifo idle (Restart c) (ps, client) = ([], ps, c)"
| "fifo idle (Connection c) (ps, client) = ([], ps, c)"

fun fifo_all :: "(int \<Rightarrow> bool) \<Rightarrow> buffer_call list \<Rightarrow> MQTTAsync_command list \<times> Clients \<Rightarrow> MQTTAsync_command list \<times> MQTTAsync_command list \<times> Clients" where
  "fifo_all idle [] (ps, client) = ([], ps, client)"
| "fifo_all idle (call # calls) (ps, client) =
     (case fifo idle call (ps, client) of (out, ps, client) \<Rightarrow>
        (case fifo_all idle calls (ps, client) of (out', ps, client) \<Rightarrow> (out @ out', ps, client)))"

definition publications_sent :: "buffer_call list \<Rightarrow> nat" where
  "publications_sent calls = length (filter (\<lambda>call. case call of Send c \<Rightarrow> True | _ \<Rightarrow> False) calls)"

definition buffer_call_ok :: "int \<Rightarrow> buffer_call \<Rightarrow> bool" where
  "buffer_call_ok v call \<longleftrightarrow> (case call of Send c \<Rightarrow> publication_ok v c | Take \<Rightarrow> True
     | Restart c \<Rightarrow> client_MQTTVersion c = v | Connection c \<Rightarrow> client_MQTTVersion c = v)"

text \<open>Neither the clock nor the semaphore nor the sockets change the store.\<close>

definition steady :: "('s \<Rightarrow> bool) \<Rightarrow> ('s \<Rightarrow> bytes \<Rightarrow> bytes option) \<Rightarrow> (int \<Rightarrow> bool) \<Rightarrow> 's async_env \<Rightarrow> bool" where
  "steady ok content idle E \<longleftrightarrow> ae_alloc E = always_alloc \<and> (\<forall>sock s. ae_noPendingWrites E sock s = idle sock) \<and>
     (\<forall>s. ok s \<longrightarrow> ok (snd (ae_now E s)) \<and> content (snd (ae_now E s)) = content s \<and>
       ok (snd (ae_post E s)) \<and> content (snd (ae_post E s)) = content s)"

lemma roomy_mono: "roomy co n \<Longrightarrow> m \<le> n \<Longrightarrow> roomy co m"
  by (auto simp: roomy_def split: option.splits)

context message_store
begin

definition buffer_of ::
  "int \<Rightarrow> 's client_store \<Rightarrow> MQTTAsync_createOptions option \<Rightarrow> nat \<Rightarrow> nat \<Rightarrow> MQTTAsync_command list \<times> Clients \<Rightarrow> 's async_state \<Rightarrow> bool" where
  "buffer_of v cs co i n A st \<longleftrightarrow> ok (ac_outer st) \<and> buffered v cs co i (fst A) st (content (ac_outer st)) \<and>
     ma_c (ac_handles st ! i) = snd A \<and> unat (ma_command_seqno (ac_handles st ! i)) + n < 1000000 \<and> roomy co (length (fst A) + n)"

lemma buffer_step:
  assumes b: "buffer_of v cs co i (publications_sent (call # calls)) A st" and c: "buffer_call_ok v call"
    and E: "stores_in p h cs" "steady ok content idle E" "is_qsort qsort"
  shows "\<exists>qs st'. call_buffer E qsort i call st = Some (qs, st') \<and> list_all2 (same_publication v) (fst (fifo idle call A)) qs \<and>
    buffer_of v cs co i (publications_sent calls) (snd (fifo idle call A)) st'"
proof -
  obtain ps client where A: "A = (ps, client)" by (cases A)
  have s: "ok (ac_outer st)" "buffered v cs co i ps st (content (ac_outer st))" "ma_c (ac_handles st ! i) = client"
    "unat (ma_command_seqno (ac_handles st ! i)) + publications_sent (call # calls) < 1000000" "roomy co (length ps + publications_sent (call # calls))"
    using b by (simp_all add: buffer_of_def A)
  have i: "i < length (ac_handles st)" "client_handle_ok v cs co (ac_handles st ! i)" using s(2) by (simp_all add: buffered_def)
  have e: "ae_alloc E = always_alloc" "\<And>sock s. ae_noPendingWrites E sock s = idle sock"
    "\<And>s. ok s \<Longrightarrow> ok (snd (ae_now E s)) \<and> content (snd (ae_now E s)) = content s"
    "\<And>s. ok s \<Longrightarrow> ok (snd (ae_post E s)) \<and> content (snd (ae_post E s)) = content s"
    using E(2) by (simp_all add: steady_def)
  show ?thesis
  proof (cases call)
    case (Send c)
    then have n: "publication_ok v c" "publications_sent (call # calls) = Suc (publications_sent calls)" using c by (simp_all add: buffer_call_ok_def publications_sent_def)
    have "roomy co (Suc (length ps))" "unat (ma_command_seqno (ac_handles st ! i)) + 1 < 1000000"
      using s(4,5) n(2) by (auto elim: roomy_mono)
    from add_publication [OF s(1,2) E(1) this(1) n(1) this(2) e(1,3,4)] show ?thesis
      using s n(2) Send by (auto simp: buffer_of_def A simp del: bind_Some_iff)
  next
    case Take
    then have n: "publications_sent (call # calls) = publications_sent calls" by (simp add: publications_sent_def)
    have f: "commands_for v i ps (cl_items (ac_commands st)) (content (ac_outer st))" using s(2) by (simp add: buffered_def)
    note ch = choose_publication [OF f i(1) e(2)]
    show ?thesis
    proof (cases "\<exists>c ps'. ps = c # ps' \<and> sendable idle client (publish_qos (cmd_details c))")
      case True
      then obtain c ps' where p: "ps = c # ps'" "sendable idle client (publish_qos (cmd_details c))" by blast
      have u: "unat (ma_command_seqno (ac_handles st ! i)) < 1000000" using s(4) by simp
      obtain q st' where t: "take_command E 0 st = Some (q, st')" "same_publication v c q" "ok (ac_outer st')"
          "buffered v cs co i ps' st' (content (ac_outer st'))" "ma_c (ac_handles st' ! i) = ma_c (ac_handles st ! i)"
          "ma_command_seqno (ac_handles st' ! i) = ma_command_seqno (ac_handles st ! i)"
        using take_publication [OF s(1) s(2) [unfolded p(1)] E(1) u e(1)] by blast
      have "call_buffer E qsort i Take st = Some ([q], st')" using ch p s(3) t(1) by (simp add: next_command_def)
      moreover have "roomy co (length ps' + publications_sent calls)" using s(5) p(1) n by (auto elim: roomy_mono)
      ultimately show ?thesis
        using Take p t s(3,4) n by (intro exI [of _ "[q]"] exI [of _ st']) (simp add: buffer_of_def A del: call_buffer.simps)
    next
      case False
      then have "fifo idle Take (ps, client) = ([], ps, client)" by (auto split: list.split)
      moreover have "call_buffer E qsort i Take st = Some ([], st)"
        using ch False s(3) by (auto simp: next_command_def split: list.splits)
      ultimately show ?thesis
        using Take b n by (intro exI [of _ "[]"] exI [of _ st]) (simp add: A del: call_buffer.simps fifo.simps)
    qed
  next
    case (Restart c)
    then have n: "publications_sent (call # calls) = publications_sent calls" "client_MQTTVersion c = v" using c by (simp_all add: publications_sent_def buffer_call_ok_def)
    let ?st = "(set_handle i ((ac_handles st ! i)\<lparr>ma_c := c, ma_command_seqno := 0, ma_noBufferedMessages := 0\<rparr>) st)\<lparr>ac_commands := cl_zero\<rparr>"
    let ?qs = "cl_items (ac_commands st)"
    have l: "\<forall>q \<in> set ?qs. qc_seqno q \<le> ma_command_seqno (ac_handles st ! i)" using s(2) by (simp add: buffered_def)
    have 1: "commands_for v i ps ?qs (content (ac_outer ?st))" using s(2) by (simp add: buffered_def set_handle_def)
    have 2: "\<forall>q \<in> set ?qs. unat (qc_seqno q) < 1000000" using l s(4) by (fastforce simp: word_le_nat_alt)
    have 3: "i < length (ac_handles ?st)" "client_handle_ok v cs co (ac_handles ?st ! i)" "ma_command_seqno (ac_handles ?st ! i) = 0"
      "ma_noBufferedMessages (ac_handles ?st ! i) = 0" "cl_items (ac_commands ?st) = []" "ok (ac_outer ?st)"
      using i n(2) s(1) by (simp_all add: set_handle_def client_handle_ok_def cl_zero_def)
    obtain st' where t: "MQTTAsync_restoreCommands E qsort i ?st = Some (0, st')" "ok (ac_outer st')"
        "buffered v cs co i ps st' (content (ac_outer st'))" "ma_c (ac_handles st' ! i) = c"
        "ma_command_seqno (ac_handles st' ! i) \<in> insert 0 (qc_seqno ` set ?qs)"
      using restart_publications [OF 3(6) 1 2 3(1,2) E(1) 3(3-5) e(1) E(3)] i(1) by (auto simp: set_handle_def)
    have "ma_command_seqno (ac_handles st' ! i) \<le> ma_command_seqno (ac_handles st ! i)" using t(5) l by auto
    then have "unat (ma_command_seqno (ac_handles st' ! i)) + publications_sent calls < 1000000" using s(4) n(1) by (simp add: word_le_nat_alt)
    moreover have "call_buffer E qsort i (Restart c) st = Some ([], st')" using t(1) i(1) by (simp add: handle_at_def)
    ultimately show ?thesis
      using Restart t s(5) n(1) by (intro exI [of _ "[]"] exI [of _ st']) (simp add: buffer_of_def A del: call_buffer.simps)
  next
    case (Connection c)
    then have n: "publications_sent (call # calls) = publications_sent calls" "client_MQTTVersion c = v" using c by (simp_all add: publications_sent_def buffer_call_ok_def)
    let ?st = "set_handle i ((ac_handles st ! i)\<lparr>ma_c := c\<rparr>) st"
    have "buffered v cs co i ps ?st (content (ac_outer ?st))"
      using s(2) n(2) i by (simp add: buffered_def set_handle_def client_handle_ok_def)
    then show ?thesis using Connection s n(1) i by (simp add: buffer_of_def A handle_at_def set_handle_def)
  qed
qed

lemma buffer_calls:
  assumes "buffer_of v cs co i (publications_sent calls) A st" "\<forall>call \<in> set calls. buffer_call_ok v call"
    "stores_in p h cs" "steady ok content idle E" "is_qsort qsort"
  shows "\<exists>qs st'. call_buffer_all E qsort i calls st = Some (qs, st') \<and> list_all2 (same_publication v) (fst (fifo_all idle calls A)) qs \<and>
    buffer_of v cs co i 0 (snd (fifo_all idle calls A)) st'"
  using assms(1,2)
proof (induction calls arbitrary: A st)
  case Nil
  then show ?case by (cases A) (simp add: publications_sent_def)
next
  case (Cons call calls)
  obtain out ps client where f: "fifo idle call A = (out, ps, client)" by (metis prod_cases3)
  obtain out' B where g: "fifo_all idle calls (ps, client) = (out', B)" by (cases "fifo_all idle calls (ps, client)") blast
  have "buffer_call_ok v call" "\<forall>call \<in> set calls. buffer_call_ok v call" using Cons.prems(2) by simp_all
  from buffer_step [OF Cons.prems(1) this(1) assms(3-5)] obtain qs st' where 1: "call_buffer E qsort i call st = Some (qs, st')"
    "list_all2 (same_publication v) out qs" "buffer_of v cs co i (publications_sent calls) (ps, client) st'"
    using f by auto
  from Cons.IH [OF 1(3) \<open>\<forall>call \<in> set calls. buffer_call_ok v call\<close>] obtain qs' st'' where
    "call_buffer_all E qsort i calls st' = Some (qs', st'')" "list_all2 (same_publication v) out' qs'" "buffer_of v cs co i 0 B st''"
    using g by auto
  then show ?case using 1 f g by (cases A) (auto simp: list_all2_appendI simp del: call_buffer.simps)
qed

end


section \<open>An instance\<close>

primrec insert_by :: "('a \<Rightarrow> 'a \<Rightarrow> int) \<Rightarrow> 'a \<Rightarrow> 'a list \<Rightarrow> 'a list" where
  "insert_by cmp x [] = [x]"
| "insert_by cmp x (y # ys) = (if cmp x y \<le> 0 then x # y # ys else y # insert_by cmp x ys)"

definition insertion_sort :: "('a \<Rightarrow> 'a \<Rightarrow> int) \<Rightarrow> 'a list \<Rightarrow> 'a list" where
  "insertion_sort cmp xs = foldr (insert_by cmp) xs []"

lemma insert_by_insort:
  assumes "\<forall>y \<in> set ys. cmp x y = (if f x = f y then 0 else if f x < f y then - 1 else 1)"
  shows "insert_by cmp x ys = insort_key (f :: 'a \<Rightarrow> int) x ys"
  using assms by (induction ys) auto

lemma insertion_sort_sorts:
  assumes "\<forall>x \<in> set xs. \<forall>y \<in> set xs. cmp x y = (if f x = f y then 0 else if f x < f y then - 1 else 1)"
  shows "insertion_sort cmp xs = sort_key (f :: 'a \<Rightarrow> int) xs"
  using assms
proof (induction xs)
  case (Cons x xs)
  then have "foldr (insert_by cmp) xs [] = sort_key f xs" by (simp add: insertion_sort_def)
  moreover have "insert_by cmp x (sort_key f xs) = insort_key f x (sort_key f xs)"
    using Cons.prems by (intro insert_by_insort) simp
  ultimately show ?case by (simp add: insertion_sort_def)
qed (simp add: insertion_sort_def)

lemma insertion_sort_qsort: "is_qsort insertion_sort"
  unfolding is_qsort_def
proof (intro allI impI)
  fix cmp :: "bytes \<Rightarrow> bytes \<Rightarrow> int" and f :: "bytes \<Rightarrow> int" and xs
  assume "\<forall>x \<in> set xs. \<forall>y \<in> set xs. cmp x y = (if f x = f y then 0 else if f x < f y then - 1 else 1)"
  from insertion_sort_sorts [OF this]
  show "(distinct xs \<longrightarrow> distinct (insertion_sort cmp xs)) \<and> set (insertion_sort cmp xs) = set xs \<and> sorted (map f (insertion_sort cmp xs))"
    by simp
qed

definition connected_client :: Clients where
  "connected_client = blank_client\<lparr>client_MQTTVersion := 5, connected := True, connect_state := NOT_IN_PROGRESS, maxInflightMessages := 10\<rparr>"

definition sample_publication :: "int \<Rightarrow> MQTTAsync_command" where
  "sample_publication token = (zero_command (Pub (Some [97, 98]) 1 (Some [of_int token]) 1 0))\<lparr>cmd_token := token\<rparr>"

definition sample_async :: "file_system async_env" where
  "sample_async = \<lparr>ae_alloc = always_alloc, ae_junk = 0, ae_now = (\<lambda>s. (5, s)), ae_RAND_MAX = 32767, ae_rand = (\<lambda>s. (7, s)),
     ae_post = (\<lambda>s. (0, s)), ae_noPendingWrites = (\<lambda>_ _. True)\<rparr>"

definition sample_handle :: "file_system MQTTAsyncs" where
  "sample_handle = \<lparr>ma_c = blank_client\<lparr>client_MQTTVersion := 5\<rparr>, ma_store = sample_store, ma_responses = cl_zero, ma_command_seqno = 0,
     ma_createOptions = None, ma_shouldBeConnected = True, ma_noBufferedMessages = 0, ma_automaticReconnect = False,
     ma_minRetryInterval = 1, ma_maxRetryInterval = 60, ma_serverURIcount = 0, ma_currentInterval = 0,
     ma_currentIntervalBase = 0, ma_lastConnectionFailedTime = 0, ma_retrying = False\<rparr>"

definition sample_commands :: "file_system async_state" where
  "sample_commands = \<lparr>ac_handles = [sample_handle], ac_commands = cl_zero, ac_outer = sample_files\<rparr>"

text \<open>Two publications without a connection, a restart, a third one; two are sent after the connection is there.\<close>

definition sample_buffer_calls :: "buffer_call list" where
  "sample_buffer_calls = [Send (sample_publication 1), Send (sample_publication 2), Take,
     Restart (blank_client\<lparr>client_MQTTVersion := 5\<rparr>), Send (sample_publication 3), Connection connected_client, Take, Take]"


end
