(* ===== verification/CommandOrder.thy ===== *)
theory CommandOrder
  imports OfflineBuffer
begin

text \<open>
  The order of the commands of several clients, the delay before a client connects again, and what is lost of the
  commands that are stored.
\<close>

section \<open>Which command is taken\<close>

text \<open>The first command of its client, when it can be run.\<close>

definition takeable :: "'s async_env \<Rightarrow> 's async_state \<Rightarrow> MQTTAsync_queuedCommand list \<Rightarrow> nat \<Rightarrow> bool" where
  "takeable E st cmds k \<longleftrightarrow> (\<forall>j < k. qc_client (cmds ! j) \<noteq> qc_client (cmds ! k)) \<and> command_ready E st (cmds ! k) = Some True"

lemma find_map: "List.find P (map f xs) = map_option f (List.find (\<lambda>x. P (f x)) xs)"
  by (induction xs) simp_all

lemma all_less_Suc: "(\<forall>j < Suc k. P j) \<longleftrightarrow> P 0 \<and> (\<forall>j < k. P (Suc j))"
  by (metis Suc_less_eq less_Suc_eq_0_disj zero_less_Suc)

lemma choose_command_find:
  assumes "\<forall>q \<in> set cmds. qc_client q < length (ac_handles st)"
  shows "choose_command E st ignored n cmds =
    Some (map_option (\<lambda>k. n + k) (List.find (\<lambda>k. qc_client (cmds ! k) \<notin> set ignored \<and> takeable E st cmds k) [0..<length cmds]))"
  using assms
proof (induction cmds arbitrary: ignored n)
  case (Cons q cmds)
  let ?P = "\<lambda>ig cmds k. qc_client (cmds ! k) \<notin> set ig \<and> takeable E st cmds k"
  have IH: "choose_command E st ig (Suc n) cmds = Some (map_option (\<lambda>k. Suc n + k) (List.find (?P ig cmds) [0..<length cmds]))" for ig
    by (rule Cons.IH) (use Cons.prems in simp)
  have up: "[0..<length (q # cmds)] = 0 # map Suc [0..<length cmds]" by (simp add: upt_conv_Cons map_Suc_upt del: upt_Suc)
  have shift: "takeable E st (q # cmds) (Suc k) \<longleftrightarrow> qc_client q \<noteq> qc_client (cmds ! k) \<and> takeable E st cmds k" for k
    by (auto simp: takeable_def all_less_Suc)
  obtain ready where r: "command_ready E st q = Some ready" using Cons.prems by (simp add: command_ready_def handle_at_def Let_def)
  have 0: "takeable E st (q # cmds) 0 = ready" using r by (simp add: takeable_def)
  have skip: "choose_command E st ig (Suc n) cmds = Some (map_option (\<lambda>k. n + k) (List.find (?P ignored (q # cmds)) [0..<length (q # cmds)]))"
    if "\<not> ?P ignored (q # cmds) 0" "insert (qc_client q) (set ignored) = set ig" for ig
  proof -
    have e: "(\<lambda>k. ?P ignored (q # cmds) (Suc k)) = ?P ig cmds"
    proof (rule ext)
      fix k
      have "qc_client (cmds ! k) \<in> set ig \<longleftrightarrow> qc_client (cmds ! k) = qc_client q \<or> qc_client (cmds ! k) \<in> set ignored"
        using that(2) by blast
      then show "?P ignored (q # cmds) (Suc k) = ?P ig cmds k" unfolding shift nth_Cons_Suc by metis
    qed
    have "List.find (?P ignored (q # cmds)) [0..<length (q # cmds)] = map_option Suc (List.find (?P ig cmds) [0..<length cmds])"
      unfolding up List.find.simps if_not_P [OF that(1)] find_map e ..
    then show ?thesis unfolding IH by (cases "List.find (?P ig cmds) [0..<length cmds]") simp_all
  qed
  show ?case
  proof (cases "qc_client q \<in> set ignored \<or> \<not> ready")
    case True
    show ?thesis
    proof (cases "qc_client q \<in> set ignored")
      case True
      then show ?thesis using skip [of ignored] by (simp add: insert_absorb)
    next
      case False
      then show ?thesis using skip [of "ignored @ [qc_client q]"] True 0 r by simp
    qed
  next
    case False
    then show ?thesis using r 0 unfolding up by simp
  qed
qed simp

text \<open>C10. The sending thread takes the first command in the queue that is the first one of its client and can be
  run, and none when there is no such command: the commands of one client keep their order, and a client that cannot
  send does not hold up the others.\<close>

theorem commands_in_order:
  assumes "\<forall>q \<in> set (cl_items (ac_commands st)). qc_client q < length (ac_handles st)"
  shows "next_command E st =
    (case List.find (takeable E st (cl_items (ac_commands st))) [0..<length (cl_items (ac_commands st))] of
       None \<Rightarrow> Some (None, st)
     | Some k \<Rightarrow> map_option (\<lambda>(q, st'). (Some q, st')) (take_command E k st))"
  unfolding next_command_def choose_command_find [OF assms]
  by (simp add: option.map_ident map_conv_bind_option comp_def case_prod_unfold split: option.split)

definition busy_commands :: "file_system async_state" where
  "busy_commands = \<lparr>
     ac_handles = [sample_handle\<lparr>ma_store := sample_store\<lparr>persistence := None\<rparr>\<rparr>,
       sample_handle\<lparr>ma_c := connected_client, ma_store := sample_store\<lparr>persistence := None\<rparr>\<rparr>],
     ac_commands = cl_append ((zero_queued (Pub None 0 None 0 0))\<lparr>qc_client := 1\<rparr>)
       (cl_append ((zero_queued (Pub None 0 None 0 0))\<lparr>qc_client := 0\<rparr>) cl_zero),
     ac_outer = sample_files\<rparr>"

theorem commands_in_order_witness:
  "\<exists>q st'. next_command sample_async busy_commands = Some (Some q, st') \<and> qc_client q = 1"
proof -
  have c: "cl_items (ac_commands busy_commands) = [(zero_queued (Pub None 0 None 0 0))\<lparr>qc_client := 0\<rparr>, (zero_queued (Pub None 0 None 0 0))\<lparr>qc_client := 1\<rparr>]"
    "length (ac_handles busy_commands) = 2"
    by (simp_all add: busy_commands_def cl_append_def cl_zero_def)
  have r: "takeable sample_async busy_commands (cl_items (ac_commands busy_commands)) 0 = False"
    "takeable sample_async busy_commands (cl_items (ac_commands busy_commands)) 1 = True"
    unfolding takeable_def c(1)
    by (simp_all add: command_ready_def handle_at_def busy_commands_def sample_handle_def blank_client_def connected_client_def
        sample_async_def zero_queued_def zero_command_def cl_zero_def Let_def)
  have f: "List.find (takeable sample_async busy_commands (cl_items (ac_commands busy_commands)))
      [0..<length (cl_items (ac_commands busy_commands))] = Some 1"
    using r by (simp add: c(1) upt_conv_Cons)
  have t: "\<exists>q st'. take_command sample_async 1 busy_commands = Some (q, st') \<and> qc_client q = 1"
    using c(1) by (simp add: take_command_def handle_at_def busy_commands_def sample_store_def Let_def set_handle_def)
  show ?thesis using commands_in_order [of busy_commands sample_async] f t c by (auto simp: c(1) zero_queued_def)
qed

section \<open>Lost commands\<close>

definition subscription :: "nat \<Rightarrow> bytes list \<Rightarrow> bytes" where
  "subscription n topics = int_bytes (int n) @ concat (map (\<lambda>t. t @ [0]) topics)"

lemma topics_buffers:
  "\<forall>t \<in> set topics. length t < 2 ^ 30 \<Longrightarrow> buffers_bytes (map string_buffer topics) = Some (concat (map (\<lambda>t. t @ [0]) topics))"
proof (induction topics)
  case (Cons t topics)
  then have "strlen_int t = int (length t)" by (simp add: strlen_int_def signed_of_nat signed_take_bit_int_eq_self)
  then show ?case using Cons by (simp add: string_buffer_def to_size_def iov_base_def nat_mod_as_int flip: of_nat_Suc)
qed simp

text \<open>The last topic ends at the end of the record, so that it is taken for a string without its zero.\<close>

lemma take_topics_end:
  assumes "\<forall>t \<in> set topics. 0 \<notin> set t" "topics \<noteq> []" "data = pre @ concat (map (\<lambda>t. t @ [0]) topics)" "p = length pre"
  shows "take_topics always_alloc (length topics) data p acc = Some None"
  using assms
proof (induction topics arbitrary: pre p acc)
  case (Cons t topics)
  note n = strchr_first [of 0 t "concat (map (\<lambda>t. t @ [0]) topics)"]
  show ?case
  proof (cases "topics = []")
    case True
    then show ?thesis using Cons.prems n by (simp add: take_string_def Let_def)
  next
    case False
    then obtain u us where u: "topics = u # us" by (cases topics) auto
    have "take_string always_alloc True data p = Some (Some (t, p + length t + 1))"
      using take_string_front [of t data pre "concat (map (\<lambda>t. t @ [0]) topics)" p True] Cons.prems u by simp
    then show ?thesis
      using Cons.IH [of "pre @ t @ [0]" "p + length t + 1" "acc @ [t]"] Cons.prems False by simp
  qed
qed simp

text \<open>C19. With version 3.1.1 an unsubscription that is stored is not there after a restart: the test for the zero at the
  end of the last topic compares with the wrong length, and the whole command is dropped.\<close>

theorem unsubscribe_not_restored:
  assumes "v < 5" "cmd_details c = Unsub (int (length topics)) topics" "topics \<noteq> []" "length topics < 2 ^ 31" "int_ok (cmd_token c)"
    "\<forall>t \<in> set topics. 0 \<notin> set t \<and> length t < 2 ^ 30"
  shows "\<exists>bufs record. command_buffers v c = Some (Some bufs) \<and> buffers_bytes bufs = Some record \<and>
    MQTTAsync_restoreCommand always_alloc record w None = Some None"
proof -
  let ?h = "int_bytes UNSUBSCRIBE @ int_bytes (cmd_token c) @ int_bytes (int (length topics))" and ?t = "concat (map (\<lambda>t. t @ [0]) topics)"
  let ?bufs = "[int_buffer UNSUBSCRIBE, int_buffer (cmd_token c), int_buffer (int (length topics))] @ map string_buffer topics"
  have b: "buffers_bytes [int_buffer UNSUBSCRIBE, int_buffer (cmd_token c), int_buffer (int (length topics))] = Some ?h"
    by (simp add: int_buffer_def to_size_def iov_base_def)
  have r: "buffers_bytes ?bufs = Some (?h @ ?t)"
    by (rule buffers_bytes_append [OF b topics_buffers]) (use assms(6) in blast)
  have i: "int_ok UNSUBSCRIBE" "int_ok (int (length topics))" using assms(4) by (simp_all add: int_ok_def)
  have 1: "read_int (?h @ ?t) 0 = Some (UNSUBSCRIBE, 4)" using read_int_front [OF i(1), of _ "[]"] by simp
  have 2: "read_int (?h @ ?t) 4 = Some (cmd_token c, 8)" using read_int_front [OF assms(5), of _ "int_bytes UNSUBSCRIBE"] by simp
  have 3: "take_int (?h @ ?t) 8 = Some (Some (int (length topics), 12))"
    using take_int_front [OF i(2), of _ "int_bytes UNSUBSCRIBE @ int_bytes (cmd_token c)"] by simp
  have 4: "take_topics always_alloc (length topics) (?h @ ?t) 12 [] = Some None"
    by (rule take_topics_end [where pre = ?h]) (use assms(3,6) in simp_all)
  have "MQTTAsync_restoreCommand always_alloc (?h @ ?t) w None = Some None"
    unfolding MQTTAsync_restoreCommand_def restore_details_def restore_unsubscribe_def
    using 1 2 3 4 by (simp del: bind_Some_iff append_assoc)
  moreover have "command_buffers v c = Some (Some ?bufs)" using assms(2) by (simp add: command_buffers_def)
  ultimately show ?thesis using r by blast
qed

theorem unsubscribe_not_restored_witness:
  "\<exists>bufs record. command_buffers 4 ((zero_command (Unsub 2 [[97], [98, 99]]))\<lparr>cmd_token := 3\<rparr>) = Some (Some bufs) \<and>
    buffers_bytes bufs = Some record \<and> MQTTAsync_restoreCommand always_alloc record 4 None = Some None"
  by (rule unsubscribe_not_restored [where topics = "[[97], [98, 99]]"]) (simp_all add: zero_command_def int_ok_def)



section \<open>The delay before a client connects again\<close>

text \<open>The bounds of the delay for a base: a fifth more than the base, and the base divided by 1.2.\<close>

definition longest_delay :: "int \<Rightarrow> int \<Rightarrow> int" where
  "longest_delay base maxInterval = min maxInterval base * 6 div 5"

definition shortest_delay :: "int \<Rightarrow> int \<Rightarrow> int" where
  "shortest_delay base minInterval = max minInterval base * 5 div 6"

definition interval_ok :: "int \<Rightarrow> bool" where
  "interval_ok i \<longleftrightarrow> 0 \<le> i \<and> i < 2 ^ 30"

lemma delays:
  assumes "interval_ok base" "interval_ok i"
  shows "int_of_double (min i base * 6) 5 = Some (longest_delay base i)" "int_of_double (max i base * 5) 6 = Some (shortest_delay base i)"
    "0 \<le> longest_delay base i" "0 \<le> shortest_delay base i" "longest_delay base i < 2 ^ 31 - 1"
proof -
  have "min i base * 6 div 5 < 2 ^ 31 - 1" "max i base * 5 div 6 < 2 ^ 31" "0 \<le> min i base" "0 \<le> max i base"
    using assms by (auto simp: interval_ok_def min_def max_def)
  then show "int_of_double (min i base * 6) 5 = Some (longest_delay base i)" "int_of_double (max i base * 5) 6 = Some (shortest_delay base i)"
    "0 \<le> longest_delay base i" "0 \<le> shortest_delay base i" "longest_delay base i < 2 ^ 31 - 1"
    by (auto simp: int_of_double_def longest_delay_def shortest_delay_def Let_def)
qed

text \<open>The states of the generator.\<close>

definition rand_value :: "('s \<Rightarrow> int \<times> 's) \<Rightarrow> 's \<Rightarrow> nat \<Rightarrow> int" where
  "rand_value rand s n = fst (rand (((\<lambda>s. snd (rand s)) ^^ n) s))"

lemma jitter_loop_returns:
  assumes "rand_value rand s n < limit" "\<forall>s. 0 \<le> fst (rand s)"
  shows "\<exists>r s'. jitter_loop rand limit s = Some (r, s') \<and> 0 \<le> r \<and> r < limit"
  using assms(1)
proof (induction n arbitrary: s)
  case 0
  obtain r t where "rand s = (r, t)" by force
  moreover have "0 \<le> fst (rand s)" "fst (rand s) < limit" using 0 assms(2) by (simp_all add: rand_value_def)
  ultimately show ?case by (subst jitter_loop.simps) simp
next
  case (Suc n)
  obtain r t where r: "rand s = (r, t)" by force
  show ?case
  proof (cases "limit \<le> r")
    case True
    have "rand_value rand t n < limit" using Suc.prems r by (simp add: rand_value_def funpow_Suc_right del: funpow.simps)
    from Suc.IH [OF this] True r show ?thesis by (subst jitter_loop.simps) simp
  next
    case False
    moreover have "0 \<le> fst (rand s)" using assms(2) by simp
    ultimately show ?thesis using r by (subst jitter_loop.simps) simp
  qed
qed

text \<open>C39. The delay before the client connects again lies between its bounds, whenever they are no further apart than
  the numbers of \<open>rand\<close>, and the loop that discards numbers ends with the first one below the limit.\<close>

theorem retry_delay_in_range:
  assumes "interval_ok base" "interval_ok minI" "interval_ok maxI" "shortest_delay base minI < longest_delay base maxI"
    "longest_delay base maxI - shortest_delay base minI < RAND_MAX" "\<forall>s. 0 \<le> fst (rand s)"
    "rand_value rand s n < RAND_MAX div (longest_delay base maxI - shortest_delay base minI + 1) *
       (longest_delay base maxI - shortest_delay base minI + 1)"
  shows "\<exists>delay s'. MQTTAsync_randomJitter RAND_MAX rand base minI maxI s = Some (delay, s') \<and>
    shortest_delay base minI \<le> delay \<and> delay \<le> longest_delay base maxI"
proof -
  let ?lo = "shortest_delay base minI" and ?hi = "longest_delay base maxI"
  let ?range = "?hi - ?lo + 1"
  let ?b = "RAND_MAX div ?range"
  obtain r s' where r: "jitter_loop rand (?b * ?range) s = Some (r, s')" "0 \<le> r" "r < ?b * ?range"
    using jitter_loop_returns [OF assms(7,6)] by blast
  have b: "0 < ?b" using assms(4,5) by (simp add: pos_imp_zdiv_pos_iff)
  have "r div ?b < ?range" 
  proof -
    have "?b * (r div ?b) \<le> r" using b r(2) by (simp add: minus_mod_eq_mult_div [symmetric])
    then have "?b * (r div ?b) < ?b * ?range" using r(3) by linarith
    then show ?thesis using b by (simp only: mult_less_cancel_left_pos)
  qed
  moreover have "0 \<le> r div ?b" using r(2) b by (simp add: pos_imp_zdiv_nonneg_iff)
  moreover have "MQTTAsync_randomJitter RAND_MAX rand base minI maxI s = Some (?lo + r div ?b, s')"
    using delays [OF assms(1,3)] delays [OF assms(1,2)] r(1) assms(4)
    by (simp add: MQTTAsync_randomJitter_def Let_def del: bind_Some_iff)
  ultimately show ?thesis by simp
qed

theorem retry_delay_in_range_witness:
  "\<exists>delay s'. MQTTAsync_randomJitter 32767 (\<lambda>s :: nat. (int s, 100)) 60 1 60 32760 = Some (delay, s') \<and> 50 \<le> delay \<and> delay \<le> 72"
  using retry_delay_in_range [of 60 1 60 32767 "\<lambda>s :: nat. (int s, 100)" 32760 1]
  by (simp add: interval_ok_def shortest_delay_def longest_delay_def rand_value_def)

lemma jitter_loop_limit: "jitter_loop rand limit s = Some x \<Longrightarrow> (\<forall>s. 0 \<le> fst (rand s)) \<longrightarrow> limit \<noteq> 0"
proof (rule jitter_loop.raw_induct [where P = "\<lambda>rand limit s x. (\<forall>s. 0 \<le> fst (rand s)) \<longrightarrow> limit \<noteq> 0"], rule impI)
  fix loop :: "('a \<Rightarrow> int \<times> 'a) \<Rightarrow> int \<Rightarrow> 'a \<Rightarrow> (int \<times> 'a) option" and rand :: "'a \<Rightarrow> int \<times> 'a" and limit s y
  assume IH: "\<And>rand limit s y. loop rand limit s = Some y \<Longrightarrow> (\<forall>s. 0 \<le> fst (rand s)) \<longrightarrow> limit \<noteq> 0"
    and c: "(case rand s of (r, s) \<Rightarrow> if limit \<le> r then loop rand limit s else Some (r, s)) = Some y"
    and p: "\<forall>s. 0 \<le> fst (rand s)"
  obtain r t where r: "rand s = (r, t)" by force
  then have "0 \<le> r" using p by (metis fst_conv)
  moreover have "limit \<noteq> 0" if "limit \<le> r" using IH [of rand limit t y] c r that p by simp
  ultimately show "limit \<noteq> 0" by linarith
qed

lemma jitter_loop_zero: "\<forall>s. 0 \<le> fst (rand s) \<Longrightarrow> jitter_loop rand 0 s = None"
  using jitter_loop_limit [of rand 0 s] by (cases "jitter_loop rand 0 s") auto

text \<open>C40. When the bounds are further apart than the numbers of \<open>rand\<close>, which is the case on Windows for a base of
  25 hours, the loop never ends: the thread that connects again hangs.\<close>

theorem long_retry_delay_hangs:
  assumes "interval_ok base" "interval_ok minI" "interval_ok maxI"
    "RAND_MAX \<le> longest_delay base maxI - shortest_delay base minI" "0 < RAND_MAX" "\<forall>s. 0 \<le> fst (rand s)"
  shows "MQTTAsync_randomJitter RAND_MAX rand base minI maxI s = None"
proof -
  have "RAND_MAX div (longest_delay base maxI - shortest_delay base minI + 1) = 0" using assms(4,5) by simp
  then show ?thesis
    using delays [OF assms(1,3)] delays [OF assms(1,2)] jitter_loop_zero [OF assms(6), of s] assms(4,5)
    by (simp add: MQTTAsync_randomJitter_def Let_def del: bind_Some_iff)
qed

theorem long_retry_delay_hangs_witness:
  "MQTTAsync_randomJitter 32767 (\<lambda>s :: nat. (int s, Suc s)) 100000 1 100000 0 = None"
  by (rule long_retry_delay_hangs) (simp_all add: interval_ok_def shortest_delay_def longest_delay_def)

end
