(* ===== verification/Spec2Isabelle.thy ===== *)
theory Spec2Isabelle
  imports ListSessions Utf8 Base64 Sha1 Socks5Run Publishing FrameFormat Connecting QueueRecords LargeIds CommandOrder
begin

text \<open>
  \<^bold>\<open>The program.\<close>  An MQTT client library in C (the directory \<open>src/src\<close>), a variant of Eclipse Paho with a
  SOCKS5 proxy client.  An API layer (\<open>MQTTClient.c\<close>, \<open>MQTTAsync.c\<close>, \<open>MQTTAsyncUtils.c\<close>) keeps a list of clients and
  calls the protocol module \<open>MQTTProtocolClient.c\<close>, which runs the message exchanges of QoS 0, 1 and 2, and
  \<open>MQTTProtocolOut.c\<close>, which connects.  Both build packets with \<open>MQTTPacket.c\<close>, \<open>MQTTPacketOut.c\<close> and
  \<open>MQTTProperties.c\<close>.  A packet goes through \<open>WebSocket.c\<close>, which wraps it in a frame when the connection
  is a WebSocket, to \<open>Socket.c\<close>, which keeps in \<open>SocketBuffer.c\<close> what was read or written in part.  All state
  is kept in the lists of \<open>LinkedList.c\<close>.

  \<^bold>\<open>The configuration.\<close>  The sources are read as they are compiled for Windows with WinSock, without OpenSSL, with
  32-bit \<open>int\<close>, 64-bit \<open>size_t\<close>, signed \<open>char\<close> and two's complement.

  \<^bold>\<open>Conventions\<close> (\<open>Prelude\<close>).  Undefined behaviour (an access outside an object, through \<open>NULL\<close> or after \<open>free\<close>) has
  no result: such functions return \<open>'a ub\<close>, an option.  Return codes are ordinary values.  A loop that may run for
  ever is a \<open>partial_function\<close>, whose result is then \<open>None\<close> as well; theorems that a function returns are stated as
  such.  \<open>malloc\<close> is the argument \<open>allocator\<close>, which says which requests succeed; the system calls, the clock
  and the random numbers are records of functions on an arbitrary state.  Logging, \<open>FUNC_ENTRY\<close> and the
  freeing of memory that is not used again leave no trace in the model.  Threads are only modelled where the
  code has two that work on the same state, in the SOCKS5 handshake.

  \<^bold>\<open>The theories\<close>, from the bottom up.

  \<^item> \<open>Prelude\<close>, \<open>CString\<close>: types, words, buffers, the string functions of the C library.
  \<^item> \<open>LinkedList\<close> is \<open>LinkedList.c\<close> over a store of list elements.  \<open>CursorList\<close> is its specification, a list with a
    cursor, and \<open>ListRefinement\<close>, \<open>ListSessions\<close> show that the pointer code implements it; the other
    theories use the specification.
  \<^item> \<open>Utf8\<close> (\<open>utf-8.c\<close>), \<open>Base64\<close> (\<open>Base64.c\<close>) and \<open>Sha1\<close> (\<open>SHA1.c\<close>): the routines against the table of well-formed
    byte sequences, RFC 4648 and FIPS 180-4.
  \<^item> \<open>PacketIO\<close>: the wire primitives of \<open>MQTTPacket.c\<close>, with the locale \<open>wire_codec\<close> of a writer and a reader that
    belong together, interpreted on integers, remaining lengths, strings and properties.  \<open>Properties\<close>:
    \<open>MQTTProperties.c\<close>.
  \<^item> \<open>Clients\<close>: \<open>Clients.h\<close>.  \<open>Packets\<close>, \<open>PacketsOut\<close>: \<open>MQTTPacket.c\<close> and \<open>MQTTPacketOut.c\<close> over the record \<open>transport\<close>.
    \<open>PacketCodec\<close> and \<open>PacketReceive\<close> show what is on the wire and that \<open>MQTTPacket_Factory\<close> reads it back.
  \<^item> \<open>Protocol\<close>: \<open>MQTTProtocolClient.c\<close>, its state the clients, the publications and the pending writes.
    \<open>MessageIds\<close>: the choice of identifiers.  \<open>MessageStore\<close>: reference counts and lists.  \<open>Exchanges\<close>: a client as an
    abstract \<open>session\<close>, and each handler as a step of it.  \<open>Sessions\<close>: all clients, any sequence of packets.
    \<open>Publishing\<close>: the start of an exchange.
  \<^item> \<open>SocketBuffer\<close>, \<open>SocketLayer\<close> (\<open>Socket.c\<close>), \<open>Addresses\<close> (\<open>MQTTProtocolOut.c\<close>), \<open>WebSocket\<close>: the way down to the
    system calls, the record \<open>os_env\<close>.  \<open>PacketStream\<close>: a packet that arrives in pieces.  \<open>PartialWrites\<close>: a
    packet that is written in pieces.  \<open>FrameFormat\<close>: frames against RFC 6455.  \<open>Connecting\<close>: \<open>MQTTProtocol_connect\<close>.
  \<^item> \<open>Socks5\<close>, \<open>Socks5Stream\<close>, \<open>Socks5Handshake\<close>, \<open>Socks5Run\<close>: \<open>MQTTSocks5Proxy.c\<close> and \<open>MQTTSocks5Net.c\<close>, with the
    interleavings of the connecting and the reading thread as the relation \<open>proxy_connect_step\<close>.
\<close>

end
